(* ===== verification/Go_Strings.thy ===== *)
theory Go_Strings
  imports Prelude
begin

text \<open>
  The functions of Go's \<open>strings\<close> package the repository calls, on byte strings
  whose characters are ASCII (names, versions, header values and configuration of the
  registry): for such strings Go's Unicode case mapping and white space are the ASCII ones
  below. Bytes of 128 and above are left alone.
\<close>

definition lower_char :: "char \<Rightarrow> char" where
  "lower_char c = (let n = (of_char c :: nat) in if 65 \<le> n \<and> n \<le> 90 then char_of (n + 32) else c)"

definition to_lower :: "string \<Rightarrow> string" where
  "to_lower s = map lower_char s"

definition is_space :: "char \<Rightarrow> bool" where
  "is_space c = (let n = (of_char c :: nat) in n = 32 \<or> (9 \<le> n \<and> n \<le> 13))"

definition trim_left :: "string \<Rightarrow> string" where
  "trim_left s = dropWhile is_space s"

definition trim_space :: "string \<Rightarrow> string" where
  "trim_space s = rev (dropWhile is_space (rev (trim_left s)))"

definition equal_fold :: "string \<Rightarrow> string \<Rightarrow> bool" where
  "equal_fold a b = (to_lower a = to_lower b)"

definition has_prefix :: "string \<Rightarrow> string \<Rightarrow> bool" where
  "has_prefix s p = (take (length p) s = p)"

definition trim_prefix :: "string \<Rightarrow> string \<Rightarrow> string" where
  "trim_prefix s p = (if has_prefix s p then drop (length p) s else s)"

text \<open>\<open>strings.Split\<close> with a one-byte separator, and \<open>strings.Join\<close> with one.\<close>

fun split_on :: "char \<Rightarrow> string \<Rightarrow> string list" where
  "split_on sep [] = [[]]"
| "split_on sep (c # cs) =
     (if c = sep then [] # split_on sep cs
      else (case split_on sep cs of [] \<Rightarrow> [[c]] | p # ps \<Rightarrow> (c # p) # ps))"

fun join_with :: "char \<Rightarrow> string list \<Rightarrow> string" where
  "join_with sep [] = []"
| "join_with sep [p] = p"
| "join_with sep (p # ps) = p @ sep # join_with sep ps"

section \<open>Case mapping\<close>

lemma lower_char_idem [simp]: "lower_char (lower_char c) = lower_char c"
  by (auto simp: lower_char_def Let_def)

lemma to_lower_idem [simp]: "to_lower (to_lower s) = to_lower s"
  by (simp add: to_lower_def)

lemma to_lower_Nil_iff [simp]: "to_lower s = [] \<longleftrightarrow> s = []" "[] = to_lower s \<longleftrightarrow> s = []"
  by (auto simp: to_lower_def)

lemma to_lower_Nil [simp]: "to_lower [] = []"
  by (simp add: to_lower_def)

lemma length_to_lower [simp]: "length (to_lower s) = length s"
  by (simp add: to_lower_def)

lemma equal_fold_refl [simp]: "equal_fold s s"
  by (simp add: equal_fold_def)

lemma equal_fold_sym: "equal_fold a b \<Longrightarrow> equal_fold b a"
  by (simp add: equal_fold_def)

section \<open>Trimming\<close>

definition no_outer_space :: "string \<Rightarrow> bool" where
  "no_outer_space s \<longleftrightarrow> (s = [] \<or> (\<not> is_space (hd s) \<and> \<not> is_space (last s)))"

lemma dropWhile_hd: "dropWhile P xs = [] \<or> \<not> P (hd (dropWhile P xs))"
  by (induction xs) auto

lemma trim_space_clean: "no_outer_space s \<Longrightarrow> trim_space s = s"
proof (cases s)
  case (Cons c cs)
  assume "no_outer_space s"
  with Cons have "\<not> is_space c" and l: "\<not> is_space (last s)"
    by (auto simp: no_outer_space_def)
  then have "trim_left s = s"
    using Cons by (simp add: trim_left_def)
  moreover have "dropWhile is_space (rev s) = rev s"
    using l Cons by (cases "rev s") (auto simp: last_rev simp flip: hd_rev)
  ultimately show ?thesis
    by (simp add: trim_space_def)
qed (simp add: trim_space_def trim_left_def)

lemma no_outer_space_trim [simp]: "no_outer_space (trim_space s)"
proof -
  let ?t = "trim_left s"
  let ?u = "dropWhile is_space (rev ?t)"
  have ts: "trim_space s = rev ?u"
    by (simp add: trim_space_def)
  show ?thesis
  proof (cases "?u = []")
    case True
    then show ?thesis by (simp add: ts no_outer_space_def)
  next
    case False
    have last: "\<not> is_space (last (rev ?u))"
      using False dropWhile_hd [of is_space "rev ?t"] by (metis hd_rev rev_rev_ident)
    obtain pre where "rev ?t = pre @ ?u"
      by (metis takeWhile_dropWhile_id)
    then have t: "?t = rev ?u @ rev pre"
      by (metis rev_append rev_rev_ident)
    moreover have u: "rev ?u \<noteq> []"
      using False by (metis rev_is_Nil_conv)
    ultimately have "hd (rev ?u) = hd ?t" and "?t \<noteq> []"
      by (metis hd_append2, metis append_is_Nil_conv)
    moreover have "?t \<noteq> [] \<Longrightarrow> \<not> is_space (hd ?t)"
      using dropWhile_hd [of is_space s] by (auto simp: trim_left_def)
    ultimately show ?thesis
      using last by (simp add: ts no_outer_space_def)
  qed
qed

lemma trim_space_idem [simp]: "trim_space (trim_space s) = trim_space s"
  by (rule trim_space_clean) simp

section \<open>Splitting and joining\<close>

lemma split_on_not_Nil [simp]: "split_on sep s \<noteq> []"
  by (induction s) (auto split: list.splits)

lemma split_on_no_sep: "sep \<notin> set s \<Longrightarrow> split_on sep s = [s]"
  by (induction s) auto

lemma split_on_append_sep:
  "sep \<notin> set p \<Longrightarrow> split_on sep (p @ sep # s) = p # split_on sep s"
  by (induction p) auto

lemma split_on_join:
  "ps \<noteq> [] \<Longrightarrow> (\<And>p. p \<in> set ps \<Longrightarrow> sep \<notin> set p) \<Longrightarrow> split_on sep (join_with sep ps) = ps"
proof (induction ps rule: join_with.induct [case_names empty single more])
  case (more sep p q ps)
  then show ?case by (simp add: split_on_append_sep)
qed (simp_all add: split_on_no_sep)

lemma has_prefix_append [simp]: "has_prefix (p @ s) p"
  by (simp add: has_prefix_def)

lemma trim_prefix_append [simp]: "trim_prefix (p @ s) p = s"
  by (simp add: trim_prefix_def)

end
