(* ===== verification/Path_Match.thy ===== *)
theory Path_Match
  imports Go_Strings
begin

text \<open>
  Go's \<open>path.Match\<close>, which decides whether the \<open>version_pattern\<close> of a policy rule
  selects a version (\<open>internal/policy/rule.go\<close>). The functions follow the standard
  library: a pattern is cut into chunks at its stars, a chunk is matched character by
  character, and a malformed pattern (\<open>ErrBadPattern\<close>) is \<open>None\<close>. Runes are the
  single bytes of ASCII patterns and versions.
\<close>

definition backslash :: char where
  "backslash = CHR 0x5C"

fun scan_body :: "bool \<Rightarrow> string \<Rightarrow> string \<times> string" where
  "scan_body inrange [] = ([], [])"
| "scan_body inrange (c # cs) =
     (if c = backslash then
        (case cs of
           [] \<Rightarrow> ([c], [])
         | d # ds \<Rightarrow> (let (a, b) = scan_body inrange ds in (c # d # a, b)))
      else if c = CHR ''['' then (let (a, b) = scan_body True cs in (c # a, b))
      else if c = CHR '']'' then (let (a, b) = scan_body False cs in (c # a, b))
      else if c = CHR ''*'' \<and> \<not> inrange then ([], c # cs)
      else (let (a, b) = scan_body inrange cs in (c # a, b)))"

definition scan_chunk :: "string \<Rightarrow> bool \<times> string \<times> string" where
  "scan_chunk pattern =
     (let p = dropWhile (\<lambda>c. c = CHR ''*'') pattern in
      (length p \<noteq> length pattern, scan_body False p))"

fun get_esc :: "string \<Rightarrow> (char \<times> string) option" where
  "get_esc [] = None"
| "get_esc (c # cs) =
     (if c = CHR ''-'' \<or> c = CHR '']'' then None
      else if c = backslash then
        (case cs of
           [] \<Rightarrow> None
         | d # ds \<Rightarrow> (if ds = [] then None else Some (d, ds)))
      else if cs = [] then None
      else Some (c, cs))"

lemma get_esc_length: "get_esc chunk = Some (c, rest) \<Longrightarrow> length rest < length chunk"
  by (cases chunk) (auto split: if_splits list.splits)

text \<open>
  The ranges of a character class, after \<open>[\<close> and an optional \<open>^\<close>. The class must
  hold at least one range before its closing bracket.
\<close>

function class_ranges :: "string \<Rightarrow> nat \<Rightarrow> nat \<Rightarrow> bool \<Rightarrow> (bool \<times> string) option" where
  "class_ranges chunk nrange r matched =
     (if chunk \<noteq> [] \<and> hd chunk = CHR '']'' \<and> 0 < nrange then Some (matched, tl chunk)
      else (case get_esc chunk of
          None \<Rightarrow> None
        | Some (lo, chunk1) \<Rightarrow>
            (if chunk1 \<noteq> [] \<and> hd chunk1 = CHR ''-'' then
               (case get_esc (tl chunk1) of
                  None \<Rightarrow> None
                | Some (hi, chunk2) \<Rightarrow>
                    class_ranges chunk2 (Suc nrange) r
                      (matched \<or> (of_char lo \<le> r \<and> r \<le> of_char hi)))
             else class_ranges chunk1 (Suc nrange) r (matched \<or> r = of_char lo))))"
  by pat_completeness auto
termination
  by (relation "measure (\<lambda>(chunk, nrange, r, m). length chunk)")
     (auto dest!: get_esc_length simp: neq_Nil_conv)

declare class_ranges.simps [simp del]

lemma class_ranges_length:
  "class_ranges chunk n r m = Some (m', rest) \<Longrightarrow> length rest < length chunk"
proof (induction chunk n r m rule: class_ranges.induct)
  case (1 chunk n r m)
  show ?case
  proof (cases "chunk \<noteq> [] \<and> hd chunk = CHR '']'' \<and> 0 < n")
    case True
    with "1.prems" show ?thesis
      by (auto simp: class_ranges.simps [of chunk])
  next
    case False
    with "1.prems" obtain lo ch1 where e: "get_esc chunk = Some (lo, ch1)"
      by (auto simp: class_ranges.simps [of chunk] split: option.splits if_splits)
    note l = get_esc_length [OF e]
    show ?thesis
    proof (cases "ch1 \<noteq> [] \<and> hd ch1 = CHR ''-''")
      case True
      with "1.prems" False e obtain hi ch2 where e2: "get_esc (tl ch1) = Some (hi, ch2)"
        by (subst (asm) class_ranges.simps) (auto split: option.splits if_splits)
      with "1.prems" False e True
      have "class_ranges ch2 (Suc n) r (m \<or> of_char lo \<le> r \<and> r \<le> of_char hi) = Some (m', rest)"
        by (subst (asm) class_ranges.simps) (simp add: False)
      with "1.IH"(1) [OF False e refl True e2 refl] have "length rest < length ch2"
        by simp
      moreover have "length ch2 < length (tl ch1)"
        by (rule get_esc_length [OF e2])
      ultimately show ?thesis
        using l by simp
    next
      case F2: False
      with "1.prems" False e
      have "class_ranges ch1 (Suc n) r (m \<or> r = of_char lo) = Some (m', rest)"
        by (subst (asm) class_ranges.simps) simp
      with "1.IH"(2) [OF False e refl F2] l show ?thesis
        by simp
    qed
  qed
qed

function match_chunk :: "string \<Rightarrow> string \<Rightarrow> bool \<Rightarrow> string option option" where
  "match_chunk [] s failed = Some (if failed then None else Some s)"
| "match_chunk (c # cs) s failed0 =
     (let failed = (failed0 \<or> s = []) in
      if c = CHR ''['' then
        (let r = (if failed then 0 else of_char (hd s));
             s' = (if failed then s else tl s);
             negated = (cs \<noteq> [] \<and> hd cs = CHR ''^'');
             cs' = (if negated then tl cs else cs)
         in (case class_ranges cs' 0 r False of
               None \<Rightarrow> None
             | Some (matched, rest) \<Rightarrow> match_chunk rest s' (failed \<or> matched = negated)))
      else if c = CHR ''?'' then
        (if failed then match_chunk cs s True
         else match_chunk cs (tl s) (hd s = CHR ''/''))
      else if c = backslash then
        (case cs of
           [] \<Rightarrow> None
         | d # ds \<Rightarrow>
             (if failed then match_chunk ds s True else match_chunk ds (tl s) (d \<noteq> hd s)))
      else
        (if failed then match_chunk cs s True else match_chunk cs (tl s) (c \<noteq> hd s)))"
  by pat_completeness auto
termination
  by (relation "measure (\<lambda>(chunk, s, failed). length chunk)")
     (auto dest!: class_ranges_length split: if_splits)

fun star_try :: "string \<Rightarrow> bool \<Rightarrow> string \<Rightarrow> string option option" where
  "star_try chunk last_chunk [] = Some None"
| "star_try chunk last_chunk (c # cs) =
     (if c = CHR ''/'' then Some None
      else (case match_chunk chunk cs False of
          None \<Rightarrow> None
        | Some None \<Rightarrow> star_try chunk last_chunk cs
        | Some (Some t) \<Rightarrow>
            (if last_chunk \<and> t \<noteq> [] then star_try chunk last_chunk cs else Some (Some t))))"

lemma scan_body_length: "scan_body b p = (chunk, rest) \<Longrightarrow> length chunk + length rest = length p"
  by (induction b p arbitrary: chunk rest rule: scan_body.induct)
     (auto split: if_splits list.splits prod.splits simp: Let_def)

lemma scan_body_progress:
  "scan_body False (c # cs) = (chunk, rest) \<Longrightarrow> c \<noteq> CHR ''*'' \<Longrightarrow> length rest < length (c # cs)"
  by (auto split: if_splits list.splits prod.splits simp: Let_def dest!: scan_body_length)

lemma scan_chunk_length:
  assumes "scan_chunk (c # cs) = (star, chunk, rest)"
  shows "length rest < length (c # cs)"
proof (cases "c = CHR ''*''")
  case True
  with assms have "scan_body False (dropWhile (\<lambda>c. c = CHR ''*'') cs) = (chunk, rest)"
    by (simp add: scan_chunk_def Let_def)
  then have "length rest \<le> length (dropWhile (\<lambda>c. c = CHR ''*'') cs)"
    using scan_body_length by fastforce
  then show ?thesis
    using length_dropWhile_le [of "\<lambda>c. c = CHR ''*''" cs] by simp
next
  case False
  with assms show ?thesis
    by (intro scan_body_progress) (auto simp: scan_chunk_def Let_def)
qed

text \<open>After a mismatch the rest of the pattern is still checked for well-formedness.\<close>

function check_rest :: "string \<Rightarrow> bool option" where
  "check_rest [] = Some False"
| "check_rest (c # cs) =
     (case scan_chunk (c # cs) of (star, chunk, rest) \<Rightarrow>
        (case match_chunk chunk [] False of None \<Rightarrow> None | Some _ \<Rightarrow> check_rest rest))"
  by pat_completeness auto
termination
  by (relation "measure length") (auto dest!: scan_chunk_length [OF sym])

function path_match :: "string \<Rightarrow> string \<Rightarrow> bool option" where
  "path_match [] name = Some (name = [])"
| "path_match (c # cs) name =
     (case scan_chunk (c # cs) of (star, chunk, rest) \<Rightarrow>
        (if star \<and> chunk = [] then Some (CHR ''/'' \<notin> set name)
         else (case match_chunk chunk name False of
             None \<Rightarrow> None
           | Some mt \<Rightarrow>
               (if mt \<noteq> None \<and> (the mt = [] \<or> rest \<noteq> []) then path_match rest (the mt)
                else if star then
                  (case star_try chunk (rest = []) name of
                     None \<Rightarrow> None
                   | Some None \<Rightarrow> check_rest rest
                   | Some (Some t) \<Rightarrow> path_match rest t)
                else check_rest rest))))"
  by pat_completeness auto
termination
  by (relation "measure (\<lambda>(p, n). length p)") (auto dest!: scan_chunk_length [OF sym])

declare path_match.simps(2) [simp del] check_rest.simps(2) [simp del] match_chunk.simps(2) [simp del]

section \<open>Patterns without metacharacters\<close>

definition plain_char :: "char \<Rightarrow> bool" where
  "plain_char c \<longleftrightarrow> c \<notin> {CHR ''*'', CHR ''?'', CHR ''['', backslash}"

lemma scan_body_plain:
  "list_all plain_char p \<Longrightarrow> scan_body False (p @ rest) = (p @ fst (scan_body False rest), snd (scan_body False rest))"
  by (induction p) (auto simp: plain_char_def Let_def split: prod.splits)

lemma match_chunk_plain_Cons:
  "plain_char c \<Longrightarrow>
     match_chunk (c # cs) s failed =
       (if failed \<or> s = [] then match_chunk cs s True else match_chunk cs (tl s) (c \<noteq> hd s))"
  by (simp add: match_chunk.simps(2) plain_char_def)

lemma match_chunk_failed_plain:
  "list_all plain_char p \<Longrightarrow> match_chunk p s True = Some None"
  by (induction p) (auto simp: match_chunk_plain_Cons)

lemma match_chunk_plain:
  "list_all plain_char p \<Longrightarrow>
     match_chunk p s False = Some (if has_prefix s p then Some (drop (length p) s) else None)"
proof (induction p arbitrary: s)
  case Nil
  then show ?case by (simp add: has_prefix_def)
next
  case (Cons c p)
  then show ?case
    by (cases "s \<noteq> [] \<and> c = hd s"; cases s)
       (auto simp: match_chunk_plain_Cons has_prefix_def match_chunk_failed_plain)
qed

lemma dropWhile_star_plain: "plain_char c \<Longrightarrow> dropWhile (\<lambda>c. c = CHR ''*'') (c # cs) = c # cs"
  by (simp add: plain_char_def)

lemma scan_chunk_plain:
  assumes "list_all plain_char (c # p)" and "scan_body False rest = (a, b)"
  shows "scan_chunk (c # p @ rest) = (False, c # p @ a, b)"
proof -
  have "scan_body False ((c # p) @ rest) = ((c # p) @ a, b)"
    using assms by (simp only: scan_body_plain fst_conv snd_conv)
  then show ?thesis
    using assms(1) by (simp add: scan_chunk_def dropWhile_star_plain Let_def del: dropWhile.simps)
qed

lemma path_match_plain:
  assumes "list_all plain_char p"
  shows "path_match p name = Some (p = name)"
proof (cases p)
  case (Cons c cs)
  with assms have sc: "scan_chunk (c # cs) = (False, c # cs, [])"
    using scan_chunk_plain [of c cs "[]" "[]" "[]"] by simp
  have "path_match p name = Some (has_prefix name p \<and> drop (length p) name = [])"
    using assms Cons by (auto simp: path_match.simps(2) sc match_chunk_plain)
  also have "(has_prefix name p \<and> drop (length p) name = []) = (p = name)"
    by (auto simp: has_prefix_def)
  finally show ?thesis .
qed auto

lemma scan_chunk_star: "scan_chunk ''*'' = (True, [], [])"
  by (simp add: scan_chunk_def)

lemma path_match_star: "path_match ''*'' name = Some (CHR ''/'' \<notin> set name)"
  by (simp add: path_match.simps(2) scan_chunk_star)

lemma path_match_prefix_star:
  assumes "list_all plain_char p"
  shows "path_match (p @ ''*'') name =
           Some (has_prefix name p \<and> CHR ''/'' \<notin> set (drop (length p) name))"
proof (cases p)
  case Nil
  then show ?thesis by (simp add: path_match_star has_prefix_def)
next
  case (Cons c cs)
  have "scan_body False ''*'' = ([], ''*'')"
    by (simp add: backslash_def)
  with assms Cons have sc: "scan_chunk (c # cs @ ''*'') = (False, c # cs, ''*'')"
    using scan_chunk_plain [of c cs "''*''" "[]" "''*''"] by simp
  have "check_rest ''*'' = Some False"
    by (simp add: check_rest.simps(2) scan_chunk_star)
  then show ?thesis
    using assms Cons by (auto simp: path_match.simps(2) [of c] sc match_chunk_plain path_match_star)
qed

end
