(* ===== verification/Policy.thy ===== *)
theory Policy
  imports Complex_Main Path_Match
begin

text \<open>
  The vocabulary of the policy engine (\<open>internal/policy/policy.go\<close>, \<open>actor.go\<close>,
  \<open>noop.go\<close>, \<open>rule.go\<close>): actions, decisions in their strictness order, the subject of
  an evaluation, its result, and the rules with their selectors.
\<close>

section \<open>Actions and decisions\<close>

datatype action = ActionIngest | ActionRead

fun action_String :: "action \<Rightarrow> string" where
  "action_String ActionIngest = ''ingest''"
| "action_String ActionRead = ''read''"

datatype decision = Allow | Warn | Quarantine | Deny

fun decision_String :: "decision \<Rightarrow> string" where
  "decision_String Allow = ''allow''"
| "decision_String Warn = ''warn''"
| "decision_String Quarantine = ''quarantine''"
| "decision_String Deny = ''deny''"

text \<open>The constants are numbered by \<open>iota\<close> and compared as integers.\<close>

fun decision_rank :: "decision \<Rightarrow> nat" where
  "decision_rank Allow = 0"
| "decision_rank Warn = 1"
| "decision_rank Quarantine = 2"
| "decision_rank Deny = 3"

lemma decision_rank_eq [simp]: "decision_rank d = decision_rank e \<longleftrightarrow> d = e"
  by (cases d; cases e) simp_all

instantiation decision :: linorder
begin

definition less_eq_decision :: "decision \<Rightarrow> decision \<Rightarrow> bool" where
  "less_eq_decision d e = (decision_rank d \<le> decision_rank e)"

definition less_decision :: "decision \<Rightarrow> decision \<Rightarrow> bool" where
  "less_decision d e = (decision_rank d < decision_rank e)"

instance
  by intro_classes (auto simp: less_eq_decision_def less_decision_def)

end

lemmas decision_order = less_eq_decision_def less_decision_def

lemma Allow_least [simp]: "Allow \<le> d"
  by (simp add: decision_order)

lemma Deny_greatest [simp]: "d \<le> Deny"
  by (cases d) (simp_all add: decision_order)

lemma Deny_top [simp]: "Deny \<le> d \<longleftrightarrow> d = Deny" "\<not> Deny < d"
  by (cases d; simp add: decision_order)+

section \<open>Subjects and results\<close>

text \<open>
  \<open>Attrs\<close> is a Go \<open>map[string]any\<close>: its values are kept with their dynamic type, of
  which the evaluators distinguish \<open>int64\<close>, \<open>int\<close>, \<open>float64\<close> and \<open>string\<close>. A
  \<open>float64\<close> is the rational it denotes.
\<close>

datatype attr_value = AttrInt64 int | AttrInt int | AttrFloat64 rat | AttrString string | AttrOther

record subject =
  subj_TenantID :: int
  subj_Format :: string
  subj_Package :: string
  subj_Version :: string
  subj_Filename :: string
  subj_Attrs :: "string \<rightharpoonup> attr_value"

record eval_result =
  res_Decision :: decision
  res_Reason :: string
  res_RuleID :: int

definition allow_result :: eval_result where
  "allow_result = \<lparr>res_Decision = Allow, res_Reason = [], res_RuleID = 0\<rparr>"

lemma allow_result_simps [simp]:
  "res_Decision allow_result = Allow" "res_Reason allow_result = []" "res_RuleID allow_result = 0"
  by (simp_all add: allow_result_def)

definition IsAllowed :: "eval_result \<Rightarrow> bool" where
  "IsAllowed r = (res_Decision r = Allow)"

definition IsBlocked :: "eval_result \<Rightarrow> bool" where
  "IsBlocked r = (res_Decision r \<ge> Quarantine)"

lemma IsBlocked_iff: "IsBlocked r \<longleftrightarrow> res_Decision r = Quarantine \<or> res_Decision r = Deny"
  by (cases "res_Decision r") (simp_all add: IsBlocked_def decision_order)

definition noop_Evaluate :: "subject \<Rightarrow> action \<Rightarrow> eval_result" where
  "noop_Evaluate s a = \<lparr>res_Decision = Allow, res_Reason = [], res_RuleID = 0\<rparr>"

text \<open>The caller recorded for the audit log; a context without one yields the zero value.\<close>

record actor =
  act_UserID :: int
  act_TokenID :: int
  act_RequestID :: string
  act_RemoteAddr :: string
  act_UserAgent :: string

definition zero_actor :: actor where
  "zero_actor = \<lparr>act_UserID = 0, act_TokenID = 0, act_RequestID = [], act_RemoteAddr = [],
                 act_UserAgent = []\<rparr>"

definition ActorFromContext :: "actor option \<Rightarrow> actor" where
  "ActorFromContext ctx = (case ctx of Some a \<Rightarrow> a | None \<Rightarrow> zero_actor)"

section \<open>Rule configurations\<close>

text \<open>
  \<open>config_json\<close> holds JSON text. It is represented by what \<open>encoding/json\<close> makes of the
  text: no bytes at all, a syntax error with its message, or a value. A number keeps its
  literal, because decoding into a Go integer depends on it.
\<close>

datatype json =
    JNull
  | JBool bool
  | JNumber string
  | JString string
  | JArray "json list"
  | JObject "(string \<times> json) list"

datatype config_json = EmptyConfig | MalformedJSON string | ConfigJSON json

section \<open>Rules\<close>

record rule =
  rule_ID :: int
  rule_Name :: string
  rule_Kind :: string
  rule_TenantID :: int
  rule_Format :: string
  rule_Package :: string
  rule_VersionPattern :: string
  rule_Action :: string
  rule_Config :: config_json
  rule_Priority :: int
  rule_Enabled :: bool
  rule_CreatedUnix :: int
  rule_CreatedByUserID :: int
  rule_ExpiresUnix :: int

definition Specificity :: "rule \<Rightarrow> int" where
  "Specificity r =
     (if rule_VersionPattern r \<noteq> [] then 16 else 0)
   + (if rule_Package r \<noteq> [] then 8 else 0)
   + (if rule_TenantID r \<noteq> 0 then 4 else 0)
   + (if rule_Format r \<noteq> [] then 2 else 0)"

definition Matches :: "int \<Rightarrow> rule \<Rightarrow> subject \<Rightarrow> bool" where
  "Matches now r s =
     (if rule_ExpiresUnix r \<noteq> 0 \<and> rule_ExpiresUnix r < now then False
      else if rule_TenantID r \<noteq> 0 \<and> rule_TenantID r \<noteq> subj_TenantID s then False
      else if rule_Format r \<noteq> [] \<and> \<not> equal_fold (rule_Format r) (subj_Format s) then False
      else if rule_Package r \<noteq> [] \<and> rule_Package r \<noteq> subj_Package s then False
      else if rule_VersionPattern r \<noteq> [] then
        (case path_match (rule_VersionPattern r) (subj_Version s) of
           None \<Rightarrow> False
         | Some ok \<Rightarrow> ok)
      else True)"

text \<open>A rule with a tenant selector applies to that tenant only.\<close>

lemma Matches_tenant: "Matches now r s \<Longrightarrow> rule_TenantID r \<noteq> 0 \<Longrightarrow> rule_TenantID r = subj_TenantID s"
  by (auto simp: Matches_def split: if_splits)

lemma Matches_package: "Matches now r s \<Longrightarrow> rule_Package r \<noteq> [] \<Longrightarrow> rule_Package r = subj_Package s"
  by (auto simp: Matches_def split: if_splits)

lemma Matches_unexpired: "Matches now r s \<Longrightarrow> rule_ExpiresUnix r = 0 \<or> now \<le> rule_ExpiresUnix r"
  by (auto simp: Matches_def split: if_splits)

lemma Matches_no_selector:
  "rule_TenantID r = 0 \<Longrightarrow> rule_Format r = [] \<Longrightarrow> rule_Package r = [] \<Longrightarrow>
   rule_VersionPattern r = [] \<Longrightarrow> Matches now r s \<longleftrightarrow> rule_ExpiresUnix r = 0 \<or> now \<le> rule_ExpiresUnix r"
  by (auto simp: Matches_def)

text \<open>
  The score orders the sets of selectors lexicographically: version pattern, package,
  tenant, format. It is the binary number of the selectors present.
\<close>

definition selectors :: "rule \<Rightarrow> bool \<times> bool \<times> bool \<times> bool" where
  "selectors r = (rule_VersionPattern r \<noteq> [], rule_Package r \<noteq> [], rule_TenantID r \<noteq> 0, rule_Format r \<noteq> [])"

lemma Specificity_eq_iff: "Specificity r = Specificity q \<longleftrightarrow> selectors r = selectors q"
  by (auto simp: Specificity_def selectors_def)

lemma Specificity_bounds: "0 \<le> Specificity r \<and> Specificity r \<le> 30"
  by (simp add: Specificity_def)

end
