(* ===== verification/Go_Values.thy ===== *)
theory Go_Values
  imports Policy "HOL-Library.Word"
begin

text \<open>
  Go's fixed-width arithmetic and the parts of \<open>strconv\<close>, \<open>fmt\<close> and
  \<open>encoding/json\<close> that the policy evaluators and the configuration loader use:
  64-bit wrap-around, truncated division, decimal printing and parsing, \<open>%q\<close>
  quoting, and the assignment of a JSON value to a typed struct field.
\<close>

section \<open>64-bit integers\<close>

definition wrap64 :: "int \<Rightarrow> int" where
  "wrap64 x = sint (word_of_int x :: 64 word)"

definition int64_range :: "int \<Rightarrow> bool" where
  "int64_range x \<longleftrightarrow> - (2 ^ 63) \<le> x \<and> x < 2 ^ 63"

lemma wrap64_id [simp]: "int64_range x \<Longrightarrow> wrap64 x = x"
  by (simp add: wrap64_def int64_range_def signed_take_bit_int_eq_self sint_sbintrunc')

lemma wrap64_mod: "wrap64 x = (x + 2 ^ 63) mod 2 ^ 64 - 2 ^ 63"
  by (simp add: wrap64_def sint_sbintrunc' signed_take_bit_eq_take_bit_shift take_bit_eq_mod)

lemma wrap64_range [simp]: "int64_range (wrap64 x)"
  by (simp add: wrap64_mod int64_range_def)

text \<open>Go's integer division truncates towards zero.\<close>

definition go_div :: "int \<Rightarrow> int \<Rightarrow> int" where
  "go_div a b = sgn a * sgn b * (\<bar>a\<bar> div \<bar>b\<bar>)"

lemma go_div_nonneg: "0 \<le> a \<Longrightarrow> 0 < b \<Longrightarrow> go_div a b = a div b"
  by (cases "a = 0") (simp_all add: go_div_def)

text \<open>\<open>int64(x)\<close> of a \<open>float64\<close> in range truncates towards zero.\<close>

definition float_to_int64 :: "rat \<Rightarrow> int" where
  "float_to_int64 x = (if 0 \<le> x then floor x else ceiling x)"

section \<open>Decimal numbers\<close>

definition digit_char :: "nat \<Rightarrow> char" where
  "digit_char d = char_of (48 + d)"

fun show_nat :: "nat \<Rightarrow> string" where
  "show_nat n = (if n < 10 then [digit_char n] else show_nat (n div 10) @ [digit_char (n mod 10)])"

declare show_nat.simps [simp del]

definition show_int :: "int \<Rightarrow> string" where
  "show_int i = (if i < 0 then CHR ''-'' # show_nat (nat (- i)) else show_nat (nat i))"

definition digit_value :: "char \<Rightarrow> nat option" where
  "digit_value c = (let n = (of_char c :: nat) in if 48 \<le> n \<and> n \<le> 57 then Some (n - 48) else None)"

fun parse_digits :: "string \<Rightarrow> nat \<Rightarrow> nat option" where
  "parse_digits [] acc = Some acc"
| "parse_digits (c # cs) acc =
     (case digit_value c of None \<Rightarrow> None | Some d \<Rightarrow> parse_digits cs (10 * acc + d))"

text \<open>\<open>strconv.ParseInt(s, 10, 64)\<close>: \<open>None\<close> stands for both syntax and range errors.\<close>

definition parse_int64 :: "string \<Rightarrow> int option" where
  "parse_int64 s =
     (let neg = (s \<noteq> [] \<and> hd s = CHR ''-'');
          ds = (if s \<noteq> [] \<and> (hd s = CHR ''-'' \<or> hd s = CHR ''+'') then tl s else s)
      in if ds = [] then None
         else (case parse_digits ds 0 of
             None \<Rightarrow> None
           | Some n \<Rightarrow>
               (let i = (if neg then - int n else int n) in
                if int64_range i then Some i else None)))"

lemma digit_value_digit_char [simp]: "d < 10 \<Longrightarrow> digit_value (digit_char d) = Some d"
  by (simp add: digit_value_def digit_char_def)

lemma parse_digits_append:
  "parse_digits (xs @ ys) acc =
     (case parse_digits xs acc of None \<Rightarrow> None | Some n \<Rightarrow> parse_digits ys n)"
  by (induction xs arbitrary: acc) (auto split: option.splits)

lemma parse_digits_show_nat: "parse_digits (show_nat n) 0 = Some n"
proof (induction n rule: show_nat.induct)
  case (1 n)
  then show ?case
    by (subst show_nat.simps) (auto simp: parse_digits_append)
qed

lemma show_nat_head: "show_nat n \<noteq> [] \<and> hd (show_nat n) \<in> digit_char ` {0..<10}"
proof (induction n rule: show_nat.induct)
  case (1 n)
  then show ?case
    by (subst (1 2) show_nat.simps) auto
qed

lemma digit_char_not_sign: "d < 10 \<Longrightarrow> digit_char d \<noteq> CHR ''-'' \<and> digit_char d \<noteq> CHR ''+''"
  by (auto simp: digit_char_def char_of_eq_iff take_bit_nat_eq_self)

lemma show_nat_not_sign: "hd (show_nat n) \<noteq> CHR ''-''" "hd (show_nat n) \<noteq> CHR ''+''"
  using show_nat_head [of n] digit_char_not_sign by fastforce+

lemma parse_int64_show_int: "int64_range i \<Longrightarrow> parse_int64 (show_int i) = Some i"
  using show_nat_head [of "nat i"] show_nat_head [of "nat (- i)"]
  by (auto simp: parse_int64_def show_int_def Let_def show_nat_not_sign parse_digits_show_nat)

section \<open>Quoting\<close>

definition hex_char :: "nat \<Rightarrow> char" where
  "hex_char d = (if d < 10 then char_of (48 + d) else char_of (87 + d))"

definition quote_char :: "char \<Rightarrow> string" where
  "quote_char c =
     (let n = (of_char c :: nat); bs = CHR 0x5C in
      if n = 34 \<or> n = 92 then [bs, c]
      else if n = 7 then [bs, CHR ''a''] else if n = 8 then [bs, CHR ''b'']
      else if n = 12 then [bs, CHR ''f''] else if n = 10 then [bs, CHR ''n'']
      else if n = 13 then [bs, CHR ''r''] else if n = 9 then [bs, CHR ''t'']
      else if n = 11 then [bs, CHR ''v'']
      else if n < 32 \<or> n = 127 then [bs, CHR ''x'', hex_char (n div 16), hex_char (n mod 16)]
      else [c])"

text \<open>\<open>%q\<close> of an ASCII string, and \<open>%v\<close> of a slice of strings.\<close>

definition go_quote :: "string \<Rightarrow> string" where
  "go_quote s = CHR 0x22 # concat (map quote_char s) @ [CHR 0x22]"

definition show_strings :: "string list \<Rightarrow> string" where
  "show_strings ss = CHR ''['' # join_with CHR '' '' ss @ '']''"

section \<open>Decoding JSON into struct fields\<close>

fun json_kind :: "json \<Rightarrow> string" where
  "json_kind JNull = ''null''"
| "json_kind (JBool b) = ''bool''"
| "json_kind (JNumber n) = ''number''"
| "json_kind (JString s) = ''string''"
| "json_kind (JArray vs) = ''array''"
| "json_kind (JObject ms) = ''object''"

definition field_error :: "string \<Rightarrow> string \<Rightarrow> string \<Rightarrow> string" where
  "field_error val field ty =
     ''json: cannot unmarshal '' @ val @ '' into Go struct field Config.'' @ field
       @ '' of type '' @ ty"

text \<open>
  Each decoder takes the field's current value and returns its new value and an error;
  \<open>null\<close> leaves a scalar field as it is.
\<close>

fun decode_int :: "string \<Rightarrow> int \<Rightarrow> json \<Rightarrow> int \<times> string option" where
  "decode_int field cur JNull = (cur, None)"
| "decode_int field cur (JNumber lit) =
     (case parse_int64 lit of
        Some i \<Rightarrow> (i, None)
      | None \<Rightarrow> (cur, Some (field_error (''number '' @ lit) field ''int'')))"
| "decode_int field cur v = (cur, Some (field_error (json_kind v) field ''int''))"

fun decode_string :: "string \<Rightarrow> string \<Rightarrow> string \<Rightarrow> json \<Rightarrow> string \<times> string option" where
  "decode_string ty field cur JNull = (cur, None)"
| "decode_string ty field cur (JString s) = (s, None)"
| "decode_string ty field cur v = (cur, Some (field_error (json_kind v) field ty))"

definition first_error :: "string option \<Rightarrow> string option \<Rightarrow> string option" where
  "first_error e1 e2 = (case e1 of None \<Rightarrow> e2 | Some _ \<Rightarrow> e1)"

fun decode_elems :: "string \<Rightarrow> json list \<Rightarrow> string list \<times> string option" where
  "decode_elems field [] = ([], None)"
| "decode_elems field (v # vs) =
     (let (s, e) = decode_string ''string'' field [] v;
          (ss, e') = decode_elems field vs
      in (s # ss, first_error e e'))"

fun decode_strings :: "string \<Rightarrow> string list \<Rightarrow> json \<Rightarrow> string list \<times> string option" where
  "decode_strings field cur JNull = ([], None)"
| "decode_strings field cur (JArray vs) = decode_elems field vs"
| "decode_strings field cur v = (cur, Some (field_error (json_kind v) field ''[]string''))"

text \<open>
  \<open>json.Unmarshal\<close> into a struct: members in order, the first type error is reported
  after all members were visited.
\<close>

fun decode_members :: "('c \<Rightarrow> string \<Rightarrow> json \<Rightarrow> 'c \<times> string option) \<Rightarrow> 'c \<Rightarrow> (string \<times> json) list
    \<Rightarrow> 'c \<times> string option" where
  "decode_members fld c [] = (c, None)"
| "decode_members fld c ((k, v) # ms) =
     (let (c1, e1) = fld c k v; (c2, e2) = decode_members fld c1 ms in (c2, first_error e1 e2))"

text \<open>\<open>Rule.DecodeConfig\<close> with a struct type given by its name, zero value and fields.\<close>

definition DecodeConfig ::
  "string \<Rightarrow> ('c \<Rightarrow> string \<Rightarrow> json \<Rightarrow> 'c \<times> string option) \<Rightarrow> 'c \<Rightarrow> rule \<Rightarrow> (string, 'c) result" where
  "DecodeConfig ty fld zero r =
     (case rule_Config r of
        EmptyConfig \<Rightarrow> Inr zero
      | MalformedJSON err \<Rightarrow> Inl err
      | ConfigJSON JNull \<Rightarrow> Inr zero
      | ConfigJSON (JObject ms) \<Rightarrow>
          (case decode_members fld zero ms of
             (c, None) \<Rightarrow> Inr c
           | (c, Some err) \<Rightarrow> Inl err)
      | ConfigJSON v \<Rightarrow>
          Inl (''json: cannot unmarshal '' @ json_kind v @ '' into Go value of type '' @ ty))"

end
