(* ===== verification/Policy_Engine.thy ===== *)
theory Policy_Engine
  imports Go_Values
begin

text \<open>
  The chain engine (\<open>internal/policy/engine.go\<close>): a cached, kind-partitioned and sorted
  snapshot of the enabled rules, and the evaluation that dispatches the matching rules to
  every evaluator and keeps the strictest decision. The \<open>Evaluator\<close> interface is the
  locale \<open>lawful_evaluator\<close>: the most specific rule alone decides, which is what both
  evaluators of the repository promise.

  \<open>sort.Slice\<close> is not stable, so the order of rules of equal specificity and priority is
  not determined: the sort is a parameter of \<open>Refresh\<close>, specified by \<open>sorts_rules\<close> and
  instantiated by the insertion sort Go uses on short slices.
\<close>

section \<open>Sorting rules\<close>

definition rule_less :: "rule \<Rightarrow> rule \<Rightarrow> bool" where
  "rule_less a b =
     (let si = Specificity a; sj = Specificity b in
      if si \<noteq> sj then si > sj else rule_Priority a < rule_Priority b)"

definition sorts_rules :: "(rule list \<Rightarrow> rule list) \<Rightarrow> bool" where
  "sorts_rules srt \<longleftrightarrow>
     (\<forall>rs. mset (srt rs) = mset rs \<and> sorted_wrt (\<lambda>a b. \<not> rule_less b a) (srt rs))"

fun insert_rule :: "rule \<Rightarrow> rule list \<Rightarrow> rule list" where
  "insert_rule x [] = [x]"
| "insert_rule x (y # ys) = (if rule_less x y then x # y # ys else y # insert_rule x ys)"

definition sortRules :: "rule list \<Rightarrow> rule list" where
  "sortRules rs = foldl (\<lambda>acc r. insert_rule r acc) [] rs"

lemma mset_insert_rule: "mset (insert_rule x ys) = {#x#} + mset ys"
  by (induction ys) auto

lemma set_insert_rule: "set (insert_rule x ys) = insert x (set ys)"
  by (metis mset_insert_rule add_mset_add_single set_mset_add_mset_insert set_mset_mset union_commute)

lemma rule_less_asym: "rule_less a b \<Longrightarrow> \<not> rule_less b a"
  by (auto simp: rule_less_def Let_def split: if_splits)

lemma rule_less_irrefl [simp]: "\<not> rule_less a a"
  by (simp add: rule_less_def)

lemma rule_less_trans: "\<not> rule_less b a \<Longrightarrow> \<not> rule_less c b \<Longrightarrow> \<not> rule_less c a"
  by (auto simp: rule_less_def Let_def split: if_splits)

lemma rule_less_between: "rule_less x a \<Longrightarrow> \<not> rule_less y a \<Longrightarrow> \<not> rule_less y x"
  using rule_less_trans rule_less_asym by blast

lemma sorted_insert_rule:
  "sorted_wrt (\<lambda>a b. \<not> rule_less b a) ys \<Longrightarrow> sorted_wrt (\<lambda>a b. \<not> rule_less b a) (insert_rule x ys)"
  by (induction ys)
     (auto simp: set_insert_rule rule_less_asym dest: rule_less_between)

lemma sortRules_acc:
  "sorted_wrt (\<lambda>a b. \<not> rule_less b a) acc \<Longrightarrow>
     mset (foldl (\<lambda>acc r. insert_rule r acc) acc rs) = mset acc + mset rs
   \<and> sorted_wrt (\<lambda>a b. \<not> rule_less b a) (foldl (\<lambda>acc r. insert_rule r acc) acc rs)"
  by (induction rs arbitrary: acc) (auto simp: mset_insert_rule sorted_insert_rule)

lemma sorts_rules_sortRules: "sorts_rules sortRules"
  using sortRules_acc [of "[]"] by (auto simp: sorts_rules_def sortRules_def)

lemma sorts_rules_set: "sorts_rules srt \<Longrightarrow> set (srt rs) = set rs"
  by (metis set_mset_mset sorts_rules_def)

lemma sorts_rules_sorted: "sorts_rules srt \<Longrightarrow> sorted_wrt (\<lambda>a b. \<not> rule_less b a) (srt rs)"
  by (simp add: sorts_rules_def)

section \<open>The engine\<close>

type_synonym snapshot = "string \<rightharpoonup> rule list"

text \<open>An evaluator may panic, which is the result \<open>None\<close>.\<close>

record evaluator =
  ev_Kind :: string
  ev_Evaluate :: "subject \<Rightarrow> action \<Rightarrow> rule list \<Rightarrow> eval_result option"

record chain_engine =
  ce_evaluators :: "evaluator list"
  ce_rules :: snapshot

definition NewChainEngine :: "evaluator list \<Rightarrow> chain_engine" where
  "NewChainEngine evs = \<lparr>ce_evaluators = evs, ce_rules = Map.empty\<rparr>"

definition by_kind :: "snapshot \<Rightarrow> string \<Rightarrow> rule list" where
  "by_kind snap k = (case snap k of None \<Rightarrow> [] | Some rs \<Rightarrow> rs)"

fun partition_rules :: "snapshot \<Rightarrow> rule list \<Rightarrow> snapshot" where
  "partition_rules snap [] = snap"
| "partition_rules snap (r # rs) =
     (if \<not> rule_Enabled r then partition_rules snap rs
      else partition_rules (snap(rule_Kind r \<mapsto> by_kind snap (rule_Kind r) @ [r])) rs)"

definition Refresh :: "(rule list \<Rightarrow> rule list) \<Rightarrow> rule list \<Rightarrow> chain_engine \<Rightarrow> chain_engine" where
  "Refresh srt rules e =
     (let snap = partition_rules Map.empty rules in
      e\<lparr>ce_rules := (\<lambda>k. map_option srt (snap k))\<rparr>)"

definition filterMatching :: "int \<Rightarrow> rule list \<Rightarrow> subject \<Rightarrow> rule list" where
  "filterMatching now rules s = (if rules = [] then rules else filter (\<lambda>r. Matches now r s) rules)"

definition safeEvaluate :: "evaluator \<Rightarrow> subject \<Rightarrow> action \<Rightarrow> rule list \<Rightarrow> eval_result" where
  "safeEvaluate ev s a rules =
     (case ev_Evaluate ev s a rules of
        Some r \<Rightarrow> r
      | None \<Rightarrow> \<lparr>res_Decision = Allow, res_Reason = [], res_RuleID = 0\<rparr>)"

fun eval_chain :: "evaluator list \<Rightarrow> snapshot \<Rightarrow> int \<Rightarrow> subject \<Rightarrow> action \<Rightarrow> eval_result \<Rightarrow> eval_result" where
  "eval_chain [] snap now s a deepest = deepest"
| "eval_chain (ev # evs) snap now s a deepest =
     (let kindRules = by_kind snap (ev_Kind ev);
          matched = filterMatching now kindRules s;
          r = safeEvaluate ev s a matched;
          deepest' = (if res_Decision r > res_Decision deepest then r else deepest)
      in if res_Decision deepest' = Deny then deepest'
         else eval_chain evs snap now s a deepest')"

definition Evaluate :: "chain_engine \<Rightarrow> int \<Rightarrow> subject \<Rightarrow> action \<Rightarrow> eval_result" where
  "Evaluate e now s a =
     eval_chain (ce_evaluators e) (ce_rules e) now s a
       \<lparr>res_Decision = Allow, res_Reason = [], res_RuleID = 0\<rparr>"

section \<open>The snapshot\<close>

lemma by_kind_partition:
  "by_kind (partition_rules snap rules) k = by_kind snap k @ [r \<leftarrow> rules. rule_Enabled r \<and> rule_Kind r = k]"
  by (induction rules arbitrary: snap) (auto simp: by_kind_def)

lemma partition_None_iff:
  "partition_rules snap rules k = None \<longleftrightarrow>
     snap k = None \<and> [r \<leftarrow> rules. rule_Enabled r \<and> rule_Kind r = k] = []"
  by (induction rules arbitrary: snap) (auto simp: fun_upd_def)

lemma by_kind_empty [simp]: "by_kind Map.empty k = []"
  by (simp add: by_kind_def)

lemma sorts_rules_Nil [simp]: "sorts_rules srt \<Longrightarrow> srt [] = []"
  by (metis mset_zero_iff sorts_rules_def)

lemma by_kind_Refresh:
  assumes "sorts_rules srt"
  shows "by_kind (ce_rules (Refresh srt rules e)) k = srt [r \<leftarrow> rules. rule_Enabled r \<and> rule_Kind r = k]"
proof (cases "partition_rules Map.empty rules k")
  case None
  then have "[r \<leftarrow> rules. rule_Enabled r \<and> rule_Kind r = k] = []"
    by (simp add: partition_None_iff)
  with None assms show ?thesis by (simp add: Refresh_def Let_def by_kind_def)
next
  case (Some rs)
  then have "rs = [r \<leftarrow> rules. rule_Enabled r \<and> rule_Kind r = k]"
    using by_kind_partition [of Map.empty rules k] by (simp add: by_kind_def)
  with Some show ?thesis by (simp add: Refresh_def Let_def by_kind_def)
qed

lemma evaluators_Refresh [simp]: "ce_evaluators (Refresh srt rules e) = ce_evaluators e"
  by (simp add: Refresh_def Let_def)

lemma filterMatching_eq: "filterMatching now rules s = [r \<leftarrow> rules. Matches now r s]"
  by (simp add: filterMatching_def)

text \<open>The first matching rule of a refreshed snapshot is a most specific one.\<close>

lemma winner_is_most_specific:
  assumes srt: "sorts_rules srt"
    and m: "filterMatching now (by_kind (ce_rules (Refresh srt rules e)) k) s = w # ws"
  shows "w \<in> set rules" "rule_Enabled w" "rule_Kind w = k" "Matches now w s"
    "\<And>r. r \<in> set rules \<Longrightarrow> rule_Enabled r \<Longrightarrow> rule_Kind r = k \<Longrightarrow> Matches now r s \<Longrightarrow> \<not> rule_less r w"
proof -
  let ?ks = "[r \<leftarrow> rules. rule_Enabled r \<and> rule_Kind r = k]"
  have f: "[r \<leftarrow> srt ?ks. Matches now r s] = w # ws"
    using m by (simp add: by_kind_Refresh [OF srt] filterMatching_eq)
  then have "w \<in> set [r \<leftarrow> srt ?ks. Matches now r s]"
    by simp
  then have "w \<in> set (srt ?ks)" and w: "Matches now w s"
    by auto
  then show "w \<in> set rules" "rule_Enabled w" "rule_Kind w = k" "Matches now w s"
    by (auto simp: sorts_rules_set [OF srt])
  fix r
  assume r: "r \<in> set rules" "rule_Enabled r" "rule_Kind r = k" "Matches now r s"
  then have "r \<in> set (w # ws)"
    by (simp flip: f add: sorts_rules_set [OF srt])
  then show "\<not> rule_less r w"
    using sorted_wrt_filter_hd [OF sorts_rules_sorted [OF srt] f] by auto
qed

section \<open>The chain\<close>

definition chain_results :: "evaluator list \<Rightarrow> snapshot \<Rightarrow> int \<Rightarrow> subject \<Rightarrow> action \<Rightarrow> eval_result list" where
  "chain_results evs snap now s a =
     map (\<lambda>ev. safeEvaluate ev s a (filterMatching now (by_kind snap (ev_Kind ev)) s)) evs"

lemma eval_chain_decision:
  "res_Decision d \<noteq> Deny \<Longrightarrow>
     res_Decision (eval_chain evs snap now s a d) =
       Max (insert (res_Decision d) (res_Decision ` set (chain_results evs snap now s a)))"
proof (induction evs arbitrary: d)
  case Nil
  then show ?case by (simp add: chain_results_def)
next
  case (Cons ev evs)
  define r where "r = safeEvaluate ev s a (filterMatching now (by_kind snap (ev_Kind ev)) s)"
  define d' where "d' = (if res_Decision r > res_Decision d then r else d)"
  let ?rest = "res_Decision ` set (chain_results evs snap now s a)"
  have m: "res_Decision d' = max (res_Decision r) (res_Decision d)"
    by (auto simp: d'_def max_def)
  have set: "res_Decision ` set (chain_results (ev # evs) snap now s a) = insert (res_Decision r) ?rest"
    by (simp add: chain_results_def r_def)
  have step: "eval_chain (ev # evs) snap now s a d =
      (if res_Decision d' = Deny then d' else eval_chain evs snap now s a d')"
    by (simp add: Let_def r_def d'_def)
  have fin: "finite ?rest" by simp
  have ins: "Max (insert (res_Decision d) (insert (res_Decision r) ?rest)) =
      Max (insert (res_Decision d') ?rest)"
    using fin by (cases "?rest = {}") (simp_all add: m ac_simps)
  show ?case
  proof (cases "res_Decision d' = Deny")
    case True
    then have "Max (insert (res_Decision d') ?rest) = Deny"
      using fin by (intro Max_eqI) auto
    with True show ?thesis unfolding step set ins by simp
  next
    case False
    with Cons.IH [OF False] show ?thesis unfolding step set ins by simp
  qed
qed

lemma eval_chain_member:
  "eval_chain evs snap now s a d = d \<or> eval_chain evs snap now s a d \<in> set (chain_results evs snap now s a)"
proof (induction evs arbitrary: d)
  case (Cons ev evs)
  let ?r = "safeEvaluate ev s a (filterMatching now (by_kind snap (ev_Kind ev)) s)"
  show ?case
    using Cons.IH [of ?r] Cons.IH [of d] by (auto simp: Let_def chain_results_def)
qed simp

text \<open>The first of the results whose decision is the strictest of all, unless everything allows.\<close>

definition first_strictest :: "eval_result list \<Rightarrow> eval_result option" where
  "first_strictest rs = List.find (\<lambda>r. res_Decision r \<noteq> Allow \<and> (\<forall>r' \<in> set rs. res_Decision r' \<le> res_Decision r)) rs"

lemma eval_chain_first:
  "res_Decision d \<noteq> Deny \<Longrightarrow>
     eval_chain evs snap now s a d =
       (case List.find (\<lambda>r. res_Decision d < res_Decision r \<and>
            (\<forall>r' \<in> set (chain_results evs snap now s a). res_Decision r' \<le> res_Decision r)) (chain_results evs snap now s a) of
          None \<Rightarrow> d | Some r \<Rightarrow> r)"
proof (induction evs arbitrary: d)
  case Nil
  then show ?case by (simp add: chain_results_def)
next
  case (Cons ev evs)
  define r where "r = safeEvaluate ev s a (filterMatching now (by_kind snap (ev_Kind ev)) s)"
  let ?rs = "chain_results evs snap now s a"
  have rs: "chain_results (ev # evs) snap now s a = r # ?rs" by (simp add: chain_results_def r_def)
  show ?case
  proof (cases "res_Decision d < res_Decision r")
    case False
    then have step: "eval_chain (ev # evs) snap now s a d = eval_chain evs snap now s a d"
      using Cons.prems by (simp add: Let_def r_def)
    have eq: "(\<lambda>q. res_Decision d < res_Decision q \<and> (\<forall>r' \<in> set (r # ?rs). res_Decision r' \<le> res_Decision q)) =
        (\<lambda>q. res_Decision d < res_Decision q \<and> (\<forall>r' \<in> set ?rs. res_Decision r' \<le> res_Decision q))"
      using False by (intro ext) (auto simp: not_less intro: order_trans less_imp_le)
    show ?thesis unfolding step rs Cons.IH [OF Cons.prems] find.simps eq using False by simp
  next
    case True
    show ?thesis
    proof (cases "res_Decision r = Deny")
      case deny: True
      then have "eval_chain (ev # evs) snap now s a d = r" using True by (simp add: Let_def r_def)
      then show ?thesis unfolding rs using True deny by simp
    next
      case False
      then have step: "eval_chain (ev # evs) snap now s a d = eval_chain evs snap now s a r"
        using True by (simp add: Let_def r_def)
      show ?thesis
      proof (cases "\<forall>r' \<in> set ?rs. res_Decision r' \<le> res_Decision r")
        case max: True
        then have "List.find (\<lambda>q. res_Decision r < res_Decision q \<and> (\<forall>r' \<in> set ?rs. res_Decision r' \<le> res_Decision q)) ?rs = None"
          by (auto simp: find_None_iff not_less)
        then show ?thesis unfolding step Cons.IH [OF False] rs using max True by simp
      next
        case nmax: False
        then obtain q where q: "q \<in> set ?rs" "res_Decision r < res_Decision q" by (auto simp: not_le)
        let ?P = "\<lambda>p. res_Decision r < res_Decision p \<and> (\<forall>r' \<in> set ?rs. res_Decision r' \<le> res_Decision p)"
        have eq: "(\<lambda>p. res_Decision d < res_Decision p \<and> (\<forall>r' \<in> set (r # ?rs). res_Decision r' \<le> res_Decision p)) = ?P"
          using q True by (intro ext) (auto intro: less_le_trans less_imp_le)
        have "\<exists>p \<in> set ?rs. res_Decision r < res_Decision p \<and> (\<forall>r' \<in> set ?rs. res_Decision r' \<le> res_Decision p)"
        proof -
          let ?m = "Max (res_Decision ` set ?rs)"
          have "?m \<in> res_Decision ` set ?rs" using q(1) by (intro Max_in) auto
          moreover have "\<forall>r' \<in> set ?rs. res_Decision r' \<le> ?m" by simp
          moreover have "res_Decision r < ?m" using q by (meson Max_ge finite_imageI finite_set imageI less_le_trans)
          ultimately show ?thesis by (metis imageE)
        qed
        then obtain x where "List.find ?P ?rs = Some x" by (cases "List.find ?P ?rs") (auto simp: find_None_iff)
        then show ?thesis unfolding step Cons.IH [OF False] rs find.simps eq by simp
      qed
    qed
  qed
qed

lemma Allow_less: "Allow < d \<longleftrightarrow> d \<noteq> Allow"
  by (cases d) (simp_all add: decision_order)

lemma Evaluate_first:
  "Evaluate e now s a =
     (case first_strictest (chain_results (ce_evaluators e) (ce_rules e) now s a) of None \<Rightarrow> allow_result | Some r \<Rightarrow> r)"
  unfolding Evaluate_def allow_result_def by (simp add: eval_chain_first first_strictest_def Allow_less)

lemma Evaluate_decision:
  "res_Decision (Evaluate e now s a) =
     Max (insert Allow (res_Decision ` set (chain_results (ce_evaluators e) (ce_rules e) now s a)))"
  by (simp add: Evaluate_def eval_chain_decision)

lemma Evaluate_member:
  "Evaluate e now s a = allow_result \<or>
   Evaluate e now s a \<in> set (chain_results (ce_evaluators e) (ce_rules e) now s a)"
  using eval_chain_member by (simp add: Evaluate_def allow_result_def)

lemma chain_results_append:
  "chain_results (xs @ ys) snap now s a = chain_results xs snap now s a @ chain_results ys snap now s a"
  by (simp add: chain_results_def)

lemma chain_results_set_cong:
  "set evs = set evs' \<Longrightarrow> set (chain_results evs snap now s a) = set (chain_results evs' snap now s a)"
  by (simp add: chain_results_def)

section \<open>The contract of an evaluator\<close>

locale lawful_evaluator =
  fixes evaluate :: "subject \<Rightarrow> action \<Rightarrow> rule list \<Rightarrow> eval_result"
  assumes no_rules: "evaluate s a [] = allow_result"
    and winner_decides: "evaluate s a (w # ws) = evaluate s a [w]"
    and winner_named: "res_RuleID (evaluate s a [w]) = rule_ID w"
begin

lemma blocked_has_rules: "res_Decision (evaluate s a rs) \<noteq> Allow \<Longrightarrow> rs \<noteq> []"
  using no_rules by auto

lemma blocked_named:
  assumes "res_Decision (evaluate s a rs) \<noteq> Allow"
  shows "\<exists>w ws. rs = w # ws \<and> res_RuleID (evaluate s a rs) = rule_ID w \<and> evaluate s a rs = evaluate s a [w]"
  using assms blocked_has_rules winner_decides winner_named by (metis list.exhaust)

lemma only_winner_matters: "hd rs = hd rs' \<Longrightarrow> rs \<noteq> [] \<Longrightarrow> rs' \<noteq> [] \<Longrightarrow> evaluate s a rs = evaluate s a rs'"
  using winner_decides by (metis list.collapse)

end

definition lawful :: "evaluator \<Rightarrow> bool" where
  "lawful ev \<longleftrightarrow> (\<exists>f. ev_Evaluate ev = (\<lambda>s a rs. Some (f s a rs)) \<and> lawful_evaluator f)"

lemma lawfulI: "lawful_evaluator f \<Longrightarrow> lawful \<lparr>ev_Kind = k, ev_Evaluate = \<lambda>s a rs. Some (f s a rs)\<rparr>"
  by (auto simp: lawful_def)

text \<open>Every decision other than \<open>Allow\<close> of a chain of lawful evaluators is the verdict of a
  most specific enabled, unexpired, matching rule, and names it.\<close>

lemma chain_block_explained:
  assumes srt: "sorts_rules srt"
    and law: "list_all lawful (ce_evaluators e)"
    and blk: "res_Decision (Evaluate (Refresh srt rules e) now s a) \<noteq> Allow"
  shows "\<exists>w \<in> set rules. rule_ID w = res_RuleID (Evaluate (Refresh srt rules e) now s a)
       \<and> rule_Enabled w \<and> Matches now w s
       \<and> (\<forall>r \<in> set rules. rule_Enabled r \<longrightarrow> rule_Kind r = rule_Kind w \<longrightarrow> Matches now r s \<longrightarrow> \<not> rule_less r w)"
proof -
  let ?e = "Refresh srt rules e"
  let ?res = "Evaluate ?e now s a"
  from blk Evaluate_member [of ?e now s a] obtain ev where
    ev: "ev \<in> set (ce_evaluators e)"
    and res: "?res = safeEvaluate ev s a (filterMatching now (by_kind (ce_rules ?e) (ev_Kind ev)) s)"
    by (auto simp: chain_results_def)
  from ev law obtain f where f: "ev_Evaluate ev = (\<lambda>s a rs. Some (f s a rs))" and lf: "lawful_evaluator f"
    by (auto simp: list_all_iff lawful_def)
  let ?ms = "filterMatching now (by_kind (ce_rules ?e) (ev_Kind ev)) s"
  have "?res = f s a ?ms"
    by (simp add: res safeEvaluate_def f)
  with blk lawful_evaluator.blocked_named [OF lf]
  obtain w ws where ms: "?ms = w # ws" and id: "res_RuleID ?res = rule_ID w"
    by metis
  note W = winner_is_most_specific [OF srt ms]
  show ?thesis
    using W id by (intro bexI [of _ w]) auto
qed


section \<open>Properties\<close>

text \<open>
C4: Evaluate returns the strictest of the decisions of all registered evaluators, each run
  on the rules of its kind that match the subject (Allow when there is none): stopping the
  chain at the first Deny changes nothing. What it returns is the whole result - reason and rule -
  of the first registered evaluator that reached this decision; when everything allows it is
  the empty result, whatever reasons the evaluators gave.\<close>

theorem Evaluate_strictest:
  "let results = map (\<lambda>ev. safeEvaluate ev s a (filterMatching now (by_kind (ce_rules e) (ev_Kind ev)) s)) (ce_evaluators e)
   in res_Decision (Evaluate e now s a) = Max (insert Allow (res_Decision ` set results))
    \<and> Evaluate e now s a =
        (case List.find (\<lambda>r. res_Decision r \<noteq> Allow \<and> (\<forall>r' \<in> set results. res_Decision r' \<le> res_Decision r)) results of
           None \<Rightarrow> \<lparr>res_Decision = Allow, res_Reason = [], res_RuleID = 0\<rparr>
         | Some r \<Rightarrow> r)"
  using Evaluate_decision [of e now s a] Evaluate_first [of e now s a]
  unfolding Let_def chain_results_def first_strictest_def allow_result_def by (rule conjI)

text \<open>An evaluator with one answer, and one that panics, between two that quarantine.\<close>

definition fixed_evaluator :: "string \<Rightarrow> decision option \<Rightarrow> evaluator" where
  "fixed_evaluator reason d =
     \<lparr>ev_Kind = ''cooldown'',
      ev_Evaluate = (\<lambda>s a rs. map_option (\<lambda>d. \<lparr>res_Decision = d, res_Reason = reason, res_RuleID = 0\<rparr>) d)\<rparr>"

lemma fixed_evaluator_safe [simp]:
  "safeEvaluate (fixed_evaluator reason None) s a rs = \<lparr>res_Decision = Allow, res_Reason = [], res_RuleID = 0\<rparr>"
  "safeEvaluate (fixed_evaluator reason (Some d)) s a rs = \<lparr>res_Decision = d, res_Reason = reason, res_RuleID = 0\<rparr>"
  by (simp_all add: safeEvaluate_def fixed_evaluator_def)

definition tied_engine :: chain_engine where
  "tied_engine = NewChainEngine
     [fixed_evaluator ''young'' (Some Warn), fixed_evaluator ''panics'' None,
      fixed_evaluator ''licence'' (Some Quarantine), fixed_evaluator ''late'' (Some Quarantine)]"

definition any_subject :: subject where
  "any_subject = \<lparr>subj_TenantID = 1, subj_Format = ''npm'', subj_Package = ''lib'', subj_Version = ''1.0'',
     subj_Filename = [], subj_Attrs = Map.empty\<rparr>"

theorem Evaluate_strictest_witness:
  "Evaluate tied_engine 5 any_subject ActionIngest = \<lparr>res_Decision = Quarantine, res_Reason = ''licence'', res_RuleID = 0\<rparr>"
  using Evaluate_strictest [of any_subject ActionIngest 5 tied_engine]
  by (simp add: tied_engine_def NewChainEngine_def Let_def less_eq_decision_def less_decision_def)

text \<open>
  After Refresh the rules cached for a kind are exactly the enabled rules of that kind,
  most specific first and, among equally specific ones, lowest priority value first.\<close>

theorem Refresh_snapshot:
  assumes "sorts_rules srt"
  shows "mset (by_kind (ce_rules (Refresh srt rules e)) k) =
           mset [r \<leftarrow> rules. rule_Enabled r \<and> rule_Kind r = k]
       \<and> sorted_wrt (\<lambda>p q. Specificity p > Specificity q
            \<or> (Specificity p = Specificity q \<and> rule_Priority p \<le> rule_Priority q))
           (by_kind (ce_rules (Refresh srt rules e)) k)"
proof -
  let ?ks = "[r \<leftarrow> rules. rule_Enabled r \<and> rule_Kind r = k]"
  have eq: "by_kind (ce_rules (Refresh srt rules e)) k = srt ?ks"
    by (rule by_kind_Refresh [OF assms])
  have "mset (srt ?ks) = mset ?ks"
    using assms by (simp add: sorts_rules_def)
  moreover have "sorted_wrt (\<lambda>p q. Specificity p > Specificity q
            \<or> (Specificity p = Specificity q \<and> rule_Priority p \<le> rule_Priority q)) (srt ?ks)"
    by (rule sorted_wrt_mono_rel [OF _ sorts_rules_sorted [OF assms]])
       (auto simp: rule_less_def Let_def split: if_splits)
  ultimately show ?thesis
    by (simp add: eq)
qed

definition sample_rule :: "int \<Rightarrow> string \<Rightarrow> int \<Rightarrow> rule" where
  "sample_rule i pkg prio =
     \<lparr>rule_ID = i, rule_Name = ''r'', rule_Kind = ''cooldown'', rule_TenantID = 0, rule_Format = [],
      rule_Package = pkg, rule_VersionPattern = [], rule_Action = ''deny'', rule_Config = EmptyConfig,
      rule_Priority = prio, rule_Enabled = True, rule_CreatedUnix = 0, rule_CreatedByUserID = 0,
      rule_ExpiresUnix = 0\<rparr>"

theorem Refresh_snapshot_witness:
  "by_kind (ce_rules (Refresh sortRules [sample_rule 1 [] 5, sample_rule 2 ''lib'' 9] (NewChainEngine [])))
      ''cooldown'' = [sample_rule 2 ''lib'' 9, sample_rule 1 [] 5]
   \<and> mset (by_kind (ce_rules (Refresh sortRules [sample_rule 1 [] 5, sample_rule 2 ''lib'' 9] (NewChainEngine [])))
      ''cooldown'') = {#sample_rule 1 [] 5, sample_rule 2 ''lib'' 9#}"
proof
  show "by_kind (ce_rules (Refresh sortRules [sample_rule 1 [] 5, sample_rule 2 ''lib'' 9] (NewChainEngine [])))
      ''cooldown'' = [sample_rule 2 ''lib'' 9, sample_rule 1 [] 5]"
    by code_simp
  show "mset (by_kind (ce_rules (Refresh sortRules [sample_rule 1 [] 5, sample_rule 2 ''lib'' 9] (NewChainEngine [])))
      ''cooldown'') = {#sample_rule 1 [] 5, sample_rule 2 ''lib'' 9#}"
    using Refresh_snapshot [OF sorts_rules_sortRules, of "[sample_rule 1 [] 5, sample_rule 2 ''lib'' 9]" "NewChainEngine []" "''cooldown''"]
    by (simp add: sample_rule_def)
qed

lemma eval_chain_Deny: "res_Decision d = Deny \<Longrightarrow> eval_chain evs snap now s a d = d"
  by (cases evs) (simp_all add: Let_def)

text \<open>
  An evaluator that panics is isolated: the engine's result, for ingests and reads alike,
  is the one it gives without that evaluator.\<close>

theorem Evaluate_ignores_panic:
  assumes "ce_evaluators e = xs @ ev # ys" and "\<forall>s a rs. ev_Evaluate ev s a rs = None"
  shows "Evaluate e now s a = Evaluate (e\<lparr>ce_evaluators := xs @ ys\<rparr>) now s a"
proof -
  have r: "safeEvaluate ev s a ms = \<lparr>res_Decision = Allow, res_Reason = [], res_RuleID = 0\<rparr>" for ms
    using assms(2) by (simp add: safeEvaluate_def)
  have "eval_chain (xs @ ev # ys) snap now s a d = eval_chain (xs @ ys) snap now s a d" for snap d
  proof (induction xs arbitrary: d)
    case Nil
    show ?case
      by (simp add: r Let_def eval_chain_Deny decision_order)
  next
    case (Cons x xs)
    then show ?case by (simp add: Let_def)
  qed
  with assms(1) show ?thesis
    by (simp add: Evaluate_def)
qed

theorem Evaluate_ignores_panic_witness:
  "Evaluate (NewChainEngine [\<lparr>ev_Kind = ''k'', ev_Evaluate = \<lambda>s a rs. None\<rparr>]) 0
      \<lparr>subj_TenantID = 1, subj_Format = ''go'', subj_Package = ''p'', subj_Version = ''1'',
       subj_Filename = [], subj_Attrs = Map.empty\<rparr> ActionIngest = allow_result"
  using Evaluate_ignores_panic [of "NewChainEngine [\<lparr>ev_Kind = ''k'', ev_Evaluate = \<lambda>s a rs. None\<rparr>]"
      "[]" "\<lparr>ev_Kind = ''k'', ev_Evaluate = \<lambda>s a rs. None\<rparr>" "[]" 0
      "\<lparr>subj_TenantID = 1, subj_Format = ''go'', subj_Package = ''p'', subj_Version = ''1'',
       subj_Filename = [], subj_Attrs = Map.empty\<rparr>" ActionIngest]
  by (simp add: NewChainEngine_def Evaluate_def allow_result_def)

end
