(* ===== verification/Cooldown.thy ===== *)
theory Cooldown
  imports Policy_Engine
begin

text \<open>
  The release-age control (\<open>internal/policy/cooldown/cooldown.go\<close>). The wall clock is the
  argument \<open>now\<close>. The threshold is computed in 64-bit arithmetic, as the code does.
\<close>

definition cooldown_Kind :: string where
  "cooldown_Kind = ''cooldown''"

definition TimeSourceIngest :: string where
  "TimeSourceIngest = ''ingest''"

definition TimeSourceUpstreamPublish :: string where
  "TimeSourceUpstreamPublish = ''upstream_publish''"

record cooldown_config =
  MinAgeDays :: int
  TimeSource :: string

definition zero_cooldown :: cooldown_config where
  "zero_cooldown = \<lparr>MinAgeDays = 0, TimeSource = []\<rparr>"

definition cooldown_field :: "cooldown_config \<Rightarrow> string \<Rightarrow> json \<Rightarrow> cooldown_config \<times> string option" where
  "cooldown_field c k v =
     (if equal_fold k ''min_age_days'' then
        (let (n, e) = decode_int ''min_age_days'' (MinAgeDays c) v in (c\<lparr>MinAgeDays := n\<rparr>, e))
      else if equal_fold k ''time_source'' then
        (let (s, e) = decode_string ''cooldown.TimeSource'' ''time_source'' (TimeSource c) v
         in (c\<lparr>TimeSource := s\<rparr>, e))
      else (c, None))"

definition decode_cooldown :: "rule \<Rightarrow> (string, cooldown_config) result" where
  "decode_cooldown r = DecodeConfig ''cooldown.Config'' cooldown_field zero_cooldown r"

fun coerceInt64 :: "attr_value \<Rightarrow> int option" where
  "coerceInt64 (AttrInt64 x) = Some x"
| "coerceInt64 (AttrInt x) = Some x"
| "coerceInt64 (AttrFloat64 x) = Some (float_to_int64 x)"
| "coerceInt64 _ = None"

definition ageSeconds :: "subject \<Rightarrow> int option" where
  "ageSeconds s =
     (case subj_Attrs s ''ingest_age_seconds'' of
        None \<Rightarrow> None
      | Some v \<Rightarrow> coerceInt64 v)"

definition published_unix :: "subject \<Rightarrow> int option" where
  "published_unix s =
     (case subj_Attrs s ''upstream_published_unix'' of
        None \<Rightarrow> None
      | Some v \<Rightarrow> (case coerceInt64 v of
          None \<Rightarrow> None
        | Some pub \<Rightarrow> if pub > 0 then Some pub else None))"

text \<open>The age in seconds and the source it was actually read from.\<close>

definition ageSecondsFor :: "int \<Rightarrow> subject \<Rightarrow> string \<Rightarrow> (int \<times> string) option" where
  "ageSecondsFor now s source =
     (let ingest = map_option (\<lambda>age. (age, TimeSourceIngest)) (ageSeconds s) in
      if source = TimeSourceUpstreamPublish then
        (case published_unix s of
           Some pub \<Rightarrow> Some (wrap64 (now - pub), TimeSourceUpstreamPublish)
         | None \<Rightarrow> ingest)
      else ingest)"

fun decisionFromAction :: "string \<Rightarrow> decision" where
  "decisionFromAction a =
     (if a = ''deny'' then Deny
      else if a = ''quarantine'' then Quarantine
      else if a = ''warn'' then Warn
      else Warn)"

definition cooldown_Evaluate :: "int \<Rightarrow> subject \<Rightarrow> action \<Rightarrow> rule list \<Rightarrow> eval_result" where
  "cooldown_Evaluate now s a rules =
     (case rules of
        [] \<Rightarrow> \<lparr>res_Decision = Allow, res_Reason = [], res_RuleID = 0\<rparr>
      | winner # _ \<Rightarrow>
          (case decode_cooldown winner of
             Inl err \<Rightarrow>
               \<lparr>res_Decision = Allow,
                res_Reason = ''cooldown: bad config in rule '' @ go_quote (rule_Name winner) @ '': '' @ err,
                res_RuleID = rule_ID winner\<rparr>
           | Inr cfg \<Rightarrow>
               (if MinAgeDays cfg \<le> 0 then
                  \<lparr>res_Decision = Allow, res_Reason = [], res_RuleID = rule_ID winner\<rparr>
                else
                  (case ageSecondsFor now s (TimeSource cfg) of
                     None \<Rightarrow>
                       \<lparr>res_Decision = Allow,
                        res_Reason = ''cooldown: no age available (ingest_age_seconds and upstream_published_unix both missing)'',
                        res_RuleID = rule_ID winner\<rparr>
                   | Some (age, source) \<Rightarrow>
                       (let threshold = wrap64 (MinAgeDays cfg * 86400);
                            fell_back = (TimeSource cfg = TimeSourceUpstreamPublish \<and> source = TimeSourceIngest)
                        in
                        if age \<ge> threshold then
                          \<lparr>res_Decision = Allow,
                           res_Reason = (if fell_back then ''cooldown: time_source=upstream_publish requested but upstream_published_unix unavailable; fell back to ingest age'' else []),
                           res_RuleID = rule_ID winner\<rparr>
                        else
                          \<lparr>res_Decision = decisionFromAction (rule_Action winner),
                           res_Reason = ''cooldown: version is '' @ show_int (go_div age 86400)
                             @ '' days old (source='' @ source @ ''), rule '' @ go_quote (rule_Name winner)
                             @ '' requires '' @ show_int (MinAgeDays cfg) @ '' ('' @ rule_Action winner @ '')''
                             @ (if fell_back then '' (fell back to ingest age - upstream_published_unix unavailable)'' else []),
                           res_RuleID = rule_ID winner\<rparr>)))))"

definition cooldown_evaluator :: "int \<Rightarrow> evaluator" where
  "cooldown_evaluator now =
     \<lparr>ev_Kind = cooldown_Kind, ev_Evaluate = \<lambda>s a rs. Some (cooldown_Evaluate now s a rs)\<rparr>"

section \<open>The evaluator's contract\<close>

interpretation cooldown_law: lawful_evaluator "cooldown_Evaluate now" for now
proof unfold_locales
  fix s a w ws
  show "cooldown_Evaluate now s a [] = allow_result"
    by (simp add: cooldown_Evaluate_def allow_result_def)
  show "cooldown_Evaluate now s a (w # ws) = cooldown_Evaluate now s a [w]"
    by (simp add: cooldown_Evaluate_def)
  show "res_RuleID (cooldown_Evaluate now s a [w]) = rule_ID w"
    by (simp add: cooldown_Evaluate_def Let_def split: sum.split option.split prod.split)
qed

lemma lawful_cooldown: "lawful (cooldown_evaluator now)"
  unfolding cooldown_evaluator_def by (rule lawfulI) (rule cooldown_law.lawful_evaluator_axioms)

section \<open>When a version is released\<close>

lemma decisionFromAction_not_Allow [simp]: "decisionFromAction a \<noteq> Allow"
  by simp

declare decisionFromAction.simps [simp del]

text \<open>The largest number of days whose number of seconds still fits 64 bits.\<close>

definition max_cooldown_days :: int where
  "max_cooldown_days = 106751991167300"

lemma threshold_exact: "0 < m \<Longrightarrow> m \<le> max_cooldown_days \<Longrightarrow> wrap64 (m * 86400) = m * 86400"
  by (rule wrap64_id) (simp add: int64_range_def max_cooldown_days_def)

lemma cooldown_decision:
  assumes "decode_cooldown w = Inr cfg" and "0 < MinAgeDays cfg" and "MinAgeDays cfg \<le> max_cooldown_days"
    and "ageSecondsFor now s (TimeSource cfg) = Some (age, source)"
  shows "res_Decision (cooldown_Evaluate now s a (w # ws)) =
           (if age < MinAgeDays cfg * 86400 then decisionFromAction (rule_Action w) else Allow)"
  using assms by (simp add: cooldown_Evaluate_def Let_def threshold_exact not_less)

lemma cooldown_misconfigured:
  "decode_cooldown w = Inl err \<Longrightarrow> res_Decision (cooldown_Evaluate now s a (w # ws)) = Allow"
  by (simp add: cooldown_Evaluate_def)

lemma ageSecondsFor_ingest:
  "source \<noteq> TimeSourceUpstreamPublish \<Longrightarrow>
     ageSecondsFor now s source = map_option (\<lambda>age. (age, TimeSourceIngest)) (ageSeconds s)"
  by (simp add: ageSecondsFor_def Let_def)

lemma ageSecondsFor_published:
  "published_unix s = Some pub \<Longrightarrow>
     ageSecondsFor now s TimeSourceUpstreamPublish = Some (wrap64 (now - pub), TimeSourceUpstreamPublish)"
  by (simp add: ageSecondsFor_def Let_def)

lemma ageSecondsFor_fallback:
  "published_unix s = None \<Longrightarrow>
     ageSecondsFor now s TimeSourceUpstreamPublish = map_option (\<lambda>age. (age, TimeSourceIngest)) (ageSeconds s)"
  by (simp add: ageSecondsFor_def Let_def)


section \<open>Properties\<close>

text \<open>
C19: A cooldown rule with a positive, representable number of days holds a version back, with
  the rule's action, exactly as long as its age in seconds is below that many days; the age is
  the time since the upstream published the version when the rule asks for it and the version
  has a positive publish time, and the time since ingest otherwise.\<close>

theorem cooldown_release:
  assumes "decode_cooldown w = Inr cfg"
    and "0 < MinAgeDays cfg" and "MinAgeDays cfg \<le> max_cooldown_days"
    and "int64_range (now - the (published_unix s)) \<or> published_unix s = None"
    and "ageSeconds s = Some ingest_age"
  shows "res_Decision (cooldown_Evaluate now s a (w # ws)) =
     (let age = (if TimeSource cfg = TimeSourceUpstreamPublish \<and> published_unix s \<noteq> None
                 then now - the (published_unix s) else ingest_age)
      in if age < MinAgeDays cfg * 86400 then decisionFromAction (rule_Action w) else Allow)"
proof (cases "TimeSource cfg = TimeSourceUpstreamPublish")
  case src: True
  show ?thesis
  proof (cases "published_unix s")
    case None
    with src assms have "ageSecondsFor now s (TimeSource cfg) = Some (ingest_age, TimeSourceIngest)"
      by (simp add: ageSecondsFor_fallback)
    with None assms show ?thesis by (simp add: cooldown_decision)
  next
    case (Some pub)
    with src assms have "ageSecondsFor now s (TimeSource cfg) = Some (now - pub, TimeSourceUpstreamPublish)"
      by (simp add: ageSecondsFor_published)
    with src Some assms show ?thesis by (simp add: cooldown_decision)
  qed
next
  case False
  with assms have "ageSecondsFor now s (TimeSource cfg) = Some (ingest_age, TimeSourceIngest)"
    by (simp add: ageSecondsFor_ingest)
  with False assms show ?thesis by (simp add: cooldown_decision)
qed

definition cooldown_rule :: "string \<Rightarrow> string \<Rightarrow> rule" where
  "cooldown_rule days source =
     (sample_rule 7 [] 100)\<lparr>rule_Config :=
        ConfigJSON (JObject [(''min_age_days'', JNumber days), (''time_source'', JString source)])\<rparr>"

definition aged_subject :: "int \<Rightarrow> int \<Rightarrow> subject" where
  "aged_subject age pub =
     \<lparr>subj_TenantID = 1, subj_Format = ''pypi'', subj_Package = ''requests'', subj_Version = ''2.0'',
      subj_Filename = [],
      subj_Attrs = [''ingest_age_seconds'' \<mapsto> AttrInt64 age, ''upstream_published_unix'' \<mapsto> AttrInt64 pub]\<rparr>"

lemma decode_cooldown_rule:
  "parse_int64 days = Some n \<Longrightarrow>
     decode_cooldown (cooldown_rule days src) = Inr \<lparr>MinAgeDays = n, TimeSource = src\<rparr>"
  by (simp add: decode_cooldown_def DecodeConfig_def cooldown_rule_def cooldown_field_def
      zero_cooldown_def first_error_def equal_fold_def to_lower_def lower_char_def)

theorem cooldown_release_witness:
  "res_Decision (cooldown_Evaluate 1700000000 (aged_subject 5 1699990000) ActionRead
      [cooldown_rule ''7'' ''upstream_publish'']) = Deny"
proof -
  have p: "parse_int64 ''7'' = Some 7" by code_simp
  have pub: "published_unix (aged_subject 5 1699990000) = Some 1699990000"
    by (simp add: published_unix_def aged_subject_def)
  have age: "ageSeconds (aged_subject 5 1699990000) = Some 5"
    by (simp add: ageSeconds_def aged_subject_def)
  show ?thesis
    using cooldown_release [OF decode_cooldown_rule [OF p, of "''upstream_publish''"], where now = 1700000000 and
        s = "aged_subject 5 1699990000" and ingest_age = 5 and a = ActionRead and ws = "[]"]
    by (simp add: pub age int64_range_def max_cooldown_days_def TimeSourceUpstreamPublish_def
        cooldown_rule_def sample_rule_def decisionFromAction.simps)
qed

text \<open>
  The threshold is computed in 64 bits: from 106751991167301 days on it wraps to a negative
  number of seconds, and the rule then lets a version of age zero through instead of holding
  it back forever.\<close>

theorem cooldown_threshold_wraps:
  "wrap64 ((max_cooldown_days + 1) * 86400) < 0
   \<and> res_Decision (cooldown_Evaluate 1700000000 (aged_subject 0 0) ActionRead
        [cooldown_rule ''106751991167300'' ''ingest'']) = Deny
   \<and> res_Decision (cooldown_Evaluate 1700000000 (aged_subject 0 0) ActionRead
        [cooldown_rule ''106751991167301'' ''ingest'']) = Allow"
proof -
  have p0: "parse_int64 ''106751991167300'' = Some 106751991167300"
    by (simp add: parse_int64_def digit_value_def int64_range_def)
  have p1: "parse_int64 ''106751991167301'' = Some 106751991167301"
    by (simp add: parse_int64_def digit_value_def int64_range_def)
  have age: "ageSeconds (aged_subject 0 0) = Some 0"
    by (simp add: ageSeconds_def aged_subject_def)
  note defs = cooldown_Evaluate_def ageSecondsFor_ingest TimeSourceUpstreamPublish_def age
    wrap64_mod decisionFromAction.simps Let_def
  show ?thesis
    by (simp add: defs decode_cooldown_rule [OF p0] decode_cooldown_rule [OF p1] max_cooldown_days_def)
       (simp add: cooldown_rule_def sample_rule_def)
qed

end
