(* ===== verification/License.thy ===== *)
theory License
  imports Policy_Engine
begin

text \<open>
  The SPDX allowlist control (\<open>internal/policy/license/license.go\<close>). Its
  \<open>decisionFromAction\<close> is a second copy, in the Go package \<open>license\<close>, of the function of
  the cooldown package.
\<close>

definition license_Kind :: string where
  "license_Kind = ''license_allow''"

record license_config =
  lic_Allow :: "string list"
  lic_OnUnknown :: string

definition zero_license :: license_config where
  "zero_license = \<lparr>lic_Allow = [], lic_OnUnknown = []\<rparr>"

definition license_field :: "license_config \<Rightarrow> string \<Rightarrow> json \<Rightarrow> license_config \<times> string option" where
  "license_field c k v =
     (if equal_fold k ''allow'' then
        (let (ss, e) = decode_strings ''allow'' (lic_Allow c) v in (c\<lparr>lic_Allow := ss\<rparr>, e))
      else if equal_fold k ''on_unknown'' then
        (let (s, e) = decode_string ''string'' ''on_unknown'' (lic_OnUnknown c) v
         in (c\<lparr>lic_OnUnknown := s\<rparr>, e))
      else (c, None))"

definition decode_license :: "rule \<Rightarrow> (string, license_config) result" where
  "decode_license r = DecodeConfig ''license.Config'' license_field zero_license r"

definition license_decisionFromAction :: "string \<Rightarrow> decision" where
  "license_decisionFromAction a =
     (if a = ''deny'' then Deny
      else if a = ''quarantine'' then Quarantine
      else if a = ''warn'' then Warn
      else Warn)"

definition handleUnknown :: "rule \<Rightarrow> license_config \<Rightarrow> eval_result" where
  "handleUnknown r cfg =
     (let mode0 = to_lower (trim_space (lic_OnUnknown cfg));
          mode = (if mode0 = [] then ''warn'' else mode0)
      in if mode = ''allow'' then
           \<lparr>res_Decision = Allow, res_Reason = [], res_RuleID = rule_ID r\<rparr>
         else if mode = ''deny'' then
           \<lparr>res_Decision = license_decisionFromAction (rule_Action r),
            res_Reason = ''license_allow: license unknown (rule '' @ go_quote (rule_Name r) @ '': on_unknown=deny)'',
            res_RuleID = rule_ID r\<rparr>
         else
           \<lparr>res_Decision = Warn,
            res_Reason = ''license_allow: license unknown (rule '' @ go_quote (rule_Name r) @ '')'',
            res_RuleID = rule_ID r\<rparr>)"

definition licenseString :: "subject \<Rightarrow> string" where
  "licenseString s =
     (case subj_Attrs s ''license'' of
        Some (AttrString str) \<Rightarrow> str
      | _ \<Rightarrow> [])"

fun matchesAny :: "string \<Rightarrow> string list \<Rightarrow> bool" where
  "matchesAny lic [] = False"
| "matchesAny lic (c # cs) =
     (if equal_fold (to_lower (trim_space lic)) (trim_space c) then True else matchesAny lic cs)"

definition license_Evaluate :: "subject \<Rightarrow> action \<Rightarrow> rule list \<Rightarrow> eval_result" where
  "license_Evaluate s a rules =
     (case rules of
        [] \<Rightarrow> \<lparr>res_Decision = Allow, res_Reason = [], res_RuleID = 0\<rparr>
      | winner # _ \<Rightarrow>
          (case decode_license winner of
             Inl err \<Rightarrow>
               \<lparr>res_Decision = Allow,
                res_Reason = ''license_allow: bad config in rule '' @ go_quote (rule_Name winner) @ '': '' @ err,
                res_RuleID = rule_ID winner\<rparr>
           | Inr cfg \<Rightarrow>
               (let got = trim_space (licenseString s) in
                if got = [] then handleUnknown winner cfg
                else if matchesAny got (lic_Allow cfg) then
                  \<lparr>res_Decision = Allow, res_Reason = [], res_RuleID = rule_ID winner\<rparr>
                else
                  \<lparr>res_Decision = license_decisionFromAction (rule_Action winner),
                   res_Reason = ''license_allow: license '' @ go_quote got @ '' not in allowlist ''
                     @ show_strings (lic_Allow cfg) @ '' (rule '' @ go_quote (rule_Name winner) @ '')'',
                   res_RuleID = rule_ID winner\<rparr>)))"

definition license_evaluator :: evaluator where
  "license_evaluator =
     \<lparr>ev_Kind = license_Kind, ev_Evaluate = \<lambda>s a rs. Some (license_Evaluate s a rs)\<rparr>"

section \<open>The evaluator's contract\<close>

lemma handleUnknown_named [simp]: "res_RuleID (handleUnknown r cfg) = rule_ID r"
  by (simp add: handleUnknown_def Let_def)

interpretation license_law: lawful_evaluator license_Evaluate
proof unfold_locales
  fix s a w ws
  show "license_Evaluate s a [] = allow_result"
    by (simp add: license_Evaluate_def allow_result_def)
  show "license_Evaluate s a (w # ws) = license_Evaluate s a [w]"
    by (simp add: license_Evaluate_def)
  show "res_RuleID (license_Evaluate s a [w]) = rule_ID w"
    by (simp add: license_Evaluate_def Let_def split: sum.split)
qed

lemma lawful_license: "lawful license_evaluator"
  unfolding license_evaluator_def by (rule lawfulI) (rule license_law.lawful_evaluator_axioms)

section \<open>What is allowed\<close>

lemma license_decision_not_Allow [simp]: "license_decisionFromAction a \<noteq> Allow"
  by (simp add: license_decisionFromAction_def)

lemma matchesAny_iff:
  "matchesAny lic cs \<longleftrightarrow> (\<exists>c \<in> set cs. equal_fold (trim_space lic) (trim_space c))"
  by (induction cs) (auto simp: equal_fold_def)

lemma handleUnknown_Allow_iff:
  "res_Decision (handleUnknown r cfg) = Allow \<longleftrightarrow> to_lower (trim_space (lic_OnUnknown cfg)) = ''allow''"
  by (auto simp: handleUnknown_def Let_def)

lemma license_Allow_iff:
  assumes "decode_license w = Inr cfg"
  shows "res_Decision (license_Evaluate s a (w # ws)) = Allow \<longleftrightarrow>
     (if trim_space (licenseString s) = [] then to_lower (trim_space (lic_OnUnknown cfg)) = ''allow''
      else \<exists>c \<in> set (lic_Allow cfg). equal_fold (trim_space (licenseString s)) (trim_space c))"
  using assms
  by (simp add: license_Evaluate_def Let_def handleUnknown_Allow_iff matchesAny_iff)


section \<open>Properties\<close>

text \<open>
  With a well-formed license rule as its most specific rule, the evaluator allows a version
  exactly when its license is known and, ignoring case and surrounding space, on the rule's
  list, or unknown and the rule says on_unknown=allow; a known license off the list gets the
  rule's action, an unknown one the action only under on_unknown=deny and a warning otherwise.\<close>

theorem license_decision:
  assumes "decode_license w = Inr cfg"
  shows "res_Decision (license_Evaluate s a (w # ws)) =
     (if trim_space (licenseString s) = [] then
        (if to_lower (trim_space (lic_OnUnknown cfg)) = ''allow'' then Allow
         else if to_lower (trim_space (lic_OnUnknown cfg)) = ''deny''
         then license_decisionFromAction (rule_Action w) else Warn)
      else if (\<exists>c \<in> set (lic_Allow cfg). equal_fold (trim_space (licenseString s)) (trim_space c))
      then Allow else license_decisionFromAction (rule_Action w))"
  using assms by (simp add: license_Evaluate_def Let_def handleUnknown_def matchesAny_iff)

definition license_rule :: "string list \<Rightarrow> string \<Rightarrow> rule" where
  "license_rule ids unk =
     (sample_rule 9 [] 100)\<lparr>rule_Kind := ''license_allow'', rule_Config :=
        ConfigJSON (JObject [(''allow'', JArray (map JString ids)), (''on_unknown'', JString unk)])\<rparr>"

lemma decode_elems_strings: "decode_elems f (map JString ids) = (ids, None)"
  by (induction ids) (simp_all add: first_error_def)

lemma decode_license_rule:
  "decode_license (license_rule ids unk) = Inr \<lparr>lic_Allow = ids, lic_OnUnknown = unk\<rparr>"
  by (simp add: decode_license_def DecodeConfig_def license_rule_def license_field_def
      zero_license_def first_error_def equal_fold_def to_lower_def lower_char_def decode_elems_strings)

theorem license_decision_witness:
  "res_Decision (license_Evaluate \<lparr>subj_TenantID = 1, subj_Format = ''pypi'', subj_Package = ''p'',
      subj_Version = ''1'', subj_Filename = [], subj_Attrs = [''license'' \<mapsto> AttrString '' mit'']\<rparr>
      ActionIngest [license_rule [''Apache-2.0'', ''MIT''] ''deny'']) = Allow"
  unfolding license_decision [OF decode_license_rule]
  by (simp add: licenseString_def) code_simp

text \<open>
An empty allowlist that does not say on_unknown=allow does not deny everything: a version
  of unknown license is only warned about unless on_unknown is deny, and the verdict otherwise
  is the rule's action, which need not be deny.\<close>

theorem empty_allowlist_only_warns:
  "res_Decision (license_Evaluate \<lparr>subj_TenantID = 1, subj_Format = ''pypi'', subj_Package = ''p'',
      subj_Version = ''1'', subj_Filename = [], subj_Attrs = Map.empty\<rparr>
      ActionIngest [license_rule [] []]) = Warn"
  by (simp add: license_Evaluate_def decode_license_rule licenseString_def handleUnknown_def Let_def
      trim_space_def trim_left_def)

end
