(* ===== verification/Tables.thy ===== *)
theory Tables
  imports Prelude
begin

text \<open>
  SQL tables with an \<open>INTEGER PRIMARY KEY AUTOINCREMENT\<close> column, as the schema of
  \<open>internal/db/db.go\<close> declares them: the rows in insertion order and the highest
  identifier ever given out. \<open>SELECT ... WHERE\<close>, \<open>UPDATE ... WHERE\<close> and
  \<open>DELETE ... WHERE\<close> are the operations below; an \<open>INSERT\<close> fails when the value of the
  table's unique columns is taken (\<open>insert_unique\<close>), where the table has such columns. Disk failures of the database are not modelled.

  The locale \<open>keyed_rows\<close> is the interface between a table and the store operations that
  insert into it: the inserted row carries the identifier it is given and unique columns
  that do not depend on that identifier. Everything proved about inserting is proved there once.
\<close>

record 'r sql_table =
  rows :: "'r list"
  seq :: int

definition empty_table :: "'r sql_table" where
  "empty_table = \<lparr>rows = [], seq = 0\<rparr>"

definition select_one :: "('r \<Rightarrow> bool) \<Rightarrow> 'r sql_table \<Rightarrow> 'r option" where
  "select_one P t = List.find P (rows t)"

definition select_all :: "('r \<Rightarrow> bool) \<Rightarrow> 'r sql_table \<Rightarrow> 'r list" where
  "select_all P t = filter P (rows t)"

definition update_where :: "('r \<Rightarrow> bool) \<Rightarrow> ('r \<Rightarrow> 'r) \<Rightarrow> 'r sql_table \<Rightarrow> 'r sql_table" where
  "update_where P f t = t\<lparr>rows := map (\<lambda>r. if P r then f r else r) (rows t)\<rparr>"

definition rows_affected :: "('r \<Rightarrow> bool) \<Rightarrow> 'r sql_table \<Rightarrow> nat" where
  "rows_affected P t = length (filter P (rows t))"

definition delete_where :: "('r \<Rightarrow> bool) \<Rightarrow> 'r sql_table \<Rightarrow> 'r sql_table" where
  "delete_where P t = t\<lparr>rows := filter (\<lambda>r. \<not> P r) (rows t)\<rparr>"

definition insert_unique :: "('r \<Rightarrow> 'k) \<Rightarrow> (int \<Rightarrow> 'r) \<Rightarrow> 'r sql_table \<Rightarrow> ('r \<times> 'r sql_table) option" where
  "insert_unique key mk t =
     (let r = mk (seq t + 1) in
      if key r \<in> key ` set (rows t) then None
      else Some (r, t\<lparr>rows := rows t @ [r], seq := seq t + 1\<rparr>))"

definition insert_row :: "(int \<Rightarrow> 'r) \<Rightarrow> 'r sql_table \<Rightarrow> 'r \<times> 'r sql_table" where
  "insert_row mk t =
     (let r = mk (seq t + 1) in (r, t\<lparr>rows := rows t @ [r], seq := seq t + 1\<rparr>))"

definition table_ok :: "('r \<Rightarrow> int) \<Rightarrow> ('r \<Rightarrow> 'k) \<Rightarrow> 'r sql_table \<Rightarrow> bool" where
  "table_ok rid key t \<longleftrightarrow>
     distinct (map rid (rows t)) \<and> distinct (map key (rows t))
   \<and> (\<forall>r \<in> set (rows t). 0 < rid r \<and> rid r \<le> seq t) \<and> 0 \<le> seq t"

lemmas table_defs = select_one_def select_all_def update_where_def rows_affected_def delete_where_def

lemma rows_empty [simp]: "rows empty_table = []" "seq empty_table = 0"
  by (simp_all add: empty_table_def)

lemma rows_update_where [simp]:
  "rows (update_where P f t) = map (\<lambda>r. if P r then f r else r) (rows t)"
  "seq (update_where P f t) = seq t"
  by (simp_all add: update_where_def)

lemma rows_delete_where [simp]:
  "rows (delete_where P t) = filter (\<lambda>r. \<not> P r) (rows t)"
  "seq (delete_where P t) = seq t"
  by (simp_all add: delete_where_def)

lemma update_where_image:
  assumes "\<And>r. g (f r) = g r"
  shows "g ` set (rows (update_where P f t)) = g ` set (rows t)"
proof -
  have "(\<lambda>r. g (if P r then f r else r)) = g"
    using assms by auto
  then show ?thesis
    by (simp only: rows_update_where set_map image_image)
qed

lemma update_where_elem:
  "r \<in> set (rows (update_where P f t)) \<Longrightarrow> \<exists>q \<in> set (rows t). r = (if P q then f q else q)"
  by auto

lemma select_oneD: "select_one P t = Some r \<Longrightarrow> r \<in> set (rows t) \<and> P r"
  by (auto simp: select_one_def dest: find_SomeD)

lemma select_one_None: "select_one P t = None \<longleftrightarrow> (\<forall>r \<in> set (rows t). \<not> P r)"
  by (simp add: select_one_def find_None_conv)

lemma rows_affected_0 [simp]: "rows_affected P t = 0 \<longleftrightarrow> (\<forall>r \<in> set (rows t). \<not> P r)"
  by (simp add: rows_affected_def filter_Nil_conv)

lemma table_ok_empty [simp]: "table_ok rid key empty_table"
  by (simp add: table_ok_def)

lemma table_ok_rid_unique:
  "table_ok rid key t \<Longrightarrow> r \<in> set (rows t) \<Longrightarrow> q \<in> set (rows t) \<Longrightarrow> rid r = rid q \<Longrightarrow> r = q"
  by (auto simp: table_ok_def distinct_map inj_on_def)

lemma table_ok_key_unique:
  "table_ok rid key t \<Longrightarrow> r \<in> set (rows t) \<Longrightarrow> q \<in> set (rows t) \<Longrightarrow> key r = key q \<Longrightarrow> r = q"
  by (auto simp: table_ok_def distinct_map inj_on_def)

lemma table_ok_select_id:
  "table_ok rid key t \<Longrightarrow> r \<in> set (rows t) \<Longrightarrow> select_one (\<lambda>q. rid q = rid r) t = Some r"
  by (auto simp: table_ok_def select_one_def find_distinct_key)

lemma table_ok_select_key:
  "table_ok rid key t \<Longrightarrow> r \<in> set (rows t) \<Longrightarrow> select_one (\<lambda>q. key q = key r) t = Some r"
  by (auto simp: table_ok_def select_one_def find_distinct_key)

lemma table_ok_select_key_iff:
  "table_ok rid key t \<Longrightarrow>
     select_one (\<lambda>q. key q = k) t = Some r \<longleftrightarrow> r \<in> set (rows t) \<and> key r = k"
  by (auto dest: select_oneD intro: table_ok_select_key)

lemma table_ok_select_id_iff:
  "table_ok rid key t \<Longrightarrow>
     select_one (\<lambda>q. rid q = i) t = Some r \<longleftrightarrow> r \<in> set (rows t) \<and> rid r = i"
  by (auto dest: select_oneD intro: table_ok_select_id)

lemma table_ok_delete [intro]:
  "table_ok rid key t \<Longrightarrow> table_ok rid key (delete_where P t)"
  by (auto simp: table_ok_def distinct_map inj_on_def)

lemma table_ok_update [intro]:
  assumes "table_ok rid key t" and "\<And>r. rid (f r) = rid r" and "\<And>r. key (f r) = key r"
  shows "table_ok rid key (update_where P f t)"
proof -
  have r: "map rid (rows (update_where P f t)) = map rid (rows t)"
    and k: "map key (rows (update_where P f t)) = map key (rows t)"
    using assms(2,3) by auto
  from assms(1,2) show ?thesis
    unfolding table_ok_def r k by auto
qed

locale keyed_rows =
  fixes rid :: "'r \<Rightarrow> int" and key :: "'r \<Rightarrow> 'k" and mk :: "'a \<Rightarrow> int \<Rightarrow> 'r"
  assumes rid_mk: "rid (mk a i) = i"
    and key_mk: "key (mk a i) = key (mk a j)"
begin

lemma insert_SomeD:
  assumes "insert_unique key (mk a) t = Some (r, t')"
  shows "r = mk a (seq t + 1)" "rows t' = rows t @ [r]" "seq t' = seq t + 1"
    "rid r = seq t + 1" "key r \<notin> key ` set (rows t)"
  using assms rid_mk by (auto simp: insert_unique_def Let_def split: if_splits)

lemma insert_None_iff:
  "insert_unique key (mk a) t = None \<longleftrightarrow> (\<exists>r \<in> set (rows t). key r = key (mk a 0))"
  using key_mk [of a "seq t + 1" 0] by (simp add: insert_unique_def Let_def image_iff) metis

lemma insert_ok:
  assumes "table_ok rid key t" and "insert_unique key (mk a) t = Some (r, t')"
  shows "table_ok rid key t'"
  using assms(1) insert_SomeD [OF assms(2)] by (force simp: table_ok_def)

lemma insert_fresh:
  assumes "table_ok rid key t" and "insert_unique key (mk a) t = Some (r, t')"
  shows "rid r \<notin> rid ` set (rows t)" "0 < rid r"
  using assms(1) insert_SomeD [OF assms(2)] by (force simp: table_ok_def)+

lemma insert_lookup:
  assumes "table_ok rid key t" and "insert_unique key (mk a) t = Some (r, t')"
  shows "select_one (\<lambda>q. key q = key r) t' = Some r" "select_one (\<lambda>q. rid q = rid r) t' = Some r"
  using insert_ok [OF assms] insert_SomeD(2) [OF assms(2)]
  by (auto intro: table_ok_select_key table_ok_select_id)

lemma insert_frame:
  assumes "table_ok rid key t" and "insert_unique key (mk a) t = Some (r, t')" and "\<not> P r"
  shows "select_one P t' = select_one P t"
  using insert_SomeD(2) [OF assms(2)] assms(3)
  by (simp add: select_one_def find_append split: option.splits)

lemma reinsert_refused:
  assumes "table_ok rid key t" and "insert_unique key (mk a) t = Some (r, t')"
  shows "insert_unique key (mk a) t' = None"
  using insert_SomeD(1,2) [OF assms(2)] key_mk [of a "seq t + 1" 0] by (auto simp: insert_None_iff)

end

end
