(* ===== verification/Database.thy ===== *)
theory Database
  imports Go_Strings Tables Policy
begin

text \<open>
  The SQLite schema (\<open>internal/db/db.go\<close>, all migrations applied) and the row types of the
  Go packages that read it. A nullable column is an \<open>option\<close>. The referential actions of
  the schema (\<open>ON DELETE CASCADE\<close>, \<open>ON DELETE SET NULL\<close>) are part of the deleting
  operations; an insert or update that names a missing row fails with \<open>ErrForeignKey\<close>
  (the DSN switches foreign keys on).
\<close>

datatype go_error =
    ErrPackageNotExist | ErrVersionNotExist | ErrFileNotExist | ErrBlobNotExist
  | ErrDuplicatePackageVersion | ErrDuplicatePackageFile
  | ErrTenantNotExist | ErrTenantDuplicate
  | ErrUserNotExist | ErrUserDuplicate | ErrNoPassword | ErrPasswordMismatch
  | ErrTokenNotExist | ErrTokenExpired
  | ErrRuleNotExist
  | ErrForeignKey | ErrUnique
  | ErrNotFound
  | ErrText string

section \<open>Rows\<close>

record package =
  pkg_ID :: int
  pkg_TenantID :: int
  pkg_Type :: string
  pkg_Name :: string
  pkg_LowerName :: string
  pkg_CreatedUnix :: int
  pkg_CreatedVia :: string

record pkg_version =
  ver_ID :: int
  ver_PackageID :: int
  ver_Version :: string
  ver_LowerVersion :: string
  ver_MetadataJSON :: string
  ver_CreatedUnix :: int
  ver_License :: "string option"
  ver_QuarantineReason :: "string option"
  ver_QuarantinedByRuleID :: "int option"
  ver_UpstreamPublishedUnix :: "int option"

record blob =
  blob_ID :: int
  blob_Size :: int
  blob_HashMD5 :: string
  blob_HashSHA1 :: string
  blob_HashSHA256 :: string
  blob_HashSHA512 :: string
  blob_CreatedUnix :: int

record pkg_file =
  file_ID :: int
  file_VersionID :: int
  file_BlobID :: int
  file_Name :: string
  file_LowerName :: string
  file_IsLead :: bool
  file_CreatedUnix :: int

datatype prop_ref = PropertyRefPackage | PropertyRefVersion | PropertyRefFile

record property =
  prop_ID :: int
  prop_RefType :: prop_ref
  prop_RefID :: int
  prop_Name :: string
  prop_Value :: string

record tenant =
  ten_ID :: int
  ten_Name :: string
  ten_LowerName :: string
  ten_Visibility :: int
  ten_CreatedUnix :: int
  ten_audit_reads :: int
  ten_audit_retention_days :: int

record user =
  usr_ID :: int
  usr_Name :: string
  usr_LowerName :: string
  usr_Kind :: int
  usr_Email :: "string option"
  usr_IsAdmin :: bool
  usr_ExternalProvider :: "string option"
  usr_ExternalSubject :: "string option"
  usr_CreatedUnix :: int
  usr_LastSeenUnix :: int
  usr_password_hash :: "string option"
  usr_password_set_unix :: "int option"

record tenant_member =
  mem_TenantID :: int
  mem_UserID :: int
  mem_Role :: int

record token_row =
  tkr_ID :: int
  tkr_UserID :: int
  tkr_Name :: string
  tkr_Hash :: string
  tkr_Scopes :: string
  tkr_TenantScope :: "int option"
  tkr_CreatedUnix :: int
  tkr_LastUsedUnix :: int
  tkr_ExpiresUnix :: int

record rule_row =
  rr_id :: int
  rr_name :: string
  rr_kind :: string
  rr_tenant_id :: "int option"
  rr_format :: "string option"
  rr_package_lower_name :: "string option"
  rr_version_pattern :: "string option"
  rr_action :: string
  rr_config_json :: config_json
  rr_priority :: int
  rr_enabled :: int
  rr_created_unix :: int
  rr_created_by_user_id :: "int option"
  rr_expires_unix :: int

record audit_row =
  al_id :: int
  al_created_unix :: int
  al_actor_user_id :: "int option"
  al_actor_token_id :: "int option"
  al_actor_kind :: "string option"
  al_request_id :: "string option"
  al_remote_addr :: "string option"
  al_user_agent :: "string option"
  al_tenant_id :: "int option"
  al_action :: string
  al_format :: "string option"
  al_package :: "string option"
  al_version :: "string option"
  al_filename :: "string option"
  al_decision :: "string option"
  al_rule_id :: "int option"
  al_reason :: "string option"
  al_extra_json :: string

record upstream_row =
  tu_tenant_id :: int
  tu_format :: string
  tu_mode :: string
  tu_upstream_url :: "string option"
  tu_metadata_ttl_sec :: int
  tu_auth_kind :: "string option"
  tu_auth_credential :: "string option"
  tu_updated_unix :: int

section \<open>The database\<close>

record db =
  db_packages :: "package sql_table"
  db_versions :: "pkg_version sql_table"
  db_blobs :: "blob sql_table"
  db_files :: "pkg_file sql_table"
  db_properties :: "property sql_table"
  db_tenants :: "tenant sql_table"
  db_users :: "user sql_table"
  db_members :: "tenant_member list"
  db_tokens :: "token_row sql_table"
  db_rules :: "rule_row sql_table"
  db_audit :: "audit_row sql_table"
  db_upstreams :: "upstream_row list"

definition default_tenant_row :: "int \<Rightarrow> tenant" where
  "default_tenant_row now =
     \<lparr>ten_ID = 1, ten_Name = ''default'', ten_LowerName = ''default'', ten_Visibility = 0,
      ten_CreatedUnix = now, ten_audit_reads = 0, ten_audit_retention_days = 90\<rparr>"

text \<open>A fresh database after \<open>Open\<close>: migration 2 seeds the tenant \<open>default\<close>.\<close>

definition fresh_db :: "int \<Rightarrow> db" where
  "fresh_db now =
     \<lparr>db_packages = empty_table, db_versions = empty_table, db_blobs = empty_table,
      db_files = empty_table, db_properties = empty_table,
      db_tenants = \<lparr>rows = [default_tenant_row now], seq = 1\<rparr>,
      db_users = empty_table, db_members = [], db_tokens = empty_table, db_rules = empty_table,
      db_audit = empty_table, db_upstreams = []\<rparr>"

definition pkg_key :: "package \<Rightarrow> int \<times> string \<times> string" where
  "pkg_key p = (pkg_TenantID p, pkg_Type p, pkg_LowerName p)"

definition ver_key :: "pkg_version \<Rightarrow> int \<times> string" where
  "ver_key v = (ver_PackageID v, ver_LowerVersion v)"

definition file_key :: "pkg_file \<Rightarrow> int \<times> string" where
  "file_key f = (file_VersionID f, file_LowerName f)"

definition prop_key :: "property \<Rightarrow> prop_ref \<times> int \<times> string" where
  "prop_key p = (prop_RefType p, prop_RefID p, prop_Name p)"

definition tenant_exists :: "db \<Rightarrow> int \<Rightarrow> bool" where
  "tenant_exists d i \<longleftrightarrow> i \<in> ten_ID ` set (rows (db_tenants d))"

definition user_exists :: "db \<Rightarrow> int \<Rightarrow> bool" where
  "user_exists d i \<longleftrightarrow> i \<in> usr_ID ` set (rows (db_users d))"

definition package_exists :: "db \<Rightarrow> int \<Rightarrow> bool" where
  "package_exists d i \<longleftrightarrow> i \<in> pkg_ID ` set (rows (db_packages d))"

definition version_exists :: "db \<Rightarrow> int \<Rightarrow> bool" where
  "version_exists d i \<longleftrightarrow> i \<in> ver_ID ` set (rows (db_versions d))"

definition file_exists :: "db \<Rightarrow> int \<Rightarrow> bool" where
  "file_exists d i \<longleftrightarrow> i \<in> file_ID ` set (rows (db_files d))"

definition blob_exists :: "db \<Rightarrow> int \<Rightarrow> bool" where
  "blob_exists d i \<longleftrightarrow> i \<in> blob_ID ` set (rows (db_blobs d))"

definition token_exists :: "db \<Rightarrow> int \<Rightarrow> bool" where
  "token_exists d i \<longleftrightarrow> i \<in> tkr_ID ` set (rows (db_tokens d))"

definition rule_exists :: "db \<Rightarrow> int \<Rightarrow> bool" where
  "rule_exists d i \<longleftrightarrow> i \<in> rr_id ` set (rows (db_rules d))"

lemmas exists_defs =
  tenant_exists_def user_exists_def package_exists_def version_exists_def file_exists_def
  blob_exists_def token_exists_def rule_exists_def

section \<open>The catalogue invariant\<close>

text \<open>
  The tables of the package catalogue: identifiers and unique columns are unique, and no
  version or file refers to a row that is gone. Properties have no foreign key in the
  schema; that none is left behind (\<open>props_ok\<close>) is the work of the deleting operations.
\<close>

fun prop_target :: "db \<Rightarrow> prop_ref \<Rightarrow> int \<Rightarrow> bool" where
  "prop_target d PropertyRefPackage i = package_exists d i"
| "prop_target d PropertyRefVersion i = version_exists d i"
| "prop_target d PropertyRefFile i = file_exists d i"

definition props_ok :: "db \<Rightarrow> bool" where
  "props_ok d \<longleftrightarrow> (\<forall>p \<in> set (rows (db_properties d)). prop_target d (prop_RefType p) (prop_RefID p))"

definition catalog_ok :: "db \<Rightarrow> bool" where
  "catalog_ok d \<longleftrightarrow>
     table_ok pkg_ID pkg_key (db_packages d)
   \<and> table_ok ver_ID ver_key (db_versions d)
   \<and> table_ok blob_ID blob_HashSHA256 (db_blobs d)
   \<and> table_ok file_ID file_key (db_files d)
   \<and> table_ok prop_ID prop_key (db_properties d)
   \<and> (\<forall>v \<in> set (rows (db_versions d)). package_exists d (ver_PackageID v))
   \<and> (\<forall>f \<in> set (rows (db_files d)). version_exists d (file_VersionID f))
   \<and> (\<forall>f \<in> set (rows (db_files d)). blob_exists d (file_BlobID f))"

lemma catalog_ok_fresh [simp]: "catalog_ok (fresh_db now)"
  by (simp add: catalog_ok_def fresh_db_def)

lemma props_ok_fresh [simp]: "props_ok (fresh_db now)"
  by (simp add: props_ok_def fresh_db_def)

text \<open>Names and their shadow columns agree.\<close>

definition names_ok :: "db \<Rightarrow> bool" where
  "names_ok d \<longleftrightarrow>
     (\<forall>v \<in> set (rows (db_versions d)). ver_LowerVersion v = to_lower (ver_Version v))
   \<and> (\<forall>f \<in> set (rows (db_files d)). file_LowerName f = to_lower (file_Name f))"

end
