(* ===== verification/Models_Store.thy ===== *)
theory Models_Store
  imports Database "HOL-Library.List_Lexorder" "HOL-Library.Char_ord" "HOL-Library.Product_Lexorder"
begin

text \<open>
  The package catalogue (\<open>internal/models/models.go\<close>): packages, versions, blobs, files and
  properties. Every method of the Go \<open>Store\<close> is a function of the database; the ones that
  write return the new database. \<open>now\<close> is the wall clock in seconds.
\<close>

section \<open>Packages\<close>

definition CreatedViaUploaded :: string where
  "CreatedViaUploaded = ''uploaded''"

definition CreatedViaPullThrough :: string where
  "CreatedViaPullThrough = ''pull_through''"

definition CreatedVia_Valid :: "string \<Rightarrow> bool" where
  "CreatedVia_Valid v = (v = CreatedViaUploaded \<or> v = CreatedViaPullThrough)"

definition GetPackageByLookup :: "db \<Rightarrow> int \<Rightarrow> string \<Rightarrow> string \<Rightarrow> (go_error, package) result" where
  "GetPackageByLookup d tenantID t lookupName =
     (case select_one (\<lambda>p. pkg_TenantID p = tenantID \<and> pkg_Type p = t \<and> pkg_LowerName p = lookupName)
             (db_packages d) of
        None \<Rightarrow> Inl ErrPackageNotExist
      | Some p \<Rightarrow> Inr p)"

definition GetPackage :: "db \<Rightarrow> int \<Rightarrow> string \<Rightarrow> string \<Rightarrow> (go_error, package) result" where
  "GetPackage d tenantID t name = GetPackageByLookup d tenantID t (to_lower name)"

definition GetPackageByID :: "db \<Rightarrow> int \<Rightarrow> (go_error, package) result" where
  "GetPackageByID d i =
     (case select_one (\<lambda>p. pkg_ID p = i) (db_packages d) of
        None \<Rightarrow> Inl ErrPackageNotExist
      | Some p \<Rightarrow> Inr p)"

definition mk_package :: "int \<times> string \<times> string \<times> string \<times> int \<times> string \<Rightarrow> int \<Rightarrow> package" where
  "mk_package = (\<lambda>(tenantID, t, displayName, lookupName, now, via) i.
     \<lparr>pkg_ID = i, pkg_TenantID = tenantID, pkg_Type = t, pkg_Name = displayName,
      pkg_LowerName = lookupName, pkg_CreatedUnix = now, pkg_CreatedVia = via\<rparr>)"

text \<open>
  The part of \<open>GetOrCreatePackageWithLookup\<close> after the lookup missed: \<open>INSERT ... ON CONFLICT
  DO NOTHING\<close>. On a conflict nothing is inserted and \<open>LastInsertId\<close> is whatever the last
  successful insert of this database connection was, the parameter \<open>last_rowid\<close> (0 when there
  was none).
\<close>

definition insert_package :: "int \<Rightarrow> int \<Rightarrow> int \<Rightarrow> string \<Rightarrow> string \<Rightarrow> string \<Rightarrow> string \<Rightarrow> db
    \<Rightarrow> db \<times> (go_error, package) result" where
  "insert_package last_rowid now tenantID t displayName lookupName createdVia d =
     (let via = (if CreatedVia_Valid createdVia then createdVia else CreatedViaUploaded);
          args = (tenantID, t, displayName, lookupName, now, via)
      in case insert_unique pkg_key (mk_package args) (db_packages d) of
           None \<Rightarrow>
             (d, if last_rowid > 0 then Inr (mk_package args last_rowid)
                 else GetPackageByLookup d tenantID t lookupName)
         | Some (p, tb) \<Rightarrow>
             (if tenant_exists d tenantID then (d\<lparr>db_packages := tb\<rparr>, Inr p)
              else (d, Inl ErrForeignKey)))"

definition GetOrCreatePackageWithLookup :: "int \<Rightarrow> int \<Rightarrow> int \<Rightarrow> string \<Rightarrow> string \<Rightarrow> string \<Rightarrow> string \<Rightarrow> db
    \<Rightarrow> db \<times> (go_error, package) result" where
  "GetOrCreatePackageWithLookup last_rowid now tenantID t displayName lookupName createdVia d =
     (case GetPackageByLookup d tenantID t lookupName of
        Inr p \<Rightarrow> (d, Inr p)
      | Inl e \<Rightarrow>
          (if e \<noteq> ErrPackageNotExist then (d, Inl e)
           else insert_package last_rowid now tenantID t displayName lookupName createdVia d))"

definition GetOrCreatePackage :: "int \<Rightarrow> int \<Rightarrow> int \<Rightarrow> string \<Rightarrow> string \<Rightarrow> string \<Rightarrow> db
    \<Rightarrow> db \<times> (go_error, package) result" where
  "GetOrCreatePackage last_rowid now tenantID t name createdVia d =
     GetOrCreatePackageWithLookup last_rowid now tenantID t name (to_lower name) createdVia d"

definition ListPackages :: "db \<Rightarrow> int \<Rightarrow> string \<Rightarrow> package list" where
  "ListPackages d tenantID t =
     (if tenantID = 0 \<and> t = [] then
        sort_key (\<lambda>p. (pkg_TenantID p, pkg_LowerName p)) (rows (db_packages d))
      else if tenantID = 0 then
        sort_key (\<lambda>p. (pkg_TenantID p, pkg_LowerName p)) (select_all (\<lambda>p. pkg_Type p = t) (db_packages d))
      else if t = [] then
        sort_key pkg_LowerName (select_all (\<lambda>p. pkg_TenantID p = tenantID) (db_packages d))
      else
        sort_key pkg_LowerName
          (select_all (\<lambda>p. pkg_TenantID p = tenantID \<and> pkg_Type p = t) (db_packages d)))"

definition CountPackages :: "db \<Rightarrow> int \<Rightarrow> nat" where
  "CountPackages d tenantID =
     (if tenantID = 0 then length (rows (db_packages d))
      else length (select_all (\<lambda>p. pkg_TenantID p = tenantID) (db_packages d)))"

definition CountVersions :: "db \<Rightarrow> int \<Rightarrow> nat" where
  "CountVersions d tenantID =
     (if tenantID = 0 then length (rows (db_versions d))
      else length [(v, p). v \<leftarrow> rows (db_versions d), p \<leftarrow> rows (db_packages d),
                     pkg_ID p = ver_PackageID v \<and> pkg_TenantID p = tenantID])"

definition SetPackageCreatedVia :: "int \<Rightarrow> string \<Rightarrow> db \<Rightarrow> db \<times> (go_error, unit) result" where
  "SetPackageCreatedVia packageID v d =
     (let n = rows_affected (\<lambda>p. pkg_ID p = packageID) (db_packages d);
          d' = d\<lparr>db_packages := update_where (\<lambda>p. pkg_ID p = packageID)
                   (\<lambda>p. p\<lparr>pkg_CreatedVia := v\<rparr>) (db_packages d)\<rparr>
      in (d', if n = 0 then Inl ErrPackageNotExist else Inr ()))"

section \<open>Versions\<close>

definition mk_version :: "int \<times> string \<times> string \<times> int \<Rightarrow> int \<Rightarrow> pkg_version" where
  "mk_version = (\<lambda>(packageID, version, metadataJSON, now) i.
     \<lparr>ver_ID = i, ver_PackageID = packageID, ver_Version = version, ver_LowerVersion = to_lower version,
      ver_MetadataJSON = metadataJSON, ver_CreatedUnix = now, ver_License = None,
      ver_QuarantineReason = None, ver_QuarantinedByRuleID = None, ver_UpstreamPublishedUnix = None\<rparr>)"

definition CreateVersion :: "int \<Rightarrow> int \<Rightarrow> string \<Rightarrow> string \<Rightarrow> db \<Rightarrow> db \<times> (go_error, pkg_version) result" where
  "CreateVersion now packageID version metadataJSON d =
     (let meta = (if metadataJSON = [] then ''{}'' else metadataJSON) in
      case insert_unique ver_key (mk_version (packageID, version, meta, now)) (db_versions d) of
        None \<Rightarrow> (d, Inl ErrDuplicatePackageVersion)
      | Some (v, tb) \<Rightarrow>
          (if package_exists d packageID then (d\<lparr>db_versions := tb\<rparr>, Inr v)
           else (d, Inl ErrForeignKey)))"

definition IsQuarantined :: "pkg_version \<Rightarrow> bool" where
  "IsQuarantined v = (ver_QuarantineReason v \<noteq> None)"

definition GetVersion :: "db \<Rightarrow> int \<Rightarrow> string \<Rightarrow> (go_error, pkg_version) result" where
  "GetVersion d packageID version =
     (case select_one (\<lambda>v. ver_PackageID v = packageID \<and> ver_LowerVersion v = to_lower version)
             (db_versions d) of
        None \<Rightarrow> Inl ErrVersionNotExist
      | Some v \<Rightarrow> Inr v)"

text \<open>
  Rows of equal creation time come in the order of the index \<open>idx_pkgversions_pkg\<close>, which
  ends in the row identifier; \<open>GetLatestVersion\<close> reads the same index backwards.
\<close>

definition ListVersions :: "db \<Rightarrow> int \<Rightarrow> pkg_version list" where
  "ListVersions d packageID =
     sort_key ver_CreatedUnix (select_all (\<lambda>v. ver_PackageID v = packageID) (db_versions d))"

definition GetLatestVersion :: "db \<Rightarrow> int \<Rightarrow> (go_error, pkg_version) result" where
  "GetLatestVersion d packageID =
     (case rev (sort_key ver_CreatedUnix (select_all (\<lambda>v. ver_PackageID v = packageID) (db_versions d))) of
        [] \<Rightarrow> Inl ErrVersionNotExist
      | v # _ \<Rightarrow> Inr v)"

definition update_version :: "int \<Rightarrow> (pkg_version \<Rightarrow> pkg_version) \<Rightarrow> db \<Rightarrow> db \<times> (go_error, unit) result" where
  "update_version versionID f d =
     (let n = rows_affected (\<lambda>v. ver_ID v = versionID) (db_versions d);
          d' = d\<lparr>db_versions := update_where (\<lambda>v. ver_ID v = versionID) f (db_versions d)\<rparr>
      in (d', if n = 0 then Inl ErrVersionNotExist else Inr ()))"

text \<open>Naming a policy rule that does not exist violates the foreign key of the rule column.\<close>

definition QuarantineVersion :: "int \<Rightarrow> int \<Rightarrow> string \<Rightarrow> db \<Rightarrow> db \<times> (go_error, unit) result" where
  "QuarantineVersion versionID ruleID reason d =
     (let ruleArg = (if ruleID \<noteq> 0 then Some ruleID else None) in
      if version_exists d versionID \<and> ruleID \<noteq> 0 \<and> \<not> rule_exists d ruleID then (d, Inl ErrForeignKey)
      else update_version versionID
             (\<lambda>v. v\<lparr>ver_QuarantineReason := Some reason, ver_QuarantinedByRuleID := ruleArg\<rparr>) d)"

definition PromoteVersion :: "int \<Rightarrow> db \<Rightarrow> db \<times> (go_error, unit) result" where
  "PromoteVersion versionID d =
     update_version versionID
       (\<lambda>v. v\<lparr>ver_QuarantineReason := None, ver_QuarantinedByRuleID := None\<rparr>) d"

definition SetLicense :: "int \<Rightarrow> string \<Rightarrow> db \<Rightarrow> db" where
  "SetLicense versionID license d =
     d\<lparr>db_versions := update_where (\<lambda>v. ver_ID v = versionID)
         (\<lambda>v. v\<lparr>ver_License := (if license \<noteq> [] then Some license else None)\<rparr>) (db_versions d)\<rparr>"

definition SetUpstreamPublishedUnix :: "int \<Rightarrow> int \<Rightarrow> db \<Rightarrow> db \<times> (go_error, unit) result" where
  "SetUpstreamPublishedUnix versionID publishedUnix d =
     update_version versionID
       (\<lambda>v. v\<lparr>ver_UpstreamPublishedUnix := (if publishedUnix > 0 then Some publishedUnix else None)\<rparr>) d"

definition UpdateVersionMetadata :: "int \<Rightarrow> string \<Rightarrow> db \<Rightarrow> db \<times> (go_error, unit) result" where
  "UpdateVersionMetadata versionID metadataJSON d =
     update_version versionID (\<lambda>v. v\<lparr>ver_MetadataJSON := metadataJSON\<rparr>) d"

record quarantined_view =
  qv_VersionID :: int
  qv_PackageID :: int
  qv_TenantID :: int
  qv_Type :: string
  qv_PackageName :: string
  qv_Version :: string
  qv_CreatedUnix :: int
  qv_Reason :: string
  qv_RuleID :: int

definition quarantined_row :: "pkg_version \<Rightarrow> package \<Rightarrow> quarantined_view" where
  "quarantined_row v p =
     \<lparr>qv_VersionID = ver_ID v, qv_PackageID = ver_PackageID v, qv_TenantID = pkg_TenantID p,
      qv_Type = pkg_Type p, qv_PackageName = pkg_Name p, qv_Version = ver_Version v,
      qv_CreatedUnix = ver_CreatedUnix v,
      qv_Reason = (case ver_QuarantineReason v of None \<Rightarrow> [] | Some r \<Rightarrow> r),
      qv_RuleID = (case ver_QuarantinedByRuleID v of None \<Rightarrow> 0 | Some i \<Rightarrow> i)\<rparr>"

definition ListQuarantined :: "db \<Rightarrow> int \<Rightarrow> quarantined_view list" where
  "ListQuarantined d tenantID =
     sort_key (\<lambda>q. - qv_CreatedUnix q)
       [quarantined_row v p. v \<leftarrow> rows (db_versions d), p \<leftarrow> rows (db_packages d),
          pkg_ID p = ver_PackageID v \<and> ver_QuarantineReason v \<noteq> None
          \<and> (tenantID = 0 \<or> pkg_TenantID p = tenantID)]"

section \<open>Blobs\<close>

definition GetBlobBySHA256 :: "db \<Rightarrow> string \<Rightarrow> (go_error, blob) result" where
  "GetBlobBySHA256 d sha256Hex =
     (case select_one (\<lambda>b. blob_HashSHA256 b = sha256Hex) (db_blobs d) of
        None \<Rightarrow> Inl ErrBlobNotExist
      | Some b \<Rightarrow> Inr b)"

definition GetBlobByID :: "db \<Rightarrow> int \<Rightarrow> (go_error, blob) result" where
  "GetBlobByID d i =
     (case select_one (\<lambda>b. blob_ID b = i) (db_blobs d) of
        None \<Rightarrow> Inl ErrBlobNotExist
      | Some b \<Rightarrow> Inr b)"

definition mk_blob :: "blob \<Rightarrow> int \<Rightarrow> blob" where
  "mk_blob b i = b\<lparr>blob_ID := i\<rparr>"

definition GetOrCreateBlob :: "int \<Rightarrow> int \<Rightarrow> blob \<Rightarrow> db \<Rightarrow> db \<times> (go_error, blob) result" where
  "GetOrCreateBlob last_rowid now b d =
     (case GetBlobBySHA256 d (blob_HashSHA256 b) of
        Inr existing \<Rightarrow> (d, Inr existing)
      | Inl e \<Rightarrow>
          (if e \<noteq> ErrBlobNotExist then (d, Inl e)
           else
             (let b1 = b\<lparr>blob_CreatedUnix := now\<rparr> in
              case insert_unique blob_HashSHA256 (mk_blob b1) (db_blobs d) of
                None \<Rightarrow> (d, if last_rowid > 0 then Inr (mk_blob b1 last_rowid)
                            else GetBlobBySHA256 d (blob_HashSHA256 b))
              | Some (r, tb) \<Rightarrow> (d\<lparr>db_blobs := tb\<rparr>, Inr r))))"

section \<open>Files\<close>

definition mk_file :: "pkg_file \<times> int \<Rightarrow> int \<Rightarrow> pkg_file" where
  "mk_file = (\<lambda>(f, now) i.
     f\<lparr>file_ID := i, file_LowerName := to_lower (file_Name f), file_CreatedUnix := now\<rparr>)"

definition CreateFile :: "int \<Rightarrow> pkg_file \<Rightarrow> db \<Rightarrow> db \<times> (go_error, pkg_file) result" where
  "CreateFile now f d =
     (case insert_unique file_key (mk_file (f, now)) (db_files d) of
        None \<Rightarrow> (d, Inl ErrDuplicatePackageFile)
      | Some (r, tb) \<Rightarrow>
          (if version_exists d (file_VersionID f) \<and> blob_exists d (file_BlobID f)
           then (d\<lparr>db_files := tb\<rparr>, Inr r)
           else (d, Inl ErrForeignKey)))"

definition ListFilesByVersion :: "db \<Rightarrow> int \<Rightarrow> pkg_file list" where
  "ListFilesByVersion d versionID =
     sort_key file_Name (select_all (\<lambda>f. file_VersionID f = versionID) (db_files d))"

definition GetFileByVersionAndName :: "db \<Rightarrow> int \<Rightarrow> string \<Rightarrow> (go_error, pkg_file) result" where
  "GetFileByVersionAndName d versionID name =
     (case select_one (\<lambda>f. file_VersionID f = versionID \<and> file_LowerName f = to_lower name)
             (db_files d) of
        None \<Rightarrow> Inl ErrFileNotExist
      | Some f \<Rightarrow> Inr f)"

definition DeleteFile :: "int \<Rightarrow> db \<Rightarrow> db" where
  "DeleteFile fileID d = d\<lparr>db_files := delete_where (\<lambda>f. file_ID f = fileID) (db_files d)\<rparr>"

section \<open>Deleting versions and packages\<close>

definition delete_properties :: "prop_ref \<Rightarrow> int set \<Rightarrow> db \<Rightarrow> db" where
  "delete_properties t ids d =
     d\<lparr>db_properties := delete_where (\<lambda>p. prop_RefType p = t \<and> prop_RefID p \<in> ids) (db_properties d)\<rparr>"

text \<open>\<open>DELETE FROM package_versions\<close> with the cascade to \<open>package_files\<close>.\<close>

definition delete_versions :: "(pkg_version \<Rightarrow> bool) \<Rightarrow> db \<Rightarrow> db" where
  "delete_versions P d =
     (let gone = set (map ver_ID (select_all P (db_versions d))) in
      d\<lparr>db_versions := delete_where P (db_versions d),
        db_files := delete_where (\<lambda>f. file_VersionID f \<in> gone) (db_files d)\<rparr>)"

definition DeleteVersion :: "int \<Rightarrow> db \<Rightarrow> db" where
  "DeleteVersion versionID d =
     (let files = set (map file_ID (select_all (\<lambda>f. file_VersionID f = versionID) (db_files d)));
          d1 = delete_properties PropertyRefFile files d;
          d2 = delete_properties PropertyRefVersion {versionID} d1
      in delete_versions (\<lambda>v. ver_ID v = versionID) d2)"

definition DeletePackage :: "int \<Rightarrow> db \<Rightarrow> db" where
  "DeletePackage packageID d =
     (let vers = set (map ver_ID (select_all (\<lambda>v. ver_PackageID v = packageID) (db_versions d)));
          files = set (map file_ID (select_all (\<lambda>f. file_VersionID f \<in> vers) (db_files d)));
          d1 = delete_properties PropertyRefFile files d;
          d2 = delete_properties PropertyRefVersion vers d1;
          d3 = delete_properties PropertyRefPackage {packageID} d2;
          d4 = d3\<lparr>db_packages := delete_where (\<lambda>p. pkg_ID p = packageID) (db_packages d3)\<rparr>
      in if package_exists d packageID then delete_versions (\<lambda>v. ver_PackageID v = packageID) d4 else d4)"

section \<open>Properties\<close>

definition SetProperty :: "prop_ref \<Rightarrow> int \<Rightarrow> string \<Rightarrow> string \<Rightarrow> db \<Rightarrow> db" where
  "SetProperty refType refID name val d =
     (let t = delete_where (\<lambda>p. prop_RefType p = refType \<and> prop_RefID p = refID \<and> prop_Name p = name)
                (db_properties d);
          (r, t') = insert_row (\<lambda>i. \<lparr>prop_ID = i, prop_RefType = refType, prop_RefID = refID,
                                     prop_Name = name, prop_Value = val\<rparr>) t
      in d\<lparr>db_properties := t'\<rparr>)"

definition GetProperty :: "db \<Rightarrow> prop_ref \<Rightarrow> int \<Rightarrow> string \<Rightarrow> string option" where
  "GetProperty d refType refID name =
     map_option prop_Value
       (select_one (\<lambda>p. prop_RefType p = refType \<and> prop_RefID p = refID \<and> prop_Name p = name)
          (db_properties d))"

text \<open>SQLite's \<open>LIKE\<close>: \<open>%\<close> matches any text, \<open>_\<close> any character, letters match without case.\<close>

fun sql_like :: "string \<Rightarrow> string \<Rightarrow> bool" where
  "sql_like [] s = (s = [])"
| "sql_like (c # cs) s =
     (if c = CHR ''%'' then list_ex (\<lambda>n. sql_like cs (drop n s)) [0..<Suc (length s)]
      else (case s of
          [] \<Rightarrow> False
        | x # xs \<Rightarrow> (c = CHR ''_'' \<or> lower_char c = lower_char x) \<and> sql_like cs xs))"

definition GetPropertiesByPrefix :: "db \<Rightarrow> prop_ref \<Rightarrow> int \<Rightarrow> string \<Rightarrow> property list" where
  "GetPropertiesByPrefix d refType refID pfx =
     select_all (\<lambda>p. prop_RefType p = refType \<and> prop_RefID p = refID \<and> sql_like (pfx @ ''%'') (prop_Name p))
       (db_properties d)"

definition DeleteProperty :: "prop_ref \<Rightarrow> int \<Rightarrow> string \<Rightarrow> db \<Rightarrow> db" where
  "DeleteProperty refType refID name d =
     d\<lparr>db_properties := delete_where
         (\<lambda>p. prop_RefType p = refType \<and> prop_RefID p = refID \<and> prop_Name p = name) (db_properties d)\<rparr>"


section \<open>The inserting operations meet the table interface\<close>

interpretation package_rows: keyed_rows pkg_ID pkg_key mk_package
  by unfold_locales (auto simp: mk_package_def pkg_key_def split: prod.split)

interpretation version_rows: keyed_rows ver_ID ver_key mk_version
  by unfold_locales (auto simp: mk_version_def ver_key_def split: prod.split)

interpretation blob_rows: keyed_rows blob_ID blob_HashSHA256 mk_blob
  by unfold_locales (auto simp: mk_blob_def)

interpretation file_rows: keyed_rows file_ID file_key mk_file
  by unfold_locales (auto simp: mk_file_def file_key_def split: prod.split)

lemma lookup_by_key:
  "GetPackageByLookup d ten t name =
     (case select_one (\<lambda>p. pkg_key p = (ten, t, name)) (db_packages d) of
        None \<Rightarrow> Inl ErrPackageNotExist | Some p \<Rightarrow> Inr p)"
  "GetVersion d pid ver =
     (case select_one (\<lambda>v. ver_key v = (pid, to_lower ver)) (db_versions d) of
        None \<Rightarrow> Inl ErrVersionNotExist | Some v \<Rightarrow> Inr v)"
  "GetFileByVersionAndName d vid nm =
     (case select_one (\<lambda>f. file_key f = (vid, to_lower nm)) (db_files d) of
        None \<Rightarrow> Inl ErrFileNotExist | Some f \<Rightarrow> Inr f)"
  by (simp_all add: GetPackageByLookup_def GetVersion_def GetFileByVersionAndName_def
      pkg_key_def ver_key_def file_key_def)

lemma GetPackageByLookup_iff:
  "table_ok pkg_ID pkg_key (db_packages d) \<Longrightarrow>
     GetPackageByLookup d ten t name = Inr p \<longleftrightarrow> p \<in> set (rows (db_packages d)) \<and> pkg_key p = (ten, t, name)"
  by (auto simp: lookup_by_key table_ok_select_key_iff select_one_None split: option.splits
      intro: table_ok_key_unique)

lemma GetPackageByLookup_None:
  "GetPackageByLookup d ten t name = Inl e \<longleftrightarrow>
     e = ErrPackageNotExist \<and> (\<forall>p \<in> set (rows (db_packages d)). pkg_key p \<noteq> (ten, t, name))"
  by (auto simp: lookup_by_key select_one_None split: option.splits dest: select_oneD)

lemma GetVersion_iff:
  "table_ok ver_ID ver_key (db_versions d) \<Longrightarrow>
     GetVersion d pid ver = Inr v \<longleftrightarrow> v \<in> set (rows (db_versions d)) \<and> ver_key v = (pid, to_lower ver)"
  by (auto simp: lookup_by_key table_ok_select_key_iff select_one_None split: option.splits
      intro: table_ok_key_unique)

lemma GetVersion_None:
  "GetVersion d pid ver = Inl e \<longleftrightarrow>
     e = ErrVersionNotExist \<and> (\<forall>v \<in> set (rows (db_versions d)). ver_key v \<noteq> (pid, to_lower ver))"
  by (auto simp: lookup_by_key select_one_None split: option.splits dest: select_oneD)

lemma GetFileByVersionAndName_iff:
  "table_ok file_ID file_key (db_files d) \<Longrightarrow>
     GetFileByVersionAndName d vid nm = Inr f \<longleftrightarrow> f \<in> set (rows (db_files d)) \<and> file_key f = (vid, to_lower nm)"
  by (auto simp: lookup_by_key table_ok_select_key_iff select_one_None split: option.splits
      intro: table_ok_key_unique)

lemma GetBlobBySHA256_iff:
  "table_ok blob_ID blob_HashSHA256 (db_blobs d) \<Longrightarrow>
     GetBlobBySHA256 d h = Inr b \<longleftrightarrow> b \<in> set (rows (db_blobs d)) \<and> blob_HashSHA256 b = h"
  by (auto simp: GetBlobBySHA256_def table_ok_select_key_iff select_one_None split: option.splits
      intro: table_ok_key_unique)

lemma GetBlobBySHA256_None:
  "GetBlobBySHA256 d h = Inl e \<longleftrightarrow>
     e = ErrBlobNotExist \<and> (\<forall>b \<in> set (rows (db_blobs d)). blob_HashSHA256 b \<noteq> h)"
  by (auto simp: GetBlobBySHA256_def select_one_None split: option.splits dest: select_oneD)

lemma GetBlobByID_iff:
  "table_ok blob_ID blob_HashSHA256 (db_blobs d) \<Longrightarrow>
     GetBlobByID d i = Inr b \<longleftrightarrow> b \<in> set (rows (db_blobs d)) \<and> blob_ID b = i"
  by (auto simp: GetBlobByID_def table_ok_select_id_iff select_one_None split: option.splits
      intro: table_ok_rid_unique)

end
