(* ===== verification/Catalog.thy ===== *)
theory Catalog
  imports Models_Store
begin

text \<open>
  Correctness of the package catalogue: every operation of \<open>models.Store\<close> keeps the
  catalogue well formed, rows are immutable where the code relies on it (the provenance of
  a package), deletions are complete, and what was written is read back.
\<close>

section \<open>Replacing one table\<close>

lemma catalog_ok_packages:
  "catalog_ok d \<Longrightarrow> table_ok pkg_ID pkg_key tb \<Longrightarrow>
   pkg_ID ` set (rows (db_packages d)) \<subseteq> pkg_ID ` set (rows tb) \<Longrightarrow> catalog_ok (d\<lparr>db_packages := tb\<rparr>)"
  by (auto simp: catalog_ok_def exists_defs)

lemma catalog_ok_versions:
  "catalog_ok d \<Longrightarrow> table_ok ver_ID ver_key tb \<Longrightarrow>
   ver_ID ` set (rows (db_versions d)) \<subseteq> ver_ID ` set (rows tb) \<Longrightarrow>
   (\<And>v. v \<in> set (rows tb) \<Longrightarrow> package_exists d (ver_PackageID v)) \<Longrightarrow> catalog_ok (d\<lparr>db_versions := tb\<rparr>)"
  by (auto simp: catalog_ok_def exists_defs)

lemma catalog_ok_blobs:
  "catalog_ok d \<Longrightarrow> table_ok blob_ID blob_HashSHA256 tb \<Longrightarrow>
   blob_ID ` set (rows (db_blobs d)) \<subseteq> blob_ID ` set (rows tb) \<Longrightarrow> catalog_ok (d\<lparr>db_blobs := tb\<rparr>)"
  by (auto simp: catalog_ok_def exists_defs)

lemma catalog_ok_files:
  "catalog_ok d \<Longrightarrow> table_ok file_ID file_key tb \<Longrightarrow>
   (\<And>f. f \<in> set (rows tb) \<Longrightarrow> version_exists d (file_VersionID f) \<and> blob_exists d (file_BlobID f)) \<Longrightarrow>
   catalog_ok (d\<lparr>db_files := tb\<rparr>)"
  by (auto simp: catalog_ok_def exists_defs)

lemma catalog_ok_properties:
  "catalog_ok d \<Longrightarrow> table_ok prop_ID prop_key tb \<Longrightarrow> catalog_ok (d\<lparr>db_properties := tb\<rparr>)"
  by (auto simp: catalog_ok_def exists_defs)

lemma catalog_okD:
  assumes "catalog_ok d"
  shows "table_ok pkg_ID pkg_key (db_packages d)" "table_ok ver_ID ver_key (db_versions d)"
    "table_ok blob_ID blob_HashSHA256 (db_blobs d)" "table_ok file_ID file_key (db_files d)"
    "table_ok prop_ID prop_key (db_properties d)"
    "v \<in> set (rows (db_versions d)) \<Longrightarrow> package_exists d (ver_PackageID v)"
    "f \<in> set (rows (db_files d)) \<Longrightarrow> version_exists d (file_VersionID f)"
    "f \<in> set (rows (db_files d)) \<Longrightarrow> blob_exists d (file_BlobID f)"
  using assms by (auto simp: catalog_ok_def)

section \<open>Every operation keeps the catalogue well formed\<close>

lemma insert_package_cases:
  obtains (conflict) "insert_package lr now ten t dn lk via d =
       (d, if lr > 0 then Inr (mk_package (ten, t, dn, lk, now, if CreatedVia_Valid via then via else CreatedViaUploaded) lr)
           else GetPackageByLookup d ten t lk)"
      "\<exists>p \<in> set (rows (db_packages d)). pkg_key p = (ten, t, lk)"
    | (no_tenant) "insert_package lr now ten t dn lk via d = (d, Inl ErrForeignKey)" "\<not> tenant_exists d ten"
    | (inserted) p tb where "insert_package lr now ten t dn lk via d = (d\<lparr>db_packages := tb\<rparr>, Inr p)"
      "insert_unique pkg_key (mk_package (ten, t, dn, lk, now, if CreatedVia_Valid via then via else CreatedViaUploaded))
         (db_packages d) = Some (p, tb)" "tenant_exists d ten"
proof (cases "insert_unique pkg_key (mk_package (ten, t, dn, lk, now, if CreatedVia_Valid via then via else CreatedViaUploaded)) (db_packages d)")
  case None
  then have "\<exists>p \<in> set (rows (db_packages d)). pkg_key p = (ten, t, lk)"
    by (simp add: package_rows.insert_None_iff) (simp add: mk_package_def pkg_key_def)
  with None that(1) show ?thesis
    by (simp add: insert_package_def Let_def)
next
  case (Some pt)
  then show ?thesis
    using that(2,3) by (cases pt; cases "tenant_exists d ten") (auto simp: insert_package_def Let_def)
qed

lemma insert_package_ok [ok_intros]:
  assumes "catalog_ok d"
  shows "catalog_ok (fst (insert_package lr now ten t dn lk via d))"
proof (cases rule: insert_package_cases [of lr now ten t dn lk via d])
  case (inserted p tb)
  with assms show ?thesis
    using package_rows.insert_ok [OF catalog_okD(1) inserted(2)] package_rows.insert_SomeD(2) [OF inserted(2)]
    by (auto intro!: catalog_ok_packages)
qed (use assms in auto)

lemma GetOrCreatePackageWithLookup_ok [ok_intros]:
  "catalog_ok d \<Longrightarrow> catalog_ok (fst (GetOrCreatePackageWithLookup lr now ten t dn lk via d))"
  by (simp add: GetOrCreatePackageWithLookup_def insert_package_ok split: sum.split)

lemma SetPackageCreatedVia_ok [ok_intros]:
  "catalog_ok d \<Longrightarrow> catalog_ok (fst (SetPackageCreatedVia i v d))"
  by (simp add: SetPackageCreatedVia_def Let_def del: rows_update_where)
     (rule catalog_ok_packages, auto simp: pkg_key_def update_where_image simp del: rows_update_where
       dest: catalog_okD(1))

lemma CreateVersion_ok [ok_intros]:
  assumes "catalog_ok d"
  shows "catalog_ok (fst (CreateVersion now pid ver meta d))"
proof (cases "insert_unique ver_key (mk_version (pid, ver, if meta = [] then ''{}'' else meta, now)) (db_versions d)")
  case (Some vt)
  obtain v tb where vt: "vt = (v, tb)" by (cases vt)
  note ins = Some [unfolded vt]
  have "ver_PackageID v = pid"
    using version_rows.insert_SomeD(1) [OF ins] by (simp add: mk_version_def)
  then show ?thesis
    using assms ins version_rows.insert_ok [OF catalog_okD(2) ins] version_rows.insert_SomeD(2) [OF ins]
    by (auto simp: CreateVersion_def intro!: catalog_ok_versions dest: catalog_okD(6))
qed (use assms in \<open>simp add: CreateVersion_def Let_def\<close>)

lemma update_version_ok [ok_intros]:
  assumes "catalog_ok d" and "\<And>v. ver_ID (f v) = ver_ID v" and "\<And>v. ver_PackageID (f v) = ver_PackageID v"
    and "\<And>v. ver_LowerVersion (f v) = ver_LowerVersion v"
  shows "catalog_ok (fst (update_version i f d))"
proof -
  let ?tb = "update_where (\<lambda>v. ver_ID v = i) f (db_versions d)"
  have "table_ok ver_ID ver_key ?tb"
    using assms by (intro table_ok_update catalog_okD) (simp_all add: ver_key_def)
  moreover have "ver_ID ` set (rows ?tb) = ver_ID ` set (rows (db_versions d))"
    by (rule update_where_image) (simp add: assms(2))
  moreover have "package_exists d (ver_PackageID v)" if "v \<in> set (rows ?tb)" for v
    using update_where_elem [OF that] assms(3) catalog_okD(6) [OF assms(1)] by (auto split: if_splits)
  ultimately show ?thesis
    using assms(1) by (simp add: update_version_def Let_def catalog_ok_versions del: rows_update_where)
qed

lemma QuarantineVersion_ok [ok_intros]: "catalog_ok d \<Longrightarrow> catalog_ok (fst (QuarantineVersion i r reason d))"
  by (simp add: QuarantineVersion_def Let_def update_version_ok)

lemma PromoteVersion_ok [ok_intros]: "catalog_ok d \<Longrightarrow> catalog_ok (fst (PromoteVersion i d))"
  by (simp add: PromoteVersion_def update_version_ok)

lemma SetUpstreamPublishedUnix_ok [ok_intros]: "catalog_ok d \<Longrightarrow> catalog_ok (fst (SetUpstreamPublishedUnix i t d))"
  by (simp add: SetUpstreamPublishedUnix_def update_version_ok)

lemma UpdateVersionMetadata_ok [ok_intros]: "catalog_ok d \<Longrightarrow> catalog_ok (fst (UpdateVersionMetadata i m d))"
  by (simp add: UpdateVersionMetadata_def update_version_ok)

lemma SetLicense_ok [ok_intros]:
  assumes "catalog_ok d"
  shows "catalog_ok (SetLicense i l d)"
proof -
  have "SetLicense i l d =
      fst (update_version i (\<lambda>v. v\<lparr>ver_License := (if l \<noteq> [] then Some l else None)\<rparr>) d)"
    by (simp add: SetLicense_def update_version_def Let_def)
  with assms show ?thesis by (simp add: update_version_ok)
qed

lemma GetOrCreateBlob_ok [ok_intros]:
  assumes "catalog_ok d"
  shows "catalog_ok (fst (GetOrCreateBlob lr now b d))"
proof (cases "insert_unique blob_HashSHA256 (mk_blob (b\<lparr>blob_CreatedUnix := now\<rparr>)) (db_blobs d)")
  case (Some rt)
  obtain r tb where rt: "rt = (r, tb)" by (cases rt)
  note ins = Some [unfolded rt]
  show ?thesis
    using assms ins blob_rows.insert_ok [OF catalog_okD(3) ins] blob_rows.insert_SomeD(2) [OF ins]
    by (auto simp: GetOrCreateBlob_def Let_def intro!: catalog_ok_blobs split: sum.split)
qed (use assms in \<open>simp add: GetOrCreateBlob_def Let_def split: sum.split\<close>)

lemma CreateFile_ok [ok_intros]:
  assumes "catalog_ok d"
  shows "catalog_ok (fst (CreateFile now f d))"
proof (cases "insert_unique file_key (mk_file (f, now)) (db_files d)")
  case (Some rt)
  obtain r tb where rt: "rt = (r, tb)" by (cases rt)
  note ins = Some [unfolded rt]
  have "file_VersionID r = file_VersionID f" "file_BlobID r = file_BlobID f"
    using file_rows.insert_SomeD(1) [OF ins] by (simp_all add: mk_file_def)
  then show ?thesis
    using assms ins file_rows.insert_ok [OF catalog_okD(4) ins] file_rows.insert_SomeD(2) [OF ins]
    by (auto simp: CreateFile_def intro!: catalog_ok_files dest: catalog_okD(7,8))
qed (use assms in \<open>simp add: CreateFile_def\<close>)

lemma DeleteFile_ok [ok_intros]: "catalog_ok d \<Longrightarrow> catalog_ok (DeleteFile i d)"
  by (auto simp: DeleteFile_def dest: catalog_okD intro!: catalog_ok_files)

lemma delete_properties_ok [ok_intros]: "catalog_ok d \<Longrightarrow> catalog_ok (delete_properties t ids d)"
  by (auto simp: delete_properties_def dest: catalog_okD intro!: catalog_ok_properties)

lemma delete_properties_simps [simp]:
  "db_packages (delete_properties t ids d) = db_packages d"
  "db_versions (delete_properties t ids d) = db_versions d"
  "db_blobs (delete_properties t ids d) = db_blobs d"
  "db_files (delete_properties t ids d) = db_files d"
  "db_tenants (delete_properties t ids d) = db_tenants d"
  "rows (db_properties (delete_properties t ids d)) =
     [p \<leftarrow> rows (db_properties d). \<not> (prop_RefType p = t \<and> prop_RefID p \<in> ids)]"
  by (simp_all add: delete_properties_def)

lemma delete_versions_simps [simp]:
  "db_packages (delete_versions P d) = db_packages d"
  "rows (db_versions (delete_versions P d)) = [v \<leftarrow> rows (db_versions d). \<not> P v]"
  "db_blobs (delete_versions P d) = db_blobs d"
  "db_properties (delete_versions P d) = db_properties d"
  "rows (db_files (delete_versions P d)) =
     [f \<leftarrow> rows (db_files d). \<not> (\<exists>v \<in> set (rows (db_versions d)). P v \<and> ver_ID v = file_VersionID f)]"
  by (simp_all add: delete_versions_def Let_def select_all_def image_iff)
     (rule filter_cong [OF refl], metis)

lemma delete_versions_ok [ok_intros]:
  assumes "catalog_ok d"
  shows "catalog_ok (delete_versions P d)"
proof -
  let ?d = "delete_versions P d"
  have tables: "table_ok ver_ID ver_key (db_versions ?d)" "table_ok file_ID file_key (db_files ?d)"
    by (simp_all add: delete_versions_def Let_def table_ok_delete catalog_okD [OF assms])
  have refs: "version_exists ?d (file_VersionID f)" if f: "f \<in> set (rows (db_files ?d))" for f
  proof -
    from f have "f \<in> set (rows (db_files d))"
      and gone: "\<not> (\<exists>v \<in> set (rows (db_versions d)). P v \<and> ver_ID v = file_VersionID f)"
      by auto
    with catalog_okD(7) [OF assms] obtain v where "v \<in> set (rows (db_versions d))" "ver_ID v = file_VersionID f"
      by (force simp: version_exists_def)
    with gone show ?thesis by (force simp: version_exists_def)
  qed
  show ?thesis
    using assms tables refs by (auto simp: catalog_ok_def package_exists_def blob_exists_def)
qed

lemma DeleteVersion_ok [ok_intros]: "catalog_ok d \<Longrightarrow> catalog_ok (DeleteVersion i d)"
  by (simp add: DeleteVersion_def Let_def delete_versions_ok delete_properties_ok)

lemma package_exists_delete_properties [simp]:
  "package_exists (delete_properties t ids d) i = package_exists d i"
  by (simp add: package_exists_def)

text \<open>Removing a package row and its versions together keeps the references intact.\<close>

lemma delete_package_and_versions_ok:
  assumes "catalog_ok d"
  shows "catalog_ok (delete_versions (\<lambda>v. ver_PackageID v = i)
           (d\<lparr>db_packages := delete_where (\<lambda>p. pkg_ID p = i) (db_packages d)\<rparr>))"
proof -
  let ?d = "delete_versions (\<lambda>v. ver_PackageID v = i) d"
  have eq: "delete_versions (\<lambda>v. ver_PackageID v = i)
        (d\<lparr>db_packages := delete_where (\<lambda>p. pkg_ID p = i) (db_packages d)\<rparr>)
      = ?d\<lparr>db_packages := delete_where (\<lambda>p. pkg_ID p = i) (db_packages d)\<rparr>"
    by (simp add: delete_versions_def Let_def)
  let ?e = "?d\<lparr>db_packages := delete_where (\<lambda>p. pkg_ID p = i) (db_packages d)\<rparr>"
  have ok: "catalog_ok ?d" by (rule delete_versions_ok [OF assms])
  have pkgs: "table_ok pkg_ID pkg_key (db_packages ?e)"
    by (simp add: table_ok_delete catalog_okD(1) [OF assms])
  have refs: "package_exists ?e (ver_PackageID v)" if v: "v \<in> set (rows (db_versions ?e))" for v
  proof -
    from v have "v \<in> set (rows (db_versions ?d))" and "ver_PackageID v \<noteq> i" by auto
    moreover from this(1) have "package_exists ?d (ver_PackageID v)"
      by (rule catalog_okD(6) [OF ok])
    ultimately show ?thesis by (force simp: package_exists_def)
  qed
  from ok pkgs refs show ?thesis
    unfolding eq by (simp add: catalog_ok_def version_exists_def blob_exists_def)
qed

lemma catalog_ok_no_versions:
  "catalog_ok d \<Longrightarrow> \<not> package_exists d i \<Longrightarrow> v \<in> set (rows (db_versions d)) \<Longrightarrow> ver_PackageID v \<noteq> i"
  using catalog_okD(6) by fastforce

lemma DeletePackage_ok [ok_intros]:
  assumes "catalog_ok d"
  shows "catalog_ok (DeletePackage i d)"
proof (cases "package_exists d i")
  case True
  then show ?thesis
    using assms
    by (simp add: DeletePackage_def Let_def del: delete_properties_simps)
       (intro delete_package_and_versions_ok delete_properties_ok)
next
  case False
  then have "delete_where (\<lambda>p. pkg_ID p = i) (db_packages d) = db_packages d"
    by (auto simp: delete_where_def package_exists_def image_iff filter_id_conv intro!: sql_table.equality)
  with False assms show ?thesis
    by (auto simp: DeletePackage_def Let_def intro!: delete_properties_ok catalog_ok_packages dest: catalog_okD)
qed

lemma SetProperty_ok [ok_intros]:
  assumes "catalog_ok d"
  shows "catalog_ok (SetProperty rt ri n v d)"
proof -
  have t: "table_ok prop_ID prop_key (db_properties d)"
    using assms by (rule catalog_okD)
  then have "table_ok prop_ID prop_key (db_properties (SetProperty rt ri n v d))"
    by (auto simp: SetProperty_def insert_row_def Let_def table_ok_def distinct_map inj_on_def prop_key_def)
  moreover have "SetProperty rt ri n v d = d\<lparr>db_properties := db_properties (SetProperty rt ri n v d)\<rparr>"
    by (simp add: SetProperty_def insert_row_def Let_def)
  ultimately show ?thesis
    using assms by (metis catalog_ok_properties)
qed

lemma DeleteProperty_ok [ok_intros]: "catalog_ok d \<Longrightarrow> catalog_ok (DeleteProperty rt ri n d)"
  by (auto simp: DeleteProperty_def dest: catalog_okD intro!: catalog_ok_properties)


section \<open>Deletions leave nothing behind\<close>

lemma props_okD: "props_ok d \<Longrightarrow> p \<in> set (rows (db_properties d)) \<Longrightarrow> prop_target d (prop_RefType p) (prop_RefID p)"
  by (simp add: props_ok_def)

lemma props_ok_delete_properties: "props_ok d \<Longrightarrow> props_ok (delete_properties t ids d)"
proof -
  assume "props_ok d"
  moreover have "prop_target (delete_properties t ids d) rt i = prop_target d rt i" for rt i
    by (cases rt) (simp_all add: exists_defs)
  ultimately show ?thesis by (simp add: props_ok_def)
qed

lemma exists_delete_versions:
  "package_exists (delete_versions P d) i = package_exists d i"
  "version_exists (delete_versions P d) i \<longleftrightarrow> (\<exists>v \<in> set (rows (db_versions d)). \<not> P v \<and> ver_ID v = i)"
  "file_exists (delete_versions P d) i \<longleftrightarrow>
     (\<exists>f \<in> set (rows (db_files d)). \<not> (\<exists>v \<in> set (rows (db_versions d)). P v \<and> ver_ID v = file_VersionID f) \<and> file_ID f = i)"
  by (auto simp: exists_defs image_iff)

text \<open>
  Removing versions once no property refers to them or to their files.
\<close>

lemma props_ok_delete_versions:
  assumes ok: "props_ok d"
    and vers: "\<And>p v. p \<in> set (rows (db_properties d)) \<Longrightarrow> prop_RefType p = PropertyRefVersion \<Longrightarrow>
       v \<in> set (rows (db_versions d)) \<Longrightarrow> P v \<Longrightarrow> prop_RefID p \<noteq> ver_ID v"
    and files: "\<And>p f v. p \<in> set (rows (db_properties d)) \<Longrightarrow> prop_RefType p = PropertyRefFile \<Longrightarrow>
       f \<in> set (rows (db_files d)) \<Longrightarrow> v \<in> set (rows (db_versions d)) \<Longrightarrow> P v \<Longrightarrow>
       ver_ID v = file_VersionID f \<Longrightarrow> prop_RefID p \<noteq> file_ID f"
  shows "props_ok (delete_versions P d)"
  unfolding props_ok_def
proof
  fix p
  assume "p \<in> set (rows (db_properties (delete_versions P d)))"
  then have p: "p \<in> set (rows (db_properties d))" by simp
  note target = props_okD [OF ok p]
  show "prop_target (delete_versions P d) (prop_RefType p) (prop_RefID p)"
  proof (cases "prop_RefType p")
    case PropertyRefPackage
    with target show ?thesis by (simp add: exists_delete_versions)
  next
    case PropertyRefVersion
    with target obtain v where v: "v \<in> set (rows (db_versions d))" "ver_ID v = prop_RefID p"
      by (auto simp: version_exists_def)
    with vers [OF p PropertyRefVersion v(1)] have "\<not> P v" by auto
    with v PropertyRefVersion show ?thesis
      by (auto simp: exists_delete_versions intro!: bexI [of _ v])
  next
    case PropertyRefFile
    with target obtain f where f: "f \<in> set (rows (db_files d))" "file_ID f = prop_RefID p"
      by (auto simp: file_exists_def)
    with files [OF p PropertyRefFile f(1)]
    have "\<not> (\<exists>v \<in> set (rows (db_versions d)). P v \<and> ver_ID v = file_VersionID f)" by auto
    with f PropertyRefFile show ?thesis
      by (auto simp: exists_delete_versions intro!: bexI [of _ f])
  qed
qed

lemma DeleteVersion_props_ok:
  assumes "props_ok d"
  shows "props_ok (DeleteVersion i d)"
  unfolding DeleteVersion_def Let_def
  by (rule props_ok_delete_versions)
     (use assms in \<open>auto simp: select_all_def props_ok_delete_properties\<close>)

lemma DeletePackage_rows:
  "rows (db_packages (DeletePackage i d)) = [p \<leftarrow> rows (db_packages d). pkg_ID p \<noteq> i]"
  "package_exists d i \<Longrightarrow> rows (db_versions (DeletePackage i d)) = [v \<leftarrow> rows (db_versions d). ver_PackageID v \<noteq> i]"
  "db_blobs (DeletePackage i d) = db_blobs d"
  by (simp_all add: DeletePackage_def Let_def)

lemma DeletePackage_props_ok:
  assumes "catalog_ok d" and "props_ok d"
  shows "props_ok (DeletePackage i d)"
proof -
  let ?vers = "set (map ver_ID (select_all (\<lambda>v. ver_PackageID v = i) (db_versions d)))"
  let ?files = "set (map file_ID (select_all (\<lambda>f. file_VersionID f \<in> ?vers) (db_files d)))"
  define d3 where "d3 = delete_properties PropertyRefPackage {i}
      (delete_properties PropertyRefVersion ?vers (delete_properties PropertyRefFile ?files d))"
  define d4 where "d4 = d3\<lparr>db_packages := delete_where (\<lambda>p. pkg_ID p = i) (db_packages d3)\<rparr>"
  have d3: "props_ok d3"
    unfolding d3_def by (intro props_ok_delete_properties assms)
  have kept: "\<not> (prop_RefType p = PropertyRefPackage \<and> prop_RefID p = i)"
      "\<not> (prop_RefType p = PropertyRefVersion \<and> prop_RefID p \<in> ?vers)"
      "\<not> (prop_RefType p = PropertyRefFile \<and> prop_RefID p \<in> ?files)"
    if "p \<in> set (rows (db_properties d3))" for p
    using that by (auto simp: d3_def)
  have d4: "props_ok d4"
    unfolding props_ok_def
  proof
    fix p
    assume "p \<in> set (rows (db_properties d4))"
    then have p: "p \<in> set (rows (db_properties d3))" by (simp add: d4_def)
    show "prop_target d4 (prop_RefType p) (prop_RefID p)"
      using props_okD [OF d3 p] kept [OF p]
      by (cases "prop_RefType p") (auto simp: d4_def exists_defs)
  qed
  have "props_ok (delete_versions (\<lambda>v. ver_PackageID v = i) d4)"
  proof (rule props_ok_delete_versions [OF d4])
    fix p v
    assume "p \<in> set (rows (db_properties d4))" "prop_RefType p = PropertyRefVersion"
      "v \<in> set (rows (db_versions d4))" "ver_PackageID v = i"
    then show "prop_RefID p \<noteq> ver_ID v"
      using kept(2) [of p] by (auto simp: d4_def d3_def select_all_def)
  next
    fix p f v
    assume "p \<in> set (rows (db_properties d4))" "prop_RefType p = PropertyRefFile"
      "f \<in> set (rows (db_files d4))" "v \<in> set (rows (db_versions d4))" "ver_PackageID v = i"
      "ver_ID v = file_VersionID f"
    moreover from this have "f \<in> set (rows (db_files d))" "v \<in> set (rows (db_versions d))"
      by (simp_all add: d4_def d3_def)
    ultimately show "prop_RefID p \<noteq> file_ID f"
      using kept(3) [of p] by (force simp: d4_def select_all_def)
  qed
  then show ?thesis
    using d4 by (simp add: DeletePackage_def Let_def d4_def d3_def)
qed

end
