(* ===== verification/Catalog_Steps.thy ===== *)
theory Catalog_Steps
  imports Catalog
begin

text \<open>
  The catalogue as a transition system: one step per writing operation of \<open>models.Store\<close>.
  What holds of every reachable catalogue is proved by rule induction. The properties of
  single operations follow: what they return, what they leave alone, and where they fall
  short of their documentation.
\<close>

inductive store_step :: "db \<Rightarrow> db \<Rightarrow> bool" where
  step_package: "store_step d (fst (GetOrCreatePackageWithLookup lr now ten t dn lk via d))"
| step_provenance: "store_step d (fst (SetPackageCreatedVia i via d))"
| step_version: "store_step d (fst (CreateVersion now pid ver meta d))"
| step_quarantine: "store_step d (fst (QuarantineVersion i r reason d))"
| step_promote: "store_step d (fst (PromoteVersion i d))"
| step_license: "store_step d (SetLicense i l d)"
| step_published: "store_step d (fst (SetUpstreamPublishedUnix i ts d))"
| step_metadata: "store_step d (fst (UpdateVersionMetadata i meta d))"
| step_blob: "store_step d (fst (GetOrCreateBlob lr now b d))"
| step_file: "store_step d (fst (CreateFile now f d))"
| step_delete_file: "store_step d (DeleteFile i d)"
| step_delete_version: "store_step d (DeleteVersion i d)"
| step_delete_package: "store_step d (DeletePackage i d)"
| step_set_property: "store_step d (SetProperty rt ri n v d)"
| step_delete_property: "store_step d (DeleteProperty rt ri n d)"

lemma store_step_ok:
  "store_step d d' \<Longrightarrow> catalog_ok d \<Longrightarrow> catalog_ok d'"
  by (induction rule: store_step.induct) (simp_all add: ok_intros)

lemma store_steps_ok:
  "store_step\<^sup>*\<^sup>* d d' \<Longrightarrow> catalog_ok d \<Longrightarrow> catalog_ok d'"
  by (induction rule: rtranclp_induct) (auto intro: store_step_ok)

section \<open>Package rows do not change\<close>

text \<open>What a step other than the override of the provenance may do to the packages: drop rows, or append fresh ones.\<close>

definition packages_kept :: "db \<Rightarrow> db \<Rightarrow> bool" where
  "packages_kept d d' \<longleftrightarrow>
     seq (db_packages d) \<le> seq (db_packages d')
   \<and> (\<forall>p \<in> set (rows (db_packages d')). p \<in> set (rows (db_packages d)) \<or> seq (db_packages d) < pkg_ID p)"

lemma packages_kept_refl [simp]: "packages_kept d d"
  by (simp add: packages_kept_def)

lemma packages_kept_same: "db_packages d' = db_packages d \<Longrightarrow> packages_kept d d'"
  by (simp add: packages_kept_def)

lemma packages_kept_create: "packages_kept d (fst (GetOrCreatePackageWithLookup lr now ten t dn lk via d))"
proof (cases "GetPackageByLookup d ten t lk")
  case (Inl e)
  show ?thesis
  proof (cases rule: insert_package_cases [of lr now ten t dn lk via d])
    case (inserted p tb)
    from package_rows.insert_SomeD [OF inserted(2)] inserted(1) Inl show ?thesis
      by (auto simp: GetOrCreatePackageWithLookup_def packages_kept_def)
  qed (use Inl in \<open>auto simp: GetOrCreatePackageWithLookup_def\<close>)
qed (simp add: GetOrCreatePackageWithLookup_def)

lemma packages_kept_DeletePackage: "packages_kept d (DeletePackage i d)"
  by (auto simp: packages_kept_def DeletePackage_def Let_def)

lemma store_step_packages:
  "store_step d d' \<Longrightarrow> packages_kept d d' \<or> (\<exists>i via. d' = fst (SetPackageCreatedVia i via d))"
proof (induction rule: store_step.induct)
  case step_package
  show ?case by (intro disjI1 packages_kept_create)
next
  case step_delete_package
  show ?case by (intro disjI1 packages_kept_DeletePackage)
next
  case step_provenance
  show ?case by blast
qed (auto intro!: disjI1 packages_kept_same simp: CreateVersion_def QuarantineVersion_def PromoteVersion_def
      update_version_def SetLicense_def SetUpstreamPublishedUnix_def UpdateVersionMetadata_def GetOrCreateBlob_def
      CreateFile_def DeleteFile_def DeleteVersion_def SetProperty_def DeleteProperty_def insert_row_def Let_def
      split: sum.split option.split)

lemma SetPackageCreatedVia_packages:
  "rows (db_packages (fst (SetPackageCreatedVia i via d))) =
     map (\<lambda>p. if pkg_ID p = i then p\<lparr>pkg_CreatedVia := via\<rparr> else p) (rows (db_packages d))"
  "seq (db_packages (fst (SetPackageCreatedVia i via d))) = seq (db_packages d)"
  by (simp_all add: SetPackageCreatedVia_def Let_def)

lemma store_step_seq: "store_step d d' \<Longrightarrow> seq (db_packages d) \<le> seq (db_packages d')"
  by (auto dest!: store_step_packages simp: packages_kept_def SetPackageCreatedVia_packages)

text \<open>The history of one package row.\<close>

lemma store_steps_row:
  assumes "store_step\<^sup>*\<^sup>* d d'" and "catalog_ok d" and "p \<in> set (rows (db_packages d))"
  shows "seq (db_packages d) \<le> seq (db_packages d') \<and>
    (\<forall>p' \<in> set (rows (db_packages d')). pkg_ID p' = pkg_ID p \<longrightarrow>
       p' = p\<lparr>pkg_CreatedVia := pkg_CreatedVia p'\<rparr> \<and>
       (pkg_CreatedVia p' = pkg_CreatedVia p \<or>
        (\<exists>e. store_step\<^sup>*\<^sup>* d e \<and> store_step\<^sup>*\<^sup>* (fst (SetPackageCreatedVia (pkg_ID p) (pkg_CreatedVia p') e)) d')))"
  using assms(1)
proof (induction rule: rtranclp_induct)
  case base
  have same: "p' = p" if "p' \<in> set (rows (db_packages d))" "pkg_ID p' = pkg_ID p" for p'
    using table_ok_rid_unique [OF catalog_okD(1) [OF assms(2)]] assms(3) that by metis
  have "p' = p\<lparr>pkg_CreatedVia := pkg_CreatedVia p'\<rparr> \<and> pkg_CreatedVia p' = pkg_CreatedVia p"
    if "p' \<in> set (rows (db_packages d))" "pkg_ID p' = pkg_ID p" for p'
    unfolding same [OF that] by (cases p) simp
  then show ?case by blast
next
  case (step e d')
  have sq: "pkg_ID p \<le> seq (db_packages e)"
    using catalog_okD(1) [OF assms(2)] assms(3) step.IH by (fastforce simp: table_ok_def)
  let ?Q = "\<lambda>p'. p' = p\<lparr>pkg_CreatedVia := pkg_CreatedVia p'\<rparr> \<and> (pkg_CreatedVia p' = pkg_CreatedVia p \<or>
        (\<exists>e. store_step\<^sup>*\<^sup>* d e \<and> store_step\<^sup>*\<^sup>* (fst (SetPackageCreatedVia (pkg_ID p) (pkg_CreatedVia p') e)) d'))"
  have old: "?Q p'" if "p' \<in> set (rows (db_packages e))" "pkg_ID p' = pkg_ID p" for p'
    using step.IH that step.hyps(2) by (meson rtranclp.rtrancl_into_rtrancl)
  have "?Q p'" if p': "p' \<in> set (rows (db_packages d'))" "pkg_ID p' = pkg_ID p" for p'
  proof (cases "packages_kept e d'")
    case True
    then have "p' \<in> set (rows (db_packages e))" using p' sq by (force simp: packages_kept_def)
    then show ?thesis using old p'(2) by blast
  next
    case False
    then obtain i via where d': "d' = fst (SetPackageCreatedVia i via e)" using store_step_packages [OF step.hyps(2)] by blast
    then obtain q where q: "q \<in> set (rows (db_packages e))" "p' = (if pkg_ID q = i then q\<lparr>pkg_CreatedVia := via\<rparr> else q)"
      using p'(1) by (auto simp: SetPackageCreatedVia_packages)
    have idq: "pkg_ID q = pkg_ID p" using q(2) p'(2) by (auto split: if_splits)
    have Q: "?Q q" by (rule old [OF q(1) idq])
    show ?thesis
    proof (cases "pkg_ID q = i")
      case True
      then have "store_step\<^sup>*\<^sup>* (fst (SetPackageCreatedVia (pkg_ID p) (pkg_CreatedVia p') e)) d'" using q(2) d' idq by simp
      moreover have "p' = p\<lparr>pkg_CreatedVia := via\<rparr>"
        using conjunct1 [OF Q] q(2) True by (metis package.surjective package.update_convs(7))
      ultimately show ?thesis using step.hyps(1) by auto
    next
      case False
      then show ?thesis using Q q(2) by simp
    qed
  qed
  then show ?case using step.IH store_step_seq [OF step.hyps(2)] by auto
qed

text \<open>A concrete catalogue for the witnesses.\<close>

definition sample_d1 :: db where
  "sample_d1 = fst (GetOrCreatePackageWithLookup 0 5 1 ''npm'' ''Left'' ''left'' CreatedViaPullThrough (fresh_db 0))"

lemma sample_d1_step: "store_step\<^sup>*\<^sup>* (fresh_db 0) sample_d1"
  unfolding sample_d1_def by (rule r_into_rtranclp) (rule step_package)

lemma sample_d1_packages:
  "rows (db_packages sample_d1) = [mk_package (1, ''npm'', ''Left'', ''left'', 5, CreatedViaPullThrough) 1]"
  by (simp add: sample_d1_def GetOrCreatePackageWithLookup_def GetPackageByLookup_def select_one_def fresh_db_def
      insert_package_def insert_unique_def Let_def CreatedVia_Valid_def tenant_exists_def default_tenant_row_def)

text \<open>
C10: Every catalogue reachable from a fresh database by the store's operations is well formed:
  identifiers and unique columns are unique in all five tables, every version belongs to an
  existing package and every file to an existing version and blob.
\<close>

theorem reachable_catalog_ok:
  assumes "store_step\<^sup>*\<^sup>* (fresh_db now) d"
  shows "catalog_ok d"
  using store_steps_ok [OF assms] by simp

theorem reachable_catalog_ok_witness: "catalog_ok sample_d1"
  using reachable_catalog_ok [OF sample_d1_step] .

lemma reachable_catalog_ok_sample: "catalog_ok sample_d1"
  using store_steps_ok [OF sample_d1_step] by simp



section \<open>Creating packages and versions\<close>

text \<open>
  \<open>GetOrCreatePackageWithLookup\<close> for an existing tenant always returns a package of the asked
  tenant, type and lookup name that is in the table afterwards. If one was there, it is returned
  as it is and nothing changes - the provenance argument is ignored; otherwise exactly one row is
  appended, with the asked provenance (or \<open>uploaded\<close> when that is not a valid one).
\<close>

theorem GetOrCreatePackage_once:
  assumes "catalog_ok d" and "tenant_exists d ten"
    and "GetOrCreatePackageWithLookup lr now ten t dn lk via d = (d', r)"
  shows "\<exists>p. r = Inr p \<and> p \<in> set (rows (db_packages d')) \<and> pkg_key p = (ten, t, lk)
     \<and> (case GetPackageByLookup d ten t lk of
          Inr q \<Rightarrow> p = q \<and> d' = d
        | Inl _ \<Rightarrow> rows (db_packages d') = rows (db_packages d) @ [p]
            \<and> pkg_CreatedVia p = (if CreatedVia_Valid via then via else CreatedViaUploaded))"
proof (cases "GetPackageByLookup d ten t lk")
  case (Inr q)
  then have "q \<in> set (rows (db_packages d))" "pkg_key q = (ten, t, lk)"
    using GetPackageByLookup_iff [OF catalog_okD(1) [OF assms(1)]] by blast+
  moreover from Inr assms(3) have "d' = d" "r = Inr q"
    by (simp_all add: GetOrCreatePackageWithLookup_def)
  ultimately show ?thesis using Inr by simp
next
  case (Inl e)
  then have e: "e = ErrPackageNotExist" and none: "\<forall>p \<in> set (rows (db_packages d)). pkg_key p \<noteq> (ten, t, lk)"
    using GetPackageByLookup_None by blast+
  show ?thesis
  proof (cases rule: insert_package_cases [of lr now ten t dn lk via d])
    case (inserted p tb)
    with package_rows.insert_SomeD [OF inserted(2)] Inl e assms(3) show ?thesis
      by (auto simp: GetOrCreatePackageWithLookup_def pkg_key_def mk_package_def)
  qed (use none assms(2) in auto)
qed

theorem GetOrCreatePackage_once_witness:
  "snd (GetOrCreatePackageWithLookup 0 9 1 ''npm'' ''LEFT'' ''left'' CreatedViaUploaded sample_d1)
     = Inr (mk_package (1, ''npm'', ''Left'', ''left'', 5, CreatedViaPullThrough) 1)"
proof -
  have found: "GetPackageByLookup sample_d1 1 ''npm'' ''left''
      = Inr (mk_package (1, ''npm'', ''Left'', ''left'', 5, CreatedViaPullThrough) 1)"
    by (simp add: GetPackageByLookup_def select_one_def sample_d1_packages mk_package_def)
  have "tenant_exists sample_d1 1"
    by (simp add: sample_d1_def tenant_exists_def GetOrCreatePackageWithLookup_def insert_package_def
        fresh_db_def default_tenant_row_def Let_def split: sum.split option.split)
  from GetOrCreatePackage_once [OF reachable_catalog_ok_sample this surjective_pairing,
      of 0 9 "''npm''" "''LEFT''" "''left''" CreatedViaUploaded]
  show ?thesis by (auto simp: found)
qed

text \<open>
  A lost race mints a wrong package. When another writer inserted the row between the lookup and the
  insert, and this database connection has inserted any row before (\<open>last_rowid > 0\<close>), the insert step
  does not re-read the package: it reports a package with that unrelated identifier and with the
  provenance the loser asked for, whatever the stored row says.
\<close>

theorem insert_package_lost_race:
  assumes "catalog_ok d" and "p \<in> set (rows (db_packages d))" and "pkg_key p = (ten, t, lk)"
    and "0 < lr" and "lr \<noteq> pkg_ID p" and "CreatedVia_Valid via"
  shows "\<exists>q. insert_package lr now ten t dn lk via d = (d, Inr q) \<and> q \<notin> set (rows (db_packages d))
     \<and> pkg_ID q = lr \<and> pkg_CreatedVia q = via"
proof -
  let ?q = "mk_package (ten, t, dn, lk, now, via) lr"
  have taken: "\<exists>r \<in> set (rows (db_packages d)). pkg_key r = pkg_key ?q"
    using assms(2,3) by (auto simp: mk_package_def pkg_key_def)
  then have "insert_unique pkg_key (mk_package (ten, t, dn, lk, now, via)) (db_packages d) = None"
    by (simp add: package_rows.insert_None_iff) (simp add: mk_package_def pkg_key_def)
  then have "insert_package lr now ten t dn lk via d = (d, Inr ?q)"
    using assms(4,6) by (simp add: insert_package_def)
  moreover have "?q \<notin> set (rows (db_packages d))"
    using table_ok_key_unique [OF catalog_okD(1) [OF assms(1)] assms(2)] assms(3,5)
    by (force simp: mk_package_def pkg_key_def)
  ultimately show ?thesis by (auto simp: mk_package_def)
qed

theorem insert_package_lost_race_witness:
  "\<exists>q. insert_package 7 9 1 ''npm'' ''left'' ''left'' CreatedViaUploaded sample_d1 = (sample_d1, Inr q)
     \<and> q \<notin> set (rows (db_packages sample_d1)) \<and> pkg_ID q = 7 \<and> pkg_CreatedVia q = CreatedViaUploaded"
  by (rule insert_package_lost_race [OF reachable_catalog_ok_sample,
        of "mk_package (1, ''npm'', ''Left'', ''left'', 5, CreatedViaPullThrough) 1"])
     (simp_all add: sample_d1_packages CreatedVia_Valid_def, simp_all add: mk_package_def pkg_key_def)

text \<open>
  \<open>CreateVersion\<close> on a well-formed catalogue: it fails with \<open>ErrDuplicatePackageVersion\<close> exactly
  when the package has a version equal up to letter case, otherwise with a foreign-key error when
  the package does not exist, and otherwise \<open>GetVersion\<close> returns the new version under every
  spelling of its name while every other lookup is as before.
\<close>

theorem CreateVersion_spec:
  assumes "catalog_ok d" and "CreateVersion now pid ver meta d = (d', r)"
  shows "case GetVersion d pid ver of
      Inr _ \<Rightarrow> d' = d \<and> r = Inl ErrDuplicatePackageVersion
    | Inl _ \<Rightarrow>
        (if package_exists d pid
         then \<exists>v. r = Inr v \<and> ver_Version v = ver \<and> \<not> IsQuarantined v
               \<and> (\<forall>pid' s. GetVersion d' pid' s =
                     (if pid' = pid \<and> to_lower s = to_lower ver then Inr v else GetVersion d pid' s))
         else d' = d \<and> r = Inl ErrForeignKey)"
proof -
  let ?mk = "mk_version (pid, ver, if meta = [] then ''{}'' else meta, now)"
  have key: "ver_key (?mk i) = (pid, to_lower ver)" for i
    by (simp add: mk_version_def ver_key_def)
  show ?thesis
  proof (cases "insert_unique ver_key ?mk (db_versions d)")
    case None
    then obtain v where "v \<in> set (rows (db_versions d))" "ver_key v = (pid, to_lower ver)"
      using version_rows.insert_None_iff key by metis
    then have "GetVersion d pid ver = Inr v"
      using GetVersion_iff [OF catalog_okD(2) [OF assms(1)]] by blast
    with None assms(2) show ?thesis by (simp add: CreateVersion_def Let_def)
  next
    case (Some vt)
    obtain v tb where vt: "vt = (v, tb)" by (cases vt)
    note ins = Some [unfolded vt]
    have v: "v = ?mk (seq (db_versions d) + 1)" using version_rows.insert_SomeD(1) [OF ins] .
    have fresh: "(pid, to_lower ver) \<notin> ver_key ` set (rows (db_versions d))"
      using version_rows.insert_SomeD(5) [OF ins] by (simp add: v key)
    then have none: "GetVersion d pid ver = Inl ErrVersionNotExist"
      by (auto simp: GetVersion_None image_iff)
    have look: "GetVersion (d\<lparr>db_versions := tb\<rparr>) pid' s =
          (if pid' = pid \<and> to_lower s = to_lower ver then Inr v else GetVersion d pid' s)" for pid' s
    proof (cases "pid' = pid \<and> to_lower s = to_lower ver")
      case True
      then show ?thesis
        using version_rows.insert_lookup(1) [OF catalog_okD(2) [OF assms(1)] ins]
        by (simp add: lookup_by_key v key)
    next
      case False
      then have "\<not> ver_key v = (pid', to_lower s)" by (auto simp: v key)
      from version_rows.insert_frame [OF catalog_okD(2) [OF assms(1)] ins, of "\<lambda>q. ver_key q = (pid', to_lower s)", OF this] False
      show ?thesis by (auto simp: lookup_by_key)
    qed
    have fields: "ver_Version v = ver" "\<not> IsQuarantined v"
      by (simp_all add: v mk_version_def IsQuarantined_def)
    show ?thesis
    proof (cases "package_exists d pid")
      case True
      with assms(2) ins have "d' = d\<lparr>db_versions := tb\<rparr>" "r = Inr v"
        by (simp_all add: CreateVersion_def Let_def)
      with True none fields look show ?thesis by simp
    next
      case False
      with assms(2) ins none show ?thesis by (auto simp: CreateVersion_def Let_def)
    qed
  qed
qed

theorem CreateVersion_spec_witness:
  "\<exists>v. snd (CreateVersion 6 1 ''1.0-RC1'' [] sample_d1) = Inr v
     \<and> GetVersion (fst (CreateVersion 6 1 ''1.0-RC1'' [] sample_d1)) 1 ''1.0-rc1'' = Inr v"
proof -
  have "GetVersion sample_d1 1 ''1.0-RC1'' = Inl ErrVersionNotExist"
    by (simp add: GetVersion_def select_one_def sample_d1_def GetOrCreatePackageWithLookup_def insert_package_def
        fresh_db_def Let_def split: sum.split option.split)
  moreover have "package_exists sample_d1 1"
    by (simp add: package_exists_def sample_d1_packages mk_package_def)
  moreover have "to_lower ''1.0-rc1'' = to_lower ''1.0-RC1''" by code_simp
  ultimately show ?thesis
    using CreateVersion_spec [OF reachable_catalog_ok_sample surjective_pairing,
        where now = 6 and pid = 1 and ver = "''1.0-RC1''" and meta = "[]"] by auto
qed

section \<open>Deletions\<close>

lemma DeletePackage_files:
  assumes "package_exists d i"
  shows "rows (db_files (DeletePackage i d)) =
    [f \<leftarrow> rows (db_files d). \<not> (\<exists>v \<in> set (rows (db_versions d)). ver_PackageID v = i \<and> ver_ID v = file_VersionID f)]"
  using assms by (simp add: DeletePackage_def Let_def)

lemma DeletePackage_properties:
  "rows (db_properties (DeletePackage i d)) =
    [q \<leftarrow> rows (db_properties d). \<not> (case prop_RefType q of
        PropertyRefPackage \<Rightarrow> prop_RefID q = i
      | PropertyRefVersion \<Rightarrow> (\<exists>v \<in> set (rows (db_versions d)). ver_PackageID v = i \<and> ver_ID v = prop_RefID q)
      | PropertyRefFile \<Rightarrow> (\<exists>f \<in> set (rows (db_files d)). file_ID f = prop_RefID q \<and>
          (\<exists>v \<in> set (rows (db_versions d)). ver_PackageID v = i \<and> ver_ID v = file_VersionID f)))]"
proof -
  define V where "V = set (map ver_ID (select_all (\<lambda>v. ver_PackageID v = i) (db_versions d)))"
  define F where "F = set (map file_ID (select_all (\<lambda>f. file_VersionID f \<in> V) (db_files d)))"
  have inV: "j \<in> V \<longleftrightarrow> (\<exists>v \<in> set (rows (db_versions d)). ver_PackageID v = i \<and> ver_ID v = j)" for j
    by (auto simp: V_def select_all_def)
  have inF: "k \<in> F \<longleftrightarrow> (\<exists>f \<in> set (rows (db_files d)). file_ID f = k \<and> file_VersionID f \<in> V)" for k
    by (auto simp: F_def select_all_def)
  have "rows (db_properties (DeletePackage i d)) =
      filter (\<lambda>q. \<not> (prop_RefType q = PropertyRefPackage \<and> prop_RefID q \<in> {i}))
       (filter (\<lambda>q. \<not> (prop_RefType q = PropertyRefVersion \<and> prop_RefID q \<in> V))
        (filter (\<lambda>q. \<not> (prop_RefType q = PropertyRefFile \<and> prop_RefID q \<in> F)) (rows (db_properties d))))"
    unfolding DeletePackage_def Let_def delete_properties_def delete_versions_def V_def F_def by (simp del: filter_filter)
  also have "\<dots> = [q \<leftarrow> rows (db_properties d). \<not> (case prop_RefType q of PropertyRefPackage \<Rightarrow> prop_RefID q = i
      | PropertyRefVersion \<Rightarrow> prop_RefID q \<in> V | PropertyRefFile \<Rightarrow> prop_RefID q \<in> F)]"
    unfolding filter_filter by (rule filter_cong [OF refl]) (simp split: prop_ref.split)
  finally show ?thesis by (simp only: inF inV)
qed

lemma DeletePackage_frame:
  "DeletePackage i d = d\<lparr>db_packages := db_packages (DeletePackage i d), db_versions := db_versions (DeletePackage i d),
     db_files := db_files (DeletePackage i d), db_properties := db_properties (DeletePackage i d)\<rparr>"
  by (simp add: DeletePackage_def Let_def delete_properties_def delete_versions_def)

text \<open>
C20: \<open>DeletePackage\<close> is complete and local: afterwards the package, its versions, their files and the
  properties of all of these are gone and no property dangles, while every other package, every version, file and
  property that does not belong to it, every blob and every other table are still there.
\<close>

theorem DeletePackage_complete:
  assumes "catalog_ok d" and "props_ok d" and "package_exists d i"
  shows "(let d' = DeletePackage i d; mine = (\<lambda>j. \<exists>v \<in> set (rows (db_versions d)). ver_PackageID v = i \<and> ver_ID v = j) in
      catalog_ok d' \<and> props_ok d'
    \<and> rows (db_packages d') = [p \<leftarrow> rows (db_packages d). pkg_ID p \<noteq> i]
    \<and> rows (db_versions d') = [v \<leftarrow> rows (db_versions d). ver_PackageID v \<noteq> i]
    \<and> rows (db_files d') = [f \<leftarrow> rows (db_files d). \<not> mine (file_VersionID f)]
    \<and> rows (db_properties d') = [q \<leftarrow> rows (db_properties d). \<not> (case prop_RefType q of
          PropertyRefPackage \<Rightarrow> prop_RefID q = i
        | PropertyRefVersion \<Rightarrow> mine (prop_RefID q)
        | PropertyRefFile \<Rightarrow> (\<exists>f \<in> set (rows (db_files d)). file_ID f = prop_RefID q \<and> mine (file_VersionID f)))]
    \<and> d' = d\<lparr>db_packages := db_packages d', db_versions := db_versions d', db_files := db_files d', db_properties := db_properties d'\<rparr>)"
  unfolding Let_def
  by (intro conjI DeletePackage_ok DeletePackage_props_ok DeletePackage_rows DeletePackage_files DeletePackage_properties
      DeletePackage_frame assms)

lemma sample_d1_other_tables [simp]:
  "rows (db_versions sample_d1) = []" "rows (db_files sample_d1) = []" "rows (db_properties sample_d1) = []"
  "rows (db_blobs sample_d1) = []"
  by (simp_all add: sample_d1_def GetOrCreatePackageWithLookup_def insert_package_def fresh_db_def Let_def
      split: sum.split option.split)

lemma sample_d1_props: "props_ok sample_d1"
  by (simp add: props_ok_def)

definition sample_d2 :: db where
  "sample_d2 = fst (CreateVersion 6 1 ''1.0'' [] sample_d1)"

lemma sample_d2_ok: "catalog_ok sample_d2"
  unfolding sample_d2_def by (rule CreateVersion_ok [OF reachable_catalog_ok_sample])

lemma sample_d2_versions: "rows (db_versions sample_d2) = [mk_version (1, ''1.0'', ''{}'', 6) 1]"
proof -
  have "db_versions sample_d1 = empty_table"
    by (simp add: sample_d1_def GetOrCreatePackageWithLookup_def insert_package_def fresh_db_def Let_def
      split: sum.split option.split)
  moreover have "package_exists sample_d1 1"
    by (simp add: package_exists_def sample_d1_packages mk_package_def)
  ultimately show ?thesis
    by (simp add: sample_d2_def CreateVersion_def insert_unique_def Let_def)
qed

text \<open>Two packages, the first with a version, a file and properties of all three kinds, the second with a property.\<close>

definition sample_d3 :: db where
  "sample_d3 =
     SetProperty PropertyRefPackage 2 ''k'' ''kept'' (SetProperty PropertyRefFile 1 ''k'' ''f'' (SetProperty PropertyRefVersion 1 ''k'' ''v''
       (SetProperty PropertyRefPackage 1 ''k'' ''p''
         (fst (GetOrCreatePackageWithLookup 0 9 1 ''npm'' ''Right'' ''right'' CreatedViaUploaded
           (fst (CreateFile 8
              \<lparr>file_ID = 0, file_VersionID = 1, file_BlobID = 1, file_Name = ''left.tgz'', file_LowerName = [], file_IsLead = True, file_CreatedUnix = 0\<rparr>
             (fst (GetOrCreateBlob 0 7
                \<lparr>blob_ID = 0, blob_Size = 3, blob_HashMD5 = [], blob_HashSHA1 = [], blob_HashSHA256 = ''ab'', blob_HashSHA512 = [], blob_CreatedUnix = 0\<rparr>
                sample_d2)))))))))"

lemma sample_d3_ok: "catalog_ok sample_d3"
  unfolding sample_d3_def by (intro ok_intros sample_d2_ok)

lemma sample_d2_tables:
  "rows (db_packages sample_d2) = [mk_package (1, ''npm'', ''Left'', ''left'', 5, CreatedViaPullThrough) 1]"
  "rows (db_files sample_d2) = []" "rows (db_properties sample_d2) = []" "rows (db_blobs sample_d2) = []"
  "seq (db_packages sample_d2) = 1" "seq (db_files sample_d2) = 0" "seq (db_properties sample_d2) = 0" "seq (db_blobs sample_d2) = 0"
  by (simp_all add: sample_d2_def sample_d1_def CreateVersion_def GetOrCreatePackageWithLookup_def GetPackageByLookup_def select_one_def fresh_db_def
      insert_package_def insert_unique_def Let_def CreatedVia_Valid_def tenant_exists_def default_tenant_row_def package_exists_def)

lemma sample_d2_tenant: "tenant_exists sample_d2 1"
  by (simp add: sample_d2_def sample_d1_def CreateVersion_def tenant_exists_def GetOrCreatePackageWithLookup_def insert_package_def
      fresh_db_def default_tenant_row_def Let_def split: sum.split option.split)

lemma sample_d3_tables:
  "map (\<lambda>p. (pkg_ID p, pkg_LowerName p)) (rows (db_packages sample_d3)) = [(1, ''left''), (2, ''right'')]"
  "map (\<lambda>v. (ver_ID v, ver_PackageID v)) (rows (db_versions sample_d3)) = [(1, 1)]"
  "map (\<lambda>f. (file_ID f, file_VersionID f)) (rows (db_files sample_d3)) = [(1, 1)]"
  "map (\<lambda>q. (prop_RefType q, prop_RefID q, prop_Value q)) (rows (db_properties sample_d3)) =
     [(PropertyRefPackage, 1, ''p''), (PropertyRefVersion, 1, ''v''), (PropertyRefFile, 1, ''f''), (PropertyRefPackage, 2, ''kept'')]"
  by (simp_all add: sample_d3_def sample_d2_tables sample_d2_versions SetProperty_def insert_row_def Let_def CreateFile_def GetOrCreateBlob_def
      GetBlobBySHA256_def GetOrCreatePackageWithLookup_def GetPackageByLookup_def select_one_def insert_package_def insert_unique_def
      CreatedVia_Valid_def sample_d2_tenant [unfolded tenant_exists_def] tenant_exists_def mk_package_def mk_version_def mk_file_def mk_blob_def version_exists_def blob_exists_def pkg_key_def)

theorem DeletePackage_complete_witness:
  "map pkg_LowerName (rows (db_packages (DeletePackage 1 sample_d3))) = [''right'']
   \<and> rows (db_versions (DeletePackage 1 sample_d3)) = [] \<and> rows (db_files (DeletePackage 1 sample_d3)) = []
   \<and> map prop_Value (rows (db_properties (DeletePackage 1 sample_d3))) = [''kept'']"
proof -
  have p: "props_ok sample_d3" "package_exists sample_d3 1"
    using sample_d3_tables by (auto simp: props_ok_def package_exists_def version_exists_def file_exists_def map_eq_Cons_conv)
  show ?thesis
    using DeletePackage_complete [OF sample_d3_ok p] sample_d3_tables by (auto simp: Let_def map_eq_Cons_conv)
qed

text \<open>
  \<open>DeleteFile\<close> removes only the file row: a property of the file stays behind, and deleting the
  version or even the package afterwards - which look properties up through the file rows - does
  not remove it either.
\<close>

theorem DeleteFile_leaks_properties:
  assumes "p \<in> set (rows (db_properties d))" and "prop_RefType p = PropertyRefFile"
  shows "p \<in> set (rows (db_properties (DeleteVersion v (DeleteFile (prop_RefID p) d))))
     \<and> p \<in> set (rows (db_properties (DeletePackage i (DeleteFile (prop_RefID p) d))))
     \<and> \<not> props_ok (DeleteFile (prop_RefID p) d)"
proof -
  have gone: "prop_RefID p \<notin> set (map file_ID (select_all P (db_files (DeleteFile (prop_RefID p) d))))" for P
    by (auto simp: DeleteFile_def select_all_def)
  have here: "p \<in> set (rows (db_properties (DeleteFile (prop_RefID p) d)))"
    using assms(1) by (simp add: DeleteFile_def)
  moreover have "\<not> prop_target (DeleteFile (prop_RefID p) d) (prop_RefType p) (prop_RefID p)"
    using assms(2) by (auto simp: DeleteFile_def file_exists_def)
  ultimately have "\<not> props_ok (DeleteFile (prop_RefID p) d)" by (auto simp: props_ok_def)
  moreover have "p \<in> set (rows (db_properties (DeleteVersion v (DeleteFile (prop_RefID p) d))))"
    using here assms(2) gone by (simp add: DeleteVersion_def Let_def)
  moreover have "p \<in> set (rows (db_properties (DeletePackage i (DeleteFile (prop_RefID p) d))))"
    using here assms(2) gone by (simp add: DeletePackage_def Let_def)
  ultimately show ?thesis by blast
qed

theorem DeleteFile_leaks_properties_witness:
  "rows (db_properties (DeletePackage 1 (DeleteFile 3 (SetProperty PropertyRefFile 3 ''deb.arch'' ''amd64'' sample_d1)))) \<noteq> []"
proof -
  let ?d = "SetProperty PropertyRefFile 3 ''deb.arch'' ''amd64'' sample_d1"
  let ?p = "\<lparr>prop_ID = seq (db_properties sample_d1) + 1, prop_RefType = PropertyRefFile,
      prop_RefID = 3, prop_Name = ''deb.arch'', prop_Value = ''amd64''\<rparr>"
  have "?p \<in> set (rows (db_properties ?d))"
    by (simp add: SetProperty_def insert_row_def Let_def)
  from DeleteFile_leaks_properties [OF this] have "?p \<in> set (rows (db_properties (DeletePackage 1 (DeleteFile 3 ?d))))"
    by simp
  then show ?thesis by auto
qed

section \<open>Quarantine\<close>

lemma update_version_rows:
  "db_versions (fst (update_version i f d)) = update_where (\<lambda>v. ver_ID v = i) f (db_versions d)"
  "snd (update_version i f d) = Inr () \<longleftrightarrow> version_exists d i"
  "db_packages (fst (update_version i f d)) = db_packages d"
  by (auto simp: update_version_def Let_def version_exists_def)

lemma set_ListQuarantined:
  "set (ListQuarantined d ten) =
     {quarantined_row v p |v p. v \<in> set (rows (db_versions d)) \<and> p \<in> set (rows (db_packages d)) \<and>
        pkg_ID p = ver_PackageID v \<and> IsQuarantined v \<and> (ten = 0 \<or> pkg_TenantID p = ten)}"
  by (auto simp: ListQuarantined_def IsQuarantined_def split: if_splits)

lemma ListQuarantinedD:
  "e \<in> set (ListQuarantined d ten) \<Longrightarrow> \<exists>v p. v \<in> set (rows (db_versions d)) \<and> e = quarantined_row v p"
  unfolding set_ListQuarantined by blast

lemma qv_VersionID_row [simp]: "qv_VersionID (quarantined_row v p) = ver_ID v"
  by (simp add: quarantined_row_def)

text \<open>
  Quarantine and promotion against the administrator's list, on a well-formed catalogue: after a
  successful \<open>QuarantineVersion\<close> the version is listed (with the given reason and rule), after
  \<open>PromoteVersion\<close> it is not, and whether any other version is listed is unchanged by either.
\<close>

theorem quarantine_listing:
  assumes "catalog_ok d"
    and "(if q then QuarantineVersion i rule reason d else PromoteVersion i d) = (d', Inr ())"
  shows "(\<exists>e \<in> set (ListQuarantined d' 0). qv_VersionID e = i) = q
     \<and> (q \<longrightarrow> (\<forall>e \<in> set (ListQuarantined d' 0). qv_VersionID e = i \<longrightarrow> qv_Reason e = reason \<and> qv_RuleID e = rule))
     \<and> (\<forall>j. j \<noteq> i \<longrightarrow> (\<exists>e \<in> set (ListQuarantined d' 0). qv_VersionID e = j)
                   = (\<exists>e \<in> set (ListQuarantined d 0). qv_VersionID e = j))"
proof -
  define f where "f = (\<lambda>v :: pkg_version. if q then v\<lparr>ver_QuarantineReason := Some reason,
      ver_QuarantinedByRuleID := if rule \<noteq> 0 then Some rule else None\<rparr>
    else v\<lparr>ver_QuarantineReason := None, ver_QuarantinedByRuleID := None\<rparr>)"
  have upd: "update_version i f d = (d', Inr ())"
    using assms(2) by (auto simp: f_def QuarantineVersion_def PromoteVersion_def Let_def split: if_splits)
  have rows': "rows (db_versions d') = map (\<lambda>v. if ver_ID v = i then f v else v) (rows (db_versions d))"
    and pk: "db_packages d' = db_packages d" and ex: "version_exists d i"
    using update_version_rows [of i f d] upd by simp_all
  have bex': "(\<exists>v \<in> set (rows (db_versions d')). P v) \<longleftrightarrow>
      (\<exists>v \<in> set (rows (db_versions d)). P (if ver_ID v = i then f v else v))" for P
    unfolding rows' list.set_map by (rule bex_simps(7))
  have f [simp]: "ver_ID (f v) = ver_ID v" "ver_PackageID (f v) = ver_PackageID v" "IsQuarantined (f v) = q" for v
    by (simp_all add: f_def IsQuarantined_def)
  have listed: "(\<exists>e \<in> set (ListQuarantined x 0). qv_VersionID e = j) \<longleftrightarrow>
      (\<exists>v \<in> set (rows (db_versions x)). ver_ID v = j \<and> IsQuarantined v)"
    if "\<And>v. v \<in> set (rows (db_versions x)) \<Longrightarrow> package_exists x (ver_PackageID v)" for x j
    using that by (fastforce simp: set_ListQuarantined package_exists_def)
  have pe: "package_exists d (ver_PackageID v)" if "v \<in> set (rows (db_versions d))" for v
    using catalog_okD(6) [OF assms(1) that] .
  then have pe': "package_exists d' (ver_PackageID v)" if "v \<in> set (rows (db_versions d'))" for v
    using that by (auto simp: rows' pk package_exists_def)
  have "qv_Reason e = reason \<and> qv_RuleID e = rule"
    if "q" and e: "e \<in> set (ListQuarantined d' 0)" "qv_VersionID e = i" for e
  proof -
    from ListQuarantinedD [OF e(1)] obtain v p
      where v: "v \<in> set (rows (db_versions d'))" "e = quarantined_row v p" by blast
    have "ver_ID v = i" using v(2) e(2) by simp
    from v(1) have "v \<in> (\<lambda>w. if ver_ID w = i then f w else w) ` set (rows (db_versions d))"
      by (simp only: rows' list.set_map)
    then obtain w where w: "v = (if ver_ID w = i then f w else w)" by (elim imageE)
    with \<open>ver_ID v = i\<close> have "v = f w" by (cases "ver_ID w = i") simp_all
    with v(2) \<open>q\<close> show ?thesis by (simp add: quarantined_row_def f_def)
  qed
  moreover have here: "(\<exists>v \<in> set (rows (db_versions d')). ver_ID v = i \<and> IsQuarantined v) = q"
    using ex by (auto simp: bex' version_exists_def)
  moreover have "(\<exists>e \<in> set (ListQuarantined d' 0). qv_VersionID e = i) = q"
    using here listed [of d' i] pe' by simp
  moreover have "(\<exists>e \<in> set (ListQuarantined d' 0). qv_VersionID e = j)
       = (\<exists>e \<in> set (ListQuarantined d 0). qv_VersionID e = j)" if "j \<noteq> i" for j
  proof -
    have "(\<exists>v \<in> set (rows (db_versions d')). ver_ID v = j \<and> IsQuarantined v) =
      (\<exists>v \<in> set (rows (db_versions d)). ver_ID v = j \<and> IsQuarantined v)"
      using that by (auto simp: bex')
    then show ?thesis using listed [of d' j] listed [of d j] pe pe' by simp
  qed
  ultimately show ?thesis by blast
qed

theorem quarantine_listing_witness:
  "\<exists>q \<in> set (ListQuarantined (fst (QuarantineVersion 1 0 ''too new'' sample_d2)) 0). qv_VersionID q = 1"
proof -
  have "QuarantineVersion 1 0 ''too new'' sample_d2 = (fst (QuarantineVersion 1 0 ''too new'' sample_d2), Inr ())"
    by (simp add: QuarantineVersion_def update_version_def Let_def sample_d2_versions mk_version_def)
  with quarantine_listing [OF sample_d2_ok, of True 1 0 "''too new''"]
  show ?thesis by simp
qed

section \<open>Properties and listings\<close>

text \<open>
  What \<open>SetProperty\<close> wrote is what \<open>GetProperty\<close> reads, a second write replaces the first, and
  no other property changes; \<open>DeleteProperty\<close> removes exactly the one it names.
\<close>

theorem property_roundtrip:
  "GetProperty (SetProperty rt ri n v d) rt' ri' n' =
     (if (rt', ri', n') = (rt, ri, n) then Some v else GetProperty d rt' ri' n')
   \<and> GetProperty (DeleteProperty rt ri n d) rt' ri' n' =
     (if (rt', ri', n') = (rt, ri, n) then None else GetProperty d rt' ri' n')"
proof -
  let ?P = "\<lambda>rt ri n p. prop_RefType p = rt \<and> prop_RefID p = ri \<and> prop_Name p = n"
  have find: "List.find (?P rt' ri' n') [p \<leftarrow> xs. \<not> ?P rt ri n p] =
      (if (rt', ri', n') = (rt, ri, n) then None else List.find (?P rt' ri' n') xs)" for xs
    by (induction xs) auto
  show ?thesis
    unfolding GetProperty_def SetProperty_def DeleteProperty_def insert_row_def Let_def select_one_def
    by (auto simp add: find find_append simp del: de_Morgan_conj split: option.split)
qed

lemma sql_like_any: "sql_like ''%'' s"
  by (auto simp: list_ex_iff intro!: bexI [of _ "length s"])

lemma sql_like_prefix:
  "CHR ''%'' \<notin> set pfx \<Longrightarrow> CHR ''_'' \<notin> set pfx \<Longrightarrow>
     sql_like (pfx @ ''%'') s \<longleftrightarrow> prefix (to_lower pfx) (to_lower s)"
proof (induction pfx arbitrary: s)
  case Nil
  show ?case using sql_like_any by (simp add: to_lower_def)
next
  case (Cons c pfx)
  then show ?case by (cases s) (auto simp: to_lower_def)
qed

text \<open>
\<open>GetPropertiesByPrefix\<close> is a SQL \<open>LIKE\<close>, not a prefix test. For a prefix without \<open>%\<close> and \<open>_\<close> it
  returns the properties of the entity whose name starts with the prefix up to letter case - more than
  the names that start with the prefix; \<open>_\<close> in the prefix matches any character.
\<close>

theorem GetPropertiesByPrefix_like:
  "(CHR ''%'' \<notin> set pfx \<longrightarrow> CHR ''_'' \<notin> set pfx \<longrightarrow>
      set (GetPropertiesByPrefix d rt ri pfx) =
        {p \<in> set (rows (db_properties d)). prop_RefType p = rt \<and> prop_RefID p = ri
           \<and> prefix (to_lower pfx) (to_lower (prop_Name p))})
   \<and> (\<exists>p. GetPropertiesByPrefix (SetProperty rt ri ''debXarch'' v (fresh_db 0)) rt ri ''deb_'' = [p]
          \<and> \<not> prefix ''deb_'' (prop_Name p))"
proof
  show "CHR ''%'' \<notin> set pfx \<longrightarrow> CHR ''_'' \<notin> set pfx \<longrightarrow>
      set (GetPropertiesByPrefix d rt ri pfx) =
        {p \<in> set (rows (db_properties d)). prop_RefType p = rt \<and> prop_RefID p = ri
           \<and> prefix (to_lower pfx) (to_lower (prop_Name p))}"
    by (auto simp: GetPropertiesByPrefix_def select_all_def sql_like_prefix)
  have "sql_like (''deb_'' @ ''%'') ''debXarch''" by code_simp
  then show "\<exists>p. GetPropertiesByPrefix (SetProperty rt ri ''debXarch'' v (fresh_db 0)) rt ri ''deb_'' = [p]
      \<and> \<not> prefix ''deb_'' (prop_Name p)"
    by (simp add: GetPropertiesByPrefix_def SetProperty_def insert_row_def fresh_db_def Let_def select_all_def
        del: sql_like.simps)
qed

theorem GetPropertiesByPrefix_like_witness:
  "set (GetPropertiesByPrefix sample_d1 PropertyRefFile 3 ''deb.'') = {}"
  using GetPropertiesByPrefix_like [of "''deb.''" sample_d1 PropertyRefFile 3] by simp

lemma GetLatestVersion_max:
  "GetLatestVersion d pid = Inr v \<Longrightarrow>
     v \<in> set (rows (db_versions d)) \<and> ver_PackageID v = pid
   \<and> (\<forall>w \<in> set (rows (db_versions d)). ver_PackageID w = pid \<longrightarrow> ver_CreatedUnix w \<le> ver_CreatedUnix v)"
proof -
  assume r: "GetLatestVersion d pid = Inr v"
  let ?vs = "select_all (\<lambda>v. ver_PackageID v = pid) (db_versions d)"
  from r obtain us where us: "rev (sort_key ver_CreatedUnix ?vs) = v # us"
    by (auto simp: GetLatestVersion_def split: list.splits)
  then have eq: "sort_key ver_CreatedUnix ?vs = rev us @ [v]"
    by (metis rev.simps(2) rev_rev_ident)
  then have "set ?vs = set (rev us @ [v])"
    by (metis set_sort)
  moreover have "sorted (map ver_CreatedUnix (rev us @ [v]))"
    using sorted_sort_key [of ver_CreatedUnix ?vs] by (simp only: eq)
  ultimately show ?thesis
    by (auto simp: select_all_def sorted_append)
qed

lemma GetLatestVersion_None:
  "GetLatestVersion d pid = Inl e \<longleftrightarrow>
     e = ErrVersionNotExist \<and> (\<forall>w \<in> set (rows (db_versions d)). ver_PackageID w \<noteq> pid)"
proof -
  let ?vs = "select_all (\<lambda>v. ver_PackageID v = pid) (db_versions d)"
  have "length (rev (sort_key ver_CreatedUnix ?vs)) = length ?vs" by simp
  then have "rev (sort_key ver_CreatedUnix ?vs) = [] \<longleftrightarrow> ?vs = []"
    by (simp only: length_0_conv [symmetric])
  moreover have "?vs = [] \<longleftrightarrow> (\<forall>w \<in> set (rows (db_versions d)). ver_PackageID w \<noteq> pid)"
    by (simp add: select_all_def filter_Nil_conv)
  ultimately show ?thesis
    unfolding GetLatestVersion_def by (cases "rev (sort_key ver_CreatedUnix ?vs)") auto
qed

end
