(* ===== verification/Encodings.thy ===== *)
theory Encodings
  imports Go_Strings "HOL-Library.Word"
begin

unbundle bit_operations_syntax

text \<open>
  The encodings of Go's standard library behind tokens and credentials:
  \<open>base64.StdEncoding.DecodeString\<close> (with the encoder, for the round trip),
  \<open>base32.StdEncoding\<close> without padding, \<open>hex.EncodeToString\<close> and SHA-256.
  A byte slice is a \<open>string\<close>, one \<open>char\<close> per byte.
\<close>

section \<open>Base 64\<close>

definition b64_char :: "nat \<Rightarrow> char" where
  "b64_char n =
     (if n < 26 then char_of (n + 65) else if n < 52 then char_of (n + 71)
      else if n < 62 then char_of (n - 4) else if n = 62 then CHR ''+'' else CHR ''/'')"

definition b64_val :: "char \<Rightarrow> nat option" where
  "b64_val c = (let n = (of_char c :: nat) in
     if 65 \<le> n \<and> n \<le> 90 then Some (n - 65)
     else if 97 \<le> n \<and> n \<le> 122 then Some (n - 71)
     else if 48 \<le> n \<and> n \<le> 57 then Some (n + 4)
     else if n = 43 then Some 62
     else if n = 47 then Some 63
     else None)"

text \<open>
  Padding may only end the input. A last group with one or two padding characters stands for
  two or one bytes; left-over low bits are not checked (the encoding is not \<open>Strict\<close>).
\<close>

fun b64_groups :: "string \<Rightarrow> string option" where
  "b64_groups [] = Some []"
| "b64_groups (a # b # c # d # rest) =
     (case (b64_val a, b64_val b) of
        (Some x, Some y) \<Rightarrow>
          (let b1 = char_of (4 * x + y div 16) in
           if c = CHR ''='' then (if d = CHR ''='' \<and> rest = [] then Some [b1] else None)
           else (case b64_val c of
               None \<Rightarrow> None
             | Some z \<Rightarrow>
                 (let b2 = char_of (16 * (y mod 16) + z div 4) in
                  if d = CHR ''='' then (if rest = [] then Some [b1, b2] else None)
                  else (case (b64_val d, b64_groups rest) of
                      (Some w, Some bs) \<Rightarrow> Some (b1 # b2 # char_of (64 * (z mod 4) + w) # bs)
                    | _ \<Rightarrow> None))))
      | _ \<Rightarrow> None)"
| "b64_groups _ = None"

text \<open>Line breaks are skipped.\<close>

definition b64_decode :: "string \<Rightarrow> string option" where
  "b64_decode s = b64_groups (filter (\<lambda>c. of_char c \<noteq> (10 :: nat) \<and> of_char c \<noteq> (13 :: nat)) s)"

fun b64_encode :: "string \<Rightarrow> string" where
  "b64_encode [] = []"
| "b64_encode [a] =
     (let x = (of_char a :: nat) in
      [b64_char (x div 4), b64_char (16 * (x mod 4)), CHR ''='', CHR ''=''])"
| "b64_encode [a, b] =
     (let x = (of_char a :: nat); y = (of_char b :: nat) in
      [b64_char (x div 4), b64_char (16 * (x mod 4) + y div 16), b64_char (4 * (y mod 16)), CHR ''=''])"
| "b64_encode (a # b # c # rest) =
     (let x = (of_char a :: nat); y = (of_char b :: nat); z = (of_char c :: nat) in
      b64_char (x div 4) # b64_char (16 * (x mod 4) + y div 16)
        # b64_char (4 * (y mod 16) + z div 64) # b64_char (z mod 64) # b64_encode rest)"

lemma of_char_256: "(of_char c :: nat) < 256"
  by (rule nat_of_char_less_256)

lemma of_b64_char:
  "of_char (b64_char n) = (if n < 26 then n + 65 else if n < 52 then n + 71 else if n < 62 then n - 4
     else if n = 62 then 43 else 47)"
  by (simp add: b64_char_def)

lemma b64_char_facts:
  assumes "n < 64"
  shows "b64_val (b64_char n) = Some n" "b64_char n \<noteq> CHR ''=''" "of_char (b64_char n) \<noteq> (10 :: nat)"
    "of_char (b64_char n) \<noteq> (13 :: nat)" "\<not> is_space (b64_char n)"
proof -
  have code: "\<And>m. m = of_char (b64_char n) \<Longrightarrow> 43 \<le> m \<and> m \<noteq> 61 \<and> m < (128 :: nat)"
    using assms by (auto simp: of_b64_char)
  show "b64_val (b64_char n) = Some n"
    using assms by (auto simp: b64_val_def of_b64_char Let_def)
  show "b64_char n \<noteq> CHR ''=''"
    using code [OF refl] by auto
  show "of_char (b64_char n) \<noteq> (10 :: nat)" "of_char (b64_char n) \<noteq> (13 :: nat)" "\<not> is_space (b64_char n)"
    using code [OF refl] by (auto simp: is_space_def Let_def)
qed

lemma not_space_pad [simp]: "\<not> is_space CHR ''=''"
  by (simp add: is_space_def)

lemma b64_groups_encode: "b64_groups (b64_encode s) = Some s"
proof (induction s rule: b64_encode.induct)
  case (2 a)
  have "(of_char a :: nat) < 256" by (rule of_char_256)
  then have "of_char a div 4 < (64 :: nat)" "16 * (of_char a mod 4) < (64 :: nat)" by linarith+
  then show ?case by (simp add: Let_def b64_char_facts)
next
  case (3 a b)
  have "(of_char a :: nat) < 256" "(of_char b :: nat) < 256" by (rule of_char_256)+
  then have "of_char a div 4 < (64 :: nat)" "16 * (of_char a mod 4) + of_char b div 16 < (64 :: nat)"
    "4 * (of_char b mod 16) < (64 :: nat)" "of_char b div 16 < (16 :: nat)" by linarith+
  then show ?case by (simp add: Let_def b64_char_facts)
next
  case (4 a b c rest)
  have "(of_char a :: nat) < 256" "(of_char b :: nat) < 256" "(of_char c :: nat) < 256" by (rule of_char_256)+
  then have "of_char a div 4 < (64 :: nat)" "16 * (of_char a mod 4) + of_char b div 16 < (64 :: nat)"
    "4 * (of_char b mod 16) + of_char c div 64 < (64 :: nat)" "of_char b div 16 < (16 :: nat)"
    "of_char c div 64 < (4 :: nat)" "of_char c mod 64 < (64 :: nat)" by linarith+
  with 4 show ?case by (simp add: Let_def b64_char_facts)
qed simp

definition b64_clean :: "char \<Rightarrow> bool" where
  "b64_clean c \<longleftrightarrow> of_char c \<noteq> (10 :: nat) \<and> of_char c \<noteq> (13 :: nat) \<and> \<not> is_space c"

lemma b64_clean_simps: "n < 64 \<Longrightarrow> b64_clean (b64_char n)" "b64_clean CHR ''=''"
  by (simp_all add: b64_clean_def b64_char_facts)

lemma b64_encode_clean: "list_all b64_clean (b64_encode s)"
proof (induction s rule: b64_encode.induct)
  case (2 a)
  have "(of_char a :: nat) < 256" by (rule of_char_256)
  then have "of_char a div 4 < (64 :: nat)" "16 * (of_char a mod 4) < (64 :: nat)" by linarith+
  with 2 show ?case by (simp add: Let_def b64_clean_simps)
next
  case (3 a b)
  have "(of_char a :: nat) < 256" "(of_char b :: nat) < 256" by (rule of_char_256)+
  then have "of_char a div 4 < (64 :: nat)" "16 * (of_char a mod 4) + of_char b div 16 < (64 :: nat)"
    "4 * (of_char b mod 16) < (64 :: nat)" by linarith+
  with 3 show ?case by (simp add: Let_def b64_clean_simps)
next
  case (4 a b c' rest)
  have "(of_char a :: nat) < 256" "(of_char b :: nat) < 256" "(of_char c' :: nat) < 256" by (rule of_char_256)+
  then have "of_char a div 4 < (64 :: nat)" "16 * (of_char a mod 4) + of_char b div 16 < (64 :: nat)"
    "4 * (of_char b mod 16) + of_char c' div 64 < (64 :: nat)" "of_char c' mod 64 < (64 :: nat)" by linarith+
  with 4 show ?case by (simp add: Let_def b64_clean_simps)
qed simp

lemma b64_encode_no_outer_space: "no_outer_space (b64_encode s)"
  using b64_encode_clean [of s] by (auto simp: no_outer_space_def list_all_iff b64_clean_def)

lemma b64_roundtrip: "b64_decode (b64_encode s) = Some s"
proof -
  have "filter (\<lambda>c. of_char c \<noteq> (10 :: nat) \<and> of_char c \<noteq> (13 :: nat)) (b64_encode s) = b64_encode s"
    using b64_encode_clean [of s] by (auto simp: filter_id_conv list_all_iff b64_clean_def)
  then show ?thesis by (simp add: b64_decode_def b64_groups_encode)
qed

section \<open>Base 32 and hexadecimal\<close>

definition b32_alphabet :: string where
  "b32_alphabet = ''ABCDEFGHIJKLMNOPQRSTUVWXYZ234567''"

definition byte_bits :: "char \<Rightarrow> bool list" where
  "byte_bits c = map (\<lambda>i. odd ((of_char c :: nat) div 2 ^ (7 - i))) [0..<8]"

fun five_bits :: "bool list \<Rightarrow> bool list list" where
  "five_bits (a # b # c # d # e # rest) = [a, b, c, d, e] # five_bits rest"
| "five_bits [] = []"
| "five_bits bs = [take 5 (bs @ replicate 5 False)]"

definition bits_nat :: "bool list \<Rightarrow> nat" where
  "bits_nat bs = fold (\<lambda>b n. 2 * n + (if b then 1 else 0)) bs 0"

definition b32_encode :: "string \<Rightarrow> string" where
  "b32_encode s = map (\<lambda>g. b32_alphabet ! bits_nat g) (five_bits (concat (map byte_bits s)))"

lemma length_five_bits: "length (five_bits bs) = (length bs + 4) div 5"
  by (induction bs rule: five_bits.induct) auto

lemma length_b32_encode: "length (b32_encode s) = (8 * length s + 4) div 5"
proof -
  have "length (concat (map byte_bits s)) = 8 * length s"
    by (induction s) (simp_all add: byte_bits_def)
  then show ?thesis by (simp add: b32_encode_def length_five_bits)
qed

definition hex_digit :: "nat \<Rightarrow> char" where
  "hex_digit n = ''0123456789abcdef'' ! n"

definition hex_encode :: "string \<Rightarrow> string" where
  "hex_encode s = concat (map (\<lambda>c. [hex_digit (of_char c div 16), hex_digit (of_char c mod 16)]) s)"

lemma length_hex_encode [simp]: "length (hex_encode s) = 2 * length s"
  by (induction s) (simp_all add: hex_encode_def)

section \<open>SHA-256\<close>

type_synonym w32 = "32 word"

definition rotr :: "nat \<Rightarrow> w32 \<Rightarrow> w32" where
  "rotr n x = (drop_bit n x) OR (push_bit (32 - n) x)"

text \<open>The round constants and the initial state, in decimal.\<close>

definition sha_k :: "w32 list" where
  "sha_k =
    [1116352408, 1899447441, 3049323471, 3921009573, 961987163, 1508970993, 2453635748, 2870763221,
     3624381080, 310598401, 607225278, 1426881987, 1925078388, 2162078206, 2614888103, 3248222580,
     3835390401, 4022224774, 264347078, 604807628, 770255983, 1249150122, 1555081692, 1996064986,
     2554220882, 2821834349, 2952996808, 3210313671, 3336571891, 3584528711, 113926993, 338241895,
     666307205, 773529912, 1294757372, 1396182291, 1695183700, 1986661051, 2177026350, 2456956037,
     2730485921, 2820302411, 3259730800, 3345764771, 3516065817, 3600352804, 4094571909, 275423344,
     430227734, 506948616, 659060556, 883997877, 958139571, 1322822218, 1537002063, 1747873779,
     1955562222, 2024104815, 2227730452, 2361852424, 2428436474, 2756734187, 3204031479, 3329325298]"

type_synonym sha_state = "w32 \<times> w32 \<times> w32 \<times> w32 \<times> w32 \<times> w32 \<times> w32 \<times> w32"

definition sha_init :: sha_state where
  "sha_init = (1779033703, 3144134277, 1013904242, 2773480762, 1359893119, 2600822924, 528734635, 1541459225)"

fun be_bytes :: "nat \<Rightarrow> nat \<Rightarrow> string" where
  "be_bytes 0 n = []"
| "be_bytes (Suc k) n = be_bytes k (n div 256) @ [char_of (n mod 256)]"

definition sha_pad :: "string \<Rightarrow> string" where
  "sha_pad m = m @ [char_of (128 :: nat)] @ replicate ((119 - length m mod 64) mod 64) (char_of (0 :: nat))
     @ be_bytes 8 (8 * length m)"

fun be_words :: "string \<Rightarrow> w32 list" where
  "be_words (a # b # c # d # rest) =
     of_nat (((of_char a * 256 + of_char b) * 256 + of_char c) * 256 + of_char d) # be_words rest"
| "be_words _ = []"

text \<open>The message schedule, kept newest first.\<close>

fun sha_extend :: "nat \<Rightarrow> w32 list \<Rightarrow> w32 list" where
  "sha_extend 0 w = w"
| "sha_extend (Suc n) w =
     (let s0 = (let x = w ! 14 in rotr 7 x XOR rotr 18 x XOR drop_bit 3 x);
          s1 = (let x = w ! 1 in rotr 17 x XOR rotr 19 x XOR drop_bit 10 x)
      in sha_extend n ((w ! 15 + s0 + w ! 6 + s1) # w))"

definition sha_round :: "w32 \<times> w32 \<Rightarrow> sha_state \<Rightarrow> sha_state" where
  "sha_round = (\<lambda>(k, w) (a, b, c, d, e, f, g, h).
     let s1 = rotr 6 e XOR rotr 11 e XOR rotr 25 e;
         ch = (e AND f) XOR ((NOT e) AND g);
         t1 = h + s1 + ch + k + w;
         s0 = rotr 2 a XOR rotr 13 a XOR rotr 22 a;
         maj = (a AND b) XOR (a AND c) XOR (b AND c);
         t2 = s0 + maj
     in (t1 + t2, a, b, c, d + t1, e, f, g))"

definition sha_block :: "w32 list \<Rightarrow> sha_state \<Rightarrow> sha_state" where
  "sha_block ws st =
     (let (a, b, c, d, e, f, g, h) = st;
          (a', b', c', d', e', f', g', h') = fold sha_round (zip sha_k (rev (sha_extend 48 (rev ws)))) st
      in (a + a', b + b', c + c', d + d', e + e', f + f', g + g', h + h'))"

fun sha_blocks :: "nat \<Rightarrow> w32 list \<Rightarrow> sha_state \<Rightarrow> sha_state" where
  "sha_blocks 0 ws st = st"
| "sha_blocks (Suc n) ws st = sha_blocks n (drop 16 ws) (sha_block (take 16 ws) st)"

definition sha256 :: "string \<Rightarrow> string" where
  "sha256 m =
     (let ws = be_words (sha_pad m);
          (a, b, c, d, e, f, g, h) = sha_blocks (length ws div 16) ws sha_init
      in concat (map (\<lambda>x. be_bytes 4 (unat x)) [a, b, c, d, e, f, g, h]))"

lemma length_be_bytes [simp]: "length (be_bytes k n) = k"
  by (induction k arbitrary: n) simp_all

lemma length_sha256: "length (sha256 m) = 32"
  by (simp add: sha256_def Let_def split: prod.split)

end
