(* ===== verification/Accounts.thy ===== *)
theory Accounts
  imports Database Encodings "HOL-Library.List_Lexorder" "HOL-Library.Char_ord"
begin

text \<open>
  Tenants and memberships (\<open>internal/tenants/tenants.go\<close>), users (\<open>internal/users/users.go\<close>) and
  access tokens (\<open>internal/tokens/tokens.go\<close>). The operations keep their Go names behind the
  package name. \<open>verify\<close> is \<open>VerifyHash\<close>, the Argon2 check of a third-party package; \<open>rb\<close> the
  bytes read from \<open>crypto/rand\<close>; \<open>now\<close> the wall clock in seconds.
\<close>

section \<open>Tenants\<close>

definition VisibilityPrivate :: int where "VisibilityPrivate = 0"
definition VisibilityPublic :: int where "VisibilityPublic = 1"
definition RoleReader :: int where "RoleReader = 0"
definition RoleWriter :: int where "RoleWriter = 1"
definition RoleTenantAdmin :: int where "RoleTenantAdmin = 2"

definition mk_tenant :: "string \<times> int \<times> int \<Rightarrow> int \<Rightarrow> tenant" where
  "mk_tenant = (\<lambda>(name, vis, now) i.
     \<lparr>ten_ID = i, ten_Name = name, ten_LowerName = to_lower name, ten_Visibility = vis,
      ten_CreatedUnix = now, ten_audit_reads = 0, ten_audit_retention_days = 90\<rparr>)"

definition tenants_Create :: "int \<Rightarrow> string \<Rightarrow> int \<Rightarrow> db \<Rightarrow> db \<times> (go_error, tenant) result" where
  "tenants_Create now name vis d =
     (case insert_unique ten_LowerName (mk_tenant (name, vis, now)) (db_tenants d) of
        None \<Rightarrow> (d, Inl ErrTenantDuplicate)
      | Some (t, tb) \<Rightarrow> (d\<lparr>db_tenants := tb\<rparr>, Inr t))"

definition tenants_GetByName :: "db \<Rightarrow> string \<Rightarrow> (go_error, tenant) result" where
  "tenants_GetByName d name =
     (case select_one (\<lambda>t. ten_LowerName t = to_lower name) (db_tenants d) of
        None \<Rightarrow> Inl ErrTenantNotExist | Some t \<Rightarrow> Inr t)"

definition tenants_GetByID :: "db \<Rightarrow> int \<Rightarrow> (go_error, tenant) result" where
  "tenants_GetByID d i =
     (case select_one (\<lambda>t. ten_ID t = i) (db_tenants d) of
        None \<Rightarrow> Inl ErrTenantNotExist | Some t \<Rightarrow> Inr t)"

definition tenants_List :: "db \<Rightarrow> tenant list" where
  "tenants_List d = sort_key ten_LowerName (rows (db_tenants d))"

definition AddMember :: "int \<Rightarrow> int \<Rightarrow> int \<Rightarrow> db \<Rightarrow> db \<times> (go_error, unit) result" where
  "AddMember tenantID userID role d =
     (if \<not> tenant_exists d tenantID \<or> \<not> user_exists d userID then (d, Inl ErrForeignKey)
      else if \<exists>m \<in> set (db_members d). mem_TenantID m = tenantID \<and> mem_UserID m = userID then
        (d\<lparr>db_members := map (\<lambda>m. if mem_TenantID m = tenantID \<and> mem_UserID m = userID
                                  then m\<lparr>mem_Role := role\<rparr> else m) (db_members d)\<rparr>, Inr ())
      else (d\<lparr>db_members := db_members d @ [\<lparr>mem_TenantID = tenantID, mem_UserID = userID, mem_Role = role\<rparr>]\<rparr>,
            Inr ()))"

definition SetVisibility :: "int \<Rightarrow> int \<Rightarrow> db \<Rightarrow> db" where
  "SetVisibility tenantID vis d =
     d\<lparr>db_tenants := update_where (\<lambda>t. ten_ID t = tenantID) (\<lambda>t. t\<lparr>ten_Visibility := vis\<rparr>) (db_tenants d)\<rparr>"

definition AuditReadsEnabled :: "db \<Rightarrow> int \<Rightarrow> bool" where
  "AuditReadsEnabled d tenantID =
     (if tenantID = 0 then False
      else case select_one (\<lambda>t. ten_ID t = tenantID) (db_tenants d) of
          None \<Rightarrow> False
        | Some t \<Rightarrow> ten_audit_reads t \<noteq> 0)"

definition ResolveTenantID :: "db \<Rightarrow> string \<Rightarrow> (go_error, int) result" where
  "ResolveTenantID d name = bind_result (tenants_GetByName d name) (\<lambda>t. Inr (ten_ID t))"

definition Memberships :: "db \<Rightarrow> int \<Rightarrow> int \<Rightarrow> int option" where
  "Memberships d userID =
     map_of (map (\<lambda>m. (mem_TenantID m, mem_Role m)) (filter (\<lambda>m. mem_UserID m = userID) (db_members d)))"

definition tenants_Count :: "db \<Rightarrow> nat" where
  "tenants_Count d = length (rows (db_tenants d))"

record member_view =
  mv_TenantID :: int
  mv_UserID :: int
  mv_UserName :: string
  mv_UserEmail :: "string option"
  mv_IsAdmin :: bool
  mv_Role :: int

definition ListMembers :: "db \<Rightarrow> int \<Rightarrow> member_view list" where
  "ListMembers d tenantID =
     map (\<lambda>(m, u). \<lparr>mv_TenantID = mem_TenantID m, mv_UserID = mem_UserID m, mv_UserName = usr_Name u,
            mv_UserEmail = usr_Email u, mv_IsAdmin = usr_IsAdmin u, mv_Role = mem_Role m\<rparr>)
       (sort_key (\<lambda>(m, u). usr_LowerName u)
         [(m, u). m \<leftarrow> db_members d, mem_TenantID m = tenantID, u \<leftarrow> rows (db_users d), usr_ID u = mem_UserID m])"

definition RemoveMember :: "int \<Rightarrow> int \<Rightarrow> db \<Rightarrow> db" where
  "RemoveMember tenantID userID d =
     d\<lparr>db_members := filter (\<lambda>m. \<not> (mem_TenantID m = tenantID \<and> mem_UserID m = userID)) (db_members d)\<rparr>"

section \<open>Users\<close>

definition KindHuman :: int where "KindHuman = 0"
definition KindService :: int where "KindService = 1"

record user_options =
  uo_Name :: string
  uo_Kind :: int
  uo_Email :: string
  uo_IsAdmin :: bool
  uo_ExternalProvider :: string
  uo_ExternalSubject :: string

definition nullString :: "string \<Rightarrow> string option" where
  "nullString s = (if s = [] then None else Some s)"

definition mk_user :: "user_options \<times> int \<Rightarrow> int \<Rightarrow> user" where
  "mk_user = (\<lambda>(opts, now) i.
     \<lparr>usr_ID = i, usr_Name = uo_Name opts, usr_LowerName = to_lower (uo_Name opts), usr_Kind = uo_Kind opts,
      usr_Email = nullString (uo_Email opts), usr_IsAdmin = uo_IsAdmin opts,
      usr_ExternalProvider = nullString (uo_ExternalProvider opts),
      usr_ExternalSubject = nullString (uo_ExternalSubject opts),
      usr_CreatedUnix = now, usr_LastSeenUnix = 0, usr_password_hash = None, usr_password_set_unix = None\<rparr>)"

text \<open>The partial unique index on the identity-provider columns; two \<open>NULL\<close>s never collide.\<close>

definition external_taken :: "db \<Rightarrow> user_options \<Rightarrow> bool" where
  "external_taken d opts \<longleftrightarrow> uo_ExternalProvider opts \<noteq> [] \<and> uo_ExternalSubject opts \<noteq> [] \<and>
     (\<exists>u \<in> set (rows (db_users d)). usr_ExternalProvider u = Some (uo_ExternalProvider opts)
        \<and> usr_ExternalSubject u = Some (uo_ExternalSubject opts))"

definition users_GetByID :: "db \<Rightarrow> int \<Rightarrow> (go_error, user) result" where
  "users_GetByID d i =
     (case select_one (\<lambda>u. usr_ID u = i) (db_users d) of None \<Rightarrow> Inl ErrUserNotExist | Some u \<Rightarrow> Inr u)"

definition users_Create :: "int \<Rightarrow> user_options \<Rightarrow> db \<Rightarrow> db \<times> (go_error, user) result" where
  "users_Create now opts d =
     (case insert_unique usr_LowerName (mk_user (opts, now)) (db_users d) of
        None \<Rightarrow> (d, Inl ErrUserDuplicate)
      | Some (u, tb) \<Rightarrow>
          (if external_taken d opts then (d, Inl ErrUserDuplicate)
           else (let d' = d\<lparr>db_users := tb\<rparr> in (d', users_GetByID d' (usr_ID u)))))"

definition users_GetByName :: "db \<Rightarrow> string \<Rightarrow> (go_error, user) result" where
  "users_GetByName d name =
     (case select_one (\<lambda>u. usr_LowerName u = to_lower name) (db_users d) of
        None \<Rightarrow> Inl ErrUserNotExist | Some u \<Rightarrow> Inr u)"

definition GetByExternal :: "db \<Rightarrow> string \<Rightarrow> string \<Rightarrow> (go_error, user) result" where
  "GetByExternal d provider subject =
     (case select_one (\<lambda>u. usr_ExternalProvider u = Some provider \<and> usr_ExternalSubject u = Some subject)
             (db_users d) of
        None \<Rightarrow> Inl ErrUserNotExist | Some u \<Rightarrow> Inr u)"

definition TouchLastSeen :: "int \<Rightarrow> int \<Rightarrow> db \<Rightarrow> db" where
  "TouchLastSeen now i d =
     d\<lparr>db_users := update_where (\<lambda>u. usr_ID u = i) (\<lambda>u. u\<lparr>usr_LastSeenUnix := now\<rparr>) (db_users d)\<rparr>"

definition users_GetOrCreate :: "int \<Rightarrow> string \<Rightarrow> string \<Rightarrow> db \<Rightarrow> db \<times> (go_error, user) result" where
  "users_GetOrCreate now name email d =
     (if name = [] then (d, Inl (ErrText ''user name is empty''))
      else case users_GetByName d name of
          Inr u \<Rightarrow> (d, Inr u)
        | Inl e \<Rightarrow>
            (if e \<noteq> ErrUserNotExist then (d, Inl e)
             else case users_Create now \<lparr>uo_Name = name, uo_Kind = KindHuman, uo_Email = email,
                      uo_IsAdmin = False, uo_ExternalProvider = [], uo_ExternalSubject = []\<rparr> d of
                 (d', Inr u) \<Rightarrow> (d', Inr u)
               | (d', Inl e) \<Rightarrow> (if e = ErrUserDuplicate then (d', users_GetByName d' name) else (d', Inl e))))"

definition update_user :: "int \<Rightarrow> (user \<Rightarrow> user) \<Rightarrow> db \<Rightarrow> db \<times> (go_error, unit) result" where
  "update_user i f d =
     (d\<lparr>db_users := update_where (\<lambda>u. usr_ID u = i) f (db_users d)\<rparr>,
      if rows_affected (\<lambda>u. usr_ID u = i) (db_users d) = 0 then Inl ErrUserNotExist else Inr ())"

definition SetPasswordHash :: "int \<Rightarrow> int \<Rightarrow> string \<Rightarrow> db \<Rightarrow> db \<times> (go_error, unit) result" where
  "SetPasswordHash now i hashed d =
     (if hashed = [] then (d, Inl (ErrText ''password hash is empty''))
      else update_user i (\<lambda>u. u\<lparr>usr_password_hash := Some hashed, usr_password_set_unix := Some now\<rparr>) d)"

definition ClearPassword :: "int \<Rightarrow> db \<Rightarrow> db \<times> (go_error, unit) result" where
  "ClearPassword i d = update_user i (\<lambda>u. u\<lparr>usr_password_hash := None, usr_password_set_unix := None\<rparr>) d"

definition VerifyPassword :: "(string \<Rightarrow> string \<Rightarrow> (go_error, unit) result) \<Rightarrow> db \<Rightarrow> string \<Rightarrow> string
    \<Rightarrow> (go_error, user) result" where
  "VerifyPassword verify d name plaintext =
     (case users_GetByName d name of
        Inl e \<Rightarrow> Inl e
      | Inr u \<Rightarrow>
          (case select_one (\<lambda>x. usr_ID x = usr_ID u) (db_users d) of
             None \<Rightarrow> Inl ErrUserNotExist
           | Some row \<Rightarrow>
               (case usr_password_hash row of
                  None \<Rightarrow> Inl ErrNoPassword
                | Some hash \<Rightarrow>
                    (if hash = [] then Inl ErrNoPassword
                     else case verify hash plaintext of Inl e \<Rightarrow> Inl e | Inr _ \<Rightarrow> Inr u))))"

section \<open>Tokens\<close>

definition ScopeRead :: string where "ScopeRead = ''read''"
definition ScopeWrite :: string where "ScopeWrite = ''write''"
definition ScopeAdmin :: string where "ScopeAdmin = ''admin''"

definition token_prefix :: string where "token_prefix = ''pkm_''"

definition randomLen :: nat where "randomLen = 32"

record token =
  tok_ID :: int
  tok_UserID :: int
  tok_Name :: string
  tok_Hash :: string
  tok_Scopes :: "string list"
  tok_TenantScope :: "int option"
  tok_CreatedUnix :: int
  tok_LastUsedUnix :: int
  tok_ExpiresUnix :: int

record token_options =
  to_UserID :: int
  to_Name :: string
  to_Scopes :: "string list"
  to_TenantScope :: int
  to_ExpiresUnix :: int

definition Hash :: "string \<Rightarrow> string" where
  "Hash plaintext = hex_encode (sha256 plaintext)"

definition generate :: "string \<Rightarrow> (go_error, string) result" where
  "generate rb =
     (let body = to_lower (b32_encode rb) in
      if length body \<noteq> randomLen then Inl (ErrText ''tokens.generate: unexpected length'')
      else Inr (token_prefix @ body))"

definition scopesCSV :: "string list \<Rightarrow> string" where
  "scopesCSV scopes = (if scopes = [] then [] else join_with CHR '','' scopes)"

definition parseScopes :: "string \<Rightarrow> string list" where
  "parseScopes csv =
     (if csv = [] then [] else filter (\<lambda>p. p \<noteq> []) (map trim_space (split_on CHR '','' csv)))"

text \<open>The scopes as \<open>ListByUser\<close> and \<open>GetByID\<close> read them: empty parts are kept.\<close>

definition split_scopes :: "string \<Rightarrow> string list" where
  "split_scopes csv = (if csv = [] then [] else map trim_space (split_on CHR '','' csv))"

definition scan_token :: "(string \<Rightarrow> string list) \<Rightarrow> token_row \<Rightarrow> token" where
  "scan_token sc r =
     \<lparr>tok_ID = tkr_ID r, tok_UserID = tkr_UserID r, tok_Name = tkr_Name r, tok_Hash = tkr_Hash r,
      tok_Scopes = sc (tkr_Scopes r), tok_TenantScope = tkr_TenantScope r, tok_CreatedUnix = tkr_CreatedUnix r,
      tok_LastUsedUnix = tkr_LastUsedUnix r, tok_ExpiresUnix = tkr_ExpiresUnix r\<rparr>"

definition mk_token_row :: "token_options \<times> string \<times> int \<Rightarrow> int \<Rightarrow> token_row" where
  "mk_token_row = (\<lambda>(opts, plaintext, now) i.
     \<lparr>tkr_ID = i, tkr_UserID = to_UserID opts, tkr_Name = to_Name opts, tkr_Hash = Hash plaintext,
      tkr_Scopes = scopesCSV (to_Scopes opts),
      tkr_TenantScope = (if to_TenantScope opts > 0 then Some (to_TenantScope opts) else None),
      tkr_CreatedUnix = now, tkr_LastUsedUnix = 0, tkr_ExpiresUnix = to_ExpiresUnix opts\<rparr>)"

definition persist :: "int \<Rightarrow> token_options \<Rightarrow> string \<Rightarrow> db \<Rightarrow> db \<times> (go_error, string \<times> token) result" where
  "persist now opts plaintext d =
     (case insert_unique tkr_Hash (mk_token_row (opts, plaintext, now)) (db_tokens d) of
        None \<Rightarrow> (d, Inl ErrUnique)
      | Some (r, tb) \<Rightarrow>
          (if user_exists d (to_UserID opts) \<and> (to_TenantScope opts > 0 \<longrightarrow> tenant_exists d (to_TenantScope opts))
           then (d\<lparr>db_tokens := tb\<rparr>, Inr (plaintext, (scan_token parseScopes r)\<lparr>tok_Scopes := to_Scopes opts\<rparr>))
           else (d, Inl ErrForeignKey)))"

definition Issue :: "string \<Rightarrow> int \<Rightarrow> token_options \<Rightarrow> db \<Rightarrow> db \<times> (go_error, string \<times> token) result" where
  "Issue rb now opts d =
     (if to_UserID opts = 0 then (d, Inl (ErrText ''tokens.Issue: UserID is required''))
      else if to_Scopes opts = [] then (d, Inl (ErrText ''tokens.Issue: at least one scope is required''))
      else case generate rb of Inl e \<Rightarrow> (d, Inl e) | Inr plaintext \<Rightarrow> persist now opts plaintext d)"

definition IssueWithPlaintext :: "int \<Rightarrow> token_options \<Rightarrow> string \<Rightarrow> db \<Rightarrow> db \<times> (go_error, token) result" where
  "IssueWithPlaintext now opts plaintext d =
     (if \<not> has_prefix plaintext token_prefix
      then (d, Inl (ErrText ''tokens.IssueWithPlaintext: token must start with pkm_''))
      else case persist now opts plaintext d of
          (d', Inl e) \<Rightarrow> (d', Inl e)
        | (d', Inr (_, t)) \<Rightarrow> (d', Inr t))"

definition tokens_Lookup :: "int \<Rightarrow> db \<Rightarrow> string \<Rightarrow> (go_error, token) result" where
  "tokens_Lookup now d plaintext =
     (case select_one (\<lambda>r. tkr_Hash r = Hash plaintext) (db_tokens d) of
        None \<Rightarrow> Inl ErrTokenNotExist
      | Some r \<Rightarrow>
          (let t = scan_token parseScopes r in
           if tok_ExpiresUnix t \<noteq> 0 \<and> tok_ExpiresUnix t < now then Inl ErrTokenExpired else Inr t))"

definition TouchLastUsed :: "int \<Rightarrow> int \<Rightarrow> db \<Rightarrow> db" where
  "TouchLastUsed now i d =
     d\<lparr>db_tokens := update_where (\<lambda>r. tkr_ID r = i) (\<lambda>r. r\<lparr>tkr_LastUsedUnix := now\<rparr>) (db_tokens d)\<rparr>"

definition CountByUser :: "db \<Rightarrow> int \<Rightarrow> nat" where
  "CountByUser d userID = length (select_all (\<lambda>r. tkr_UserID r = userID) (db_tokens d))"

definition ListByUser :: "db \<Rightarrow> int \<Rightarrow> token list" where
  "ListByUser d userID =
     map (scan_token split_scopes)
       (sort_key (\<lambda>r. - tkr_CreatedUnix r) (select_all (\<lambda>r. tkr_UserID r = userID) (db_tokens d)))"

definition Revoke :: "int \<Rightarrow> db \<Rightarrow> db \<times> (go_error, unit) result" where
  "Revoke tokenID d =
     (d\<lparr>db_tokens := delete_where (\<lambda>r. tkr_ID r = tokenID) (db_tokens d)\<rparr>,
      if rows_affected (\<lambda>r. tkr_ID r = tokenID) (db_tokens d) = 0 then Inl ErrTokenNotExist else Inr ())"

definition tokens_GetByID :: "db \<Rightarrow> int \<Rightarrow> (go_error, token) result" where
  "tokens_GetByID d i =
     (case select_one (\<lambda>r. tkr_ID r = i) (db_tokens d) of
        None \<Rightarrow> Inl ErrTokenNotExist
      | Some r \<Rightarrow> Inr (scan_token split_scopes r))"

definition HasScope :: "token \<Rightarrow> string \<Rightarrow> bool" where
  "HasScope t s = list_ex (\<lambda>x. x = s) (tok_Scopes t)"

end
