(* ===== verification/Accounts_Laws.thy ===== *)
theory Accounts_Laws
  imports Accounts
begin

text \<open>
  Well-formedness of the account tables, kept by every operation of the tenant, user and token
  stores, and what a lookup returns after a write.
\<close>

interpretation tenant_rows: keyed_rows ten_ID ten_LowerName mk_tenant
  by unfold_locales (auto simp: mk_tenant_def split: prod.split)

interpretation user_rows: keyed_rows usr_ID usr_LowerName mk_user
  by unfold_locales (auto simp: mk_user_def split: prod.split)

interpretation token_rows: keyed_rows tkr_ID tkr_Hash mk_token_row
  by unfold_locales (auto simp: mk_token_row_def split: prod.split)

definition mem_key :: "tenant_member \<Rightarrow> int \<times> int" where
  "mem_key m = (mem_TenantID m, mem_UserID m)"

definition accounts_ok :: "db \<Rightarrow> bool" where
  "accounts_ok d \<longleftrightarrow>
     table_ok ten_ID ten_LowerName (db_tenants d)
   \<and> table_ok usr_ID usr_LowerName (db_users d)
   \<and> table_ok tkr_ID tkr_Hash (db_tokens d)
   \<and> distinct (map mem_key (db_members d))
   \<and> (\<forall>m \<in> set (db_members d). tenant_exists d (mem_TenantID m) \<and> user_exists d (mem_UserID m))
   \<and> (\<forall>r \<in> set (rows (db_tokens d)). user_exists d (tkr_UserID r))
   \<and> (\<forall>r \<in> set (rows (db_tokens d)). \<forall>t. tkr_TenantScope r = Some t \<longrightarrow> tenant_exists d t)"

lemma accounts_okD:
  assumes "accounts_ok d"
  shows "table_ok ten_ID ten_LowerName (db_tenants d)" "table_ok usr_ID usr_LowerName (db_users d)"
    "table_ok tkr_ID tkr_Hash (db_tokens d)" "distinct (map mem_key (db_members d))"
    "r \<in> set (rows (db_tokens d)) \<Longrightarrow> user_exists d (tkr_UserID r)"
  using assms by (auto simp: accounts_ok_def)

lemma accounts_ok_fresh [simp]: "accounts_ok (fresh_db now)"
  by (simp add: accounts_ok_def fresh_db_def table_ok_def default_tenant_row_def)

lemma accounts_ok_tenants:
  "accounts_ok d \<Longrightarrow> table_ok ten_ID ten_LowerName tb \<Longrightarrow>
   ten_ID ` set (rows (db_tenants d)) \<subseteq> ten_ID ` set (rows tb) \<Longrightarrow> accounts_ok (d\<lparr>db_tenants := tb\<rparr>)"
  by (auto simp: accounts_ok_def tenant_exists_def user_exists_def subset_iff)

lemma accounts_ok_users:
  "accounts_ok d \<Longrightarrow> table_ok usr_ID usr_LowerName tb \<Longrightarrow>
   usr_ID ` set (rows (db_users d)) \<subseteq> usr_ID ` set (rows tb) \<Longrightarrow> accounts_ok (d\<lparr>db_users := tb\<rparr>)"
  by (auto simp: accounts_ok_def tenant_exists_def user_exists_def subset_iff)

lemma accounts_ok_tokens:
  "accounts_ok d \<Longrightarrow> table_ok tkr_ID tkr_Hash tb \<Longrightarrow>
   (\<And>r. r \<in> set (rows tb) \<Longrightarrow> user_exists d (tkr_UserID r)) \<Longrightarrow>
   (\<And>r t. r \<in> set (rows tb) \<Longrightarrow> tkr_TenantScope r = Some t \<Longrightarrow> tenant_exists d t) \<Longrightarrow>
   accounts_ok (d\<lparr>db_tokens := tb\<rparr>)"
  by (auto simp: accounts_ok_def tenant_exists_def user_exists_def)

lemma tenants_Create_accounts_ok [ok_intros]:
  assumes "accounts_ok d"
  shows "accounts_ok (fst (tenants_Create now name vis d))"
proof (cases "insert_unique ten_LowerName (mk_tenant (name, vis, now)) (db_tenants d)")
  case (Some rt)
  obtain r tb where rt: "rt = (r, tb)" by (cases rt)
  note ins = Some [unfolded rt]
  show ?thesis
    using assms ins tenant_rows.insert_ok [OF accounts_okD(1) ins] tenant_rows.insert_SomeD(2) [OF ins]
    by (auto simp: tenants_Create_def intro!: accounts_ok_tenants)
qed (use assms in \<open>simp add: tenants_Create_def\<close>)

lemma SetVisibility_accounts_ok [ok_intros]:
  assumes "accounts_ok d"
  shows "accounts_ok (SetVisibility i v d)"
  unfolding SetVisibility_def
  using assms accounts_okD(1) [OF assms]
  by (intro accounts_ok_tenants) (auto simp: update_where_image simp del: rows_update_where)

lemma AddMember_accounts_ok [ok_intros]:
  assumes "accounts_ok d"
  shows "accounts_ok (fst (AddMember t u role d))"
proof -
  let ?f = "\<lambda>m. if mem_TenantID m = t \<and> mem_UserID m = u then m\<lparr>mem_Role := role\<rparr> else m"
  have keys: "map mem_key (map ?f ms) = map mem_key ms" for ms
    by (simp add: mem_key_def)
  have "distinct (map mem_key (map ?f (db_members d)))"
    unfolding keys by (rule accounts_okD(4) [OF assms])
  then show ?thesis
    using assms unfolding AddMember_def
    by (auto simp: accounts_ok_def tenant_exists_def user_exists_def mem_key_def)
qed

lemma RemoveMember_accounts_ok [ok_intros]: "accounts_ok d \<Longrightarrow> accounts_ok (RemoveMember t u d)"
  by (auto simp: RemoveMember_def accounts_ok_def tenant_exists_def user_exists_def distinct_map inj_on_def)

lemma users_Create_accounts_ok [ok_intros]:
  assumes "accounts_ok d"
  shows "accounts_ok (fst (users_Create now opts d))"
proof (cases "insert_unique usr_LowerName (mk_user (opts, now)) (db_users d)")
  case (Some rt)
  obtain r tb where rt: "rt = (r, tb)" by (cases rt)
  note ins = Some [unfolded rt]
  show ?thesis
    using assms ins user_rows.insert_ok [OF accounts_okD(2) ins] user_rows.insert_SomeD(2) [OF ins]
    by (auto simp: users_Create_def Let_def intro!: accounts_ok_users)
qed (use assms in \<open>simp add: users_Create_def\<close>)

lemma users_GetOrCreate_accounts_ok [ok_intros]:
  assumes "accounts_ok d"
  shows "accounts_ok (fst (users_GetOrCreate now name email d))"
  using users_Create_accounts_ok [OF assms]
  by (auto simp: users_GetOrCreate_def assms split: sum.split prod.split) (metis fst_conv)+

lemma update_users_accounts_ok:
  assumes "accounts_ok d" and "\<And>u. usr_ID (f u) = usr_ID u" and "\<And>u. usr_LowerName (f u) = usr_LowerName u"
  shows "accounts_ok (d\<lparr>db_users := update_where P f (db_users d)\<rparr>)"
  using assms accounts_okD(2) [OF assms(1)]
  by (intro accounts_ok_users) (auto simp: update_where_image simp del: rows_update_where)

lemma SetPasswordHash_accounts_ok [ok_intros]: "accounts_ok d \<Longrightarrow> accounts_ok (fst (SetPasswordHash now i h d))"
  by (simp add: SetPasswordHash_def update_user_def update_users_accounts_ok)

lemma ClearPassword_accounts_ok [ok_intros]: "accounts_ok d \<Longrightarrow> accounts_ok (fst (ClearPassword i d))"
  by (simp add: ClearPassword_def update_user_def update_users_accounts_ok)

lemma TouchLastSeen_accounts_ok [ok_intros]: "accounts_ok d \<Longrightarrow> accounts_ok (TouchLastSeen now i d)"
  by (simp add: TouchLastSeen_def update_users_accounts_ok)

lemma persist_accounts_ok [ok_intros]:
  assumes "accounts_ok d"
  shows "accounts_ok (fst (persist now opts plaintext d))"
proof (cases "insert_unique tkr_Hash (mk_token_row (opts, plaintext, now)) (db_tokens d)")
  case (Some rt)
  obtain r tb where rt: "rt = (r, tb)" by (cases rt)
  note ins = Some [unfolded rt]
  have "tkr_UserID r = to_UserID opts"
    "tkr_TenantScope r = (if to_TenantScope opts > 0 then Some (to_TenantScope opts) else None)"
    using token_rows.insert_SomeD(1) [OF ins] by (simp_all add: mk_token_row_def)
  then show ?thesis
    using assms ins token_rows.insert_ok [OF accounts_okD(3) [OF assms] ins] token_rows.insert_SomeD(2) [OF ins]
    by (auto simp: persist_def accounts_ok_def tenant_exists_def user_exists_def split: if_splits)
qed (use assms in \<open>simp add: persist_def\<close>)

lemma Issue_accounts_ok [ok_intros]: "accounts_ok d \<Longrightarrow> accounts_ok (fst (Issue rb now opts d))"
  by (auto simp: Issue_def persist_accounts_ok split: sum.split)

lemma IssueWithPlaintext_accounts_ok [ok_intros]:
  "accounts_ok d \<Longrightarrow> accounts_ok (fst (IssueWithPlaintext now opts pt d))"
  using persist_accounts_ok [of d now opts pt]
  by (auto simp: IssueWithPlaintext_def split: sum.split prod.split)

lemma TouchLastUsed_accounts_ok [ok_intros]:
  assumes "accounts_ok d"
  shows "accounts_ok (TouchLastUsed now i d)"
proof -
  have "table_ok tkr_ID tkr_Hash (db_tokens (TouchLastUsed now i d))"
    using accounts_okD(3) [OF assms] by (auto simp: TouchLastUsed_def simp del: rows_update_where)
  then show ?thesis
    using assms by (auto simp: TouchLastUsed_def accounts_ok_def tenant_exists_def user_exists_def)
qed

lemma Revoke_accounts_ok [ok_intros]: "accounts_ok d \<Longrightarrow> accounts_ok (fst (Revoke i d))"
  by (auto simp: Revoke_def accounts_ok_def tenant_exists_def user_exists_def table_ok_delete)

section \<open>Lookups after writes\<close>

lemma scopes_roundtrip:
  assumes "\<And>s. s \<in> set ss \<Longrightarrow> s \<noteq> [] \<and> CHR '','' \<notin> set s \<and> no_outer_space s"
  shows "parseScopes (scopesCSV ss) = ss"
proof (cases ss)
  case Nil
  then show ?thesis by (simp add: scopesCSV_def parseScopes_def)
next
  case (Cons s rest)
  then have "s \<noteq> []" using assms by auto
  then have ne: "join_with CHR '','' ss \<noteq> []"
    using Cons by (cases rest) auto
  have split: "split_on CHR '','' (join_with CHR '','' ss) = ss"
    using Cons assms by (intro split_on_join) auto
  have "map trim_space ss = ss"
    using assms by (intro map_idI) (simp add: trim_space_clean)
  then show ?thesis
    using Cons ne split assms by (simp add: scopesCSV_def parseScopes_def filter_id_conv)
qed

lemma generate_length: "length rb = 20 \<Longrightarrow> \<exists>body. generate rb = Inr (token_prefix @ body) \<and> length body = 32"
  by (simp add: generate_def Let_def length_b32_encode randomLen_def)

lemma persist_success:
  assumes "accounts_ok d" and "persist now opts plaintext d = (d', Inr (p, t))"
  obtains r tb where "p = plaintext" "d' = d\<lparr>db_tokens := tb\<rparr>"
    "insert_unique tkr_Hash (mk_token_row (opts, plaintext, now)) (db_tokens d) = Some (r, tb)"
    "r = mk_token_row (opts, plaintext, now) (tok_ID t)" "user_exists d (to_UserID opts)"
    "t = (scan_token parseScopes r)\<lparr>tok_Scopes := to_Scopes opts\<rparr>"
proof (cases "insert_unique tkr_Hash (mk_token_row (opts, plaintext, now)) (db_tokens d)")
  case None
  with assms(2) show ?thesis by (simp add: persist_def)
next
  case (Some rt)
  obtain r tb where rt: "rt = (r, tb)" by (cases rt)
  note ins = Some [unfolded rt]
  have u: "user_exists d (to_UserID opts)" and p: "p = plaintext" and d': "d' = d\<lparr>db_tokens := tb\<rparr>"
    and t: "t = (scan_token parseScopes r)\<lparr>tok_Scopes := to_Scopes opts\<rparr>"
    using assms(2) ins by (auto simp: persist_def split: if_splits)
  have "tok_ID t = seq (db_tokens d) + 1"
    using token_rows.insert_SomeD(4) [OF ins] by (simp add: t scan_token_def)
  then have "r = mk_token_row (opts, plaintext, now) (tok_ID t)"
    using token_rows.insert_SomeD(1) [OF ins] by (simp only:)
  from that [OF p d' ins this u t] show ?thesis .
qed

lemma tokens_Lookup_row:
  assumes "table_ok tkr_ID tkr_Hash (db_tokens d)"
  shows "tokens_Lookup now d pt = Inr t \<longleftrightarrow>
       (\<exists>r \<in> set (rows (db_tokens d)). tkr_Hash r = Hash pt \<and> t = scan_token parseScopes r
          \<and> (tkr_ExpiresUnix r = 0 \<or> now \<le> tkr_ExpiresUnix r))"
proof (cases "select_one (\<lambda>r. tkr_Hash r = Hash pt) (db_tokens d)")
  case None
  moreover from None have "\<forall>r \<in> set (rows (db_tokens d)). tkr_Hash r \<noteq> Hash pt"
    by (simp add: select_one_None)
  ultimately show ?thesis by (auto simp: tokens_Lookup_def)
next
  case (Some r)
  then have r: "r \<in> set (rows (db_tokens d))" "tkr_Hash r = Hash pt"
    using select_oneD [OF Some] by auto
  have "q = r" if "q \<in> set (rows (db_tokens d))" "tkr_Hash q = Hash pt" for q
    using table_ok_key_unique [OF assms that(1) r(1)] that(2) r(2) by simp
  then have one: "{q \<in> set (rows (db_tokens d)). tkr_Hash q = Hash pt} = {r}"
    using r by blast
  have "(\<exists>q \<in> set (rows (db_tokens d)). tkr_Hash q = Hash pt \<and> P q) \<longleftrightarrow>
      (\<exists>q \<in> {q \<in> set (rows (db_tokens d)). tkr_Hash q = Hash pt}. P q)" for P
    by blast
  then have ex: "(\<exists>q \<in> set (rows (db_tokens d)). tkr_Hash q = Hash pt \<and> P q) \<longleftrightarrow> P r" for P
    unfolding one by simp
  have "tokens_Lookup now d pt = Inr t \<longleftrightarrow>
      t = scan_token parseScopes r \<and> (tkr_ExpiresUnix r = 0 \<or> now \<le> tkr_ExpiresUnix r)"
    using Some by (auto simp: tokens_Lookup_def Let_def scan_token_def)
  then show ?thesis unfolding ex .
qed

end
