(* ===== verification/Auth.thy ===== *)
theory Auth
  imports Accounts_Laws
begin

text \<open>
  Authentication and authorisation (\<open>internal/auth/auth.go\<close>) and the first-boot setup
  (\<open>internal/bootstrap/bootstrap.go\<close>). A request is the lookup function of its headers
  (\<open>http.Header.Get\<close>, the empty string for a missing one). The middleware hands an
  authentication error on as an anonymous request. The bookkeeping goroutine that stamps
  \<open>last_used_unix\<close> and \<open>last_seen_unix\<close> is \<open>authenticate_touch\<close>.
\<close>

section \<open>Identities\<close>

datatype credential_kind = CredentialToken | CredentialSession | CredentialProxy

record identity =
  id_User :: "user option"
  id_Token :: "token option"
  id_Memberships :: "int \<Rightarrow> int option"
  id_Kind :: credential_kind

definition HasTokenScope :: "identity \<Rightarrow> string \<Rightarrow> bool" where
  "HasTokenScope idn s = (case id_Token idn of None \<Rightarrow> False | Some t \<Rightarrow> HasScope t s)"

definition tokenAllowsTenant :: "identity \<Rightarrow> int \<Rightarrow> bool" where
  "tokenAllowsTenant idn tenantID =
     (case id_Token idn of
        None \<Rightarrow> False
      | Some t \<Rightarrow> (case tok_TenantScope t of None \<Rightarrow> True | Some s \<Rightarrow> s = tenantID))"

definition IsSystemAdmin :: "identity \<Rightarrow> bool" where
  "IsSystemAdmin idn =
     (case id_User idn of
        None \<Rightarrow> False
      | Some u \<Rightarrow>
          (if \<not> usr_IsAdmin u then False
           else (case id_Kind idn of
               CredentialToken \<Rightarrow> HasTokenScope idn ScopeAdmin
             | CredentialSession \<Rightarrow> True
             | CredentialProxy \<Rightarrow> True)))"

definition member_at_least :: "identity \<Rightarrow> int \<Rightarrow> int \<Rightarrow> bool" where
  "member_at_least idn tenantID role =
     (case id_Memberships idn tenantID of None \<Rightarrow> False | Some r \<Rightarrow> r \<ge> role)"

definition CanRead :: "identity \<Rightarrow> int \<Rightarrow> bool" where
  "CanRead idn tenantID =
     (if IsSystemAdmin idn then True
      else (case id_Kind idn of
          CredentialToken \<Rightarrow>
            (if \<not> tokenAllowsTenant idn tenantID then False
             else if \<not> HasTokenScope idn ScopeRead \<and> \<not> HasTokenScope idn ScopeWrite then False
             else member_at_least idn tenantID RoleReader)
        | CredentialSession \<Rightarrow> member_at_least idn tenantID RoleReader
        | CredentialProxy \<Rightarrow> member_at_least idn tenantID RoleReader))"

definition CanWrite :: "identity \<Rightarrow> int \<Rightarrow> bool" where
  "CanWrite idn tenantID =
     (if IsSystemAdmin idn then True
      else (case id_Kind idn of
          CredentialToken \<Rightarrow>
            (if \<not> tokenAllowsTenant idn tenantID then False
             else if \<not> HasTokenScope idn ScopeWrite then False
             else member_at_least idn tenantID RoleWriter)
        | CredentialSession \<Rightarrow> member_at_least idn tenantID RoleWriter
        | CredentialProxy \<Rightarrow> member_at_least idn tenantID RoleWriter))"

section \<open>From request to identity\<close>

type_synonym headers = "string \<Rightarrow> string"

definition extractToken :: "headers \<Rightarrow> string" where
  "extractToken hdr =
     (let k = trim_space (hdr ''X-NuGet-ApiKey''); h = hdr ''Authorization'' in
      if k \<noteq> [] then k
      else if h = [] then []
      else if has_prefix h ''Bearer '' then trim_space (trim_prefix h ''Bearer '')
      else if has_prefix h ''Basic '' then
        (case b64_decode (trim_space (trim_prefix h ''Basic '')) of
           None \<Rightarrow> []
         | Some decoded \<Rightarrow> (case dropWhile (\<lambda>c. c \<noteq> CHR '':'') decoded of [] \<Rightarrow> [] | _ # rest \<Rightarrow> rest))
      else if has_prefix h token_prefix then trim_space h
      else [])"

definition Authenticate :: "int \<Rightarrow> headers \<Rightarrow> db \<Rightarrow> (go_error, identity option) result" where
  "Authenticate now hdr d =
     (let raw = extractToken hdr in
      if raw = [] then Inr None
      else (case tokens_Lookup now d raw of
          Inl e \<Rightarrow> (if e = ErrTokenNotExist \<or> e = ErrTokenExpired then Inr None else Inl e)
        | Inr tok \<Rightarrow>
            (case users_GetByID d (tok_UserID tok) of
               Inl e \<Rightarrow> Inl e
             | Inr u \<Rightarrow> Inr (Some \<lparr>id_User = Some u, id_Token = Some tok,
                               id_Memberships = Memberships d (usr_ID u), id_Kind = CredentialToken\<rparr>))))"

definition authenticate_touch :: "int \<Rightarrow> identity \<Rightarrow> db \<Rightarrow> db" where
  "authenticate_touch now idn d =
     (case (id_Token idn, id_User idn) of
        (Some t, Some u) \<Rightarrow> TouchLastSeen now (usr_ID u) (TouchLastUsed now (tok_ID t) d)
      | _ \<Rightarrow> d)"

definition auth_Middleware :: "int \<Rightarrow> headers \<Rightarrow> db \<Rightarrow> identity option" where
  "auth_Middleware now hdr d = (case Authenticate now hdr d of Inl e \<Rightarrow> None | Inr idn \<Rightarrow> idn)"

datatype guard_result = Granted | Challenge401 | Forbidden403

definition RequireRead :: "identity option \<Rightarrow> tenant \<Rightarrow> guard_result" where
  "RequireRead idn t =
     (if ten_Visibility t = VisibilityPublic then Granted
      else (case idn of
          None \<Rightarrow> Challenge401
        | Some i \<Rightarrow> (if \<not> CanRead i (ten_ID t) then Forbidden403 else Granted)))"

definition RequireWrite :: "identity option \<Rightarrow> tenant \<Rightarrow> guard_result" where
  "RequireWrite idn t =
     (case idn of
        None \<Rightarrow> Challenge401
      | Some i \<Rightarrow> (if \<not> CanWrite i (ten_ID t) then Forbidden403 else Granted))"

section \<open>First boot\<close>

record bootstrap_options =
  bo_DefaultTenantName :: string
  bo_DefaultTenantVisibility :: int
  bo_AdminToken :: string

record bootstrap_result =
  br_DefaultTenant :: tenant
  br_AdminUser :: user
  br_GeneratedAdminToken :: string

definition ensure_tenant :: "int \<Rightarrow> bootstrap_options \<Rightarrow> db \<Rightarrow> db \<times> (go_error, tenant) result" where
  "ensure_tenant now opts d =
     (let name = (if bo_DefaultTenantName opts = [] then ''default'' else bo_DefaultTenantName opts) in
      case tenants_GetByName d name of
        Inl e \<Rightarrow>
          (if e \<noteq> ErrTenantNotExist then (d, Inl e)
           else tenants_Create now name (bo_DefaultTenantVisibility opts) d)
      | Inr t \<Rightarrow>
          (if ten_Visibility t \<noteq> bo_DefaultTenantVisibility opts
           then (SetVisibility (ten_ID t) (bo_DefaultTenantVisibility opts) d,
                 Inr (t\<lparr>ten_Visibility := bo_DefaultTenantVisibility opts\<rparr>))
           else (d, Inr t)))"

definition ensure_admin :: "int \<Rightarrow> db \<Rightarrow> db \<times> (go_error, user) result" where
  "ensure_admin now d =
     (case users_GetByName d ''admin'' of
        Inl e \<Rightarrow>
          (if e \<noteq> ErrUserNotExist then (d, Inl e)
           else users_Create now \<lparr>uo_Name = ''admin'', uo_Kind = KindService, uo_Email = [], uo_IsAdmin = True,
                  uo_ExternalProvider = [], uo_ExternalSubject = []\<rparr> d)
      | Inr u \<Rightarrow> (d, Inr u))"

definition admin_token_options :: "int \<Rightarrow> token_options" where
  "admin_token_options i =
     \<lparr>to_UserID = i, to_Name = ''bootstrap-admin'', to_Scopes = [ScopeRead, ScopeWrite, ScopeAdmin],
      to_TenantScope = 0, to_ExpiresUnix = 0\<rparr>"

definition ensure_token :: "string \<Rightarrow> int \<Rightarrow> bootstrap_options \<Rightarrow> int \<Rightarrow> db \<Rightarrow> db \<times> (go_error, string) result" where
  "ensure_token rb now opts i d =
     (if CountByUser d i = 0 then
        (if bo_AdminToken opts \<noteq> [] then
           (case IssueWithPlaintext now (admin_token_options i) (bo_AdminToken opts) d of
              (d', Inl e) \<Rightarrow> (d', Inl e) | (d', Inr _) \<Rightarrow> (d', Inr []))
         else (case Issue rb now (admin_token_options i) d of
              (d', Inl e) \<Rightarrow> (d', Inl e) | (d', Inr (plaintext, _)) \<Rightarrow> (d', Inr plaintext)))
      else (d, Inr []))"

definition Ensure :: "string \<Rightarrow> int \<Rightarrow> bootstrap_options \<Rightarrow> db \<Rightarrow> db \<times> (go_error, bootstrap_result) result" where
  "Ensure rb now opts d =
     (case ensure_tenant now opts d of
        (d1, Inl e) \<Rightarrow> (d1, Inl e)
      | (d1, Inr tenant) \<Rightarrow>
          (case ensure_admin now d1 of
             (d2, Inl e) \<Rightarrow> (d2, Inl e)
           | (d2, Inr admin) \<Rightarrow>
               (case AddMember (ten_ID tenant) (usr_ID admin) RoleTenantAdmin d2 of
                  (d3, Inl e) \<Rightarrow> (d3, Inl e)
                | (d3, Inr _) \<Rightarrow>
                    (case ensure_token rb now opts (usr_ID admin) d3 of
                       (d4, Inl e) \<Rightarrow> (d4, Inl e)
                     | (d4, Inr plaintext) \<Rightarrow>
                         (d4, Inr \<lparr>br_DefaultTenant = tenant, br_AdminUser = admin,
                                   br_GeneratedAdminToken = plaintext\<rparr>)))))"

section \<open>Authorisation\<close>

lemmas access_defs =
  CanRead_def CanWrite_def IsSystemAdmin_def HasTokenScope_def tokenAllowsTenant_def member_at_least_def

text \<open>
C1: Authorisation. Write access to a tenant implies read access. An identity that is not a system
  administrator has access only to a tenant it is a member of, with a role that is high enough, and
  if it came with a token, only when the token carries the scope and is not bound to another tenant;
  a browser identity needs the membership alone. The scope that opens reading is read or write: a token
  with the write scope alone reads, although the comment of \<open>CanRead\<close> and step 4 of \<open>docs/auth.md\<close> ask for the
  read scope.
\<close>

theorem tenant_isolation:
  "(CanWrite idn t \<longrightarrow> CanRead idn t)
   \<and> (IsSystemAdmin idn \<or>
      (CanRead idn t \<longleftrightarrow> (\<exists>r. id_Memberships idn t = Some r \<and> RoleReader \<le> r)
         \<and> (id_Kind idn = CredentialToken \<longrightarrow>
             (\<exists>tok. id_Token idn = Some tok \<and> (tok_TenantScope tok = None \<or> tok_TenantScope tok = Some t)
                \<and> (HasScope tok ScopeRead \<or> HasScope tok ScopeWrite))))
      \<and> (CanWrite idn t \<longleftrightarrow> (\<exists>r. id_Memberships idn t = Some r \<and> RoleWriter \<le> r)
         \<and> (id_Kind idn = CredentialToken \<longrightarrow>
             (\<exists>tok. id_Token idn = Some tok \<and> (tok_TenantScope tok = None \<or> tok_TenantScope tok = Some t)
                \<and> HasScope tok ScopeWrite))))"
  by (cases "id_Kind idn"; cases "id_Token idn"; cases "id_Memberships idn t"; cases "IsSystemAdmin idn")
     (auto simp: CanRead_def CanWrite_def HasTokenScope_def tokenAllowsTenant_def member_at_least_def
        RoleReader_def RoleWriter_def split: option.splits)

definition sample_reader :: identity where
  "sample_reader = \<lparr>id_User = None, id_Token = None, id_Memberships = [7 \<mapsto> RoleReader], id_Kind = CredentialSession\<rparr>"

theorem tenant_isolation_witness: "\<not> CanRead sample_reader 8 \<and> CanRead sample_reader 7 \<and> \<not> CanWrite sample_reader 7"
  using tenant_isolation [of sample_reader 8] tenant_isolation [of sample_reader 7]
  by (simp add: sample_reader_def IsSystemAdmin_def RoleReader_def RoleWriter_def)

text \<open>
  A system administrator is a user with the admin flag who signed in through the browser, or whose
  token carries the admin scope. Such an identity reads and writes every tenant - also one that
  its token is not bound to: the tenant binding of an administrator's token is ignored.
\<close>

theorem admin_reach:
  "(IsSystemAdmin idn \<longleftrightarrow> (\<exists>u. id_User idn = Some u \<and> usr_IsAdmin u)
      \<and> (id_Kind idn \<noteq> CredentialToken \<or> (\<exists>tok. id_Token idn = Some tok \<and> HasScope tok ScopeAdmin)))
   \<and> (IsSystemAdmin idn \<longrightarrow> CanRead idn t \<and> CanWrite idn t)"
  by (cases "id_Kind idn") (auto simp: access_defs split: option.splits)

definition sample_admin :: identity where
  "sample_admin = \<lparr>id_User = Some \<lparr>usr_ID = 1, usr_Name = ''root'', usr_LowerName = ''root'', usr_Kind = 0,
      usr_Email = None, usr_IsAdmin = True, usr_ExternalProvider = None, usr_ExternalSubject = None,
      usr_CreatedUnix = 0, usr_LastSeenUnix = 0, usr_password_hash = None, usr_password_set_unix = None\<rparr>,
    id_Token = Some \<lparr>tok_ID = 1, tok_UserID = 1, tok_Name = [], tok_Hash = [], tok_Scopes = [ScopeAdmin],
      tok_TenantScope = Some 3, tok_CreatedUnix = 0, tok_LastUsedUnix = 0, tok_ExpiresUnix = 0\<rparr>,
    id_Memberships = Map.empty, id_Kind = CredentialToken\<rparr>"

theorem admin_reach_witness: "CanWrite sample_admin 4 \<and> \<not> tokenAllowsTenant sample_admin 4"
  using admin_reach [of sample_admin 4]
  by (simp add: sample_admin_def HasScope_def tokenAllowsTenant_def)

end
