(* ===== verification/Auth_Laws.thy ===== *)
theory Auth_Laws
  imports Auth
begin

text \<open>
  Issuing, presenting and revoking tokens end to end, and the idempotence of the first-boot setup.
\<close>

section \<open>Presenting a token\<close>

lemma b32_char: "n < 32 \<Longrightarrow> \<not> is_space (lower_char (b32_alphabet ! n))"
proof -
  assume "n < 32"
  then have "b32_alphabet ! n \<in> set b32_alphabet"
    by (intro nth_mem) (simp add: b32_alphabet_def)
  moreover have "list_all (\<lambda>c. \<not> is_space (lower_char c)) b32_alphabet"
    by (simp add: b32_alphabet_def is_space_def lower_char_def Let_def)
  ultimately show ?thesis by (simp add: list_all_iff)
qed

lemma bits_nat_bound: "bits_nat bs < 2 ^ length bs"
proof -
  have "fold (\<lambda>b n. 2 * n + (if b then 1 else 0)) bs m < (m + 1) * 2 ^ length bs" for m :: nat
  proof (induction bs arbitrary: m)
    case (Cons b bs)
    have "fold (\<lambda>b n. 2 * n + (if b then 1 else 0)) bs (2 * m + (if b then 1 else 0))
        < (2 * m + (if b then 1 else 0) + 1) * 2 ^ length bs" by (rule Cons)
    also have "\<dots> \<le> (2 * m + 2) * 2 ^ length bs" by (intro mult_right_mono) auto
    finally show ?case by (simp add: algebra_simps)
  qed simp
  from this [of 0] show ?thesis by (simp add: bits_nat_def)
qed

lemma five_bits_length: "g \<in> set (five_bits bs) \<Longrightarrow> length g = 5"
  by (induction bs rule: five_bits.induct) auto

lemma generate_clean: "generate rb = Inr pt \<Longrightarrow> has_prefix pt token_prefix \<and> no_outer_space pt"
proof -
  assume g: "generate rb = Inr pt"
  let ?body = "to_lower (b32_encode rb)"
  have clean: "\<not> is_space c" if "c \<in> set ?body" for c
  proof -
    from that obtain g where g: "g \<in> set (five_bits (concat (map byte_bits rb)))"
      "c = lower_char (b32_alphabet ! bits_nat g)"
      by (auto simp: to_lower_def b32_encode_def)
    have "bits_nat g < 32" using bits_nat_bound [of g] five_bits_length [OF g(1)] by simp
    with g(2) show ?thesis by (simp add: b32_char)
  qed
  have pt: "pt = token_prefix @ ?body" and len: "length ?body = 32"
    using g by (auto simp: generate_def Let_def randomLen_def split: if_splits)
  then have "?body \<noteq> []" by auto
  then have "\<not> is_space (last pt)" using clean pt by (simp add: last_in_set)
  moreover have "\<not> is_space (hd pt)" by (simp add: pt token_prefix_def is_space_def)
  ultimately show ?thesis by (simp add: pt no_outer_space_def)
qed

text \<open>The ways a client may present a token.\<close>

definition presents :: "headers \<Rightarrow> string \<Rightarrow> bool" where
  "presents hdr pt \<longleftrightarrow>
     trim_space (hdr ''X-NuGet-ApiKey'') = pt
   \<or> trim_space (hdr ''X-NuGet-ApiKey'') = [] \<and>
      (hdr ''Authorization'' = ''Bearer '' @ pt
     \<or> hdr ''Authorization'' = pt
     \<or> (\<exists>u. CHR '':'' \<notin> set u \<and> hdr ''Authorization'' = ''Basic '' @ b64_encode (u @ CHR '':'' # pt)))"

lemma extract_nuget: "trim_space (hdr ''X-NuGet-ApiKey'') = pt \<Longrightarrow> pt \<noteq> [] \<Longrightarrow> extractToken hdr = pt"
  by (simp add: extractToken_def Let_def)

lemma has_prefix_append_eq: "has_prefix (p @ s) p = True"
  by simp

lemma extract_bearer:
  assumes "trim_space (hdr ''X-NuGet-ApiKey'') = []" and "hdr ''Authorization'' = ''Bearer '' @ s"
  shows "extractToken hdr = trim_space s"
  unfolding extractToken_def Let_def assms has_prefix_append_eq trim_prefix_append by simp

lemma basic_not_bearer: "\<not> has_prefix (''Basic '' @ s) ''Bearer ''"
  by (simp add: has_prefix_def)

lemma extract_basic:
  assumes "trim_space (hdr ''X-NuGet-ApiKey'') = []"
    and "hdr ''Authorization'' = ''Basic '' @ b64_encode (u @ CHR '':'' # pt)" and "CHR '':'' \<notin> set u"
  shows "extractToken hdr = pt"
proof -
  have trim: "trim_space (b64_encode x) = b64_encode x" for x
    by (rule trim_space_clean [OF b64_encode_no_outer_space])
  have "dropWhile (\<lambda>c. c \<noteq> CHR '':'') (u @ CHR '':'' # pt) = CHR '':'' # pt"
    using assms(3) by (induction u) auto
  then show ?thesis
    unfolding extractToken_def Let_def assms(1,2) has_prefix_append_eq trim_prefix_append trim b64_roundtrip
    by (simp add: basic_not_bearer [simplified])
qed

lemma extract_raw:
  assumes "trim_space (hdr ''X-NuGet-ApiKey'') = []" and "hdr ''Authorization'' = token_prefix @ s"
  shows "extractToken hdr = trim_space (token_prefix @ s)"
proof -
  have no: "\<not> has_prefix (token_prefix @ s) ''Bearer ''" "\<not> has_prefix (token_prefix @ s) ''Basic ''"
    "token_prefix @ s \<noteq> []"
    by (simp_all add: has_prefix_def token_prefix_def)
  show ?thesis
    unfolding extractToken_def Let_def assms has_prefix_append_eq by (simp add: no del: append_is_Nil_conv)
qed

lemma presents_extract:
  assumes "presents hdr pt" and "has_prefix pt token_prefix" and "no_outer_space pt"
  shows "extractToken hdr = pt"
proof -
  have pt: "pt = token_prefix @ drop (length token_prefix) pt"
    using assms(2) by (metis append_take_drop_id has_prefix_def)
  then have ne: "pt \<noteq> []" by (auto simp: token_prefix_def)
  have trim: "trim_space pt = pt" by (rule trim_space_clean [OF assms(3)])
  from assms(1) consider
      "trim_space (hdr ''X-NuGet-ApiKey'') = pt"
    | "trim_space (hdr ''X-NuGet-ApiKey'') = []" "hdr ''Authorization'' = ''Bearer '' @ pt"
    | "trim_space (hdr ''X-NuGet-ApiKey'') = []" "hdr ''Authorization'' = pt"
    | u where "trim_space (hdr ''X-NuGet-ApiKey'') = []" "CHR '':'' \<notin> set u"
      "hdr ''Authorization'' = ''Basic '' @ b64_encode (u @ CHR '':'' # pt)"
    unfolding presents_def by blast
  then show ?thesis
  proof cases
    case 1
    then show ?thesis using ne by (rule extract_nuget)
  next
    case 2
    then show ?thesis using extract_bearer trim by simp
  next
    case 3
    then show ?thesis using extract_raw [of hdr "drop (length token_prefix) pt"] pt trim by simp
  next
    case 4
    then show ?thesis by (intro extract_basic)
  qed
qed

lemma Authenticate_iff:
  assumes "accounts_ok d" and "extractToken hdr \<noteq> []"
  shows "Authenticate now hdr d = Inr (Some idn) \<longleftrightarrow>
    (\<exists>t u. tokens_Lookup now d (extractToken hdr) = Inr t \<and> u \<in> set (rows (db_users d)) \<and> usr_ID u = tok_UserID t
       \<and> idn = \<lparr>id_User = Some u, id_Token = Some t, id_Memberships = Memberships d (usr_ID u), id_Kind = CredentialToken\<rparr>)"
proof (cases "tokens_Lookup now d (extractToken hdr)")
  case (Inl e)
  with assms(2) show ?thesis by (simp add: Authenticate_def Let_def)
next
  case (Inr t)
  have "users_GetByID d i = Inr u \<longleftrightarrow> u \<in> set (rows (db_users d)) \<and> usr_ID u = i" for i u
    using table_ok_select_id_iff [OF accounts_okD(2) [OF assms(1)], of i u]
    by (auto simp: users_GetByID_def split: option.splits)
  then have "(\<exists>u. u \<in> set (rows (db_users d)) \<and> usr_ID u = i \<and> P u) \<longleftrightarrow> (\<exists>u. users_GetByID d i = Inr u \<and> P u)" for i P
    by blast
  then show ?thesis
    using assms(2) Inr by (cases "users_GetByID d (tok_UserID t)") (auto simp: Authenticate_def Let_def)
qed

lemma issue_authenticates:
  assumes "accounts_ok d" and "Issue rb now opts d = (d', Inr (pt, t))"
    and "\<And>s. s \<in> set (to_Scopes opts) \<Longrightarrow> s \<noteq> [] \<and> CHR '','' \<notin> set s \<and> no_outer_space s"
    and "presents hdr pt" and "to_ExpiresUnix opts = 0 \<or> now' \<le> to_ExpiresUnix opts"
  shows "\<exists>u. Authenticate now' hdr d' =
      Inr (Some \<lparr>id_User = Some u, id_Token = Some t, id_Memberships = Memberships d' (usr_ID u), id_Kind = CredentialToken\<rparr>)
    \<and> usr_ID u = to_UserID opts \<and> tok_Scopes t = to_Scopes opts
    \<and> tok_TenantScope t = (if to_TenantScope opts > 0 then Some (to_TenantScope opts) else None)
    \<and> u \<in> set (rows (db_users d)) \<and> db_users d' = db_users d \<and> db_members d' = db_members d \<and> accounts_ok d'"
proof -
  from assms(2) obtain pt' where g: "generate rb = Inr pt'" and per: "persist now opts pt' d = (d', Inr (pt, t))"
    by (auto simp: Issue_def split: if_splits sum.splits)
  obtain r tb where r: "pt = pt'" "d' = d\<lparr>db_tokens := tb\<rparr>"
      "insert_unique tkr_Hash (mk_token_row (opts, pt', now)) (db_tokens d) = Some (r, tb)"
      "r = mk_token_row (opts, pt', now) (tok_ID t)" "user_exists d (to_UserID opts)"
      "t = (scan_token parseScopes r)\<lparr>tok_Scopes := to_Scopes opts\<rparr>"
    by (rule persist_success [OF assms(1) per])
  have ok': "accounts_ok d'"
    using persist_accounts_ok [OF assms(1), of now opts pt'] per by simp
  have ext: "extractToken hdr = pt"
    using presents_extract [OF assms(4)] generate_clean [OF g] r(1) by simp
  have ne: "extractToken hdr \<noteq> []"
    using ext generate_clean [OF g] r(1) by (auto simp: has_prefix_def token_prefix_def)
  have fields: "tkr_Hash r = Hash pt" "tkr_Scopes r = scopesCSV (to_Scopes opts)" "tkr_ExpiresUnix r = to_ExpiresUnix opts"
      "tkr_UserID r = to_UserID opts"
      "tkr_TenantScope r = (if to_TenantScope opts > 0 then Some (to_TenantScope opts) else None)"
    unfolding r(4) by (simp_all add: mk_token_row_def r(1))
  have "t = scan_token parseScopes r"
    using scopes_roundtrip [of "to_Scopes opts"] assms(3) by (simp add: r(6) scan_token_def fields(2))
  moreover have "r \<in> set (rows (db_tokens d'))"
    using token_rows.insert_SomeD(2) [OF r(3)] by (simp add: r(2))
  ultimately have look: "tokens_Lookup now' d' pt = Inr t"
    using fields(1,3) assms(5) by (auto simp: tokens_Lookup_row [OF accounts_okD(3) [OF ok']])
  obtain u where u: "u \<in> set (rows (db_users d'))" "usr_ID u = to_UserID opts"
    using r(2,5) by (auto simp: user_exists_def)
  have t: "tok_UserID t = to_UserID opts" "tok_Scopes t = to_Scopes opts"
      "tok_TenantScope t = (if to_TenantScope opts > 0 then Some (to_TenantScope opts) else None)"
    unfolding r(6) by (simp_all add: scan_token_def fields)
  show ?thesis
    using Authenticate_iff [OF ok' ne] look u t ext ok' r(2) by auto
qed

text \<open>
C15: Issued tokens work, in every form a client may present them. If \<open>Issue\<close> succeeded, then until the
  token expires any request that presents its plaintext - as bearer token, as the password of a basic
  credential, raw, or in NuGet's header - authenticates as the owner of the token, with exactly the
  scopes and the tenant binding it was issued with.
\<close>

theorem issued_token_authenticates:
  assumes "accounts_ok d" and "Issue rb now opts d = (d', Inr (pt, t))"
    and "\<And>s. s \<in> set (to_Scopes opts) \<Longrightarrow> s \<noteq> [] \<and> CHR '','' \<notin> set s \<and> no_outer_space s"
    and "presents hdr pt" and "to_ExpiresUnix opts = 0 \<or> now' \<le> to_ExpiresUnix opts"
  shows "\<exists>u. Authenticate now' hdr d' =
      Inr (Some \<lparr>id_User = Some u, id_Token = Some t, id_Memberships = Memberships d' (usr_ID u), id_Kind = CredentialToken\<rparr>)
    \<and> usr_ID u = to_UserID opts \<and> tok_Scopes t = to_Scopes opts
    \<and> tok_TenantScope t = (if to_TenantScope opts > 0 then Some (to_TenantScope opts) else None)"
  using issue_authenticates [OF assms] by blast

text \<open>A booted instance with a pinned administrator token, for the witnesses.\<close>

definition sample_boot :: bootstrap_options where
  "sample_boot = \<lparr>bo_DefaultTenantName = [], bo_DefaultTenantVisibility = VisibilityPublic, bo_AdminToken = ''pkm_s''\<rparr>"

definition sample_admin_row :: user where
  "sample_admin_row = mk_user (\<lparr>uo_Name = ''admin'', uo_Kind = KindService, uo_Email = [], uo_IsAdmin = True,
      uo_ExternalProvider = [], uo_ExternalSubject = []\<rparr>, 1) 1"

definition sample_db :: db where
  "sample_db = fst (ensure_admin 1 (fresh_db 0))"

lemma sample_db_eq: "sample_db = (fresh_db 0)\<lparr>db_users := \<lparr>rows = [sample_admin_row], seq = 1\<rparr>\<rparr>"
  by (simp add: sample_db_def ensure_admin_def users_GetByName_def users_Create_def insert_unique_def Let_def
      external_taken_def fresh_db_def select_one_def sample_admin_row_def mk_user_def empty_table_def)

lemma sample_db_ok: "accounts_ok sample_db"
  by (simp add: sample_db_eq accounts_ok_def fresh_db_def table_ok_def default_tenant_row_def sample_admin_row_def mk_user_def)

lemma sample_issue:
  assumes "length rb = 20"
  shows "\<exists>pt t. Issue rb 2 (admin_token_options 1) sample_db = (fst (Issue rb 2 (admin_token_options 1) sample_db), Inr (pt, t))"
proof -
  obtain body where "generate rb = Inr (token_prefix @ body)" using generate_length [OF assms] by blast
  then show ?thesis
    by (simp add: Issue_def admin_token_options_def persist_def insert_unique_def Let_def sample_db_eq fresh_db_def
        user_exists_def sample_admin_row_def mk_user_def)
qed

lemma admin_scopes_clean:
  "s \<in> set (to_Scopes (admin_token_options i)) \<Longrightarrow> s \<noteq> [] \<and> CHR '','' \<notin> set s \<and> no_outer_space s"
  by (auto simp: admin_token_options_def ScopeRead_def ScopeWrite_def ScopeAdmin_def no_outer_space_def is_space_def)

theorem issued_token_authenticates_witness:
  "\<exists>pt d'. (let hdr = (\<lambda>h. if h = ''Authorization'' then ''Bearer '' @ pt else []) in
      \<exists>idn. Authenticate 9 hdr d' = Inr (Some idn) \<and> tok_Scopes (the (id_Token idn)) = [ScopeRead, ScopeWrite, ScopeAdmin])"
proof -
  obtain pt t where "Issue (replicate 20 CHR ''k'') 2 (admin_token_options 1) sample_db
      = (fst (Issue (replicate 20 CHR ''k'') 2 (admin_token_options 1) sample_db), Inr (pt, t))"
    using sample_issue [of "replicate 20 CHR ''k''"] by auto
  note run = this
  let ?hdr = "\<lambda>h. if h = ''Authorization'' then ''Bearer '' @ pt else []"
  have "presents ?hdr pt"
    by (simp add: presents_def trim_space_def trim_left_def)
  from issued_token_authenticates [OF sample_db_ok run admin_scopes_clean this, where now' = 9]
  show ?thesis by (force simp: admin_token_options_def Let_def)
qed

section \<open>Revoking a token\<close>

text \<open>
  Revocation is immediate and exact: after \<open>Revoke\<close> of a token no request authenticates with it any
  more (it is anonymous), and every request that presents another credential is treated as before.
\<close>

theorem Revoke_exact:
  assumes "accounts_ok d" and "Revoke i d = (d', r)"
  shows "Authenticate now hdr d' =
    (case Authenticate now hdr d of
       Inr (Some idn) \<Rightarrow> (if \<exists>t. id_Token idn = Some t \<and> tok_ID t = i then Inr None else Inr (Some idn))
     | x \<Rightarrow> x)"
proof -
  have d': "d' = d\<lparr>db_tokens := delete_where (\<lambda>r. tkr_ID r = i) (db_tokens d)\<rparr>"
    using assms(2) by (simp add: Revoke_def)
  have users: "users_GetByID d' = users_GetByID d" "Memberships d' = Memberships d"
    by (auto simp: d' users_GetByID_def Memberships_def fun_eq_iff)
  let ?find = "select_one (\<lambda>r. tkr_Hash r = Hash (extractToken hdr))"
  have find: "?find (db_tokens d') =
      (case ?find (db_tokens d) of None \<Rightarrow> None | Some r \<Rightarrow> if tkr_ID r = i then None else Some r)"
  proof (cases "?find (db_tokens d)")
    case None
    then have "\<forall>r \<in> set (rows (db_tokens d)). tkr_Hash r \<noteq> Hash (extractToken hdr)"
      by (simp add: select_one_None)
    then have "?find (db_tokens d') = None" by (simp add: select_one_None d')
    with None show ?thesis by simp
  next
    case (Some r)
    then have r: "r \<in> set (rows (db_tokens d))" "tkr_Hash r = Hash (extractToken hdr)"
      using select_oneD [OF Some] by auto
    have uniq: "q = r" if "q \<in> set (rows (db_tokens d))" "tkr_Hash q = Hash (extractToken hdr)" for q
      using table_ok_key_unique [OF accounts_okD(3) [OF assms(1)] that(1) r(1)] that(2) r(2) by simp
    show ?thesis
    proof (cases "tkr_ID r = i")
      case True
      then have "?find (db_tokens d') = None"
        using uniq by (auto simp: select_one_None d')
      with True Some show ?thesis by simp
    next
      case False
      have "?find (db_tokens d') = Some r"
        unfolding select_one_def
      proof (rule find_unique)
        show "r \<in> set (rows (db_tokens d'))" using r False by (simp add: d')
        show "tkr_Hash r = Hash (extractToken hdr)" by (rule r)
        show "q = r" if "q \<in> set (rows (db_tokens d'))" "tkr_Hash q = Hash (extractToken hdr)" for q
          using that by (intro uniq) (simp_all add: d')
      qed
      with False Some show ?thesis by simp
    qed
  qed
  show ?thesis
  proof (cases "?find (db_tokens d)")
    case None
    with find show ?thesis by (simp add: Authenticate_def tokens_Lookup_def Let_def)
  next
    case (Some r)
    show ?thesis
    proof (cases "users_GetByID d (tkr_UserID r)")
      case (Inl e)
      have "user_exists d (tkr_UserID r)"
        by (rule accounts_okD(5) [OF assms(1)]) (use select_oneD [OF Some] in simp)
      then have "select_one (\<lambda>u. usr_ID u = tkr_UserID r) (db_users d) \<noteq> None"
        by (auto simp: select_one_None user_exists_def)
      with Inl show ?thesis
        by (auto simp: users_GetByID_def)
    next
      case (Inr u)
      with Some find users show ?thesis
        by (simp add: Authenticate_def tokens_Lookup_def Let_def scan_token_def)
    qed
  qed
qed

theorem Revoke_exact_witness:
  "Authenticate 9 (\<lambda>h. []) (fst (Revoke 1 sample_db)) = Inr None"
  using Revoke_exact [OF sample_db_ok surjective_pairing, of 9 "\<lambda>h. []" 1]
  by (simp add: Authenticate_def extractToken_def trim_space_def trim_left_def)

section \<open>First boot\<close>

lemma ensure_tenant_again:
  assumes "accounts_ok d" and "ensure_tenant now opts d = (d1, Inr t)" and "db_tenants e = db_tenants d1"
  shows "ensure_tenant now' opts e = (e, Inr t)" "tenant_exists e (ten_ID t)"
proof -
  let ?name = "if bo_DefaultTenantName opts = [] then ''default'' else bo_DefaultTenantName opts"
  let ?vis = "bo_DefaultTenantVisibility opts"
  have "select_one (\<lambda>t. ten_LowerName t = to_lower ?name) (db_tenants d1) = Some t \<and> ten_Visibility t = ?vis"
  proof (cases "tenants_GetByName d ?name")
    case (Inl err)
    show ?thesis
    proof (cases "insert_unique ten_LowerName (mk_tenant (?name, ?vis, now)) (db_tenants d)")
      case None
      with Inl assms(2) show ?thesis
        by (auto simp: ensure_tenant_def tenants_Create_def Let_def split: if_splits)
    next
      case (Some rt)
      obtain r tb where rt: "rt = (r, tb)" by (cases rt)
      note ins = Some [unfolded rt]
      have eq: "t = r" "db_tenants d1 = tb"
        using Inl assms(2) ins by (auto simp: ensure_tenant_def tenants_Create_def Let_def split: if_splits)
      have r: "ten_LowerName r = to_lower ?name" "ten_Visibility r = ?vis"
        using tenant_rows.insert_SomeD(1) [OF ins] by (simp_all add: mk_tenant_def)
      show ?thesis
        using tenant_rows.insert_lookup(1) [OF accounts_okD(1) [OF assms(1)] ins] r eq by simp
    qed
  next
    case (Inr q)
    then have q: "select_one (\<lambda>t. ten_LowerName t = to_lower ?name) (db_tenants d) = Some q"
      by (auto simp: tenants_GetByName_def split: option.splits)
    show ?thesis
    proof (cases "ten_Visibility q = ?vis")
      case True
      with Inr assms(2) q show ?thesis by (auto simp: ensure_tenant_def Let_def)
    next
      case False
      with Inr assms(2) have d1: "d1 = SetVisibility (ten_ID q) ?vis d" and t: "t = q\<lparr>ten_Visibility := ?vis\<rparr>"
        by (auto simp: ensure_tenant_def Let_def)
      have ok: "table_ok ten_ID ten_LowerName (db_tenants d1)"
        using accounts_okD(1) [OF SetVisibility_accounts_ok [OF assms(1)]] d1 by simp
      have "t \<in> set (rows (db_tenants d1))"
        using select_oneD [OF q] by (auto simp: d1 t SetVisibility_def image_iff)
      with select_oneD [OF q] show ?thesis
        using table_ok_select_key_iff [OF ok] by (auto simp: t)
    qed
  qed
  then have here: "tenants_GetByName e ?name = Inr t" and vis: "ten_Visibility t = ?vis"
    by (simp_all add: tenants_GetByName_def assms(3))
  then show "ensure_tenant now' opts e = (e, Inr t)"
    by (simp add: ensure_tenant_def Let_def)
  show "tenant_exists e (ten_ID t)"
    using here by (auto simp: tenants_GetByName_def tenant_exists_def split: option.splits dest: select_oneD)
qed

lemma ensure_admin_again:
  assumes "accounts_ok d" and "ensure_admin now d = (d1, Inr u)" and "db_users e = db_users d1"
  shows "ensure_admin now' e = (e, Inr u)" "db_tenants d1 = db_tenants d"
proof -
  show "db_tenants d1 = db_tenants d"
    using assms(2) by (auto simp: ensure_admin_def users_Create_def Let_def split: sum.splits option.splits prod.splits if_splits)
  have "users_GetByName d1 ''admin'' = Inr u"
  proof (cases "users_GetByName d ''admin''")
    case (Inr q)
    with assms(2) show ?thesis by (simp add: ensure_admin_def)
  next
    case (Inl err)
    let ?mk = "mk_user (\<lparr>uo_Name = ''admin'', uo_Kind = KindService, uo_Email = [], uo_IsAdmin = True,
                  uo_ExternalProvider = [], uo_ExternalSubject = []\<rparr>, now)"
    show ?thesis
    proof (cases "insert_unique usr_LowerName ?mk (db_users d)")
      case None
      with Inl assms(2) show ?thesis by (auto simp: ensure_admin_def users_Create_def split: if_splits)
    next
      case (Some rt)
      obtain r tb where rt: "rt = (r, tb)" by (cases rt)
      note ins = Some [unfolded rt]
      note look = user_rows.insert_lookup [OF accounts_okD(2) [OF assms(1)] ins]
      have "u = r" "db_users d1 = tb"
        using Inl assms(2) ins look(2)
        by (auto simp: ensure_admin_def users_Create_def users_GetByID_def external_taken_def Let_def split: if_splits)
      moreover have "usr_LowerName r = to_lower ''admin''"
        using user_rows.insert_SomeD(1) [OF ins] by (simp add: mk_user_def)
      ultimately show ?thesis using look(1) by (simp add: users_GetByName_def)
    qed
  qed
  then show "ensure_admin now' e = (e, Inr u)"
    by (simp add: ensure_admin_def users_GetByName_def assms(3))
qed

lemma AddMember_again:
  assumes "AddMember t u role d = (d1, Inr x)" and "db_members e = db_members d1"
    and "tenant_exists e t" and "user_exists e u"
  shows "AddMember t u role e = (e, Inr ())" "db_tenants d1 = db_tenants d" "db_users d1 = db_users d"
    "db_tokens d1 = db_tokens d"
proof -
  show "db_tenants d1 = db_tenants d" "db_users d1 = db_users d" "db_tokens d1 = db_tokens d"
    using assms(1) by (auto simp: AddMember_def split: if_splits)
  let ?P = "\<lambda>m. mem_TenantID m = t \<and> mem_UserID m = u"
  let ?f = "\<lambda>m. if ?P m then m\<lparr>mem_Role := role\<rparr> else m"
  let ?new = "\<lparr>mem_TenantID = t, mem_UserID = u, mem_Role = role\<rparr>"
  consider (upd) "\<exists>m \<in> set (db_members d). ?P m" "db_members e = map ?f (db_members d)"
    | (new) "\<forall>m \<in> set (db_members d). \<not> ?P m" "db_members e = db_members d @ [?new]"
    using assms(1) unfolding assms(2) by (auto simp: AddMember_def split: if_splits)
  then have there: "(\<exists>m \<in> set (db_members e). ?P m) \<and> (\<forall>m \<in> set (db_members e). ?P m \<longrightarrow> mem_Role m = role)"
  proof cases
    case upd
    then show ?thesis unfolding upd(2) bex_map ball_map by auto
  next
    case new
    then show ?thesis unfolding new(2) by auto
  qed
  have "map (\<lambda>m. if mem_TenantID m = t \<and> mem_UserID m = u then m\<lparr>mem_Role := role\<rparr> else m) (db_members e) = db_members e"
    by (rule map_idI) (use there in auto)
  with there assms(3,4) show "AddMember t u role e = (e, Inr ())"
    by (auto simp: AddMember_def)
qed

lemma persist_counts:
  assumes "persist now opts pt d = (d', Inr x)"
  shows "CountByUser d' (to_UserID opts) > 0" "db_tenants d' = db_tenants d" "db_users d' = db_users d"
    "db_members d' = db_members d"
proof -
  obtain r tb where ins: "insert_unique tkr_Hash (mk_token_row (opts, pt, now)) (db_tokens d) = Some (r, tb)"
      and d': "d' = d\<lparr>db_tokens := tb\<rparr>"
    using assms by (auto simp: persist_def split: option.splits if_splits)
  have "tkr_UserID r = to_UserID opts"
    using token_rows.insert_SomeD(1) [OF ins] by (simp add: mk_token_row_def)
  then show "CountByUser d' (to_UserID opts) > 0"
    using token_rows.insert_SomeD(2) [OF ins] by (simp add: CountByUser_def d' select_all_def)
  show "db_tenants d' = db_tenants d" "db_users d' = db_users d" "db_members d' = db_members d"
    by (simp_all add: d')
qed

lemma ensure_token_counts:
  assumes "ensure_token rb now opts i d = (d', Inr pt)"
  shows "CountByUser d' i > 0" "db_tenants d' = db_tenants d" "db_users d' = db_users d"
    "db_members d' = db_members d"
proof -
  consider "CountByUser d i \<noteq> 0" "d' = d"
    | y tok where "persist now (admin_token_options i) tok d = (d', Inr y)"
    using assms
    by (auto simp: ensure_token_def IssueWithPlaintext_def Issue_def split: if_splits prod.splits sum.splits)
  then have "CountByUser d' i > 0 \<and> db_tenants d' = db_tenants d \<and> db_users d' = db_users d \<and> db_members d' = db_members d"
    by cases (auto dest: persist_counts simp: admin_token_options_def)
  then show "CountByUser d' i > 0" "db_tenants d' = db_tenants d" "db_users d' = db_users d"
    "db_members d' = db_members d" by simp_all
qed

text \<open>
C21: \<open>Ensure\<close> is idempotent: once it has succeeded, running it again with the same options - at any
  later time and with any random bytes - succeeds, changes nothing in the database, reports the same
  tenant and administrator, and generates no second token.
\<close>

theorem Ensure_idempotent:
  assumes "accounts_ok d" and "Ensure rb now opts d = (d', Inr res)"
  shows "Ensure rb' now' opts d' = (d', Inr (res\<lparr>br_GeneratedAdminToken := []\<rparr>))"
proof -
  from assms(2) obtain d1 t d2 u d3 x pt where
    t: "ensure_tenant now opts d = (d1, Inr t)" and u: "ensure_admin now d1 = (d2, Inr u)"
    and m: "AddMember (ten_ID t) (usr_ID u) RoleTenantAdmin d2 = (d3, Inr x)"
    and tok: "ensure_token rb now opts (usr_ID u) d3 = (d', Inr pt)"
    and res: "res = \<lparr>br_DefaultTenant = t, br_AdminUser = u, br_GeneratedAdminToken = pt\<rparr>"
    by (auto simp: Ensure_def split: prod.splits sum.splits)
  have ok1: "accounts_ok d1"
  proof -
    have "d1 = d \<or> (\<exists>n v. d1 = fst (tenants_Create now n v d)) \<or> (\<exists>i v. d1 = SetVisibility i v d)"
      using t by (auto simp: ensure_tenant_def Let_def split: sum.splits if_splits) (metis fst_conv)+
    with assms(1) show ?thesis by (auto simp: ok_intros)
  qed
  have ex2: "tenant_exists d2 (ten_ID t)" "user_exists d2 (usr_ID u)"
    using m by (auto simp: AddMember_def split: if_splits)
  note c = ensure_token_counts [OF tok]
  have same: "db_tenants d3 = db_tenants d2" "db_users d3 = db_users d2"
    using m by (auto simp: AddMember_def split: if_splits)
  have tens: "db_tenants d' = db_tenants d1"
    using c(2) same(1) ensure_admin_again(2) [OF ok1 u refl] by simp
  have usrs: "db_users d' = db_users d2" using c(3) same(2) by simp
  have "ensure_tenant now' opts d' = (d', Inr t)" "ensure_admin now' d' = (d', Inr u)"
    using ensure_tenant_again(1) [OF assms(1) t tens] ensure_admin_again(1) [OF ok1 u usrs] by auto
  moreover have "AddMember (ten_ID t) (usr_ID u) RoleTenantAdmin d' = (d', Inr ())"
    using AddMember_again(1) [OF m c(4)] ex2 c(2,3) same by (simp add: tenant_exists_def user_exists_def)
  moreover have "ensure_token rb' now' opts (usr_ID u) d' = (d', Inr [])"
    using c(1) by (simp add: ensure_token_def)
  ultimately show ?thesis
    by (simp add: Ensure_def res)
qed

lemma Ensure_sample: "\<exists>res. Ensure [] 3 sample_boot sample_db = (fst (Ensure [] 3 sample_boot sample_db), Inr res)"
proof -
  have lower: "to_lower ''default'' = ''default''" "to_lower ''admin'' = ''admin''"
    by (simp_all add: to_lower_def lower_char_def Let_def)
  show ?thesis
    by (simp add: Ensure_def ensure_tenant_def ensure_admin_def ensure_token_def sample_db_eq sample_boot_def fresh_db_def
        tenants_GetByName_def users_GetByName_def select_one_def default_tenant_row_def lower VisibilityPublic_def
        SetVisibility_def sample_admin_row_def mk_user_def AddMember_def tenant_exists_def user_exists_def CountByUser_def
        select_all_def IssueWithPlaintext_def token_prefix_def has_prefix_def persist_def insert_unique_def Let_def
        admin_token_options_def update_where_def)
qed

theorem Ensure_idempotent_witness:
  "\<exists>d' res. Ensure [] 8 sample_boot d' = (d', Inr res)"
  using Ensure_sample Ensure_idempotent [OF sample_db_ok] by metis

end
