(* ===== verification/Lock_Pool.thy ===== *)
theory Lock_Pool
  imports Prelude
begin

text \<open>
  The pool of per-key mutexes (\<open>internal/syncutil/exclusive_pool.go\<close>). The pool's own
  \<open>lock\<close> makes the first half of \<open>CheckIn\<close> (up to \<open>p.lock.Unlock()\<close>) and the whole of
  \<open>CheckOut\<close> atomic; taking the per-key mutex is a step of its own, which blocks while the mutex
  is locked. A mutex is a number, \<open>mutex_next\<close> the next unused one (\<open>&sync.Mutex{}\<close>), and
  \<open>mutex_locked\<close> the set of those that are locked. Any number of goroutines use the pool, in any
  interleaving; each pairs its \<open>CheckIn\<close> with one \<open>CheckOut\<close>, as the comment asks.
\<close>

section \<open>The pool\<close>

record lock_pool =
  pool :: "string \<Rightarrow> nat option"
  pool_count :: "string \<Rightarrow> int option"
  mutex_locked :: "nat set"
  mutex_next :: nat

definition NewExclusivePool :: lock_pool where
  "NewExclusivePool = \<lparr>pool = Map.empty, pool_count = Map.empty, mutex_locked = {}, mutex_next = 0\<rparr>"

text \<open>Reading a missing key of a Go map of integers yields zero.\<close>

definition count_of :: "lock_pool \<Rightarrow> string \<Rightarrow> int" where
  "count_of p k = (case pool_count p k of None \<Rightarrow> 0 | Some n \<Rightarrow> n)"

definition CheckIn_register :: "string \<Rightarrow> lock_pool \<Rightarrow> lock_pool \<times> nat" where
  "CheckIn_register k p =
     (let (p1, mu) = (case pool p k of
            Some mu \<Rightarrow> (p, mu)
          | None \<Rightarrow> (p\<lparr>pool := (pool p)(k \<mapsto> mutex_next p), mutex_next := Suc (mutex_next p)\<rparr>, mutex_next p))
      in (p1\<lparr>pool_count := (pool_count p1)(k \<mapsto> count_of p1 k + 1)\<rparr>, mu))"

text \<open>\<open>None\<close> while the mutex is locked: the caller blocks.\<close>

definition CheckIn_lock :: "nat \<Rightarrow> lock_pool \<Rightarrow> lock_pool option" where
  "CheckIn_lock mu p =
     (if mu \<in> mutex_locked p then None else Some (p\<lparr>mutex_locked := insert mu (mutex_locked p)\<rparr>))"

text \<open>\<open>None\<close> is the panic: no mutex for the key, or one that is not locked.\<close>

definition CheckOut :: "string \<Rightarrow> lock_pool \<Rightarrow> lock_pool option" where
  "CheckOut k p =
     (case pool p k of
        None \<Rightarrow> None
      | Some mu \<Rightarrow>
          (if mu \<notin> mutex_locked p then None
           else (let p1 = p\<lparr>mutex_locked := mutex_locked p - {mu}\<rparr> in
             if count_of p1 k = 1
             then Some (p1\<lparr>pool := (pool p1)(k := None), pool_count := (pool_count p1)(k := None)\<rparr>)
             else Some (p1\<lparr>pool_count := (pool_count p1)(k \<mapsto> count_of p1 k - 1)\<rparr>))))"

definition Size :: "lock_pool \<Rightarrow> nat" where
  "Size p = card (dom (pool p))"

section \<open>Goroutines\<close>

datatype thread_state = Idle | Waiting string nat | Holding string nat

record lock_system =
  lp :: lock_pool
  threads :: "nat \<Rightarrow> thread_state"

inductive pool_step :: "lock_system \<Rightarrow> lock_system \<Rightarrow> bool" where
  register: "threads s t = Idle \<Longrightarrow> CheckIn_register k (lp s) = (p, mu) \<Longrightarrow>
     pool_step s (s\<lparr>lp := p, threads := (threads s)(t := Waiting k mu)\<rparr>)"
| acquire: "threads s t = Waiting k mu \<Longrightarrow> CheckIn_lock mu (lp s) = Some p \<Longrightarrow>
     pool_step s (s\<lparr>lp := p, threads := (threads s)(t := Holding k mu)\<rparr>)"
| release: "threads s t = Holding k mu \<Longrightarrow> CheckOut k (lp s) = Some p \<Longrightarrow>
     pool_step s (s\<lparr>lp := p, threads := (threads s)(t := Idle)\<rparr>)"

definition init_locks :: lock_system where
  "init_locks = \<lparr>lp = NewExclusivePool, threads = (\<lambda>_. Idle)\<rparr>"

inductive reachable_locks :: "lock_system \<Rightarrow> bool" where
  start: "reachable_locks init_locks"
| step: "reachable_locks s \<Longrightarrow> pool_step s s' \<Longrightarrow> reachable_locks s'"

inductive_cases pool_stepE: "pool_step s s'"

section \<open>The invariant\<close>

text \<open>The goroutines that wait for or hold a key; the mutex each of them knows.\<close>

fun uses :: "thread_state \<Rightarrow> string \<Rightarrow> bool" where
  "uses Idle k = False"
| "uses (Waiting k' mu) k = (k' = k)"
| "uses (Holding k' mu) k = (k' = k)"

fun knows :: "thread_state \<Rightarrow> nat option" where
  "knows Idle = None"
| "knows (Waiting k mu) = Some mu"
| "knows (Holding k mu) = Some mu"

definition users_of :: "lock_system \<Rightarrow> string \<Rightarrow> nat set" where
  "users_of s k = {t. uses (threads s t) k}"

text \<open>
  The counter of a key is the number of goroutines that use it, a key has a mutex exactly while
  somebody uses it, everybody who uses the key knows that mutex, different keys have different
  mutexes, and a mutex is locked exactly when some goroutine holds its key - only one can.
\<close>

definition lock_inv :: "lock_system \<Rightarrow> bool" where
  "lock_inv s \<longleftrightarrow>
     (\<forall>k. finite (users_of s k) \<and> count_of (lp s) k = int (card (users_of s k)))
   \<and> (\<forall>k. (pool (lp s) k = None) = (users_of s k = {}))
   \<and> (\<forall>k t. t \<in> users_of s k \<longrightarrow> knows (threads s t) = pool (lp s) k)
   \<and> (\<forall>k k' mu. pool (lp s) k = Some mu \<longrightarrow> pool (lp s) k' = Some mu \<longrightarrow> k = k')
   \<and> (\<forall>k mu. pool (lp s) k = Some mu \<longrightarrow> mu < mutex_next (lp s))
   \<and> (\<forall>mu \<in> mutex_locked (lp s). mu < mutex_next (lp s))
   \<and> (\<forall>mu. mu \<in> mutex_locked (lp s) \<longleftrightarrow> (\<exists>t k. threads s t = Holding k mu))
   \<and> (\<forall>t t' k k' mu. threads s t = Holding k mu \<longrightarrow> threads s t' = Holding k' mu \<longrightarrow> t = t')"

lemma lock_inv_init: "lock_inv init_locks"
  by (simp add: lock_inv_def init_locks_def NewExclusivePool_def users_of_def count_of_def)

lemma lock_invD:
  assumes "lock_inv s"
  shows "finite (users_of s k)" "count_of (lp s) k = int (card (users_of s k))"
    "pool (lp s) k = None \<longleftrightarrow> users_of s k = {}"
    "t \<in> users_of s k \<Longrightarrow> knows (threads s t) = pool (lp s) k"
    "pool (lp s) k = Some mu \<Longrightarrow> pool (lp s) k' = Some mu \<Longrightarrow> k = k'"
    "pool (lp s) k = Some mu \<Longrightarrow> mu < mutex_next (lp s)"
    "mu \<in> mutex_locked (lp s) \<Longrightarrow> mu < mutex_next (lp s)"
    "mu \<in> mutex_locked (lp s) \<longleftrightarrow> (\<exists>t k. threads s t = Holding k mu)"
    "threads s t = Holding k mu \<Longrightarrow> threads s t' = Holding k' mu \<Longrightarrow> t = t'"
  using assms unfolding lock_inv_def by blast+

lemma count_of_locked [simp]: "count_of (p\<lparr>mutex_locked := L\<rparr>) k = count_of p k"
  by (simp add: count_of_def)

lemma users_of_update:
  "users_of (s\<lparr>lp := p, threads := (threads s)(t := st)\<rparr>) k =
     (if uses st k then insert t (users_of s k) else users_of s k - {t})"
  by (auto simp: users_of_def)

lemma register_inv:
  assumes inv: "lock_inv s" and idle: "threads s t = Idle" and reg: "CheckIn_register k (lp s) = (p, mu)"
  shows "lock_inv (s\<lparr>lp := p, threads := (threads s)(t := Waiting k mu)\<rparr>)"
proof -
  let ?s = "s\<lparr>lp := p, threads := (threads s)(t := Waiting k mu)\<rparr>"
  note I = lock_invD [OF inv]
  have t: "t \<notin> users_of s k'" for k' using idle by (simp add: users_of_def)
  have us: "users_of ?s k' = (if k' = k then insert t (users_of s k) else users_of s k')" for k'
    using t by (auto simp: users_of_update)
  have fields: "pool p = (pool (lp s))(k \<mapsto> mu)" "mutex_locked p = mutex_locked (lp s)"
    "mutex_next (lp s) \<le> mutex_next p" "mu < mutex_next p"
    "pool (lp s) k = Some mu \<or> (pool (lp s) k = None \<and> mu = mutex_next (lp s))"
    using reg I(6) by (auto simp: CheckIn_register_def Let_def split: option.splits)
  have cnt: "count_of p k' = (if k' = k then count_of (lp s) k + 1 else count_of (lp s) k')" for k'
    using reg by (auto simp: CheckIn_register_def Let_def count_of_def split: option.splits)
  have fresh: "pool (lp s) k' \<noteq> Some mu" if "k' \<noteq> k" for k'
    using fields(5) I(5) [of k mu k'] I(6) [of k' mu] that by auto
  have hold: "threads ?s t' = Holding k' m \<longleftrightarrow> threads s t' = Holding k' m" for t' k' m
    using idle by auto
  show ?thesis
    unfolding lock_inv_def
  proof (intro conjI allI ballI impI)
    fix k'
    show "finite (users_of ?s k')" using I(1) by (simp add: us)
    show "count_of (lp ?s) k' = int (card (users_of ?s k'))" using I(1,2) t by (simp add: us cnt)
    show "(pool (lp ?s) k' = None) = (users_of ?s k' = {})" using I(3) by (simp add: us fields(1))
  next
    fix k' t' assume "t' \<in> users_of ?s k'"
    then show "knows (threads ?s t') = pool (lp ?s) k'"
      using I(4) [of t' k'] fields(5) I(3) [of k] t [of k'] by (auto simp: us fields(1) split: if_splits)
  next
    fix k1 k2 m assume "pool (lp ?s) k1 = Some m" "pool (lp ?s) k2 = Some m"
    then show "k1 = k2" using I(5) fresh by (auto simp: fields(1) split: if_splits)
  next
    fix k1 m assume "pool (lp ?s) k1 = Some m"
    then show "m < mutex_next (lp ?s)" using I(6) [of k1 m] fields(3,4) by (auto simp: fields(1) split: if_splits)
  next
    fix m assume "m \<in> mutex_locked (lp ?s)"
    then show "m < mutex_next (lp ?s)" using I(7) [of m] fields(2,3) by simp
  next
    fix m show "(m \<in> mutex_locked (lp ?s)) = (\<exists>t k. threads ?s t = Holding k m)"
      using I(8) [of m] unfolding hold by (simp add: fields(2))
  next
    fix t1 t2 k1 k2 m assume "threads ?s t1 = Holding k1 m" "threads ?s t2 = Holding k2 m"
    then show "t1 = t2" using I(9) unfolding hold by blast
  qed
qed

lemma acquire_inv:
  assumes inv: "lock_inv s" and waits: "threads s t = Waiting k mu" and lock: "CheckIn_lock mu (lp s) = Some p"
  shows "lock_inv (s\<lparr>lp := p, threads := (threads s)(t := Holding k mu)\<rparr>)"
proof -
  let ?s = "s\<lparr>lp := p, threads := (threads s)(t := Holding k mu)\<rparr>"
  note I = lock_invD [OF inv]
  have p: "p = (lp s)\<lparr>mutex_locked := insert mu (mutex_locked (lp s))\<rparr>" and free: "mu \<notin> mutex_locked (lp s)"
    using lock by (auto simp: CheckIn_lock_def split: if_splits)
  have us: "users_of ?s k' = users_of s k'" for k'
    using waits by (auto simp: users_of_def)
  have kn: "knows (threads ?s t') = knows (threads s t')" for t'
    using waits by simp
  have cnt: "count_of p k' = count_of (lp s) k'" for k'
    by (simp add: p count_of_def)
  have mine: "pool (lp s) k = Some mu"
    using I(4) [of t k] waits by (simp add: users_of_def)
  have nobody: "threads s t' \<noteq> Holding k' mu" for t' k'
    using free I(8) by blast
  show ?thesis
    unfolding lock_inv_def us kn
  proof (intro conjI allI ballI impI)
    fix m show "(m \<in> mutex_locked (lp ?s)) = (\<exists>t k. threads ?s t = Holding k m)"
    proof (cases "m = mu")
      case True
      then show ?thesis by (auto simp: p)
    next
      case False
      then have "threads ?s t' = Holding k' m \<longleftrightarrow> threads s t' = Holding k' m" for t' k'
        using waits by auto
      with False show ?thesis using I(8) [of m] by (simp add: p)
    qed
  next
    fix t1 t2 k1 k2 m assume "threads ?s t1 = Holding k1 m" "threads ?s t2 = Holding k2 m"
    then show "t1 = t2" using I(9) [of t1 k1 m t2 k2] nobody by (auto split: if_splits)
  next
    fix m assume "m \<in> mutex_locked (lp ?s)"
    then show "m < mutex_next (lp ?s)" using I(7) [of m] I(6) [OF mine] by (auto simp: p)
  qed (use I in \<open>auto simp: cnt p\<close>)
qed

lemma release_inv:
  assumes inv: "lock_inv s" and holds: "threads s t = Holding k mu" and out: "CheckOut k (lp s) = Some p"
  shows "lock_inv (s\<lparr>lp := p, threads := (threads s)(t := Idle)\<rparr>)"
proof -
  let ?s = "s\<lparr>lp := p, threads := (threads s)(t := Idle)\<rparr>"
  note I = lock_invD [OF inv]
  have t: "t \<in> users_of s k" using holds by (simp add: users_of_def)
  have mine: "pool (lp s) k = Some mu" using I(4) [OF t] holds by simp
  have us: "users_of ?s k' = (if k' = k then users_of s k - {t} else users_of s k')" for k'
    using holds by (auto simp: users_of_def)
  define last where "last \<longleftrightarrow> card (users_of s k) = 1"
  have last: "last \<longleftrightarrow> users_of s k - {t} = {}"
    using t by (auto simp: last_def card_1_singleton_iff)
  have p: "pool p = (if last then (pool (lp s))(k := None) else pool (lp s))"
    "mutex_locked p = mutex_locked (lp s) - {mu}" "mutex_next p = mutex_next (lp s)"
    "count_of p k' = (if k' = k then count_of (lp s) k - 1 else count_of (lp s) k')" for k'
    using out mine I(2) [of k]
    by (auto simp: CheckOut_def Let_def last_def count_of_def split: if_splits option.splits)
  have hold: "threads ?s t' = Holding k' m \<longleftrightarrow> t' \<noteq> t \<and> threads s t' = Holding k' m" for t' k' m
    by auto
  show ?thesis
    unfolding lock_inv_def
  proof (intro conjI allI ballI impI)
    fix k'
    show "finite (users_of ?s k')" using I(1) by (simp add: us)
    show "count_of (lp ?s) k' = int (card (users_of ?s k'))"
      using I(1,2) t card_gt_0_iff [of "users_of s k"] by (auto simp: us p(4) card_Diff_singleton of_nat_diff)
    show "(pool (lp ?s) k' = None) = (users_of ?s k' = {})"
      using I(3) [of k'] last mine by (auto simp: us p(1))
  next
    fix k' t' assume a: "t' \<in> users_of ?s k'"
    then have "t' \<noteq> t" by (auto simp: users_of_def)
    moreover have "t' \<in> users_of s k'" using a by (auto simp: us split: if_splits)
    moreover have "pool (lp ?s) k' = pool (lp s) k'"
      using a last by (auto simp: us p(1))
    ultimately show "knows (threads ?s t') = pool (lp ?s) k'" using I(4) by simp
  next
    fix k1 k2 m assume "pool (lp ?s) k1 = Some m" "pool (lp ?s) k2 = Some m"
    then show "k1 = k2" using I(5) by (auto simp: p(1) split: if_splits)
  next
    fix k1 m assume "pool (lp ?s) k1 = Some m"
    then show "m < mutex_next (lp ?s)" using I(6) [of k1 m] by (auto simp: p split: if_splits)
  next
    fix m assume "m \<in> mutex_locked (lp ?s)"
    then show "m < mutex_next (lp ?s)" using I(7) [of m] by (simp add: p)
  next
    fix m
    show "(m \<in> mutex_locked (lp ?s)) = (\<exists>t k. threads ?s t = Holding k m)"
    proof (cases "m = mu")
      case True
      have "t' = t" if "threads s t' = Holding k' mu" for t' k' using I(9) [OF that holds] .
      with True show ?thesis unfolding hold by (auto simp: p)
    next
      case False
      then have "(\<exists>t' k'. t' \<noteq> t \<and> threads s t' = Holding k' m) \<longleftrightarrow> (\<exists>t' k'. threads s t' = Holding k' m)"
        using holds by force
      with False show ?thesis unfolding hold using I(8) [of m] by (simp add: p)
    qed
  next
    fix t1 t2 k1 k2 m assume "threads ?s t1 = Holding k1 m" "threads ?s t2 = Holding k2 m"
    then show "t1 = t2" using I(9) unfolding hold by blast
  qed
qed

lemma pool_step_inv: "pool_step s s' \<Longrightarrow> lock_inv s \<Longrightarrow> lock_inv s'"
  by (induction rule: pool_step.induct) (blast intro: register_inv acquire_inv release_inv)+

lemma reachable_lock_inv: "reachable_locks s \<Longrightarrow> lock_inv s"
  by (induction rule: reachable_locks.induct) (auto intro: lock_inv_init pool_step_inv)

section \<open>Properties\<close>

text \<open>A run for the witnesses: goroutine 1 holds the key, goroutine 2 waits for it.\<close>

definition sample_locks :: lock_system where
  "sample_locks =
     \<lparr>lp = \<lparr>pool = [''a'' \<mapsto> 0], pool_count = [''a'' \<mapsto> 2], mutex_locked = {0}, mutex_next = 1\<rparr>,
      threads = (\<lambda>_. Idle)(1 := Holding ''a'' 0, 2 := Waiting ''a'' 0)\<rparr>"

lemma reachable_sample: "reachable_locks sample_locks"
proof -
  let ?p1 = "\<lparr>pool = [''a'' \<mapsto> 0], pool_count = [''a'' \<mapsto> 1], mutex_locked = {}, mutex_next = 1\<rparr>"
  let ?s1 = "\<lparr>lp = ?p1, threads = (\<lambda>_. Idle)(1 := Waiting ''a'' 0)\<rparr>"
  let ?s2 = "\<lparr>lp = ?p1\<lparr>mutex_locked := {0}\<rparr>, threads = (\<lambda>_. Idle)(1 := Holding ''a'' 0)\<rparr>"
  have "CheckIn_register ''a'' (lp init_locks) = (?p1, 0)"
    by (simp add: CheckIn_register_def init_locks_def NewExclusivePool_def count_of_def)
  from register [OF _ this, of 1] have "pool_step init_locks ?s1"
    by (simp add: init_locks_def)
  then have 1: "reachable_locks ?s1" by (rule reachable_locks.step [OF start])
  have "CheckIn_lock 0 (lp ?s1) = Some (lp ?s2)" by (simp add: CheckIn_lock_def)
  from acquire [OF _ this, of 1 "''a''"] have "pool_step ?s1 ?s2" by simp
  with 1 have 2: "reachable_locks ?s2" by (rule reachable_locks.step)
  have "CheckIn_register ''a'' (lp ?s2) = (lp sample_locks, 0)"
    by (simp add: CheckIn_register_def count_of_def sample_locks_def)
  from register [OF _ this, of 2] have "pool_step ?s2 sample_locks"
    by (simp add: sample_locks_def)
  with 2 show ?thesis by (rule reachable_locks.step)
qed

text \<open>
C22: Mutual exclusion: in every interleaving, at most one goroutine is between \<open>CheckIn\<close> and
  \<open>CheckOut\<close> of one key - also when the key's mutex has been dropped from the pool and created again in between.
\<close>

theorem pool_mutual_exclusion:
  assumes "reachable_locks s" and "threads s t = Holding k mu" and "threads s t' = Holding k mu'"
  shows "t = t'"
proof -
  note I = lock_invD [OF reachable_lock_inv [OF assms(1)]]
  have "t \<in> users_of s k" "t' \<in> users_of s k" using assms(2,3) by (simp_all add: users_of_def)
  then have "Some mu = pool (lp s) k" "Some mu' = pool (lp s) k"
    using I(4) [of t k] I(4) [of t' k] assms(2,3) by simp_all
  then have "mu = mu'" by (metis option.inject)
  then show ?thesis using I(9) assms(2,3) by blast
qed

theorem pool_mutual_exclusion_witness: "{t. \<exists>mu. threads sample_locks t = Holding ''a'' mu} = {1}"
proof (intro equalityI subsetI)
  fix t assume "t \<in> {t. \<exists>mu. threads sample_locks t = Holding ''a'' mu}"
  then obtain mu where "threads sample_locks t = Holding ''a'' mu" by blast
  from pool_mutual_exclusion [OF reachable_sample this, of 1 0] show "t \<in> {1}"
    by (simp add: sample_locks_def)
qed (simp add: sample_locks_def)

text \<open>
C23: The pool never gets stuck and never leaks. A goroutine that holds a key can always check out - no
  panic; if a goroutine waits for a key, then either some goroutine holds that key or the waiting
  one can take it at once; and \<open>Size\<close> is the number of keys in use, zero when nobody uses the pool.
\<close>

theorem pool_progress:
  assumes "reachable_locks s"
  shows "(threads s t = Holding k mu \<longrightarrow> (\<exists>p. CheckOut k (lp s) = Some p))
    \<and> (threads s t = Waiting k mu \<longrightarrow>
         (\<exists>t' mu'. threads s t' = Holding k mu') \<or> (\<exists>p. CheckIn_lock mu (lp s) = Some p))
    \<and> Size (lp s) = card {k. users_of s k \<noteq> {}}"
proof (intro conjI impI)
  note I = lock_invD [OF reachable_lock_inv [OF assms]]
  have knows: "pool (lp s) k = Some mu" if "uses (threads s t) k" "knows (threads s t) = Some mu" for t k mu
    using I(4) [of t k] that by (simp add: users_of_def)
  show "\<exists>p. CheckOut k (lp s) = Some p" if h: "threads s t = Holding k mu"
  proof -
    have "pool (lp s) k = Some mu" using knows [of t k mu] h by simp
    moreover have "mu \<in> mutex_locked (lp s)" using I(8) h by blast
    ultimately show ?thesis by (simp add: CheckOut_def Let_def)
  qed
  show "(\<exists>t' mu'. threads s t' = Holding k mu') \<or> (\<exists>p. CheckIn_lock mu (lp s) = Some p)"
    if w: "threads s t = Waiting k mu"
  proof (cases "mu \<in> mutex_locked (lp s)")
    case True
    then obtain t' k' where h: "threads s t' = Holding k' mu" using I(8) by blast
    have "k' = k" using I(5) knows [of t' k' mu] knows [of t k mu] h w by simp
    with h show ?thesis by blast
  next
    case False
    then show ?thesis by (simp add: CheckIn_lock_def)
  qed
  have "dom (pool (lp s)) = {k. users_of s k \<noteq> {}}" using I(3) by (auto simp: dom_def)
  then show "Size (lp s) = card {k. users_of s k \<noteq> {}}" by (simp add: Size_def)
qed

theorem pool_progress_witness: "\<exists>p. CheckOut ''a'' (lp sample_locks) = Some p"
  using pool_progress [OF reachable_sample, of 1 "''a''" 0] by (simp add: sample_locks_def)

end
