(* ===== verification/Upstream_Config.thy ===== *)
theory Upstream_Config
  imports Database Go_Values Accounts
begin

text \<open>
  Configuration of pull-through caching: modes and errors (\<open>internal/upstream/upstream.go\<close>), the
  compiled-in registries, the host allowlist and the private-address guard (\<open>defaults.go\<close>), the
  environment (\<open>config.go\<close>), the resolution of a tenant's settings (\<open>store.go\<close>) and their table
  (\<open>internal/upstreamstore/store.go\<close>).

  A URL is the part of \<open>net/url.URL\<close> the code reads: scheme, host name without port, and its text.
  \<open>parse\<close> (\<open>url.Parse\<close>) and \<open>parse_duration\<close> (\<open>time.ParseDuration\<close>, nanoseconds) are parameters;
  everything below holds for whatever they return. \<open>env\<close> is \<open>os.Getenv\<close>.
\<close>

unbundle bit_operations_syntax

section \<open>Modes, requests, results\<close>

definition ModeOff :: string where "ModeOff = ''off''"
definition ModeCacheAndServe :: string where "ModeCacheAndServe = ''cache_and_serve''"
definition ModeCacheOnly :: string where "ModeCacheOnly = ''cache_only''"

definition Mode_Valid :: "string \<Rightarrow> bool" where
  "Mode_Valid m = (m = ModeOff \<or> m = ModeCacheAndServe \<or> m = ModeCacheOnly)"

datatype upstream_kind = KindMetadata | KindBlob

datatype upstream_error =
    ErrUpstreamOff | ErrUpstreamNotFound | ErrUpstreamRateLimit | ErrUpstreamTooLarge
  | ErrUpstreamForbidden | ErrUpstreamTimeout | ErrUpstreamUpstream | ErrResolvingConfig

record url =
  url_Scheme :: string
  url_Hostname :: string
  url_String :: string

record tenant_config =
  tc_Mode :: string
  tc_UpstreamBaseURL :: "url option"
  tc_MetadataTTL :: int

section \<open>Compiled-in registries\<close>

record default_upstream =
  du_URL :: string
  du_Hosts :: "string list"
  du_PullThroughSupported :: bool

definition defaultUpstreams :: "(string \<times> default_upstream) list" where
  "defaultUpstreams =
    [(''pypi'', \<lparr>du_URL = ''https://pypi.org'',
        du_Hosts = [''pypi.org'', ''files.pythonhosted.org''], du_PullThroughSupported = True\<rparr>),
     (''npm'', \<lparr>du_URL = ''https://registry.npmjs.org'',
        du_Hosts = [''registry.npmjs.org''], du_PullThroughSupported = False\<rparr>),
     (''go'', \<lparr>du_URL = ''https://proxy.golang.org'',
        du_Hosts = [''proxy.golang.org'', ''sum.golang.org''], du_PullThroughSupported = True\<rparr>),
     (''rubygems'', \<lparr>du_URL = ''https://rubygems.org'',
        du_Hosts = [''rubygems.org'', ''index.rubygems.org''], du_PullThroughSupported = True\<rparr>),
     (''maven'', \<lparr>du_URL = ''https://repo.maven.apache.org/maven2'',
        du_Hosts = [''repo.maven.apache.org'', ''repo1.maven.org''], du_PullThroughSupported = False\<rparr>),
     (''nuget'', \<lparr>du_URL = ''https://api.nuget.org/v3/index.json'',
        du_Hosts = [''api.nuget.org''], du_PullThroughSupported = False\<rparr>),
     (''cran'', \<lparr>du_URL = ''https://cran.r-project.org'',
        du_Hosts = [''cran.r-project.org''], du_PullThroughSupported = False\<rparr>),
     (''alpine'', \<lparr>du_URL = ''https://dl-cdn.alpinelinux.org/alpine'',
        du_Hosts = [''dl-cdn.alpinelinux.org''], du_PullThroughSupported = False\<rparr>),
     (''debian'', \<lparr>du_URL = ''https://deb.debian.org/debian'',
        du_Hosts = [''deb.debian.org'', ''security.debian.org''], du_PullThroughSupported = False\<rparr>),
     (''rpm'', \<lparr>du_URL = ''https://dl.fedoraproject.org'',
        du_Hosts = [''dl.fedoraproject.org'', ''mirrors.fedoraproject.org''], du_PullThroughSupported = False\<rparr>)]"

definition LookupDefault :: "string \<Rightarrow> default_upstream option" where
  "LookupDefault format = map_of defaultUpstreams (to_lower format)"

text \<open>The order of the hosts is Go's map order; only their set is used.\<close>

definition DefaultHosts :: "string list" where
  "DefaultHosts = remdups (concat (map (\<lambda>(f, d). du_Hosts d) defaultUpstreams))"

section \<open>The host allowlist\<close>

definition allowlist_add :: "string \<Rightarrow> string set \<Rightarrow> string set" where
  "allowlist_add h hosts = (let h' = to_lower (trim_space h) in if h' = [] then hosts else insert h' hosts)"

definition NewAllowlist :: "string list \<Rightarrow> string set" where
  "NewAllowlist extra = fold allowlist_add extra (fold allowlist_add DefaultHosts {})"

definition Permits :: "string set \<Rightarrow> url \<Rightarrow> bool" where
  "Permits hosts u = (let host = to_lower (url_Hostname u) in if host = [] then False else host \<in> hosts)"

section \<open>The private-address guard\<close>

text \<open>
  A \<open>net.IP\<close> is its bytes: 4, 16, or none for \<open>nil\<close>. \<open>privateRanges\<close> lists network and prefix length
  as \<open>net.ParseCIDR\<close> reads them.
\<close>

type_synonym ip = "nat list"

definition zeros :: "nat \<Rightarrow> nat list" where "zeros n = replicate n 0"

definition privateRanges :: "(ip \<times> nat) list" where
  "privateRanges =
    [([127, 0, 0, 0], 8), ([10, 0, 0, 0], 8), ([172, 16, 0, 0], 12), ([192, 168, 0, 0], 16),
     ([169, 254, 0, 0], 16), (zeros 15 @ [1], 128), (0xfc # zeros 15, 7), (0xfe # 0x80 # zeros 14, 10),
     ([0, 0, 0, 0], 8), ([100, 64, 0, 0], 10)]"

fun cidr_mask :: "nat \<Rightarrow> nat \<Rightarrow> nat list" where
  "cidr_mask 0 plen = []"
| "cidr_mask (Suc n) plen =
     (if plen \<ge> 8 then 0xff # cidr_mask n (plen - 8)
      else (256 - 2 ^ (8 - plen)) # cidr_mask n 0)"

definition To4 :: "ip \<Rightarrow> ip option" where
  "To4 a =
     (if length a = 4 then Some a
      else if length a = 16 \<and> take 10 a = zeros 10 \<and> a ! 10 = 0xff \<and> a ! 11 = 0xff then Some (drop 12 a)
      else None)"

definition net_Contains :: "ip \<times> nat \<Rightarrow> ip \<Rightarrow> bool" where
  "net_Contains n a =
     (let nn = fst n; m = cidr_mask (length nn) (snd n); x = (case To4 a of Some b \<Rightarrow> b | None \<Rightarrow> a)
      in length x = length nn \<and> list_all (\<lambda>i. (nn ! i) AND (m ! i) = (x ! i) AND (m ! i)) [0..<length nn])"

definition AllowsIP :: "bool \<Rightarrow> ip \<Rightarrow> bool" where
  "AllowsIP permitted a =
     (if permitted \<or> a = [] then permitted else \<not> list_ex (\<lambda>n. net_Contains n a) privateRanges)"

section \<open>The environment\<close>

record upstream_env_config =
  uc_DefaultMode :: string
  uc_AllowedHostsExtra :: "string list"
  uc_AllowPrivateIPs :: bool
  uc_AllowPlaintext :: bool
  uc_FetchTimeout :: int
  uc_ConnectTimeout :: int
  uc_MaxBytesPerFetch :: int
  uc_FetchRPMPerTenant :: int
  uc_UserAgent :: string
  uc_MetadataCacheMaxBytes :: int
  uc_DefaultMetadataTTL :: int

definition second :: int where "second = 1000000000"

definition DefaultConfig :: upstream_env_config where
  "DefaultConfig =
     \<lparr>uc_DefaultMode = ModeCacheAndServe, uc_AllowedHostsExtra = [], uc_AllowPrivateIPs = False,
      uc_AllowPlaintext = False, uc_FetchTimeout = 30 * second, uc_ConnectTimeout = 5 * second,
      uc_MaxBytesPerFetch = 100 * 1024 * 1024, uc_FetchRPMPerTenant = 600,
      uc_UserAgent = ''pkgmirror/0.1 (+https://github.com/astockwell/pkgmirror)'',
      uc_MetadataCacheMaxBytes = 64 * 1024 * 1024, uc_DefaultMetadataTTL = 5 * 60 * second\<rparr>"

definition envBool :: "(string \<Rightarrow> string) \<Rightarrow> string \<Rightarrow> bool \<Rightarrow> bool" where
  "envBool env key def =
     (let v = to_lower (trim_space (env key)) in
      if v = [] then def
      else if v \<in> {''true'', ''1'', ''yes'', ''on''} then True
      else if v \<in> {''false'', ''0'', ''no'', ''off''} then False
      else def)"

definition envInt64 :: "(string \<Rightarrow> string) \<Rightarrow> string \<Rightarrow> int \<Rightarrow> int" where
  "envInt64 env key def =
     (let v = trim_space (env key) in
      if v = [] then def
      else (case parse_int64 v of None \<Rightarrow> def | Some n \<Rightarrow> if n \<le> 0 then def else n))"

text \<open>\<open>int\<close> has 64 bits here, so \<open>strconv.Atoi\<close> accepts what \<open>ParseInt(v, 10, 64)\<close> does.\<close>

definition envInt :: "(string \<Rightarrow> string) \<Rightarrow> string \<Rightarrow> int \<Rightarrow> int" where
  "envInt env key def = envInt64 env key def"

definition envDuration :: "(string \<Rightarrow> int option) \<Rightarrow> (string \<Rightarrow> string) \<Rightarrow> string \<Rightarrow> int \<Rightarrow> int" where
  "envDuration parse_duration env key def =
     (let v = trim_space (env key) in
      if v = [] then def
      else (case parse_duration v of None \<Rightarrow> def | Some d \<Rightarrow> if d \<le> 0 then def else d))"

definition LoadConfigFromEnv :: "(string \<Rightarrow> int option) \<Rightarrow> (string \<Rightarrow> string) \<Rightarrow> upstream_env_config" where
  "LoadConfigFromEnv parse_duration env =
     (let cfg = DefaultConfig;
          m = to_lower (trim_space (env ''PKGMIRROR_UPSTREAM_DEFAULT_MODE''));
          hosts = env ''PKGMIRROR_UPSTREAM_ALLOWED_HOSTS'';
          ua = trim_space (env ''PKGMIRROR_UPSTREAM_USER_AGENT'')
      in cfg\<lparr>uc_DefaultMode := (if m \<noteq> [] \<and> Mode_Valid m then m else uc_DefaultMode cfg),
             uc_AllowedHostsExtra :=
               (if hosts = [] then uc_AllowedHostsExtra cfg
                else uc_AllowedHostsExtra cfg @ filter (\<lambda>h. h \<noteq> []) (map trim_space (split_on CHR '','' hosts))),
             uc_AllowPrivateIPs := envBool env ''PKGMIRROR_UPSTREAM_ALLOW_PRIVATE_IPS'' (uc_AllowPrivateIPs cfg),
             uc_AllowPlaintext := envBool env ''PKGMIRROR_UPSTREAM_ALLOW_PLAINTEXT'' (uc_AllowPlaintext cfg),
             uc_FetchTimeout := envDuration parse_duration env ''PKGMIRROR_UPSTREAM_FETCH_TIMEOUT'' (uc_FetchTimeout cfg),
             uc_ConnectTimeout := envDuration parse_duration env ''PKGMIRROR_UPSTREAM_CONNECT_TIMEOUT'' (uc_ConnectTimeout cfg),
             uc_MaxBytesPerFetch := envInt64 env ''PKGMIRROR_UPSTREAM_MAX_BYTES_PER_FETCH'' (uc_MaxBytesPerFetch cfg),
             uc_FetchRPMPerTenant := envInt env ''PKGMIRROR_UPSTREAM_FETCH_RPM_PER_TENANT'' (uc_FetchRPMPerTenant cfg),
             uc_UserAgent := (if ua \<noteq> [] then ua else uc_UserAgent cfg),
             uc_MetadataCacheMaxBytes :=
               envInt env ''PKGMIRROR_UPSTREAM_METADATA_CACHE_MAX_BYTES'' (uc_MetadataCacheMaxBytes cfg),
             uc_DefaultMetadataTTL :=
               envDuration parse_duration env ''PKGMIRROR_UPSTREAM_DEFAULT_METADATA_TTL'' (uc_DefaultMetadataTTL cfg)\<rparr>)"

section \<open>The table of overrides\<close>

record persisted_config =
  pc_Mode :: string
  pc_UpstreamURL :: "string option"
  pc_MetadataTTLSec :: int
  pc_AuthKind :: "string option"
  pc_AuthCredential :: "string option"
  pc_UpdatedUnix :: int

definition scan_persisted :: "upstream_row \<Rightarrow> persisted_config" where
  "scan_persisted r =
     \<lparr>pc_Mode = tu_mode r, pc_UpstreamURL = tu_upstream_url r, pc_MetadataTTLSec = tu_metadata_ttl_sec r,
      pc_AuthKind = tu_auth_kind r, pc_AuthCredential = tu_auth_credential r, pc_UpdatedUnix = tu_updated_unix r\<rparr>"

definition LookupTenantUpstream :: "db \<Rightarrow> int \<Rightarrow> string \<Rightarrow> persisted_config option" where
  "LookupTenantUpstream d tenantID format =
     map_option scan_persisted
       (List.find (\<lambda>r. tu_tenant_id r = tenantID \<and> tu_format r = format) (db_upstreams d))"

definition ListByTenant :: "db \<Rightarrow> int \<Rightarrow> string \<Rightarrow> persisted_config option" where
  "ListByTenant d tenantID =
     map_of (map (\<lambda>r. (tu_format r, scan_persisted r)) (filter (\<lambda>r. tu_tenant_id r = tenantID) (db_upstreams d)))"

definition upstream_Set :: "int \<Rightarrow> int \<Rightarrow> string \<Rightarrow> string \<Rightarrow> string \<Rightarrow> int \<Rightarrow> db \<Rightarrow> db \<times> (go_error, unit) result" where
  "upstream_Set now tenantID format mode upstreamURL metadataTTLSec d =
     (let urlField = (if upstreamURL \<noteq> [] then Some upstreamURL else None);
          P = (\<lambda>r. tu_tenant_id r = tenantID \<and> tu_format r = format)
      in if \<not> tenant_exists d tenantID then (d, Inl ErrForeignKey)
         else if \<exists>r \<in> set (db_upstreams d). P r then
           (d\<lparr>db_upstreams := map (\<lambda>r. if P r then r\<lparr>tu_mode := mode, tu_upstream_url := urlField,
                tu_metadata_ttl_sec := metadataTTLSec, tu_updated_unix := now\<rparr> else r) (db_upstreams d)\<rparr>, Inr ())
         else
           (d\<lparr>db_upstreams := db_upstreams d @ [\<lparr>tu_tenant_id = tenantID, tu_format = format, tu_mode = mode,
                tu_upstream_url = urlField, tu_metadata_ttl_sec = metadataTTLSec, tu_auth_kind = None,
                tu_auth_credential = None, tu_updated_unix = now\<rparr>]\<rparr>, Inr ()))"

definition upstream_Delete :: "int \<Rightarrow> string \<Rightarrow> db \<Rightarrow> db" where
  "upstream_Delete tenantID format d =
     d\<lparr>db_upstreams := filter (\<lambda>r. \<not> (tu_tenant_id r = tenantID \<and> tu_format r = format)) (db_upstreams d)\<rparr>"

section \<open>Resolution\<close>

definition resolveConfig :: "(string \<Rightarrow> url option) \<Rightarrow> (int \<Rightarrow> string \<Rightarrow> persisted_config option) \<Rightarrow> string \<Rightarrow> int
    \<Rightarrow> int \<Rightarrow> string \<Rightarrow> tenant_config" where
  "resolveConfig parse lookup defaultMode defaultTTL tenantID format =
     (let cfg0 = \<lparr>tc_Mode = defaultMode, tc_UpstreamBaseURL = None, tc_MetadataTTL = defaultTTL\<rparr>;
          cfg1 = (case LookupDefault format of
              None \<Rightarrow> cfg0\<lparr>tc_Mode := ModeOff\<rparr>
            | Some def \<Rightarrow>
                (let c = (case parse (du_URL def) of None \<Rightarrow> cfg0 | Some u \<Rightarrow> cfg0\<lparr>tc_UpstreamBaseURL := Some u\<rparr>)
                 in if \<not> du_PullThroughSupported def then c\<lparr>tc_Mode := ModeOff\<rparr> else c))
      in case lookup tenantID format of
           None \<Rightarrow> cfg1
         | Some p \<Rightarrow>
             (let c1 = (if Mode_Valid (pc_Mode p) then cfg1\<lparr>tc_Mode := pc_Mode p\<rparr> else cfg1);
                  c2 = (case pc_UpstreamURL p of
                      None \<Rightarrow> c1
                    | Some s \<Rightarrow>
                        (if s = [] then c1
                         else (case parse s of None \<Rightarrow> c1 | Some u \<Rightarrow> c1\<lparr>tc_UpstreamBaseURL := Some u\<rparr>)))
              in if pc_MetadataTTLSec p > 0 then c2\<lparr>tc_MetadataTTL := wrap64 (pc_MetadataTTLSec p * second)\<rparr> else c2))"

section \<open>Facts\<close>

lemma fold_allowlist: "fold allowlist_add hs A = A \<union> {h' \<in> (\<lambda>h. to_lower (trim_space h)) ` set hs. h' \<noteq> []}"
  by (induction hs arbitrary: A) (auto simp: allowlist_add_def Let_def)

lemma NewAllowlist_eq:
  "NewAllowlist extra = {h' \<in> (\<lambda>h. to_lower (trim_space h)) ` (set DefaultHosts \<union> set extra). h' \<noteq> []}"
  by (auto simp: NewAllowlist_def fold_allowlist)

lemma Permits_iff:
  "Permits (NewAllowlist extra) u \<longleftrightarrow> url_Hostname u \<noteq> [] \<and>
     (\<exists>h \<in> set DefaultHosts \<union> set extra. to_lower (url_Hostname u) = to_lower (trim_space h))"
  by (auto simp: Permits_def NewAllowlist_eq Let_def)

text \<open>
  Who decides the mode. A persisted row with a valid mode wins over everything - also for a format
  whose adapter is not shipped, or that has no registry at all, although the documentation of
  \<open>LookupDefault\<close> says that such a format stays off whatever the row says. Without such a row,
  pull-through is on only for a supported format, in the default mode.
\<close>

theorem resolveConfig_mode:
  "tc_Mode (resolveConfig parse lookup defaultMode ttl ten format) =
     (case lookup ten format of
        Some p \<Rightarrow> if Mode_Valid (pc_Mode p) then pc_Mode p
                  else if \<exists>def. LookupDefault format = Some def \<and> du_PullThroughSupported def then defaultMode else ModeOff
      | None \<Rightarrow> if \<exists>def. LookupDefault format = Some def \<and> du_PullThroughSupported def then defaultMode else ModeOff)"
  unfolding resolveConfig_def Let_def
  by (cases "lookup ten format"; cases "LookupDefault format") (simp_all split: option.split)

end
