(* ===== verification/Upstream_Guard.thy ===== *)
theory Upstream_Guard
  imports Upstream_Config
begin

text \<open>
  What the private-address guard of \<open>internal/upstream/defaults.go\<close> lets through: the masked
  comparisons of \<open>net.IPNet.Contains\<close> over the compiled-in CIDR list, read as ranges of the bytes.
\<close>

unbundle bit_operations_syntax

section \<open>Masks\<close>

lemma and_prefix_mask: "(x::nat) < 256 \<Longrightarrow> k \<le> 8 \<Longrightarrow> x AND (256 - 2 ^ k) = 2 ^ k * (x div 2 ^ k)"
proof -
  assume x: "x < 256" and k: "k \<le> 8"
  have "(2::nat) ^ (8 - k) * 2 ^ k = 2 ^ 8" using k by (simp flip: power_add)
  then have "256 - 2 ^ k = push_bit k (mask (8 - k) :: nat)"
    by (simp add: push_bit_eq_mult mask_eq_exp_minus_1 diff_mult_distrib)
  moreover have "x AND push_bit k (mask (8 - k)) = push_bit k (take_bit (8 - k) (drop_bit k x))"
    by (rule bit_eqI) (auto simp: bit_simps)
  moreover have "take_bit (8 - k) (drop_bit k x) = drop_bit k x"
    using x k by (simp add: take_bit_nat_eq_self_iff drop_bit_eq_div less_mult_imp_div_less flip: power_add)
  ultimately show ?thesis by (simp add: push_bit_eq_mult drop_bit_eq_div mult.commute)
qed

section \<open>Addresses\<close>

definition is_bytes :: "ip \<Rightarrow> bool" where "is_bytes a \<longleftrightarrow> (\<forall>x \<in> set a. x < 256)"

definition v4_mapped :: "ip \<Rightarrow> ip" where "v4_mapped v = zeros 10 @ [255, 255] @ v"

lemma div_ranges:
  "(b::nat) div 16 = 1 \<longleftrightarrow> 16 \<le> b \<and> b < 32" "b div 64 = 1 \<longleftrightarrow> 64 \<le> b \<and> b < 128"
  "b div 64 = 2 \<longleftrightarrow> 128 \<le> b \<and> b < 192" "b div 2 = 126 \<longleftrightarrow> 252 \<le> b \<and> b \<le> 253"
  by linarith+

lemma To4_v4 [simp]: "To4 [a, b, c, d] = Some [a, b, c, d]" "To4 (v4_mapped [a, b, c, d]) = Some [a, b, c, d]"
  by (simp_all add: To4_def v4_mapped_def zeros_def nth_append)

lemma upt4: "[0..<4] = [0, 1, 2, 3::nat]" by (simp add: upt_rec)

lemma mask4: "cidr_mask 4 8 = [255, 0, 0, 0]" "cidr_mask 4 12 = [255, 240, 0, 0]" "cidr_mask 4 16 = [255, 255, 0, 0]"
  "cidr_mask 4 10 = [255, 192, 0, 0]"
  by (simp_all add: numeral_eq_Suc)

lemma private_v4:
  assumes "To4 x = Some [a, b, c, d]" and "is_bytes [a, b, c, d]"
  shows "list_ex (\<lambda>n. net_Contains n x) privateRanges \<longleftrightarrow>
    a = 127 \<or> a = 10 \<or> a = 172 \<and> b div 16 = 1 \<or> a = 192 \<and> b = 168 \<or> a = 169 \<and> b = 254 \<or> a = 0
    \<or> a = 100 \<and> b div 64 = 1"
proof -
  have "a < 256" "b < 256" using assms(2) by (simp_all add: is_bytes_def)
  then have m: "a AND 255 = a" "b AND 255 = b" "b AND 240 = 16 * (b div 16)" "b AND 192 = 64 * (b div 64)"
    using and_prefix_mask [of a 0] and_prefix_mask [of b 0] and_prefix_mask [of b 4] and_prefix_mask [of b 6] by simp_all
  show ?thesis
    by (simp add: privateRanges_def net_Contains_def Let_def zeros_def upt4 mask4 assms(1) m)
qed

lemma upt16: "[0..<16] = [0, 1, 2, 3, 4, 5, 6, 7, 8, 9, 10, 11, 12, 13, 14, 15::nat]" by (simp add: upt_rec)

lemma mask16: "cidr_mask 16 128 = replicate 16 255" "cidr_mask 16 7 = 254 # replicate 15 0"
  "cidr_mask 16 10 = 255 # 192 # replicate 14 0"
  by (simp_all add: numeral_eq_Suc)

lemma nth16: "length x = 16 \<Longrightarrow> \<exists>a b c d e f g h i j k l m n p q. x = [a, b, c, d, e, f, g, h, i, j, k, l, m, n, p, q]"
  by (auto simp: numeral_eq_Suc length_Suc_conv)

lemma contains_loopback6:
  assumes "To4 x = None" and "is_bytes x" and "length x = 16"
  shows "net_Contains (zeros 15 @ [1], 128) x \<longleftrightarrow> x = zeros 15 @ [1]"
proof -
  have "x ! i AND 255 = x ! i" if "i < 16" for i
    using assms(2,3) that and_prefix_mask [of "x ! i" 0] by (simp add: is_bytes_def)
  then have "list_all (\<lambda>i. (zeros 15 @ [1]) ! i AND replicate 16 255 ! i = x ! i AND replicate 16 255 ! i) [0..<16]
      \<longleftrightarrow> (\<forall>i<16. (zeros 15 @ [1]) ! i AND 255 = x ! i)"
    by (auto simp: list_all_iff)
  also have "\<dots> \<longleftrightarrow> (\<forall>i<16. (zeros 15 @ [1]) ! i = x ! i)"
    by (simp add: zeros_def nth_append)
  also have "\<dots> \<longleftrightarrow> x = zeros 15 @ [1]"
    using assms(3) by (auto simp: list_eq_iff_nth_eq zeros_def)
  finally show ?thesis
    using assms by (simp add: net_Contains_def Let_def mask16 zeros_def)
qed

lemma private_v6:
  assumes "To4 x = None" and "is_bytes x" and "length x = 16"
  shows "list_ex (\<lambda>n. net_Contains n x) privateRanges \<longleftrightarrow>
    x = zeros 15 @ [1] \<or> x ! 0 div 2 = 126 \<or> x ! 0 = 254 \<and> x ! 1 div 64 = 2"
proof -
  have "x ! 0 < 256" "x ! 1 < 256" using assms(2,3) by (auto simp: is_bytes_def)
  then have m: "x ! 0 AND 255 = x ! 0" "x ! 1 AND 255 = x ! 1" "x ! 0 AND 254 = 2 * (x ! 0 div 2)"
    "x ! 1 AND 192 = 64 * (x ! 1 div 64)"
    using and_prefix_mask [of "x ! 0" 0] and_prefix_mask [of "x ! 1" 0] and_prefix_mask [of "x ! 0" 1]
      and_prefix_mask [of "x ! 1" 6] by simp_all
  have v4: "\<not> net_Contains ([a, b, c, d], p) x" for a b c d p
    using assms by (simp add: net_Contains_def Let_def)
  have u: "net_Contains (0xfc # zeros 15, 7) x \<longleftrightarrow> x ! 0 div 2 = 126"
    using m assms by (simp add: net_Contains_def Let_def mask16 zeros_def upt16)
  have l: "net_Contains (0xfe # 0x80 # zeros 14, 10) x \<longleftrightarrow> x ! 0 = 254 \<and> x ! 1 div 64 = 2"
    using m assms by (simp add: net_Contains_def Let_def mask16 zeros_def upt16)
  show ?thesis
    by (simp add: privateRanges_def v4 u l contains_loopback6 [OF assms, simplified])
qed

text \<open>
C33: What the guard lets through when it is on. An IPv4 address, in its own or in its IPv6-mapped form,
  is allowed exactly outside the loopback, private, link-local, carrier and \<open>0.0.0.0/8\<close> ranges; an
  IPv6 address exactly outside \<open>::1\<close>, \<open>fc00::/7\<close> and \<open>fe80::/10\<close>. In particular the unspecified
  address \<open>::\<close>, which reaches the local host as \<open>0.0.0.0\<close> does, is allowed.
\<close>

theorem AllowsIP_ranges:
  assumes "is_bytes x"
  shows "(To4 x = Some [a, b, c, d] \<longrightarrow>
      (AllowsIP False x \<longleftrightarrow> a \<noteq> 0 \<and> a \<noteq> 10 \<and> a \<noteq> 127 \<and> \<not> (a = 172 \<and> 16 \<le> b \<and> b < 32) \<and> \<not> (a = 192 \<and> b = 168)
         \<and> \<not> (a = 169 \<and> b = 254) \<and> \<not> (a = 100 \<and> 64 \<le> b \<and> b < 128)))
    \<and> (To4 x = None \<and> length x = 16 \<longrightarrow>
      (AllowsIP False x \<longleftrightarrow> x \<noteq> zeros 15 @ [1] \<and> \<not> (252 \<le> x ! 0 \<and> x ! 0 \<le> 253)
         \<and> \<not> (x ! 0 = 254 \<and> 128 \<le> x ! 1 \<and> x ! 1 < 192)))
    \<and> AllowsIP False (zeros 16)"
proof (intro conjI impI)
  assume To4: "To4 x = Some [a, b, c, d]"
  then have "x \<noteq> []" and "set [a, b, c, d] \<subseteq> set x"
    using set_drop_subset [of 12 x] by (auto simp: To4_def split: if_splits)
  then have "x \<noteq> []" and "is_bytes [a, b, c, d]" using assms by (auto simp: is_bytes_def)
  then show "AllowsIP False x \<longleftrightarrow> a \<noteq> 0 \<and> a \<noteq> 10 \<and> a \<noteq> 127 \<and> \<not> (a = 172 \<and> 16 \<le> b \<and> b < 32) \<and> \<not> (a = 192 \<and> b = 168)
         \<and> \<not> (a = 169 \<and> b = 254) \<and> \<not> (a = 100 \<and> 64 \<le> b \<and> b < 128)"
    unfolding AllowsIP_def by (simp add: private_v4 [OF To4] div_ranges [unfolded One_nat_def]) blast
next
  assume *: "To4 x = None \<and> length x = 16"
  then have "x \<noteq> []" by auto
  then show "AllowsIP False x \<longleftrightarrow> x \<noteq> zeros 15 @ [1] \<and> \<not> (252 \<le> x ! 0 \<and> x ! 0 \<le> 253)
         \<and> \<not> (x ! 0 = 254 \<and> 128 \<le> x ! 1 \<and> x ! 1 < 192)"
    unfolding AllowsIP_def using * by (simp add: private_v6 assms div_ranges)
next
  have "To4 (zeros 16) = None" by (simp add: To4_def zeros_def)
  moreover have "zeros 16 \<noteq> zeros 15 @ [1]" by (simp add: zeros_def numeral_eq_Suc)
  ultimately show "AllowsIP False (zeros 16)"
    unfolding AllowsIP_def using private_v6 [of "zeros 16"] by (simp add: is_bytes_def zeros_def)
qed

theorem AllowsIP_ranges_witness: "AllowsIP False [93, 184, 216, 34] \<and> \<not> AllowsIP False (v4_mapped [10, 1, 2, 3])"
proof
  show "AllowsIP False [93, 184, 216, 34]"
    using AllowsIP_ranges [of "[93, 184, 216, 34]" 93 184 216 34] by (simp add: is_bytes_def)
  show "\<not> AllowsIP False (v4_mapped [10, 1, 2, 3])"
    using AllowsIP_ranges [of "v4_mapped [10, 1, 2, 3]" 10 1 2 3] To4_v4(2) [of 10 1 2 3]
    by (simp add: is_bytes_def v4_mapped_def zeros_def)
qed

end
