(* ===== verification/Metadata_Cache.thy ===== *)
theory Metadata_Cache
  imports Prelude
begin

text \<open>
  The in-memory cache of upstream metadata (\<open>internal/upstream/metadata_cache.go\<close>): a map of
  entries, the access order (oldest first) and the number of bytes held. Every method runs under
  the cache's mutex and is a function of the cache. Times and durations are nanoseconds; a zero
  \<open>time.Time\<close> is \<open>None\<close>. The eviction loop of \<open>put\<close> removes the oldest key until the new body fits:
  it would spin forever on an order list that names a key without an entry, so it is a
  \<open>partial_function\<close>, and that it returns is proved from the invariant.
\<close>

record cache_entry =
  ce_body :: string
  ce_contentType :: string
  ce_etag :: string
  ce_lastModified :: "int option"
  ce_expires :: int
  ce_sizeBytes :: int

record metadata_cache =
  mc_entries :: "string \<Rightarrow> cache_entry option"
  mc_order :: "string list"
  mc_maxBytes :: int
  mc_bytesUsed :: int

definition newMetadataCache :: "int \<Rightarrow> metadata_cache" where
  "newMetadataCache maxBytes =
     \<lparr>mc_entries = Map.empty, mc_order = [], mc_maxBytes = maxBytes, mc_bytesUsed = 0\<rparr>"

definition removeLocked :: "string \<Rightarrow> metadata_cache \<Rightarrow> metadata_cache" where
  "removeLocked key c =
     (case mc_entries c key of
        None \<Rightarrow> c
      | Some e \<Rightarrow> c\<lparr>mc_entries := (mc_entries c)(key := None), mc_bytesUsed := mc_bytesUsed c - ce_sizeBytes e,
                    mc_order := remove1 key (mc_order c)\<rparr>)"

definition touchLocked :: "string \<Rightarrow> metadata_cache \<Rightarrow> metadata_cache" where
  "touchLocked key c =
     (if key \<in> set (mc_order c) then c\<lparr>mc_order := remove1 key (mc_order c) @ [key]\<rparr> else c)"

definition cache_get :: "int \<Rightarrow> string \<Rightarrow> metadata_cache \<Rightarrow> metadata_cache \<times> cache_entry option" where
  "cache_get now key c =
     (if mc_maxBytes c \<le> 0 then (c, None)
      else (case mc_entries c key of
          None \<Rightarrow> (c, None)
        | Some e \<Rightarrow> (if now > ce_expires e then (removeLocked key c, None) else (touchLocked key c, Some e))))"

partial_function (option) evict :: "metadata_cache \<Rightarrow> int \<Rightarrow> metadata_cache option" where
  "evict c n =
     (if mc_bytesUsed c + n > mc_maxBytes c \<and> mc_order c \<noteq> []
      then evict (removeLocked (hd (mc_order c)) c) n
      else Some c)"

text \<open>\<open>None\<close>: the call never returns.\<close>

definition cache_put :: "int \<Rightarrow> string \<Rightarrow> string \<Rightarrow> string \<Rightarrow> string \<Rightarrow> int option \<Rightarrow> int
    \<Rightarrow> metadata_cache \<Rightarrow> metadata_cache option" where
  "cache_put now key body contentType etag lastModified ttl c =
     (if mc_maxBytes c \<le> 0 \<or> ttl \<le> 0 then Some c
      else (let c1 = removeLocked key c in
        if int (length body) > mc_maxBytes c1 then Some c1
        else (case evict c1 (int (length body)) of
            None \<Rightarrow> None
          | Some c2 \<Rightarrow>
              (let e = \<lparr>ce_body = body, ce_contentType = contentType, ce_etag = etag,
                        ce_lastModified = lastModified, ce_expires = now + ttl, ce_sizeBytes = int (length body)\<rparr>
               in Some (c2\<lparr>mc_entries := (mc_entries c2)(key \<mapsto> e), mc_order := mc_order c2 @ [key],
                           mc_bytesUsed := mc_bytesUsed c2 + ce_sizeBytes e\<rparr>)))))"

definition cache_refresh :: "int \<Rightarrow> string \<Rightarrow> int \<Rightarrow> metadata_cache \<Rightarrow> metadata_cache \<times> bool" where
  "cache_refresh now key ttl c =
     (if mc_maxBytes c \<le> 0 then (c, False)
      else (case mc_entries c key of
          None \<Rightarrow> (c, False)
        | Some e \<Rightarrow>
            (touchLocked key (c\<lparr>mc_entries := (mc_entries c)(key \<mapsto> e\<lparr>ce_expires := now + ttl\<rparr>)\<rparr>), True)))"

section \<open>The invariant\<close>

text \<open>
  The order lists every cached key once, the byte count is the sum of the bodies and, unless the
  cache is switched off, within the budget.
\<close>

definition bytes_of :: "metadata_cache \<Rightarrow> string \<Rightarrow> int" where
  "bytes_of c k = (case mc_entries c k of None \<Rightarrow> 0 | Some e \<Rightarrow> ce_sizeBytes e)"

definition cache_ok :: "metadata_cache \<Rightarrow> bool" where
  "cache_ok c \<longleftrightarrow>
     distinct (mc_order c) \<and> set (mc_order c) = dom (mc_entries c)
   \<and> (\<forall>k e. mc_entries c k = Some e \<longrightarrow> ce_sizeBytes e = int (length (ce_body e)))
   \<and> mc_bytesUsed c = (\<Sum>k \<in> set (mc_order c). bytes_of c k)
   \<and> (0 < mc_maxBytes c \<longrightarrow> mc_bytesUsed c \<le> mc_maxBytes c)"

lemma cache_okD:
  assumes "cache_ok c"
  shows "distinct (mc_order c)" "set (mc_order c) = dom (mc_entries c)"
    "mc_entries c k = Some e \<Longrightarrow> ce_sizeBytes e = int (length (ce_body e))"
    "mc_bytesUsed c = (\<Sum>k \<in> set (mc_order c). bytes_of c k)"
    "0 < mc_maxBytes c \<Longrightarrow> mc_bytesUsed c \<le> mc_maxBytes c"
  using assms by (auto simp: cache_ok_def)

lemma cache_ok_new: "cache_ok (newMetadataCache n)"
  by (simp add: cache_ok_def newMetadataCache_def)

lemma removeLocked_fields [simp]:
  "mc_maxBytes (removeLocked k c) = mc_maxBytes c"
  "mc_entries (removeLocked k c) = (mc_entries c)(k := None)"
  by (auto simp: removeLocked_def split: option.split)

lemma removeLocked_order: "cache_ok c \<Longrightarrow> mc_order (removeLocked k c) = remove1 k (mc_order c)"
  using cache_okD(2) [of c] by (auto simp: removeLocked_def remove1_idem dom_def split: option.split)

lemma removeLocked_bytes: "cache_ok c \<Longrightarrow> mc_bytesUsed (removeLocked k c) = mc_bytesUsed c - bytes_of c k"
  by (auto simp: removeLocked_def bytes_of_def split: option.split)

lemma bytes_of_nonneg: "cache_ok c \<Longrightarrow> 0 \<le> bytes_of c k"
  using cache_okD(3) [of c k] by (auto simp: bytes_of_def split: option.split)

lemma removeLocked_ok: "cache_ok c \<Longrightarrow> cache_ok (removeLocked k c)"
proof (cases "mc_entries c k")
  case None
  assume "cache_ok c"
  then show ?thesis using None by (simp add: removeLocked_def)
next
  case (Some e)
  assume ok: "cache_ok c"
  note D = cache_okD [OF ok]
  have k: "k \<in> set (mc_order c)" using Some D(2) by auto
  have rest: "bytes_of (removeLocked k c) k' = bytes_of c k'" if "k' \<noteq> k" for k'
    using that by (simp add: bytes_of_def)
  have "(\<Sum>k' \<in> set (mc_order c) - {k}. bytes_of (removeLocked k c) k') = (\<Sum>k' \<in> set (mc_order c) - {k}. bytes_of c k')"
    by (rule sum.cong) (simp_all add: rest)
  also have "\<dots> = mc_bytesUsed c - bytes_of c k"
    using k by (simp add: D(4) sum_diff1)
  finally have sum: "(\<Sum>k' \<in> set (mc_order c) - {k}. bytes_of (removeLocked k c) k') = mc_bytesUsed c - bytes_of c k" .
  show ?thesis
    unfolding cache_ok_def removeLocked_order [OF ok] removeLocked_bytes [OF ok]
    using D sum bytes_of_nonneg [OF ok, of k] by (auto simp: set_remove1_eq split: if_splits)
qed

lemma touchLocked_ok: "cache_ok c \<Longrightarrow> cache_ok (touchLocked k c)"
proof -
  assume ok: "cache_ok c"
  have "bytes_of (touchLocked k c) = bytes_of c" "mc_entries (touchLocked k c) = mc_entries c"
    "mc_bytesUsed (touchLocked k c) = mc_bytesUsed c" "mc_maxBytes (touchLocked k c) = mc_maxBytes c"
    by (auto simp: touchLocked_def bytes_of_def fun_eq_iff)
  moreover have "set (mc_order (touchLocked k c)) = set (mc_order c)" "distinct (mc_order (touchLocked k c))"
    using cache_okD(1) [OF ok] by (auto simp: touchLocked_def set_remove1_eq)
  ultimately show ?thesis using ok by (auto simp: cache_ok_def)
qed

lemma cache_get_ok: "cache_ok c \<Longrightarrow> cache_ok (fst (cache_get now k c))"
  by (auto simp: cache_get_def removeLocked_ok touchLocked_ok split: option.split)

lemma cache_refresh_ok: "cache_ok c \<Longrightarrow> cache_ok (fst (cache_refresh now k ttl c))"
proof -
  assume ok: "cache_ok c"
  have "cache_ok (c\<lparr>mc_entries := (mc_entries c)(k \<mapsto> e\<lparr>ce_expires := now + ttl\<rparr>)\<rparr>)" if e: "mc_entries c k = Some e" for e
  proof -
    let ?c = "c\<lparr>mc_entries := (mc_entries c)(k \<mapsto> e\<lparr>ce_expires := now + ttl\<rparr>)\<rparr>"
    have "bytes_of ?c = bytes_of c" using e by (auto simp: bytes_of_def fun_eq_iff)
    moreover have "dom (mc_entries ?c) = dom (mc_entries c)" using e by auto
    ultimately show ?thesis using ok e by (auto simp: cache_ok_def)
  qed
  with ok show ?thesis by (auto simp: cache_refresh_def touchLocked_ok split: option.split)
qed

text \<open>What a lookup returns, and that it leaves the other keys alone.\<close>

lemma cache_get_lookup:
  "snd (cache_get now k c) = (if mc_maxBytes c \<le> 0 then None
     else case mc_entries c k of None \<Rightarrow> None | Some e \<Rightarrow> if ce_expires e < now then None else Some e)"
  "k' \<noteq> k \<Longrightarrow> mc_entries (fst (cache_get now k c)) k' = mc_entries c k'"
  by (auto simp: cache_get_def touchLocked_def split: option.split)

section \<open>Eviction\<close>

lemma evict_returns:
  assumes "cache_ok c" and "n \<le> mc_maxBytes c"
  shows "\<exists>m c'. evict c n = Some c' \<and> cache_ok c' \<and> mc_order c' = drop m (mc_order c)
    \<and> mc_bytesUsed c' + n \<le> mc_maxBytes c' \<and> mc_maxBytes c' = mc_maxBytes c
    \<and> (\<forall>k. mc_entries c' k = (if k \<in> set (take m (mc_order c)) then None else mc_entries c k))"
  using assms
proof (induction "length (mc_order c)" arbitrary: c)
  case 0
  then have "mc_bytesUsed c = 0" using cache_okD(4) [OF 0(2)] by simp
  with 0 show ?case by (subst evict.simps) (auto intro!: exI [of _ "0::nat"])
next
  case (Suc l)
  show ?case
  proof (cases "mc_bytesUsed c + n > mc_maxBytes c")
    case False
    with Suc show ?thesis by (subst evict.simps) (auto intro!: exI [of _ "0::nat"])
  next
    case True
    from Suc(2) obtain k ks where ks: "mc_order c = k # ks" by (cases "mc_order c") auto
    let ?c = "removeLocked k c"
    have ord: "mc_order ?c = ks" using removeLocked_order [OF Suc(3)] ks by simp
    have ok: "cache_ok ?c" by (rule removeLocked_ok [OF Suc(3)])
    have "l = length (mc_order ?c)" using Suc(2) ks ord by simp
    from Suc(1) [OF this ok] Suc(4) obtain m c' where
      IH: "evict ?c n = Some c'" "cache_ok c'" "mc_order c' = drop m ks" "mc_bytesUsed c' + n \<le> mc_maxBytes c'"
        "mc_maxBytes c' = mc_maxBytes c"
        "\<And>q. mc_entries c' q = (if q \<in> set (take m ks) then None else mc_entries ?c q)"
      unfolding ord by auto
    have "evict c n = Some c'"
      using True ks IH(1) by (subst evict.simps) simp
    moreover have "mc_order c' = drop (Suc m) (mc_order c)" using IH(3) ks by simp
    moreover have "mc_entries c' q = (if q \<in> set (take (Suc m) (mc_order c)) then None else mc_entries c q)" for q
      using IH(6) [of q] ks by auto
    ultimately show ?thesis using IH(2,4,5) by blast
  qed
qed

lemma cache_put_fits:
  assumes "cache_ok c" and "0 < mc_maxBytes c" and "0 < ttl"
  shows "\<exists>c'. cache_put now key body ct et lm ttl c = Some c' \<and> cache_ok c'
    \<and> (if int (length body) \<le> mc_maxBytes c
       then (\<exists>m. mc_order c' = drop m (remove1 key (mc_order c)) @ [key]
              \<and> (\<forall>k. k \<noteq> key \<longrightarrow> mc_entries c' k =
                    (if k \<in> set (take m (remove1 key (mc_order c))) then None else mc_entries c k)))
            \<and> (\<forall>t. map_option ce_body (snd (cache_get t key c')) = (if t \<le> now + ttl then Some body else None))
       else mc_entries c' = (mc_entries c)(key := None))"
proof (cases "int (length body) \<le> mc_maxBytes c")
  case False
  with assms show ?thesis
    by (simp add: cache_put_def Let_def removeLocked_ok)
next
  case True
  let ?c = "removeLocked key c"
  have ok: "cache_ok ?c" by (rule removeLocked_ok [OF assms(1)])
  obtain m c2 where ev: "evict ?c (int (length body)) = Some c2" and ok2: "cache_ok c2"
    and ord: "mc_order c2 = drop m (remove1 key (mc_order c))"
    and fits: "mc_bytesUsed c2 + int (length body) \<le> mc_maxBytes c2" and mx: "mc_maxBytes c2 = mc_maxBytes c"
    and ents: "\<And>k. mc_entries c2 k = (if k \<in> set (take m (remove1 key (mc_order c))) then None else mc_entries ?c k)"
    using evict_returns [OF ok, of "int (length body)"] True
    unfolding removeLocked_order [OF assms(1)] removeLocked_fields(1) by blast
  let ?e = "\<lparr>ce_body = body, ce_contentType = ct, ce_etag = et, ce_lastModified = lm, ce_expires = now + ttl,
      ce_sizeBytes = int (length body)\<rparr>"
  let ?c' = "c2\<lparr>mc_entries := (mc_entries c2)(key \<mapsto> ?e), mc_order := mc_order c2 @ [key],
      mc_bytesUsed := mc_bytesUsed c2 + int (length body)\<rparr>"
  have put: "cache_put now key body ct et lm ttl c = Some ?c'"
    using assms(2,3) True ev by (simp add: cache_put_def Let_def)
  note D = cache_okD [OF ok2]
  have new: "mc_entries c2 key = None" by (simp add: ents)
  then have fresh: "key \<notin> set (mc_order c2)" using D(2) by auto
  have "bytes_of ?c' k = bytes_of c2 k" if "k \<in> set (mc_order c2)" for k
    using that fresh by (auto simp: bytes_of_def)
  moreover have "bytes_of ?c' key = int (length body)" by (simp add: bytes_of_def)
  ultimately have sum: "(\<Sum>k \<in> set (mc_order ?c'). bytes_of ?c' k) = mc_bytesUsed ?c'"
    using fresh D(4) by (simp add: sum.insert)
  have "cache_ok ?c'"
    unfolding cache_ok_def sum using D fresh fits by (auto split: if_splits)
  moreover have "map_option ce_body (snd (cache_get t key ?c')) = (if t \<le> now + ttl then Some body else None)" for t
    unfolding cache_get_lookup using assms(2) mx by simp
  moreover have "\<forall>k. k \<noteq> key \<longrightarrow> mc_entries ?c' k =
      (if k \<in> set (take m (remove1 key (mc_order c))) then None else mc_entries c k)"
    by (simp add: ents)
  ultimately show ?thesis using put True ord by auto
qed

text \<open>
C24: \<open>put\<close> always returns: its eviction loop ends. Afterwards the cache is well formed and within its
  budget; a body that fits is what \<open>get\<close> returns until the time to live is over, a body that is
  too large is not cached; and to make room only the least recently used keys were dropped, a
  prefix of the access order - every other entry is untouched.
\<close>

theorem cache_put_returns:
  assumes "cache_ok c" and "0 < mc_maxBytes c" and "0 < ttl"
  shows "\<exists>c'. cache_put now key body ct et lm ttl c = Some c' \<and> cache_ok c'
    \<and> (if int (length body) \<le> mc_maxBytes c
       then (\<exists>m. mc_order c' = drop m (remove1 key (mc_order c)) @ [key]
              \<and> (\<forall>k. k \<noteq> key \<longrightarrow> mc_entries c' k =
                    (if k \<in> set (take m (remove1 key (mc_order c))) then None else mc_entries c k)))
            \<and> (\<forall>t. map_option ce_body (snd (cache_get t key c')) = (if t \<le> now + ttl then Some body else None))
       else mc_entries c' = (mc_entries c)(key := None))"
  by (rule cache_put_fits [OF assms])

theorem cache_put_returns_witness:
  "\<exists>c'. cache_put 10 ''k'' ''body'' [] [] None 5 (newMetadataCache 100) = Some c' \<and>
     map_option ce_body (snd (cache_get 12 ''k'' c')) = Some ''body''"
proof -
  from cache_put_returns [OF cache_ok_new, of 100 5 10 "''k''" "''body''" "[]" "[]" None] obtain c' where
    "cache_put 10 ''k'' ''body'' [] [] None 5 (newMetadataCache 100) = Some c'"
    "\<forall>t. map_option ce_body (snd (cache_get t ''k'' c')) = (if t \<le> 10 + 5 then Some ''body'' else None)"
    by (auto simp: newMetadataCache_def)
  then show ?thesis by (auto dest: spec [of _ 12])
qed

end
