(* ===== verification/Rate_Limiter.thy ===== *)
theory Rate_Limiter
  imports Prelude Complex_Main
begin

text \<open>
  The per-tenant token bucket (\<open>internal/upstream/ratelimit.go\<close>). Times are nanoseconds; the
  \<open>float64\<close> token count is an exact rational here, so the bound below is the design's, up to the
  rounding of the machine's floats.
\<close>

record bucket =
  bk_tokens :: rat
  bk_lastRefill :: int

record rate_limiter =
  rl_buckets :: "int \<Rightarrow> bucket option"
  rl_rpm :: int
  rl_capacity :: int

definition newRateLimiter :: "int \<Rightarrow> rate_limiter" where
  "newRateLimiter rpm =
     (let rpm' = (if rpm \<le> 0 then 60 else rpm)
      in \<lparr>rl_buckets = Map.empty, rl_rpm = rpm', rl_capacity = rpm'\<rparr>)"

definition limiter_Allow :: "int \<Rightarrow> int \<Rightarrow> rate_limiter \<Rightarrow> rate_limiter \<times> bool" where
  "limiter_Allow now tenantID r =
     (let b = (case rl_buckets r tenantID of
            None \<Rightarrow> \<lparr>bk_tokens = of_int (rl_capacity r), bk_lastRefill = now\<rparr>
          | Some b \<Rightarrow> b);
          elapsed = of_int (now - bk_lastRefill b) / 1000000000;
          t1 = bk_tokens b + elapsed * of_int (rl_rpm r) / 60;
          t2 = (if t1 > of_int (rl_capacity r) then of_int (rl_capacity r) else t1);
          ok = (\<not> t2 < 1);
          b' = \<lparr>bk_tokens = (if ok then t2 - 1 else t2), bk_lastRefill = now\<rparr>
      in (r\<lparr>rl_buckets := (rl_buckets r)(tenantID \<mapsto> b')\<rparr>, ok))"

text \<open>A sequence of calls \<open>(time, tenant)\<close>, and how many of a tenant's calls were allowed.\<close>

fun grants :: "int \<Rightarrow> (int \<times> int) list \<Rightarrow> rate_limiter \<Rightarrow> nat" where
  "grants ten [] r = 0"
| "grants ten ((now, t) # cs) r =
     (case limiter_Allow now t r of (r', ok) \<Rightarrow> (if ok \<and> t = ten then 1 else 0) + grants ten cs r')"

definition refill :: "rate_limiter \<Rightarrow> int \<Rightarrow> rat" where
  "refill r d = of_int d / 1000000000 * of_int (rl_rpm r) / 60"

definition limiter_ok :: "rate_limiter \<Rightarrow> bool" where
  "limiter_ok r \<longleftrightarrow> 0 < rl_rpm r \<and> rl_capacity r = rl_rpm r
     \<and> (\<forall>t b. rl_buckets r t = Some b \<longrightarrow> 0 \<le> bk_tokens b \<and> bk_tokens b \<le> of_int (rl_capacity r))"

lemma limiter_ok_new: "limiter_ok (newRateLimiter n)"
  by (simp add: limiter_ok_def newRateLimiter_def Let_def)

lemma refill_nonneg: "limiter_ok r \<Longrightarrow> 0 \<le> d \<Longrightarrow> 0 \<le> refill r d"
  by (simp add: refill_def limiter_ok_def)

lemma refill_add: "refill r (d + e) = refill r d + refill r e"
  by (simp add: refill_def field_simps)

lemma limiter_Allow_frame:
  assumes "limiter_Allow now t r = (r', ok)"
  shows "t' \<noteq> t \<Longrightarrow> rl_buckets r' t' = rl_buckets r t'" "rl_rpm r' = rl_rpm r" "rl_capacity r' = rl_capacity r"
    "refill r' = refill r"
  using assms by (auto simp: limiter_Allow_def Let_def refill_def fun_eq_iff)

text \<open>The balance of one call: what it grants comes out of the bucket.\<close>

lemma limiter_Allow_balance:
  assumes "limiter_ok r" and "limiter_Allow now t r = (r', ok)"
    and "\<And>b. rl_buckets r t = Some b \<Longrightarrow> bk_lastRefill b \<le> now"
  shows "\<exists>b'. rl_buckets r' t = Some b' \<and> bk_lastRefill b' = now \<and> 0 \<le> bk_tokens b'
    \<and> bk_tokens b' + (if ok then 1 else 0) \<le> of_int (rl_capacity r)
    \<and> (\<forall>b. rl_buckets r t = Some b \<longrightarrow>
          bk_tokens b' + (if ok then 1 else 0) \<le> bk_tokens b + refill r (now - bk_lastRefill b))"
proof (cases "rl_buckets r t")
  case None
  then show ?thesis
    using assms(1,2) by (auto simp: limiter_Allow_def Let_def limiter_ok_def)
next
  case (Some b)
  have nn: "0 \<le> refill r (now - bk_lastRefill b)"
    using refill_nonneg [OF assms(1)] assms(3) [OF Some] by simp
  have "0 \<le> bk_tokens b" "0 < rl_capacity r"
    using assms(1) Some by (auto simp: limiter_ok_def)
  with Some nn show ?thesis
    using assms(2) by (auto simp: limiter_Allow_def Let_def refill_def)
qed

lemma limiter_Allow_ok:
  assumes "limiter_ok r" and "limiter_Allow now t r = (r', ok)"
    and "\<And>b. rl_buckets r t = Some b \<Longrightarrow> bk_lastRefill b \<le> now"
  shows "limiter_ok r'"
proof -
  obtain b' where b': "rl_buckets r' t = Some b'" "0 \<le> bk_tokens b'"
    "bk_tokens b' + (if ok then 1 else 0) \<le> of_int (rl_capacity r)"
    using limiter_Allow_balance [OF assms] by blast
  then have "bk_tokens b' \<le> of_int (rl_capacity r)" by (simp split: if_splits)
  moreover note frame = limiter_Allow_frame [OF assms(2)]
  have "0 \<le> bk_tokens b \<and> bk_tokens b \<le> of_int (rl_capacity r)" if "rl_buckets r' t' = Some b" for t' b
    using that assms(1) b' frame(1) [of t'] calculation by (cases "t' = t") (auto simp: limiter_ok_def)
  then show ?thesis using assms(1) by (simp add: limiter_ok_def frame)
qed

text \<open>The buckets were last refilled no later than \<open>T\<close>.\<close>

definition refilled_by :: "int \<Rightarrow> rate_limiter \<Rightarrow> bool" where
  "refilled_by T r \<longleftrightarrow> (\<forall>t b. rl_buckets r t = Some b \<longrightarrow> bk_lastRefill b \<le> T)"

lemma limiter_Allow_refilled:
  "refilled_by T r \<Longrightarrow> T \<le> now \<Longrightarrow> limiter_Allow now t r = (r', ok) \<Longrightarrow> refilled_by now r'"
  by (fastforce simp: refilled_by_def limiter_Allow_def Let_def split: if_splits)

lemma grants_from_bucket:
  assumes "limiter_ok r" and "refilled_by T r" and "sorted (T # map fst cs)" and "\<forall>c \<in> set cs. fst c \<le> tmax"
    and "rl_buckets r ten = Some b" and "bk_lastRefill b \<le> tmax"
  shows "of_nat (grants ten cs r) \<le> bk_tokens b + refill r (tmax - bk_lastRefill b)"
  using assms
proof (induction cs arbitrary: r T b)
  case Nil
  then show ?case using refill_nonneg [OF Nil(1)] by (simp add: limiter_ok_def)
next
  case (Cons c cs)
  obtain now t where c: "c = (now, t)" by (cases c)
  obtain r' ok where call: "limiter_Allow now t r = (r', ok)" by (cases "limiter_Allow now t r")
  have T: "T \<le> now" using Cons.prems(3) c by simp
  have late: "bk_lastRefill b' \<le> now" if "rl_buckets r t' = Some b'" for t' b'
    using Cons.prems(2) that T by (fastforce simp: refilled_by_def)
  have ok': "limiter_ok r'" by (rule limiter_Allow_ok [OF Cons.prems(1) call late])
  have ref': "refilled_by now r'" by (rule limiter_Allow_refilled [OF Cons.prems(2) T call])
  have srt: "sorted (now # map fst cs)" and bnd: "\<forall>c \<in> set cs. fst c \<le> tmax" "now \<le> tmax"
    using Cons.prems(3,4) c by auto
  have same: "refill r' = refill r" using limiter_Allow_frame(4) [OF call] .
  show ?case
  proof (cases "t = ten")
    case False
    then have "rl_buckets r' ten = Some b" using limiter_Allow_frame(1) [OF call, of ten] Cons.prems(5) by simp
    from Cons.IH [OF ok' ref' srt bnd(1) this Cons.prems(6)] show ?thesis
      using False by (simp add: c call same)
  next
    case True
    obtain b' where b': "rl_buckets r' ten = Some b'" "bk_lastRefill b' = now"
      "bk_tokens b' + (if ok then 1 else 0) \<le> bk_tokens b + refill r (now - bk_lastRefill b)"
      using limiter_Allow_balance [OF Cons.prems(1) call late [of t]] Cons.prems(5) True by blast
    have "of_nat (grants ten cs r') \<le> bk_tokens b' + refill r (tmax - now)"
      using Cons.IH [OF ok' ref' srt bnd(1) b'(1)] b'(2) bnd(2) same by simp
    then have "of_nat (grants ten (c # cs) r) \<le> bk_tokens b' + (if ok then 1 else 0) + refill r (tmax - now)"
      using call by (simp add: c True split: if_splits)
    also have "\<dots> \<le> bk_tokens b + refill r (now - bk_lastRefill b) + refill r (tmax - now)"
      using b'(3) by simp
    also have "\<dots> = bk_tokens b + refill r (tmax - bk_lastRefill b)"
      using refill_add [of r "now - bk_lastRefill b" "tmax - now"] by simp
    finally show ?thesis .
  qed
qed

text \<open>
  The rate limit holds over every window. From any state of the limiter, in any sequence of calls at
  non-decreasing times, a tenant's granted calls number at most the capacity plus the refill of the
  time between the first and the last call of the window - a burst of one minute's allowance, then
  \<open>rpm\<close> per minute - whatever other tenants do.
\<close>

theorem rate_limit_window:
  assumes "limiter_ok r" and "refilled_by first r" and "sorted (first # map fst cs)"
    and "\<forall>c \<in> set cs. fst c \<le> final" and "first \<le> final"
  shows "of_nat (grants ten cs r) \<le> of_int (rl_capacity r) + refill r (final - first)"
  using assms
proof (induction cs arbitrary: r first)
  case Nil
  have "0 \<le> refill r (final - first)" using refill_nonneg [OF Nil(1)] Nil(5) by simp
  moreover have "0 \<le> rl_capacity r" using Nil(1) by (simp add: limiter_ok_def)
  ultimately show ?case by simp
next
  case (Cons c cs)
  obtain now t where c: "c = (now, t)" by (cases c)
  obtain r' ok where call: "limiter_Allow now t r = (r', ok)" by (cases "limiter_Allow now t r")
  have T: "first \<le> now" using Cons.prems(3) c by simp
  have late: "bk_lastRefill b' \<le> now" if "rl_buckets r t' = Some b'" for t' b'
    using Cons.prems(2) that T by (fastforce simp: refilled_by_def)
  have ok': "limiter_ok r'" by (rule limiter_Allow_ok [OF Cons.prems(1) call late])
  have ref': "refilled_by now r'" by (rule limiter_Allow_refilled [OF Cons.prems(2) T call])
  have srt: "sorted (now # map fst cs)" and bnd: "\<forall>c \<in> set cs. fst c \<le> final" "now \<le> final"
    using Cons.prems(3,4) c by auto
  have same: "refill r' = refill r" "rl_capacity r' = rl_capacity r" using limiter_Allow_frame [OF call] by simp_all
  have mono: "refill r (final - now) \<le> refill r (final - first)"
    using refill_add [of r "now - first" "final - now"] refill_nonneg [OF Cons.prems(1), of "now - first"] T by simp
  show ?case
  proof (cases "t = ten")
    case False
    have "of_nat (grants ten (c # cs) r) = (of_nat (grants ten cs r') :: rat)" using False by (simp add: c call)
    also have "\<dots> \<le> of_int (rl_capacity r) + refill r (final - now)"
      using Cons.IH [OF ok' ref' srt bnd] same by simp
    finally show ?thesis using mono by simp
  next
    case True
    obtain b' where b': "rl_buckets r' ten = Some b'" "bk_lastRefill b' = now"
      "bk_tokens b' + (if ok then 1 else 0) \<le> of_int (rl_capacity r)"
      using limiter_Allow_balance [OF Cons.prems(1) call late [of t]] True by blast
    have "of_nat (grants ten cs r') \<le> bk_tokens b' + refill r (final - now)"
      using grants_from_bucket [OF ok' ref' srt bnd(1) b'(1)] b'(2) bnd(2) same by simp
    then show ?thesis using b'(3) mono call by (auto simp: c True)
  qed
qed

theorem rate_limit_window_witness:
  "of_nat (grants 7 [(0, 7), (0, 7), (0, 8), (0, 7)] (newRateLimiter 2)) \<le> (2 :: rat)"
  using rate_limit_window [OF limiter_ok_new, of 0 2 "[(0, 7), (0, 7), (0, 8), (0, 7)]" 0 7]
  by (simp add: newRateLimiter_def refilled_by_def refill_def)

end
