(* ===== verification/Capped_Reader.thy ===== *)
theory Capped_Reader
  imports Prelude
begin

text \<open>
  Readers and the byte cap on streamed artifacts (\<open>cappedReadCloser\<close> of
  \<open>internal/upstream/fetcher.go\<close>).
\<close>

section \<open>Readers\<close>

text \<open>
  An \<open>io.Reader\<close> delivers its chunks, cut to the caller's buffer, then its end. An eager reader
  returns the end together with the last bytes, as the \<open>io.Reader\<close> contract allows.
\<close>

datatype read_error = EOF | ReadTooLarge | ReadFailure

record reader =
  rd_chunks :: "string list"
  rd_end :: read_error
  rd_eager :: bool

definition reader_Read :: "nat \<Rightarrow> reader \<Rightarrow> reader \<times> string \<times> read_error option" where
  "reader_Read n r =
     (case rd_chunks r of
        [] \<Rightarrow> (r, [], Some (rd_end r))
      | c # cs \<Rightarrow>
          (if length c \<le> n then (r\<lparr>rd_chunks := cs\<rparr>, c, if cs = [] \<and> rd_eager r then Some (rd_end r) else None)
           else (r\<lparr>rd_chunks := drop n c # cs\<rparr>, take n c, None)))"

text \<open>\<open>io.ReadAll (io.LimitReader r n)\<close>: the bytes read, and the error unless it is \<open>io.EOF\<close>.\<close>

fun read_limited :: "nat \<Rightarrow> string list \<Rightarrow> read_error \<Rightarrow> bool \<Rightarrow> string \<times> read_error option" where
  "read_limited n [] e eager = ([], if n = 0 \<or> e = EOF then None else Some e)"
| "read_limited n (c # cs) e eager =
     (if n = 0 then ([], None)
      else if length c \<le> n then
        (if cs = [] \<and> eager then (c, if e = EOF then None else Some e)
         else (case read_limited (n - length c) cs e eager of (bs, er) \<Rightarrow> (c @ bs, er)))
      else (take n c, None))"

definition ReadAll_limit :: "int \<Rightarrow> reader \<Rightarrow> string \<times> read_error option" where
  "ReadAll_limit n r = read_limited (nat n) (rd_chunks r) (rd_end r) (rd_eager r)"

record cappedReadCloser =
  cr_rc :: reader
  cr_max :: int
  cr_read :: int
  cr_tripped :: bool

definition newCappedReadCloser :: "reader \<Rightarrow> int \<Rightarrow> cappedReadCloser" where
  "newCappedReadCloser rc mx = \<lparr>cr_rc = rc, cr_max = mx, cr_read = 0, cr_tripped = False\<rparr>"

definition capped_Read :: "nat \<Rightarrow> cappedReadCloser \<Rightarrow> cappedReadCloser \<times> string \<times> read_error option" where
  "capped_Read p c =
     (if cr_tripped c then (c, [], Some ReadTooLarge)
      else if cr_max c > 0 \<and> cr_max c - cr_read c \<le> 0 then (c\<lparr>cr_tripped := True\<rparr>, [], Some ReadTooLarge)
      else
        (let p' = (if cr_max c > 0 \<and> int p > cr_max c - cr_read c then nat (cr_max c - cr_read c) else p) in
         case reader_Read p' (cr_rc c) of (rc1, bs, err) \<Rightarrow>
           (let c1 = c\<lparr>cr_rc := rc1, cr_read := cr_read c + int (length bs)\<rparr> in
            if cr_max c1 > 0 \<and> cr_read c1 \<ge> cr_max c1 then
              (case reader_Read 1 (cr_rc c1) of (rc2, extra, _) \<Rightarrow>
                 (if length extra > 0 then (c1\<lparr>cr_rc := rc2, cr_tripped := True\<rparr>, bs, Some ReadTooLarge)
                  else (c1\<lparr>cr_rc := rc2\<rparr>, bs, err)))
            else (c1, bs, err))))"

section \<open>Reading to the end\<close>

definition rd_size :: "reader \<Rightarrow> nat" where
  "rd_size r = sum_list (map (\<lambda>c. Suc (length c)) (rd_chunks r))"

lemma reader_Read_size:
  "reader_Read p r = (r', bs, err) \<Longrightarrow> rd_size r' \<le> rd_size r"
  "reader_Read p r = (r', bs, None) \<Longrightarrow> 0 < p \<Longrightarrow> rd_size r' < rd_size r"
  by (auto simp: reader_Read_def rd_size_def split: list.splits if_splits)

lemma capped_Read_size:
  assumes "capped_Read (Suc p) c = (c', bs, None)"
  shows "rd_size (cr_rc c') < rd_size (cr_rc c)"
proof -
  let ?p = "if cr_max c > 0 \<and> int (Suc p) > cr_max c - cr_read c then nat (cr_max c - cr_read c) else Suc p"
  obtain r1 b1 e1 where r1: "reader_Read ?p (cr_rc c) = (r1, b1, e1)" by (cases "reader_Read ?p (cr_rc c)") auto
  obtain r2 b2 e2 where r2: "reader_Read 1 r1 = (r2, b2, e2)" by (cases "reader_Read 1 r1") auto
  have "e1 = None" and "rd_size (cr_rc c') \<le> rd_size r1" and "0 < ?p"
    using assms r1 r2 reader_Read_size(1) [OF r2] by (auto simp: capped_Read_def Let_def split: if_splits)
  then show ?thesis using reader_Read_size(2) [of ?p "cr_rc c" r1 b1] r1 by simp
qed

text \<open>Reading to the end with a buffer of \<open>Suc p\<close> bytes, as \<open>io.Copy\<close> and \<open>io.ReadAll\<close> do.\<close>

function capped_ReadAll :: "nat \<Rightarrow> cappedReadCloser \<Rightarrow> string \<times> read_error" where
  "capped_ReadAll p c =
     (case capped_Read (Suc p) c of (c', bs, err) \<Rightarrow>
        (case err of Some e \<Rightarrow> (bs, e) | None \<Rightarrow> (case capped_ReadAll p c' of (bs', e) \<Rightarrow> (bs @ bs', e))))"
  by pat_completeness auto
termination
  by (relation "measure (\<lambda>(p, c). rd_size (cr_rc c))") (auto dest!: capped_Read_size [OF sym])

declare capped_ReadAll.simps [simp del]

lemma capped_ReadAll_full:
  "0 < cr_max c \<Longrightarrow> cr_max c \<le> cr_read c \<Longrightarrow> capped_ReadAll p c = ([], ReadTooLarge)"
  by (subst capped_ReadAll.simps) (simp add: capped_Read_def)

lemma capped_ReadAll_open:
  assumes "cr_max c > 0" and "cr_read c < cr_max c" and "\<not> cr_tripped c"
    and "[] \<notin> set (rd_chunks (cr_rc c))" and "rd_end (cr_rc c) = EOF"
  shows "capped_ReadAll p c =
    (let b = concat (rd_chunks (cr_rc c)); n = cr_max c - cr_read c in
     (take (nat n) b,
      if int (length b) < n \<or> int (length b) = n \<and> rd_eager (cr_rc c) then EOF else ReadTooLarge))"
  using assms
proof (induction "rd_size (cr_rc c)" arbitrary: c rule: less_induct)
  case (less c)
  let ?n = "cr_max c - cr_read c"
  define q where "q = (if int (Suc p) > ?n then nat ?n else Suc p)"
  have q: "0 < q" "int q \<le> ?n" using less(2,3) by (auto simp: q_def)
  have Read: "capped_Read (Suc p) c = (case reader_Read q (cr_rc c) of (rc1, bs, err) \<Rightarrow>
           (let c1 = c\<lparr>cr_rc := rc1, cr_read := cr_read c + int (length bs)\<rparr> in
            if cr_read c1 \<ge> cr_max c1 then
              (case reader_Read 1 (cr_rc c1) of (rc2, extra, _) \<Rightarrow>
                 (if length extra > 0 then (c1\<lparr>cr_rc := rc2, cr_tripped := True\<rparr>, bs, Some ReadTooLarge)
                  else (c1\<lparr>cr_rc := rc2\<rparr>, bs, err)))
            else (c1, bs, err)))"
    using less(2,3,4) by (simp add: capped_Read_def q_def Let_def split: prod.split)
  have more: "capped_ReadAll p c = (take (nat ?n) (bs @ concat cs),
      if int (length (bs @ concat cs)) < ?n \<or> int (length (bs @ concat cs)) = ?n \<and> rd_eager (cr_rc c)
      then EOF else ReadTooLarge)"
    if "capped_Read (Suc p) c = (c\<lparr>cr_rc := (cr_rc c)\<lparr>rd_chunks := cs\<rparr>, cr_read := cr_read c + int (length bs)\<rparr>, bs, None)"
      and "int (length bs) < ?n" and "[] \<notin> set cs" for cs bs
  proof -
    let ?c = "c\<lparr>cr_rc := (cr_rc c)\<lparr>rd_chunks := cs\<rparr>, cr_read := cr_read c + int (length bs)\<rparr>"
    have "capped_ReadAll p ?c = (let b = concat cs; n = ?n - int (length bs) in
       (take (nat n) b, if int (length b) < n \<or> int (length b) = n \<and> rd_eager (cr_rc c) then EOF else ReadTooLarge))"
      using less(1) [of ?c] capped_Read_size [OF that(1)] less(2-6) that(2,3) by (simp add: diff_diff_eq)
    moreover have "take (nat ?n) bs = bs" "nat ?n - length bs = nat (?n - int (length bs))"
      using that(2) by (simp, arith)
    ultimately show ?thesis
      by (subst capped_ReadAll.simps) (simp add: that(1) Let_def algebra_simps)
  qed
  show ?case
  proof (cases "rd_chunks (cr_rc c)")
    case Nil
    with less(2,3,6) show ?thesis
      by (subst capped_ReadAll.simps) (simp add: Read reader_Read_def Let_def)
  next
    case (Cons b bs)
    have b: "b \<noteq> []" "[] \<notin> set bs" using less(5) Cons by auto
    show ?thesis
    proof (cases "length b \<le> q")
      case cut: False
      have r: "reader_Read q (cr_rc c) = ((cr_rc c)\<lparr>rd_chunks := drop q b # bs\<rparr>, take q b, None)"
        using Cons cut by (simp add: reader_Read_def)
      show ?thesis
      proof (cases "int q = ?n")
        case True
        then have "nat ?n = q" by simp
        with True show ?thesis
          using cut q by (subst capped_ReadAll.simps) (auto simp: Read r Let_def reader_Read_def Cons)
      next
        case False
        then show ?thesis
          using more [where cs = "drop q b # bs" and bs = "take q b"] cut q b
          by (simp add: Read r Let_def Cons flip: append_assoc)
      qed
    next
      case whole: True
      have r: "reader_Read q (cr_rc c) =
          ((cr_rc c)\<lparr>rd_chunks := bs\<rparr>, b, if bs = [] \<and> rd_eager (cr_rc c) then Some EOF else None)"
        using Cons whole less(6) by (simp add: reader_Read_def)
      show ?thesis
      proof (cases "int (length b) = ?n")
        case True
        then have n: "nat ?n = length b" by simp
        show ?thesis
        proof (cases bs)
          case Nil
          with True less(2,6) whole show ?thesis
            by (subst capped_ReadAll.simps)
              (auto simp: Read r Let_def reader_Read_def Cons capped_ReadAll_full n)
        next
          case bs: (Cons x xs)
          with b have "0 < int (length x) + int (length (concat xs))" by (cases x) auto
          with bs True b whole show ?thesis
            by (subst capped_ReadAll.simps) (auto simp: Read r Let_def reader_Read_def Cons n split: if_splits)
        qed
      next
        case False
        then have lt: "int (length b) < ?n" using whole q(2) by simp
        show ?thesis
        proof (cases "bs = [] \<and> rd_eager (cr_rc c)")
          case True
          with lt show ?thesis
            by (subst capped_ReadAll.simps) (simp add: Read r Let_def Cons)
        next
          case False
          then show ?thesis
            using more [where cs = bs and bs = b] lt b(2) by (simp add: Read r Let_def Cons)
        qed
      qed
    qed
  qed
qed

text \<open>
  A streamed artifact is bounded. Whatever the size of the reads and however the upstream splits its
  body, reading to the end through the capped reader gives at most \<open>MaxBytesPerFetch\<close> bytes - the
  body's first - and succeeds exactly when the body is shorter than the cap. A body of exactly the
  cap's size is within the limit, yet it fails, unless the upstream's reader happens to report its
  end together with the last bytes.
\<close>

theorem capped_reader_bound:
  assumes "0 < mx" and "[] \<notin> set (rd_chunks r)" and "rd_end r = EOF"
  shows "capped_ReadAll p (newCappedReadCloser r mx) =
    (take (nat mx) (concat (rd_chunks r)),
     if int (length (concat (rd_chunks r))) < mx \<or> int (length (concat (rd_chunks r))) = mx \<and> rd_eager r
     then EOF else ReadTooLarge)"
  using capped_ReadAll_open [of "newCappedReadCloser r mx" p] assms
  by (simp add: newCappedReadCloser_def Let_def)

theorem capped_reader_bound_witness:
  "capped_ReadAll 4095 (newCappedReadCloser \<lparr>rd_chunks = [''ab'', ''cd''], rd_end = EOF, rd_eager = False\<rparr> 4) =
    (''abcd'', ReadTooLarge)"
  using capped_reader_bound [of 4 "\<lparr>rd_chunks = [''ab'', ''cd''], rd_end = EOF, rd_eager = False\<rparr>" 4095] by simp

end
