(* ===== verification/Fetcher.thy ===== *)
theory Fetcher
  imports Upstream_Guard Metadata_Cache Rate_Limiter Capped_Reader
begin

text \<open>
  Fetching from an upstream registry: the fetch pipeline of
  \<open>internal/upstream/fetcher.go\<close>, on the guarded HTTP client of \<open>httpclient.go\<close>.

  What the process cannot decide is a record \<open>world\<close>: \<open>url.Parse\<close> and reference resolution, the
  proxy of the environment, DNS, and the servers. The redirect loop of \<open>net/http.Client\<close> is written
  out as the standard library runs it. Every connection is logged, so that the safety theorem
  speaks of what goes on the wire. Connections are not pooled: a reused connection was dialled, and
  checked, before. One call of \<open>Fetch\<close> is modelled; concurrent duplicates that \<open>singleflight\<close> would
  collapse are not.
\<close>

section \<open>The outside\<close>

record http_request =
  hq_URL :: url
  hq_IfNoneMatch :: string
  hq_IfModifiedSince :: "int option"
  hq_UserAgent :: string

record http_response =
  hr_StatusCode :: int
  hr_ContentType :: string
  hr_ContentLength :: int
  hr_ETag :: string
  hr_LastModified :: string
  hr_Location :: string
  hr_Body :: reader

datatype client_error = Blocked | TimedOut | TransportFailure

text \<open>
  \<open>w_serve n q h a\<close>: the answer to the \<open>n\<close>-th request \<open>q\<close> sent on a connection dialled to the host
  \<open>h\<close> at address \<open>a\<close>. \<open>w_proxy\<close> is \<open>http.ProxyFromEnvironment\<close>: the proxy's host, if any.
\<close>

record world =
  w_parse :: "string \<Rightarrow> url option"
  w_ref :: "url \<Rightarrow> url \<Rightarrow> url"
  w_http_time :: "string \<Rightarrow> int option"
  w_proxy :: "url \<Rightarrow> string option"
  w_lookup_ip :: "string \<Rightarrow> ip list option"
  w_serve :: "nat \<Rightarrow> http_request \<Rightarrow> string \<Rightarrow> ip \<Rightarrow> (client_error, http_response) result"

record connection =
  cn_request :: http_request
  cn_host :: string
  cn_ip :: ip

section \<open>The HTTP client\<close>

record httpClientConfig =
  hc_allowlist :: "string set"
  hc_permitPrivate :: bool
  hc_allowPlaintext :: bool
  hc_userAgent :: string

text \<open>
  \<open>DialContext\<close>: every address of the host must pass the guard; the first is dialled. A host without
  an address would make \<open>ips[0]\<close> panic; \<open>LookupIP\<close> reports an error instead of an empty list.
\<close>

definition DialContext :: "world \<Rightarrow> httpClientConfig \<Rightarrow> string \<Rightarrow> (client_error, ip) result" where
  "DialContext w cfg host =
     (case w_lookup_ip w host of
        None \<Rightarrow> Inl TransportFailure
      | Some ips \<Rightarrow>
          if list_ex (\<lambda>a. \<not> AllowsIP (hc_permitPrivate cfg) a) ips then Inl Blocked
          else (case ips of [] \<Rightarrow> Inl TransportFailure | a # _ \<Rightarrow> Inr a))"

text \<open>\<open>uaTransport.RoundTrip\<close> over \<open>http.Transport\<close>, which speaks only http and https.\<close>

definition RoundTrip :: "world \<Rightarrow> httpClientConfig \<Rightarrow> nat \<Rightarrow> http_request
    \<Rightarrow> connection list \<times> (client_error, http_response) result" where
  "RoundTrip w cfg n q =
     (let q' = (if hc_userAgent cfg \<noteq> [] \<and> hq_UserAgent q = [] then q\<lparr>hq_UserAgent := hc_userAgent cfg\<rparr> else q);
          host = (case w_proxy w (hq_URL q) of None \<Rightarrow> url_Hostname (hq_URL q) | Some p \<Rightarrow> p)
      in if url_Scheme (hq_URL q) \<notin> {''http'', ''https''} \<or> url_Hostname (hq_URL q) = [] then ([], Inl TransportFailure)
         else (case DialContext w cfg host of
             Inl e \<Rightarrow> ([], Inl e)
           | Inr a \<Rightarrow> ([\<lparr>cn_request = q', cn_host = host, cn_ip = a\<rparr>], w_serve w n q' host a)))"

datatype redirect_verdict = Follow | UseLastResponse | RedirectBlocked

definition CheckRedirect :: "httpClientConfig \<Rightarrow> url \<Rightarrow> nat \<Rightarrow> redirect_verdict" where
  "CheckRedirect cfg u via =
     (if via \<ge> 5 then UseLastResponse
      else if \<not> hc_allowPlaintext cfg \<and> url_Scheme u \<noteq> ''https'' then RedirectBlocked
      else if \<not> Permits (hc_allowlist cfg) u then RedirectBlocked
      else Follow)"

text \<open>
  \<open>http.Client.Do\<close> for a GET: a 301, 302, 303, 307 or 308 with a \<open>Location\<close> is followed when
  \<open>CheckRedirect\<close> agrees. \<open>n\<close> requests were sent before.
\<close>

function client_do :: "world \<Rightarrow> httpClientConfig \<Rightarrow> nat \<Rightarrow> http_request
    \<Rightarrow> connection list \<times> (client_error, http_response) result" where
  "client_do w cfg n q =
     (case RoundTrip w cfg n q of
        (sent, Inl e) \<Rightarrow> (sent, Inl e)
      | (sent, Inr resp) \<Rightarrow>
          if hr_StatusCode resp \<notin> {301, 302, 303, 307, 308} \<or> hr_Location resp = [] then (sent, Inr resp)
          else (case w_parse w (hr_Location resp) of
              None \<Rightarrow> (sent, Inl TransportFailure)
            | Some ref \<Rightarrow>
                (let u = w_ref w (hq_URL q) ref in
                 case CheckRedirect cfg u (Suc n) of
                   UseLastResponse \<Rightarrow> (sent, Inr resp)
                 | RedirectBlocked \<Rightarrow> (sent, Inl Blocked)
                 | Follow \<Rightarrow> (case client_do w cfg (Suc n) (q\<lparr>hq_URL := u\<rparr>) of (sent', r) \<Rightarrow> (sent @ sent', r)))))"
  by pat_completeness auto
termination
  by (relation "measure (\<lambda>(w, cfg, n, q). 5 - n)") (auto simp: CheckRedirect_def split: if_splits)

declare client_do.simps [simp del]

definition checkSchemeAndHost :: "url option \<Rightarrow> string set \<Rightarrow> bool \<Rightarrow> (upstream_error, unit) result" where
  "checkSchemeAndHost target al allowPlaintext =
     (case target of None \<Rightarrow> Inl ErrUpstreamForbidden
      | Some u \<Rightarrow> (let scheme = to_lower (url_Scheme u) in
          if scheme \<noteq> ''https'' \<and> \<not> (allowPlaintext \<and> scheme = ''http'') then Inl ErrUpstreamForbidden
          else if \<not> Permits al u then Inl ErrUpstreamForbidden
          else Inr ()))"

section \<open>The pipeline\<close>

record fetch_request =
  fq_TenantID :: int
  fq_Format :: string
  fq_Kind :: upstream_kind
  fq_UpstreamPath :: string
  fq_CanonicalKey :: string
  fq_IfNoneMatch :: string
  fq_IfModifiedSince :: "int option"

datatype body = Bytes string | Stream cappedReadCloser

record fetch_result =
  fr_Body :: body
  fr_ContentType :: string
  fr_ContentLength :: int
  fr_ETag :: string
  fr_LastModified :: "int option"
  fr_UpstreamURL :: "url option"
  fr_FromCache :: bool
  fr_NotModified :: bool

record fetcher =
  ft_cfg :: upstream_env_config
  ft_store :: "int \<Rightarrow> string \<Rightarrow> persisted_config option"
  ft_allowlist :: "string set"
  ft_client :: httpClientConfig
  ft_limiter :: rate_limiter
  ft_cache :: metadata_cache

definition New :: "upstream_env_config \<Rightarrow> (int \<Rightarrow> string \<Rightarrow> persisted_config option) \<Rightarrow> fetcher" where
  "New cfg store =
     (let al = NewAllowlist (uc_AllowedHostsExtra cfg)
      in \<lparr>ft_cfg = cfg, ft_store = store, ft_allowlist = al,
          ft_client = \<lparr>hc_allowlist = al, hc_permitPrivate = uc_AllowPrivateIPs cfg,
                       hc_allowPlaintext = uc_AllowPlaintext cfg, hc_userAgent = uc_UserAgent cfg\<rparr>,
          ft_limiter = newRateLimiter (uc_FetchRPMPerTenant cfg),
          ft_cache = newMetadataCache (uc_MetadataCacheMaxBytes cfg)\<rparr>)"

definition ResolveConfig :: "world \<Rightarrow> fetcher \<Rightarrow> int \<Rightarrow> string \<Rightarrow> tenant_config" where
  "ResolveConfig w f tenantID format =
     resolveConfig (w_parse w) (ft_store f) (uc_DefaultMode (ft_cfg f)) (uc_DefaultMetadataTTL (ft_cfg f)) tenantID format"

definition resolveURL :: "world \<Rightarrow> fetch_request \<Rightarrow> tenant_config \<Rightarrow> url option" where
  "resolveURL w req cfg =
     (if prefix ''http://'' (fq_UpstreamPath req) \<or> prefix ''https://'' (fq_UpstreamPath req)
      then w_parse w (fq_UpstreamPath req)
      else (case tc_UpstreamBaseURL cfg of
          None \<Rightarrow> None
        | Some base \<Rightarrow> map_option (w_ref w base) (w_parse w (fq_UpstreamPath req))))"

definition resultFromCache :: "cache_entry \<Rightarrow> fetch_result" where
  "resultFromCache e =
     \<lparr>fr_Body = Bytes (ce_body e), fr_ContentType = ce_contentType e, fr_ContentLength = ce_sizeBytes e,
      fr_ETag = ce_etag e, fr_LastModified = ce_lastModified e, fr_UpstreamURL = None,
      fr_FromCache = True, fr_NotModified = False\<rparr>"

definition client_error_map :: "client_error \<Rightarrow> upstream_error" where
  "client_error_map e =
     (case e of Blocked \<Rightarrow> ErrUpstreamForbidden | TimedOut \<Rightarrow> ErrUpstreamTimeout | TransportFailure \<Rightarrow> ErrUpstreamUpstream)"

text \<open>
  The answers of \<open>doFetch\<close>, at the instant \<open>now\<close> the response is there. \<open>None\<close>: the cache's \<open>put\<close>
  never returns.
\<close>

definition respond_304 :: "int \<Rightarrow> fetch_request \<Rightarrow> tenant_config \<Rightarrow> url \<Rightarrow> metadata_cache \<Rightarrow> metadata_cache \<times> fetch_result" where
  "respond_304 now req cfg target c =
     (let empty = \<lparr>fr_Body = Bytes [], fr_ContentType = [], fr_ContentLength = 0, fr_ETag = [], fr_LastModified = None,
                   fr_UpstreamURL = Some target, fr_FromCache = False, fr_NotModified = True\<rparr> in
      if fq_Kind req = KindMetadata \<and> fq_CanonicalKey req \<noteq> [] then
        (case cache_refresh now (fq_CanonicalKey req) (tc_MetadataTTL cfg) c of
           (c1, False) \<Rightarrow> (c1, empty)
         | (c1, True) \<Rightarrow>
             (case cache_get now (fq_CanonicalKey req) c1 of
                (c2, Some e) \<Rightarrow> (c2, (resultFromCache e)\<lparr>fr_NotModified := False\<rparr>)
              | (c2, None) \<Rightarrow> (c2, empty)))
      else (c, empty))"

definition respond_body :: "world \<Rightarrow> int \<Rightarrow> int \<Rightarrow> fetch_request \<Rightarrow> tenant_config \<Rightarrow> url \<Rightarrow> http_response \<Rightarrow> metadata_cache
    \<Rightarrow> (metadata_cache \<times> (upstream_error, fetch_result) result) option" where
  "respond_body w now maxBytes req cfg target resp c =
     (let result = \<lparr>fr_Body = Bytes [], fr_ContentType = hr_ContentType resp, fr_ContentLength = hr_ContentLength resp,
            fr_ETag = hr_ETag resp,
            fr_LastModified = (if hr_LastModified resp = [] then None else w_http_time w (hr_LastModified resp)),
            fr_UpstreamURL = Some target, fr_FromCache = False, fr_NotModified = False\<rparr> in
      if maxBytes > 0 \<and> fr_ContentLength result > maxBytes then Some (c, Inl ErrUpstreamTooLarge)
      else if fq_Kind req = KindMetadata then
        (case ReadAll_limit (wrap64 (maxBytes + 1)) (hr_Body resp) of
           (bs, Some _) \<Rightarrow> Some (c, Inl ErrUpstreamUpstream)
         | (bs, None) \<Rightarrow>
             if int (length bs) > maxBytes then Some (c, Inl ErrUpstreamTooLarge)
             else
               (let done = Inr (result\<lparr>fr_Body := Bytes bs, fr_ContentLength := int (length bs)\<rparr>) in
                if fq_CanonicalKey req \<noteq> [] then
                  map_option (\<lambda>c'. (c', done))
                    (cache_put now (fq_CanonicalKey req) bs (fr_ContentType result) (fr_ETag result)
                       (fr_LastModified result) (tc_MetadataTTL cfg) c)
                else Some (c, done)))
      else Some (c, Inr (result\<lparr>fr_Body := Stream (newCappedReadCloser (hr_Body resp) maxBytes)\<rparr>)))"

definition doFetch :: "world \<Rightarrow> int \<Rightarrow> fetch_request \<Rightarrow> tenant_config \<Rightarrow> url \<Rightarrow> fetcher
    \<Rightarrow> connection list \<times> (fetcher \<times> (upstream_error, fetch_result) result) option" where
  "doFetch w now req cfg target f =
     (let q = \<lparr>hq_URL = target, hq_IfNoneMatch = fq_IfNoneMatch req, hq_IfModifiedSince = fq_IfModifiedSince req,
               hq_UserAgent = []\<rparr>;
          fail = (\<lambda>e. Some (f, Inl e)) in
      case client_do w (ft_client f) 0 q of
        (sent, Inl e) \<Rightarrow> (sent, fail (client_error_map e))
      | (sent, Inr resp) \<Rightarrow>
          (sent,
           if hr_StatusCode resp = 304 then
             (case respond_304 now req cfg target (ft_cache f) of (c, r) \<Rightarrow> Some (f\<lparr>ft_cache := c\<rparr>, Inr r))
           else if hr_StatusCode resp = 404 then fail ErrUpstreamNotFound
           else if hr_StatusCode resp = 403 then fail ErrUpstreamForbidden
           else if hr_StatusCode resp = 429 then fail ErrUpstreamRateLimit
           else if hr_StatusCode resp \<ge> 500 \<or> hr_StatusCode resp \<ge> 400 then fail ErrUpstreamUpstream
           else map_option (\<lambda>(c, r). (f\<lparr>ft_cache := c\<rparr>, r))
                  (respond_body w now (uc_MaxBytesPerFetch (ft_cfg f)) req cfg target resp (ft_cache f))))"

text \<open>\<open>Fetch\<close>: called at \<open>now\<close>, answered upstream at \<open>later\<close>.\<close>

definition Fetch :: "world \<Rightarrow> int \<Rightarrow> int \<Rightarrow> fetch_request \<Rightarrow> fetcher
    \<Rightarrow> connection list \<times> (fetcher \<times> (upstream_error, fetch_result) result) option" where
  "Fetch w now later req f =
     (let cfg = ResolveConfig w f (fq_TenantID req) (fq_Format req) in
      if tc_Mode cfg = ModeOff then ([], Some (f, Inl ErrUpstreamOff))
      else (case resolveURL w req cfg of
          None \<Rightarrow> ([], Some (f, Inl ErrUpstreamForbidden))
        | Some target \<Rightarrow>
            (case checkSchemeAndHost (Some target) (ft_allowlist f) (uc_AllowPlaintext (ft_cfg f)) of
               Inl e \<Rightarrow> ([], Some (f, Inl e))
             | Inr _ \<Rightarrow>
              (case (if fq_Kind req = KindMetadata \<and> fq_CanonicalKey req \<noteq> []
                     then cache_get now (fq_CanonicalKey req) (ft_cache f) else (ft_cache f, None)) of
                 (c, Some e) \<Rightarrow> ([], Some (f\<lparr>ft_cache := c\<rparr>, Inr (resultFromCache e)))
               | (c, None) \<Rightarrow>
                   (case limiter_Allow now (fq_TenantID req) (ft_limiter f) of (l, ok) \<Rightarrow>
                      let f' = f\<lparr>ft_cache := c, ft_limiter := l\<rparr> in
                      if \<not> ok then ([], Some (f', Inl ErrUpstreamRateLimit))
                      else doFetch w later req cfg target f')))))"

end
