(* ===== verification/Fetcher_Laws.thy ===== *)
theory Fetcher_Laws
  imports Fetcher
begin

text \<open>
  What the fetch pipeline guarantees: where its requests go, that it returns, and what it makes of
  each answer.
\<close>

section \<open>The client only talks to permitted hosts\<close>

definition permitted :: "httpClientConfig \<Rightarrow> url \<Rightarrow> bool" where
  "permitted cfg u \<longleftrightarrow> Permits (hc_allowlist cfg) u
     \<and> (url_Scheme u = ''https'' \<or> hc_allowPlaintext cfg \<and> url_Scheme u = ''http'')"

definition safe_connection :: "world \<Rightarrow> httpClientConfig \<Rightarrow> connection \<Rightarrow> bool" where
  "safe_connection w cfg c \<longleftrightarrow> permitted cfg (hq_URL (cn_request c)) \<and> AllowsIP (hc_permitPrivate cfg) (cn_ip c)
     \<and> cn_host c = (case w_proxy w (hq_URL (cn_request c)) of None \<Rightarrow> url_Hostname (hq_URL (cn_request c)) | Some p \<Rightarrow> p)
     \<and> (\<exists>ips. w_lookup_ip w (cn_host c) = Some ips \<and> cn_ip c \<in> set ips \<and> (\<forall>a \<in> set ips. AllowsIP (hc_permitPrivate cfg) a))"

lemma DialContext_safe:
  assumes "DialContext w cfg h = Inr a"
  shows "AllowsIP (hc_permitPrivate cfg) a"
    and "\<exists>ips. w_lookup_ip w h = Some ips \<and> a \<in> set ips \<and> (\<forall>a \<in> set ips. AllowsIP (hc_permitPrivate cfg) a)"
  using assms by (auto simp: DialContext_def list_ex_iff split: option.splits if_splits list.splits)

lemma RoundTrip_safe:
  assumes "RoundTrip w cfg n q = (sent, r)" and "c \<in> set sent"
    and "Permits (hc_allowlist cfg) (hq_URL q)"
    and "url_Scheme (hq_URL q) = ''http'' \<Longrightarrow> hc_allowPlaintext cfg"
  shows "safe_connection w cfg c" and "length sent \<le> 1"
  using assms by (auto simp: RoundTrip_def Let_def safe_connection_def permitted_def
      split: if_splits sum.splits option.splits dest: DialContext_safe)

lemma RoundTrip_length: "RoundTrip w cfg n q = (sent, r) \<Longrightarrow> length sent \<le> 1"
  by (auto simp: RoundTrip_def Let_def split: if_splits sum.splits)

lemma client_do_safe:
  assumes "client_do w cfg n q = (sent, r)" and "n \<le> 4"
    and "Permits (hc_allowlist cfg) (hq_URL q)"
    and "url_Scheme (hq_URL q) = ''http'' \<Longrightarrow> hc_allowPlaintext cfg"
  shows "(\<forall>c \<in> set sent. safe_connection w cfg c) \<and> length sent \<le> 5 - n"
  using assms
proof (induction w cfg n q arbitrary: sent r rule: client_do.induct)
  case (1 w cfg n q)
  obtain s1 r1 where rt: "RoundTrip w cfg n q = (s1, r1)" by (cases "RoundTrip w cfg n q")
  have s1: "\<forall>c \<in> set s1. safe_connection w cfg c" "length s1 \<le> 5 - n"
    using RoundTrip_safe(1) [OF rt _ "1.prems"(3,4)] RoundTrip_length [OF rt] "1.prems"(2) by auto
  show ?case
  proof (cases "sent = s1")
    case True
    with s1 show ?thesis by simp
  next
    case False
    then obtain resp ref s2 where resp: "r1 = Inr resp" and st: "\<not> (hr_StatusCode resp \<notin> {301, 302, 303, 307, 308} \<or> hr_Location resp = [])"
      and loc: "w_parse w (hr_Location resp) = Some ref"
      and chk: "CheckRedirect cfg (w_ref w (hq_URL q) ref) (Suc n) = Follow"
      and rec: "client_do w cfg (Suc n) (q\<lparr>hq_URL := w_ref w (hq_URL q) ref\<rparr>) = (s2, r)" and sent: "sent = s1 @ s2"
      using "1.prems"(1) rt
      by (subst (asm) client_do.simps)
        (auto simp: Let_def split: sum.splits if_splits option.splits redirect_verdict.splits prod.splits)
    have "Suc n \<le> 4" using chk by (simp add: CheckRedirect_def split: if_splits)
    moreover have "Permits (hc_allowlist cfg) (w_ref w (hq_URL q) ref)"
      "url_Scheme (w_ref w (hq_URL q) ref) = ''http'' \<Longrightarrow> hc_allowPlaintext cfg"
      using chk by (auto simp: CheckRedirect_def split: if_splits)
    ultimately have "(\<forall>c \<in> set s2. safe_connection w cfg c) \<and> length s2 \<le> 5 - Suc n"
      using "1.IH" [OF rt [symmetric] resp st loc refl chk] rec by simp
    then show ?thesis using s1 sent RoundTrip_length [OF rt] \<open>Suc n \<le> 4\<close> by auto
  qed
qed


section \<open>The fetcher's state\<close>

text \<open>A fetcher as \<open>New\<close> wires it: gate and client share one allowlist and one configuration.\<close>

definition fetcher_ok :: "fetcher \<Rightarrow> bool" where
  "fetcher_ok f \<longleftrightarrow> ft_client f = ft_client (New (ft_cfg f) (ft_store f))
     \<and> ft_allowlist f = NewAllowlist (uc_AllowedHostsExtra (ft_cfg f)) \<and> cache_ok (ft_cache f)"

lemma fetcher_ok_New: "fetcher_ok (New cfg store)"
  by (simp add: fetcher_ok_def New_def Let_def cache_ok_new)

lemma fetcher_okD:
  assumes "fetcher_ok f"
  shows "hc_allowlist (ft_client f) = ft_allowlist f" "hc_allowPlaintext (ft_client f) = uc_AllowPlaintext (ft_cfg f)"
    "hc_permitPrivate (ft_client f) = uc_AllowPrivateIPs (ft_cfg f)"
    "ft_allowlist f = NewAllowlist (uc_AllowedHostsExtra (ft_cfg f))" "cache_ok (ft_cache f)"
  using assms by (simp_all add: fetcher_ok_def New_def Let_def)

lemma fetcher_ok_update: "fetcher_ok f \<Longrightarrow> cache_ok c \<Longrightarrow> fetcher_ok (f\<lparr>ft_cache := c\<rparr>)"
  "fetcher_ok f \<Longrightarrow> fetcher_ok (f\<lparr>ft_limiter := l\<rparr>)"
  by (simp_all add: fetcher_ok_def New_def Let_def)

lemma cache_put_total:
  assumes "cache_ok c"
  shows "\<exists>c'. cache_put now key bs ct et lm ttl c = Some c' \<and> cache_ok c'"
proof (cases "mc_maxBytes c \<le> 0 \<or> ttl \<le> 0")
  case True
  with assms show ?thesis by (auto simp: cache_put_def)
next
  case False
  with cache_put_fits [OF assms, of ttl now key bs ct et lm] show ?thesis by auto
qed

lemma respond_304_ok: "cache_ok c \<Longrightarrow> respond_304 now req cfg target c = (c', r) \<Longrightarrow> cache_ok c'"
  using cache_refresh_ok [of c now "fq_CanonicalKey req" "tc_MetadataTTL cfg"]
    cache_get_ok [of _ now "fq_CanonicalKey req"]
  by (auto simp: respond_304_def Let_def split: if_splits prod.splits bool.splits option.splits)
    (metis fst_conv)+

lemma respond_body_total:
  assumes "cache_ok c"
  shows "\<exists>c' r. respond_body w now mx req cfg target resp c = Some (c', r) \<and> cache_ok c'"
proof -
  obtain bs er where rd: "ReadAll_limit (wrap64 (mx + 1)) (hr_Body resp) = (bs, er)"
    by (cases "ReadAll_limit (wrap64 (mx + 1)) (hr_Body resp)")
  show ?thesis
    using assms cache_put_total [OF assms]
    by (cases er) (fastforce simp: respond_body_def Let_def rd)+
qed

lemma doFetch_total:
  assumes "fetcher_ok f" and "doFetch w now req cfg target f = (sent, out)"
  shows "\<exists>c r. out = Some (f\<lparr>ft_cache := c\<rparr>, r) \<and> cache_ok c"
proof -
  have keep: "\<exists>c. (f, x) = (f\<lparr>ft_cache := c\<rparr>, x) \<and> cache_ok c" for x :: "(upstream_error, fetch_result) result"
    using fetcher_okD(5) [OF assms(1)] by (auto intro!: exI [of _ "ft_cache f"])
  show ?thesis
    using assms(2) fetcher_okD(5) [OF assms(1)] keep
      respond_body_total [of "ft_cache f" w now "uc_MaxBytesPerFetch (ft_cfg f)" req cfg target]
    by (fastforce simp: doFetch_def Let_def split: prod.splits sum.splits if_splits dest: respond_304_ok)
qed


lemma doFetch_safe:
  assumes "fetcher_ok f" and "checkSchemeAndHost (Some target) (ft_allowlist f) (uc_AllowPlaintext (ft_cfg f)) = Inr x"
    and "doFetch w now req cfg target f = (sent, out)"
  shows "(\<forall>c \<in> set sent. safe_connection w (ft_client f) c) \<and> length sent \<le> 5"
proof -
  let ?q = "\<lparr>hq_URL = target, hq_IfNoneMatch = fq_IfNoneMatch req, hq_IfModifiedSince = fq_IfModifiedSince req,
               hq_UserAgent = []\<rparr>"
  obtain r where "client_do w (ft_client f) 0 ?q = (sent, r)"
    using assms(3) by (auto simp: doFetch_def Let_def split: prod.splits sum.splits)
  moreover have "Permits (hc_allowlist (ft_client f)) target"
    "url_Scheme target = ''http'' \<Longrightarrow> hc_allowPlaintext (ft_client f)"
    using assms(2) fetcher_okD(1,2) [OF assms(1)]
    by (auto simp: checkSchemeAndHost_def Let_def to_lower_def split: if_splits)
  ultimately show ?thesis using client_do_safe [of w "ft_client f" 0 ?q sent r] by simp
qed

text \<open>
  The stages of a call: refused by the gates, answered from the cache, refused by the limiter, or
  sent upstream.
\<close>

lemma Fetch_cases:
  assumes "Fetch w now later req f = (sent, out)"
  obtains (refused) e where "sent = []" "out = Some (f, Inl e)"
  | (cached) c e where "sent = []" "out = Some (f\<lparr>ft_cache := c\<rparr>, Inr (resultFromCache e))"
      "fq_Kind req = KindMetadata" "cache_get now (fq_CanonicalKey req) (ft_cache f) = (c, Some e)"
  | (limited) c l where "sent = []" "out = Some (f\<lparr>ft_cache := c, ft_limiter := l\<rparr>, Inl ErrUpstreamRateLimit)"
      "c = ft_cache f \<or> c = fst (cache_get now (fq_CanonicalKey req) (ft_cache f))"
  | (sent) c l target where
      "doFetch w later req (ResolveConfig w f (fq_TenantID req) (fq_Format req)) target
         (f\<lparr>ft_cache := c, ft_limiter := l\<rparr>) = (sent, out)"
      "limiter_Allow now (fq_TenantID req) (ft_limiter f) = (l, True)"
      "checkSchemeAndHost (Some target) (ft_allowlist f) (uc_AllowPlaintext (ft_cfg f)) = Inr ()"
      "c = ft_cache f \<or> c = fst (cache_get now (fq_CanonicalKey req) (ft_cache f))"
      "resolveURL w req (ResolveConfig w f (fq_TenantID req) (fq_Format req)) = Some target"
      "tc_Mode (ResolveConfig w f (fq_TenantID req) (fq_Format req)) \<noteq> ModeOff"
proof -
  let ?cfg = "ResolveConfig w f (fq_TenantID req) (fq_Format req)"
  obtain c r where look: "(if fq_Kind req = KindMetadata \<and> fq_CanonicalKey req \<noteq> []
      then cache_get now (fq_CanonicalKey req) (ft_cache f) else (ft_cache f, None)) = (c, r)"
    by (cases "if fq_Kind req = KindMetadata \<and> fq_CanonicalKey req \<noteq> []
      then cache_get now (fq_CanonicalKey req) (ft_cache f) else (ft_cache f, None)")
  obtain l ok where lim: "limiter_Allow now (fq_TenantID req) (ft_limiter f) = (l, ok)"
    by (cases "limiter_Allow now (fq_TenantID req) (ft_limiter f)")
  have c: "c = ft_cache f \<or> c = fst (cache_get now (fq_CanonicalKey req) (ft_cache f))"
    using look by (auto split: if_splits)
  consider "tc_Mode ?cfg = ModeOff"
    | "tc_Mode ?cfg \<noteq> ModeOff" "resolveURL w req ?cfg = None"
    | target e where "tc_Mode ?cfg \<noteq> ModeOff" "resolveURL w req ?cfg = Some target"
        "checkSchemeAndHost (Some target) (ft_allowlist f) (uc_AllowPlaintext (ft_cfg f)) = Inl e"
    | target where "tc_Mode ?cfg \<noteq> ModeOff" "resolveURL w req ?cfg = Some target"
        "checkSchemeAndHost (Some target) (ft_allowlist f) (uc_AllowPlaintext (ft_cfg f)) = Inr ()"
    by (metis (full_types) old.unit.exhaust option.exhaust sum.exhaust)
  then show thesis
  proof cases
    case 1
    then show thesis using assms by (intro refused) (auto simp: Fetch_def Let_def)
  next
    case 2
    then show thesis using assms by (intro refused) (auto simp: Fetch_def Let_def)
  next
    case (3 target e)
    then show thesis using assms by (intro refused) (auto simp: Fetch_def Let_def)
  next
    case (4 target)
    show thesis
    proof (cases r)
      case (Some e)
      then have "fq_Kind req = KindMetadata" "cache_get now (fq_CanonicalKey req) (ft_cache f) = (c, Some e)"
        using look by (auto split: if_splits)
      then show thesis using assms 4 look Some by (intro cached) (auto simp: Fetch_def Let_def)
    next
      case None
      show thesis
      proof (cases ok)
        case False
        then show thesis using assms 4 look None lim c by (intro limited) (auto simp: Fetch_def Let_def)
      next
        case True
        then have "doFetch w later req ?cfg target (f\<lparr>ft_cache := c, ft_limiter := l\<rparr>) = (sent, out)"
          using assms 4 look None lim by (simp add: Fetch_def Let_def)
        then show thesis using sent 4 lim True c by simp
      qed
    qed
  qed
qed

text \<open>
C25: No request leaves for a host outside the allowlist. Whatever the upstream URL of the tenant, the
  path the client asks for, the redirects of the servers and the answers of DNS, every request of
  a fetch is for an allowlisted host, over https (or http when plaintext is permitted), and there are at most five. The
  connection it goes over is dialled to that host, or to the proxy the environment names for the URL, at
  one of the addresses DNS gives for the host dialled, all of which the private-address guard lets through. (Behind a
  proxy the guard sees the address of the proxy, not that of the host.) \<open>Fetch\<close> always returns, and
  leaves a fetcher of which the same holds.
\<close>

theorem Fetch_stays_on_allowlist:
  assumes "fetcher_ok f" and "Fetch w now later req f = (sent, out)"
  shows "(\<forall>c \<in> set sent. Permits (NewAllowlist (uc_AllowedHostsExtra (ft_cfg f))) (hq_URL (cn_request c))
      \<and> (url_Scheme (hq_URL (cn_request c)) = ''https''
         \<or> uc_AllowPlaintext (ft_cfg f) \<and> url_Scheme (hq_URL (cn_request c)) = ''http'')
      \<and> cn_host c = (case w_proxy w (hq_URL (cn_request c)) of None \<Rightarrow> url_Hostname (hq_URL (cn_request c)) | Some p \<Rightarrow> p)
      \<and> (\<exists>ips. w_lookup_ip w (cn_host c) = Some ips \<and> cn_ip c \<in> set ips \<and> (\<forall>a \<in> set ips. AllowsIP (uc_AllowPrivateIPs (ft_cfg f)) a)))
    \<and> length sent \<le> 5 \<and> (\<exists>f' r. out = Some (f', r) \<and> fetcher_ok f')"
  using assms(2)
proof (cases rule: Fetch_cases)
  case (refused e)
  with assms(1) show ?thesis by simp
next
  case (cached c e)
  then have "cache_ok c" using cache_get_ok [OF fetcher_okD(5) [OF assms(1)], of now "fq_CanonicalKey req"] by simp
  with cached assms(1) show ?thesis by (simp add: fetcher_ok_update)
next
  case (limited c l)
  then have "cache_ok c" using cache_get_ok [OF fetcher_okD(5) [OF assms(1)]] fetcher_okD(5) [OF assms(1)] by auto
  with limited assms(1) show ?thesis by (simp add: fetcher_ok_update)
next
  case (sent c l target)
  let ?f = "f\<lparr>ft_cache := c, ft_limiter := l\<rparr>"
  have "cache_ok c" using sent(4) cache_get_ok [OF fetcher_okD(5) [OF assms(1)]] fetcher_okD(5) [OF assms(1)] by auto
  then have ok: "fetcher_ok ?f" using assms(1) by (simp add: fetcher_ok_update)
  have safe: "(\<forall>c \<in> set sent. safe_connection w (ft_client ?f) c) \<and> length sent \<le> 5"
    using doFetch_safe [OF ok _ sent(1)] sent(3) by simp
  obtain c' r where "out = Some (?f\<lparr>ft_cache := c'\<rparr>, r)" "cache_ok c'"
    using doFetch_total [OF ok sent(1)] by blast
  then have "\<exists>f' r. out = Some (f', r) \<and> fetcher_ok f'" using fetcher_ok_update(1) [OF ok] by blast
  then show ?thesis
    using safe fetcher_okD [OF ok] by (auto simp: safe_connection_def permitted_def)
qed

section \<open>Answers\<close>

lemma read_limited_EOF: "read_limited n cs EOF eager = (take n (concat cs), None)"
proof (induction cs arbitrary: n)
  case (Cons c cs)
  then show ?case by (cases "cs = []") auto
qed simp

lemma ReadAll_limit_EOF:
  "rd_end r = EOF \<Longrightarrow> ReadAll_limit n r = (take (nat n) (concat (rd_chunks r)), None)"
  by (simp add: ReadAll_limit_def read_limited_EOF)

definition cached_body :: "int \<Rightarrow> string \<Rightarrow> metadata_cache \<Rightarrow> string option" where
  "cached_body t key c = map_option ce_body (snd (cache_get t key c))"

lemma respond_body_metadata:
  assumes "cache_ok c" and "rd_end (hr_Body resp) = EOF" and "concat (rd_chunks (hr_Body resp)) = b"
    and "0 < mx" and "mx < 2 ^ 63 - 1" and "fq_Kind req = KindMetadata"
  shows "\<exists>c' r. respond_body w now mx req cfg target resp c = Some (c', r) \<and>
    (if hr_ContentLength resp > mx \<or> int (length b) > mx then c' = c \<and> r = Inl ErrUpstreamTooLarge
     else (\<exists>res. r = Inr res \<and> fr_Body res = Bytes b \<and> \<not> fr_NotModified res \<and> \<not> fr_FromCache res
            \<and> fr_ContentLength res = int (length b))
        \<and> (fq_CanonicalKey req \<noteq> [] \<and> 0 < tc_MetadataTTL cfg \<and> 0 < mc_maxBytes c \<and> int (length b) \<le> mc_maxBytes c
           \<longrightarrow> (\<forall>t. cached_body t (fq_CanonicalKey req) c' = (if t \<le> now + tc_MetadataTTL cfg then Some b else None))))"
proof (cases "hr_ContentLength resp > mx")
  case True
  with assms(4) show ?thesis by (simp add: respond_body_def Let_def)
next
  case False
  have "wrap64 (mx + 1) = mx + 1" using assms(4,5) by (simp add: int64_range_def)
  then have rd: "ReadAll_limit (wrap64 (mx + 1)) (hr_Body resp) = (take (nat (mx + 1)) b, None)"
    using assms(2,3) by (simp add: ReadAll_limit_EOF)
  show ?thesis
  proof (cases "int (length b) > mx")
    case True
    then have "int (length (take (nat (mx + 1)) b)) > mx" using assms(4) by simp
    with True False assms(6) show ?thesis by (simp add: respond_body_def Let_def rd)
  next
    case fits: False
    then have all: "take (nat (mx + 1)) b = b" by simp
    let ?lm = "if hr_LastModified resp = [] then None else w_http_time w (hr_LastModified resp)"
    show ?thesis
    proof (cases "fq_CanonicalKey req = []")
      case True
      with fits False assms(6) rd all show ?thesis by (simp add: respond_body_def Let_def)
    next
      case key: False
      obtain c' where put: "cache_put now (fq_CanonicalKey req) b (hr_ContentType resp) (hr_ETag resp) ?lm (tc_MetadataTTL cfg) c = Some c'"
        using cache_put_total [OF assms(1)] by blast
      have "\<forall>t. cached_body t (fq_CanonicalKey req) c' = (if t \<le> now + tc_MetadataTTL cfg then Some b else None)"
        if "0 < tc_MetadataTTL cfg" "0 < mc_maxBytes c" "int (length b) \<le> mc_maxBytes c"
        using cache_put_fits [OF assms(1) that(2,1), of now "fq_CanonicalKey req" b "hr_ContentType resp" "hr_ETag resp" ?lm] put that(3)
        by (simp add: cached_body_def)
      then show ?thesis
        using key fits False assms(6) rd all put by (simp add: respond_body_def Let_def)
    qed
  qed
qed

text \<open>
  What each answer becomes. A 404, 403 and 429 have errors of their own, any other status from 400 on
  is an upstream error, and none of them changes the fetcher. Every other status but 304 counts as
  success - also a redirect the client did not follow, whose body is then served as the resource
  and cached under its key. A body larger than the cap is refused and not cached.
\<close>

theorem doFetch_status:
  assumes "fetcher_ok f"
    and "client_do w (ft_client f) 0 \<lparr>hq_URL = target, hq_IfNoneMatch = fq_IfNoneMatch req,
           hq_IfModifiedSince = fq_IfModifiedSince req, hq_UserAgent = []\<rparr> = (sent, Inr resp)"
    and "concat (rd_chunks (hr_Body resp)) = b" and "rd_end (hr_Body resp) = EOF"
    and "uc_MaxBytesPerFetch (ft_cfg f) = mx" and "0 < mx" and "mx < 2 ^ 63 - 1" and "hr_StatusCode resp = st"
  shows "\<exists>f' r. doFetch w now req cfg target f = (sent, Some (f', r))
    \<and> (st \<ge> 400 \<longrightarrow> f' = f \<and> r = Inl (if st = 404 then ErrUpstreamNotFound else if st = 403 then ErrUpstreamForbidden
          else if st = 429 then ErrUpstreamRateLimit else ErrUpstreamUpstream))
    \<and> (st < 400 \<and> st \<noteq> 304 \<and> fq_Kind req = KindMetadata \<longrightarrow>
        (if hr_ContentLength resp > mx \<or> int (length b) > mx then f' = f \<and> r = Inl ErrUpstreamTooLarge
         else (\<exists>res. r = Inr res \<and> fr_Body res = Bytes b \<and> \<not> fr_NotModified res)
            \<and> (fq_CanonicalKey req \<noteq> [] \<and> 0 < tc_MetadataTTL cfg \<and> int (length b) \<le> mc_maxBytes (ft_cache f) \<and> 0 < mc_maxBytes (ft_cache f)
               \<longrightarrow> cached_body now (fq_CanonicalKey req) (ft_cache f') = Some b)))
    \<and> (st < 400 \<and> st \<noteq> 304 \<and> fq_Kind req = KindBlob \<and> hr_ContentLength resp \<le> mx \<longrightarrow>
        f' = f \<and> (\<exists>res. r = Inr res \<and> fr_Body res = Stream (newCappedReadCloser (hr_Body resp) mx)))"
proof -
  note ok = fetcher_okD(5) [OF assms(1)]
  have do: "doFetch w now req cfg target f = (sent, if st = 304 then
             (case respond_304 now req cfg target (ft_cache f) of (c, r) \<Rightarrow> Some (f\<lparr>ft_cache := c\<rparr>, Inr r))
           else if st = 404 then Some (f, Inl ErrUpstreamNotFound)
           else if st = 403 then Some (f, Inl ErrUpstreamForbidden)
           else if st = 429 then Some (f, Inl ErrUpstreamRateLimit)
           else if st \<ge> 400 then Some (f, Inl ErrUpstreamUpstream)
           else map_option (\<lambda>(c, r). (f\<lparr>ft_cache := c\<rparr>, r))
                  (respond_body w now mx req cfg target resp (ft_cache f)))"
    by (simp add: doFetch_def Let_def assms(2,5,8))
  consider "st \<ge> 400" | "st = 304" | "st < 400" "st \<noteq> 304" "fq_Kind req = KindMetadata"
    | "st < 400" "st \<noteq> 304" "fq_Kind req = KindBlob"
    by (cases "fq_Kind req") fastforce+
  then show ?thesis
  proof cases
    case 1
    then show ?thesis by (auto simp: do)
  next
    case 2
    obtain c r where "respond_304 now req cfg target (ft_cache f) = (c, r)" by fastforce
    with 2 show ?thesis by (simp add: do)
  next
    case 3
    obtain c' r where *: "respond_body w now mx req cfg target resp (ft_cache f) = Some (c', r)"
      "if hr_ContentLength resp > mx \<or> int (length b) > mx then c' = ft_cache f \<and> r = Inl ErrUpstreamTooLarge
       else (\<exists>res. r = Inr res \<and> fr_Body res = Bytes b \<and> \<not> fr_NotModified res \<and> \<not> fr_FromCache res
            \<and> fr_ContentLength res = int (length b))
        \<and> (fq_CanonicalKey req \<noteq> [] \<and> 0 < tc_MetadataTTL cfg \<and> 0 < mc_maxBytes (ft_cache f) \<and> int (length b) \<le> mc_maxBytes (ft_cache f)
           \<longrightarrow> (\<forall>t. cached_body t (fq_CanonicalKey req) c' = (if t \<le> now + tc_MetadataTTL cfg then Some b else None)))"
      using respond_body_metadata [OF ok assms(4,3,6,7) 3(3), of w now cfg target] by blast
    show ?thesis
      using 3 * by (auto simp: do split: if_splits)
  next
    case 4
    then show ?thesis by (simp add: do respond_body_def Let_def)
  qed
qed


section \<open>A concrete world\<close>

definition sample_url :: "string \<Rightarrow> url" where
  "sample_url s = \<lparr>url_Scheme = ''https'', url_Hostname = ''pypi.org'', url_String = s\<rparr>"

definition sample_response :: http_response where
  "sample_response = \<lparr>hr_StatusCode = 200, hr_ContentType = ''text/html'', hr_ContentLength = -1, hr_ETag = [],
     hr_LastModified = [], hr_Location = [], hr_Body = \<lparr>rd_chunks = [''index''], rd_end = EOF, rd_eager = False\<rparr>\<rparr>"

definition sample_world :: world where
  "sample_world = \<lparr>w_parse = (\<lambda>s. Some (sample_url s)), w_ref = (\<lambda>base ref. ref), w_http_time = (\<lambda>_. None),
     w_proxy = (\<lambda>_. None), w_lookup_ip = (\<lambda>_. Some [[151, 101, 0, 223]]),
     w_serve = (\<lambda>n q h a. Inr sample_response)\<rparr>"

definition sample_request :: fetch_request where
  "sample_request = \<lparr>fq_TenantID = 1, fq_Format = ''pypi'', fq_Kind = KindMetadata, fq_UpstreamPath = ''simple/requests/'',
     fq_CanonicalKey = ''pypi:1:requests:simple'', fq_IfNoneMatch = [], fq_IfModifiedSince = None\<rparr>"

definition sample_fetcher :: fetcher where
  "sample_fetcher = New DefaultConfig (\<lambda>_ _. None)"

lemma sample_dial: "AllowsIP False [151, 101, 0, 223]"
  unfolding AllowsIP_def
  by (simp add: private_v4 [of _ 151 101 0 223] is_bytes_def)

lemma sample_permits: "Permits (NewAllowlist extra) (sample_url s)"
proof -
  have "''pypi.org'' \<in> set DefaultHosts" by (simp add: DefaultHosts_def defaultUpstreams_def)
  moreover have "trim_space ''pypi.org'' = ''pypi.org''" by code_simp
  ultimately show ?thesis unfolding Permits_iff sample_url_def by (intro conjI bexI [of _ "''pypi.org''"]) simp_all
qed

lemma sample_client:
  "client_do sample_world (ft_client sample_fetcher) 0 \<lparr>hq_URL = sample_url s, hq_IfNoneMatch = [],
     hq_IfModifiedSince = None, hq_UserAgent = []\<rparr> =
   ([\<lparr>cn_request = \<lparr>hq_URL = sample_url s, hq_IfNoneMatch = [], hq_IfModifiedSince = None,
        hq_UserAgent = uc_UserAgent DefaultConfig\<rparr>, cn_host = ''pypi.org'', cn_ip = [151, 101, 0, 223]\<rparr>], Inr sample_response)"
  by (subst client_do.simps)
    (simp add: RoundTrip_def Let_def sample_world_def sample_fetcher_def New_def DefaultConfig_def DialContext_def
      sample_dial sample_url_def sample_response_def)


lemma sample_ok [simp]: "fetcher_ok sample_fetcher"
  by (simp add: sample_fetcher_def fetcher_ok_New)

lemma sample_fields [simp]:
  "uc_MaxBytesPerFetch (ft_cfg sample_fetcher) = 104857600" "uc_AllowedHostsExtra (ft_cfg sample_fetcher) = []"
  "uc_AllowPrivateIPs (ft_cfg sample_fetcher) = False" "uc_AllowPlaintext (ft_cfg sample_fetcher) = False"
  "ft_allowlist sample_fetcher = NewAllowlist []"
  "hr_StatusCode sample_response = 200" "hr_ContentLength sample_response = -1" "rd_end (hr_Body sample_response) = EOF"
  "concat (rd_chunks (hr_Body sample_response)) = ''index''" "fq_Kind sample_request = KindMetadata"
  "fq_IfNoneMatch sample_request = []" "fq_IfModifiedSince sample_request = None"
  by (simp_all add: sample_response_def sample_fetcher_def New_def Let_def DefaultConfig_def sample_request_def)

theorem doFetch_status_witness:
  "\<exists>f' res. doFetch sample_world 5 sample_request (ResolveConfig sample_world sample_fetcher 1 ''pypi'')
     (sample_url ''u'') sample_fetcher =
     (fst (client_do sample_world (ft_client sample_fetcher) 0 \<lparr>hq_URL = sample_url ''u'', hq_IfNoneMatch = [],
         hq_IfModifiedSince = None, hq_UserAgent = []\<rparr>), Some (f', Inr res)) \<and> fr_Body res = Bytes ''index''"
proof -
  have "client_do sample_world (ft_client sample_fetcher) 0
      \<lparr>hq_URL = sample_url ''u'', hq_IfNoneMatch = fq_IfNoneMatch sample_request,
       hq_IfModifiedSince = fq_IfModifiedSince sample_request, hq_UserAgent = []\<rparr> =
      (fst (client_do sample_world (ft_client sample_fetcher) 0 \<lparr>hq_URL = sample_url ''u'', hq_IfNoneMatch = [],
         hq_IfModifiedSince = None, hq_UserAgent = []\<rparr>), Inr sample_response)"
    by (simp add: sample_client)
  from doFetch_status [OF sample_ok this refl, of 104857600 200 5 "ResolveConfig sample_world sample_fetcher 1 ''pypi''"]
  show ?thesis by auto
qed

theorem Fetch_stays_on_allowlist_witness:
  "list_all (\<lambda>c. AllowsIP False (cn_ip c) \<and> cn_host c = url_Hostname (hq_URL (cn_request c)))
      (fst (Fetch sample_world 0 0 sample_request sample_fetcher))
    \<and> snd (Fetch sample_world 0 0 sample_request sample_fetcher) \<noteq> None"
proof -
  obtain sent out where *: "Fetch sample_world 0 0 sample_request sample_fetcher = (sent, out)"
    by (cases "Fetch sample_world 0 0 sample_request sample_fetcher")
  have "w_proxy sample_world u = None" for u by (simp add: sample_world_def)
  with Fetch_stays_on_allowlist [OF sample_ok *] show ?thesis unfolding * by (auto simp: list_all_iff)
qed

section \<open>Cached metadata\<close>

lemma respond_body_cached:
  assumes "respond_body w now mx req cfg target resp c = Some (c', Inr res)" and "cache_ok c"
    and "fq_Kind req = KindMetadata" and "fq_CanonicalKey req \<noteq> []" and "fr_Body res = Bytes b"
    and "0 < tc_MetadataTTL cfg" and "int (length b) \<le> mc_maxBytes c" and "0 < mc_maxBytes c"
    and "t \<le> now + tc_MetadataTTL cfg"
  shows "cached_body t (fq_CanonicalKey req) c' = Some b"
proof -
  let ?lm = "if hr_LastModified resp = [] then None else w_http_time w (hr_LastModified resp)"
  obtain er where "ReadAll_limit (wrap64 (mx + 1)) (hr_Body resp) = (b, er)"
    and put: "cache_put now (fq_CanonicalKey req) b (hr_ContentType resp) (hr_ETag resp) ?lm (tc_MetadataTTL cfg) c = Some c'"
    using assms(1,3,4,5) by (auto simp: respond_body_def Let_def split: if_splits prod.splits option.splits)
  from cache_put_fits [OF assms(2,8,6), of now "fq_CanonicalKey req" b "hr_ContentType resp" "hr_ETag resp" ?lm]
  show ?thesis using put assms(7,9) by (simp add: cached_body_def)
qed

lemma cache_get_max [simp]: "mc_maxBytes (fst (cache_get t k c)) = mc_maxBytes c"
  by (auto simp: cache_get_def touchLocked_def split: option.split)

lemma respond_304_kinds:
  "respond_304 now req cfg target c = (c', r) \<Longrightarrow> fr_FromCache r \<or> fr_NotModified r"
  by (auto simp: respond_304_def Let_def resultFromCache_def split: if_splits prod.splits bool.splits option.splits)

text \<open>
  Metadata is cached: after a fetch that brought a metadata resource in from upstream, a fetch with
  the same key before the time to live is over gets the same body from the cache, without a
  connection and without using up the tenant's rate limit.
\<close>

theorem Fetch_cached:
  assumes "fetcher_ok f" and "Fetch w now later req f = (sent, Some (f1, Inr res))"
    and "fq_Kind req = KindMetadata" and "fq_CanonicalKey req \<noteq> []"
    and "fr_Body res = Bytes b" and "\<not> fr_FromCache res" and "\<not> fr_NotModified res"
    and "0 < tc_MetadataTTL (ResolveConfig w f (fq_TenantID req) (fq_Format req))"
    and "int (length b) \<le> mc_maxBytes (ft_cache f)" and "0 < mc_maxBytes (ft_cache f)"
    and "t \<le> later + tc_MetadataTTL (ResolveConfig w f (fq_TenantID req) (fq_Format req))"
  shows "\<exists>f2 res2. Fetch w t t' req f1 = ([], Some (f2, Inr res2)) \<and> fr_Body res2 = Bytes b \<and> fr_FromCache res2
    \<and> ft_limiter f2 = ft_limiter f1"
  using assms(2)
proof (cases rule: Fetch_cases)
  case (refused e)
  then show ?thesis by simp
next
  case (cached c e)
  then show ?thesis using assms(6) by (simp add: resultFromCache_def)
next
  case (limited c l)
  then show ?thesis by simp
next
  case (sent c l target)
  let ?cfg = "ResolveConfig w f (fq_TenantID req) (fq_Format req)"
  let ?f = "f\<lparr>ft_cache := c, ft_limiter := l\<rparr>"
  have c: "cache_ok c" "mc_maxBytes c = mc_maxBytes (ft_cache f)"
    using sent(4) cache_get_ok [OF fetcher_okD(5) [OF assms(1)]] fetcher_okD(5) [OF assms(1)] by auto
  obtain resp c' where body: "respond_body w later (uc_MaxBytesPerFetch (ft_cfg f)) req ?cfg target resp c = Some (c', Inr res)"
    and f1: "f1 = ?f\<lparr>ft_cache := c'\<rparr>"
    using sent(1) assms(6,7)
    by (auto simp: doFetch_def Let_def split: prod.splits sum.splits if_splits dest: respond_304_kinds)
  have "cached_body t (fq_CanonicalKey req) c' = Some b"
    using respond_body_cached [OF body c(1) assms(3,4,5,8)] c(2) assms(9,10,11) by simp
  then obtain c2 e where get: "cache_get t (fq_CanonicalKey req) c' = (c2, Some e)" and e: "ce_body e = b"
    by (cases "cache_get t (fq_CanonicalKey req) c'") (auto simp: cached_body_def)
  have "ResolveConfig w f1 (fq_TenantID req) (fq_Format req) = ?cfg" by (simp add: f1 ResolveConfig_def)
  then have "Fetch w t t' req f1 = ([], Some (f1\<lparr>ft_cache := c2\<rparr>, Inr (resultFromCache e)))"
    using sent(3,5,6) get assms(3,4) by (simp add: Fetch_def Let_def f1)
  then show ?thesis by (simp add: e resultFromCache_def f1)
qed


lemma sample_config:
  "tc_Mode (ResolveConfig sample_world sample_fetcher 1 ''pypi'') \<noteq> ModeOff"
  "tc_MetadataTTL (ResolveConfig sample_world sample_fetcher 1 ''pypi'') = 300000000000"
  "resolveURL sample_world sample_request (ResolveConfig sample_world sample_fetcher 1 ''pypi'') =
     Some (sample_url ''simple/requests/'')"
proof -
  have "to_lower ''pypi'' = ''pypi''" by code_simp
  then have "LookupDefault ''pypi'' = Some \<lparr>du_URL = ''https://pypi.org'',
      du_Hosts = [''pypi.org'', ''files.pythonhosted.org''], du_PullThroughSupported = True\<rparr>"
    by (simp add: LookupDefault_def defaultUpstreams_def)
  then have "ResolveConfig sample_world sample_fetcher 1 ''pypi'' = \<lparr>tc_Mode = ModeCacheAndServe,
      tc_UpstreamBaseURL = Some (sample_url ''https://pypi.org''), tc_MetadataTTL = 300000000000\<rparr>"
    by (simp add: ResolveConfig_def resolveConfig_def Let_def sample_world_def sample_fetcher_def New_def
        DefaultConfig_def second_def)
  then show "tc_Mode (ResolveConfig sample_world sample_fetcher 1 ''pypi'') \<noteq> ModeOff"
    "tc_MetadataTTL (ResolveConfig sample_world sample_fetcher 1 ''pypi'') = 300000000000"
    "resolveURL sample_world sample_request (ResolveConfig sample_world sample_fetcher 1 ''pypi'') =
     Some (sample_url ''simple/requests/'')"
    by (simp_all add: ModeCacheAndServe_def ModeOff_def resolveURL_def sample_request_def sample_world_def)
qed

lemma sample_allowed: "\<exists>l. limiter_Allow 0 t (ft_limiter sample_fetcher) = (l, True)"
  by (simp add: limiter_Allow_def Let_def sample_fetcher_def New_def DefaultConfig_def newRateLimiter_def)

lemma sample_cache:
  "mc_maxBytes (ft_cache sample_fetcher) = 67108864" "cache_get t k (ft_cache sample_fetcher) = (ft_cache sample_fetcher, None)"
  by (simp_all add: sample_fetcher_def New_def Let_def DefaultConfig_def newMetadataCache_def cache_get_def)

lemma sample_first_fetch:
  "\<exists>sent f1 res. Fetch sample_world 0 1 sample_request sample_fetcher = (sent, Some (f1, Inr res))
     \<and> fr_Body res = Bytes ''index'' \<and> \<not> fr_FromCache res \<and> \<not> fr_NotModified res"
proof -
  obtain l where lim: "limiter_Allow 0 1 (ft_limiter sample_fetcher) = (l, True)"
    using sample_allowed by blast
  let ?f = "sample_fetcher\<lparr>ft_limiter := l\<rparr>"
  let ?cfg = "ResolveConfig sample_world sample_fetcher 1 ''pypi''"
  have q: "fq_TenantID sample_request = 1" "fq_Format sample_request = ''pypi''"
    "fq_CanonicalKey sample_request \<noteq> []" by (simp_all add: sample_request_def)
  have gate: "checkSchemeAndHost (Some (sample_url s)) (NewAllowlist []) False = Inr ()" for s
    by (simp add: checkSchemeAndHost_def Let_def sample_permits) (simp add: sample_url_def to_lower_def lower_char_def)
  have "Fetch sample_world 0 1 sample_request sample_fetcher =
      doFetch sample_world 1 sample_request ?cfg (sample_url ''simple/requests/'') ?f"
    by (simp add: Fetch_def Let_def q sample_config sample_cache gate lim)
  moreover obtain c' r where "respond_body sample_world 1 104857600 sample_request ?cfg
      (sample_url ''simple/requests/'') sample_response (ft_cache sample_fetcher) = Some (c', Inr r)"
      "fr_Body r = Bytes ''index''" "\<not> fr_NotModified r" "\<not> fr_FromCache r"
    using respond_body_metadata [OF fetcher_okD(5) [OF sample_ok], of sample_response _ 104857600 sample_request
        sample_world 1 ?cfg "sample_url ''simple/requests/''", OF _ refl] by auto
  ultimately show ?thesis by (simp add: doFetch_def Let_def sample_client)
qed

theorem Fetch_cached_witness:
  "\<exists>f1 f2 res2. Fetch sample_world 2 3 sample_request f1 = ([], Some (f2, Inr res2)) \<and> fr_Body res2 = Bytes ''index''"
proof -
  obtain sent f1 res where *: "Fetch sample_world 0 1 sample_request sample_fetcher = (sent, Some (f1, Inr res))"
    "fr_Body res = Bytes ''index''" "\<not> fr_FromCache res" "\<not> fr_NotModified res"
    using sample_first_fetch by blast
  have "fq_CanonicalKey sample_request \<noteq> []" "fq_TenantID sample_request = 1" "fq_Format sample_request = ''pypi''"
    by (simp_all add: sample_request_def)
  with Fetch_cached [OF sample_ok *(1) _ _ *(2,3,4), of 2 3] show ?thesis
    by (auto simp: sample_config sample_cache)
qed

end
