(* ===== verification/Rule_Store.thy ===== *)
theory Rule_Store
  imports Policy_Engine Accounts "HOL-Library.Product_Lexorder"
begin

text \<open>
  The policy rules in the database (\<open>internal/policy/rule_store.go\<close>), the YAML rule file
  (\<open>yaml.go\<close>) and the reload of the engine from the store (\<open>ChainEngine.PullFromStore\<close>).

  Reading the file, decoding YAML, encoding a rule's configuration as JSON and \<open>time.Parse\<close> are
  parameters. The schema does not make rule names unique; \<open>Upsert\<close> keeps them so.
\<close>

section \<open>The store\<close>

definition scanRule :: "rule_row \<Rightarrow> rule" where
  "scanRule row =
     \<lparr>rule_ID = rr_id row, rule_Name = rr_name row, rule_Kind = rr_kind row,
      rule_TenantID = (case rr_tenant_id row of Some i \<Rightarrow> i | None \<Rightarrow> 0),
      rule_Format = (case rr_format row of Some s \<Rightarrow> s | None \<Rightarrow> []),
      rule_Package = (case rr_package_lower_name row of Some s \<Rightarrow> s | None \<Rightarrow> []),
      rule_VersionPattern = (case rr_version_pattern row of Some s \<Rightarrow> s | None \<Rightarrow> []),
      rule_Action = rr_action row, rule_Config = rr_config_json row, rule_Priority = rr_priority row,
      rule_Enabled = (rr_enabled row \<noteq> 0), rule_CreatedUnix = rr_created_unix row,
      rule_CreatedByUserID = (case rr_created_by_user_id row of Some i \<Rightarrow> i | None \<Rightarrow> 0),
      rule_ExpiresUnix = rr_expires_unix row\<rparr>"

definition ListEnabled :: "db \<Rightarrow> rule list" where
  "ListEnabled d = map scanRule (select_all (\<lambda>r. rr_enabled r = 1) (db_rules d))"

definition ListAll :: "db \<Rightarrow> rule list" where
  "ListAll d = map scanRule (sort_key (\<lambda>r. (rr_priority r, rr_name r)) (rows (db_rules d)))"

definition rules_GetByID :: "db \<Rightarrow> int \<Rightarrow> (go_error, rule) result" where
  "rules_GetByID d i =
     (case select_one (\<lambda>r. rr_id r = i) (db_rules d) of None \<Rightarrow> Inl ErrRuleNotExist | Some r \<Rightarrow> Inr (scanRule r))"

definition rules_GetByName :: "db \<Rightarrow> string \<Rightarrow> (go_error, rule) result" where
  "rules_GetByName d name =
     (case select_one (\<lambda>r. rr_name r = name) (db_rules d) of None \<Rightarrow> Inl ErrRuleNotExist | Some r \<Rightarrow> Inr (scanRule r))"

definition rule_nullString :: "string \<Rightarrow> string option" where
  "rule_nullString s = (if s = [] then None else Some (trim_space s))"

definition nullInt :: "int \<Rightarrow> int option" where
  "nullInt n = (if n = 0 then None else Some n)"

definition mk_rule_row :: "rule \<Rightarrow> int \<Rightarrow> rule_row" where
  "mk_rule_row r i =
     \<lparr>rr_id = i, rr_name = rule_Name r, rr_kind = rule_Kind r, rr_tenant_id = nullInt (rule_TenantID r),
      rr_format = rule_nullString (rule_Format r), rr_package_lower_name = rule_nullString (rule_Package r),
      rr_version_pattern = rule_nullString (rule_VersionPattern r), rr_action = rule_Action r,
      rr_config_json = rule_Config r, rr_priority = rule_Priority r, rr_enabled = (if rule_Enabled r then 1 else 0),
      rr_created_unix = rule_CreatedUnix r, rr_created_by_user_id = nullInt (rule_CreatedByUserID r),
      rr_expires_unix = rule_ExpiresUnix r\<rparr>"

text \<open>The \<open>UPDATE\<close> keeps the row's id, name, creation time and creator.\<close>

definition update_rule_row :: "rule \<Rightarrow> rule_row \<Rightarrow> rule_row" where
  "update_rule_row r row =
     row\<lparr>rr_kind := rule_Kind r, rr_tenant_id := nullInt (rule_TenantID r),
         rr_format := rule_nullString (rule_Format r), rr_package_lower_name := rule_nullString (rule_Package r),
         rr_version_pattern := rule_nullString (rule_VersionPattern r), rr_action := rule_Action r,
         rr_config_json := rule_Config r, rr_priority := rule_Priority r,
         rr_enabled := (if rule_Enabled r then 1 else 0), rr_expires_unix := rule_ExpiresUnix r\<rparr>"

definition upsert_defaults :: "int \<Rightarrow> rule \<Rightarrow> rule" where
  "upsert_defaults now r =
     (let r1 = (if rule_Config r = EmptyConfig then r\<lparr>rule_Config := ConfigJSON (JObject [])\<rparr> else r);
          r2 = (if rule_CreatedUnix r1 = 0 then r1\<lparr>rule_CreatedUnix := now\<rparr> else r1)
      in if rule_Priority r2 = 0 then r2\<lparr>rule_Priority := 100\<rparr> else r2)"

definition opt_exists :: "(int \<Rightarrow> bool) \<Rightarrow> int option \<Rightarrow> bool" where
  "opt_exists P i = (case i of None \<Rightarrow> True | Some i \<Rightarrow> P i)"

definition Upsert :: "int \<Rightarrow> rule \<Rightarrow> db \<Rightarrow> db \<times> (go_error, int) result" where
  "Upsert now r d =
     (if rule_Name r = [] \<or> rule_Kind r = [] \<or> rule_Action r = []
      then (d, Inl (ErrText ''rule.Upsert: name, kind, and action are required''))
      else
        (let r' = upsert_defaults now r in
         case rules_GetByName d (rule_Name r') of
           Inl _ \<Rightarrow>
             (if opt_exists (tenant_exists d) (nullInt (rule_TenantID r'))
                 \<and> opt_exists (user_exists d) (nullInt (rule_CreatedByUserID r'))
              then (case insert_row (mk_rule_row r') (db_rules d) of (row, t) \<Rightarrow> (d\<lparr>db_rules := t\<rparr>, Inr (rr_id row)))
              else (d, Inl ErrForeignKey))
         | Inr existing \<Rightarrow>
             (if opt_exists (tenant_exists d) (nullInt (rule_TenantID r'))
              then (d\<lparr>db_rules := update_where (\<lambda>row. rr_id row = rule_ID existing) (update_rule_row r') (db_rules d)\<rparr>,
                    Inr (rule_ID existing))
              else (d, Inl ErrForeignKey))))"

definition SetEnabled :: "int \<Rightarrow> bool \<Rightarrow> db \<Rightarrow> db" where
  "SetEnabled i enabled d =
     d\<lparr>db_rules := update_where (\<lambda>r. rr_id r = i) (\<lambda>r. r\<lparr>rr_enabled := (if enabled then 1 else 0)\<rparr>) (db_rules d)\<rparr>"

text \<open>The references of versions and audit rows to the rule become \<open>NULL\<close>.\<close>

definition rules_Delete :: "int \<Rightarrow> db \<Rightarrow> db" where
  "rules_Delete i d =
     (if rule_exists d i then
        d\<lparr>db_rules := delete_where (\<lambda>r. rr_id r = i) (db_rules d),
          db_versions := update_where (\<lambda>v. ver_QuarantinedByRuleID v = Some i)
            (\<lambda>v. v\<lparr>ver_QuarantinedByRuleID := None\<rparr>) (db_versions d),
          db_audit := update_where (\<lambda>a. al_rule_id a = Some i) (\<lambda>a. a\<lparr>al_rule_id := None\<rparr>) (db_audit d)\<rparr>
      else d)"

definition PullFromStore :: "(rule list \<Rightarrow> rule list) \<Rightarrow> db \<Rightarrow> chain_engine \<Rightarrow> chain_engine" where
  "PullFromStore srt d e = Refresh srt (ListEnabled d) e"

section \<open>The rule file\<close>

record yaml_rule =
  yr_Name :: string
  yr_Kind :: string
  yr_Enabled :: "bool option"
  yr_Tenant :: string
  yr_Format :: string
  yr_Package :: string
  yr_VersionPattern :: string
  yr_Action :: string
  yr_Config :: "(string \<times> json) list"
  yr_Priority :: int
  yr_ExpiresAt :: string

datatype rule_error =
    MissingName | MissingKind | MissingAction | NoResolver string | UnresolvedTenant string go_error
  | BadExpiry | BadConfig

datatype yaml_error =
    ReadError string | ParseError string | RuleError nat string rule_error | UpsertError string go_error

record yaml_codec =
  yc_ReadFile :: "string \<Rightarrow> string option"
  yc_Unmarshal :: "string \<Rightarrow> yaml_rule list option"
  yc_marshal_config :: "(string \<times> json) list \<Rightarrow> config_json option"
  yc_parse_time :: "string \<Rightarrow> int option"

definition toRule :: "yaml_codec \<Rightarrow> int \<Rightarrow> (string \<Rightarrow> (go_error, int) result) option \<Rightarrow> yaml_rule \<Rightarrow> (rule_error, rule) result" where
  "toRule yc now resolver y =
     (if yr_Name y = [] then Inl MissingName
      else if yr_Kind y = [] then Inl MissingKind
      else if yr_Action y = [] then Inl MissingAction
      else
        bind_result
          (if yr_Tenant y = [] then Inr 0
           else (case resolver of
               None \<Rightarrow> Inl (NoResolver (yr_Tenant y))
             | Some f \<Rightarrow> (case f (yr_Tenant y) of Inl e \<Rightarrow> Inl (UnresolvedTenant (yr_Tenant y) e) | Inr i \<Rightarrow> Inr i)))
        (\<lambda>tenantID. bind_result
          (if yr_ExpiresAt y = [] then Inr 0
           else (case yc_parse_time yc (yr_ExpiresAt y) of None \<Rightarrow> Inl BadExpiry | Some t \<Rightarrow> Inr t))
        (\<lambda>expires. bind_result
          (if yr_Config y = [] then Inr (ConfigJSON (JObject []))
           else (case yc_marshal_config yc (yr_Config y) of None \<Rightarrow> Inl BadConfig | Some c \<Rightarrow> Inr c))
        (\<lambda>configJSON. Inr
          \<lparr>rule_ID = 0, rule_Name = yr_Name y, rule_Kind = yr_Kind y, rule_TenantID = tenantID,
           rule_Format = to_lower (trim_space (yr_Format y)), rule_Package = to_lower (trim_space (yr_Package y)),
           rule_VersionPattern = trim_space (yr_VersionPattern y), rule_Action = yr_Action y,
           rule_Config = configJSON, rule_Priority = yr_Priority y,
           rule_Enabled = (case yr_Enabled y of None \<Rightarrow> True | Some b \<Rightarrow> b),
           rule_CreatedUnix = now, rule_CreatedByUserID = 0, rule_ExpiresUnix = expires\<rparr>))))"

fun toRules :: "yaml_codec \<Rightarrow> int \<Rightarrow> (string \<Rightarrow> (go_error, int) result) option \<Rightarrow> nat \<Rightarrow> yaml_rule list \<Rightarrow> (yaml_error, rule list) result" where
  "toRules yc now resolver i [] = Inr []"
| "toRules yc now resolver i (y # ys) =
     (case toRule yc now resolver y of
        Inl e \<Rightarrow> Inl (RuleError (Suc i) (yr_Name y) e)
      | Inr r \<Rightarrow> bind_result (toRules yc now resolver (Suc i) ys) (\<lambda>rs. Inr (r # rs)))"

definition LoadYAMLFile :: "yaml_codec \<Rightarrow> int \<Rightarrow> string \<Rightarrow> (string \<Rightarrow> (go_error, int) result) option \<Rightarrow> (yaml_error, rule list) result" where
  "LoadYAMLFile yc now path resolver =
     (if path = [] then Inr []
      else (case yc_ReadFile yc path of
          None \<Rightarrow> Inl (ReadError path)
        | Some b \<Rightarrow>
            (case yc_Unmarshal yc b of
               None \<Rightarrow> Inl (ParseError path)
             | Some ys \<Rightarrow> toRules yc now resolver 0 ys)))"

fun upsert_all :: "int \<Rightarrow> nat \<Rightarrow> rule list \<Rightarrow> db \<Rightarrow> db \<times> nat \<times> yaml_error option" where
  "upsert_all now n [] d = (d, n, None)"
| "upsert_all now n (r # rs) d =
     (case Upsert now r d of
        (d', Inl e) \<Rightarrow> (d', n, Some (UpsertError (rule_Name r) e))
      | (d', Inr _) \<Rightarrow> upsert_all now (Suc n) rs d')"

definition SyncYAMLFile :: "yaml_codec \<Rightarrow> int \<Rightarrow> string \<Rightarrow> (string \<Rightarrow> (go_error, int) result) option \<Rightarrow> db
    \<Rightarrow> db \<times> nat \<times> yaml_error option" where
  "SyncYAMLFile yc now path resolver d =
     (case LoadYAMLFile yc now path resolver of
        Inl e \<Rightarrow> (d, 0, Some e)
      | Inr rules \<Rightarrow> upsert_all now 0 rules d)"

end
