(* ===== verification/Rule_Laws.thy ===== *)
theory Rule_Laws
  imports Rule_Store
begin

text \<open>
  What the rule store promises: saving and reading a rule, synchronising with the rule file, and
  what a change of the rules does to the engine.
\<close>

section \<open>The store keeps names unique\<close>

interpretation rule_rows: keyed_rows rr_id rr_name mk_rule_row
  by unfold_locales (simp_all add: mk_rule_row_def)

definition rules_ok :: "db \<Rightarrow> bool" where
  "rules_ok d \<longleftrightarrow> table_ok rr_id rr_name (db_rules d)"

lemma rules_ok_fresh [simp]: "rules_ok (fresh_db now)"
  by (simp add: rules_ok_def fresh_db_def)

lemma option_eqI: "(\<And>x. a = Some x \<longleftrightarrow> b = Some x) \<Longrightarrow> a = b"
  by (cases a; cases b) auto

lemma insert_row_unique:
  "key (mk a (seq t + 1)) \<notin> key ` set (rows t) \<Longrightarrow> insert_unique key (mk a) t = Some (insert_row (mk a) t)"
  by (simp add: insert_unique_def insert_row_def Let_def)

lemma upsert_defaults_fields [simp]:
  "rule_Name (upsert_defaults now r) = rule_Name r" "rule_Kind (upsert_defaults now r) = rule_Kind r"
  "rule_TenantID (upsert_defaults now r) = rule_TenantID r" "rule_Action (upsert_defaults now r) = rule_Action r"
  "rule_CreatedByUserID (upsert_defaults now r) = rule_CreatedByUserID r"
  "rule_Enabled (upsert_defaults now r) = rule_Enabled r" "rule_Format (upsert_defaults now r) = rule_Format r"
  "rule_Package (upsert_defaults now r) = rule_Package r"
  "rule_VersionPattern (upsert_defaults now r) = rule_VersionPattern r"
  "rule_ExpiresUnix (upsert_defaults now r) = rule_ExpiresUnix r"
  "rule_Config (upsert_defaults now r) = (if rule_Config r = EmptyConfig then ConfigJSON (JObject []) else rule_Config r)"
  "rule_Priority (upsert_defaults now r) = (if rule_Priority r = 0 then 100 else rule_Priority r)"
  "rule_CreatedUnix (upsert_defaults now r) = (if rule_CreatedUnix r = 0 then now else rule_CreatedUnix r)"
  by (simp_all add: upsert_defaults_def Let_def)

lemma update_rule_row_fields [simp]:
  "rr_id (update_rule_row r row) = rr_id row" "rr_name (update_rule_row r row) = rr_name row"
  "rr_kind (update_rule_row r row) = rule_Kind r"
  "rr_enabled (update_rule_row r row) = (if rule_Enabled r then 1 else 0)"
  "update_rule_row r (update_rule_row q row) = update_rule_row r row"
  by (simp_all add: update_rule_row_def)

lemma mk_rule_row_fields [simp]:
  "rr_id (mk_rule_row r i) = i" "rr_name (mk_rule_row r i) = rule_Name r" "rr_kind (mk_rule_row r i) = rule_Kind r"
  "rr_enabled (mk_rule_row r i) = (if rule_Enabled r then 1 else 0)"
  "update_rule_row r (mk_rule_row r i) = mk_rule_row r i"
  by (simp_all add: update_rule_row_def mk_rule_row_def)

text \<open>What a successful \<open>Upsert\<close> does to the table: an update of the row of that name, or a new row.\<close>

definition upserted :: "rule \<Rightarrow> rule_row sql_table \<Rightarrow> rule_row sql_table" where
  "upserted r t =
     (if \<exists>row \<in> set (rows t). rr_name row = rule_Name r
      then update_where (\<lambda>row. rr_name row = rule_Name r) (update_rule_row r) t
      else snd (insert_row (mk_rule_row r) t))"

lemma Upsert_success:
  assumes "rules_ok d" and "Upsert now r d = (d', Inr i)"
  shows "d' = d\<lparr>db_rules := upserted (upsert_defaults now r) (db_rules d)\<rparr>"
    and "\<exists>row \<in> set (rows (db_rules d')). rr_id row = i \<and> rr_name row = rule_Name r"
proof -
  let ?r = "upsert_defaults now r"
  have t: "table_ok rr_id rr_name (db_rules d)" using assms(1) by (simp add: rules_ok_def)
  have "d' = d\<lparr>db_rules := upserted ?r (db_rules d)\<rparr> \<and>
      (\<exists>row \<in> set (rows (db_rules d')). rr_id row = i \<and> rr_name row = rule_Name r)"
  proof (cases "select_one (\<lambda>row. rr_name row = rule_Name r) (db_rules d)")
    case None
    then have "\<not> (\<exists>row \<in> set (rows (db_rules d)). rr_name row = rule_Name r)" by (simp add: select_one_None)
    with None assms(2) show ?thesis
      by (auto simp: Upsert_def Let_def rules_GetByName_def upserted_def insert_row_def split: if_splits)
  next
    case (Some row)
    then have row: "row \<in> set (rows (db_rules d))" "rr_name row = rule_Name r" by (auto dest: select_oneD)
    have "rr_id q = rr_id row \<longleftrightarrow> rr_name q = rule_Name r" if "q \<in> set (rows (db_rules d))" for q
      using table_ok_rid_unique [OF t that row(1)] table_ok_key_unique [OF t that row(1)] row(2) by auto
    then have "update_where (\<lambda>q. rr_id q = rr_id row) (update_rule_row ?r) (db_rules d) =
        update_where (\<lambda>q. rr_name q = rule_Name r) (update_rule_row ?r) (db_rules d)"
      by (auto simp: update_where_def)
    moreover have "d' = d\<lparr>db_rules := update_where (\<lambda>q. rr_id q = rr_id row) (update_rule_row ?r) (db_rules d)\<rparr>" "i = rr_id row"
      using assms(2) Some by (auto simp: Upsert_def Let_def rules_GetByName_def scanRule_def split: if_splits)
    ultimately show ?thesis
      using row by (auto simp: upserted_def intro!: bexI [of _ "update_rule_row ?r row"])
  qed
  then show "d' = d\<lparr>db_rules := upserted ?r (db_rules d)\<rparr>"
    "\<exists>row \<in> set (rows (db_rules d')). rr_id row = i \<and> rr_name row = rule_Name r" by blast+
qed

lemma Upsert_failure: "Upsert now r d = (d', Inl e) \<Longrightarrow> d' = d"
  by (auto simp: Upsert_def Let_def insert_row_def split: if_splits sum.splits)

lemma upserted_ok:
  assumes "table_ok rr_id rr_name t"
  shows "table_ok rr_id rr_name (upserted r t)"
proof (cases "\<exists>row \<in> set (rows t). rr_name row = rule_Name r")
  case True
  with assms show ?thesis by (simp add: upserted_def table_ok_update)
next
  case False
  then have "insert_unique rr_name (mk_rule_row r) t = Some (insert_row (mk_rule_row r) t)"
    by (intro insert_row_unique) auto
  with False assms show ?thesis
    using rule_rows.insert_ok [OF assms] by (cases "insert_row (mk_rule_row r) t") (auto simp: upserted_def)
qed

lemma Upsert_ok: "rules_ok d \<Longrightarrow> rules_ok (fst (Upsert now r d))"
proof -
  assume ok: "rules_ok d"
  obtain d' x where up: "Upsert now r d = (d', x)" by (cases "Upsert now r d")
  show ?thesis
  proof (cases x)
    case (Inl e)
    with up ok Upsert_failure [of now r d d' e] show ?thesis by simp
  next
    case (Inr i)
    with up have "Upsert now r d = (d', Inr i)" by simp
    from Upsert_success(1) [OF ok this] ok up show ?thesis by (simp add: rules_ok_def upserted_ok)
  qed
qed

lemma upserted_lookup:
  assumes "table_ok rr_id rr_name t"
  shows "select_one (\<lambda>q. rr_name q = rule_Name r) (upserted r t) =
    Some (case select_one (\<lambda>q. rr_name q = rule_Name r) t of
       None \<Rightarrow> mk_rule_row r (seq t + 1) | Some row \<Rightarrow> update_rule_row r row)"
    and "name \<noteq> rule_Name r \<Longrightarrow> select_one (\<lambda>q. rr_name q = name) (upserted r t) = select_one (\<lambda>q. rr_name q = name) t"
proof -
  have ok: "table_ok rr_id rr_name (upserted r t)" by (rule upserted_ok [OF assms])
  show "select_one (\<lambda>q. rr_name q = rule_Name r) (upserted r t) =
    Some (case select_one (\<lambda>q. rr_name q = rule_Name r) t of
       None \<Rightarrow> mk_rule_row r (seq t + 1) | Some row \<Rightarrow> update_rule_row r row)"
  proof (cases "select_one (\<lambda>q. rr_name q = rule_Name r) t")
    case None
    then have "\<forall>row \<in> set (rows t). rr_name row \<noteq> rule_Name r" by (simp add: select_one_None)
    then have "mk_rule_row r (seq t + 1) \<in> set (rows (upserted r t))" by (auto simp: upserted_def insert_row_def Let_def)
    with None show ?thesis by (simp add: table_ok_select_key_iff [OF ok])
  next
    case (Some row)
    then have row: "row \<in> set (rows t)" "rr_name row = rule_Name r" by (auto dest: select_oneD)
    then have "update_rule_row r row \<in> set (rows (upserted r t))" by (auto simp: upserted_def)
    with Some row show ?thesis by (simp add: table_ok_select_key_iff [OF ok])
  qed
  assume n: "name \<noteq> rule_Name r"
  show "select_one (\<lambda>q. rr_name q = name) (upserted r t) = select_one (\<lambda>q. rr_name q = name) t"
  proof (rule option_eqI)
    fix row
    have "row \<in> set (rows (upserted r t)) \<longleftrightarrow> row \<in> set (rows t)" if "rr_name row = name"
      using that n by (auto simp: upserted_def insert_row_def Let_def image_iff split: if_splits)
    then show "select_one (\<lambda>q. rr_name q = name) (upserted r t) = Some row \<longleftrightarrow> select_one (\<lambda>q. rr_name q = name) t = Some row"
      by (auto simp: table_ok_select_key_iff [OF ok] table_ok_select_key_iff [OF assms])
  qed
qed


text \<open>The rule \<open>r\<close> as it is read back, saved over the rule \<open>old\<close>.\<close>

definition saved_rule :: "rule \<Rightarrow> rule \<Rightarrow> rule" where
  "saved_rule r old =
     r\<lparr>rule_ID := rule_ID old, rule_CreatedUnix := rule_CreatedUnix old,
       rule_CreatedByUserID := rule_CreatedByUserID old,
       rule_Format := trim_space (rule_Format r), rule_Package := trim_space (rule_Package r),
       rule_VersionPattern := trim_space (rule_VersionPattern r),
       rule_Config := if rule_Config r = EmptyConfig then ConfigJSON (JObject []) else rule_Config r,
       rule_Priority := if rule_Priority r = 0 then 100 else rule_Priority r\<rparr>"

lemma scan_nulls:
  "(case rule_nullString s of Some x \<Rightarrow> x | None \<Rightarrow> []) = trim_space s"
  "(case nullInt n of Some x \<Rightarrow> x | None \<Rightarrow> 0) = n"
  by (simp_all add: rule_nullString_def nullInt_def trim_space_def trim_left_def)

lemma scan_update: "rr_name row = rule_Name r \<Longrightarrow> scanRule (update_rule_row (upsert_defaults now r) row) = saved_rule r (scanRule row)"
  by (rule rule.equality) (simp_all add: scanRule_def update_rule_row_def saved_rule_def scan_nulls)

lemma scan_new:
  "scanRule (mk_rule_row (upsert_defaults now r) i) =
     saved_rule r (r\<lparr>rule_ID := i, rule_CreatedUnix := if rule_CreatedUnix r = 0 then now else rule_CreatedUnix r\<rparr>)"
  by (rule rule.equality) (simp_all add: scanRule_def mk_rule_row_def saved_rule_def scan_nulls)

text \<open>
C26: Saving a rule: a rule with a name, a kind and an action, whose tenant and creator exist, is saved under
  its name and read back - with an empty configuration as \<open>{}\<close>, priority 0 as 100, and its selectors
  trimmed. Saving over an existing rule keeps that rule's identifier, creation time and creator.
  Every other rule is as it was, and names stay unique.
\<close>

theorem Upsert_roundtrip:
  assumes "rules_ok d" and "rule_Name r \<noteq> []" and "rule_Kind r \<noteq> []" and "rule_Action r \<noteq> []"
    and "rule_TenantID r = 0 \<or> tenant_exists d (rule_TenantID r)"
    and "rule_CreatedByUserID r = 0 \<or> user_exists d (rule_CreatedByUserID r)"
  shows "\<exists>d' old. Upsert now r d = (d', Inr (rule_ID old)) \<and> rules_ok d'
    \<and> old = (case rules_GetByName d (rule_Name r) of
          Inr q \<Rightarrow> q
        | Inl _ \<Rightarrow> r\<lparr>rule_ID := seq (db_rules d) + 1,
                    rule_CreatedUnix := if rule_CreatedUnix r = 0 then now else rule_CreatedUnix r\<rparr>)
    \<and> rules_GetByName d' (rule_Name r) = Inr (saved_rule r old)
    \<and> (\<forall>name. name \<noteq> rule_Name r \<longrightarrow> rules_GetByName d' name = rules_GetByName d name)"
proof -
  let ?r = "upsert_defaults now r"
  have fk: "opt_exists (tenant_exists d) (nullInt (rule_TenantID r))"
    "opt_exists (user_exists d) (nullInt (rule_CreatedByUserID r))"
    using assms(5,6) by (auto simp: opt_exists_def nullInt_def)
  obtain d' i where up: "Upsert now r d = (d', Inr i)"
    using assms(2-4) fk
    by (cases "rules_GetByName d (rule_Name r)") (simp_all add: Upsert_def Let_def insert_row_def)
  note S = Upsert_success [OF assms(1) up]
  have t: "table_ok rr_id rr_name (db_rules d)" using assms(1) by (simp add: rules_ok_def)
  have ok: "rules_ok d'" using Upsert_ok [OF assms(1), of now r] up by simp
  let ?row = "case select_one (\<lambda>q. rr_name q = rule_Name r) (db_rules d) of
       None \<Rightarrow> mk_rule_row ?r (seq (db_rules d) + 1) | Some row \<Rightarrow> update_rule_row ?r row"
  have look: "select_one (\<lambda>q. rr_name q = rule_Name r) (db_rules d') = Some ?row"
    using upserted_lookup(1) [OF t, of ?r] S(1) by simp
  have others: "\<forall>name. name \<noteq> rule_Name r \<longrightarrow> rules_GetByName d' name = rules_GetByName d name"
    using upserted_lookup(2) [OF t, of _ ?r] S(1) by (simp add: rules_GetByName_def)
  obtain row' where row': "row' \<in> set (rows (db_rules d'))" "rr_id row' = i" "rr_name row' = rule_Name r"
    using S(2) by blast
  then have "select_one (\<lambda>q. rr_name q = rule_Name r) (db_rules d') = Some row'"
    using ok by (simp add: rules_ok_def table_ok_select_key_iff)
  with look row'(2) have i: "i = rr_id ?row" by simp
  show ?thesis
  proof (cases "select_one (\<lambda>q. rr_name q = rule_Name r) (db_rules d)")
    case None
    with up ok others look i show ?thesis by (simp add: rules_GetByName_def scan_new)
  next
    case (Some row)
    moreover have "rule_ID (scanRule row) = rr_id row" by (simp add: scanRule_def)
    moreover have "rr_name row = rule_Name r" using Some by (auto dest: select_oneD)
    ultimately show ?thesis using up ok others look i by (simp add: rules_GetByName_def scan_update)
  qed
qed

definition sample_rule_input :: rule where
  "sample_rule_input = \<lparr>rule_ID = 0, rule_Name = ''cool'', rule_Kind = ''cooldown'', rule_TenantID = 0,
     rule_Format = '' npm '', rule_Package = [], rule_VersionPattern = [], rule_Action = ''deny'',
     rule_Config = EmptyConfig, rule_Priority = 0, rule_Enabled = True, rule_CreatedUnix = 0,
     rule_CreatedByUserID = 0, rule_ExpiresUnix = 0\<rparr>"

theorem Upsert_roundtrip_witness:
  "\<exists>d'. Upsert 7 sample_rule_input (fresh_db 0) = (d', Inr 1)
     \<and> (\<exists>q. rules_GetByName d' ''cool'' = Inr q \<and> rule_Priority q = 100 \<and> rule_CreatedUnix q = 7)"
proof -
  have f: "rules_GetByName (fresh_db 0) ''cool'' = Inl ErrRuleNotExist" "seq (db_rules (fresh_db 0)) = 0"
    by (simp_all add: rules_GetByName_def fresh_db_def select_one_def)
  have r: "rule_Name sample_rule_input = ''cool''" "rule_Kind sample_rule_input \<noteq> []" "rule_Action sample_rule_input \<noteq> []"
    "rule_TenantID sample_rule_input = 0" "rule_CreatedByUserID sample_rule_input = 0"
    "rule_CreatedUnix sample_rule_input = 0" "rule_Priority sample_rule_input = 0"
    by (simp_all add: sample_rule_input_def)
  from Upsert_roundtrip [OF rules_ok_fresh, of sample_rule_input 0 7] r f show ?thesis
    by (auto simp: saved_rule_def)
qed

section \<open>Reloading the engine\<close>

lemma by_kind_pull:
  assumes "sorts_rules srt"
  shows "set (by_kind (ce_rules (PullFromStore srt d e)) k) = {r \<in> set (ListEnabled d). rule_Enabled r \<and> rule_Kind r = k}"
proof -
  have "set (srt rs) = set rs" for rs
    using assms by (metis sorts_rules_def set_mset_mset)
  moreover have "set (by_kind (partition_rules Map.empty rs) k) = {r \<in> set rs. rule_Enabled r \<and> rule_Kind r = k}" for rs
    using by_kind_partition [of Map.empty rs k] by (simp add: by_kind_def)
  ultimately show ?thesis
    by (auto simp: PullFromStore_def Refresh_def Let_def by_kind_def split: option.split option.splits)
qed


lemma set_ListEnabled: "set (ListEnabled d) = scanRule ` {row \<in> set (rows (db_rules d)). rr_enabled row = 1}"
  by (auto simp: ListEnabled_def select_all_def)

text \<open>
  A rule that is switched off or deleted is gone from the engine after the next reload, whatever its kind,
  and every other rule the engine would have used is still there.
\<close>

theorem disabled_rule_leaves_engine:
  assumes "sorts_rules srt"
  shows "set (by_kind (ce_rules (PullFromStore srt (SetEnabled i False d) e)) k) =
      {r \<in> set (by_kind (ce_rules (PullFromStore srt d e)) k). rule_ID r \<noteq> i}
    \<and> set (by_kind (ce_rules (PullFromStore srt (rules_Delete i d) e)) k) =
      {r \<in> set (by_kind (ce_rules (PullFromStore srt d e)) k). rule_ID r \<noteq> i}"
proof (intro conjI)
  have id: "rule_ID (scanRule row) = rr_id row" for row by (simp add: scanRule_def)
  have "{row \<in> set (rows (db_rules (SetEnabled i False d))). rr_enabled row = 1} =
      {row \<in> set (rows (db_rules d)). rr_enabled row = 1 \<and> rr_id row \<noteq> i}"
    by (auto simp: SetEnabled_def)
  then show "set (by_kind (ce_rules (PullFromStore srt (SetEnabled i False d) e)) k) =
      {r \<in> set (by_kind (ce_rules (PullFromStore srt d e)) k). rule_ID r \<noteq> i}"
    by (auto simp: by_kind_pull [OF assms] set_ListEnabled id)
  have "{row \<in> set (rows (db_rules (rules_Delete i d))). rr_enabled row = 1} =
      {row \<in> set (rows (db_rules d)). rr_enabled row = 1 \<and> rr_id row \<noteq> i}"
    by (auto simp: rules_Delete_def rule_exists_def)
  then show "set (by_kind (ce_rules (PullFromStore srt (rules_Delete i d) e)) k) =
      {r \<in> set (by_kind (ce_rules (PullFromStore srt d e)) k). rule_ID r \<noteq> i}"
    by (auto simp: by_kind_pull [OF assms] set_ListEnabled id)
qed

section \<open>Synchronising with the rule file\<close>

definition acceptable :: "db \<Rightarrow> rule \<Rightarrow> bool" where
  "acceptable d r \<longleftrightarrow> rule_Name r \<noteq> [] \<and> rule_Kind r \<noteq> [] \<and> rule_Action r \<noteq> []
     \<and> opt_exists (tenant_exists d) (nullInt (rule_TenantID r))"

lemma acceptable_created [simp]: "acceptable d (r\<lparr>rule_CreatedUnix := c\<rparr>) = acceptable d r"
  by (simp add: acceptable_def)

definition upsert_rows :: "int \<Rightarrow> rule list \<Rightarrow> rule_row sql_table \<Rightarrow> rule_row sql_table" where
  "upsert_rows now rs t = fold (\<lambda>r. upserted (upsert_defaults now r)) rs t"

lemma acceptable_frame [simp]: "acceptable (d\<lparr>db_rules := t\<rparr>) r = acceptable d r"
proof -
  have "tenant_exists (d\<lparr>db_rules := t\<rparr>) = tenant_exists d" by (simp add: fun_eq_iff tenant_exists_def)
  then show ?thesis by (simp add: acceptable_def)
qed

definition named :: "rule_row sql_table \<Rightarrow> rule \<Rightarrow> bool" where
  "named t r \<longleftrightarrow> (\<exists>row \<in> set (rows t). rr_name row = rule_Name r)"

lemma named_upserted: "named (upserted r t) q \<longleftrightarrow> rule_Name q = rule_Name r \<or> named t q"
proof -
  have n: "named t q \<longleftrightarrow> rule_Name q \<in> rr_name ` set (rows t)" for t q
    by (auto simp: named_def intro: rev_image_eqI)
  have "rr_name ` set (rows (upserted r t)) = insert (rule_Name r) (rr_name ` set (rows t))"
  proof (cases "rule_Name r \<in> rr_name ` set (rows t)")
    case True
    then have "upserted r t = update_where (\<lambda>row. rr_name row = rule_Name r) (update_rule_row r) t"
      by (auto simp: upserted_def)
    then show ?thesis using True update_where_image [of rr_name "update_rule_row r"] by (auto simp only: update_rule_row_fields)
  next
    case False
    then have "\<not> (\<exists>row \<in> set (rows t). rr_name row = rule_Name r)" by (auto intro: rev_image_eqI)
    then show ?thesis by (simp add: upserted_def insert_row_def Let_def)
  qed
  then show ?thesis by (simp add: n)
qed

lemma Upsert_acceptable: "Upsert now r d = (d', Inr i) \<Longrightarrow> acceptable d r"
  by (auto simp: Upsert_def acceptable_def Let_def split: if_splits sum.splits)

lemma upsert_all_success:
  assumes "rules_ok d" and "upsert_all now n rs d = (d', m, None)"
  shows "d' = d\<lparr>db_rules := upsert_rows now rs (db_rules d)\<rparr> \<and> m = n + length rs \<and> (\<forall>r \<in> set rs. acceptable d r)"
  using assms
proof (induction rs arbitrary: n d)
  case Nil
  then show ?case by (simp add: upsert_rows_def)
next
  case (Cons r rs)
  obtain d1 x where up: "Upsert now r d = (d1, x)" by (cases "Upsert now r d")
  with Cons.prems(2) obtain i where x: "x = Inr i" by (cases x) auto
  have d1: "d1 = d\<lparr>db_rules := upserted (upsert_defaults now r) (db_rules d)\<rparr>"
    using Upsert_success(1) [OF Cons.prems(1)] up x by blast
  have "rules_ok d1" using Upsert_ok [OF Cons.prems(1), of now r] up by simp
  moreover have "upsert_all now (Suc n) rs d1 = (d', m, None)" using Cons.prems(2) up x by simp
  ultimately have "d' = d1\<lparr>db_rules := upsert_rows now rs (db_rules d1)\<rparr> \<and> m = Suc n + length rs \<and> (\<forall>r \<in> set rs. acceptable d1 r)"
    by (rule Cons.IH)
  then show ?case
    using Upsert_acceptable [of now r d d1 i] up x by (simp add: d1 upsert_rows_def)
qed

lemma upsert_all_present:
  assumes "rules_ok d" and "\<forall>r \<in> set rs. acceptable d r \<and> named (db_rules d) r"
  shows "upsert_all now n rs d = (d\<lparr>db_rules := upsert_rows now rs (db_rules d)\<rparr>, n + length rs, None)"
  using assms
proof (induction rs arbitrary: n d)
  case Nil
  then show ?case by (simp add: upsert_rows_def)
next
  case (Cons r rs)
  have "\<exists>q. rules_GetByName d (rule_Name r) = Inr q"
    using Cons.prems(2) by (auto simp: named_def rules_GetByName_def select_one_None split: option.split)
  then obtain d1 i where up: "Upsert now r d = (d1, Inr i)"
    using Cons.prems(2) by (auto simp: Upsert_def Let_def acceptable_def)
  have d1: "d1 = d\<lparr>db_rules := upserted (upsert_defaults now r) (db_rules d)\<rparr>"
    using Upsert_success(1) [OF Cons.prems(1) up] .
  have "rules_ok d1" using Upsert_ok [OF Cons.prems(1), of now r] up by simp
  moreover have "\<forall>q \<in> set rs. acceptable d1 q \<and> named (db_rules d1) q"
    using Cons.prems(2) by (simp add: d1 named_upserted)
  ultimately have "upsert_all now (Suc n) rs d1 = (d1\<lparr>db_rules := upsert_rows now rs (db_rules d1)\<rparr>, Suc n + length rs, None)"
    by (rule Cons.IH)
  then show ?case using up by (simp add: d1 upsert_rows_def)
qed

text \<open>The file's last word on a row.\<close>

definition apply_rules :: "int \<Rightarrow> rule list \<Rightarrow> rule_row \<Rightarrow> rule_row" where
  "apply_rules now rs row =
     fold (\<lambda>r row. if rr_name row = rule_Name r then update_rule_row (upsert_defaults now r) row else row) rs row"

lemma apply_rules_name [simp]: "rr_name (apply_rules now rs row) = rr_name row"
  by (induction rs arbitrary: row) (auto simp: apply_rules_def)

lemma apply_rules_cases: "apply_rules now rs row = row \<or> (\<exists>r. apply_rules now rs row = update_rule_row r row)"
proof (induction rs rule: rev_induct)
  case (snoc r rs)
  then show ?case by (auto simp: apply_rules_def)
qed (simp add: apply_rules_def)

lemma upsert_rows_present:
  "\<forall>r \<in> set rs. named t r \<Longrightarrow> upsert_rows now rs t = t\<lparr>rows := map (apply_rules now rs) (rows t)\<rparr>"
proof (induction rs rule: rev_induct)
  case Nil
  then show ?case by (simp add: upsert_rows_def apply_rules_def)
next
  case (snoc r rs)
  then have "upsert_rows now rs t = t\<lparr>rows := map (apply_rules now rs) (rows t)\<rparr>" by simp
  moreover have "\<exists>row \<in> set (rows t). rr_name row = rule_Name r" using snoc(2) by (simp add: named_def)
  ultimately show ?case
    by (auto simp: upsert_rows_def upserted_def update_where_def apply_rules_def [of now "rs @ [r]"]
        simp flip: apply_rules_def)
qed

lemma upsert_rows_settled:
  "(\<forall>r \<in> set rs. named (upsert_rows now rs t) r)
   \<and> (\<forall>row \<in> set (rows (upsert_rows now rs t)). apply_rules now rs row = row)"
proof (induction rs rule: rev_induct)
  case Nil
  then show ?case by (simp add: upsert_rows_def apply_rules_def)
next
  case (snoc r rs)
  let ?t = "upsert_rows now rs t" and ?r = "upsert_defaults now r"
  have step: "upsert_rows now (rs @ [r]) t = upserted ?r ?t" by (simp add: upsert_rows_def)
  have app: "apply_rules now (rs @ [r]) row =
      (if rr_name row = rule_Name r then update_rule_row ?r (apply_rules now rs row) else apply_rules now rs row)" for row
    by (simp add: apply_rules_def [of now "rs @ [r]"] flip: apply_rules_def)
  have again: "update_rule_row ?r (apply_rules now rs (update_rule_row ?r row)) = update_rule_row ?r row" for row
    using apply_rules_cases [of now rs "update_rule_row ?r row"] by auto
  have new: "update_rule_row ?r (apply_rules now rs (mk_rule_row ?r i)) = mk_rule_row ?r i" for i
    using apply_rules_cases [of now rs "mk_rule_row ?r i"] by auto
  have "named (upserted ?r ?t) q" if "q = r \<or> named ?t q" for q
    using that by (auto simp: named_upserted)
  moreover have "apply_rules now (rs @ [r]) row = row" if "row \<in> set (rows (upserted ?r ?t))" for row
    using that snoc again new
    by (auto simp: app upserted_def insert_row_def Let_def split: if_splits)
  ultimately show ?case using snoc by (auto simp: step)
qed


lemma toRule_later:
  "toRule yc now' resolver y = (case toRule yc now resolver y of Inl e \<Rightarrow> Inl e | Inr r \<Rightarrow> Inr (r\<lparr>rule_CreatedUnix := now'\<rparr>))"
  by (simp add: toRule_def bind_result_def split: sum.split option.split)

lemma toRules_later:
  "toRules yc now' resolver i ys =
     (case toRules yc now resolver i ys of Inl e \<Rightarrow> Inl e | Inr rs \<Rightarrow> Inr (map (\<lambda>r. r\<lparr>rule_CreatedUnix := now'\<rparr>) rs))"
  by (induction ys arbitrary: i)
    (simp_all add: toRule_later [of yc now' resolver _ now] bind_result_def split: sum.split)

lemma LoadYAMLFile_later:
  "LoadYAMLFile yc now path resolver = Inr rs \<Longrightarrow>
   LoadYAMLFile yc now' path resolver = Inr (map (\<lambda>r. r\<lparr>rule_CreatedUnix := now'\<rparr>) rs)"
  by (auto simp: LoadYAMLFile_def toRules_later [of yc now' resolver _ _ now] split: if_splits option.splits sum.splits)

lemma apply_rules_later:
  "apply_rules now' (map (\<lambda>r. r\<lparr>rule_CreatedUnix := c\<rparr>) rs) row = apply_rules now rs row"
proof -
  have "update_rule_row (upsert_defaults now' (r\<lparr>rule_CreatedUnix := c\<rparr>)) row = update_rule_row (upsert_defaults now r) row" for r row
    by (simp add: update_rule_row_def)
  then show ?thesis by (simp add: apply_rules_def fold_map comp_def cong: if_cong)
qed

text \<open>
  Synchronising with an unchanged rule file is idempotent: after a run that succeeded, another run, at any
  later time, succeeds on as many rules and leaves the database exactly as it is.
\<close>

theorem SyncYAMLFile_idempotent:
  assumes "rules_ok d" and "SyncYAMLFile yc now path resolver d = (d', n, None)"
  shows "SyncYAMLFile yc now' path resolver d' = (d', n, None) \<and> rules_ok d'"
proof (intro conjI)
  obtain rs where load: "LoadYAMLFile yc now path resolver = Inr rs" and all: "upsert_all now 0 rs d = (d', n, None)"
    using assms(2) by (auto simp: SyncYAMLFile_def split: sum.splits)
  have d': "d' = d\<lparr>db_rules := upsert_rows now rs (db_rules d)\<rparr>" and n: "n = length rs"
    and acc: "\<forall>r \<in> set rs. acceptable d r"
    using upsert_all_success [OF assms(1) all] by simp_all
  have "table_ok rr_id rr_name (upsert_rows now rs t)" if "table_ok rr_id rr_name t" for t
    using that by (induction rs arbitrary: t) (simp_all add: upsert_rows_def upserted_ok)
  with assms(1) show ok: "rules_ok d'" by (simp add: rules_ok_def d')
  let ?rs = "map (\<lambda>r. r\<lparr>rule_CreatedUnix := now'\<rparr>) rs"
  have settled: "\<forall>r \<in> set rs. named (db_rules d') r" "\<forall>row \<in> set (rows (db_rules d')). apply_rules now rs row = row"
    using upsert_rows_settled [of rs now "db_rules d"] by (simp_all add: d')
  then have "\<forall>r \<in> set ?rs. acceptable d' r \<and> named (db_rules d') r"
    using acc by (auto simp: d' named_def)
  from upsert_all_present [OF ok this, of now' 0]
  have "upsert_all now' 0 ?rs d' = (d'\<lparr>db_rules := upsert_rows now' ?rs (db_rules d')\<rparr>, n, None)" by (simp add: n)
  moreover have "upsert_rows now' ?rs (db_rules d') = db_rules d'"
  proof -
    have "\<forall>r \<in> set ?rs. named (db_rules d') r" using settled(1) by (simp add: named_def)
    from upsert_rows_present [OF this, of now'] show ?thesis
      using settled(2) by (simp add: apply_rules_later [of now' now' _ _ now] map_idI)
  qed
  ultimately show "SyncYAMLFile yc now' path resolver d' = (d', n, None)"
    using LoadYAMLFile_later [OF load, of now'] by (simp add: SyncYAMLFile_def)
qed

definition sample_codec :: yaml_codec where
  "sample_codec = \<lparr>yc_ReadFile = (\<lambda>_. Some ''rules''),
     yc_Unmarshal = (\<lambda>_. Some [\<lparr>yr_Name = ''cool'', yr_Kind = ''cooldown'', yr_Enabled = None, yr_Tenant = [],
        yr_Format = ''npm'', yr_Package = [], yr_VersionPattern = [], yr_Action = ''deny'', yr_Config = [],
        yr_Priority = 0, yr_ExpiresAt = []\<rparr>]),
     yc_marshal_config = (\<lambda>ms. Some (ConfigJSON (JObject ms))), yc_parse_time = (\<lambda>_. None)\<rparr>"

theorem SyncYAMLFile_idempotent_witness:
  "\<exists>d'. SyncYAMLFile sample_codec 5 ''rules.yaml'' None (fresh_db 0) = (d', 1, None)
     \<and> SyncYAMLFile sample_codec 9 ''rules.yaml'' None d' = (d', 1, None)"
proof -
  obtain d' where "SyncYAMLFile sample_codec 5 ''rules.yaml'' None (fresh_db 0) = (d', 1, None)"
    by (simp add: SyncYAMLFile_def LoadYAMLFile_def sample_codec_def toRule_def Upsert_def Let_def insert_row_def
        rules_GetByName_def select_one_def fresh_db_def opt_exists_def nullInt_def)
  with SyncYAMLFile_idempotent [OF rules_ok_fresh this, of 9] show ?thesis by blast
qed

theorem disabled_rule_leaves_engine_witness:
  "set (by_kind (ce_rules (PullFromStore sortRules (SetEnabled 1 False (fresh_db 0)) (NewChainEngine []))) ''cooldown'') = {}"
  using disabled_rule_leaves_engine [OF sorts_rules_sortRules, of 1 "fresh_db 0"]
  by (simp add: by_kind_pull [OF sorts_rules_sortRules] set_ListEnabled fresh_db_def)

end
