(* ===== verification/Audit_Log.thy ===== *)
theory Audit_Log
  imports Rule_Store Auth
begin

text \<open>
  The audit log (\<open>internal/audit\<close>): the buffered logger with its drainer, the writer to the
  \<open>audit_log\<close> table, the retention pruner, the queries, and the policy engine wrapped so that its
  decisions are logged (\<open>engine.go\<close>), with the middleware that supplies the caller
  (\<open>internal/server/policy_middleware.go\<close>).

  An event's \<open>Extra\<close> map is a list of JSON members; \<open>encode\<close> and \<open>decode\<close> are \<open>json.Marshal\<close> and
  \<open>json.Unmarshal\<close> on it.
\<close>

section \<open>Events and rows\<close>

record event =
  ev_CreatedUnix :: int
  ev_UserID :: int
  ev_TokenID :: int
  ev_RequestID :: string
  ev_RemoteAddr :: string
  ev_UserAgent :: string
  ev_ActorKind :: string
  ev_TenantID :: int
  ev_Action :: string
  ev_Format :: string
  ev_Package :: string
  ev_Version :: string
  ev_Filename :: string
  ev_Decision :: string
  ev_RuleID :: int
  ev_Reason :: string
  ev_Extra :: "(string \<times> json) list"

definition null_text :: "string \<Rightarrow> string option" where
  "null_text s = (if s = [] then None else Some s)"

definition mk_audit_row :: "((string \<times> json) list \<Rightarrow> string option) \<Rightarrow> event \<Rightarrow> int \<Rightarrow> audit_row" where
  "mk_audit_row encode e i =
     \<lparr>al_id = i, al_created_unix = ev_CreatedUnix e, al_actor_user_id = nullInt (ev_UserID e),
      al_actor_token_id = nullInt (ev_TokenID e), al_actor_kind = null_text (ev_ActorKind e),
      al_request_id = null_text (ev_RequestID e), al_remote_addr = null_text (ev_RemoteAddr e),
      al_user_agent = null_text (ev_UserAgent e), al_tenant_id = nullInt (ev_TenantID e), al_action = ev_Action e,
      al_format = null_text (ev_Format e), al_package = null_text (ev_Package e),
      al_version = null_text (ev_Version e), al_filename = null_text (ev_Filename e),
      al_decision = null_text (ev_Decision e), al_rule_id = nullInt (ev_RuleID e),
      al_reason = null_text (ev_Reason e),
      al_extra_json = (if ev_Extra e = [] then ''{}''
                       else (case encode (ev_Extra e) of None \<Rightarrow> ''{}'' | Some s \<Rightarrow> s))\<rparr>"

definition sink_Write :: "((string \<times> json) list \<Rightarrow> string option) \<Rightarrow> event \<Rightarrow> db \<Rightarrow> db \<times> (go_error, unit) result" where
  "sink_Write encode e d =
     (if opt_exists (user_exists d) (nullInt (ev_UserID e)) \<and> opt_exists (token_exists d) (nullInt (ev_TokenID e))
         \<and> opt_exists (tenant_exists d) (nullInt (ev_TenantID e)) \<and> opt_exists (rule_exists d) (nullInt (ev_RuleID e))
      then (d\<lparr>db_audit := snd (insert_row (mk_audit_row encode e) (db_audit d))\<rparr>, Inr ())
      else (d, Inl ErrForeignKey))"

section \<open>The logger\<close>

text \<open>The channel of capacity \<open>bl_cap\<close>, whether it is closed, and the counter of drops.\<close>

record buffered_logger =
  bl_in :: "event list"
  bl_cap :: nat
  bl_closed :: bool
  bl_drops :: nat

definition new_logger :: "int \<Rightarrow> buffered_logger" where
  "new_logger bufSize =
     \<lparr>bl_in = [], bl_cap = nat (if bufSize \<le> 0 then 4096 else bufSize), bl_closed = False, bl_drops = 0\<rparr>"

text \<open>\<open>None\<close>: sending on the closed channel panics.\<close>

definition logger_Log :: "int \<Rightarrow> event \<Rightarrow> buffered_logger \<Rightarrow> buffered_logger option" where
  "logger_Log now e l =
     (let e' = (if ev_CreatedUnix e = 0 then e\<lparr>ev_CreatedUnix := now\<rparr> else e) in
      if bl_closed l then None
      else if length (bl_in l) < bl_cap l then Some (l\<lparr>bl_in := bl_in l @ [e']\<rparr>)
      else Some (l\<lparr>bl_drops := bl_drops l + 1\<rparr>))"

definition Drops :: "buffered_logger \<Rightarrow> nat" where
  "Drops l = bl_drops l"

text \<open>\<open>Close\<close> closes the channel, then waits until the drainer has emptied it.\<close>

definition logger_Close :: "buffered_logger \<Rightarrow> buffered_logger" where
  "logger_Close l = l\<lparr>bl_closed := True\<rparr>"

definition Close_returned :: "buffered_logger \<Rightarrow> bool" where
  "Close_returned l = (bl_closed l \<and> bl_in l = [])"

text \<open>One round of \<open>drain\<close>; the event is gone from the channel whether the write succeeds or not.\<close>

definition drain_one :: "((string \<times> json) list \<Rightarrow> string option) \<Rightarrow> buffered_logger \<Rightarrow> db
    \<Rightarrow> (buffered_logger \<times> db \<times> event \<times> bool) option" where
  "drain_one encode l d =
     (case bl_in l of
        [] \<Rightarrow> None
      | ev # rest \<Rightarrow>
          (case sink_Write encode ev d of
             (d', Inl _) \<Rightarrow> Some (l\<lparr>bl_in := rest\<rparr>, d', ev, False)
           | (d', Inr _) \<Rightarrow> Some (l\<lparr>bl_in := rest\<rparr>, d', ev, True)))"

section \<open>Retention\<close>

definition retention_days :: "db \<Rightarrow> int \<Rightarrow> int" where
  "retention_days d t =
     (case select_one (\<lambda>r. ten_ID r = t) (db_tenants d) of None \<Rightarrow> 90 | Some r \<Rightarrow> ten_audit_retention_days r)"

definition prune :: "int \<Rightarrow> db \<Rightarrow> db" where
  "prune now d =
     d\<lparr>db_audit := delete_where (\<lambda>a.
         (case al_tenant_id a of
            Some t \<Rightarrow> al_created_unix a < now - retention_days d t * 86400
          | None \<Rightarrow> al_created_unix a < now - 90 * 86400)) (db_audit d)\<rparr>"

section \<open>Queries\<close>

record audit_query =
  aq_TenantID :: int
  aq_Format :: string
  aq_Package :: string
  aq_Version :: string
  aq_UserID :: int
  aq_Action :: string
  aq_Decision :: string
  aq_Limit :: int
  aq_Since :: int

definition text_matches :: "string \<Rightarrow> string option \<Rightarrow> bool" where
  "text_matches s col = (s = [] \<or> col = Some s)"

definition audit_where :: "audit_query \<Rightarrow> audit_row \<Rightarrow> bool" where
  "audit_where q a =
     ((aq_TenantID q = 0 \<or> al_tenant_id a = Some (aq_TenantID q))
      \<and> text_matches (aq_Format q) (al_format a) \<and> text_matches (aq_Package q) (al_package a)
      \<and> text_matches (aq_Version q) (al_version a)
      \<and> (aq_UserID q = 0 \<or> al_actor_user_id a = Some (aq_UserID q))
      \<and> (aq_Action q = [] \<or> al_action a = aq_Action q)
      \<and> text_matches (aq_Decision q) (al_decision a)
      \<and> (aq_Since q = 0 \<or> al_created_unix a \<ge> aq_Since q))"

definition of_null_int :: "int option \<Rightarrow> int" where "of_null_int i = (case i of Some n \<Rightarrow> n | None \<Rightarrow> 0)"
definition of_null_text :: "string option \<Rightarrow> string" where "of_null_text s = (case s of Some t \<Rightarrow> t | None \<Rightarrow> [])"

text \<open>The \<open>SELECT\<close> does not name \<open>actor_kind\<close>, so the event's stays empty.\<close>

definition scan_event :: "(string \<Rightarrow> (string \<times> json) list option) \<Rightarrow> audit_row \<Rightarrow> event" where
  "scan_event decode a =
     \<lparr>ev_CreatedUnix = al_created_unix a, ev_UserID = of_null_int (al_actor_user_id a),
      ev_TokenID = of_null_int (al_actor_token_id a), ev_RequestID = of_null_text (al_request_id a),
      ev_RemoteAddr = of_null_text (al_remote_addr a), ev_UserAgent = of_null_text (al_user_agent a),
      ev_ActorKind = [], ev_TenantID = of_null_int (al_tenant_id a), ev_Action = al_action a,
      ev_Format = of_null_text (al_format a), ev_Package = of_null_text (al_package a),
      ev_Version = of_null_text (al_version a), ev_Filename = of_null_text (al_filename a),
      ev_Decision = of_null_text (al_decision a), ev_RuleID = of_null_int (al_rule_id a),
      ev_Reason = of_null_text (al_reason a),
      ev_Extra = (if al_extra_json a = [] \<or> al_extra_json a = ''{}'' then []
                  else (case decode (al_extra_json a) of None \<Rightarrow> [] | Some m \<Rightarrow> m))\<rparr>"

text \<open>Newest first; the order of events of the same second is the table's here, SQL leaves it open.\<close>

definition ListEvents :: "(string \<Rightarrow> (string \<times> json) list option) \<Rightarrow> db \<Rightarrow> audit_query \<Rightarrow> event list" where
  "ListEvents decode d q =
     (let limit = (if aq_Limit q \<le> 0 then 100 else aq_Limit q);
          limit = (if limit > 1000 then 1000 else limit)
      in map (scan_event decode)
           (take (nat limit) (sort_key (\<lambda>a. - al_created_unix a) (select_all (audit_where q) (db_audit d)))))"

definition DecisionRollup :: "int \<Rightarrow> db \<Rightarrow> int \<Rightarrow> int \<Rightarrow> string \<Rightarrow> nat option" where
  "DecisionRollup now d since til0 =
     (let til = (if til0 = 0 then now else til0);
          counted = select_all (\<lambda>a. al_decision a \<noteq> None \<and> al_decision a \<noteq> Some []
                       \<and> since \<le> al_created_unix a \<and> al_created_unix a \<le> til) (db_audit d)
      in (\<lambda>dec. let n = length (filter (\<lambda>a. al_decision a = Some dec) counted)
                in if n = 0 then None else Some n))"

section \<open>The logging engine\<close>

text \<open>\<open>q\<close> is the tenant store, when there is one.\<close>

definition shouldLog :: "(int \<Rightarrow> bool) option \<Rightarrow> action \<Rightarrow> eval_result \<Rightarrow> int \<Rightarrow> bool" where
  "shouldLog q a r tenantID =
     (if a = ActionIngest then True
      else if res_Decision r \<noteq> Allow then True
      else (case q of None \<Rightarrow> False | Some reads \<Rightarrow> reads tenantID))"

definition decision_event :: "actor \<Rightarrow> subject \<Rightarrow> action \<Rightarrow> eval_result \<Rightarrow> event" where
  "decision_event act s a r =
     \<lparr>ev_CreatedUnix = 0, ev_UserID = act_UserID act, ev_TokenID = act_TokenID act, ev_RequestID = act_RequestID act,
      ev_RemoteAddr = act_RemoteAddr act, ev_UserAgent = act_UserAgent act, ev_ActorKind = [],
      ev_TenantID = subj_TenantID s, ev_Action = action_String a, ev_Format = subj_Format s,
      ev_Package = subj_Package s, ev_Version = subj_Version s, ev_Filename = subj_Filename s,
      ev_Decision = decision_String (res_Decision r), ev_RuleID = res_RuleID r, ev_Reason = res_Reason r, ev_Extra = []\<rparr>"

text \<open>The result, and the event handed to the logger.\<close>

definition wrapped_Evaluate :: "(subject \<Rightarrow> action \<Rightarrow> eval_result) \<Rightarrow> (int \<Rightarrow> bool) option \<Rightarrow> actor option
    \<Rightarrow> subject \<Rightarrow> action \<Rightarrow> eval_result \<times> event option" where
  "wrapped_Evaluate inner q ctx s a =
     (let r = inner s a in
      if \<not> shouldLog q a r (subj_TenantID s) then (r, None)
      else (r, Some (decision_event (ActorFromContext ctx) s a r)))"

section \<open>The caller\<close>

text \<open>\<open>rnd\<close>: what \<open>rand.Read\<close> delivers.\<close>

definition newRequestID :: "string option \<Rightarrow> string" where
  "newRequestID rnd = (case rnd of None \<Rightarrow> ''0000000000000000'' | Some b \<Rightarrow> hex_encode b)"

definition policyActorMiddleware :: "string option \<Rightarrow> string \<Rightarrow> string \<Rightarrow> string \<Rightarrow> identity option \<Rightarrow> actor" where
  "policyActorMiddleware rnd requestID clientIP userAgent idn =
     (let act = \<lparr>act_UserID = 0, act_TokenID = 0,
                 act_RequestID = (if requestID = [] then newRequestID rnd else requestID),
                 act_RemoteAddr = clientIP, act_UserAgent = userAgent\<rparr>
      in case idn of
           None \<Rightarrow> act
         | Some i \<Rightarrow>
             (let act1 = (case id_User i of None \<Rightarrow> act | Some u \<Rightarrow> act\<lparr>act_UserID := usr_ID u\<rparr>)
              in case id_Token i of None \<Rightarrow> act1 | Some t \<Rightarrow> act1\<lparr>act_TokenID := tok_ID t\<rparr>))"

end
