(* ===== verification/Audit_Laws.thy ===== *)
theory Audit_Laws
  imports Audit_Log
begin

text \<open>
  What the audit log keeps: the accounting of the buffered logger over all its interleavings, what is
  read back of an event, and the decisions that cannot be recorded.
\<close>

section \<open>Writing and reading\<close>

lemma null_roundtrip [simp]: "of_null_text (null_text s) = s" "of_null_int (nullInt n) = n"
  by (simp_all add: of_null_text_def null_text_def of_null_int_def nullInt_def)

text \<open>What comes back of an event: everything but \<open>ActorKind\<close>, provided its extras survive JSON.\<close>

lemma scan_written:
  assumes "\<And>m s. encode m = Some s \<Longrightarrow> decode s = Some m" and "ev_Extra e = [] \<or> (\<exists>s. encode (ev_Extra e) = Some s \<and> s \<noteq> [] \<and> s \<noteq> ''{}'')"
  shows "scan_event decode (mk_audit_row encode e i) = e\<lparr>ev_ActorKind := []\<rparr>"
  using assms by (intro event.equality) (auto simp: scan_event_def mk_audit_row_def)

lemma sink_Write_rows:
  "sink_Write encode e d = (d', Inr x) \<Longrightarrow>
   rows (db_audit d') = rows (db_audit d) @ [mk_audit_row encode e (seq (db_audit d) + 1)]"
  by (auto simp: sink_Write_def insert_row_def Let_def split: if_splits)

section \<open>The logger at work\<close>

text \<open>
  The logger, its drainer and the database, with three records of the past: the number of \<open>Log\<close>
  calls, the events accepted, and the events taken from the channel with whether the write
  succeeded. Everything else in the process may change the database between any two steps.
\<close>

record log_system =
  ls_logger :: buffered_logger
  ls_db :: db
  ls_calls :: nat
  ls_accepted :: "event list"
  ls_handled :: "(event \<times> bool) list"

inductive log_step :: "((string \<times> json) list \<Rightarrow> string option) \<Rightarrow> log_system \<Rightarrow> log_system \<Rightarrow> bool" for encode where
  accept: "logger_Log now e (ls_logger s) = Some l \<Longrightarrow> bl_in l = bl_in (ls_logger s) @ [e'] \<Longrightarrow>
    log_step encode s (s\<lparr>ls_logger := l, ls_calls := Suc (ls_calls s), ls_accepted := ls_accepted s @ [e']\<rparr>)"
| overflow: "logger_Log now e (ls_logger s) = Some l \<Longrightarrow> bl_in l = bl_in (ls_logger s) \<Longrightarrow>
    log_step encode s (s\<lparr>ls_logger := l, ls_calls := Suc (ls_calls s)\<rparr>)"
| drain: "drain_one encode (ls_logger s) (ls_db s) = Some (l, d, e, ok) \<Longrightarrow>
    log_step encode s (s\<lparr>ls_logger := l, ls_db := d, ls_handled := ls_handled s @ [(e, ok)]\<rparr>)"
| close: "log_step encode s (s\<lparr>ls_logger := logger_Close (ls_logger s)\<rparr>)"
| other: "log_step encode s (s\<lparr>ls_db := d\<rparr>)"

inductive reachable_log :: "((string \<times> json) list \<Rightarrow> string option) \<Rightarrow> log_system \<Rightarrow> bool" for encode where
  start: "reachable_log encode \<lparr>ls_logger = new_logger n, ls_db = d, ls_calls = 0, ls_accepted = [], ls_handled = []\<rparr>"
| step: "reachable_log encode s \<Longrightarrow> log_step encode s s' \<Longrightarrow> reachable_log encode s'"

definition log_inv :: "log_system \<Rightarrow> bool" where
  "log_inv s \<longleftrightarrow> ls_accepted s = map fst (ls_handled s) @ bl_in (ls_logger s)
     \<and> ls_calls s = length (ls_accepted s) + bl_drops (ls_logger s)
     \<and> length (bl_in (ls_logger s)) \<le> bl_cap (ls_logger s)"

lemma drain_one_SomeD:
  "drain_one encode l d = Some (l', d', e, ok) \<Longrightarrow> \<exists>rest. bl_in l = e # rest \<and> l' = l\<lparr>bl_in := rest\<rparr>"
  by (auto simp: drain_one_def split: list.splits prod.splits sum.splits)

lemma log_step_inv: "log_step encode s s' \<Longrightarrow> log_inv s \<Longrightarrow> log_inv s'"
proof (induction rule: log_step.induct)
  case (accept now e s l e')
  then show ?case by (auto simp: log_inv_def logger_Log_def Let_def split: if_splits)
next
  case (overflow now e s l)
  then show ?case by (auto simp: log_inv_def logger_Log_def Let_def split: if_splits)
next
  case (drain s l d e ok)
  then show ?case by (auto simp: log_inv_def dest: drain_one_SomeD)
qed (simp_all add: log_inv_def logger_Close_def)

lemma reachable_log_inv: "reachable_log encode s \<Longrightarrow> log_inv s"
proof (induction rule: reachable_log.induct)
  case (start n d)
  show ?case by (simp add: log_inv_def new_logger_def)
next
  case (step s s')
  then show ?case by (blast intro: log_step_inv)
qed

text \<open>
C27: No event disappears unnoticed: at every moment, the \<open>Log\<close> calls that returned are the events dropped
  and counted, those handed to the writer - in the order they were logged - and those still waiting,
  of which there are never more than the channel holds. Once \<open>Close\<close> has returned, none is waiting.
\<close>

theorem audit_accounting:
  assumes "reachable_log encode s"
  shows "ls_calls s = Drops (ls_logger s) + length (ls_handled s) + length (bl_in (ls_logger s))
    \<and> ls_accepted s = map fst (ls_handled s) @ bl_in (ls_logger s)
    \<and> length (bl_in (ls_logger s)) \<le> bl_cap (ls_logger s)
    \<and> (Close_returned (ls_logger s) \<longrightarrow> ls_accepted s = map fst (ls_handled s))"
  using reachable_log_inv [OF assms] by (auto simp: log_inv_def Drops_def Close_returned_def)


definition sample_event :: event where
  "sample_event = \<lparr>ev_CreatedUnix = 1, ev_UserID = 0, ev_TokenID = 0, ev_RequestID = [], ev_RemoteAddr = [],
     ev_UserAgent = [], ev_ActorKind = ''session'', ev_TenantID = 1, ev_Action = ''login'', ev_Format = [],
     ev_Package = [], ev_Version = [], ev_Filename = [], ev_Decision = [], ev_RuleID = 0, ev_Reason = [], ev_Extra = []\<rparr>"

definition sample_log :: log_system where
  "sample_log = \<lparr>ls_logger = \<lparr>bl_in = [sample_event], bl_cap = 1, bl_closed = False, bl_drops = 0\<rparr>, ls_db = fresh_db 0,
     ls_calls = 1, ls_accepted = [sample_event], ls_handled = []\<rparr>"

lemma reachable_sample_log: "reachable_log encode sample_log"
proof -
  let ?s = "\<lparr>ls_logger = new_logger 1, ls_db = fresh_db 0, ls_calls = 0, ls_accepted = [], ls_handled = []\<rparr>"
  have "log_step encode ?s sample_log"
    using log_step.accept [of 0 sample_event ?s "ls_logger sample_log" sample_event encode]
    by (simp add: logger_Log_def new_logger_def sample_log_def sample_event_def)
  then show ?thesis by (rule reachable_log.step [OF reachable_log.start])
qed

theorem audit_accounting_witness:
  "ls_calls sample_log = Drops (ls_logger sample_log) + length (ls_handled sample_log) + length (bl_in (ls_logger sample_log))"
  using audit_accounting [OF reachable_sample_log [of "\<lambda>_. None"]] by simp

section \<open>Decisions of rules that are gone\<close>

lemma decision_event_fields [simp]:
  "ev_RuleID (decision_event act s a r) = res_RuleID r"
  by (simp add: decision_event_def)

lemma wrapped_logs:
  "a = ActionIngest \<or> res_Decision (inner s a) \<noteq> Allow \<Longrightarrow>
   wrapped_Evaluate inner q ctx s a = (inner s a, Some (decision_event (ActorFromContext ctx) s a (inner s a)))"
  by (auto simp: wrapped_Evaluate_def shouldLog_def Let_def)

text \<open>
  Between the deletion of a rule and the next reload, the engine still enforces the rule, but its decisions
  cannot be recorded: the event carries the deleted rule's identifier, the insert violates the
  foreign key of \<open>audit_log.rule_id\<close>, and the event is lost although it was not counted as dropped.
\<close>

theorem deleted_rule_decision_unrecorded:
  assumes "res_RuleID (Evaluate eng now s a) = i" and "i \<noteq> 0" and "rule_exists d i"
    and "res_Decision (Evaluate eng now s a) \<noteq> Allow" and "bl_in l = []" and "0 < bl_cap l" and "\<not> bl_closed l"
  shows "\<exists>e l1 l2 e'. wrapped_Evaluate (Evaluate eng now) q ctx s a = (Evaluate eng now s a, Some e)
    \<and> logger_Log now e l = Some l1
    \<and> drain_one encode l1 (rules_Delete i d) = Some (l2, rules_Delete i d, e', False)
    \<and> ev_RuleID e' = i \<and> bl_in l2 = [] \<and> Drops l2 = Drops l"
proof -
  let ?e = "decision_event (ActorFromContext ctx) s a (Evaluate eng now s a)"
  let ?e' = "?e\<lparr>ev_CreatedUnix := now\<rparr>"
  have ev: "wrapped_Evaluate (Evaluate eng now) q ctx s a = (Evaluate eng now s a, Some ?e)"
    using assms(4) by (intro wrapped_logs) simp
  have log: "logger_Log now ?e l = Some (l\<lparr>bl_in := [?e']\<rparr>)"
    using assms(5-7) by (simp add: logger_Log_def Let_def decision_event_def)
  have "\<not> rule_exists (rules_Delete i d) i"
    using assms(3) by (auto simp: rules_Delete_def rule_exists_def)
  then have "sink_Write encode ?e' (rules_Delete i d) = (rules_Delete i d, Inl ErrForeignKey)"
    using assms(1,2) by (simp add: sink_Write_def opt_exists_def nullInt_def)
  then have "drain_one encode (l\<lparr>bl_in := [?e']\<rparr>) (rules_Delete i d) =
      Some (l\<lparr>bl_in := []\<rparr>, rules_Delete i d, ?e', False)"
    by (simp add: drain_one_def)
  then show ?thesis using ev log assms(1) by (auto simp: Drops_def)
qed


definition sample_denier :: evaluator where
  "sample_denier = \<lparr>ev_Kind = ''k'', ev_Evaluate = (\<lambda>s a rs. Some (case rs of [] \<Rightarrow> allow_result
     | r # _ \<Rightarrow> \<lparr>res_Decision = Deny, res_Reason = ''blocked'', res_RuleID = rule_ID r\<rparr>))\<rparr>"

definition sample_rule_db :: db where
  "sample_rule_db = (fresh_db 0)\<lparr>db_rules := \<lparr>rows = [mk_rule_row
     \<lparr>rule_ID = 0, rule_Name = ''n'', rule_Kind = ''k'', rule_TenantID = 0, rule_Format = [], rule_Package = [],
      rule_VersionPattern = [], rule_Action = ''deny'', rule_Config = EmptyConfig, rule_Priority = 1, rule_Enabled = True,
      rule_CreatedUnix = 0, rule_CreatedByUserID = 0, rule_ExpiresUnix = 0\<rparr> 1], seq = 1\<rparr>\<rparr>"

definition sample_engine :: chain_engine where
  "sample_engine = PullFromStore sortRules sample_rule_db (NewChainEngine [sample_denier])"

definition sample_subject :: subject where
  "sample_subject = \<lparr>subj_TenantID = 1, subj_Format = ''npm'', subj_Package = ''p'', subj_Version = ''1'',
     subj_Filename = [], subj_Attrs = Map.empty\<rparr>"

lemma sample_decision: "Evaluate sample_engine 5 sample_subject ActionIngest =
    \<lparr>res_Decision = Deny, res_Reason = ''blocked'', res_RuleID = 1\<rparr>"
  by (simp add: Evaluate_def sample_engine_def PullFromStore_def Refresh_def Let_def ListEnabled_def select_all_def
      sample_rule_db_def mk_rule_row_def scanRule_def NewChainEngine_def sample_denier_def by_kind_def sortRules_def
      nullInt_def rule_nullString_def filterMatching_def Matches_def safeEvaluate_def decision_order)

theorem deleted_rule_decision_unrecorded_witness:
  "\<exists>e l1 l2 e'. wrapped_Evaluate (Evaluate sample_engine 5) None None sample_subject ActionIngest =
       (Evaluate sample_engine 5 sample_subject ActionIngest, Some e)
    \<and> logger_Log 5 e (new_logger 8) = Some l1
    \<and> drain_one (\<lambda>_. None) l1 (rules_Delete 1 sample_rule_db) = Some (l2, rules_Delete 1 sample_rule_db, e', False)
    \<and> ev_RuleID e' = 1"
proof -
  have "rule_exists sample_rule_db 1" by (simp add: rule_exists_def sample_rule_db_def mk_rule_row_def)
  moreover have "bl_in (new_logger 8) = []" "0 < bl_cap (new_logger 8)" "\<not> bl_closed (new_logger 8)"
    by (simp_all add: new_logger_def)
  ultimately show ?thesis
    using deleted_rule_decision_unrecorded [of sample_engine 5 sample_subject ActionIngest 1 sample_rule_db "new_logger 8"
        None None "\<lambda>_. None"] sample_decision by auto
qed

end
