(* ===== verification/Object_Storage.thy ===== *)
theory Object_Storage
  imports Capped_Reader Go_Strings "HOL-Library.AList" "HOL-Library.List_Lexorder" "HOL-Library.Char_ord"
begin

text \<open>
  Object storage on the local file system (\<open>internal/storage/storage.go\<close>).

  A disk is the list of the files below the storage root, each with its path - a list of components
  - and its bytes. Directories have no content and appear as prefixes of paths. What the operating
  system may refuse is the parameter \<open>fault\<close> of \<open>Save\<close>; the random part of a temporary file's name
  is the parameter \<open>rnd\<close>. \<open>Save\<close> returns every state the disk goes through, which is what a
  concurrent reader, or the next process after a crash, can find.

  The locale \<open>object_storage\<close> is the interface \<open>ObjectStorage\<close> as the package service relies on it.
\<close>

section \<open>Paths\<close>

type_synonym disk_path = "string list"
type_synonym disk = "(disk_path \<times> string) list"

datatype storage_error = ErrObjectNotFound | ErrURLNotSupported | StorageFailure string

text \<open>\<open>filepath.Join\<close> below the root: empty and \<open>.\<close> components vanish, \<open>..\<close> goes up.\<close>

fun clean_path :: "string list \<Rightarrow> string list \<Rightarrow> disk_path" where
  "clean_path acc [] = acc"
| "clean_path acc (c # cs) =
     (if c = [] \<or> c = ''.'' then clean_path acc cs
      else if c = ''..'' then
        (if acc = [] \<or> last acc = ''..'' then clean_path (acc @ [c]) cs else clean_path (butlast acc) cs)
      else clean_path (acc @ [c]) cs)"

definition filepath_Join :: "string list \<Rightarrow> disk_path" where
  "filepath_Join elems = clean_path [] (concat (map (split_on CHR ''/'') elems))"

definition buildLocalPath :: "string \<Rightarrow> disk_path" where
  "buildLocalPath path =
     (if length path < 4 then filepath_Join [path]
      else filepath_Join [take 2 path, take 2 (drop 2 path), path])"

definition splitSharded :: "disk_path \<Rightarrow> (string \<times> string \<times> string) option" where
  "splitSharded rel =
     (if length rel < 3 then None
      else
        (let base = last rel; dir2 = last (butlast rel); dir1 = last (butlast (butlast rel)) in
         if length dir1 \<noteq> 2 \<or> length dir2 \<noteq> 2 \<or> length base < 4 \<or> take 2 base \<noteq> dir1 \<or> take 2 (drop 2 base) \<noteq> dir2
         then None else Some (dir1, dir2, base)))"

section \<open>Operations\<close>

definition local_Open :: "disk \<Rightarrow> string \<Rightarrow> (storage_error, string) result" where
  "local_Open d path =
     (case map_of d (buildLocalPath path) of None \<Rightarrow> Inl ErrObjectNotFound | Some c \<Rightarrow> Inr c)"

definition local_Stat :: "disk \<Rightarrow> string \<Rightarrow> (storage_error, nat) result" where
  "local_Stat d path =
     (case map_of d (buildLocalPath path) of None \<Rightarrow> Inl ErrObjectNotFound | Some c \<Rightarrow> Inr (length c))"

definition local_Delete :: "string \<Rightarrow> disk \<Rightarrow> disk" where
  "local_Delete path d = AList.delete (buildLocalPath path) d"

definition local_URL :: "string \<Rightarrow> string \<Rightarrow> (storage_error, string) result" where
  "local_URL path name = Inl ErrURLNotSupported"

datatype save_fault = MkdirFault | CreateFault | WriteFault nat | CloseFault | RenameFault

text \<open>
  \<open>io.Copy\<close> into the temporary file: the states after each chunk written, the bytes written, and
  whether the copy failed - because the reader did, or because the write of chunk \<open>k\<close> did.
\<close>

fun copy_to :: "disk_path \<Rightarrow> string list \<Rightarrow> bool \<Rightarrow> nat option \<Rightarrow> disk \<Rightarrow> nat \<Rightarrow> disk list \<times> nat \<times> bool" where
  "copy_to tmp [] read_ok fault d n = ([], n, \<not> read_ok)"
| "copy_to tmp (c # cs) read_ok fault d n =
     (if fault = Some 0 then ([], n, True)
      else
        (let d' = AList.update tmp ((case map_of d tmp of None \<Rightarrow> [] | Some b \<Rightarrow> b) @ c) d in
         case copy_to tmp cs read_ok (map_option (\<lambda>k. k - 1) fault) d' (n + length c) of
           (ds, m, failed) \<Rightarrow> (d' # ds, m, failed)))"

definition temp_path :: "disk_path \<Rightarrow> string \<Rightarrow> disk_path" where
  "temp_path dst rnd = butlast dst @ [''.tmp-'' @ rnd]"

text \<open>The states of the disk, oldest first, and the result.\<close>

definition Save_trace :: "save_fault option \<Rightarrow> string \<Rightarrow> string \<Rightarrow> reader \<Rightarrow> disk
    \<Rightarrow> disk list \<times> (storage_error, nat) result" where
  "Save_trace fault rnd path r d =
     (let dst = buildLocalPath path; tmp = temp_path dst rnd in
      if fault = Some MkdirFault then ([d], Inl (StorageFailure ''mkdir object dir''))
      else if fault = Some CreateFault then ([d], Inl (StorageFailure ''create temp object''))
      else
        (let d1 = AList.update tmp [] d in
         case copy_to tmp (rd_chunks r) (rd_end r = EOF) (case fault of Some (WriteFault k) \<Rightarrow> Some k | _ \<Rightarrow> None) d1 0 of
           (ds, n, failed) \<Rightarrow>
             (let d2 = last (d1 # ds); removed = AList.delete tmp d2 in
              if failed then (d # d1 # ds @ [removed], Inl (StorageFailure ''write object''))
              else if fault = Some CloseFault then (d # d1 # ds @ [removed], Inl (StorageFailure ''close object''))
              else if fault = Some RenameFault then (d # d1 # ds @ [removed], Inl (StorageFailure ''rename object''))
              else
                (let moved = AList.update dst (case map_of d2 tmp of None \<Rightarrow> [] | Some b \<Rightarrow> b) (AList.delete tmp d2) in
                 (d # d1 # ds @ [moved, AList.delete tmp moved], Inr n)))))"

definition local_Save :: "save_fault option \<Rightarrow> string \<Rightarrow> string \<Rightarrow> reader \<Rightarrow> disk \<Rightarrow> disk \<times> (storage_error, nat) result" where
  "local_Save fault rnd path r d = (case Save_trace fault rnd path r d of (ds, res) \<Rightarrow> (last ds, res))"

text \<open>
  \<open>IterateObjects\<close>: the files below the prefix in lexical order, without those whose name starts
  with a dot; \<open>fn\<close> folds them until it reports an error. \<open>done\<close>: the context is cancelled when the
  walk reaches its \<open>n\<close>-th entry.
\<close>

fun walk :: "(nat \<Rightarrow> bool) \<Rightarrow> ('a \<Rightarrow> string \<Rightarrow> string \<Rightarrow> 'a \<times> 'e option) \<Rightarrow> 'e \<Rightarrow> nat \<Rightarrow> (disk_path \<times> string) list \<Rightarrow> 'a
    \<Rightarrow> 'a \<times> 'e option" where
  "walk finished fn cancelled n [] a = (a, None)"
| "walk finished fn cancelled n ((p, c) # fs) a =
     (if finished n then (a, Some cancelled)
      else if p \<noteq> [] \<and> last p \<noteq> [] \<and> hd (last p) = CHR ''.'' then walk finished fn cancelled (Suc n) fs a
      else
        (let rel = (case splitSharded p of Some (d1, d2, base) \<Rightarrow> base | None \<Rightarrow> join_with CHR ''/'' p) in
         case fn a rel c of
           (a', Some e) \<Rightarrow> (a', Some e)
         | (a', None) \<Rightarrow> walk finished fn cancelled (Suc n) fs a'))"

definition IterateObjects :: "(nat \<Rightarrow> bool) \<Rightarrow> string \<Rightarrow> ('a \<Rightarrow> string \<Rightarrow> string \<Rightarrow> 'a \<times> 'e option) \<Rightarrow> 'e \<Rightarrow> disk \<Rightarrow> 'a
    \<Rightarrow> 'a \<times> 'e option" where
  "IterateObjects finished pfx fn cancelled d a =
     (let start = (if pfx = [] then [] else filepath_Join [pfx]);
          files = filter (\<lambda>(p, c). prefix start p) (AList.clearjunk d)
      in walk finished fn cancelled 0 (sort_key fst files) a)"

section \<open>The interface\<close>

text \<open>
  What the package service expects of a backend, on paths of the form it uses: a successful save is
  what is opened afterwards, a failed one changes nothing, and other objects are left alone.
\<close>

locale object_storage =
  fixes save :: "string \<Rightarrow> reader \<Rightarrow> 's \<Rightarrow> 's \<times> (storage_error, nat) result"
    and get :: "'s \<Rightarrow> string \<Rightarrow> (storage_error, string) result"
    and valid_path :: "string \<Rightarrow> bool"
  assumes save_get: "valid_path p \<Longrightarrow> save p r s = (s', Inr n) \<Longrightarrow> get s' p = Inr (concat (rd_chunks r)) \<and> rd_end r = EOF"
    and save_failed: "valid_path p \<Longrightarrow> save p r s = (s', Inl e) \<Longrightarrow> get s' p = get s p"
    and save_frame: "valid_path p \<Longrightarrow> valid_path q \<Longrightarrow> q \<noteq> p \<Longrightarrow> save p r s = (s', x) \<Longrightarrow> get s' q = get s q"
begin

text \<open>Whatever a save does, an object that was there and is not the one saved keeps its bytes.\<close>

lemma save_keeps:
  assumes "valid_path p" and "valid_path q" and "save p r s = (s', x)" and "get s q = Inr c" and "q \<noteq> p \<or> concat (rd_chunks r) = c"
  shows "get s' q = Inr c"
proof (cases "q = p")
  case True
  then show ?thesis
    using save_get [OF assms(1)] save_failed [OF assms(1)] assms(3,4,5) by (cases x) auto
next
  case False
  then show ?thesis using save_frame [OF assms(1,2)] assms(3,4) by simp
qed

end

end
