(* ===== verification/Storage_Laws.thy ===== *)
theory Storage_Laws
  imports Object_Storage
begin

text \<open>
  The local storage implements a map from digests to bytes, atomically, and meets the interface
  \<open>object_storage\<close>.
\<close>

section \<open>Digest paths\<close>

definition hex_path :: "string \<Rightarrow> bool" where
  "hex_path p \<longleftrightarrow> p \<noteq> [] \<and> set p \<subseteq> set ''0123456789abcdef''"

lemma hex_path_plain:
  assumes "set s \<subseteq> set ''0123456789abcdef''" and "s \<noteq> []"
  shows "split_on CHR ''/'' s = [s]" "s \<noteq> ''.''" "s \<noteq> ''..''" "hd s \<noteq> CHR ''.''"
proof -
  have c: "CHR ''/'' \<notin> set ''0123456789abcdef''" "CHR ''.'' \<notin> set ''0123456789abcdef''" by simp_all
  then have "CHR ''/'' \<notin> set s" "CHR ''.'' \<notin> set s" using assms(1) by blast+
  then show "split_on CHR ''/'' s = [s]" "s \<noteq> ''.''" "s \<noteq> ''..''" "hd s \<noteq> CHR ''.''"
    using assms(2) by (auto simp: split_on_no_sep dest: hd_in_set)
qed

lemma buildLocalPath_hex:
  assumes "hex_path p"
  shows "buildLocalPath p = (if length p < 4 then [p] else [take 2 p, take 2 (drop 2 p), p])"
proof -
  have p: "set p \<subseteq> set ''0123456789abcdef''" "p \<noteq> []" using assms unfolding hex_path_def by blast+
  show ?thesis
  proof (cases "length p < 4")
    case True
    then show ?thesis using hex_path_plain [OF p] p(2) by (simp add: buildLocalPath_def filepath_Join_def)
  next
    case False
    let ?a = "take 2 p" and ?b = "take 2 (drop 2 p)"
    have a: "set ?a \<subseteq> set ''0123456789abcdef''" "?a \<noteq> []" using p False set_take_subset [of 2 p] by auto
    have b: "set ?b \<subseteq> set ''0123456789abcdef''" "?b \<noteq> []"
      using p(1) False set_take_subset [of 2 "drop 2 p"] set_drop_subset [of 2 p] by auto
    show ?thesis
      using False hex_path_plain [OF p] hex_path_plain [OF a] hex_path_plain [OF b] a(2) b(2) p(2)
      by (simp add: buildLocalPath_def filepath_Join_def)
  qed
qed

lemma last_buildLocalPath [simp]: "hex_path p \<Longrightarrow> last (buildLocalPath p) = p"
  by (simp add: buildLocalPath_hex)

lemma buildLocalPath_inj: "hex_path p \<Longrightarrow> hex_path q \<Longrightarrow> buildLocalPath p = buildLocalPath q \<longleftrightarrow> p = q"
  by (metis last_buildLocalPath)

lemma temp_path_not_object: "hex_path q \<Longrightarrow> temp_path dst rnd \<noteq> buildLocalPath q"
proof
  assume q: "hex_path q" and "temp_path dst rnd = buildLocalPath q"
  then have "last (temp_path dst rnd) = q" by simp
  then have "hd q = CHR ''.''" by (auto simp: temp_path_def)
  with q show False using hex_path_plain(4) [of q] by (auto simp only: hex_path_def)
qed

section \<open>The abstract store\<close>

text \<open>What the disk means: a map from digests to bytes.\<close>

definition objects :: "disk \<Rightarrow> string \<rightharpoonup> string" where
  "objects d = (\<lambda>q. if hex_path q then map_of d (buildLocalPath q) else None)"

lemma objects_cong: "(\<And>k. (\<And>r dst. k \<noteq> temp_path dst r) \<Longrightarrow> map_of d' k = map_of d k) \<Longrightarrow> objects d' = objects d"
  unfolding objects_def fun_eq_iff using temp_path_not_object by (metis (no_types))

lemma objects_temp [simp]:
  "objects (AList.update (temp_path dst rnd) c d) = objects d" "objects (AList.delete (temp_path dst rnd) d) = objects d"
  by (rule objects_cong, simp add: update_conv' delete_conv')+

lemma objects_update: "hex_path p \<Longrightarrow> objects (AList.update (buildLocalPath p) c d) = (objects d)(p \<mapsto> c)"
  by (auto simp: objects_def fun_eq_iff update_conv' buildLocalPath_inj)

lemma copy_to_objects:
  "copy_to (temp_path dst rnd) cs ok fault d n = (ds, m, failed) \<Longrightarrow> s \<in> set ds \<Longrightarrow> objects s = objects d"
proof (induction cs arbitrary: fault d n ds m failed)
  case (Cons c cs)
  then show ?case
    by (auto simp: Let_def split: if_splits prod.splits)
qed simp

lemma copy_to_content:
  "copy_to tmp cs ok fault d n = (ds, m, False) \<Longrightarrow> map_of d tmp = Some b \<Longrightarrow>
   map_of (last (d # ds)) tmp = Some (b @ concat cs) \<and> m = n + length (concat cs) \<and> ok"
proof (induction cs arbitrary: fault d n ds m b)
  case (Cons c cs)
  let ?d = "AList.update tmp (b @ c) d"
  obtain ds' where ds: "ds = ?d # ds'" and rec: "copy_to tmp cs ok (map_option (\<lambda>k. k - 1) fault) ?d (n + length c) = (ds', m, False)"
    using Cons.prems by (auto simp: Let_def split: if_splits prod.splits)
  have "map_of ?d tmp = Some (b @ c)" by (simp add: update_conv')
  from Cons.IH [OF rec this] show ?case by (simp add: ds)
qed simp

lemma copy_to_succeeds: "copy_to tmp cs True None d n = (ds, m, failed) \<Longrightarrow> \<not> failed"
  by (induction cs arbitrary: d n ds) (auto simp: Let_def split: prod.splits)

lemma Save_spec:
  assumes "hex_path p" and "Save_trace fault rnd p r d = (ds, res)"
  shows "(\<forall>s \<in> set ds. objects s = objects d
       \<or> (\<exists>n. res = Inr n) \<and> objects s = (objects d)(p \<mapsto> concat (rd_chunks r)))
    \<and> ds \<noteq> [] \<and> objects (last ds) = (case res of Inr n \<Rightarrow> (objects d)(p \<mapsto> concat (rd_chunks r)) | Inl e \<Rightarrow> objects d)
    \<and> (\<forall>n. res = Inr n \<longrightarrow> n = length (concat (rd_chunks r)) \<and> rd_end r = EOF)
    \<and> (fault = None \<and> rd_end r = EOF \<longrightarrow> res = Inr (length (concat (rd_chunks r))))"
proof -
  let ?dst = "buildLocalPath p"
  let ?tmp = "temp_path ?dst rnd"
  let ?d1 = "AList.update ?tmp [] d"
  obtain cs n failed where copy: "copy_to ?tmp (rd_chunks r) (rd_end r = EOF)
      (case fault of Some (WriteFault k) \<Rightarrow> Some k | _ \<Rightarrow> None) ?d1 0 = (cs, n, failed)"
    by (metis prod.exhaust)
  have inner: "objects s = objects d" if "s \<in> set (?d1 # cs)" for s
    using that copy_to_objects [OF copy] by auto
  define d2 where "d2 = last (?d1 # cs)"
  have d2: "objects d2 = objects d" unfolding d2_def by (rule inner) (rule last_in_set, simp)
  have trace: "Save_trace fault rnd p r d =
      (if fault = Some MkdirFault then ([d], Inl (StorageFailure ''mkdir object dir''))
       else if fault = Some CreateFault then ([d], Inl (StorageFailure ''create temp object''))
       else if failed then (d # ?d1 # cs @ [AList.delete ?tmp d2], Inl (StorageFailure ''write object''))
       else if fault = Some CloseFault then (d # ?d1 # cs @ [AList.delete ?tmp d2], Inl (StorageFailure ''close object''))
       else if fault = Some RenameFault then (d # ?d1 # cs @ [AList.delete ?tmp d2], Inl (StorageFailure ''rename object''))
       else (let moved = AList.update ?dst (case map_of d2 ?tmp of None \<Rightarrow> [] | Some b \<Rightarrow> b) (AList.delete ?tmp d2) in
             (d # ?d1 # cs @ [moved, AList.delete ?tmp moved], Inr n)))"
    unfolding Save_trace_def Let_def copy d2_def by simp
  consider "fault = Some MkdirFault \<or> fault = Some CreateFault"
    | "fault \<noteq> Some MkdirFault" "fault \<noteq> Some CreateFault" "failed \<or> fault = Some CloseFault \<or> fault = Some RenameFault"
    | "fault \<noteq> Some MkdirFault" "fault \<noteq> Some CreateFault" "\<not> failed" "fault \<noteq> Some CloseFault" "fault \<noteq> Some RenameFault"
    by blast
  then show ?thesis
  proof cases
    case 1
    then show ?thesis using assms(2) by (auto simp: Save_trace_def Let_def)
  next
    case 2
    then have "ds = d # ?d1 # cs @ [AList.delete ?tmp d2]" "\<exists>e. res = Inl e"
      using assms(2) by (auto simp: trace split: if_splits)
    moreover have "\<not> (fault = None \<and> rd_end r = EOF)"
    proof
      assume "fault = None \<and> rd_end r = EOF"
      then show False using copy_to_succeeds [of ?tmp "rd_chunks r" ?d1 0 cs n failed] copy 2(3) by simp
    qed
    ultimately show ?thesis using inner d2 by auto
  next
    case 3
    have c: "map_of d2 ?tmp = Some (concat (rd_chunks r))" "n = length (concat (rd_chunks r))" "rd_end r = EOF"
    proof -
      from copy 3(3) have "copy_to ?tmp (rd_chunks r) (rd_end r = EOF)
          (case fault of Some (WriteFault k) \<Rightarrow> Some k | _ \<Rightarrow> None) ?d1 0 = (cs, n, False)" by simp
      moreover have "map_of ?d1 ?tmp = Some []" by (simp add: update_conv')
      ultimately have *: "map_of d2 ?tmp = Some ([] @ concat (rd_chunks r)) \<and> n = 0 + length (concat (rd_chunks r)) \<and> rd_end r = EOF"
        unfolding d2_def by (rule copy_to_content)
      then show "map_of d2 ?tmp = Some (concat (rd_chunks r))" "n = length (concat (rd_chunks r))" "rd_end r = EOF"
        by simp_all
    qed
    let ?moved = "AList.update ?dst (concat (rd_chunks r)) (AList.delete ?tmp d2)"
    have "ds = d # ?d1 # cs @ [?moved, AList.delete ?tmp ?moved]" "res = Inr n"
      using assms(2) 3 by (auto simp: trace Let_def c(1))
    moreover have "objects ?moved = (objects d)(p \<mapsto> concat (rd_chunks r))"
      unfolding objects_update [OF assms(1)] by (simp add: d2)
    ultimately show ?thesis using inner c(2,3) by auto
  qed
qed


text \<open>
C11: Saving an object is atomic and implements assignment in a map from digests to bytes. In every state
  the disk goes through - which is what a concurrent reader sees, and what a crash leaves behind -
  the map is the old one or, once the save is bound to succeed, the new one. The result says which of
  the two is left at the end; without a fault of the system or of the reader it is the new one.
\<close>

theorem Save_refines:
  assumes "hex_path p" and "Save_trace fault rnd p r d = (ds, res)"
  shows "(\<forall>s \<in> set ds. objects s = objects d
       \<or> (\<exists>n. res = Inr n) \<and> objects s = (objects d)(p \<mapsto> concat (rd_chunks r)))
    \<and> ds \<noteq> [] \<and> objects (last ds) = (case res of Inr n \<Rightarrow> (objects d)(p \<mapsto> concat (rd_chunks r)) | Inl e \<Rightarrow> objects d)
    \<and> (\<forall>n. res = Inr n \<longrightarrow> n = length (concat (rd_chunks r)) \<and> rd_end r = EOF)
    \<and> (fault = None \<and> rd_end r = EOF \<longrightarrow> res = Inr (length (concat (rd_chunks r))))"
  by (rule Save_spec [OF assms])

theorem Save_refines_witness:
  "objects (fst (local_Save None ''1'' ''c0ffee'' \<lparr>rd_chunks = [''hel'', ''lo''], rd_end = EOF, rd_eager = False\<rparr> [])) =
     [''c0ffee'' \<mapsto> ''hello'']"
proof -
  let ?r = "\<lparr>rd_chunks = [''hel'', ''lo''], rd_end = EOF, rd_eager = False\<rparr>"
  obtain ds res where t: "Save_trace None ''1'' ''c0ffee'' ?r [] = (ds, res)" by (metis prod.exhaust)
  have "hex_path ''c0ffee''" by (simp add: hex_path_def)
  note S = Save_refines [OF this t]
  have "res = Inr 5" using S [THEN conjunct2, THEN conjunct2, THEN conjunct2, THEN conjunct2] by simp
  with S [THEN conjunct2, THEN conjunct2, THEN conjunct1]
  have "objects (last ds) = (objects [])(''c0ffee'' \<mapsto> ''hello'')" by simp
  moreover have "objects [] = Map.empty" by (simp add: objects_def fun_eq_iff)
  ultimately show ?thesis by (simp add: local_Save_def t)
qed

text \<open>The other operations on the map, and the interface the package service uses.\<close>

lemma local_Open_objects: "hex_path q \<Longrightarrow> local_Open d q = (case objects d q of None \<Rightarrow> Inl ErrObjectNotFound | Some c \<Rightarrow> Inr c)"
  by (simp add: local_Open_def objects_def)

lemma local_Delete_objects: "hex_path p \<Longrightarrow> objects (local_Delete p d) = (objects d)(p := None)"
  by (auto simp: local_Delete_def objects_def fun_eq_iff delete_conv' buildLocalPath_inj)

lemma local_Save_objects:
  assumes "hex_path p" and "local_Save fault rnd p r d = (d', res)"
  shows "objects d' = (case res of Inr n \<Rightarrow> (objects d)(p \<mapsto> concat (rd_chunks r)) | Inl e \<Rightarrow> objects d)"
    and "\<And>n. res = Inr n \<Longrightarrow> rd_end r = EOF"
  using Save_spec [OF assms(1), of fault rnd r d] assms(2)
  by (auto simp: local_Save_def split: prod.splits)

interpretation local: object_storage "local_Save fault rnd" local_Open hex_path for fault rnd
proof unfold_locales
  fix p r s s' n
  assume "hex_path p" "local_Save fault rnd p r s = (s', Inr n)"
  from local_Save_objects [OF this] \<open>hex_path p\<close> show "local_Open s' p = Inr (concat (rd_chunks r)) \<and> rd_end r = EOF"
    by (simp add: local_Open_objects)
next
  fix p r s s' e
  assume "hex_path p" "local_Save fault rnd p r s = (s', Inl e)"
  from local_Save_objects(1) [OF this] \<open>hex_path p\<close> show "local_Open s' p = local_Open s p"
    by (simp add: local_Open_objects)
next
  fix p q r s s' x
  assume "hex_path p" "hex_path q" "q \<noteq> p" "local_Save fault rnd p r s = (s', x)"
  from local_Save_objects(1) [OF this(1,4)] this show "local_Open s' q = local_Open s q"
    by (simp add: local_Open_objects split: sum.splits)
qed

end
