(* ===== verification/Package_Service.thy ===== *)
theory Package_Service
  imports Storage_Laws Catalog Accounts
begin

text \<open>
  The ingest service (\<open>internal/packages/service.go\<close>): the hashed upload buffer, the two operations
  that record an uploaded file, and the way back from a file row to its bytes.

  The service works on the database and an object store, \<open>save\<close> and \<open>get\<close>; MD5, SHA-1 and SHA-512
  are parameters, recorded but never looked up. A Go error wrapped with \<open>%w\<close> is its cause.
\<close>

section \<open>Upload buffers\<close>

record hashed_buffer =
  hb_bytes :: string

record digests =
  dg_md5 :: "string \<Rightarrow> string"
  dg_sha1 :: "string \<Rightarrow> string"
  dg_sha512 :: "string \<Rightarrow> string"

text \<open>\<open>None\<close>: the reader failed, and the temporary file is gone.\<close>

definition NewHashedBufferInDir :: "reader \<Rightarrow> hashed_buffer option" where
  "NewHashedBufferInDir r =
     (if rd_end r = EOF then Some \<lparr>hb_bytes = concat (rd_chunks r)\<rparr> else None)"

definition hb_Size :: "hashed_buffer \<Rightarrow> int" where
  "hb_Size b = int (length (hb_bytes b))"

definition Sums :: "digests \<Rightarrow> hashed_buffer \<Rightarrow> string \<times> string \<times> string \<times> string" where
  "Sums dg b =
     (hex_encode (dg_md5 dg (hb_bytes b)), hex_encode (dg_sha1 dg (hb_bytes b)),
      hex_encode (sha256 (hb_bytes b)), hex_encode (dg_sha512 dg (hb_bytes b)))"

text \<open>The buffer rewound, as a reader.\<close>

definition hb_reader :: "hashed_buffer \<Rightarrow> reader" where
  "hb_reader b = \<lparr>rd_chunks = [hb_bytes b], rd_end = EOF, rd_eager = False\<rparr>"

section \<open>Ingest\<close>

record creation_info =
  ci_TenantID :: int
  ci_PackageType :: string
  ci_PackageName :: string
  ci_PackageLookupName :: string
  ci_Version :: string
  ci_VersionProperties :: "(string \<times> string) list"
  ci_VersionMetadataJSON :: string
  ci_Filename :: string
  ci_IsLead :: bool
  ci_CreatedVia :: string

datatype service_error = TenantRequired | ModelError go_error | StoreError storage_error | BlobMissing

definition ci_getOrCreatePackage :: "int \<Rightarrow> int \<Rightarrow> creation_info \<Rightarrow> db \<Rightarrow> db \<times> (go_error, package) result" where
  "ci_getOrCreatePackage lr now info d =
     (let via = (if ci_CreatedVia info = [] then CreatedViaUploaded else ci_CreatedVia info) in
      if ci_PackageLookupName info \<noteq> [] then
        GetOrCreatePackageWithLookup lr now (ci_TenantID info) (ci_PackageType info) (ci_PackageName info)
          (ci_PackageLookupName info) via d
      else GetOrCreatePackage lr now (ci_TenantID info) (ci_PackageType info) (ci_PackageName info) via d)"

definition set_properties :: "int \<Rightarrow> (string \<times> string) list \<Rightarrow> db \<Rightarrow> db" where
  "set_properties vid kvs d = fold (\<lambda>(k, v). SetProperty PropertyRefVersion vid k v) kvs d"

text \<open>
  The part both operations share: properties, bytes, blob row, file row. \<open>lr\<close> is what
  \<open>LastInsertId\<close> would return after an insert that did nothing (see \<open>insert_package\<close>).
\<close>

definition store_file :: "(string \<Rightarrow> reader \<Rightarrow> 's \<Rightarrow> 's \<times> (storage_error, nat) result) \<Rightarrow> digests \<Rightarrow> int \<Rightarrow> int
    \<Rightarrow> creation_info \<Rightarrow> hashed_buffer \<Rightarrow> pkg_version \<Rightarrow> db \<Rightarrow> 's \<Rightarrow> db \<times> 's \<times> (service_error, pkg_file) result" where
  "store_file save dg lr now info b ver d s =
     (let d1 = set_properties (ver_ID ver) (ci_VersionProperties info) d in
      case Sums dg b of (md5Hex, sha1Hex, sha256Hex, sha512Hex) \<Rightarrow>
        (case save sha256Hex (hb_reader b) s of
           (s1, Inl e) \<Rightarrow> (d1, s1, Inl (StoreError e))
         | (s1, Inr _) \<Rightarrow>
             (case GetOrCreateBlob lr now \<lparr>blob_ID = 0, blob_Size = hb_Size b, blob_HashMD5 = md5Hex,
                  blob_HashSHA1 = sha1Hex, blob_HashSHA256 = sha256Hex, blob_HashSHA512 = sha512Hex,
                  blob_CreatedUnix = 0\<rparr> d1 of
                (d2, Inl e) \<Rightarrow> (d2, s1, Inl (ModelError e))
              | (d2, Inr bl) \<Rightarrow>
                  (case CreateFile now \<lparr>file_ID = 0, file_VersionID = ver_ID ver, file_BlobID = blob_ID bl,
                       file_Name = ci_Filename info, file_LowerName = [], file_IsLead = ci_IsLead info,
                       file_CreatedUnix = 0\<rparr> d2 of
                     (d3, Inl e) \<Rightarrow> (d3, s1, Inl (ModelError e))
                   | (d3, Inr f) \<Rightarrow> (d3, s1, Inr f)))))"

text \<open>The results carry what the Go functions return next to an error: package, version, file.\<close>

type_synonym ingest_result = "package option \<times> pkg_version option \<times> (service_error, pkg_file) result"

definition CreatePackageAndAddFile :: "(string \<Rightarrow> reader \<Rightarrow> 's \<Rightarrow> 's \<times> (storage_error, nat) result) \<Rightarrow> digests \<Rightarrow> int
    \<Rightarrow> int \<Rightarrow> creation_info \<Rightarrow> hashed_buffer \<Rightarrow> db \<Rightarrow> 's \<Rightarrow> db \<times> 's \<times> ingest_result" where
  "CreatePackageAndAddFile save dg lr now info b d s =
     (if ci_TenantID info = 0 then (d, s, None, None, Inl TenantRequired)
      else (case ci_getOrCreatePackage lr now info d of
          (d1, Inl e) \<Rightarrow> (d1, s, None, None, Inl (ModelError e))
        | (d1, Inr pkg) \<Rightarrow>
            (case CreateVersion now (pkg_ID pkg) (ci_Version info) (ci_VersionMetadataJSON info) d1 of
               (d2, Inl e) \<Rightarrow> (d2, s, Some pkg, None, Inl (ModelError e))
             | (d2, Inr ver) \<Rightarrow>
                 (case store_file save dg lr now info b ver d2 s of
                    (d3, s1, r) \<Rightarrow> (d3, s1, Some pkg, Some ver, r)))))"

definition CreatePackageOrAddFileToExisting :: "(string \<Rightarrow> reader \<Rightarrow> 's \<Rightarrow> 's \<times> (storage_error, nat) result) \<Rightarrow> digests \<Rightarrow> int
    \<Rightarrow> int \<Rightarrow> creation_info \<Rightarrow> hashed_buffer \<Rightarrow> db \<Rightarrow> 's \<Rightarrow> db \<times> 's \<times> ingest_result" where
  "CreatePackageOrAddFileToExisting save dg lr now info b d s =
     (if ci_TenantID info = 0 then (d, s, None, None, Inl TenantRequired)
      else (case ci_getOrCreatePackage lr now info d of
          (d1, Inl e) \<Rightarrow> (d1, s, None, None, Inl (ModelError e))
        | (d1, Inr pkg) \<Rightarrow>
            (case (case GetVersion d1 (pkg_ID pkg) (ci_Version info) of
                     Inr v \<Rightarrow> (d1, Inr v)
                   | Inl e \<Rightarrow>
                       (if e \<noteq> ErrVersionNotExist then (d1, Inl e)
                        else (case CreateVersion now (pkg_ID pkg) (ci_Version info) (ci_VersionMetadataJSON info) d1 of
                            (d2, Inr v) \<Rightarrow> (d2, Inr v)
                          | (d2, Inl e') \<Rightarrow>
                              (if e' \<noteq> ErrDuplicatePackageVersion then (d2, Inl e')
                               else (d2, GetVersion d2 (pkg_ID pkg) (ci_Version info)))))) of
               (d2, Inl e) \<Rightarrow> (d2, s, Some pkg, None, Inl (ModelError e))
             | (d2, Inr ver) \<Rightarrow>
                 (case store_file save dg lr now info b ver d2 s of
                    (d3, s1, r) \<Rightarrow> (d3, s1, Some pkg, Some ver, r)))))"

section \<open>Serving\<close>

definition openBlob :: "db \<Rightarrow> int \<Rightarrow> (service_error, blob) result" where
  "openBlob d i =
     (case select_one (\<lambda>b. blob_ID b = i) (db_blobs d) of
        None \<Rightarrow> Inl (ModelError ErrBlobNotExist)
      | Some b \<Rightarrow> Inr b)"

definition OpenFile :: "('s \<Rightarrow> string \<Rightarrow> (storage_error, string) result) \<Rightarrow> db \<Rightarrow> 's \<Rightarrow> pkg_file
    \<Rightarrow> (service_error, string \<times> blob) result" where
  "OpenFile get d s f =
     bind_result (openBlob d (file_BlobID f))
       (\<lambda>bl. case get s (blob_HashSHA256 bl) of
          Inl e \<Rightarrow> Inl (if e = ErrObjectNotFound then BlobMissing else StoreError e)
        | Inr c \<Rightarrow> Inr (c, bl))"

end
