(* ===== verification/Service_Laws.thy ===== *)
theory Service_Laws
  imports Package_Service Catalog_Steps
begin

text \<open>
  What the ingest service guarantees over any object store that meets the interface, and over the
  local storage in particular: every recorded file can be served with the recorded digest.
\<close>

section \<open>What the parts do to the catalogue\<close>

lemma set_properties_ok: "catalog_ok d \<Longrightarrow> catalog_ok (set_properties vid kvs d)"
  by (induction kvs arbitrary: d) (auto simp: set_properties_def intro: SetProperty_ok)

lemma SetProperty_tables [simp]:
  "db_blobs (SetProperty rt ri n v d) = db_blobs d" "db_files (SetProperty rt ri n v d) = db_files d"
  "db_versions (SetProperty rt ri n v d) = db_versions d" "db_packages (SetProperty rt ri n v d) = db_packages d"
  by (simp_all add: SetProperty_def Let_def insert_row_def)

lemma set_properties_tables [simp]:
  "db_blobs (set_properties vid kvs d) = db_blobs d" "db_files (set_properties vid kvs d) = db_files d"
  "db_versions (set_properties vid kvs d) = db_versions d" "db_packages (set_properties vid kvs d) = db_packages d"
  by (induction kvs arbitrary: d) (auto simp: set_properties_def)

lemma ci_getOrCreatePackage_ok: "catalog_ok d \<Longrightarrow> catalog_ok (fst (ci_getOrCreatePackage lr now info d))"
  by (simp add: ci_getOrCreatePackage_def Let_def GetOrCreatePackage_def GetOrCreatePackageWithLookup_ok)

lemma ci_getOrCreatePackage_blobs: "db_blobs (fst (ci_getOrCreatePackage lr now info d)) = db_blobs d"
  by (auto simp: ci_getOrCreatePackage_def Let_def GetOrCreatePackage_def GetOrCreatePackageWithLookup_def
      insert_package_def split: sum.split option.split)

lemma CreateVersion_blobs: "db_blobs (fst (CreateVersion now pid ver meta d)) = db_blobs d"
  by (auto simp: CreateVersion_def Let_def split: option.split)

lemma CreateFile_blobs: "db_blobs (fst (CreateFile now f d)) = db_blobs d"
  by (auto simp: CreateFile_def Let_def split: option.split)

lemma CreateFile_success:
  assumes "CreateFile now g d = (d', Inr f)"
  shows "f \<in> set (rows (db_files d'))" "\<exists>i. f = mk_file (g, now) i"
proof -
  obtain q tb where ins: "insert_unique file_key (mk_file (g, now)) (db_files d) = Some (q, tb)"
    "f = q" "d' = d\<lparr>db_files := tb\<rparr>"
    using assms by (auto simp: CreateFile_def split: option.splits if_splits)
  from file_rows.insert_SomeD(1,2) [OF ins(1)] ins(2,3)
  show "f \<in> set (rows (db_files d'))" "\<exists>i. f = mk_file (g, now) i" by auto
qed

lemma GetOrCreateBlob_cases:
  assumes "catalog_ok d" and "GetOrCreateBlob lr now b d = (d', r)"
  shows "set (rows (db_blobs d')) \<subseteq> set (rows (db_blobs d)) \<union> {q. blob_HashSHA256 q = blob_HashSHA256 b}"
    and "\<exists>q. r = Inr q \<and> q \<in> set (rows (db_blobs d')) \<and> blob_HashSHA256 q = blob_HashSHA256 b"
proof -
  have "set (rows (db_blobs d')) \<subseteq> set (rows (db_blobs d)) \<union> {q. blob_HashSHA256 q = blob_HashSHA256 b}
    \<and> (\<exists>q. r = Inr q \<and> q \<in> set (rows (db_blobs d')) \<and> blob_HashSHA256 q = blob_HashSHA256 b)"
  proof (cases "GetBlobBySHA256 d (blob_HashSHA256 b)")
    case (Inr q)
    then have "d' = d" "r = Inr q" using assms(2) by (simp_all add: GetOrCreateBlob_def)
    moreover have "q \<in> set (rows (db_blobs d)) \<and> blob_HashSHA256 q = blob_HashSHA256 b"
      using Inr by (simp add: GetBlobBySHA256_iff [OF catalog_okD(3) [OF assms(1)]])
    ultimately show ?thesis by simp
  next
    case (Inl e)
    then have none: "e = ErrBlobNotExist" "\<forall>q \<in> set (rows (db_blobs d)). blob_HashSHA256 q \<noteq> blob_HashSHA256 b"
      by (simp_all add: GetBlobBySHA256_None)
    let ?mk = "mk_blob (b\<lparr>blob_CreatedUnix := now\<rparr>)"
    have "insert_unique blob_HashSHA256 ?mk (db_blobs d) \<noteq> None"
      using none(2) by (simp add: blob_rows.insert_None_iff) (simp add: mk_blob_def)
    then obtain q tb where ins: "insert_unique blob_HashSHA256 ?mk (db_blobs d) = Some (q, tb)" by auto
    from blob_rows.insert_SomeD(1,2) [OF ins] have "rows tb = rows (db_blobs d) @ [q]" "blob_HashSHA256 q = blob_HashSHA256 b"
      by (simp_all add: mk_blob_def)
    moreover have "d' = d\<lparr>db_blobs := tb\<rparr>" "r = Inr q"
      using assms(2) Inl none(1) ins by (auto simp: GetOrCreateBlob_def Let_def)
    ultimately show ?thesis by auto
  qed
  then show "set (rows (db_blobs d')) \<subseteq> set (rows (db_blobs d)) \<union> {q. blob_HashSHA256 q = blob_HashSHA256 b}"
    "\<exists>q. r = Inr q \<and> q \<in> set (rows (db_blobs d')) \<and> blob_HashSHA256 q = blob_HashSHA256 b" by blast+
qed

section \<open>The service over any store\<close>

text \<open>A store for the paths the service uses: the hexadecimal SHA-256 of the bytes.\<close>

locale digest_storage = object_storage save get valid_path
  for save :: "string \<Rightarrow> reader \<Rightarrow> 's \<Rightarrow> 's \<times> (storage_error, nat) result"
    and get :: "'s \<Rightarrow> string \<Rightarrow> (storage_error, string) result" and valid_path :: "string \<Rightarrow> bool" +
  assumes digest_valid: "valid_path (hex_encode (sha256 c))"
begin

definition stored :: "'s \<Rightarrow> string \<Rightarrow> bool" where
  "stored s h \<longleftrightarrow> (\<exists>c. get s h = Inr c \<and> hex_encode (sha256 c) = h)"

definition service_ok :: "db \<Rightarrow> 's \<Rightarrow> bool" where
  "service_ok d s \<longleftrightarrow> catalog_ok d \<and> (\<forall>b \<in> set (rows (db_blobs d)). stored s (blob_HashSHA256 b))"

lemma stored_save:
  assumes "stored s h" and "save (hex_encode (sha256 (hb_bytes b))) (hb_reader b) s = (s', x)"
  shows "stored s' h"
proof -
  let ?p = "hex_encode (sha256 (hb_bytes b))"
  obtain c where c: "get s h = Inr c" "hex_encode (sha256 c) = h" using assms(1) by (auto simp: stored_def)
  have v: "valid_path ?p" "valid_path h" using digest_valid [of "hb_bytes b"] digest_valid [of c] c(2) by simp_all
  show ?thesis
  proof (cases "h = ?p")
    case False
    then show ?thesis using save_frame [OF v _ assms(2)] c by (auto simp: stored_def)
  next
    case True
    then show ?thesis
      using save_get [OF v(1)] save_failed [OF v(1)] assms(2) c
      by (cases x) (auto simp: stored_def hb_reader_def)
  qed
qed

lemma store_file_ok:
  assumes "service_ok d s" and "store_file save dg lr now info b ver d s = (d', s', r)"
  shows "service_ok d' s'"
    and "r = Inr f \<Longrightarrow> f \<in> set (rows (db_files d')) \<and> file_VersionID f = ver_ID ver \<and> file_Name f = ci_Filename info
       \<and> (\<exists>bl. OpenFile get d' s' f = Inr (hb_bytes b, bl))"
proof -
  let ?p = "hex_encode (sha256 (hb_bytes b))"
  let ?d1 = "set_properties (ver_ID ver) (ci_VersionProperties info) d"
  let ?bl = "\<lparr>blob_ID = 0, blob_Size = hb_Size b, blob_HashMD5 = hex_encode (dg_md5 dg (hb_bytes b)),
     blob_HashSHA1 = hex_encode (dg_sha1 dg (hb_bytes b)), blob_HashSHA256 = ?p,
     blob_HashSHA512 = hex_encode (dg_sha512 dg (hb_bytes b)), blob_CreatedUnix = 0\<rparr>"
  have d1: "catalog_ok ?d1" using assms(1) by (simp add: service_ok_def set_properties_ok)
  have old: "\<forall>q \<in> set (rows (db_blobs d)). stored s (blob_HashSHA256 q)" using assms(1) by (simp add: service_ok_def)
  obtain s1 x where sv: "save ?p (hb_reader b) s = (s1, x)" by (cases "save ?p (hb_reader b) s")
  have kept: "\<forall>q \<in> set (rows (db_blobs d)). stored s1 (blob_HashSHA256 q)" using old stored_save [OF _ sv] by blast
  have "service_ok d' s' \<and> (r = Inr f \<longrightarrow> f \<in> set (rows (db_files d')) \<and> file_VersionID f = ver_ID ver
      \<and> file_Name f = ci_Filename info \<and> (\<exists>bl. OpenFile get d' s' f = Inr (hb_bytes b, bl)))"
  proof (cases x)
    case (Inl e)
    then have "d' = ?d1" "s' = s1" "r = Inl (StoreError e)"
      using assms(2) sv by (simp_all add: store_file_def Let_def Sums_def)
    then show ?thesis using d1 kept by (simp add: service_ok_def)
  next
    case (Inr n)
    then have got: "get s1 ?p = Inr (hb_bytes b)"
      using save_get [OF digest_valid] sv by (simp add: hb_reader_def)
    then have st: "stored s1 ?p" by (simp add: stored_def)
    obtain d2 y where gb: "GetOrCreateBlob lr now ?bl ?d1 = (d2, y)" by (cases "GetOrCreateBlob lr now ?bl ?d1")
    obtain bl where bl: "y = Inr bl" "bl \<in> set (rows (db_blobs d2))" "blob_HashSHA256 bl = ?p"
      using GetOrCreateBlob_cases(2) [OF d1 gb] by auto
    have d2: "catalog_ok d2" using GetOrCreateBlob_ok [OF d1, of lr now ?bl] gb by simp
    have all2: "\<forall>q \<in> set (rows (db_blobs d2)). stored s1 (blob_HashSHA256 q)"
      using GetOrCreateBlob_cases(1) [OF d1 gb] kept st by auto
    let ?f = "\<lparr>file_ID = 0, file_VersionID = ver_ID ver, file_BlobID = blob_ID bl, file_Name = ci_Filename info,
        file_LowerName = [], file_IsLead = ci_IsLead info, file_CreatedUnix = 0\<rparr>"
    obtain d3 z where cf: "CreateFile now ?f d2 = (d3, z)" by (cases "CreateFile now ?f d2")
    have d3: "catalog_ok d3" "db_blobs d3 = db_blobs d2"
      using CreateFile_ok [OF d2, of now ?f] CreateFile_blobs [of now ?f d2] cf by simp_all
    have out: "d' = d3" "s' = s1" "r = (case z of Inl e \<Rightarrow> Inl (ModelError e) | Inr f \<Rightarrow> Inr f)"
      using assms(2) sv Inr gb bl(1) cf by (auto simp: store_file_def Let_def Sums_def split: sum.splits)
    have "f \<in> set (rows (db_files d3)) \<and> file_VersionID f = ver_ID ver \<and> file_Name f = ci_Filename info \<and> file_BlobID f = blob_ID bl"
      if "z = Inr f"
      using CreateFile_success [of now ?f d2 d3 f] cf that by (auto simp: mk_file_def)
    moreover have "openBlob d3 (blob_ID bl) = Inr bl"
      using table_ok_select_id [OF catalog_okD(3) [OF d3(1)], of bl] bl(2) d3(2) by (simp add: openBlob_def)
    ultimately show ?thesis
      using out d3 all2 got bl(3) by (auto simp: service_ok_def OpenFile_def split: sum.splits)
  qed
  then show "service_ok d' s'"
    "r = Inr f \<Longrightarrow> f \<in> set (rows (db_files d')) \<and> file_VersionID f = ver_ID ver \<and> file_Name f = ci_Filename info
       \<and> (\<exists>bl. OpenFile get d' s' f = Inr (hb_bytes b, bl))" by blast+
qed


lemma ingest_ok:
  assumes "service_ok d s"
    and "CreatePackageAndAddFile save dg lr now info b d s = (d', s', p, v, r)
       \<or> CreatePackageOrAddFileToExisting save dg lr now info b d s = (d', s', p, v, r)"
  shows "service_ok d' s'"
    and "r = Inr f \<Longrightarrow> \<exists>ver. v = Some ver \<and> f \<in> set (rows (db_files d')) \<and> file_VersionID f = ver_ID ver
       \<and> file_Name f = ci_Filename info \<and> (\<exists>bl. OpenFile get d' s' f = Inr (hb_bytes b, bl))"
proof -
  obtain d1 x where pk: "ci_getOrCreatePackage lr now info d = (d1, x)" by (cases "ci_getOrCreatePackage lr now info d")
  have ok1: "service_ok d1 s"
    using assms(1) ci_getOrCreatePackage_ok [of d lr now info] ci_getOrCreatePackage_blobs [of lr now info d] pk
    by (simp add: service_ok_def)
  have version: "service_ok (fst (CreateVersion now pid ver meta d1)) s" for pid ver meta
    using ok1 CreateVersion_ok [of d1 now pid ver meta] by (simp add: service_ok_def CreateVersion_blobs)
  have cases: "(service_ok d' s \<and> s' = s \<and> (\<exists>e. r = Inl e))
      \<or> (\<exists>d2 ver. service_ok d2 s \<and> v = Some ver \<and> store_file save dg lr now info b ver d2 s = (d', s', r))"
    using assms(2)
  proof
    assume *: "CreatePackageAndAddFile save dg lr now info b d s = (d', s', p, v, r)"
    show ?thesis
    proof (cases x)
      case (Inl e)
      then show ?thesis using * ok1 assms(1) pk by (auto simp: CreatePackageAndAddFile_def split: if_splits)
    next
      case (Inr pkg)
      then show ?thesis
        using * assms(1) pk version [of "pkg_ID pkg" "ci_Version info" "ci_VersionMetadataJSON info"]
        by (auto simp: CreatePackageAndAddFile_def split: if_splits prod.splits sum.splits)
    qed
  next
    assume *: "CreatePackageOrAddFileToExisting save dg lr now info b d s = (d', s', p, v, r)"
    show ?thesis
    proof (cases x)
      case (Inl e)
      then show ?thesis using * ok1 assms(1) pk by (auto simp: CreatePackageOrAddFileToExisting_def split: if_splits)
    next
      case (Inr pkg)
      then show ?thesis
        using * assms(1) ok1 pk version [of "pkg_ID pkg" "ci_Version info" "ci_VersionMetadataJSON info"]
        by (auto simp: CreatePackageOrAddFileToExisting_def split: if_splits prod.splits sum.splits)
    qed
  qed
  then show "service_ok d' s'" using store_file_ok(1) by blast
  assume "r = Inr f"
  with cases obtain d2 ver where "service_ok d2 s" "v = Some ver" "store_file save dg lr now info b ver d2 s = (d', s', Inr f)"
    by auto
  with store_file_ok(2) [of d2 s dg lr now info b ver d' s' "Inr f" f]
  show "\<exists>ver. v = Some ver \<and> f \<in> set (rows (db_files d')) \<and> file_VersionID f = ver_ID ver
       \<and> file_Name f = ci_Filename info \<and> (\<exists>bl. OpenFile get d' s' f = Inr (hb_bytes b, bl))" by simp
qed

lemma service_ok_opens:
  assumes "service_ok d s" and "f \<in> set (rows (db_files d))"
  shows "\<exists>c bl. OpenFile get d s f = Inr (c, bl) \<and> hex_encode (sha256 c) = blob_HashSHA256 bl"
proof -
  have "catalog_ok d" using assms(1) by (simp add: service_ok_def)
  then obtain bl where bl: "bl \<in> set (rows (db_blobs d))" "blob_ID bl = file_BlobID f"
    using assms(2) by (auto simp: catalog_ok_def blob_exists_def)
  then have "openBlob d (file_BlobID f) = Inr bl"
    using table_ok_select_id [OF catalog_okD(3) [OF \<open>catalog_ok d\<close>] bl(1)] by (simp add: openBlob_def)
  moreover obtain c where "get s (blob_HashSHA256 bl) = Inr c" "hex_encode (sha256 c) = blob_HashSHA256 bl"
    using assms(1) bl(1) by (auto simp: service_ok_def stored_def)
  ultimately show ?thesis by (auto simp: OpenFile_def)
qed

end


section \<open>The service on the local storage\<close>

lemma hex_path_hex_encode: "s \<noteq> [] \<Longrightarrow> hex_path (hex_encode s)"
proof -
  have digit: "hex_digit n \<in> set ''0123456789abcdef''" if "n < 16" for n
    using that unfolding hex_digit_def by (intro nth_mem) simp
  have "set (hex_encode s) \<subseteq> set ''0123456789abcdef''"
  proof
    fix c assume "c \<in> set (hex_encode s)"
    then obtain x :: char where "c = hex_digit (of_char x div 16) \<or> c = hex_digit (of_char x mod 16)"
      by (auto simp: hex_encode_def)
    moreover have "of_char x div 16 < (16 :: nat)" "of_char x mod 16 < (16 :: nat)"
      using of_char_256 [of x] by (simp_all add: div_less_iff_less_mult)
    ultimately show "c \<in> set ''0123456789abcdef''" using digit by metis
  qed
  moreover assume "s \<noteq> []"
  then have "hex_encode s \<noteq> []" by (metis length_0_conv length_hex_encode mult_eq_0_iff zero_neq_numeral)
  ultimately show ?thesis unfolding hex_path_def by blast
qed


interpretation local: digest_storage "local_Save fault rnd" local_Open hex_path for fault rnd
proof unfold_locales
  fix c :: string
  have "sha256 c \<noteq> []" by (metis length_sha256 list.size(3) zero_neq_numeral)
  then show "hex_path (hex_encode (sha256 c))" by (rule hex_path_hex_encode)
qed

text \<open>
  The service at work: uploads of both kinds, with whatever faults the file system has, and every
  change of the catalogue that adds no blob of its own.
\<close>

inductive service_step :: "db \<times> disk \<Rightarrow> db \<times> disk \<Rightarrow> bool" where
  upload_new: "CreatePackageAndAddFile (local_Save fault rnd) dg lr now info b d s = (d', s', res) \<Longrightarrow>
    service_step (d, s) (d', s')"
| upload_more: "CreatePackageOrAddFileToExisting (local_Save fault rnd) dg lr now info b d s = (d', s', res) \<Longrightarrow>
    service_step (d, s) (d', s')"
| catalogue: "store_step d d' \<Longrightarrow> db_blobs d' = db_blobs d \<Longrightarrow> service_step (d, s) (d', s)"

lemma service_step_ok:
  "service_step ds ds' \<Longrightarrow> local.service_ok (fst ds) (snd ds) \<Longrightarrow> local.service_ok (fst ds') (snd ds')"
proof (induction rule: service_step.induct)
  case (upload_new fault rnd dg lr now info b d s d' s' res)
  obtain p v r where res: "res = (p, v, r)" by (cases res)
  from upload_new(2) have "local.service_ok d s" by simp
  from local.ingest_ok(1) [OF this disjI1 [OF upload_new(1) [unfolded res]]] show ?case by simp
next
  case (upload_more fault rnd dg lr now info b d s d' s' res)
  obtain p v r where res: "res = (p, v, r)" by (cases res)
  from upload_more(2) have "local.service_ok d s" by simp
  from local.ingest_ok(1) [OF this disjI2 [OF upload_more(1) [unfolded res]]] show ?case by simp
next
  case (catalogue d d' s)
  then show ?case by (simp add: local.service_ok_def store_step_ok)
qed

lemma service_reachable_ok:
  assumes "service_step\<^sup>*\<^sup>* (fresh_db now, []) (d, s)"
  shows "local.service_ok d s"
proof -
  have "service_step\<^sup>*\<^sup>* ds ds' \<Longrightarrow> local.service_ok (fst ds) (snd ds) \<Longrightarrow> local.service_ok (fst ds') (snd ds')" for ds ds'
    by (induction rule: rtranclp_induct) (auto dest: service_step_ok)
  moreover have "local.service_ok (fresh_db now) []" by (simp add: local.service_ok_def fresh_db_def)
    (simp add: catalog_ok_fresh [unfolded fresh_db_def])
  ultimately show ?thesis using assms by fastforce
qed

text \<open>
C5: Everything in the catalogue can be served, and what is served is what was recorded: after any sequence of
  uploads - failing ones, with whatever fault of the file system, included - and catalogue changes,
  every file row opens, and the bytes have the SHA-256 that its blob row records.
\<close>

theorem every_file_opens:
  assumes "service_step\<^sup>*\<^sup>* (fresh_db now, []) (d, s)" and "f \<in> set (rows (db_files d))"
  shows "\<exists>c bl. OpenFile local_Open d s f = Inr (c, bl) \<and> hex_encode (sha256 c) = blob_HashSHA256 bl"
  by (rule local.service_ok_opens [OF service_reachable_ok [OF assms(1)] assms(2)])

text \<open>
  Upload and download: a successful upload of either kind adds a file row of the asked name to the version,
  and opening that row gives back the uploaded bytes.
\<close>

theorem upload_download:
  assumes "service_step\<^sup>*\<^sup>* (fresh_db t, []) (d, s)"
    and "CreatePackageAndAddFile (local_Save fault rnd) dg lr now info b d s = (d', s', p, v, Inr f)
       \<or> CreatePackageOrAddFileToExisting (local_Save fault rnd) dg lr now info b d s = (d', s', p, v, Inr f)"
  shows "\<exists>ver bl. v = Some ver \<and> f \<in> set (rows (db_files d')) \<and> file_VersionID f = ver_ID ver
    \<and> file_Name f = ci_Filename info \<and> OpenFile local_Open d' s' f = Inr (hb_bytes b, bl)"
  using local.ingest_ok(2) [OF service_reachable_ok [OF assms(1)] assms(2), of f] by auto


section \<open>Retries\<close>

definition ci_lookup :: "creation_info \<Rightarrow> string" where
  "ci_lookup info = (if ci_PackageLookupName info \<noteq> [] then ci_PackageLookupName info else to_lower (ci_PackageName info))"

lemma ci_getOrCreatePackage_eq:
  "ci_getOrCreatePackage lr now info d =
     GetOrCreatePackageWithLookup lr now (ci_TenantID info) (ci_PackageType info) (ci_PackageName info) (ci_lookup info)
       (if ci_CreatedVia info = [] then CreatedViaUploaded else ci_CreatedVia info) d"
  by (simp add: ci_getOrCreatePackage_def ci_lookup_def GetOrCreatePackage_def Let_def)

lemma created_package_found:
  assumes "catalog_ok d" and "GetOrCreatePackageWithLookup lr now ten t dn lk via d = (d', Inr p)"
  shows "GetPackageByLookup d' ten t lk = Inr p"
proof (cases "GetPackageByLookup d ten t lk")
  case (Inr q)
  with assms(2) show ?thesis by (simp add: GetOrCreatePackageWithLookup_def)
next
  case (Inl e)
  then have none: "e = ErrPackageNotExist" "\<forall>q \<in> set (rows (db_packages d)). pkg_key q \<noteq> (ten, t, lk)"
    by (simp_all add: GetPackageByLookup_None)
  with assms(2) Inl have ins: "insert_package lr now ten t dn lk via d = (d', Inr p)"
    by (simp add: GetOrCreatePackageWithLookup_def)
  have ok: "catalog_ok d'" using insert_package_ok [OF assms(1), of lr now ten t dn lk via] ins by simp
  show ?thesis
  proof (cases rule: insert_package_cases [of lr now ten t dn lk via d])
    case conflict
    with none(2) show ?thesis by blast
  next
    case no_tenant
    with ins show ?thesis by simp
  next
    case (inserted q tb)
    then have "q = p" "db_packages d' = tb" using ins by auto
    moreover have "pkg_key q = (ten, t, lk)" "q \<in> set (rows tb)"
      using package_rows.insert_SomeD(1,2) [OF inserted(2)] by (simp_all add: mk_package_def pkg_key_def)
    ultimately show ?thesis by (simp add: GetPackageByLookup_iff [OF catalog_okD(1) [OF ok]])
  qed
qed

lemma GetPackageByLookup_cong: "db_packages d' = db_packages d \<Longrightarrow> GetPackageByLookup d' = GetPackageByLookup d"
  by (simp add: fun_eq_iff GetPackageByLookup_def)

text \<open>
  An upload that failed while its bytes were stored cannot be repeated: the version row it had already
  created stays behind, without a file, and every further \<open>CreatePackageAndAddFile\<close> of the same
  package and version is refused as a duplicate, whatever the store does then.
\<close>

theorem failed_save_blocks_retry:
  assumes "catalog_ok d"
    and "CreatePackageAndAddFile save dg lr now info b d s = (d', s', Some pkg, Some ver, Inl (StoreError e))"
  shows "CreatePackageAndAddFile save' dg' lr' now' info b' d' s2 =
    (d', s2, Some pkg, None, Inl (ModelError ErrDuplicatePackageVersion))"
proof -
  have ten: "ci_TenantID info \<noteq> 0" using assms(2) by (auto simp: CreatePackageAndAddFile_def)
  obtain d1 x where pk: "ci_getOrCreatePackage lr now info d = (d1, x)" by (cases "ci_getOrCreatePackage lr now info d")
  then have x: "x = Inr pkg" using assms(2) ten by (cases x) (auto simp: CreatePackageAndAddFile_def split: prod.splits sum.splits)
  let ?meta = "ci_VersionMetadataJSON info"
  obtain d2 y where cv: "CreateVersion now (pkg_ID pkg) (ci_Version info) ?meta d1 = (d2, y)"
    by (cases "CreateVersion now (pkg_ID pkg) (ci_Version info) ?meta d1")
  then have y: "y = Inr ver" and sf: "store_file save dg lr now info b ver d2 s = (d', s', Inl (StoreError e))"
    using assms(2) ten pk x by (cases y; auto simp: CreatePackageAndAddFile_def split: prod.splits)+
  have d': "d' = set_properties (ver_ID ver) (ci_VersionProperties info) d2"
    using sf by (auto simp: store_file_def Let_def Sums_def split: prod.splits sum.splits)
  obtain tb where tb: "insert_unique ver_key (mk_version (pkg_ID pkg, ci_Version info, if ?meta = [] then ''{}'' else ?meta, now))
      (db_versions d1) = Some (ver, tb)" "d2 = d1\<lparr>db_versions := tb\<rparr>"
    using cv y by (auto simp: CreateVersion_def Let_def split: option.splits if_splits)
  have ver: "ver \<in> set (rows (db_versions d'))" "ver_key ver = (pkg_ID pkg, to_lower (ci_Version info))"
    using version_rows.insert_SomeD(1,2) [OF tb(1)] tb(2) by (simp_all add: d' mk_version_def ver_key_def)
  have "GetPackageByLookup d' = GetPackageByLookup d1" by (rule GetPackageByLookup_cong) (simp add: d' tb(2))
  then have "ci_getOrCreatePackage lr' now' info d' = (d', Inr pkg)"
    using created_package_found [OF assms(1)] pk x
    by (simp add: ci_getOrCreatePackage_eq GetOrCreatePackageWithLookup_def)
  moreover have "insert_unique ver_key (mk_version (pkg_ID pkg, ci_Version info, if ?meta = [] then ''{}'' else ?meta, now'))
      (db_versions d') = None"
    unfolding version_rows.insert_None_iff using ver by (intro bexI [of _ ver]) (simp_all add: mk_version_def ver_key_def)
  then have "CreateVersion now' (pkg_ID pkg) (ci_Version info) ?meta d' = (d', Inl ErrDuplicatePackageVersion)"
    by (simp add: CreateVersion_def Let_def)
  ultimately show ?thesis using ten by (simp add: CreatePackageAndAddFile_def)
qed


section \<open>Sample uploads\<close>

definition sample_info :: creation_info where
  "sample_info = \<lparr>ci_TenantID = 1, ci_PackageType = ''pypi'', ci_PackageName = ''six'', ci_PackageLookupName = ''six'',
     ci_Version = ''1.0'', ci_VersionProperties = [], ci_VersionMetadataJSON = [], ci_Filename = ''six-1.0.whl'',
     ci_IsLead = True, ci_CreatedVia = []\<rparr>"

definition sample_digests :: digests where
  "sample_digests = \<lparr>dg_md5 = (\<lambda>_. []), dg_sha1 = (\<lambda>_. []), dg_sha512 = (\<lambda>_. [])\<rparr>"

definition sample_buffer :: hashed_buffer where
  "sample_buffer = \<lparr>hb_bytes = ''wheel''\<rparr>"

lemma hex_path_digest: "hex_path (hex_encode (sha256 c))"
  by (rule local.digest_valid)

lemma sample_save: "\<exists>s'. local_Save None rnd (hex_encode (sha256 c)) \<lparr>rd_chunks = [c], rd_end = EOF, rd_eager = False\<rparr> s = (s', Inr (length c))"
proof -
  let ?r = "\<lparr>rd_chunks = [c], rd_end = EOF, rd_eager = False\<rparr>"
  obtain ds res where t: "Save_trace None rnd (hex_encode (sha256 c)) ?r s = (ds, res)" by (metis prod.exhaust)
  from Save_spec [OF hex_path_digest t, THEN conjunct2, THEN conjunct2, THEN conjunct2, THEN conjunct2]
  have "res = Inr (length c)" by simp
  then show ?thesis by (simp add: local_Save_def t)
qed

lemma sample_prepare:
  "\<exists>d1 pkg d2 ver. ci_getOrCreatePackage 0 1 sample_info (fresh_db 0) = (d1, Inr pkg)
     \<and> CreateVersion 1 (pkg_ID pkg) (ci_Version sample_info) (ci_VersionMetadataJSON sample_info) d1 = (d2, Inr ver)
     \<and> rows (db_blobs d2) = [] \<and> rows (db_files d2) = [] \<and> version_exists d2 (ver_ID ver)"
  by (simp add: ci_getOrCreatePackage_def sample_info_def Let_def GetOrCreatePackageWithLookup_def GetPackageByLookup_def
      select_one_def fresh_db_def insert_package_def insert_unique_def CreateVersion_def package_exists_def
      tenant_exists_def default_tenant_row_def mk_package_def mk_version_def version_exists_def)

lemma sample_upload:
  "\<exists>d' s' p v f. CreatePackageAndAddFile (local_Save None ''r'') sample_digests 0 1 sample_info sample_buffer (fresh_db 0) [] =
     (d', s', p, v, Inr f)"
proof -
  obtain d1 pkg d2 ver where prep: "ci_getOrCreatePackage 0 1 sample_info (fresh_db 0) = (d1, Inr pkg)"
    "CreateVersion 1 (pkg_ID pkg) (ci_Version sample_info) (ci_VersionMetadataJSON sample_info) d1 = (d2, Inr ver)"
    "rows (db_blobs d2) = []" "rows (db_files d2) = []" "version_exists d2 (ver_ID ver)"
    using sample_prepare by blast
  obtain s' where "local_Save None ''r'' (hex_encode (sha256 ''wheel'')) \<lparr>rd_chunks = [''wheel''], rd_end = EOF, rd_eager = False\<rparr> [] =
      (s', Inr (length ''wheel''))" using sample_save [of "''r''" "''wheel''" "[]"] by blast
  then have "\<exists>d3 f. store_file (local_Save None ''r'') sample_digests 0 1 sample_info sample_buffer ver d2 [] = (d3, s', Inr f)"
    using prep(3-5)
    by (simp add: store_file_def Let_def Sums_def sample_digests_def sample_buffer_def sample_info_def hb_reader_def
        set_properties_def GetOrCreateBlob_def GetBlobBySHA256_def select_one_def insert_unique_def CreateFile_def
        version_exists_def blob_exists_def mk_blob_def)
  moreover have "ci_TenantID sample_info \<noteq> 0" by (simp add: sample_info_def)
  ultimately show ?thesis using prep by (auto simp: CreatePackageAndAddFile_def)
qed

theorem upload_download_witness:
  "\<exists>d' s' f bl. OpenFile local_Open d' s' f = Inr (''wheel'', bl) \<and> file_Name f = ''six-1.0.whl''"
proof -
  obtain d' s' p v f where "CreatePackageAndAddFile (local_Save None ''r'') sample_digests 0 1 sample_info sample_buffer (fresh_db 0) [] =
     (d', s', p, v, Inr f)" using sample_upload by blast
  from upload_download [OF rtranclp.rtrancl_refl, OF disjI1 [OF this]]
  show ?thesis by (auto simp: sample_buffer_def sample_info_def)
qed

theorem every_file_opens_witness:
  "\<exists>d s f c bl. f \<in> set (rows (db_files d)) \<and> OpenFile local_Open d s f = Inr (c, bl)"
proof -
  obtain d' s' p v f where up: "CreatePackageAndAddFile (local_Save None ''r'') sample_digests 0 1 sample_info sample_buffer (fresh_db 0) [] =
     (d', s', p, v, Inr f)" using sample_upload by blast
  have "f \<in> set (rows (db_files d'))"
    using local.ingest_ok(2) [OF service_reachable_ok [OF rtranclp.rtrancl_refl] disjI1 [OF up], of f] by auto
  moreover have "service_step\<^sup>*\<^sup>* (fresh_db 0, []) (d', s')"
    by (rule r_into_rtranclp) (rule upload_new [OF up])
  ultimately show ?thesis using every_file_opens by blast
qed

theorem failed_save_blocks_retry_witness:
  "\<exists>d' s' pkg. CreatePackageAndAddFile (local_Save None ''r'') sample_digests 0 2 sample_info sample_buffer d' s' =
     (d', s', Some pkg, None, Inl (ModelError ErrDuplicatePackageVersion))"
proof -
  obtain d1 pkg d2 ver where prep: "ci_getOrCreatePackage 0 1 sample_info (fresh_db 0) = (d1, Inr pkg)"
    "CreateVersion 1 (pkg_ID pkg) (ci_Version sample_info) (ci_VersionMetadataJSON sample_info) d1 = (d2, Inr ver)"
    using sample_prepare by blast
  have "CreatePackageAndAddFile (local_Save (Some CreateFault) ''r'') sample_digests 0 1 sample_info sample_buffer (fresh_db 0) [] =
     (d2, [], Some pkg, Some ver, Inl (StoreError (StorageFailure ''create temp object'')))"
    using prep by (simp add: CreatePackageAndAddFile_def sample_info_def store_file_def Sums_def Let_def local_Save_def
        Save_trace_def set_properties_def)
  from failed_save_blocks_retry [OF catalog_ok_fresh this,
      of "local_Save None ''r''" sample_digests 0 2 sample_buffer "[] :: disk"] show ?thesis by blast
qed

end
