(* ===== verification/Ruby_Marshal.thy ===== *)
theory Ruby_Marshal
  imports Prelude
begin

text \<open>
  The Ruby Marshal 4.8 encoder of the RubyGems registry
  (\<open>internal/packages/rubygems/marshal.go\<close>), which RubyGems clients decode.

  A value handed to the encoder is a \<open>ruby_value\<close>: the Go kinds \<open>marshal\<close> switches on. A pointer to
  a value is the value it points to. \<open>RubyObject.Member\<close> is a Go map; it is given as the list of
  its entries in the order in which the encoder's \<open>range\<close> happens to visit them. The writer is
  the buffer the bytes end up in; it is assumed not to fail, and on an error the bytes written so
  far are dropped, as \<open>Encode\<close> does not flush them.

  \<open>load\<close> is the reader of the format, as the documentation of Ruby's \<open>Marshal\<close> module describes it; it is
  specification, not code of the repository. Its fuel bounds the nesting of values.
\<close>

section \<open>Encoder\<close>

datatype ruby_value =
    RNil
  | RBool bool
  | RInt int
  | RString string
  | RArray "ruby_value list"
  | RUserMarshal string ruby_value
  | RUserDef string ruby_value
  | RObject string "(string \<times> ruby_value) list"
  | ROther

datatype marshal_error = ErrUnsupportedType | ErrInvalidIntRange

text \<open>The symbol table: every symbol written so far with its index, latest first.\<close>

type_synonym symbols = "(string \<times> nat) list"

definition byte_of :: "int \<Rightarrow> char" where
  "byte_of i = char_of (nat (i mod 256))"

definition marshalInt_length :: "int \<Rightarrow> int option" where
  "marshalInt_length i =
     (if 122 < i \<and> i \<le> 0xff then Some 1
      else if 0xff < i \<and> i \<le> 0xffff then Some 2
      else if 0xffff < i \<and> i \<le> 0xffffff then Some 3
      else if 0xffffff < i \<and> i \<le> 0x3fffffff then Some 4
      else if -0x100 \<le> i \<and> i < -123 then Some (-1)
      else if -0x10000 \<le> i \<and> i < -0x100 then Some (-2)
      else if -0x1000000 \<le> i \<and> i < -0x100000 then Some (-3)
      else if -0x40000000 \<le> i \<and> i < -0x1000000 then Some (-4)
      else None)"

definition marshalIntInternal :: "int \<Rightarrow> (marshal_error, string) result" where
  "marshalIntInternal i =
     (if i = 0 then Inr [byte_of 0]
      else if 0 < i \<and> i < 123 then Inr [byte_of (i + 5)]
      else if -124 < i \<and> i \<le> -1 then Inr [byte_of (i - 5)]
      else (case marshalInt_length i of
          None \<Rightarrow> Inl ErrInvalidIntRange
        | Some len \<Rightarrow>
            Inr (byte_of len # map (\<lambda>c. byte_of (i div 2 ^ (8 * c))) [0..<nat \<bar>len\<bar>])))"

definition marshalBool :: "bool \<Rightarrow> string" where
  "marshalBool b = (if b then ''T'' else ''F'')"

definition marshalRawString :: "string \<Rightarrow> (marshal_error, string) result" where
  "marshalRawString str =
     bind_result (marshalIntInternal (int (length str))) (\<lambda>n. Inr (CHR 0x22 # n @ str))"

definition marshalSymbol :: "string \<Rightarrow> symbols \<Rightarrow> (marshal_error, string \<times> symbols) result" where
  "marshalSymbol str syms =
     (case map_of syms str of
        Some index \<Rightarrow> bind_result (marshalIntInternal (int index)) (\<lambda>n. Inr (CHR '';'' # n, syms))
      | None \<Rightarrow>
          bind_result (marshalIntInternal (int (length str)))
            (\<lambda>n. Inr (CHR '':'' # n @ str, (str, length syms) # syms)))"

definition marshalString :: "string \<Rightarrow> symbols \<Rightarrow> (marshal_error, string \<times> symbols) result" where
  "marshalString str syms =
     bind_result (marshalRawString str) (\<lambda>raw.
     bind_result (marshalIntInternal 1) (\<lambda>one.
     bind_result (marshalSymbol ''E'' syms) (\<lambda>(e, syms1).
     Inr (CHR ''I'' # raw @ one @ e @ marshalBool True, syms1))))"

text \<open>The header \<open>Encode\<close> writes: the two version bytes.\<close>

definition marshal_version :: string where
  "marshal_version = [byte_of 4, byte_of 8]"

fun marshal :: "ruby_value \<Rightarrow> symbols \<Rightarrow> (marshal_error, string \<times> symbols) result"
  and marshal_elems :: "ruby_value list \<Rightarrow> symbols \<Rightarrow> (marshal_error, string \<times> symbols) result"
  and marshal_members :: "(string \<times> ruby_value) list \<Rightarrow> symbols \<Rightarrow> (marshal_error, string \<times> symbols) result" where
  "marshal RNil syms = Inr (''0'', syms)"
| "marshal (RBool b) syms = Inr (marshalBool b, syms)"
| "marshal (RInt i) syms = bind_result (marshalIntInternal i) (\<lambda>n. Inr (CHR ''i'' # n, syms))"
| "marshal (RString str) syms = marshalString str syms"
| "marshal (RArray vs) syms =
     bind_result (marshalIntInternal (int (length vs))) (\<lambda>n.
     bind_result (marshal_elems vs syms) (\<lambda>(out, syms1).
     Inr (CHR ''['' # n @ out, syms1)))"
| "marshal (RUserMarshal name v) syms =
     bind_result (marshalSymbol name syms) (\<lambda>(s, syms1).
     bind_result (marshal v syms1) (\<lambda>(out, syms2).
     Inr (CHR ''U'' # s @ out, syms2)))"
| "marshal (RUserDef name v) syms =
     bind_result (marshal v []) (\<lambda>(inner, _).
     bind_result (marshalSymbol name syms) (\<lambda>(s, syms1).
     bind_result (marshalIntInternal (int (length (marshal_version @ inner)))) (\<lambda>n.
     Inr (CHR ''u'' # s @ n @ marshal_version @ inner, syms1))))"
| "marshal (RObject name members) syms =
     bind_result (marshalSymbol name syms) (\<lambda>(s, syms1).
     bind_result (marshalIntInternal (int (length members))) (\<lambda>n.
     bind_result (marshal_members members syms1) (\<lambda>(out, syms2).
     Inr (CHR ''o'' # s @ n @ out, syms2))))"
| "marshal ROther syms = Inl ErrUnsupportedType"
| "marshal_elems [] syms = Inr ([], syms)"
| "marshal_elems (v # vs) syms =
     bind_result (marshal v syms) (\<lambda>(out, syms1).
     bind_result (marshal_elems vs syms1) (\<lambda>(outs, syms2).
     Inr (out @ outs, syms2)))"
| "marshal_members [] syms = Inr ([], syms)"
| "marshal_members ((k, v) # kvs) syms =
     bind_result (marshalSymbol k syms) (\<lambda>(s, syms1).
     bind_result (marshal v syms1) (\<lambda>(out, syms2).
     bind_result (marshal_members kvs syms2) (\<lambda>(outs, syms3).
     Inr (s @ out @ outs, syms3))))"

definition Encode :: "ruby_value \<Rightarrow> (marshal_error, string) result" where
  "Encode v = bind_result (marshal v []) (\<lambda>(out, _). Inr (marshal_version @ out))"

section \<open>Reader\<close>

text \<open>The format's integers: a length byte, or a small number offset by five.\<close>

fun le_int :: "string \<Rightarrow> int" where
  "le_int [] = 0"
| "le_int (b # bs) = int (of_char b) + 256 * le_int bs"

definition load_int :: "string \<Rightarrow> (int \<times> string) option" where
  "load_int s =
     (case s of
        [] \<Rightarrow> None
      | b # rest \<Rightarrow>
          (let c = (if of_char b < (128 :: int) then of_char b else of_char b - 256 :: int); k = nat \<bar>c\<bar> in
           if c = 0 then Some (0, rest)
           else if 4 < c then Some (c - 5, rest)
           else if c < -4 then Some (c + 5, rest)
           else if length rest < k then None
           else Some ((if 0 < c then le_int (take k rest) else le_int (take k rest) - 256 ^ k), drop k rest)))"

definition load_raw :: "string \<Rightarrow> (string \<times> string) option" where
  "load_raw s =
     (case load_int s of
        None \<Rightarrow> None
      | Some (n, rest) \<Rightarrow>
          if n < 0 \<or> int (length rest) < n then None else Some (take (nat n) rest, drop (nat n) rest))"

text \<open>A symbol, or a link to the symbol of that index.\<close>

definition load_symbol :: "string \<Rightarrow> string list \<Rightarrow> (string \<times> string list \<times> string) option" where
  "load_symbol s tab =
     (case s of
        [] \<Rightarrow> None
      | c # rest \<Rightarrow>
          if c = CHR '':'' then
            (case load_raw rest of None \<Rightarrow> None | Some (str, rest') \<Rightarrow> Some (str, tab @ [str], rest'))
          else if c = CHR '';'' then
            (case load_int rest of
               None \<Rightarrow> None
             | Some (i, rest') \<Rightarrow> if i < 0 \<or> int (length tab) \<le> i then None else Some (tab ! nat i, tab, rest'))
          else None)"

text \<open>A list of \<open>n\<close> items, each read by \<open>item\<close>.\<close>

fun load_list :: "(string list \<Rightarrow> string \<Rightarrow> ('a \<times> string list \<times> string) option) \<Rightarrow> nat \<Rightarrow> string list \<Rightarrow> string
    \<Rightarrow> ('a list \<times> string list \<times> string) option" where
  "load_list item 0 tab s = Some ([], tab, s)"
| "load_list item (Suc n) tab s =
     (case item tab s of
        None \<Rightarrow> None
      | Some (x, tab1, s1) \<Rightarrow>
          (case load_list item n tab1 s1 of None \<Rightarrow> None | Some (xs, tab2, s2) \<Rightarrow> Some (x # xs, tab2, s2)))"

definition load_member :: "(string list \<Rightarrow> string \<Rightarrow> ('a \<times> string list \<times> string) option) \<Rightarrow> string list \<Rightarrow> string
    \<Rightarrow> ((string \<times> 'a) \<times> string list \<times> string) option" where
  "load_member item tab s =
     (case load_symbol s tab of
        None \<Rightarrow> None
      | Some (k, tab1, s1) \<Rightarrow>
          (case item tab1 s1 of None \<Rightarrow> None | Some (v, tab2, s2) \<Rightarrow> Some ((k, v), tab2, s2)))"

text \<open>A string carries its encoding: one instance variable \<open>E\<close> that is true.\<close>

definition load_string :: "string list \<Rightarrow> string \<Rightarrow> (ruby_value \<times> string list \<times> string) option" where
  "load_string tab s =
     (case s of
        [] \<Rightarrow> None
      | c # rest \<Rightarrow>
          if c \<noteq> CHR 0x22 then None
          else (case load_raw rest of
              None \<Rightarrow> None
            | Some (str, s1) \<Rightarrow>
                (case load_int s1 of
                   Some (n, s2) \<Rightarrow>
                     if n \<noteq> 1 then None
                     else (case load_symbol s2 tab of
                         Some (e, tab1, t # s3) \<Rightarrow>
                           if e = ''E'' \<and> t = CHR ''T'' then Some (RString str, tab1, s3) else None
                       | _ \<Rightarrow> None)
                 | None \<Rightarrow> None)))"

definition load_counted :: "(string list \<Rightarrow> string \<Rightarrow> ('a \<times> string list \<times> string) option) \<Rightarrow> string list \<Rightarrow> string
    \<Rightarrow> ('a list \<times> string list \<times> string) option" where
  "load_counted item tab s =
     (case load_int s of
        None \<Rightarrow> None
      | Some (n, s1) \<Rightarrow> if n < 0 then None else load_list item (nat n) tab s1)"

fun load_value :: "nat \<Rightarrow> string list \<Rightarrow> string \<Rightarrow> (ruby_value \<times> string list \<times> string) option" where
  "load_value 0 tab s = None"
| "load_value (Suc fuel) tab [] = None"
| "load_value (Suc fuel) tab (c # s) =
     (if c = CHR ''0'' then Some (RNil, tab, s)
      else if c = CHR ''T'' then Some (RBool True, tab, s)
      else if c = CHR ''F'' then Some (RBool False, tab, s)
      else if c = CHR ''i'' then map_option (\<lambda>(i, s1). (RInt i, tab, s1)) (load_int s)
      else if c = CHR ''I'' then load_string tab s
      else if c = CHR ''['' then
        map_option (\<lambda>(vs, tab1, s1). (RArray vs, tab1, s1)) (load_counted (load_value fuel) tab s)
      else if c = CHR ''U'' then
        map_option (\<lambda>((k, v), tab1, s1). (RUserMarshal k v, tab1, s1)) (load_member (load_value fuel) tab s)
      else if c = CHR ''u'' then
        (case load_symbol s tab of
           None \<Rightarrow> None
         | Some (name, tab1, s1) \<Rightarrow>
             (case load_raw s1 of
                None \<Rightarrow> None
              | Some (inner, s2) \<Rightarrow>
                  if take 2 inner \<noteq> marshal_version then None
                  else (case load_value fuel [] (drop 2 inner) of
                      Some (v, _, []) \<Rightarrow> Some (RUserDef name v, tab1, s2)
                    | _ \<Rightarrow> None)))
      else if c = CHR ''o'' then
        (case load_symbol s tab of
           None \<Rightarrow> None
         | Some (name, tab1, s1) \<Rightarrow>
             map_option (\<lambda>(ms, tab2, s2). (RObject name ms, tab2, s2))
               (load_counted (load_member (load_value fuel)) tab1 s1))
      else None)"

definition load :: "nat \<Rightarrow> string \<Rightarrow> ruby_value option" where
  "load fuel s =
     (if take 2 s \<noteq> marshal_version then None
      else (case load_value fuel [] (drop 2 s) of Some (v, _, []) \<Rightarrow> Some v | _ \<Rightarrow> None))"

section \<open>Integers\<close>

lemma of_char_byte_of: "(of_char (byte_of i) :: int) = i mod 256"
  using of_nat_of_char [where 'a = int, of "byte_of i"] by (simp add: byte_of_def del: of_nat_of_char)

lemma int_byte_of: "int (of_char (byte_of i)) = i mod 256"
  by (simp add: byte_of_def)

lemma neg_mod: "- m \<le> i \<Longrightarrow> i < 0 \<Longrightarrow> i mod m = i + m" for i m :: int
proof -
  assume "- m \<le> i" "i < 0"
  then have "(i + m) mod m = i + m" by (intro mod_pos_pos_trivial) auto
  then show ?thesis by simp
qed

lemma le_int_bytes: "le_int (map (\<lambda>c. byte_of (i div 2 ^ (8 * c))) [0..<k]) = i mod 256 ^ k"
proof (induction k arbitrary: i)
  case (Suc k)
  have "map (\<lambda>c. byte_of (i div 2 ^ (8 * c))) [0..<Suc k] =
      byte_of i # map (\<lambda>c. byte_of (i div 256 div 2 ^ (8 * c))) [0..<k]"
    by (simp add: upt_conv_Cons map_Suc_upt [symmetric] power_add zdiv_zmult2_eq del: upt_Suc)
  then have "le_int (map (\<lambda>c. byte_of (i div 2 ^ (8 * c))) [0..<Suc k]) = i mod 256 + 256 * (i div 256 mod 256 ^ k)"
    by (simp add: Suc.IH int_byte_of)
  also have "\<dots> = i mod 256 ^ Suc k" by (simp add: zmod_zmult2_eq)
  finally show ?case .
qed simp

lemma load_int_marshal:
  assumes "marshalIntInternal i = Inr n"
  shows "load_int (n @ rest) = Some (i, rest)"
proof -
  consider "i = 0" | "0 < i" "i < 123" | "-124 < i" "i \<le> -1" | len where "marshalInt_length i = Some len" "123 \<le> i \<or> i \<le> -124"
    using assms by (auto simp: marshalIntInternal_def split: if_splits option.splits)
  then show ?thesis
  proof cases
    case 1
    then show ?thesis using assms by (auto simp: marshalIntInternal_def load_int_def of_char_byte_of)
  next
    case 2
    then show ?thesis using assms by (auto simp: marshalIntInternal_def load_int_def of_char_byte_of Let_def)
  next
    case 3
    then have "(i - 5) mod 256 = i - 5 + 256" by (intro neg_mod) auto
    then show ?thesis using 3 assms by (auto simp: marshalIntInternal_def load_int_def of_char_byte_of Let_def)
  next
    case 4
    then have n: "n = byte_of len # map (\<lambda>c. byte_of (i div 2 ^ (8 * c))) [0..<nat \<bar>len\<bar>]"
      using assms by (auto simp: marshalIntInternal_def)
    have len: "len \<in> {1, 2, 3, 4, -1, -2, -3, -4}" and
      range: "0 < len \<Longrightarrow> 0 \<le> i \<and> i < 256 ^ nat \<bar>len\<bar>" "len < 0 \<Longrightarrow> - (256 ^ nat \<bar>len\<bar>) \<le> i \<and> i < 0"
      using 4(1) by (auto simp: marshalInt_length_def split: if_splits)
    let ?k = "nat \<bar>len\<bar>"
    have val: "(if 0 < len then i mod 256 ^ ?k else i mod 256 ^ ?k - 256 ^ ?k) = i"
    proof (cases "0 < len")
      case True
      then show ?thesis using range(1) by simp
    next
      case False
      then have *: "- (256 ^ ?k) \<le> i" "i < 0" using range(2) len by auto
      then have "i mod 256 ^ ?k = i + 256 ^ ?k" by (rule neg_mod)
      then show ?thesis using False by simp
    qed
    have c: "(if of_char (byte_of len) < (128 :: int) then of_char (byte_of len) else of_char (byte_of len) - 256) = len"
      unfolding of_char_byte_of using len by (elim insertE emptyE) simp_all
    have small: "len \<noteq> 0" "\<not> 4 < len" "\<not> len < -4" using len by auto
    let ?bs = "map (\<lambda>c. byte_of (i div 2 ^ (8 * c))) [0..<?k]"
    have "load_int (n @ rest) = Some (if 0 < len then le_int ?bs else le_int ?bs - 256 ^ ?k, rest)"
      unfolding load_int_def n append_Cons list.case c Let_def using small by (simp del: of_nat_of_char)
    then show ?thesis using val by (simp only: le_int_bytes)
  qed
qed

lemma marshal_gap:
  "(i \<noteq> 0 \<and> \<not> (0 < i \<and> i < 123) \<and> \<not> (-124 < i \<and> i \<le> -1)
    \<and> \<not> (122 < i \<and> i \<le> 0xff) \<and> \<not> (0xff < i \<and> i \<le> 0xffff) \<and> \<not> (0xffff < i \<and> i \<le> 0xffffff)
    \<and> \<not> (0xffffff < i \<and> i \<le> 0x3fffffff) \<and> \<not> (-0x100 \<le> i \<and> i < -123) \<and> \<not> (-0x10000 \<le> i \<and> i < -0x100)
    \<and> \<not> (-0x1000000 \<le> i \<and> i < -0x100000) \<and> \<not> (-0x40000000 \<le> i \<and> i < -0x1000000)) \<longleftrightarrow>
   i < -0x40000000 \<or> 0x3fffffff < i \<or> (-0x100000 \<le> i \<and> i < -0x10000)" for i :: int
proof (cases "0 \<le> i")
  case True
  then show ?thesis by arith
next
  case False
  then show ?thesis by arith
qed

text \<open>
  The integers the encoder refuses. The format covers every integer of 31 bits; of those the
  encoder also refuses the ones from -1048576 to -65537, because the bound of its
  three-byte case lacks a digit.
\<close>

lemma marshalIntInternal_refused:
  "marshalIntInternal i = Inl ErrInvalidIntRange \<longleftrightarrow>
     i < -0x40000000 \<or> 0x3fffffff < i \<or> (-0x100000 \<le> i \<and> i < -0x10000)"
proof -
  have "marshalIntInternal i = Inl ErrInvalidIntRange \<longleftrightarrow>
      i \<noteq> 0 \<and> \<not> (0 < i \<and> i < 123) \<and> \<not> (-124 < i \<and> i \<le> -1) \<and> marshalInt_length i = None"
    by (simp add: marshalIntInternal_def split: option.split)
  moreover have "marshalInt_length i = None \<longleftrightarrow>
      \<not> (122 < i \<and> i \<le> 0xff) \<and> \<not> (0xff < i \<and> i \<le> 0xffff) \<and> \<not> (0xffff < i \<and> i \<le> 0xffffff)
    \<and> \<not> (0xffffff < i \<and> i \<le> 0x3fffffff) \<and> \<not> (-0x100 \<le> i \<and> i < -123) \<and> \<not> (-0x10000 \<le> i \<and> i < -0x100)
    \<and> \<not> (-0x1000000 \<le> i \<and> i < -0x100000) \<and> \<not> (-0x40000000 \<le> i \<and> i < -0x1000000)"
    by (simp add: marshalInt_length_def)
  ultimately show ?thesis unfolding marshal_gap [symmetric] by blast
qed

lemma marshalIntInternal_Inl: "marshalIntInternal i = Inl e \<Longrightarrow> e = ErrInvalidIntRange"
  by (auto simp: marshalIntInternal_def split: if_splits option.splits)

section \<open>Strings and symbols\<close>

lemma load_raw_marshal:
  assumes "marshalIntInternal (int (length str)) = Inr n"
  shows "load_raw (n @ str @ rest) = Some (str, rest)"
  using load_int_marshal [OF assms, of "str @ rest"] by (simp add: load_raw_def)

definition syms_ok :: "symbols \<Rightarrow> string list \<Rightarrow> bool" where
  "syms_ok syms tab \<longleftrightarrow> length syms = length tab \<and> (\<forall>str i. map_of syms str = Some i \<longrightarrow> i < length tab \<and> tab ! i = str)"

lemma syms_ok_Nil [simp]: "syms_ok [] []"
  by (simp add: syms_ok_def)

lemma load_symbol_marshal:
  assumes "marshalSymbol str syms = Inr (out, syms')" and "syms_ok syms tab"
  shows "\<exists>tab'. load_symbol (out @ rest) tab = Some (str, tab', rest) \<and> syms_ok syms' tab'"
proof (cases "map_of syms str")
  case None
  then obtain n where n: "marshalIntInternal (int (length str)) = Inr n" "out = CHR '':'' # n @ str"
    "syms' = (str, length syms) # syms"
    using assms(1) by (auto simp: marshalSymbol_def bind_result_Inr_iff)
  have "syms_ok syms' (tab @ [str])"
    using assms(2) by (auto simp: n(3) syms_ok_def nth_append less_Suc_eq)
  then show ?thesis using load_raw_marshal [OF n(1), of rest] by (simp add: n(2) load_symbol_def)
next
  case (Some i)
  then obtain n where n: "marshalIntInternal (int i) = Inr n" "out = CHR '';'' # n" "syms' = syms"
    using assms(1) by (auto simp: marshalSymbol_def bind_result_Inr_iff)
  have "i < length tab" "tab ! i = str" using assms(2) Some by (auto simp: syms_ok_def)
  then show ?thesis using load_int_marshal [OF n(1), of rest] assms(2) n(2,3) by (simp add: load_symbol_def)
qed

lemma load_string_marshal:
  assumes "marshalString str syms = Inr (out, syms')" and "syms_ok syms tab"
  shows "\<exists>body tab'. out = CHR ''I'' # body \<and> load_string tab (body @ rest) = Some (RString str, tab', rest) \<and> syms_ok syms' tab'"
proof -
  obtain n one e where p: "marshalIntInternal (int (length str)) = Inr n" "marshalIntInternal 1 = Inr one"
    "marshalSymbol ''E'' syms = Inr (e, syms')" "out = CHR ''I'' # CHR 0x22 # n @ str @ one @ e @ ''T''"
    using assms(1)
    by (auto simp: marshalString_def marshalRawString_def marshalBool_def bind_result_Inr_iff split: prod.splits)
  obtain tab' where e: "load_symbol (e @ CHR ''T'' # rest) tab = Some (''E'', tab', CHR ''T'' # rest)" "syms_ok syms' tab'"
    using load_symbol_marshal [OF p(3) assms(2), of "CHR ''T'' # rest"] by auto
  show ?thesis
    using load_raw_marshal [OF p(1), of "one @ e @ CHR ''T'' # rest"] load_int_marshal [OF p(2), of "e @ CHR ''T'' # rest"] e
    by (simp add: p(4) load_string_def)
qed

section \<open>Values\<close>

lemma load_counted_marshal:
  assumes "marshalIntInternal (int (length xs)) = Inr n"
    and "load_list item (length xs) tab (outs @ rest) = Some (ys, tab', rest)"
  shows "load_counted item tab (n @ outs @ rest) = Some (ys, tab', rest)"
  using load_int_marshal [OF assms(1), of "outs @ rest"] assms(2) by (simp add: load_counted_def)

text \<open>How deep a value nests: what the reader's fuel has to exceed.\<close>

fun depth :: "ruby_value \<Rightarrow> nat" and depth_elems :: "ruby_value list \<Rightarrow> nat"
  and depth_members :: "(string \<times> ruby_value) list \<Rightarrow> nat" where
  "depth (RArray vs) = Suc (depth_elems vs)"
| "depth (RUserMarshal name v) = Suc (depth v)"
| "depth (RUserDef name v) = Suc (depth v)"
| "depth (RObject name ms) = Suc (depth_members ms)"
| "depth v = 0"
| "depth_elems [] = 0"
| "depth_elems (v # vs) = max (depth v) (depth_elems vs)"
| "depth_members [] = 0"
| "depth_members ((k, v) # ms) = max (depth v) (depth_members ms)"

definition reads :: "(string list \<Rightarrow> string \<Rightarrow> ('a \<times> string list \<times> string) option) \<Rightarrow> 'a \<Rightarrow> symbols \<Rightarrow> string
    \<Rightarrow> symbols \<Rightarrow> bool" where
  "reads item x syms out syms' \<longleftrightarrow>
     (\<forall>tab rest. syms_ok syms tab \<longrightarrow> (\<exists>tab'. item tab (out @ rest) = Some (x, tab', rest) \<and> syms_ok syms' tab'))"

lemma readsI:
  "(\<And>tab rest. syms_ok syms tab \<Longrightarrow> \<exists>tab'. item tab (out @ rest) = Some (x, tab', rest) \<and> syms_ok syms' tab')
    \<Longrightarrow> reads item x syms out syms'"
  by (simp add: reads_def)

lemma readsE:
  assumes "reads item x syms out syms'" and "syms_ok syms tab"
  obtains tab' where "item tab (out @ rest) = Some (x, tab', rest)" "syms_ok syms' tab'"
  using assms by (auto simp: reads_def)

lemma reads_symbol: "marshalSymbol str syms = Inr (out, syms') \<Longrightarrow> reads (\<lambda>tab s. load_symbol s tab) str syms out syms'"
  by (rule readsI) (rule load_symbol_marshal)

lemma reads_member:
  assumes "reads (\<lambda>tab s. load_symbol s tab) k syms s1 syms1" and "reads item v syms1 s2 syms2"
  shows "reads (load_member item) (k, v) syms (s1 @ s2) syms2"
proof (rule readsI)
  fix tab rest assume "syms_ok syms tab"
  from readsE [OF assms(1) this] obtain tab1
    where 1: "load_symbol (s1 @ s2 @ rest) tab = Some (k, tab1, s2 @ rest)" "syms_ok syms1 tab1" by blast
  from readsE [OF assms(2) 1(2)] obtain tab2 where "item tab1 (s2 @ rest) = Some (v, tab2, rest)" "syms_ok syms2 tab2" by blast
  with 1 show "\<exists>tab'. load_member item tab ((s1 @ s2) @ rest) = Some ((k, v), tab', rest) \<and> syms_ok syms2 tab'"
    by (simp add: load_member_def)
qed

lemma reads_list_Cons:
  assumes "reads item x syms s1 syms1" and "reads (load_list item (length xs)) xs syms1 s2 syms2"
  shows "reads (load_list item (length (x # xs))) (x # xs) syms (s1 @ s2) syms2"
proof (rule readsI)
  fix tab rest assume "syms_ok syms tab"
  from readsE [OF assms(1) this] obtain tab1
    where 1: "item tab (s1 @ s2 @ rest) = Some (x, tab1, s2 @ rest)" "syms_ok syms1 tab1" by blast
  from readsE [OF assms(2) 1(2)] obtain tab2
    where "load_list item (length xs) tab1 (s2 @ rest) = Some (xs, tab2, rest)" "syms_ok syms2 tab2" by blast
  with 1 show "\<exists>tab'. load_list item (length (x # xs)) tab ((s1 @ s2) @ rest) = Some (x # xs, tab', rest) \<and> syms_ok syms2 tab'"
    by simp
qed

lemma reads_counted:
  assumes "marshalIntInternal (int (length xs)) = Inr n" and "reads (load_list item (length xs)) xs syms out syms'"
  shows "reads (load_counted item) xs syms (n @ out) syms'"
proof (rule readsI)
  fix tab rest assume "syms_ok syms tab"
  from readsE [OF assms(2) this] obtain tab'
    where "load_list item (length xs) tab (out @ rest) = Some (xs, tab', rest)" "syms_ok syms' tab'" by blast
  with load_counted_marshal [OF assms(1) this(1)]
  show "\<exists>tab'. load_counted item tab ((n @ out) @ rest) = Some (xs, tab', rest) \<and> syms_ok syms' tab'" by simp
qed

lemma reads_value_map:
  assumes "reads item x syms out syms'" and "\<And>tab s. load_value fuel tab (c # s) = map_option (\<lambda>(y, t, r). (g y, t, r)) (item tab s)"
  shows "reads (load_value fuel) (g x) syms (c # out) syms'"
  using assms by (fastforce simp: reads_def)

lemma reads_value_user_def:
  assumes "reads (load_value fuel) v [] inner syms0" and "reads (\<lambda>tab s. load_symbol s tab) name syms s syms1"
    and "marshalIntInternal (int (length (marshal_version @ inner))) = Inr n"
  shows "reads (load_value (Suc fuel)) (RUserDef name v) syms (CHR ''u'' # s @ n @ marshal_version @ inner) syms1"
proof (rule readsI)
  fix tab rest assume "syms_ok syms tab"
  from readsE [OF assms(2) this, of "n @ marshal_version @ inner @ rest"] obtain tab1
    where 1: "load_symbol (s @ n @ marshal_version @ inner @ rest) tab = Some (name, tab1, n @ marshal_version @ inner @ rest)"
      "syms_ok syms1 tab1" by blast
  from readsE [OF assms(1), of "[]" "[]"] obtain tab2 where 2: "load_value fuel [] inner = Some (v, tab2, [])" by auto
  have "load_raw (n @ marshal_version @ inner @ rest) = Some (marshal_version @ inner, rest)"
    using load_raw_marshal [OF assms(3), of rest] by simp
  moreover have "take 2 (marshal_version @ inner) = marshal_version" "drop 2 (marshal_version @ inner) = inner"
    by (simp_all add: marshal_version_def)
  ultimately show "\<exists>tab'. load_value (Suc fuel) tab ((CHR ''u'' # s @ n @ marshal_version @ inner) @ rest) =
      Some (RUserDef name v, tab', rest) \<and> syms_ok syms1 tab'"
    using 1 2 by simp
qed

lemma reads_value_object:
  assumes "reads (\<lambda>tab s. load_symbol s tab) name syms s syms1"
    and "reads (load_counted (load_member (load_value fuel))) ms syms1 out syms2"
  shows "reads (load_value (Suc fuel)) (RObject name ms) syms (CHR ''o'' # s @ out) syms2"
proof (rule readsI)
  fix tab rest assume "syms_ok syms tab"
  from readsE [OF assms(1) this] obtain tab1
    where 1: "load_symbol (s @ out @ rest) tab = Some (name, tab1, out @ rest)" "syms_ok syms1 tab1" by blast
  from readsE [OF assms(2) 1(2)] obtain tab2
    where "load_counted (load_member (load_value fuel)) tab1 (out @ rest) = Some (ms, tab2, rest)" "syms_ok syms2 tab2" by blast
  with 1 show "\<exists>tab'. load_value (Suc fuel) tab ((CHR ''o'' # s @ out) @ rest) = Some (RObject name ms, tab', rest) \<and> syms_ok syms2 tab'"
    by simp
qed

lemma reads_marshal:
  "marshal v syms = Inr (out, syms') \<Longrightarrow> depth v < fuel \<Longrightarrow> reads (load_value fuel) v syms out syms'"
  "marshal_elems vs syms = Inr (out, syms') \<Longrightarrow> depth_elems vs < fuel \<Longrightarrow>
     reads (load_list (load_value fuel) (length vs)) vs syms out syms'"
  "marshal_members ms syms = Inr (out, syms') \<Longrightarrow> depth_members ms < fuel \<Longrightarrow>
     reads (load_list (load_member (load_value fuel)) (length ms)) ms syms out syms'"
proof (induction v syms and vs syms and ms syms
    arbitrary: out syms' fuel and out syms' fuel and out syms' fuel rule: marshal_marshal_elems_marshal_members.induct)
  case (1 syms)
  then show ?case by (cases fuel) (auto simp: reads_def)
next
  case (2 b syms)
  then show ?case by (cases fuel) (auto simp: reads_def marshalBool_def split: if_splits)
next
  case (3 i syms)
  then show ?case by (cases fuel) (auto simp: reads_def bind_result_Inr_iff load_int_marshal)
next
  case (4 str syms)
  obtain f where f: "fuel = Suc f" using 4(2) by (cases fuel) auto
  show ?case
  proof (rule readsI)
    fix tab rest assume "syms_ok syms tab"
    with 4(1) obtain body tab' where "out = CHR ''I'' # body" "load_string tab (body @ rest) = Some (RString str, tab', rest)"
      "syms_ok syms' tab'" using load_string_marshal [of str syms out syms' tab rest] by auto
    then show "\<exists>tab'. load_value fuel tab (out @ rest) = Some (RString str, tab', rest) \<and> syms_ok syms' tab'"
      by (simp add: f)
  qed
next
  case (5 vs syms)
  obtain f where f: "fuel = Suc f" using 5(3) by (cases fuel) auto
  obtain n o1 where p: "marshalIntInternal (int (length vs)) = Inr n" "marshal_elems vs syms = Inr (o1, syms')"
    "out = CHR ''['' # n @ o1"
    using 5(2) by (auto simp: bind_result_Inr_iff)
  have "reads (load_counted (load_value f)) vs syms (n @ o1) syms'"
    by (rule reads_counted [OF p(1) 5(1)]) (use p 5(3) f in simp_all)
  then show ?case unfolding p(3) f by (rule reads_value_map) simp
next
  case (6 name v syms)
  obtain f where f: "fuel = Suc f" using 6(3) by (cases fuel) auto
  obtain s syms1 o1 where p: "marshalSymbol name syms = Inr (s, syms1)" "marshal v syms1 = Inr (o1, syms')"
    "out = CHR ''U'' # s @ o1"
    using 6(2) by (auto simp: bind_result_Inr_iff)
  have "reads (load_member (load_value f)) (name, v) syms (s @ o1) syms'"
    by (rule reads_member [OF reads_symbol [OF p(1)] 6(1)]) (use p 6(3) f in auto)
  from reads_value_map [OF this, of "Suc f" "CHR ''U''" "\<lambda>(k, v). RUserMarshal k v"]
  show ?case unfolding p(3) f by (auto simp: case_prod_unfold)
next
  case (7 name v syms)
  obtain f where f: "fuel = Suc f" using 7(3) by (cases fuel) auto
  obtain inner syms0 s n where p: "marshal v [] = Inr (inner, syms0)" "marshalSymbol name syms = Inr (s, syms')"
    "marshalIntInternal (int (length (marshal_version @ inner))) = Inr n" "out = CHR ''u'' # s @ n @ marshal_version @ inner"
    using 7(2) by (auto simp: bind_result_Inr_iff)
  show ?case unfolding p(4) f
    by (rule reads_value_user_def [OF 7(1) [OF p(1)] reads_symbol [OF p(2)] p(3)]) (use 7(3) f in simp)
next
  case (8 name ms syms)
  obtain f where f: "fuel = Suc f" using 8(3) by (cases fuel) auto
  obtain s syms1 n o1 where p: "marshalSymbol name syms = Inr (s, syms1)" "marshalIntInternal (int (length ms)) = Inr n"
    "marshal_members ms syms1 = Inr (o1, syms')" "out = CHR ''o'' # s @ n @ o1"
    using 8(2) by (auto simp: bind_result_Inr_iff)
  have "reads (load_counted (load_member (load_value f))) ms syms1 (n @ o1) syms'"
    by (rule reads_counted [OF p(2) 8(1)]) (use p 8(3) f in auto)
  then show ?case unfolding p(4) f by (rule reads_value_object [OF reads_symbol [OF p(1)]])
next
  case (11 v vs syms)
  obtain o1 syms1 o2 where p: "marshal v syms = Inr (o1, syms1)" "marshal_elems vs syms1 = Inr (o2, syms')" "out = o1 @ o2"
    using 11(3) by (auto simp: bind_result_Inr_iff)
  show ?case unfolding p(3)
    by (rule reads_list_Cons [OF 11(1) [OF p(1)] 11(2)]) (use p 11(4) in auto)
next
  case (13 k v kvs syms)
  obtain s syms1 o1 syms2 o2 where p: "marshalSymbol k syms = Inr (s, syms1)" "marshal v syms1 = Inr (o1, syms2)"
    "marshal_members kvs syms2 = Inr (o2, syms')" "out = (s @ o1) @ o2"
    using 13(3) by (auto simp: bind_result_Inr_iff)
  have "reads (load_member (load_value fuel)) (k, v) syms (s @ o1) syms2"
    by (rule reads_member [OF reads_symbol [OF p(1)] 13(1)]) (use p 13(4) in auto)
  then show ?case unfolding p(4) by (rule reads_list_Cons [OF _ 13(2)]) (use p 13(4) in auto)
qed (auto simp: reads_def)

lemma load_Encode:
  assumes "Encode v = Inr b" and "depth v < fuel"
  shows "load fuel b = Some v"
proof -
  obtain out syms' where p: "marshal v [] = Inr (out, syms')" "b = marshal_version @ out"
    using assms(1) by (auto simp: Encode_def bind_result_Inr_iff)
  from readsE [OF reads_marshal(1) [OF p(1) assms(2)], of "[]" "[]"] obtain tab'
    where "load_value fuel [] out = Some (v, tab', [])" by auto
  moreover have "take 2 b = marshal_version" "drop 2 b = out" by (simp_all add: p(2) marshal_version_def)
  ultimately show ?thesis by (simp add: load_def)
qed

section \<open>The protocol's documents\<close>

text \<open>
C28: What the RubyGems endpoints send can be read back: whatever value the encoder accepts - with strings,
  arrays, objects and shared symbols nested to any depth - a reader of Ruby's Marshal format that
  follows the nesting gets exactly that value; and of the integers the encoder accepts
  every one of 31 bits but those from -1048576 to -65537.
\<close>

theorem marshal_roundtrip:
  shows "(Encode v = Inr b \<longrightarrow> load (Suc (depth v)) b = Some v)
    \<and> ((\<exists>b. Encode (RInt i) = Inr b) \<longleftrightarrow> -0x40000000 \<le> i \<and> i \<le> 0x3fffffff \<and> \<not> (-0x100000 \<le> i \<and> i < -0x10000))"
proof (intro conjI impI)
  assume "Encode v = Inr b"
  then show "load (Suc (depth v)) b = Some v" by (rule load_Encode) simp
next
  have "(\<exists>b. Encode (RInt i) = Inr b) \<longleftrightarrow> marshalIntInternal i \<noteq> Inl ErrInvalidIntRange"
    using marshalIntInternal_Inl [of i] by (cases "marshalIntInternal i") (auto simp: Encode_def)
  then show "(\<exists>b. Encode (RInt i) = Inr b) \<longleftrightarrow> -0x40000000 \<le> i \<and> i \<le> 0x3fffffff \<and> \<not> (-0x100000 \<le> i \<and> i < -0x10000)"
    unfolding marshalIntInternal_refused by (simp add: not_less)
qed

definition sample_gem :: ruby_value where
  "sample_gem = RArray [RString ''rack'', RUserMarshal ''Gem::Version'' (RArray [RString ''3.0''])]"

lemma sample_gem_encoded: "\<exists>b. Encode sample_gem = Inr b"
proof -
  have "case Encode sample_gem of Inl e \<Rightarrow> False | Inr b \<Rightarrow> True" by code_simp
  then show ?thesis by (auto split: sum.splits)
qed

theorem marshal_roundtrip_witness: "\<exists>b. Encode sample_gem = Inr b \<and> load 4 b = Some sample_gem"
proof -
  obtain b where b: "Encode sample_gem = Inr b" using sample_gem_encoded by blast
  have "Suc (depth sample_gem) = 4" by (simp add: sample_gem_def)
  with marshal_roundtrip [of sample_gem b 0] b have "load 4 b = Some sample_gem" by simp
  with b show ?thesis by blast
qed

end
