(* ===== verification/Http.thy ===== *)
theory Http
  imports Package_Service Auth Policy_Engine Go_Values
begin

text \<open>
  What the package handlers have in common: what a request brings along and what a response consists of.

  A handler of a format is a function from the request, the database and the object store to the
  new database and store and the response. gin's part - splitting the path into parameters,
  decoding them, writing the response - is not modelled: the parameters of the path are arguments.
  \<open>env\<close> holds what the surroundings supply: the clock, the identity the authentication middleware
  resolved, the policy engine (the interface \<open>policy.Engine\<close>), and the texts of an internal error and of a failure to read the body,
  which only ever appear in the body of an error response.
\<close>

record env =
  en_now :: int
  en_caller :: "identity option"
  en_engine :: "subject \<Rightarrow> action \<Rightarrow> eval_result"
  en_error_text :: "service_error \<Rightarrow> string"
  en_read_error :: string

datatype body = NoBody | Text string | Json json | Content string

record response =
  rs_Status :: int
  rs_Headers :: "(string \<times> string) list"
  rs_Body :: body

abbreviation reply :: "int \<Rightarrow> body \<Rightarrow> response" where
  "reply status b \<equiv> \<lparr>rs_Status = status, rs_Headers = [], rs_Body = b\<rparr>"

text \<open>A step of a handler either answers the request or goes on with a value.\<close>

type_synonym 'a step = "(response, 'a) result"

text \<open>The guards of \<open>auth\<close> with the answers they give.\<close>

definition guard_reply :: "guard_result \<Rightarrow> unit step" where
  "guard_reply g =
     (case g of
        Granted \<Rightarrow> Inr ()
      | Challenge401 \<Rightarrow>
          Inl \<lparr>rs_Status = 401, rs_Headers = [(''WWW-Authenticate'', ''Basic realm=\"pkgmirror\"'')],
               rs_Body = Text ''Unauthorized''\<rparr>
      | Forbidden403 \<Rightarrow> Inl (reply 403 (Text ''forbidden'')))"

lemma guard_reply_Inr [simp]: "guard_reply g = Inr u \<longleftrightarrow> g = Granted"
  by (cases g) (simp_all add: guard_reply_def)

lemma guard_reply_Granted [simp]: "guard_reply Granted = Inr ()"
  by simp

text \<open>Answering with a step that has not gone on.\<close>

lemma bind_result_Inl_iff:
  "bind_result m f = Inl e \<longleftrightarrow> m = Inl e \<or> (\<exists>x. m = Inr x \<and> f x = Inl e)"
  by (cases m) simp_all

end
