(* ===== verification/Generic_Handler.thy ===== *)
theory Generic_Handler
  imports Http
begin

text \<open>
  The generic format (\<open>internal/packages/generic/handler.go\<close>): arbitrary files under
  (tenant, name, version, filename), with the four routes upload, download, delete a file and delete
  a version.
\<close>

section \<open>Names\<close>

definition ascii_alnum :: "char \<Rightarrow> bool" where
  "ascii_alnum c =
     (let n = (of_char c :: nat) in (48 \<le> n \<and> n \<le> 57) \<or> (65 \<le> n \<and> n \<le> 90) \<or> (97 \<le> n \<and> n \<le> 122))"

text \<open>\<open>\w\<close> of Go's regular expressions.\<close>

definition word_char :: "char \<Rightarrow> bool" where
  "word_char c = (ascii_alnum c \<or> c = CHR ''_'')"

text \<open>\<open>unicode.IsLetter\<close> or \<open>unicode.IsNumber\<close> of the rune with the number of a single byte.\<close>

definition byte_letter_or_number :: "char \<Rightarrow> bool" where
  "byte_letter_or_number c =
     (let n = (of_char c :: nat) in
      ascii_alnum c \<or> n \<in> {0xAA, 0xB2, 0xB3, 0xB5, 0xB9, 0xBA, 0xBC, 0xBD, 0xBE}
      \<or> (0xC0 \<le> n \<and> n \<noteq> 0xD7 \<and> n \<noteq> 0xF7))"

definition isValidPackageName :: "string \<Rightarrow> bool" where
  "isValidPackageName name =
     (if name = [] then False
      else if length name = 1 \<and> \<not> byte_letter_or_number (hd name) then False
      else list_all (\<lambda>c. c \<in> set ''-_+.'' \<or> word_char c) name \<and> name \<noteq> ''..'')"

definition isValidFilename :: "string \<Rightarrow> bool" where
  "isValidFilename filename =
     (filename \<noteq> [] \<and> list_all (\<lambda>c. c \<in> set ''-_+=:;.()[]{}~!@#$%^& '' \<or> word_char c) filename
      \<and> trim_space filename = filename \<and> filename \<noteq> ''.'' \<and> filename \<noteq> ''..'')"

section \<open>Steps the routes share\<close>

definition generic_tenantFromPath :: "env \<Rightarrow> db \<Rightarrow> string \<Rightarrow> tenant step" where
  "generic_tenantFromPath en d name =
     (case tenants_GetByName d name of
        Inr t \<Rightarrow> Inr t
      | Inl e \<Rightarrow>
          (if e = ErrTenantNotExist then Inl (reply 404 (Text (''tenant '' @ go_quote name @ '' not found'')))
           else Inl (reply 500 (Text (en_error_text en (ModelError e))))))"

definition readParams :: "string \<Rightarrow> string \<Rightarrow> string option \<Rightarrow> unit step" where
  "readParams name version filename =
     (if \<not> isValidPackageName name then Inl (reply 400 (Text ''invalid package name''))
      else if version = [] \<or> version \<noteq> trim_space version then Inl (reply 400 (Text ''invalid package version''))
      else (case filename of
          Some f \<Rightarrow> if \<not> isValidFilename f then Inl (reply 400 (Text ''invalid filename'')) else Inr ()
        | None \<Rightarrow> Inr ()))"

definition generic_subjectFor :: "int \<Rightarrow> tenant \<Rightarrow> package \<Rightarrow> pkg_version option \<Rightarrow> string \<Rightarrow> subject" where
  "generic_subjectFor now tenant pkg ver filename =
     (let s = \<lparr>subj_TenantID = ten_ID tenant, subj_Format = ''generic'', subj_Package = pkg_LowerName pkg,
               subj_Version = [], subj_Filename = filename, subj_Attrs = Map.empty\<rparr> in
      case ver of
        None \<Rightarrow> s
      | Some v \<Rightarrow>
          s\<lparr>subj_Version := ver_Version v,
            subj_Attrs := [''created_unix'' \<mapsto> AttrInt64 (ver_CreatedUnix v),
                           ''ingest_age_seconds'' \<mapsto> AttrInt64 (wrap64 (now - ver_CreatedUnix v))]\<rparr>)"

definition policyReason :: "eval_result \<Rightarrow> string" where
  "policyReason r = (if res_Reason r = [] then decision_String (res_Decision r) else res_Reason r)"

definition generic_checkRead :: "env \<Rightarrow> tenant \<Rightarrow> package \<Rightarrow> pkg_version option \<Rightarrow> string \<Rightarrow> unit step" where
  "generic_checkRead en tenant pkg ver filename =
     (let r = en_engine en (generic_subjectFor (en_now en) tenant pkg ver filename) ActionRead in
      if IsBlocked r then Inl (reply 403 (Text (policyReason r))) else Inr ())"

definition generic_checkIngest :: "env \<Rightarrow> tenant \<Rightarrow> string \<Rightarrow> string \<Rightarrow> string \<Rightarrow> unit step" where
  "generic_checkIngest en tenant name version filename =
     (let subj = \<lparr>subj_TenantID = ten_ID tenant, subj_Format = ''generic'', subj_Package = to_lower name,
                  subj_Version = version, subj_Filename = filename,
                  subj_Attrs = [''created_unix'' \<mapsto> AttrInt64 (en_now en), ''ingest_age_seconds'' \<mapsto> AttrInt64 0]\<rparr>;
          r = en_engine en subj ActionIngest
      in if res_Decision r \<ge> Deny then Inl (reply 403 (Text (policyReason r))) else Inr ())"

definition lookup_version :: "db \<Rightarrow> tenant \<Rightarrow> string \<Rightarrow> string \<Rightarrow> (string, package \<times> pkg_version) result" where
  "lookup_version d tenant name version =
     (case GetPackageByLookup d (ten_ID tenant) ''generic'' (to_lower name) of
        Inl e \<Rightarrow> Inl (''package '' @ name @ '' not found'')
      | Inr pkg \<Rightarrow>
          (case GetVersion d (pkg_ID pkg) version of
             Inl e \<Rightarrow> Inl (''version '' @ name @ ''@'' @ version @ '' not found'')
           | Inr ver \<Rightarrow> Inr (pkg, ver)))"

definition generic_lookup :: "db \<Rightarrow> tenant \<Rightarrow> string \<Rightarrow> string \<Rightarrow> string
    \<Rightarrow> (string, package \<times> pkg_version \<times> pkg_file) result" where
  "generic_lookup d tenant name version filename =
     bind_result (lookup_version d tenant name version) (\<lambda>(pkg, ver).
     (case GetFileByVersionAndName d (ver_ID ver) filename of
        Inl e \<Rightarrow> Inl (''file '' @ filename @ '' not found in '' @ name @ ''@'' @ version)
      | Inr file \<Rightarrow> Inr (pkg, ver, file)))"

section \<open>Routes\<close>

definition generic_info :: "tenant \<Rightarrow> string \<Rightarrow> string \<Rightarrow> string \<Rightarrow> creation_info" where
  "generic_info tenant name version filename =
     \<lparr>ci_TenantID = ten_ID tenant, ci_PackageType = ''generic'', ci_PackageName = name,
      ci_PackageLookupName = to_lower name, ci_Version = version, ci_VersionProperties = [],
      ci_VersionMetadataJSON = [], ci_Filename = filename, ci_IsLead = True, ci_CreatedVia = []\<rparr>"

definition generic_upload :: "env \<Rightarrow> (string \<Rightarrow> reader \<Rightarrow> 's \<Rightarrow> 's \<times> (storage_error, nat) result) \<Rightarrow> digests \<Rightarrow> int
    \<Rightarrow> string \<Rightarrow> string \<Rightarrow> string \<Rightarrow> string \<Rightarrow> reader \<Rightarrow> db \<Rightarrow> 's \<Rightarrow> db \<times> 's \<times> response" where
  "generic_upload en save dg lr tname name version filename rd d s =
     (case bind_result (generic_tenantFromPath en d tname) (\<lambda>tenant.
           bind_result (guard_reply (RequireWrite (en_caller en) tenant)) (\<lambda>_.
           bind_result (readParams name version (Some filename)) (\<lambda>_.
           bind_result (generic_checkIngest en tenant name version filename) (\<lambda>_. Inr tenant)))) of
        Inl r \<Rightarrow> (d, s, r)
      | Inr tenant \<Rightarrow>
          (case NewHashedBufferInDir rd of
             None \<Rightarrow> (d, s, reply 500 (Text (''buffer: '' @ en_read_error en)))
           | Some buf \<Rightarrow>
               (case CreatePackageOrAddFileToExisting save dg lr (en_now en) (generic_info tenant name version filename) buf d s of
                  (d', s', _, _, Inr _) \<Rightarrow> (d', s', reply 201 NoBody)
                | (d', s', _, _, Inl e) \<Rightarrow>
                    (d', s',
                     if e = ModelError ErrDuplicatePackageFile
                     then reply 409 (Text (''file '' @ filename @ '' already exists in '' @ name @ ''@'' @ version))
                     else reply 500 (Text (''ingest: '' @ en_error_text en e))))))"

definition generic_download :: "env \<Rightarrow> ('s \<Rightarrow> string \<Rightarrow> (storage_error, string) result) \<Rightarrow> string \<Rightarrow> string
    \<Rightarrow> string \<Rightarrow> string \<Rightarrow> db \<Rightarrow> 's \<Rightarrow> response" where
  "generic_download en get tname name version filename d s =
     (case bind_result (generic_tenantFromPath en d tname) (\<lambda>tenant.
           bind_result (guard_reply (RequireRead (en_caller en) tenant)) (\<lambda>_.
           bind_result (readParams name version (Some filename)) (\<lambda>_.
           (case generic_lookup d tenant name version filename of
              Inl msg \<Rightarrow> Inl (reply 404 (Text msg))
            | Inr (pkg, ver, file) \<Rightarrow>
                bind_result (generic_checkRead en tenant pkg (Some ver) filename) (\<lambda>_. Inr file))))) of
        Inl r \<Rightarrow> r
      | Inr file \<Rightarrow>
          (case OpenFile get d s file of
             Inl e \<Rightarrow> reply 500 (Text (en_error_text en e))
           | Inr (c, bl) \<Rightarrow>
               \<lparr>rs_Status = 200,
                rs_Headers = [(''Content-Type'', ''application/octet-stream''),
                              (''Content-Disposition'', ''attachment; filename='' @ go_quote (file_Name file)),
                              (''Content-Length'', show_int (blob_Size bl))],
                rs_Body = Content c\<rparr>))"

definition generic_deleteFile :: "env \<Rightarrow> string \<Rightarrow> string \<Rightarrow> string \<Rightarrow> string \<Rightarrow> db \<Rightarrow> db \<times> response" where
  "generic_deleteFile en tname name version filename d =
     (case bind_result (generic_tenantFromPath en d tname) (\<lambda>tenant.
           bind_result (guard_reply (RequireWrite (en_caller en) tenant)) (\<lambda>_.
           bind_result (readParams name version (Some filename)) (\<lambda>_.
           (case generic_lookup d tenant name version filename of
              Inl msg \<Rightarrow> Inl (reply 404 (Text msg))
            | Inr (pkg, ver, file) \<Rightarrow> Inr (ver, file))))) of
        Inl r \<Rightarrow> (d, r)
      | Inr (ver, file) \<Rightarrow>
          (if length (ListFilesByVersion d (ver_ID ver)) = 1 then (DeleteVersion (ver_ID ver) d, reply 204 NoBody)
           else (DeleteFile (file_ID file) d, reply 204 NoBody)))"

definition generic_deleteVersion :: "env \<Rightarrow> string \<Rightarrow> string \<Rightarrow> string \<Rightarrow> db \<Rightarrow> db \<times> response" where
  "generic_deleteVersion en tname name version d =
     (case bind_result (generic_tenantFromPath en d tname) (\<lambda>tenant.
           bind_result (guard_reply (RequireWrite (en_caller en) tenant)) (\<lambda>_.
           bind_result (readParams name version None) (\<lambda>_.
           (case lookup_version d tenant name version of
              Inl msg \<Rightarrow> Inl (reply 404 (Text msg))
            | Inr (pkg, ver) \<Rightarrow> Inr ver)))) of
        Inl r \<Rightarrow> (d, r)
      | Inr ver \<Rightarrow> (DeleteVersion (ver_ID ver) d, reply 204 NoBody))"

end
