(* ===== verification/Generic_Laws.thy ===== *)
theory Generic_Laws
  imports Service_Laws Generic_Handler
begin

text \<open>
  What an ingest leaves in the catalogue, and what the routes of the generic format promise: access
  control, upload and download, and what quarantining a version does to its downloads.
\<close>

section \<open>What an ingest leaves behind\<close>

lemma SetProperty_tenants [simp]: "db_tenants (SetProperty rt ri n v d) = db_tenants d"
  by (simp add: SetProperty_def Let_def insert_row_def)

lemma set_properties_tenants [simp]: "db_tenants (set_properties vid kvs d) = db_tenants d"
  by (induction kvs arbitrary: d) (auto simp: set_properties_def)

lemma GetOrCreateBlob_tables:
  assumes "GetOrCreateBlob lr now b d = (d', r)"
  shows "db_packages d' = db_packages d" "db_versions d' = db_versions d" "db_tenants d' = db_tenants d"
    "db_files d' = db_files d" "db_properties d' = db_properties d"
  using assms by (auto simp: GetOrCreateBlob_def Let_def split: sum.splits option.splits if_splits)

lemma CreateFile_tables:
  assumes "CreateFile now f d = (d', r)"
  shows "db_packages d' = db_packages d" "db_versions d' = db_versions d" "db_tenants d' = db_tenants d"
    "db_properties d' = db_properties d"
  using assms by (auto simp: CreateFile_def split: option.splits if_splits)

lemma CreateVersion_tables:
  assumes "CreateVersion now pid ver meta d = (d', r)"
  shows "db_packages d' = db_packages d" "db_tenants d' = db_tenants d" "db_files d' = db_files d"
    "db_properties d' = db_properties d"
  using assms by (auto simp: CreateVersion_def Let_def split: option.splits if_splits)

lemma GetOrCreatePackageWithLookup_tables:
  assumes "GetOrCreatePackageWithLookup lr now ten t dn lk via d = (d', r)"
  shows "db_tenants d' = db_tenants d" "db_versions d' = db_versions d" "db_files d' = db_files d"
    "db_properties d' = db_properties d" "db_blobs d' = db_blobs d"
  using assms by (auto simp: GetOrCreatePackageWithLookup_def insert_package_def Let_def split: sum.splits option.splits if_splits)

lemma GetOrCreateBlob_keeps:
  "GetOrCreateBlob lr now b d = (d', r) \<Longrightarrow>
     db_packages d' = db_packages d \<and> db_versions d' = db_versions d \<and> db_tenants d' = db_tenants d"
  by (simp add: GetOrCreateBlob_tables)

lemma CreateFile_keeps:
  "CreateFile now f d = (d', r) \<Longrightarrow>
     db_packages d' = db_packages d \<and> db_versions d' = db_versions d \<and> db_tenants d' = db_tenants d"
  by (simp add: CreateFile_tables)

lemma store_file_tables:
  assumes "store_file save dg lr now info b ver d s = (d', s', r)"
  shows "db_packages d' = db_packages d" "db_versions d' = db_versions d" "db_tenants d' = db_tenants d"
  using assms
  by (auto simp: store_file_def Let_def Sums_def split: prod.splits sum.splits
      dest!: GetOrCreateBlob_keeps CreateFile_keeps)

lemma store_file_row:
  assumes "store_file save dg lr now info b ver d s = (d', s', Inr f)"
  shows "f \<in> set (rows (db_files d'))" "file_VersionID f = ver_ID ver" "file_Name f = ci_Filename info"
    "file_LowerName f = to_lower (ci_Filename info)"
proof -
  obtain d2 and bl :: blob where "CreateFile now \<lparr>file_ID = 0, file_VersionID = ver_ID ver, file_BlobID = blob_ID bl,
      file_Name = ci_Filename info, file_LowerName = [], file_IsLead = ci_IsLead info, file_CreatedUnix = 0\<rparr> d2 = (d', Inr f)"
    using assms by (auto simp: store_file_def Let_def Sums_def split: prod.splits sum.splits)
  from CreateFile_success [OF this] show "f \<in> set (rows (db_files d'))" "file_VersionID f = ver_ID ver"
    "file_Name f = ci_Filename info" "file_LowerName f = to_lower (ci_Filename info)" by (auto simp: mk_file_def)
qed

lemma CreateVersion_found:
  assumes "catalog_ok d" and "CreateVersion now pid version meta d = (d', Inr ver)"
  shows "GetVersion d' pid version = Inr ver"
proof -
  let ?m = "if meta = [] then ''{}'' else meta"
  obtain tb where ins: "insert_unique ver_key (mk_version (pid, version, ?m, now)) (db_versions d) = Some (ver, tb)"
    "d' = d\<lparr>db_versions := tb\<rparr>"
    using assms(2) by (auto simp: CreateVersion_def Let_def split: option.splits if_splits)
  have ok: "catalog_ok d'" using CreateVersion_ok [OF assms(1), of now pid version meta] assms(2) by simp
  have "ver \<in> set (rows tb)" "ver_key ver = (pid, to_lower version)"
    using version_rows.insert_SomeD(1,2) [OF ins(1)] by (simp_all add: mk_version_def ver_key_def)
  then show ?thesis using GetVersion_iff [OF catalog_okD(2) [OF ok], of pid version ver] ins(2) by simp
qed

lemma GetVersion_cong: "db_versions d' = db_versions d \<Longrightarrow> GetVersion d' = GetVersion d"
  by (simp add: fun_eq_iff GetVersion_def)

lemma tenants_GetByName_cong: "db_tenants d' = db_tenants d \<Longrightarrow> tenants_GetByName d' = tenants_GetByName d"
  by (simp add: fun_eq_iff tenants_GetByName_def)

lemma GetFileByVersionAndName_row:
  assumes "catalog_ok d"
  shows "GetFileByVersionAndName d vid name = Inr f \<longleftrightarrow>
    f \<in> set (rows (db_files d)) \<and> file_VersionID f = vid \<and> file_LowerName f = to_lower name"
  by (simp add: GetFileByVersionAndName_iff [OF catalog_okD(4) [OF assms]] file_key_def)

lemma ingest_found:
  assumes "catalog_ok d" and "catalog_ok d'"
    and "CreatePackageOrAddFileToExisting save dg lr now info b d s = (d', s', p, v, Inr f)"
  shows "\<exists>pkg ver. p = Some pkg \<and> v = Some ver
    \<and> GetPackageByLookup d' (ci_TenantID info) (ci_PackageType info) (ci_lookup info) = Inr pkg
    \<and> GetVersion d' (pkg_ID pkg) (ci_Version info) = Inr ver
    \<and> GetFileByVersionAndName d' (ver_ID ver) (ci_Filename info) = Inr f \<and> db_tenants d' = db_tenants d"
proof -
  obtain d1 x where pk: "ci_getOrCreatePackage lr now info d = (d1, x)" by (cases "ci_getOrCreatePackage lr now info d")
  then obtain pkg where pkg: "x = Inr pkg" "p = Some pkg"
    using assms(3) by (cases x) (auto simp: CreatePackageOrAddFileToExisting_def split: if_splits prod.splits sum.splits)
  from pk pkg(1) have pk': "GetOrCreatePackageWithLookup lr now (ci_TenantID info) (ci_PackageType info) (ci_PackageName info)
      (ci_lookup info) (if ci_CreatedVia info = [] then CreatedViaUploaded else ci_CreatedVia info) d = (d1, Inr pkg)"
    by (simp add: ci_getOrCreatePackage_eq)
  have found: "GetPackageByLookup d1 (ci_TenantID info) (ci_PackageType info) (ci_lookup info) = Inr pkg"
    by (rule created_package_found [OF assms(1) pk'])
  have ok1: "catalog_ok d1" using ci_getOrCreatePackage_ok [OF assms(1), of lr now info] pk by simp
  obtain d2 ver where ver: "v = Some ver" "store_file save dg lr now info b ver d2 s = (d', s', Inr f)"
    "GetVersion d2 (pkg_ID pkg) (ci_Version info) = Inr ver" "db_packages d2 = db_packages d1" "db_tenants d2 = db_tenants d1"
  proof (cases "GetVersion d1 (pkg_ID pkg) (ci_Version info)")
    case (Inr ver)
    then show thesis
      using that assms(3) pk pkg by (auto simp: CreatePackageOrAddFileToExisting_def split: if_splits prod.splits)
  next
    case (Inl e)
    obtain d2 y where cv: "CreateVersion now (pkg_ID pkg) (ci_Version info) (ci_VersionMetadataJSON info) d1 = (d2, y)"
      by (cases "CreateVersion now (pkg_ID pkg) (ci_Version info) (ci_VersionMetadataJSON info) d1")
    note tabs = CreateVersion_tables [OF cv]
    show thesis
    proof (cases y)
      case (Inr ver)
      with cv have "GetVersion d2 (pkg_ID pkg) (ci_Version info) = Inr ver" using CreateVersion_found [OF ok1] by simp
      then show thesis
        using that Inr Inl assms(3) pk pkg cv tabs by (auto simp: CreatePackageOrAddFileToExisting_def split: if_splits prod.splits)
    next
      case (Inl e')
      then show thesis
        using that \<open>GetVersion d1 (pkg_ID pkg) (ci_Version info) = Inl e\<close> assms(3) pk pkg cv tabs
        by (auto simp: CreatePackageOrAddFileToExisting_def split: if_splits prod.splits sum.splits)
    qed
  qed
  note tabs = store_file_tables [OF ver(2)]
  have "GetPackageByLookup d' = GetPackageByLookup d1" by (rule GetPackageByLookup_cong) (simp add: tabs ver(4))
  moreover have "GetVersion d' = GetVersion d2" by (rule GetVersion_cong) (simp add: tabs)
  moreover have "GetFileByVersionAndName d' (ver_ID ver) (ci_Filename info) = Inr f"
    using store_file_row [OF ver(2)] by (simp add: GetFileByVersionAndName_row [OF assms(2)])
  moreover have "db_tenants d' = db_tenants d"
    using tabs(3) ver(5) GetOrCreatePackageWithLookup_tables(1) [OF pk'] by simp
  ultimately show ?thesis using found ver(1,3) pkg(2) by simp
qed

section \<open>The routes of the generic format\<close>

text \<open>A chain of guards goes on exactly when every guard does.\<close>

lemma generic_tenantFromPath_Inr:
  "generic_tenantFromPath en d name = Inr t \<longleftrightarrow> tenants_GetByName d name = Inr t"
  by (auto simp: generic_tenantFromPath_def split: sum.splits)

lemmas step_iff = bind_result_Inr_iff guard_reply_Inr generic_tenantFromPath_Inr

lemma RequireWrite_Granted:
  "RequireWrite idn t = Granted \<longleftrightarrow> (\<exists>i. idn = Some i \<and> CanWrite i (ten_ID t))"
  by (auto simp: RequireWrite_def split: option.splits)

lemma RequireRead_Granted:
  "RequireRead idn t = Granted \<longleftrightarrow>
     ten_Visibility t = VisibilityPublic \<or> (\<exists>i. idn = Some i \<and> CanRead i (ten_ID t))"
  by (auto simp: RequireRead_def split: option.splits)

text \<open>What the answers of the guards can be.\<close>

lemma guard_status: "guard_reply g = Inl r \<Longrightarrow> rs_Status r \<in> {401, 403}"
  by (cases g) (auto simp: guard_reply_def)

lemma tenant_status: "generic_tenantFromPath en d name = Inl r \<Longrightarrow> rs_Status r = 404"
  by (auto simp: generic_tenantFromPath_def tenants_GetByName_def split: option.splits)

lemma readParams_status: "readParams name version fn = Inl r \<Longrightarrow> rs_Status r = 400"
  by (auto simp: readParams_def split: if_splits option.splits)

lemma policy_status:
  "generic_checkRead en t pkg ver fn = Inl r \<Longrightarrow> rs_Status r = 403"
  "generic_checkIngest en t name version fn = Inl r \<Longrightarrow> rs_Status r = 403"
  by (auto simp: generic_checkRead_def generic_checkIngest_def Let_def split: if_splits)

lemma lookup_status:
  "(case generic_lookup d t name version filename of
      Inl msg \<Rightarrow> Inl (reply 404 (Text msg))
    | Inr (pkg, ver, file) \<Rightarrow> bind_result (generic_checkRead en t pkg (Some ver) filename) (\<lambda>_. Inr file)) = Inl r \<Longrightarrow>
   rs_Status r \<in> {403, 404}"
  by (auto simp: bind_result_Inl_iff split: sum.splits dest: policy_status)

lemmas statuses = guard_status tenant_status readParams_status policy_status lookup_status

lemma generic_upload_cases:
  assumes "generic_upload en save dg lr tname name version filename rd d s = (d', s', r)"
  obtains (refused) "d' = d" "s' = s" "rs_Status r \<noteq> 201"
  | (ingest) t i p v res where "tenants_GetByName d tname = Inr t" "en_caller en = Some i" "CanWrite i (ten_ID t)"
      "readParams name version (Some filename) = Inr ()" "rd_end rd = EOF"
      "CreatePackageOrAddFileToExisting save dg lr (en_now en) (generic_info t name version filename)
         \<lparr>hb_bytes = concat (rd_chunks rd)\<rparr> d s = (d', s', p, v, res)"
      "rs_Status r = 201 \<longleftrightarrow> (\<exists>f. res = Inr f)"
proof -
  let ?g = "bind_result (generic_tenantFromPath en d tname) (\<lambda>tenant.
           bind_result (guard_reply (RequireWrite (en_caller en) tenant)) (\<lambda>_.
           bind_result (readParams name version (Some filename)) (\<lambda>_.
           bind_result (generic_checkIngest en tenant name version filename) (\<lambda>_. Inr tenant))))"
  show thesis
  proof (cases ?g)
    case (Inl e)
    have "rs_Status e \<noteq> 201"
      using Inl by (auto simp: bind_result_Inl_iff dest!: statuses)
    then show thesis using Inl assms by (intro refused) (auto simp: generic_upload_def)
  next
    case (Inr t)
    then obtain i where g: "tenants_GetByName d tname = Inr t" "en_caller en = Some i" "CanWrite i (ten_ID t)"
      "readParams name version (Some filename) = Inr ()"
      by (auto simp: step_iff RequireWrite_Granted)
    show thesis
    proof (cases "rd_end rd = EOF")
      case False
      then show thesis using Inr assms by (intro refused) (auto simp: generic_upload_def NewHashedBufferInDir_def)
    next
      case True
      obtain d1 s1 p v res where c: "CreatePackageOrAddFileToExisting save dg lr (en_now en) (generic_info t name version filename)
         \<lparr>hb_bytes = concat (rd_chunks rd)\<rparr> d s = (d1, s1, p, v, res)" by (metis prod.exhaust)
      then have "d' = d1" "s' = s1" "rs_Status r = 201 \<longleftrightarrow> (\<exists>f. res = Inr f)"
        using Inr assms True by (auto simp: generic_upload_def NewHashedBufferInDir_def split: sum.splits if_splits)
      with g c True show thesis by (intro ingest) auto
    qed
  qed
qed

lemma ci_lookup_generic: "isValidPackageName name \<Longrightarrow> ci_lookup (generic_info t name version filename) = to_lower name"
  by (cases name) (auto simp: ci_lookup_def generic_info_def isValidPackageName_def to_lower_def)

lemma readParams_valid: "readParams name version fn = Inr u \<Longrightarrow> isValidPackageName name"
  by (auto simp: readParams_def split: if_splits)

lemma generic_download_found:
  assumes "tenants_GetByName d tname = Inr t" and "RequireRead (en_caller en) t = Granted"
    and "readParams name version (Some filename) = Inr ()"
    and "GetPackageByLookup d (ten_ID t) ''generic'' (to_lower name) = Inr pkg" and "GetVersion d (pkg_ID pkg) version = Inr ver"
    and "GetFileByVersionAndName d (ver_ID ver) filename = Inr f"
    and "\<not> IsBlocked (en_engine en (generic_subjectFor (en_now en) t pkg (Some ver) filename) ActionRead)"
    and "OpenFile get d s f = Inr (c, bl)"
  shows "\<exists>hs. generic_download en get tname name version filename d s = \<lparr>rs_Status = 200, rs_Headers = hs, rs_Body = Content c\<rparr>"
proof -
  have "generic_tenantFromPath en d tname = Inr t" using assms(1) by (simp add: generic_tenantFromPath_Inr)
  then show ?thesis
    using assms(2-8)
    by (simp add: generic_download_def generic_lookup_def lookup_version_def generic_checkRead_def Let_def)
qed

lemma generic_put_get:
  assumes "local.service_ok d s"
    and "generic_upload en (local_Save fault rnd) dg lr tname name version filename rd d s = (d', s', r)" and "rs_Status r = 201"
  shows "\<exists>t i. tenants_GetByName d tname = Inr t \<and> en_caller en = Some i \<and> CanWrite i (ten_ID t)
    \<and> (\<forall>en'. RequireRead (en_caller en') t = Granted \<longrightarrow> (\<forall>subj. \<not> IsBlocked (en_engine en' subj ActionRead)) \<longrightarrow>
         (\<exists>hs. generic_download en' local_Open tname name version filename d' s' =
            \<lparr>rs_Status = 200, rs_Headers = hs, rs_Body = Content (concat (rd_chunks rd))\<rparr>))"
  using assms(2)
proof (cases rule: generic_upload_cases)
  case refused
  with assms(3) show ?thesis by simp
next
  case (ingest t i p v res)
  then obtain f where f: "res = Inr f" using assms(3) by auto
  note up = ingest(6) [unfolded f]
  let ?info = "generic_info t name version filename"
  have valid: "isValidPackageName name" by (rule readParams_valid [OF ingest(4)])
  have ok: "catalog_ok d" using assms(1) by (simp add: local.service_ok_def)
  have ok': "catalog_ok d'" using local.ingest_ok(1) [OF assms(1) disjI2 [OF up]] by (simp add: local.service_ok_def)
  obtain pkg ver where found: "GetPackageByLookup d' (ten_ID t) ''generic'' (to_lower name) = Inr pkg"
    "GetVersion d' (pkg_ID pkg) version = Inr ver" "GetFileByVersionAndName d' (ver_ID ver) filename = Inr f"
    "db_tenants d' = db_tenants d"
    using ingest_found [OF ok ok' up] by (auto simp: ci_lookup_generic [OF valid]) (auto simp: generic_info_def)
  obtain bl where op: "OpenFile local_Open d' s' f = Inr (concat (rd_chunks rd), bl)"
    using local.ingest_ok(2) [OF assms(1) disjI2 [OF up], of f] by auto
  have "tenants_GetByName d' tname = Inr t" using ingest(1) tenants_GetByName_cong [OF found(4)] by simp
  from generic_download_found [OF this _ ingest(4) found(1-3) _ op] ingest(1-3) show ?thesis by blast
qed


section \<open>Properties of the routes\<close>

lemma generic_download_cases:
  assumes "catalog_ok d"
  obtains (refused) "rs_Status (generic_download en get tname name version filename d s) \<in> {400, 401, 403, 404}"
  | (served) t pkg ver f where "tenants_GetByName d tname = Inr t" "RequireRead (en_caller en) t = Granted"
      "\<not> IsBlocked (en_engine en (generic_subjectFor (en_now en) t pkg (Some ver) filename) ActionRead)"
      "pkg_TenantID pkg = ten_ID t" "ver_PackageID ver = pkg_ID pkg" "file_VersionID f = ver_ID ver"
      "f \<in> set (rows (db_files d))"
      "generic_download en get tname name version filename d s =
         (case OpenFile get d s f of
            Inl e \<Rightarrow> reply 500 (Text (en_error_text en e))
          | Inr (c, bl) \<Rightarrow> \<lparr>rs_Status = 200,
                rs_Headers = [(''Content-Type'', ''application/octet-stream''),
                              (''Content-Disposition'', ''attachment; filename='' @ go_quote (file_Name f)),
                              (''Content-Length'', show_int (blob_Size bl))],
                rs_Body = Content c\<rparr>)"
proof -
  let ?look = "\<lambda>tenant. case generic_lookup d tenant name version filename of
              Inl msg \<Rightarrow> Inl (reply 404 (Text msg))
            | Inr (pkg, ver, file) \<Rightarrow>
                bind_result (generic_checkRead en tenant pkg (Some ver) filename) (\<lambda>_. Inr file)"
  let ?g = "bind_result (generic_tenantFromPath en d tname) (\<lambda>tenant.
           bind_result (guard_reply (RequireRead (en_caller en) tenant)) (\<lambda>_.
           bind_result (readParams name version (Some filename)) (\<lambda>_. ?look tenant)))"
  show thesis
  proof (cases ?g)
    case (Inl e)
    have "rs_Status e \<in> {400, 401, 403, 404}"
      using Inl by (auto simp only: bind_result_Inl_iff dest!: statuses)
    then show thesis using Inl by (intro refused) (simp add: generic_download_def)
  next
    case (Inr f)
    then obtain t where t: "tenants_GetByName d tname = Inr t" "RequireRead (en_caller en) t = Granted" and look: "?look t = Inr f"
      by (auto simp only: step_iff)
    from look obtain pkg ver where g: "generic_lookup d t name version filename = Inr (pkg, ver, f)"
      "generic_checkRead en t pkg (Some ver) filename = Inr ()"
      by (cases "generic_lookup d t name version filename") (auto simp: step_iff)
    have "GetPackageByLookup d (ten_ID t) ''generic'' (to_lower name) = Inr pkg" "GetVersion d (pkg_ID pkg) version = Inr ver"
      "GetFileByVersionAndName d (ver_ID ver) filename = Inr f"
      using g(1) by (auto simp: generic_lookup_def lookup_version_def step_iff split: sum.splits)
    moreover have "generic_download en get tname name version filename d s = (case OpenFile get d s f of
            Inl e \<Rightarrow> reply 500 (Text (en_error_text en e))
          | Inr (c, bl) \<Rightarrow> \<lparr>rs_Status = 200,
                rs_Headers = [(''Content-Type'', ''application/octet-stream''),
                              (''Content-Disposition'', ''attachment; filename='' @ go_quote (file_Name f)),
                              (''Content-Length'', show_int (blob_Size bl))],
                rs_Body = Content c\<rparr>)"
      using Inr by (simp add: generic_download_def)
    ultimately show thesis using g(2) t
      by (intro served) (auto simp: GetPackageByLookup_iff [OF catalog_okD(1) [OF assms]] GetVersion_iff [OF catalog_okD(2) [OF assms]]
        GetFileByVersionAndName_row [OF assms] pkg_key_def ver_key_def generic_checkRead_def Let_def split: if_splits)
  qed
qed

lemma write_gate:
  assumes "bind_result (generic_tenantFromPath en d tname) (\<lambda>t. bind_result (guard_reply (RequireWrite (en_caller en) t)) (k t)) = Inr x"
  shows "\<exists>t i. tenants_GetByName d tname = Inr t \<and> en_caller en = Some i \<and> CanWrite i (ten_ID t)"
  using assms by (auto simp: step_iff RequireWrite_Granted)

lemma generic_deletes_guarded:
  "fst (generic_deleteFile en tname name version filename d) \<noteq> d \<Longrightarrow>
     \<exists>t i. tenants_GetByName d tname = Inr t \<and> en_caller en = Some i \<and> CanWrite i (ten_ID t)"
  "fst (generic_deleteVersion en tname name version d) \<noteq> d \<Longrightarrow>
     \<exists>t i. tenants_GetByName d tname = Inr t \<and> en_caller en = Some i \<and> CanWrite i (ten_ID t)"
  by (auto simp: generic_deleteFile_def generic_deleteVersion_def split: sum.splits dest!: write_gate)


lemma select_update_where:
  assumes "\<And>r. P (f r) = P r"
  shows "select_one P (update_where Q f t) = map_option (\<lambda>r. if Q r then f r else r) (select_one P t)"
proof -
  have "List.find P (map (\<lambda>r. if Q r then f r else r) xs) = map_option (\<lambda>r. if Q r then f r else r) (List.find P xs)" for xs
    by (induction xs) (auto simp: assms)
  then show ?thesis by (simp add: select_one_def update_where_def)
qed

text \<open>A change of a version that touches neither its keys, its number nor its creation time.\<close>

definition same_version :: "pkg_version \<Rightarrow> pkg_version \<Rightarrow> bool" where
  "same_version v w \<longleftrightarrow> ver_ID w = ver_ID v \<and> ver_PackageID w = ver_PackageID v \<and> ver_Version w = ver_Version v
     \<and> ver_LowerVersion w = ver_LowerVersion v \<and> ver_CreatedUnix w = ver_CreatedUnix v"

lemma update_version_download:
  assumes "\<And>v. same_version v (f v)"
  shows "generic_download en get tname name version filename (fst (update_version i f d)) s =
    generic_download en get tname name version filename d s"
proof -
  let ?d = "fst (update_version i f d)"
  let ?u = "\<lambda>v. if ver_ID v = i then f v else v"
  have d: "?d = d\<lparr>db_versions := update_where (\<lambda>v. ver_ID v = i) f (db_versions d)\<rparr>"
    by (simp add: update_version_def Let_def)
  have u: "ver_ID (?u v) = ver_ID v" "generic_subjectFor now t pkg (Some (?u v)) fn = generic_subjectFor now t pkg (Some v) fn" for v now t pkg fn
    using assms [of v] by (auto simp: same_version_def generic_subjectFor_def)
  have ver: "GetVersion ?d pid ver = (case GetVersion d pid ver of Inl e \<Rightarrow> Inl e | Inr v \<Rightarrow> Inr (?u v))" for pid ver
    using select_update_where [of "\<lambda>v. ver_PackageID v = pid \<and> ver_LowerVersion v = to_lower ver" f "\<lambda>v. ver_ID v = i" "db_versions d"] assms
    by (auto simp: GetVersion_def d same_version_def split: option.splits)
  have "tenants_GetByName ?d = tenants_GetByName d" "GetPackageByLookup ?d = GetPackageByLookup d"
    "GetFileByVersionAndName ?d = GetFileByVersionAndName d" "OpenFile get ?d = OpenFile get d"
    by (auto simp: fun_eq_iff d tenants_GetByName_def GetPackageByLookup_def GetFileByVersionAndName_def OpenFile_def openBlob_def)
  then have same: "generic_tenantFromPath en ?d = generic_tenantFromPath en d" "OpenFile get ?d = OpenFile get d"
    "generic_lookup ?d t name version filename =
       (case generic_lookup d t name version filename of Inl m \<Rightarrow> Inl m | Inr (p, v, f) \<Rightarrow> Inr (p, ?u v, f))" for t
    by (auto simp: fun_eq_iff generic_tenantFromPath_def generic_lookup_def lookup_version_def ver u(1) split: sum.splits)
  have "(case generic_lookup ?d t name version filename of
      Inl msg \<Rightarrow> Inl (reply 404 (Text msg))
    | Inr (pkg, ver, file) \<Rightarrow> bind_result (generic_checkRead en t pkg (Some ver) filename) (\<lambda>_. Inr file)) =
    (case generic_lookup d t name version filename of
      Inl msg \<Rightarrow> Inl (reply 404 (Text msg))
    | Inr (pkg, ver, file) \<Rightarrow> bind_result (generic_checkRead en t pkg (Some ver) filename) (\<lambda>_. Inr file))" for t
    unfolding same(3) by (auto simp: generic_checkRead_def u(2) split: sum.splits)
  then show ?thesis by (simp only: generic_download_def same(1,2))
qed

text \<open>
  Quarantine does not reach the generic format: a download of a version that was put into quarantine, or
  rejected there, is answered exactly as before.
\<close>

theorem generic_quarantine_ignored:
  "generic_download en get tname name version filename (fst (QuarantineVersion i rid reason d)) s =
   generic_download en get tname name version filename d s"
  by (auto simp: QuarantineVersion_def Let_def same_version_def intro!: update_version_download)


text \<open>
C7: Upload and download over HTTP: from every state the service can reach, an upload that is answered with 201
  was made by a caller with write access to the tenant, and from then on every caller with read
  access whom the policy does not stop downloads exactly the uploaded bytes under that path - also when the
  version has been put into quarantine, against the 403 that \<open>docs/supply-chain.md\<close> and the
  README promise: the handler never asks.
\<close>

theorem generic_upload_download:
  assumes "service_step\<^sup>*\<^sup>* (fresh_db tm, []) (d, s)"
    and "generic_upload en (local_Save fault rnd) dg lr tname name version filename rd d s = (d', s', r)" and "rs_Status r = 201"
  shows "\<exists>t i. tenants_GetByName d tname = Inr t \<and> en_caller en = Some i \<and> CanWrite i (ten_ID t)
    \<and> (\<forall>en'. RequireRead (en_caller en') t = Granted \<longrightarrow> (\<forall>subj. \<not> IsBlocked (en_engine en' subj ActionRead)) \<longrightarrow>
         (\<exists>hs. generic_download en' local_Open tname name version filename d' s' =
            \<lparr>rs_Status = 200, rs_Headers = hs, rs_Body = Content (concat (rd_chunks rd))\<rparr>
          \<and> (\<forall>vid rid reason. generic_download en' local_Open tname name version filename (fst (QuarantineVersion vid rid reason d')) s' =
            \<lparr>rs_Status = 200, rs_Headers = hs, rs_Body = Content (concat (rd_chunks rd))\<rparr>)))"
  using generic_put_get [OF service_reachable_ok [OF assms(1)] assms(2,3)] by (simp only: generic_quarantine_ignored) metis

section \<open>Samples\<close>

definition sample_env :: env where
  "sample_env = \<lparr>en_now = 1, en_caller = Some sample_admin, en_engine = noop_Evaluate, en_error_text = (\<lambda>_. []),
     en_read_error = []\<rparr>"

lemma sample_env_simps [simp]:
  "en_now sample_env = 1" "en_caller sample_env = Some sample_admin" "\<not> IsBlocked (en_engine sample_env subj a)"
  "res_Decision (en_engine sample_env subj a) = Allow"
  by (simp_all add: sample_env_def IsBlocked_iff noop_Evaluate_def)

definition sample_bytes :: reader where
  "sample_bytes = \<lparr>rd_chunks = [''wheel''], rd_end = EOF, rd_eager = False\<rparr>"

lemma sample_admin_writes: "CanWrite sample_admin i"
  by (simp add: CanWrite_def IsSystemAdmin_def sample_admin_def HasTokenScope_def HasScope_def)

lemma sample_params: "readParams ''tool'' ''1.0'' (Some ''a.txt'') = Inr ()"
  by code_simp

lemma sample_tenant: "tenants_GetByName (fresh_db 0) ''default'' = Inr (default_tenant_row 0)"
  by code_simp

text \<open>The first ingest of a fresh service succeeds.\<close>

lemma fresh_prepare:
  assumes "ci_TenantID info = 1"
  shows "\<exists>d1 pkg d2 ver. ci_getOrCreatePackage lr now info (fresh_db t) = (d1, Inr pkg)
     \<and> CreateVersion now (pkg_ID pkg) (ci_Version info) (ci_VersionMetadataJSON info) d1 = (d2, Inr ver)
     \<and> GetVersion d1 (pkg_ID pkg) (ci_Version info) = Inl ErrVersionNotExist
     \<and> rows (db_blobs d2) = [] \<and> rows (db_files d2) = [] \<and> version_exists d2 (ver_ID ver)"
  using assms
  by (simp add: ci_getOrCreatePackage_eq Let_def GetOrCreatePackageWithLookup_def GetPackageByLookup_def
      select_one_def fresh_db_def insert_package_def insert_unique_def CreateVersion_def package_exists_def
      tenant_exists_def default_tenant_row_def mk_package_def mk_version_def version_exists_def GetVersion_def)

lemma fresh_ingest:
  assumes "ci_TenantID info = 1"
  shows "\<exists>d' s' p v f. CreatePackageOrAddFileToExisting (local_Save None rnd) dg lr now info b (fresh_db t) s = (d', s', p, v, Inr f)"
proof -
  obtain d1 pkg d2 ver where prep: "ci_getOrCreatePackage lr now info (fresh_db t) = (d1, Inr pkg)"
    "CreateVersion now (pkg_ID pkg) (ci_Version info) (ci_VersionMetadataJSON info) d1 = (d2, Inr ver)"
    "GetVersion d1 (pkg_ID pkg) (ci_Version info) = Inl ErrVersionNotExist"
    "rows (db_blobs d2) = []" "rows (db_files d2) = []" "version_exists d2 (ver_ID ver)"
    using fresh_prepare [OF assms, of lr now t] by auto
  obtain s' where save: "local_Save None rnd (hex_encode (sha256 (hb_bytes b))) (hb_reader b) s = (s', Inr (length (hb_bytes b)))"
    unfolding hb_reader_def using sample_save [of rnd "hb_bytes b" s] by blast
  let ?d3 = "set_properties (ver_ID ver) (ci_VersionProperties info) d2"
  have "version_exists ?d3 (ver_ID ver)" using prep(6) by (simp add: version_exists_def)
  then have "\<exists>d3 f. store_file (local_Save None rnd) dg lr now info b ver d2 s = (d3, s', Inr f)"
    using prep(4,5) save
    by (simp add: store_file_def Let_def Sums_def GetOrCreateBlob_def GetBlobBySHA256_def select_one_def
        insert_unique_def CreateFile_def version_exists_def blob_exists_def mk_blob_def)
  then show ?thesis using prep(1-3) assms by (auto simp: CreatePackageOrAddFileToExisting_def)
qed

lemma sample_generic_upload:
  "\<exists>d' s'. generic_upload sample_env (local_Save None ''r'') sample_digests 0 ''default'' ''tool'' ''1.0'' ''a.txt''
      sample_bytes (fresh_db 0) [] = (d', s', reply 201 NoBody)"
proof -
  let ?t = "default_tenant_row 0"
  have tn: "generic_tenantFromPath sample_env (fresh_db 0) ''default'' = Inr ?t"
    by (simp add: generic_tenantFromPath_Inr sample_tenant)
  have g: "RequireWrite (Some sample_admin) ?t = Granted" by (simp add: RequireWrite_Granted sample_admin_writes)
  have i: "generic_checkIngest sample_env ?t ''tool'' ''1.0'' ''a.txt'' = Inr ()"
    by (simp add: generic_checkIngest_def Let_def)
  have "NewHashedBufferInDir sample_bytes = Some sample_buffer"
    by (simp add: NewHashedBufferInDir_def sample_bytes_def sample_buffer_def)
  moreover have "ci_TenantID (generic_info ?t ''tool'' ''1.0'' ''a.txt'') = 1" by (simp add: generic_info_def default_tenant_row_def)
  from fresh_ingest [OF this, of "''r''" sample_digests 0 1 sample_buffer 0 "[]"]
  obtain d' s' p v f where "CreatePackageOrAddFileToExisting (local_Save None ''r'') sample_digests 0 1
      (generic_info ?t ''tool'' ''1.0'' ''a.txt'') sample_buffer (fresh_db 0) [] = (d', s', p, v, Inr f)" by auto
  ultimately show ?thesis using tn g i sample_params by (simp add: generic_upload_def)
qed

theorem generic_upload_download_witness:
  "\<exists>d s hs. generic_download sample_env local_Open ''default'' ''tool'' ''1.0'' ''a.txt'' d s =
       \<lparr>rs_Status = 200, rs_Headers = hs, rs_Body = Content ''wheel''\<rparr>
     \<and> generic_download sample_env local_Open ''default'' ''tool'' ''1.0'' ''a.txt'' (fst (QuarantineVersion 1 0 ''bad'' d)) s =
       \<lparr>rs_Status = 200, rs_Headers = hs, rs_Body = Content ''wheel''\<rparr>"
proof -
  obtain d' s' where up: "generic_upload sample_env (local_Save None ''r'') sample_digests 0 ''default'' ''tool'' ''1.0'' ''a.txt''
      sample_bytes (fresh_db 0) [] = (d', s', reply 201 NoBody)" using sample_generic_upload by blast
  have "RequireRead (en_caller sample_env) (default_tenant_row 0) = Granted"
    using sample_admin_writes by (simp add: RequireRead_Granted) (simp add: CanRead_def CanWrite_def IsSystemAdmin_def sample_admin_def HasTokenScope_def HasScope_def)
  with generic_upload_download [OF rtranclp.rtrancl_refl up] sample_tenant
  have "\<exists>hs. generic_download sample_env local_Open ''default'' ''tool'' ''1.0'' ''a.txt'' d' s' =
       \<lparr>rs_Status = 200, rs_Headers = hs, rs_Body = Content (concat (rd_chunks sample_bytes))\<rparr>
     \<and> (\<forall>vid rid reason. generic_download sample_env local_Open ''default'' ''tool'' ''1.0'' ''a.txt'' (fst (QuarantineVersion vid rid reason d')) s' =
       \<lparr>rs_Status = 200, rs_Headers = hs, rs_Body = Content (concat (rd_chunks sample_bytes))\<rparr>)" by simp
  then show ?thesis by (simp add: sample_bytes_def) blast
qed


end
