(* ===== verification/Go_Json.thy ===== *)
theory Go_Json
  imports Go_Values
begin

text \<open>
  JSON texts as Go's \<open>encoding/json\<close> writes and reads them: \<open>json.Marshal\<close> of a value, \<open>json.Unmarshal\<close>
  and the first \<open>Decode\<close> of a \<open>json.Decoder\<close>. A text is a string of bytes. Strings are
  quoted with the HTML escapes \<open>Marshal\<close> uses; bytes that are no UTF-8 become the replacement character.
  A reader accepts at most 10000 levels of nesting, as the Go decoder does.
\<close>

section \<open>UTF-8\<close>

definition byte :: "nat \<Rightarrow> char" where
  "byte n = char_of n"

text \<open>
  The length of the encoding a first byte announces, and the range its second byte is taken from; the
  other bytes are from 80 to BF. Zero: no encoding starts with this byte.
\<close>

definition utf8_class :: "nat \<Rightarrow> nat \<times> nat \<times> nat" where
  "utf8_class b =
     (if b < 0x80 then (1, 0, 0)
      else if b < 0xC2 then (0, 0, 0)
      else if b < 0xE0 then (2, 0x80, 0xBF)
      else if b = 0xE0 then (3, 0xA0, 0xBF)
      else if b = 0xED then (3, 0x80, 0x9F)
      else if b < 0xF0 then (3, 0x80, 0xBF)
      else if b = 0xF0 then (4, 0x90, 0xBF)
      else if b < 0xF4 then (4, 0x80, 0xBF)
      else if b = 0xF4 then (4, 0x80, 0x8F)
      else (0, 0, 0))"

definition byte_in :: "nat \<Rightarrow> nat \<Rightarrow> char \<Rightarrow> bool" where
  "byte_in lo hi c = (lo \<le> of_char c \<and> of_char c \<le> hi)"

text \<open>The length of the encoded rune at the start of a text; zero if there is none (\<open>utf8.DecodeRune\<close>).\<close>

definition utf8_len :: "string \<Rightarrow> nat" where
  "utf8_len s =
     (case s of
        [] \<Rightarrow> 0
      | c # rest \<Rightarrow>
          (case utf8_class (of_char c) of (n, lo, hi) \<Rightarrow>
             if n \<le> 1 then n
             else if n - 1 \<le> length rest \<and> byte_in lo hi (hd rest) \<and> list_all (byte_in 0x80 0xBF) (take (n - 2) (tl rest)) then n
             else 0))"

definition utf8_encode :: "nat \<Rightarrow> string" where
  "utf8_encode r =
     (if r < 0x80 then [byte r]
      else if r < 0x800 then [byte (0xC0 + r div 64), byte (0x80 + r mod 64)]
      else if r < 0x10000 then [byte (0xE0 + r div 4096), byte (0x80 + r div 64 mod 64), byte (0x80 + r mod 64)]
      else [byte (0xF0 + r div 262144), byte (0x80 + r div 4096 mod 64), byte (0x80 + r div 64 mod 64), byte (0x80 + r mod 64)])"

definition replacement :: string where
  "replacement = utf8_encode 0xFFFD"

fun utf8_ok :: "string \<Rightarrow> bool" where
  "utf8_ok [] = True"
| "utf8_ok (c # s) = (let n = utf8_len (c # s) in n \<noteq> 0 \<and> utf8_ok (drop (n - 1) s))"

section \<open>Strings\<close>

abbreviation bslash :: char where "bslash \<equiv> CHR 0x5C"
abbreviation dquote :: char where "dquote \<equiv> CHR 0x22"

definition hex4 :: "nat \<Rightarrow> string" where
  "hex4 n = [hex_char (n div 4096 mod 16), hex_char (n div 256 mod 16), hex_char (n div 16 mod 16), hex_char (n mod 16)]"

definition quote_ascii :: "char \<Rightarrow> string" where
  "quote_ascii c =
     (if c = bslash \<or> c = dquote then [bslash, c]
      else if c = CHR 0x08 then [bslash, CHR ''b'']
      else if c = CHR 0x0C then [bslash, CHR ''f'']
      else if c = CHR 0x0A then [bslash, CHR ''n'']
      else if c = CHR 0x0D then [bslash, CHR ''r'']
      else if c = CHR 0x09 then [bslash, CHR ''t'']
      else if of_char c < (0x20 :: nat) \<or> c \<in> set ''<>&'' then [bslash, CHR ''u''] @ hex4 (of_char c)
      else [c])"

fun quote_body :: "string \<Rightarrow> string" where
  "quote_body [] = []"
| "quote_body (c # s) =
     (let n = utf8_len (c # s) in
      if n = 0 then [bslash, CHR ''u''] @ hex4 0xFFFD @ quote_body s
      else if n = 1 then quote_ascii c @ quote_body s
      else if take n (c # s) = utf8_encode 0x2028 then [bslash, CHR ''u''] @ hex4 0x2028 @ quote_body (drop (n - 1) s)
      else if take n (c # s) = utf8_encode 0x2029 then [bslash, CHR ''u''] @ hex4 0x2029 @ quote_body (drop (n - 1) s)
      else take n (c # s) @ quote_body (drop (n - 1) s))"

definition json_string :: "string \<Rightarrow> string" where
  "json_string s = dquote # quote_body s @ [dquote]"

definition hex_value :: "char \<Rightarrow> nat option" where
  "hex_value c =
     (let n = (of_char c :: nat) in
      if 48 \<le> n \<and> n \<le> 57 then Some (n - 48)
      else if 97 \<le> n \<and> n \<le> 102 then Some (n - 87)
      else if 65 \<le> n \<and> n \<le> 70 then Some (n - 55)
      else None)"

definition getu4 :: "string \<Rightarrow> nat option" where
  "getu4 s =
     (case s of
        a # b # c # d # rest \<Rightarrow>
          (case (hex_value a, hex_value b, hex_value c, hex_value d) of
             (Some w, Some x, Some y, Some z) \<Rightarrow> Some (16 * (16 * (16 * w + x) + y) + z)
           | _ \<Rightarrow> None)
      | _ \<Rightarrow> None)"

text \<open>
  An escape after its bslash: the bytes it stands for and the number of characters it takes. A
  surrogate that is not followed by its partner is replaced.
\<close>

definition unescape :: "string \<Rightarrow> (string \<times> nat) option" where
  "unescape s =
     (case s of
        [] \<Rightarrow> None
      | c # rest \<Rightarrow>
          if c = dquote \<or> c = bslash \<or> c = CHR ''/'' then Some ([c], 1)
          else if c = CHR ''b'' then Some ([CHR 0x08], 1)
          else if c = CHR ''f'' then Some ([CHR 0x0C], 1)
          else if c = CHR ''n'' then Some ([CHR 0x0A], 1)
          else if c = CHR ''r'' then Some ([CHR 0x0D], 1)
          else if c = CHR ''t'' then Some ([CHR 0x09], 1)
          else if c = CHR ''u'' then
            (case getu4 rest of
               None \<Rightarrow> None
             | Some r \<Rightarrow>
                 if 0xD800 \<le> r \<and> r < 0xE000 then
                   (case (if take 2 (drop 4 rest) = [bslash, CHR ''u''] then getu4 (drop 6 rest) else None) of
                      Some r1 \<Rightarrow>
                        if r < 0xDC00 \<and> 0xDC00 \<le> r1 \<and> r1 < 0xE000
                        then Some (utf8_encode (0x10000 + (r - 0xD800) * 1024 + (r1 - 0xDC00)), 11)
                        else Some (replacement, 5)
                    | None \<Rightarrow> Some (replacement, 5))
                 else Some (utf8_encode r, 5))
          else None)"

text \<open>The rest of a string after its opening quote.\<close>

fun unquote :: "string \<Rightarrow> (string \<times> string) option" where
  "unquote [] = None"
| "unquote (c # s) =
     (if c = dquote then Some ([], s)
      else if c = bslash then
        (case unescape s of
           None \<Rightarrow> None
         | Some (out, k) \<Rightarrow> map_option (\<lambda>(str, rest). (out @ str, rest)) (unquote (drop k s)))
      else if of_char c < (0x20 :: nat) then None
      else
        (let n = utf8_len (c # s) in
         if n = 0 then map_option (\<lambda>(str, rest). (replacement @ str, rest)) (unquote s)
         else map_option (\<lambda>(str, rest). (take n (c # s) @ str, rest)) (unquote (drop (n - 1) s))))"

section \<open>Round trip of strings\<close>

lemma utf8_len_le: "utf8_len s \<le> length s"
  by (cases s) (auto simp: utf8_len_def split: prod.splits)

lemma utf8_class_le: "fst (utf8_class b) \<le> 4"
  by (simp add: utf8_class_def)

lemma utf8_class_1: "fst (utf8_class b) = Suc 0 \<longleftrightarrow> b < 0x80"
  by (simp add: utf8_class_def)

lemma utf8_len_1: "utf8_len (c # s) = Suc 0 \<longleftrightarrow> of_char c < (0x80 :: nat)"
  using utf8_class_1 [of "of_char c"] by (auto simp: utf8_len_def split: prod.splits)

lemma utf8_len_append:
  assumes "utf8_len s = n" and "n \<noteq> 0"
  shows "utf8_len (take n s @ t) = n"
proof -
  obtain c rest where s: "s = c # rest" using assms by (cases s) (auto simp: utf8_len_def)
  obtain k lo hi where k: "utf8_class (of_char c) = (k, lo, hi)" by (metis prod.exhaust)
  have n: "n = k" using assms by (auto simp: s utf8_len_def k split: if_splits)
  show ?thesis
  proof (cases "k \<le> 1")
    case True
    with n assms(2) have "k = 1" by simp
    then show ?thesis using n by (simp add: s utf8_len_def k)
  next
    case False
    then have c: "k - 1 \<le> length rest" "byte_in lo hi (hd rest)" "list_all (byte_in 0x80 0xBF) (take (k - 2) (tl rest))"
      using assms n by (auto simp: s utf8_len_def k split: if_splits)
    obtain r rs where r: "rest = r # rs" using c(1) False by (cases rest) auto
    obtain m where "k = Suc (Suc m)" using False by (cases k) (auto simp: not_le gr0_conv_Suc)
    then have "take n s @ t = c # r # (take (k - 2) rs @ t)" by (simp add: n s r)
    then show ?thesis using c False by (simp add: n utf8_len_def k r)
  qed
qed


lemma hex_value_char: "n < 16 \<Longrightarrow> hex_value (hex_char n) = Some n"
  by (simp add: hex_value_def hex_char_def Let_def)

lemma getu4_hex4: "n < 65536 \<Longrightarrow> getu4 (hex4 n @ rest) = Some n"
proof -
  assume n: "n < 65536"
  have "n div 4096 < 16" using n by (simp add: div_less_iff_less_mult)
  then have 1: "n div 4096 mod 16 = n div 4096" by simp
  have 2: "16 * (n div 4096) + n div 256 mod 16 = n div 256" "16 * (n div 256) + n div 16 mod 16 = n div 16"
    using mult_div_mod_eq [of 16 "n div 256"] mult_div_mod_eq [of 16 "n div 16"] by (simp_all add: div_mult2_eq [symmetric])
  have "getu4 (hex4 n @ rest) = Some (16 * (16 * (16 * (n div 4096 mod 16) + n div 256 mod 16) + n div 16 mod 16) + n mod 16)"
    by (simp add: hex4_def getu4_def hex_value_char)
  then show ?thesis by (simp only: 1 2 mult_div_mod_eq)
qed

lemma unescape_u:
  assumes "n < 65536" and "n < 0xD800 \<or> 0xE000 \<le> n"
  shows "unescape (CHR ''u'' # hex4 n @ rest) = Some (utf8_encode n, 5)"
  using assms by (auto simp: unescape_def getu4_hex4)

lemma unquote_u:
  assumes "n < 65536" and "n < 0xD800 \<or> 0xE000 \<le> n"
  shows "unquote (bslash # CHR ''u'' # hex4 n @ x) = map_option (\<lambda>(str, rest). (utf8_encode n @ str, rest)) (unquote x)"
proof -
  have "length (hex4 n) = 4" by (simp add: hex4_def)
  then have "drop 5 (CHR ''u'' # hex4 n @ x) = x" by (simp add: drop_Cons')
  then show ?thesis
    unfolding unquote.simps(2) [of bslash] unescape_u [OF assms, of x] by simp
qed

lemma unquote_plain:
  assumes "\<not> of_char c < (0x20 :: nat)" and "c \<noteq> dquote" and "c \<noteq> bslash" and "utf8_len (c # s) = n" and "n \<noteq> 0"
  shows "unquote (take n (c # s) @ x) = map_option (\<lambda>(str, rest). (take n (c # s) @ str, rest)) (unquote x)"
proof -
  obtain k where k: "n = Suc k" using assms(5) by (cases n) auto
  have "utf8_len (c # take k s @ x) = n" using utf8_len_append [OF assms(4,5), of x] by (simp add: k)
  moreover have "k \<le> length s" using utf8_len_le [of "c # s"] assms(4) k by simp
  ultimately show ?thesis using assms(1-3) by (simp add: k Let_def)
qed

lemma unquote_ascii:
  assumes "of_char c < (0x80 :: nat)"
  shows "unquote (quote_ascii c @ x) = map_option (\<lambda>(str, rest). (c # str, rest)) (unquote x)"
proof -
  have enc: "utf8_encode (of_char c) = [c]" using assms by (simp add: utf8_encode_def byte_def)
  let ?A = "{bslash, dquote, CHR 0x08, CHR 0x0C, CHR 0x0A, CHR 0x0D, CHR 0x09}"
  let ?B = "of_char c < (0x20 :: nat) \<or> c \<in> set ''<>&''"
  consider "c \<in> ?A" | "c \<notin> ?A" "?B" | "c \<notin> ?A" "\<not> ?B" by blast
  then show ?thesis
  proof cases
    case 1
    then show ?thesis by (elim insertE emptyE) (simp_all add: quote_ascii_def unescape_def split: option.split)
  next
    case 2
    then have "quote_ascii c = [bslash, CHR ''u''] @ hex4 (of_char c)" unfolding quote_ascii_def by simp
    moreover have "(of_char c :: nat) < 65536" "(of_char c :: nat) < 0xD800" using assms by auto
    ultimately show ?thesis using unquote_u [of "of_char c" x] by (simp add: enc)
  next
    case 3
    then have q: "quote_ascii c = [c]" "\<not> of_char c < (0x20 :: nat)" "c \<noteq> dquote" "c \<noteq> bslash"
      unfolding quote_ascii_def by simp_all
    then show ?thesis using unquote_plain [OF q(2-4), of "[]" 1 x] utf8_len_1 [of c "[]"] assms by simp
  qed
qed

lemma unquote_quote: "utf8_ok s \<Longrightarrow> unquote (quote_body s @ dquote # rest) = Some (s, rest)"
proof (induction s rule: utf8_ok.induct)
  case (2 c s)
  define n where "n = utf8_len (c # s)"
  obtain k where k: "n = Suc k" using 2(2) by (cases n) (auto simp: n_def Let_def)
  have IH: "unquote (quote_body (drop k s) @ dquote # rest) = Some (drop k s, rest)"
    using 2(1) [OF n_def] 2(2) by (simp add: n_def [symmetric] k Let_def)
  have split: "take n (c # s) @ drop k s = c # s" by (simp add: k)
  show ?case
  proof (cases "n = 1")
    case True
    then have "of_char c < (0x80 :: nat)" "k = 0" using utf8_len_1 [of c s] k by (auto simp: n_def)
    then show ?thesis using unquote_ascii IH True by (simp add: n_def [symmetric] Let_def)
  next
    case False
    then have c: "\<not> of_char c < (0x20 :: nat)" "c \<noteq> dquote" "c \<noteq> bslash"
      using utf8_len_1 [of c s] by (auto simp: n_def [symmetric])
    have body: "quote_body (c # s) =
        (if take n (c # s) = utf8_encode 0x2028 then [bslash, CHR ''u''] @ hex4 0x2028 @ quote_body (drop k s)
         else if take n (c # s) = utf8_encode 0x2029 then [bslash, CHR ''u''] @ hex4 0x2029 @ quote_body (drop k s)
         else take n (c # s) @ quote_body (drop k s))"
      using False k by (simp only: quote_body.simps n_def [symmetric] Let_def) simp
    have u: "unquote ([bslash, CHR ''u''] @ hex4 r @ quote_body (drop k s) @ dquote # rest) = Some (c # s, rest)"
      if "take n (c # s) = utf8_encode r" "r < 0xD800" for r
      using unquote_u [of r "quote_body (drop k s) @ dquote # rest"] that IH split by simp
    have p: "unquote (take n (c # s) @ quote_body (drop k s) @ dquote # rest) = Some (c # s, rest)"
      using unquote_plain [OF c n_def [symmetric], where x = "quote_body (drop k s) @ dquote # rest"] IH k split by simp
    show ?thesis unfolding body using u [of "0x2028"] u [of "0x2029"] p by (simp only: append_assoc split: if_split) simp
  qed
qed simp

section \<open>Values\<close>

fun join_comma :: "string list \<Rightarrow> string" where
  "join_comma [] = []"
| "join_comma [x] = x"
| "join_comma (x # xs) = x @ CHR '','' # join_comma xs"

fun json_print :: "json \<Rightarrow> string" where
  "json_print JNull = ''null''"
| "json_print (JBool b) = (if b then ''true'' else ''false'')"
| "json_print (JNumber lit) = lit"
| "json_print (JString s) = json_string s"
| "json_print (JArray vs) = CHR ''['' # join_comma (map json_print vs) @ '']''"
| "json_print (JObject ms) = CHR ''{'' # join_comma (map (\<lambda>(k, v). json_string k @ CHR '':'' # json_print v) ms) @ ''}''"

definition is_digit :: "char \<Rightarrow> bool" where
  "is_digit c = (48 \<le> (of_char c :: nat) \<and> (of_char c :: nat) \<le> 57)"

definition skip_ws :: "string \<Rightarrow> string" where
  "skip_ws = dropWhile (\<lambda>c. c \<in> {CHR 0x20, CHR 0x09, CHR 0x0A, CHR 0x0D})"

text \<open>A run of at least one digit.\<close>

definition read_digits :: "string \<Rightarrow> (string \<times> string) option" where
  "read_digits s = (if takeWhile is_digit s = [] then None else Some (takeWhile is_digit s, dropWhile is_digit s))"

definition read_int :: "string \<Rightarrow> (string \<times> string) option" where
  "read_int s =
     (case s of
        [] \<Rightarrow> None
      | c # r \<Rightarrow> if c = CHR ''0'' then Some ([c], r) else read_digits s)"

definition read_frac :: "string \<Rightarrow> (string \<times> string) option" where
  "read_frac s =
     (case s of
        [] \<Rightarrow> Some ([], s)
      | c # r \<Rightarrow> if c = CHR ''.'' then map_option (\<lambda>(ds, r'). (c # ds, r')) (read_digits r) else Some ([], s))"

definition read_sign :: "string \<Rightarrow> string \<Rightarrow> string \<times> string" where
  "read_sign signs s = (case s of [] \<Rightarrow> ([], s) | c # r \<Rightarrow> if c \<in> set signs then ([c], r) else ([], s))"

definition read_exp :: "string \<Rightarrow> (string \<times> string) option" where
  "read_exp s =
     (case s of
        [] \<Rightarrow> Some ([], s)
      | c # r \<Rightarrow>
          if c \<in> set ''eE'' then
            (case read_sign ''+-'' r of (sg, r') \<Rightarrow> map_option (\<lambda>(ds, r''). (c # sg @ ds, r'')) (read_digits r'))
          else Some ([], s))"

definition read_number :: "string \<Rightarrow> (string \<times> string) option" where
  "read_number s =
     (case read_sign ''-'' s of (sg, s1) \<Rightarrow>
        (case read_int s1 of
           None \<Rightarrow> None
         | Some (i, s2) \<Rightarrow>
             (case read_frac s2 of
                None \<Rightarrow> None
              | Some (f, s3) \<Rightarrow> map_option (\<lambda>(e, s4). (sg @ i @ f @ e, s4)) (read_exp s3))))"

definition read_literal :: "string \<Rightarrow> (json \<times> string) option" where
  "read_literal s =
     (if take 4 s = ''null'' then Some (JNull, drop 4 s)
      else if take 4 s = ''true'' then Some (JBool True, drop 4 s)
      else if take 5 s = ''false'' then Some (JBool False, drop 5 s)
      else map_option (\<lambda>(lit, r). (JNumber lit, r)) (read_number s))"

definition starts :: "char \<Rightarrow> string \<Rightarrow> bool" where
  "starts c s = (s \<noteq> [] \<and> hd s = c)"

fun parse_value :: "nat \<Rightarrow> nat \<Rightarrow> string \<Rightarrow> (json \<times> string) option"
  and parse_elems :: "nat \<Rightarrow> nat \<Rightarrow> string \<Rightarrow> (json list \<times> string) option"
  and parse_members :: "nat \<Rightarrow> nat \<Rightarrow> string \<Rightarrow> ((string \<times> json) list \<times> string) option" where
  "parse_value 0 d s = None"
| "parse_value (Suc n) d s =
     (case skip_ws s of
        [] \<Rightarrow> None
      | c # r \<Rightarrow>
          if c = CHR ''{'' then
            (if d = 0 then None
             else if starts CHR ''}'' (skip_ws r) then Some (JObject [], tl (skip_ws r))
             else map_option (\<lambda>(ms, r'). (JObject ms, r')) (parse_members n (d - 1) (skip_ws r)))
          else if c = CHR ''['' then
            (if d = 0 then None
             else if starts CHR '']'' (skip_ws r) then Some (JArray [], tl (skip_ws r))
             else map_option (\<lambda>(vs, r'). (JArray vs, r')) (parse_elems n (d - 1) (skip_ws r)))
          else if c = dquote then map_option (\<lambda>(str, r'). (JString str, r')) (unquote r)
          else read_literal (c # r))"
| "parse_elems 0 d s = None"
| "parse_elems (Suc n) d s =
     (case parse_value n d s of
        None \<Rightarrow> None
      | Some (v, r) \<Rightarrow>
          (case skip_ws r of
             [] \<Rightarrow> None
           | c # r' \<Rightarrow>
               if c = CHR '','' then map_option (\<lambda>(vs, r''). (v # vs, r'')) (parse_elems n d r')
               else if c = CHR '']'' then Some ([v], r')
               else None))"
| "parse_members 0 d s = None"
| "parse_members (Suc n) d s =
     (case skip_ws s of
        [] \<Rightarrow> None
      | q # s1 \<Rightarrow>
          if q \<noteq> dquote then None
          else (case unquote s1 of
              None \<Rightarrow> None
            | Some (k, s2) \<Rightarrow>
                (case skip_ws s2 of
                   [] \<Rightarrow> None
                 | c # s3 \<Rightarrow>
                     if c \<noteq> CHR '':'' then None
                     else (case parse_value n d s3 of
                         None \<Rightarrow> None
                       | Some (v, r) \<Rightarrow>
                           (case skip_ws r of
                              [] \<Rightarrow> None
                            | c' # r' \<Rightarrow>
                                if c' = CHR '','' then map_option (\<lambda>(ms, r''). ((k, v) # ms, r'')) (parse_members n d r')
                                else if c' = CHR ''}'' then Some ([(k, v)], r')
                                else None)))))"

definition json_first :: "string \<Rightarrow> (json \<times> string) option" where
  "json_first s = parse_value (2 * length s) 10000 s"

definition json_Unmarshal :: "string \<Rightarrow> json option" where
  "json_Unmarshal s = (case json_first s of Some (v, r) \<Rightarrow> if skip_ws r = [] then Some v else None | None \<Rightarrow> None)"

definition json_Decode :: "string \<Rightarrow> json option" where
  "json_Decode s = map_option fst (json_first s)"

section \<open>Fuel\<close>

lemma skip_ws_le: "length (skip_ws s) \<le> length s"
  by (simp add: skip_ws_def length_dropWhile_le)

lemma unquote_less: "unquote s = Some (str, r) \<Longrightarrow> length r < length s"
proof (induction s arbitrary: str rule: unquote.induct)
  case (2 c s)
  show ?case
  proof (cases "c = dquote \<or> c = bslash")
    case True
    then show ?thesis using 2 by (fastforce split: if_splits option.splits)
  next
    case False
    then show ?thesis using 2 by (fastforce simp: Let_def split: if_splits)
  qed
qed simp

lemma read_digits_less: "read_digits s = Some (x, r) \<Longrightarrow> length r < length s"
  by (cases s) (auto simp: read_digits_def le_imp_less_Suc length_dropWhile_le split: if_splits)

lemma read_number_less:
  assumes "read_number s = Some (lit, r)"
  shows "length r < length s"
proof -
  have sg: "length (snd (read_sign signs t)) \<le> length t" for signs t
    by (cases t) (auto simp: read_sign_def)
  have i: "read_int t = Some (x, t') \<Longrightarrow> length t' < length t" for t x t'
    by (cases t) (auto simp: read_int_def split: if_splits dest: read_digits_less)
  have f: "read_frac t = Some (x, t') \<Longrightarrow> length t' \<le> length t" for t x t'
    by (cases t) (auto simp: read_frac_def split: if_splits dest!: read_digits_less)
  have e: "read_exp t = Some (x, t') \<Longrightarrow> length t' \<le> length t" for t x t'
  proof (cases t)
    case (Cons c u)
    assume "read_exp t = Some (x, t')"
    then show ?thesis using sg [of "''+-''" u] Cons
      by (auto simp: read_exp_def split: if_splits prod.splits dest!: read_digits_less)
  qed (simp add: read_exp_def)
  show ?thesis
    using assms sg [of "''-''" s] by (fastforce simp: read_number_def split: prod.splits option.splits dest: i f e)
qed

lemma read_literal_less: "read_literal s = Some (v, r) \<Longrightarrow> length r < length s"
  by (cases s) (auto simp: read_literal_def split: if_splits dest: read_number_less)

text \<open>
  A successful parse takes characters, and any fuel of twice as many is enough for it: the fuel of
  \<open>json_first\<close> never decides a parse.
\<close>

definition takes :: "nat \<Rightarrow> string \<Rightarrow> string \<Rightarrow> (nat \<Rightarrow> bool) \<Rightarrow> bool" where
  "takes k s r P \<longleftrightarrow> length r < length s \<and> (\<forall>m. 2 * (length s - length r) \<le> m + k \<longrightarrow> P m)"

lemma takesI:
  assumes "length r < length s" and "k \<le> 1" and "\<And>m. 2 * (length s - length r) \<le> Suc (m + k) \<Longrightarrow> P (Suc m)"
  shows "takes k s r P"
  unfolding takes_def
proof (intro conjI allI impI)
  fix m assume "2 * (length s - length r) \<le> m + k"
  then obtain m' where "m = Suc m'" using assms(1,2) by (cases m) auto
  then show "P m" using assms(3) \<open>2 * (length s - length r) \<le> m + k\<close> by simp
qed (rule assms(1))

lemma takes_less: "takes k s r P \<Longrightarrow> length r < length s"
  by (simp add: takes_def)

lemma takesD: "takes k s r P \<Longrightarrow> 2 * (length s - length r) \<le> m + k \<Longrightarrow> P m"
  by (simp add: takes_def)

lemma parse_value_fuel:
  assumes E: "\<And>d s vs r. parse_elems n d s = Some (vs, r) \<Longrightarrow> takes 1 s r (\<lambda>m. parse_elems m d s = Some (vs, r))"
    and M: "\<And>d s ms r. parse_members n d s = Some (ms, r) \<Longrightarrow> takes 1 s r (\<lambda>m. parse_members m d s = Some (ms, r))"
    and p: "parse_value (Suc n) d s = Some (v, r)"
  shows "takes 0 s r (\<lambda>m. parse_value m d s = Some (v, r))"
proof -
  obtain c t where s: "skip_ws s = c # t" using p by (cases "skip_ws s") auto
  have len: "Suc (length t) \<le> length s" using skip_ws_le [of s] s by simp
  have lt: "length (skip_ws t) \<le> length t" by (rule skip_ws_le)
  consider (obj) "c = CHR ''{''" | (arr) "c = CHR ''[''" | (str) "c = dquote" | (lit) "c \<notin> {CHR ''{'', CHR ''['', dquote}" by blast
  then show ?thesis
  proof cases
    case obj
    show ?thesis
    proof (cases "starts CHR ''}'' (skip_ws t)")
      case True
      then have "r = tl (skip_ws t)" "length r < length (skip_ws t)" using p by (auto simp: s obj starts_def split: if_splits)
      then show ?thesis using p True len lt by (intro takesI) (auto simp: s obj split: if_splits)
    next
      case False
      then have eq: "parse_value (Suc k) d s =
          (if d = 0 then None else map_option (\<lambda>(ms, r'). (JObject ms, r')) (parse_members k (d - 1) (skip_ws t)))" for k
        by (simp add: s obj)
      then obtain ms where ms: "parse_members n (d - 1) (skip_ws t) = Some (ms, r)" "v = JObject ms" "d \<noteq> 0"
        using p by (auto split: if_splits)
      note k = M [OF ms(1)]
      show ?thesis
      proof (rule takesI)
        fix m assume "2 * (length s - length r) \<le> Suc (m + 0)"
        then have "2 * (length (skip_ws t) - length r) \<le> m + 1" using len lt by arith
        from takesD [OF k this] ms show "parse_value (Suc m) d s = Some (v, r)" unfolding eq by simp
      qed (use takes_less [OF k] len lt in auto)
    qed
  next
    case arr
    show ?thesis
    proof (cases "starts CHR '']'' (skip_ws t)")
      case True
      then have "r = tl (skip_ws t)" "length r < length (skip_ws t)" using p by (auto simp: s arr starts_def split: if_splits)
      then show ?thesis using p True len lt by (intro takesI) (auto simp: s arr split: if_splits)
    next
      case False
      then have eq: "parse_value (Suc k) d s =
          (if d = 0 then None else map_option (\<lambda>(vs, r'). (JArray vs, r')) (parse_elems k (d - 1) (skip_ws t)))" for k
        by (simp add: s arr)
      then obtain vs where vs: "parse_elems n (d - 1) (skip_ws t) = Some (vs, r)" "v = JArray vs" "d \<noteq> 0"
        using p by (auto split: if_splits)
      note k = E [OF vs(1)]
      show ?thesis
      proof (rule takesI)
        fix m assume "2 * (length s - length r) \<le> Suc (m + 0)"
        then have "2 * (length (skip_ws t) - length r) \<le> m + 1" using len lt by arith
        from takesD [OF k this] vs show "parse_value (Suc m) d s = Some (v, r)" unfolding eq by simp
      qed (use takes_less [OF k] len lt in auto)
    qed
  next
    case str
    then obtain x where x: "unquote t = Some (x, r)" using p by (auto simp: s)
    show ?thesis using p str len unquote_less [OF x] by (intro takesI) (auto simp: s)
  next
    case lit
    then have "read_literal (c # t) = Some (v, r)" using p by (simp add: s)
    from read_literal_less [OF this] show ?thesis using p lit len by (intro takesI) (auto simp: s)
  qed
qed

lemma parse_elems_fuel:
  assumes V: "\<And>d s v r. parse_value n d s = Some (v, r) \<Longrightarrow> takes 0 s r (\<lambda>m. parse_value m d s = Some (v, r))"
    and E: "\<And>d s vs r. parse_elems n d s = Some (vs, r) \<Longrightarrow> takes 1 s r (\<lambda>m. parse_elems m d s = Some (vs, r))"
    and p: "parse_elems (Suc n) d s = Some (vs, r)"
  shows "takes 1 s r (\<lambda>m. parse_elems m d s = Some (vs, r))"
proof -
  obtain v r1 where v: "parse_value n d s = Some (v, r1)" using p by (auto split: option.splits)
  obtain c r2 where c: "skip_ws r1 = c # r2" using p v by (cases "skip_ws r1") auto
  have len: "Suc (length r2) \<le> length r1" "length r1 < length s"
    using skip_ws_le [of r1] c takes_less [OF V [OF v]] by simp_all
  have pv: "parse_value m d s = Some (v, r1)" if "2 * (length s - length r1) \<le> m" for m
    using takesD [OF V [OF v], of m] that by simp
  consider (more) ws where "c = CHR '',''" "parse_elems n d r2 = Some (ws, r)" "vs = v # ws" | (last) "c = CHR '']''" "vs = [v]" "r = r2"
    using p v c by (auto split: if_splits)
  then show ?thesis
  proof cases
    case more
    note k = E [OF more(2)]
    show ?thesis
    proof (rule takesI)
      fix m assume "2 * (length s - length r) \<le> Suc (m + 1)"
      then have "2 * (length r2 - length r) \<le> m + 1" "2 * (length s - length r1) \<le> m"
        using len takes_less [OF k] by arith+
      then show "parse_elems (Suc m) d s = Some (vs, r)" using takesD [OF k] pv more c by simp
    qed (use takes_less [OF k] len in auto)
  next
    case last
    show ?thesis
    proof (rule takesI)
      fix m assume "2 * (length s - length r) \<le> Suc (m + 1)"
      then have "2 * (length s - length r1) \<le> m" using len unfolding last(3) by arith
      then show "parse_elems (Suc m) d s = Some (vs, r)" using pv last c by simp
    qed (use last len in auto)
  qed
qed

lemma parse_members_fuel:
  assumes V: "\<And>d s v r. parse_value n d s = Some (v, r) \<Longrightarrow> takes 0 s r (\<lambda>m. parse_value m d s = Some (v, r))"
    and M: "\<And>d s ms r. parse_members n d s = Some (ms, r) \<Longrightarrow> takes 1 s r (\<lambda>m. parse_members m d s = Some (ms, r))"
    and p: "parse_members (Suc n) d s = Some (ms, r)"
  shows "takes 1 s r (\<lambda>m. parse_members m d s = Some (ms, r))"
proof -
  obtain s1 where s1: "skip_ws s = dquote # s1" using p by (auto split: list.splits if_splits)
  obtain k s2 where s2: "unquote s1 = Some (k, s2)" using p s1 by (auto split: option.splits)
  obtain s3 where s3: "skip_ws s2 = CHR '':'' # s3" using p s1 s2 by (auto split: list.splits if_splits)
  obtain v r1 where v: "parse_value n d s3 = Some (v, r1)" using p s1 s2 s3 by (auto split: option.splits)
  obtain c r2 where c: "skip_ws r1 = c # r2" using p v s1 s2 s3 by (cases "skip_ws r1") auto
  have len: "Suc (length r2) \<le> length r1" "length r1 < length s3" "length s3 < length s2" "length s2 < length s1" "length s1 < length s"
    using skip_ws_le [of r1] c takes_less [OF V [OF v]] skip_ws_le [of s] s1 skip_ws_le [of s2] s3 unquote_less [OF s2] by simp_all
  have pv: "parse_value m d s3 = Some (v, r1)" if "2 * (length s3 - length r1) \<le> m" for m
    using takesD [OF V [OF v], of m] that by simp
  consider (more) ws where "c = CHR '',''" "parse_members n d r2 = Some (ws, r)" "ms = (k, v) # ws"
    | (last) "c = CHR ''}''" "ms = [(k, v)]" "r = r2"
    using p v c s1 s2 s3 by (auto split: if_splits)
  then show ?thesis
  proof cases
    case more
    note K = M [OF more(2)]
    show ?thesis
    proof (rule takesI)
      fix m assume "2 * (length s - length r) \<le> Suc (m + 1)"
      then have "2 * (length r2 - length r) \<le> m + 1" "2 * (length s3 - length r1) \<le> m"
        using len takes_less [OF K] by arith+
      then show "parse_members (Suc m) d s = Some (ms, r)" using takesD [OF K] pv more c s1 s2 s3 by simp
    qed (use takes_less [OF K] len in auto)
  next
    case last
    show ?thesis
    proof (rule takesI)
      fix m assume "2 * (length s - length r) \<le> Suc (m + 1)"
      then have "2 * (length s3 - length r1) \<le> m" using len unfolding last(3) by arith
      then show "parse_members (Suc m) d s = Some (ms, r)" using pv last c s1 s2 s3 by simp
    qed (use last len in auto)
  qed
qed

lemma parse_fuel:
  "(\<forall>d s v r. parse_value n d s = Some (v, r) \<longrightarrow> takes 0 s r (\<lambda>m. parse_value m d s = Some (v, r)))
   \<and> (\<forall>d s vs r. parse_elems n d s = Some (vs, r) \<longrightarrow> takes 1 s r (\<lambda>m. parse_elems m d s = Some (vs, r)))
   \<and> (\<forall>d s ms r. parse_members n d s = Some (ms, r) \<longrightarrow> takes 1 s r (\<lambda>m. parse_members m d s = Some (ms, r)))"
proof (induction n)
  case (Suc n)
  then have V: "\<And>d s v r. parse_value n d s = Some (v, r) \<Longrightarrow> takes 0 s r (\<lambda>m. parse_value m d s = Some (v, r))"
    and E: "\<And>d s vs r. parse_elems n d s = Some (vs, r) \<Longrightarrow> takes 1 s r (\<lambda>m. parse_elems m d s = Some (vs, r))"
    and M: "\<And>d s ms r. parse_members n d s = Some (ms, r) \<Longrightarrow> takes 1 s r (\<lambda>m. parse_members m d s = Some (ms, r))"
    by simp_all
  show ?case by (intro conjI allI impI parse_value_fuel [OF E M] parse_elems_fuel [OF V E] parse_members_fuel [OF V M])
qed simp

lemma json_first_fuel: "parse_value n 10000 s = Some x \<Longrightarrow> json_first s = Some x"
  using takesD [OF parse_fuel [THEN conjunct1, rule_format, of n 10000 s "fst x" "snd x"], of "2 * length s"]
  by (simp add: json_first_def)


section \<open>Round trip\<close>

fun json_ok :: "nat \<Rightarrow> json \<Rightarrow> bool" where
  "json_ok d JNull = True"
| "json_ok d (JBool b) = True"
| "json_ok d (JNumber lit) = (read_number lit = Some (lit, []))"
| "json_ok d (JString s) = utf8_ok s"
| "json_ok d (JArray vs) = (d \<noteq> 0 \<and> (\<forall>v \<in> set vs. json_ok (d - 1) v))"
| "json_ok d (JObject ms) = (d \<noteq> 0 \<and> (\<forall>(k, v) \<in> set ms. utf8_ok k \<and> json_ok (d - 1) v))"

text \<open>What follows a value in a text: nothing a number could go on with.\<close>

definition ends :: "string \<Rightarrow> bool" where
  "ends r = (r = [] \<or> \<not> is_digit (hd r) \<and> hd r \<notin> set ''.eE'')"

lemma read_digits_append:
  assumes "read_digits s = Some (x, y)" and "ends r"
  shows "read_digits (s @ r) = Some (x, y @ r)"
proof (cases "\<forall>c \<in> set s. is_digit c")
  case True
  then have "takeWhile is_digit (s @ r) = s" "dropWhile is_digit (s @ r) = r"
    using assms(2) by (cases r; simp add: ends_def)+
  moreover have "x = s" "y = []" "s \<noteq> []" using assms(1) True by (auto simp: read_digits_def split: if_splits)
  ultimately show ?thesis by (simp add: read_digits_def)
next
  case False
  then show ?thesis using assms(1) by (auto simp: read_digits_def takeWhile_append1 dropWhile_append1 split: if_splits)
qed

lemma read_int_append: "read_int s = Some (x, y) \<Longrightarrow> ends r \<Longrightarrow> read_int (s @ r) = Some (x, y @ r)"
  using read_digits_append [of s x y r] by (cases s) (auto simp: read_int_def split: if_splits)

lemma read_frac_append: "read_frac s = Some (x, y) \<Longrightarrow> ends r \<Longrightarrow> read_frac (s @ r) = Some (x, y @ r)"
proof (cases s)
  case Nil
  assume "read_frac s = Some (x, y)" "ends r"
  then show ?thesis using Nil by (cases r) (auto simp: read_frac_def ends_def)
next
  case (Cons c t)
  assume "read_frac s = Some (x, y)" "ends r"
  then show ?thesis using Cons read_digits_append [of t _ y r] by (auto simp: read_frac_def split: if_splits)
qed

lemma read_exp_append: "read_exp s = Some (x, y) \<Longrightarrow> ends r \<Longrightarrow> read_exp (s @ r) = Some (x, y @ r)"
proof (cases s)
  case Nil
  assume "read_exp s = Some (x, y)" "ends r"
  then show ?thesis using Nil by (cases r) (auto simp: read_exp_def ends_def)
next
  case (Cons c t)
  assume a: "read_exp s = Some (x, y)" and r: "ends r"
  show ?thesis
  proof (cases "c \<in> set ''eE''")
    case False
    then show ?thesis using a unfolding Cons by (auto simp: read_exp_def)
  next
    case True
    obtain sg t' where sg: "read_sign ''+-'' t = (sg, t')" by (metis prod.exhaust)
    then obtain ds where ds: "read_digits t' = Some (ds, y)" "x = c # sg @ ds" using a True by (auto simp: Cons read_exp_def)
    then have "t \<noteq> []" using sg by (auto simp: read_sign_def read_digits_def)
    then have "read_sign ''+-'' (t @ r) = (sg, t' @ r)" using sg by (cases t) (auto simp: read_sign_def split: if_splits)
    then show ?thesis using read_digits_append [OF ds(1) r] ds(2) True by (auto simp: Cons read_exp_def)
  qed
qed

lemma read_number_append:
  assumes "read_number s = Some (lit, y)" and "ends r"
  shows "read_number (s @ r) = Some (lit, y @ r)"
proof -
  obtain sg s1 where sg: "read_sign ''-'' s = (sg, s1)" by (metis prod.exhaust)
  obtain i s2 where i: "read_int s1 = Some (i, s2)" using assms(1) sg by (auto simp: read_number_def split: option.splits)
  obtain f s3 where f: "read_frac s2 = Some (f, s3)" using assms(1) sg i by (auto simp: read_number_def split: option.splits)
  obtain e where e: "read_exp s3 = Some (e, y)" "lit = sg @ i @ f @ e" using assms(1) sg i f by (auto simp: read_number_def)
  have "s \<noteq> []" using sg i by (auto simp: read_sign_def read_int_def)
  then have "read_sign ''-'' (s @ r) = (sg, s1 @ r)" using sg by (cases s) (auto simp: read_sign_def split: if_splits)
  then show ?thesis
    using read_int_append [OF i assms(2)] read_frac_append [OF f assms(2)] read_exp_append [OF e(1) assms(2)] e(2)
    by (simp add: read_number_def)
qed

lemma read_number_head:
  assumes "read_number s = Some (lit, y)"
  shows "\<exists>c t. s = c # t \<and> (c = CHR ''-'' \<or> is_digit c)"
proof (cases s)
  case (Cons c t)
  show ?thesis
  proof (cases "c = CHR ''-''")
    case False
    then have "read_int s \<noteq> None" using assms Cons by (auto simp: read_number_def read_sign_def split: option.splits)
    then have "is_digit c" by (auto simp: Cons read_int_def read_digits_def is_digit_def split: if_splits)
    then show ?thesis using Cons by simp
  qed (simp add: Cons)
qed (use assms in \<open>simp add: read_number_def read_sign_def read_int_def\<close>)


lemma ends_simps: "ends []" "ends (CHR '','' # r)" "ends (CHR '']'' # r)" "ends (CHR ''}'' # r)"
  by (simp_all add: ends_def is_digit_def)

lemma read_literal_number:
  assumes "read_number lit = Some (lit, [])" and "ends r"
  shows "read_literal (lit @ r) = Some (JNumber lit, r)" and "hd (lit @ r) \<notin> {CHR ''{'', CHR ''['', dquote}"
    and "skip_ws (lit @ r) = lit @ r" and "lit @ r \<noteq> []"
proof -
  obtain c t where c: "lit = c # t" "c = CHR ''-'' \<or> is_digit c" using read_number_head [OF assms(1)] by blast
  have d: "c \<notin> {CHR ''n'', CHR ''t'', CHR ''f'', CHR ''{'', CHR ''['', dquote, CHR 0x20, CHR 0x09, CHR 0x0A, CHR 0x0D}"
    using c(2) by (auto simp: is_digit_def)
  show "read_literal (lit @ r) = Some (JNumber lit, r)"
    using read_number_append [OF assms] d unfolding read_literal_def c(1) by (auto simp: take_Cons')
  show "hd (lit @ r) \<notin> {CHR ''{'', CHR ''['', dquote}" "skip_ws (lit @ r) = lit @ r" "lit @ r \<noteq> []"
    using d by (auto simp: c(1) skip_ws_def)
qed

text \<open>The text of a value starts with no space and with no closing bracket.\<close>

lemma json_print_head:
  assumes "json_ok d v"
  shows "\<exists>c t. json_print v = c # t \<and> c \<notin> {CHR 0x20, CHR 0x09, CHR 0x0A, CHR 0x0D, CHR '']'', CHR ''}''}"
proof (cases v)
  case (JNumber lit)
  then obtain c t where "lit = c # t" "c = CHR ''-'' \<or> is_digit c" using read_number_head [of lit lit "[]"] assms by auto
  then show ?thesis by (auto simp: JNumber is_digit_def)
qed (auto simp: json_string_def)

lemma skip_ws_print: "json_ok d v \<Longrightarrow> skip_ws (json_print v @ r) = json_print v @ r"
  using json_print_head [of d v] by (auto simp: skip_ws_def)

lemma skip_ws_quote: "skip_ws (json_string s @ r) = json_string s @ r"
  by (simp add: json_string_def skip_ws_def)

lemma not_starts_print: "json_ok d v \<Longrightarrow> c \<in> {CHR '']'', CHR ''}''} \<Longrightarrow> \<not> starts c (json_print v @ r)"
  using json_print_head [of d v] by (auto simp: starts_def)

text \<open>With all fuel from some point on.\<close>

definition enough :: "(nat \<Rightarrow> bool) \<Rightarrow> bool" where
  "enough P = (\<exists>n. \<forall>m \<ge> n. P m)"

lemma enough_const: "P \<Longrightarrow> enough (\<lambda>m. P)"
  by (simp add: enough_def)

lemma enough_Suc:
  assumes "enough P" and "\<And>m. P m \<Longrightarrow> Q (Suc m)"
  shows "enough Q"
proof -
  obtain n where n: "\<And>m. n \<le> m \<Longrightarrow> P m" using assms(1) by (auto simp: enough_def)
  have "Q m" if "Suc n \<le> m" for m using that n assms(2) by (cases m) auto
  then show ?thesis by (auto simp: enough_def)
qed

lemma enough_conj:
  assumes "enough P" and "enough Q"
  shows "enough (\<lambda>m. P m \<and> Q m)"
proof -
  obtain n n' where "\<And>m. n \<le> m \<Longrightarrow> P m" "\<And>m. n' \<le> m \<Longrightarrow> Q m" using assms by (auto simp: enough_def)
  then show ?thesis unfolding enough_def by (intro exI [of _ "max n n'"]) auto
qed

lemma parse_elems_print:
  assumes "\<And>v r. v \<in> set vs \<Longrightarrow> ends r \<Longrightarrow> enough (\<lambda>m. parse_value m d (json_print v @ r) = Some (v, r))" and "vs \<noteq> []"
  shows "enough (\<lambda>m. parse_elems m d (join_comma (map json_print vs) @ CHR '']'' # r) = Some (vs, r))"
  using assms(2,1)
proof (induction vs rule: list_nonempty_induct)
  case (single v)
  then show ?case by (intro enough_Suc [OF single(1) [of v "CHR '']'' # r"]]) (simp_all add: ends_simps skip_ws_def)
next
  case (cons v vs)
  let ?r = "join_comma (map json_print vs) @ CHR '']'' # r"
  have "enough (\<lambda>m. parse_value m d (json_print v @ CHR '','' # ?r) = Some (v, CHR '','' # ?r) \<and> parse_elems m d ?r = Some (vs, r))"
    using cons by (intro enough_conj) (simp_all add: ends_simps)
  then have "enough (\<lambda>m. parse_elems m d (json_print v @ CHR '','' # ?r) = Some (v # vs, r))"
    by (rule enough_Suc) (simp add: skip_ws_def)
  moreover have "join_comma (map json_print (v # vs)) @ CHR '']'' # r = json_print v @ CHR '','' # ?r"
    using cons(1) by (cases vs) simp_all
  ultimately show ?case by simp
qed

abbreviation print_member :: "string \<times> json \<Rightarrow> string" where
  "print_member m \<equiv> (case m of (k, v) \<Rightarrow> json_string k @ CHR '':'' # json_print v)"

lemma parse_members_print:
  assumes "\<And>k v r. (k, v) \<in> set ms \<Longrightarrow> ends r \<Longrightarrow> utf8_ok k \<and> enough (\<lambda>m. parse_value m d (json_print v @ r) = Some (v, r))"
    and "ms \<noteq> []"
  shows "enough (\<lambda>m. parse_members m d (join_comma (map print_member ms) @ CHR ''}'' # r) = Some (ms, r))"
  using assms(2,1)
proof (induction ms rule: list_nonempty_induct)
  case (single m)
  obtain k v where m: "m = (k, v)" by (cases m)
  have "utf8_ok k" "enough (\<lambda>m. parse_value m d (json_print v @ CHR ''}'' # r) = Some (v, CHR ''}'' # r))"
    using single [of k v "CHR ''}'' # r"] m by (simp_all add: ends_simps)
  then show ?case by (elim enough_Suc) (simp add: m json_string_def skip_ws_def unquote_quote)
next
  case (cons m ms)
  obtain k v where m: "m = (k, v)" by (cases m)
  let ?r = "join_comma (map print_member ms) @ CHR ''}'' # r"
  have k: "utf8_ok k" and v: "enough (\<lambda>m. parse_value m d (json_print v @ CHR '','' # ?r) = Some (v, CHR '','' # ?r))"
    using cons(3) [of k v "CHR '','' # ?r"] m by (simp_all add: ends_simps)
  have "enough (\<lambda>m. parse_members m d ?r = Some (ms, r))" by (rule cons(2)) (use cons(3) in auto)
  from enough_conj [OF v this]
  have "enough (\<lambda>n. parse_members n d (print_member m @ CHR '','' # ?r) = Some (m # ms, r))"
    by (rule enough_Suc) (use k in \<open>simp add: m json_string_def skip_ws_def unquote_quote\<close>)
  moreover have "join_comma (map print_member (m # ms)) @ CHR ''}'' # r = print_member m @ CHR '','' # ?r"
    using cons(1) by (cases ms) simp_all
  ultimately show ?case by simp
qed

lemma skip_ws_bracket: "skip_ws (CHR ''['' # s) = CHR ''['' # s"
  by (simp add: skip_ws_def)

lemma join_comma_print_head:
  assumes "json_ok d v"
  shows "skip_ws (join_comma (map json_print (v # vs)) @ r) = join_comma (map json_print (v # vs)) @ r"
    and "\<not> starts CHR '']'' (join_comma (map json_print (v # vs)) @ r)"
  using skip_ws_print [OF assms] not_starts_print [OF assms, of "CHR '']''"] by (cases vs; simp)+

lemma parse_print: "json_ok d v \<Longrightarrow> ends r \<Longrightarrow> enough (\<lambda>m. parse_value m d (json_print v @ r) = Some (v, r))"
proof (induction v arbitrary: d r)
  case JNull
  show ?case by (rule enough_Suc [OF enough_const [of True]]) (simp_all add: skip_ws_def read_literal_def)
next
  case (JBool b)
  show ?case by (rule enough_Suc [OF enough_const [of True]]) (simp_all add: skip_ws_def read_literal_def)
next
  case (JNumber lit)
  note n = read_literal_number [of lit r]
  show ?case
    by (rule enough_Suc [OF enough_const [of True]]) (use n JNumber in \<open>auto split: list.split\<close>)
next
  case (JString s)
  then show ?case
    by (intro enough_Suc [OF enough_const [of True]]) (simp_all add: skip_ws_def json_string_def unquote_quote)
next
  case (JArray vs)
  show ?case
  proof (cases vs)
    case Nil
    then show ?thesis using JArray
      by (intro enough_Suc [OF enough_const [of True]]) (simp_all add: skip_ws_def starts_def)
  next
    case (Cons w ws)
    have ok: "json_ok (d - 1) w" "d \<noteq> 0" using JArray Cons by auto
    have "enough (\<lambda>m. parse_elems m (d - 1) (join_comma (map json_print vs) @ CHR '']'' # r) = Some (vs, r))"
      by (rule parse_elems_print) (use JArray Cons in auto)
    then show ?thesis
      by (rule enough_Suc) (use ok join_comma_print_head [OF ok(1), where vs = ws and r = "CHR '']'' # r"] Cons in \<open>simp add: skip_ws_bracket\<close>)
  qed
next
  case (JObject ms)
  show ?case
  proof (cases ms)
    case Nil
    then show ?thesis using JObject
      by (intro enough_Suc [OF enough_const [of True]]) (simp_all add: skip_ws_def starts_def)
  next
    case (Cons w ws)
    have ok: "d \<noteq> 0" using JObject by auto
    obtain t where t: "join_comma (map print_member ms) = dquote # t"
      using Cons by (cases ws; cases w) (auto simp: json_string_def)
    have "enough (\<lambda>m. parse_members m (d - 1) (join_comma (map print_member ms) @ CHR ''}'' # r) = Some (ms, r))"
      by (rule parse_members_print) (use JObject Cons in \<open>fastforce\<close>)+
    then show ?thesis
      by (rule enough_Suc) (use ok t in \<open>simp add: skip_ws_def starts_def\<close>)
  qed
qed

lemma json_first_print: "json_ok 10000 v \<Longrightarrow> json_first (json_print v) = Some (v, [])"
  using parse_print [of 10000 v "[]"] json_first_fuel by (auto simp: ends_simps enough_def)

lemma json_Unmarshal_print: "json_ok 10000 v \<Longrightarrow> json_Unmarshal (json_print v) = Some v"
  by (simp add: json_Unmarshal_def json_first_print skip_ws_def)

lemma json_Decode_print: "json_ok 10000 v \<Longrightarrow> json_Decode (json_print v) = Some v"
  by (simp add: json_Decode_def json_first_print)

end
