(* ===== verification/Container_Manifest.thy ===== *)
theory Container_Manifest
  imports Go_Json Encodings
begin

text \<open>
  OCI manifests and digests (\<open>internal/packages/container/manifest.go\<close>): which media types are
  manifests, how a manifest is read from its JSON text, which digests it refers to, and the form of a
  digest. The text of a decoding error is the parameter \<open>jerr\<close>. A field that occurs twice in an object is
  decoded over its first value, element by element for a list.
\<close>

section \<open>Media types\<close>

definition MediaTypeOCIManifest :: string where
  "MediaTypeOCIManifest = ''application/vnd.oci.image.manifest.v1+json''"

definition MediaTypeOCIIndex :: string where
  "MediaTypeOCIIndex = ''application/vnd.oci.image.index.v1+json''"

definition MediaTypeDockerManifest :: string where
  "MediaTypeDockerManifest = ''application/vnd.docker.distribution.manifest.v2+json''"

definition MediaTypeDockerManifestV1 :: string where
  "MediaTypeDockerManifestV1 = ''application/vnd.docker.distribution.manifest.v1+json''"

definition MediaTypeDockerList :: string where
  "MediaTypeDockerList = ''application/vnd.docker.distribution.manifest.list.v2+json''"

definition IsManifestMediaType :: "string \<Rightarrow> bool" where
  "IsManifestMediaType mt =
     (mt \<in> {MediaTypeOCIManifest, MediaTypeOCIIndex, MediaTypeDockerManifest, MediaTypeDockerManifestV1,
             MediaTypeDockerList})"

section \<open>Manifests\<close>

record descriptor =
  desc_MediaType :: string
  desc_Digest :: string
  desc_Size :: int

record manifest =
  man_SchemaVersion :: int
  man_MediaType :: string
  man_Config :: descriptor
  man_Layers :: "descriptor list"
  man_Manifests :: "descriptor list"

definition zero_descriptor :: descriptor where
  "zero_descriptor = \<lparr>desc_MediaType = [], desc_Digest = [], desc_Size = 0\<rparr>"

definition zero_manifest :: manifest where
  "zero_manifest = \<lparr>man_SchemaVersion = 0, man_MediaType = [], man_Config = zero_descriptor, man_Layers = [], man_Manifests = []\<rparr>"

text \<open>
  A JSON value decoded over a struct: \<open>null\<close> leaves it, an object sets its fields, anything else is an
  error. The second component says what went wrong, if anything did.
\<close>

definition decode_struct :: "('c \<Rightarrow> string \<Rightarrow> json \<Rightarrow> 'c \<times> string option) \<Rightarrow> 'c \<Rightarrow> json \<Rightarrow> 'c \<times> string option" where
  "decode_struct fld cur v =
     (case v of
        JNull \<Rightarrow> (cur, None)
      | JObject ms \<Rightarrow> decode_members fld cur ms
      | _ \<Rightarrow> (cur, Some (json_kind v)))"

definition descriptor_field :: "descriptor \<Rightarrow> string \<Rightarrow> json \<Rightarrow> descriptor \<times> string option" where
  "descriptor_field d k v =
     (if equal_fold k ''mediaType'' then
        apfst (\<lambda>s. d\<lparr>desc_MediaType := s\<rparr>) (decode_string ''string'' k (desc_MediaType d) v)
      else if equal_fold k ''digest'' then
        apfst (\<lambda>s. d\<lparr>desc_Digest := s\<rparr>) (decode_string ''string'' k (desc_Digest d) v)
      else if equal_fold k ''size'' then
        apfst (\<lambda>i. d\<lparr>desc_Size := i\<rparr>) (decode_int k (desc_Size d) v)
      else (d, None))"

fun decode_descriptors :: "descriptor list \<Rightarrow> json list \<Rightarrow> descriptor list \<times> string option" where
  "decode_descriptors cur [] = ([], None)"
| "decode_descriptors cur (v # vs) =
     (let (d, e) = decode_struct descriptor_field (case cur of [] \<Rightarrow> zero_descriptor | c # cs \<Rightarrow> c) v;
          (ds, e') = decode_descriptors (tl cur) vs
      in (d # ds, first_error e e'))"

definition decode_descriptor_list :: "descriptor list \<Rightarrow> json \<Rightarrow> descriptor list \<times> string option" where
  "decode_descriptor_list cur v =
     (case v of
        JNull \<Rightarrow> ([], None)
      | JArray vs \<Rightarrow> decode_descriptors cur vs
      | _ \<Rightarrow> (cur, Some (json_kind v)))"

definition manifest_field :: "manifest \<Rightarrow> string \<Rightarrow> json \<Rightarrow> manifest \<times> string option" where
  "manifest_field m k v =
     (if equal_fold k ''schemaVersion'' then
        apfst (\<lambda>i. m\<lparr>man_SchemaVersion := i\<rparr>) (decode_int k (man_SchemaVersion m) v)
      else if equal_fold k ''mediaType'' then
        apfst (\<lambda>s. m\<lparr>man_MediaType := s\<rparr>) (decode_string ''string'' k (man_MediaType m) v)
      else if equal_fold k ''config'' then
        apfst (\<lambda>c. m\<lparr>man_Config := c\<rparr>) (decode_struct descriptor_field (man_Config m) v)
      else if equal_fold k ''layers'' then
        apfst (\<lambda>ds. m\<lparr>man_Layers := ds\<rparr>) (decode_descriptor_list (man_Layers m) v)
      else if equal_fold k ''manifests'' then
        apfst (\<lambda>ds. m\<lparr>man_Manifests := ds\<rparr>) (decode_descriptor_list (man_Manifests m) v)
      else (m, None))"

definition invalid_manifest :: "string \<Rightarrow> string" where
  "invalid_manifest msg = ''container: invalid manifest: '' @ msg"

definition ParseManifest :: "(string \<Rightarrow> string) \<Rightarrow> string \<Rightarrow> (string, manifest) result" where
  "ParseManifest jerr body =
     (case map_option (decode_struct manifest_field zero_manifest) (json_Decode body) of
        Some (m, None) \<Rightarrow>
          (if man_SchemaVersion m = 0 then Inl (invalid_manifest ''missing schemaVersion'') else Inr m)
      | _ \<Rightarrow> Inl (invalid_manifest (jerr body)))"

definition ReferencedDigests :: "manifest \<Rightarrow> string list" where
  "ReferencedDigests m =
     filter (\<lambda>dg. dg \<noteq> []) (desc_Digest (man_Config m) # map desc_Digest (man_Layers m) @ map desc_Digest (man_Manifests m))"

definition IsIndex :: "manifest \<Rightarrow> bool" where
  "IsIndex m = (man_Manifests m \<noteq> [])"

section \<open>Digests\<close>

definition isHexDigit :: "char \<Rightarrow> bool" where
  "isHexDigit c =
     (let n = (of_char c :: nat) in
      (48 \<le> n \<and> n \<le> 57) \<or> (97 \<le> n \<and> n \<le> 102) \<or> (65 \<le> n \<and> n \<le> 70))"

definition is_digest_ref :: "string \<Rightarrow> bool" where
  "is_digest_ref s = (has_prefix s ''sha256:'' \<or> has_prefix s ''sha512:'')"

definition ValidateDigest :: "string \<Rightarrow> bool" where
  "ValidateDigest s =
     (is_digest_ref s \<and> drop 7 s \<noteq> [] \<and> list_all isHexDigit (drop 7 s))"

definition DigestSHA256 :: "string \<Rightarrow> string" where
  "DigestSHA256 s = (if has_prefix s ''sha256:'' then drop 7 s else [])"

definition HexToDigest :: "string \<Rightarrow> string" where
  "HexToDigest hex = ''sha256:'' @ hex"

text \<open>The digest of some bytes.\<close>

definition digest_of :: "string \<Rightarrow> string" where
  "digest_of b = HexToDigest (hex_encode (sha256 b))"

lemma DigestSHA256_HexToDigest [simp]: "DigestSHA256 (HexToDigest h) = h"
  by (simp add: DigestSHA256_def HexToDigest_def has_prefix_def)

lemma is_digest_ref_digest_of [simp]: "is_digest_ref (digest_of b)"
  by (simp add: is_digest_ref_def digest_of_def HexToDigest_def has_prefix_def)

lemma isHexDigit_hex_digit: "n < 16 \<Longrightarrow> isHexDigit (hex_digit n)"
proof -
  assume "n < 16"
  then have "hex_digit n \<in> set ''0123456789abcdef''" unfolding hex_digit_def by (intro nth_mem) simp
  then show ?thesis by (auto simp: isHexDigit_def)
qed

lemma ValidateDigest_digest_of: "ValidateDigest (digest_of b)"
proof -
  have "list_all isHexDigit (hex_encode s)" for s
    unfolding hex_encode_def
    by (auto simp: list_all_iff intro!: isHexDigit_hex_digit simp: div_less_iff_less_mult)
  moreover have "hex_encode (sha256 b) \<noteq> []"
    by (metis length_0_conv length_hex_encode length_sha256 mult_eq_0_iff zero_neq_numeral)
  ultimately show ?thesis
    by (simp add: ValidateDigest_def is_digest_ref_def digest_of_def HexToDigest_def has_prefix_def)
qed

end
