(* ===== verification/Container_Upload.thy ===== *)
theory Container_Upload
  imports Container_Manifest Capped_Reader "HOL-Library.AList" "HOL-Library.List_Lexorder" "HOL-Library.Char_ord"
begin

text \<open>
  The tracker of blob uploads in progress (\<open>internal/packages/container/upload.go\<close>).

  A session is an object the map of sessions points to; a request that has looked it up keeps the
  pointer while other requests go on. \<open>ut_heap\<close> holds the objects, a pointer is a position in it,
  \<open>ut_dir\<close> are the files of the staging directory. Bytes go to the file first, then to the hash.
  Random identifiers and file names, and what the operating system refuses, are parameters.
  Times are in nanoseconds. \<open>Append\<close> is put together from the steps other requests can come between.
\<close>

definition ociUploadPrefix :: string where
  "ociUploadPrefix = ''pkgmirror-oci-upload-''"

definition hashedBufferPrefix :: string where
  "hashedBufferPrefix = ''pkgmirror-upload-''"

definition IdleSweepInterval :: int where
  "IdleSweepInterval = 5 * 60 * 1000000000"

definition IdleTimeout :: int where
  "IdleTimeout = 24 * 3600 * 1000000000"

text \<open>\<open>up_hashed\<close> are the bytes the hash has seen, \<open>up_open\<close> whether the file is still open.\<close>

record upload =
  up_uuid :: string
  up_file :: string
  up_open :: bool
  up_size :: int
  up_lastActive :: int
  up_hashed :: string

record upload_tracker =
  ut_uploads :: "(string \<times> nat) list"
  ut_heap :: "upload list"
  ut_dir :: "(string \<times> string) list"

datatype upload_error =
  ErrNoSuchUpload | ErrDigestMismatch string string | TempFailed string | AppendFailed string | SeekFailed

definition NewUploadTracker :: "(string \<times> string) list \<Rightarrow> upload_tracker" where
  "NewUploadTracker dir = \<lparr>ut_uploads = [], ut_heap = [], ut_dir = dir\<rparr>"

definition newUUID :: "string \<Rightarrow> string" where
  "newUUID rnd = hex_encode rnd"

text \<open>
  \<open>rnd\<close> are sixteen random bytes, or the text of the error of the random source; \<open>name\<close> is the random
  part of the file name, or the text of the error of \<open>os.CreateTemp\<close>, which never reuses a name.
\<close>

definition upload_Begin :: "(string, string) result \<Rightarrow> (string, string) result \<Rightarrow> int \<Rightarrow> upload_tracker
    \<Rightarrow> upload_tracker \<times> (upload_error, string) result" where
  "upload_Begin rnd name now t =
     (case rnd of
        Inl e \<Rightarrow> (t, Inl (TempFailed e))
      | Inr bytes \<Rightarrow>
          (case name of
             Inl e \<Rightarrow> (t, Inl (TempFailed (''create upload temp: '' @ e)))
           | Inr tail \<Rightarrow>
               (let uuid = newUUID bytes; f = ociUploadPrefix @ tail in
                if map_of (ut_dir t) f \<noteq> None then (t, Inl (TempFailed ''create upload temp: file exists''))
                else
                  (t\<lparr>ut_uploads := AList.update uuid (length (ut_heap t)) (ut_uploads t),
                     ut_heap := ut_heap t @ [\<lparr>up_uuid = uuid, up_file = f, up_open = True, up_size = 0,
                                              up_lastActive = now, up_hashed = []\<rparr>],
                     ut_dir := AList.update f [] (ut_dir t)\<rparr>, Inr uuid))))"

definition upload_lookup :: "string \<Rightarrow> upload_tracker \<Rightarrow> (upload_error, nat) result" where
  "upload_lookup uuid t = (case map_of (ut_uploads t) uuid of None \<Rightarrow> Inl ErrNoSuchUpload | Some p \<Rightarrow> Inr p)"

abbreviation upload_at :: "upload_tracker \<Rightarrow> nat \<Rightarrow> upload" where
  "upload_at t p \<equiv> ut_heap t ! p"

definition file_bytes :: "upload_tracker \<Rightarrow> nat \<Rightarrow> string" where
  "file_bytes t p = (case map_of (ut_dir t) (up_file (upload_at t p)) of None \<Rightarrow> [] | Some b \<Rightarrow> b)"

text \<open>
  One write of \<open>io.MultiWriter\<close>. \<open>fault\<close>: the file took only that many bytes; the hash is then left out.
\<close>

definition upload_write :: "nat \<Rightarrow> string \<Rightarrow> nat option \<Rightarrow> upload_tracker \<Rightarrow> upload_tracker \<times> bool" where
  "upload_write p c fault t =
     (let u = upload_at t p in
      if \<not> up_open u then (t, False)
      else (case fault of
          Some k \<Rightarrow> (t\<lparr>ut_dir := AList.update (up_file u) (file_bytes t p @ take k c) (ut_dir t)\<rparr>, False)
        | None \<Rightarrow>
            (t\<lparr>ut_dir := AList.update (up_file u) (file_bytes t p @ c) (ut_dir t),
               ut_heap := (ut_heap t)[p := u\<lparr>up_hashed := up_hashed u @ c\<rparr>]\<rparr>, True)))"

text \<open>\<open>io.Copy\<close>: the bytes written and whether it went well. A fault is the number of a chunk and of bytes.\<close>

fun upload_copy :: "nat \<Rightarrow> string list \<Rightarrow> bool \<Rightarrow> (nat \<times> nat) option \<Rightarrow> upload_tracker \<Rightarrow> upload_tracker \<times> nat \<times> bool" where
  "upload_copy p [] read_ok fault t = (t, 0, read_ok)"
| "upload_copy p (c # cs) read_ok fault t =
     (case upload_write p c (case fault of Some (0, k) \<Rightarrow> Some k | _ \<Rightarrow> None) t of
        (t', False) \<Rightarrow> (t', 0, False)
      | (t', True) \<Rightarrow>
          (case upload_copy p cs read_ok (map_option (apfst (\<lambda>i. i - 1)) fault) t' of
             (t'', n, ok) \<Rightarrow> (t'', length c + n, ok)))"

definition upload_grow :: "nat \<Rightarrow> nat \<Rightarrow> int \<Rightarrow> upload_tracker \<Rightarrow> upload_tracker" where
  "upload_grow p n now t =
     t\<lparr>ut_heap := (ut_heap t)[p := (upload_at t p)\<lparr>up_size := up_size (upload_at t p) + int n, up_lastActive := now\<rparr>]\<rparr>"

definition upload_Append :: "string \<Rightarrow> string \<Rightarrow> reader \<Rightarrow> (nat \<times> nat) option \<Rightarrow> int \<Rightarrow> upload_tracker
    \<Rightarrow> upload_tracker \<times> (upload_error, int) result" where
  "upload_Append io_err uuid r fault now t =
     (case upload_lookup uuid t of
        Inl e \<Rightarrow> (t, Inl e)
      | Inr p \<Rightarrow>
          (case upload_copy p (rd_chunks r) (rd_end r = EOF) fault t of
             (t', n, ok) \<Rightarrow>
               if \<not> ok then (t', Inl (AppendFailed io_err))
               else (upload_grow p n now t', Inr (up_size (upload_at t p) + int n))))"

definition upload_Size :: "string \<Rightarrow> upload_tracker \<Rightarrow> (upload_error, int) result" where
  "upload_Size uuid t = bind_result (upload_lookup uuid t) (\<lambda>p. Inr (up_size (upload_at t p)))"

text \<open>Closing the file and removing it from the directory.\<close>

definition upload_discard :: "nat \<Rightarrow> upload_tracker \<Rightarrow> upload_tracker" where
  "upload_discard p t =
     t\<lparr>ut_heap := (ut_heap t)[p := (upload_at t p)\<lparr>up_open := False\<rparr>],
       ut_dir := AList.delete (up_file (upload_at t p)) (ut_dir t)\<rparr>"

definition upload_forget :: "string \<Rightarrow> upload_tracker \<Rightarrow> upload_tracker" where
  "upload_forget uuid t = t\<lparr>ut_uploads := AList.delete uuid (ut_uploads t)\<rparr>"

text \<open>The open file is handed out as the pointer of its session. Rewinding a closed file fails.\<close>

definition upload_Finalize :: "string \<Rightarrow> string \<Rightarrow> upload_tracker
    \<Rightarrow> upload_tracker \<times> (upload_error, nat \<times> int \<times> string) result" where
  "upload_Finalize uuid wantDigest t =
     (case upload_lookup uuid t of
        Inl e \<Rightarrow> (t, Inl e)
      | Inr p \<Rightarrow>
          (let u = upload_at t p; gotDigest = digest_of (up_hashed u); t1 = upload_forget uuid t in
           if wantDigest \<noteq> [] \<and> wantDigest \<noteq> gotDigest then (upload_discard p t1, Inl (ErrDigestMismatch gotDigest wantDigest))
           else if \<not> up_open u then (upload_discard p t1, Inl SeekFailed)
           else (t1, Inr (p, up_size u, gotDigest))))"

definition upload_Cancel :: "string \<Rightarrow> upload_tracker \<Rightarrow> upload_tracker" where
  "upload_Cancel uuid t =
     (case upload_lookup uuid t of
        Inl e \<Rightarrow> t
      | Inr p \<Rightarrow> upload_discard p (upload_forget uuid t))"

definition sweepIdle :: "int \<Rightarrow> int \<Rightarrow> upload_tracker \<Rightarrow> upload_tracker \<times> nat" where
  "sweepIdle timeout now t =
     (let stale = filter (\<lambda>(uuid, p). up_lastActive (upload_at t p) < now - timeout) (ut_uploads t) in
      (fold (\<lambda>(uuid, p) t. upload_discard p (upload_forget uuid t)) stale t, length stale))"

text \<open>
  At boot: the files of the directory whose name has one of the two prefixes. \<open>isDir\<close> are the names
  of directories, \<open>stuck\<close> the text of the error when a file cannot be removed.
\<close>

definition is_staging :: "string \<Rightarrow> bool" where
  "is_staging name = (has_prefix name ociUploadPrefix \<or> has_prefix name hashedBufferPrefix)"

fun sweep_files :: "(string \<Rightarrow> bool) \<Rightarrow> (string \<Rightarrow> string option) \<Rightarrow> string list \<Rightarrow> (string \<times> string) list
    \<Rightarrow> (string \<times> string) list \<times> nat \<times> string option" where
  "sweep_files isDir stuck [] dir = (dir, 0, None)"
| "sweep_files isDir stuck (name # names) dir =
     (if isDir name \<or> \<not> is_staging name then sweep_files isDir stuck names dir
      else (case stuck name of
          Some e \<Rightarrow> (case sweep_files isDir stuck names dir of (dir', n, e') \<Rightarrow> (dir', n, Some e))
        | None \<Rightarrow> (case sweep_files isDir stuck names (AList.delete name dir) of (dir', n, e') \<Rightarrow> (dir', Suc n, e'))))"

datatype dir_read = DirMissing | DirUnreadable string | DirListed

definition SweepOrphans :: "string \<Rightarrow> dir_read \<Rightarrow> (string \<Rightarrow> bool) \<Rightarrow> (string \<Rightarrow> string option)
    \<Rightarrow> (string \<times> string) list \<Rightarrow> (string \<times> string) list \<times> nat \<times> string option" where
  "SweepOrphans tmpDir readable isDir stuck dir =
     (if tmpDir = [] then (dir, 0, None)
      else (case readable of
          DirMissing \<Rightarrow> (dir, 0, None)
        | DirUnreadable e \<Rightarrow> (dir, 0, Some (''read tmpdir: '' @ e))
        | DirListed \<Rightarrow> sweep_files isDir stuck (sort (map fst dir)) dir))"

end
