(* ===== verification/Upload_Laws.thy ===== *)
theory Upload_Laws
  imports Container_Upload
begin

text \<open>
  Concurrent use of the upload tracker. A state is the tracker, the requests that are appending - the
  pointer they looked up and the bytes they have written - and the requests that have finalized a
  session and not yet removed its file, with the digest they were given and whether an append to the
  session was under way then. \<open>faulty\<close>: may writes to the staging file fail part-way? What an append
  does is split into its writes; opening, cancelling, refusing and sweeping a session are one step each here,
  which is enough for the bytes of a session. Upload_Races splits these too, for the files of the directory.
\<close>

type_synonym upload_state = "upload_tracker \<times> (nat \<times> nat) list \<times> (nat \<times> string \<times> bool) list"

inductive upload_step :: "bool \<Rightarrow> upload_state \<Rightarrow> upload_state \<Rightarrow> bool" for faulty :: bool where
  st_begin: "map_of (ut_uploads t) (newUUID rnd) = None \<Longrightarrow> upload_Begin (Inr rnd) name now t = (t', r) \<Longrightarrow>
     upload_step faulty (t, ws, hs) (t', ws, hs)"
| st_enter: "upload_lookup uuid t = Inr p \<Longrightarrow> upload_step faulty (t, ws, hs) (t, (p, 0) # ws, hs)"
| st_write: "(p, n) \<in> set ws \<Longrightarrow> upload_write p c None t = (t', True) \<Longrightarrow>
     upload_step faulty (t, ws, hs) (t', (p, n + length c) # remove1 (p, n) ws, hs)"
| st_fail: "(p, n) \<in> set ws \<Longrightarrow> fault = Some 0 \<or> faulty \<Longrightarrow> upload_write p c fault t = (t', False) \<Longrightarrow>
     upload_step faulty (t, ws, hs) (t', remove1 (p, n) ws, hs)"
| st_abort: "(p, n) \<in> set ws \<Longrightarrow> upload_step faulty (t, ws, hs) (t, remove1 (p, n) ws, hs)"
| st_leave: "(p, n) \<in> set ws \<Longrightarrow> upload_step faulty (t, ws, hs) (upload_grow p n now t, remove1 (p, n) ws, hs)"
| st_refused: "upload_Finalize uuid want t = (t', Inl e) \<Longrightarrow> upload_step faulty (t, ws, hs) (t', ws, hs)"
| st_finalize: "upload_Finalize uuid want t = (t', Inr (p, n, dg)) \<Longrightarrow>
     upload_step faulty (t, ws, hs) (t', ws, (p, dg, p \<in> fst ` set ws) # hs)"
| st_release: "(p, dg, b) \<in> set hs \<Longrightarrow> upload_step faulty (t, ws, hs) (upload_discard p t, ws, remove1 (p, dg, b) hs)"
| st_cancel: "upload_step faulty (t, ws, hs) (upload_Cancel uuid t, ws, hs)"
| st_sweep: "upload_step faulty (t, ws, hs) (fst (sweepIdle timeout now t), ws, hs)"

text \<open>The pointers of the sessions and of the finalized uploads, and what has to hold of them.\<close>

definition live :: "upload_tracker \<Rightarrow> (nat \<times> string \<times> bool) list \<Rightarrow> nat list" where
  "live t hs = map snd (ut_uploads t) @ map fst hs"

abbreviation file_of :: "upload_tracker \<Rightarrow> nat \<Rightarrow> string" where
  "file_of t p \<equiv> up_file (upload_at t p)"

definition staged :: "upload_tracker \<Rightarrow> nat set \<Rightarrow> bool" where
  "staged t P \<longleftrightarrow>
     inj_on (file_of t) P \<and> distinct (map fst (ut_dir t))
   \<and> (\<forall>p \<in> P. p < length (ut_heap t) \<and> has_prefix (file_of t p) ociUploadPrefix)
   \<and> (\<forall>p < length (ut_heap t). up_open (upload_at t p) \<longleftrightarrow> p \<in> P)
   \<and> (\<forall>f. has_prefix f ociUploadPrefix \<longrightarrow> (f \<in> fst ` set (ut_dir t) \<longleftrightarrow> f \<in> file_of t ` P))"

lemma nth_update: "xs[i := x] ! j = (if i = j \<and> j < length xs then x else xs ! j)"
  by (metis list_update_beyond not_le nth_list_update)

lemma update_fresh: "k \<notin> fst ` set al \<Longrightarrow> AList.update k v al = al @ [(k, v)]"
  by (induction al) auto

lemma staged_frame:
  assumes "staged t P" and "length (ut_heap t') = length (ut_heap t)"
    and "\<And>p. p < length (ut_heap t) \<Longrightarrow> file_of t' p = file_of t p \<and> up_open (upload_at t' p) = up_open (upload_at t p)"
    and "fst ` set (ut_dir t') = fst ` set (ut_dir t)" and "distinct (map fst (ut_dir t'))"
  shows "staged t' P"
proof -
  have "p \<in> P \<Longrightarrow> file_of t' p = file_of t p" for p using assms(1,3) by (auto simp: staged_def)
  then have "file_of t' ` P = file_of t ` P" "inj_on (file_of t') P = inj_on (file_of t) P"
    by (auto simp: image_def inj_on_def)
  then show ?thesis using assms unfolding staged_def by simp
qed

lemma staged_discard:
  assumes "staged t P" and "p \<in> P"
  shows "staged (upload_discard p t) (P - {p})"
proof -
  have p: "p < length (ut_heap t)" using assms by (auto simp: staged_def)
  have f: "file_of (upload_discard p t) q = file_of t q" for q
    using p by (cases "q = p") (simp_all add: upload_discard_def)
  have op: "q < length (ut_heap t) \<Longrightarrow> up_open (upload_at (upload_discard p t) q) \<longleftrightarrow> q \<noteq> p \<and> up_open (upload_at t q)" for q
    using p by (cases "q = p") (simp_all add: upload_discard_def)
  have d: "fst ` set (ut_dir (upload_discard p t)) = fst ` set (ut_dir t) - {file_of t p}"
    "distinct (map fst (ut_dir (upload_discard p t)))" "length (ut_heap (upload_discard p t)) = length (ut_heap t)"
    using assms by (simp_all add: upload_discard_def dom_map_of_conv_image_fst [symmetric] delete_conv' staged_def distinct_delete)
  have inj: "q \<in> P \<Longrightarrow> file_of t q = file_of t p \<longleftrightarrow> q = p" for q
    using assms by (auto simp: staged_def inj_on_def)
  show ?thesis
    unfolding staged_def d(1,3) f
    using assms inj d(2) op unfolding staged_def by (auto intro: inj_on_subset)
qed

lemma staged_begin:
  assumes "staged t P" and "upload_Begin (Inr rnd) (Inr tail) now t = (t', Inr uuid)"
  shows "staged t' (insert (length (ut_heap t)) P)"
proof -
  let ?f = "ociUploadPrefix @ tail" let ?n = "length (ut_heap t)"
  have new: "?f \<notin> fst ` set (ut_dir t)"
    and h: "ut_heap t' = ut_heap t @ [\<lparr>up_uuid = newUUID rnd, up_file = ?f, up_open = True, up_size = 0, up_lastActive = now, up_hashed = []\<rparr>]"
    and d: "ut_dir t' = AList.update ?f [] (ut_dir t)"
    using assms(2) by (auto simp: upload_Begin_def Let_def map_of_eq_None_iff split: if_splits)
  have P: "p < ?n" if "p \<in> P" for p using assms(1) that by (auto simp: staged_def)
  have f: "file_of t' p = file_of t p" if "p < ?n" for p using that by (simp add: h nth_append)
  have f': "file_of t' ?n = ?f" "up_open (upload_at t' ?n)" by (simp_all add: h)
  have img: "file_of t' ` P = file_of t ` P" using f P by (auto simp: image_def)
  have pre: "has_prefix ?f ociUploadPrefix" by (simp add: has_prefix_def)
  then have "?f \<notin> file_of t ` P" using new assms(1) by (auto simp: staged_def)
  then have inj: "inj_on (file_of t') (insert ?n P)"
    using assms(1) P f' f by (simp add: inj_on_insert img) (auto simp: staged_def inj_on_def)
  have dirs: "fst ` set (ut_dir t') = insert ?f (fst ` set (ut_dir t))" "distinct (map fst (ut_dir t'))"
    using assms(1) by (simp_all add: d dom_map_of_conv_image_fst [symmetric] update_conv' staged_def distinct_update)
  show ?thesis
    unfolding staged_def
  proof (intro conjI inj dirs(2) ballI allI impI)
    fix p assume p: "p \<in> insert ?n P"
    then show "p < length (ut_heap t')" using P [of p] by (auto simp: h)
    show "has_prefix (file_of t' p) ociUploadPrefix"
      using p P [of p] f [of p] f' pre assms(1) by (auto simp: staged_def)
  next
    fix p assume "p < length (ut_heap t')"
    then show "up_open (upload_at t' p) \<longleftrightarrow> p \<in> insert ?n P"
      using assms(1) P by (auto simp: h nth_append staged_def less_Suc_eq)
  next
    fix f assume "has_prefix f ociUploadPrefix"
    then show "f \<in> fst ` set (ut_dir t') \<longleftrightarrow> f \<in> file_of t' ` insert ?n P"
      using assms(1) dirs(1) f' img by (auto simp: staged_def)
  qed
qed

lemma staged_write:
  assumes "staged t P" and "upload_write p c fault t = (t', ok)" and "p < length (ut_heap t)"
  shows "staged t' P" and "ut_uploads t' = ut_uploads t" and "length (ut_heap t') = length (ut_heap t)"
proof -
  show "ut_uploads t' = ut_uploads t" "length (ut_heap t') = length (ut_heap t)"
    using assms(2) by (auto simp: upload_write_def Let_def split: if_splits option.splits)
  show "staged t' P"
  proof (cases "up_open (upload_at t p)")
    case False
    then show ?thesis using assms by (simp add: upload_write_def)
  next
    case True
    with assms(1,3) have "p \<in> P" by (simp add: staged_def)
    then have mem: "file_of t p \<in> fst ` set (ut_dir t)" using assms(1) by (auto simp: staged_def)
    have "fst ` set (ut_dir t') = insert (file_of t p) (fst ` set (ut_dir t)) \<and> distinct (map fst (ut_dir t'))"
      using assms True by (auto simp: upload_write_def Let_def dom_map_of_conv_image_fst [symmetric] update_conv' staged_def distinct_update split: option.splits)
    with mem show ?thesis
      using assms(2,3) True
      by (intro staged_frame [OF assms(1)]) (auto simp: upload_write_def Let_def nth_list_update insert_absorb split: option.splits if_splits)
  qed
qed

lemma staged_grow:
  assumes "staged t P" and "p < length (ut_heap t)"
  shows "staged (upload_grow p n now t) P"
  using assms by (intro staged_frame [OF assms(1)]) (auto simp: upload_grow_def nth_list_update staged_def)

text \<open>The invariant: every open session is known to somebody, and the staged files are theirs.\<close>

definition tracker_ok :: "upload_state \<Rightarrow> bool" where
  "tracker_ok st \<longleftrightarrow>
     (case st of (t, ws, hs) \<Rightarrow>
        staged t (set (live t hs)) \<and> distinct (live t hs) \<and> distinct (map fst (ut_uploads t))
      \<and> (\<forall>(p, n) \<in> set ws. p < length (ut_heap t)))"

lemma live_forget:
  assumes "upload_lookup uuid t = Inr p" and "distinct (live t hs)" and "distinct (map fst (ut_uploads t))"
  shows "distinct (p # live (upload_forget uuid t) hs)" "set (p # live (upload_forget uuid t) hs) = set (live t hs)"
    "distinct (map fst (ut_uploads (upload_forget uuid t)))"
proof -
  have "map_of (ut_uploads t) uuid = Some p" using assms(1) by (simp add: upload_lookup_def split: option.splits)
  then obtain xs ys where xs: "ut_uploads t = xs @ (uuid, p) # ys" by (metis map_of_SomeD split_list)
  then have "AList.delete uuid (ut_uploads t) = xs @ ys"
    using assms(3) by (auto simp: AList.delete_eq intro!: arg_cong2 [of _ _ _ _ "(@)"] filter_True) (metis fst_conv image_eqI)+
  then show "distinct (p # live (upload_forget uuid t) hs)" "set (p # live (upload_forget uuid t) hs) = set (live t hs)"
    "distinct (map fst (ut_uploads (upload_forget uuid t)))"
    using assms(2,3) by (auto simp: live_def upload_forget_def xs)
qed

lemma discard_simps [simp]:
  "ut_uploads (upload_discard p t) = ut_uploads t" "length (ut_heap (upload_discard p t)) = length (ut_heap t)"
  "live (upload_discard p t) hs = live t hs"
  by (simp_all add: upload_discard_def live_def)

lemma staged_forget: "staged (upload_forget uuid t) P = staged t P"
  by (simp add: staged_def upload_forget_def)

lemma tracker_ok_drop:
  assumes "tracker_ok (t, ws, hs)" and "upload_lookup uuid t = Inr p"
  shows "tracker_ok (upload_discard p (upload_forget uuid t), ws, hs)"
proof -
  note lf = live_forget [OF assms(2), of hs]
  have "staged (upload_forget uuid t) (set (p # live (upload_forget uuid t) hs))"
    using assms(1) lf(2) by (simp add: tracker_ok_def staged_forget)
  from staged_discard [OF this, of p] show ?thesis
    using assms(1) lf by (simp add: tracker_ok_def) (simp add: upload_forget_def)
qed

text \<open>What dropping a session preserves, sweeping preserves.\<close>

lemma fold_drop_preserves:
  assumes "I t" and "\<And>u p t. I t \<Longrightarrow> upload_lookup u t = Inr p \<Longrightarrow> I (upload_discard p (upload_forget u t))"
    and "distinct (map fst stale)" and "\<And>u p. (u, p) \<in> set stale \<Longrightarrow> upload_lookup u t = Inr p"
  shows "I (fold (\<lambda>(uuid, p) t. upload_discard p (upload_forget uuid t)) stale t)"
  using assms(1,3,4)
proof (induction stale arbitrary: t)
  case (Cons x xs)
  obtain u p where x: "x = (u, p)" by (cases x)
  have "upload_lookup u' (upload_discard p (upload_forget u t)) = Inr p'" if "(u', p') \<in> set xs" for u' p'
  proof -
    have "u' \<noteq> u" using Cons.prems(2) that x by (auto simp: image_iff)
    then show ?thesis using Cons.prems(3) [of u' p'] that by (simp add: upload_lookup_def upload_forget_def delete_conv')
  qed
  then show ?case
    using Cons.IH [of "upload_discard p (upload_forget u t)"] Cons.prems assms(2) [of t u p] x by simp
qed simp

lemma sweep_preserves:
  assumes "I t" and "\<And>u p t. I t \<Longrightarrow> upload_lookup u t = Inr p \<Longrightarrow> I (upload_discard p (upload_forget u t))"
    and "distinct (map fst (ut_uploads t))"
  shows "I (fst (sweepIdle timeout now t))"
  unfolding sweepIdle_def Let_def fst_conv
  by (rule fold_drop_preserves [where I = I, OF assms(1,2)])
    (use assms(3) in \<open>auto simp: upload_lookup_def distinct_map_filter\<close>)

lemma tracker_ok_frame:
  assumes "tracker_ok (t, ws, hs)" and "staged t' (set (live t hs))" and "ut_uploads t' = ut_uploads t"
    and "length (ut_heap t') = length (ut_heap t)" and "\<And>q n. (q, n) \<in> set ws' \<Longrightarrow> q < length (ut_heap t)"
  shows "tracker_ok (t', ws', hs)"
proof -
  have "live t' hs = live t hs" using assms(3) by (simp add: live_def)
  then show ?thesis using assms by (auto simp: tracker_ok_def)
qed

lemma tracker_ok_staged: "tracker_ok (t, ws, hs) \<Longrightarrow> staged t (set (live t hs))"
  by (simp add: tracker_ok_def)

lemma tracker_ok_writer: "tracker_ok (t, ws, hs) \<Longrightarrow> (p, n) \<in> set ws \<Longrightarrow> p < length (ut_heap t)"
  by (auto simp: tracker_ok_def)

lemma remove1_mem: "x \<in> set (remove1 y xs) \<Longrightarrow> x \<in> set xs"
  by (meson notin_set_remove1)

lemma upload_step_ok: "upload_step faulty st st' \<Longrightarrow> tracker_ok st \<Longrightarrow> tracker_ok st'"
proof (induction rule: upload_step.induct)
  case (st_begin t rnd name now t' r ws hs)
  show ?case
  proof (cases r)
    case (Inl e)
    then have "t' = t" using st_begin(2) by (auto simp: upload_Begin_def Let_def split: sum.splits if_splits)
    then show ?thesis using st_begin by simp
  next
    case (Inr uuid)
    then obtain tail where nm: "name = Inr tail" using st_begin(2) by (auto simp: upload_Begin_def split: sum.splits)
    have u: "ut_uploads t' = ut_uploads t @ [(uuid, length (ut_heap t))]" "uuid = newUUID rnd" "length (ut_heap t') = Suc (length (ut_heap t))"
      using st_begin(1,2) Inr nm by (auto simp: upload_Begin_def Let_def update_fresh map_of_eq_None_iff split: if_splits)
    have "set (live t' hs) = insert (length (ut_heap t)) (set (live t hs))" by (auto simp: live_def u(1))
    moreover have "staged t' (insert (length (ut_heap t)) (set (live t hs)))"
      using staged_begin [of t _ rnd tail now t' uuid] st_begin Inr nm by (simp add: tracker_ok_def)
    moreover have "length (ut_heap t) \<notin> set (live t hs)" using st_begin(3) by (auto simp: tracker_ok_def staged_def)
    moreover have "distinct (map fst (ut_uploads t'))"
      using st_begin(1,3) u(1,2) by (auto simp: tracker_ok_def map_of_eq_None_iff)
    ultimately show ?thesis using st_begin(3) u(1,3) by (auto simp: tracker_ok_def live_def)
  qed
next
  case (st_enter uuid t p ws hs)
  then have "p \<in> set (live t hs)" by (auto simp: upload_lookup_def live_def dest!: map_of_SomeD split: option.splits intro: rev_image_eqI)
  then show ?case using st_enter by (auto simp: tracker_ok_def staged_def)
next
  case (st_write p n ws c t t' hs)
  note p = tracker_ok_writer [OF st_write(3,1)]
  note w = staged_write [OF tracker_ok_staged [OF st_write(3)] st_write(2) p]
  show ?case
    by (rule tracker_ok_frame [OF st_write(3) w]) (use p tracker_ok_writer [OF st_write(3)] in \<open>auto dest: remove1_mem\<close>)
next
  case (st_fail p n ws fault c t t' hs)
  note p = tracker_ok_writer [OF st_fail(4,1)]
  note w = staged_write [OF tracker_ok_staged [OF st_fail(4)] st_fail(3) p]
  show ?case
    by (rule tracker_ok_frame [OF st_fail(4) w]) (use tracker_ok_writer [OF st_fail(4)] in \<open>auto dest: remove1_mem\<close>)
next
  case (st_abort p n ws t hs)
  show ?case
    by (rule tracker_ok_frame [OF st_abort(2) tracker_ok_staged [OF st_abort(2)] refl refl])
      (use tracker_ok_writer [OF st_abort(2)] in \<open>auto dest: remove1_mem\<close>)
next
  case (st_leave p n ws t hs now)
  note p = tracker_ok_writer [OF st_leave(2,1)]
  show ?case
    by (rule tracker_ok_frame [OF st_leave(2) staged_grow [OF tracker_ok_staged [OF st_leave(2)] p]])
      (use tracker_ok_writer [OF st_leave(2)] in \<open>auto simp: upload_grow_def dest: remove1_mem\<close>)
next
  case (st_refused uuid want t t' e ws hs)
  then show ?case using tracker_ok_drop [OF st_refused(2), of uuid]
    by (auto simp: upload_Finalize_def Let_def split: sum.splits if_splits)
next
  case (st_finalize uuid want t t' p n dg ws hs)
  then have l: "upload_lookup uuid t = Inr p" and t': "t' = upload_forget uuid t"
    by (auto simp: upload_Finalize_def Let_def split: sum.splits if_splits)
  have "live t' ((p, x) # hs) = map snd (ut_uploads t') @ p # map fst hs" for x by (simp add: live_def)
  have w: "q < length (ut_heap t')" if "(q, m) \<in> set ws" for q m
    using tracker_ok_writer [OF st_finalize(2) that] t' by (simp add: upload_forget_def)
  then show ?case using live_forget [OF l, of hs] st_finalize(2) t'
    by (auto simp: tracker_ok_def staged_forget live_def)
next
  case (st_release p dg b hs t ws)
  have "live t hs = map snd (ut_uploads t) @ map fst hs" by (simp add: live_def)
  obtain xs ys where xs: "hs = xs @ (p, dg, b) # ys" "remove1 (p, dg, b) hs = xs @ ys"
    using st_release(1) by (metis remove1_append remove1.simps(2) split_list_first)
  have "set (live t hs) - {p} = set (live t (xs @ ys))" "p \<in> set (live t hs)" "distinct (live t (xs @ ys))"
    using st_release(2) xs(1) by (auto simp: tracker_ok_def live_def)
  then show ?case using staged_discard [of t "set (live t hs)" p] st_release(2) xs(2) by (auto simp: tracker_ok_def)
next
  case (st_cancel t ws hs uuid)
  then show ?case using tracker_ok_drop [OF st_cancel, of uuid] by (auto simp: upload_Cancel_def split: sum.split)
next
  case (st_sweep t ws hs timeout now)
  then have "distinct (map fst (ut_uploads t))" by (simp add: tracker_ok_def)
  then show ?case by (intro sweep_preserves [where I = "\<lambda>t. tracker_ok (t, ws, hs)"] st_sweep tracker_ok_drop)
qed

section \<open>The bytes of a session\<close>

definition synced :: "upload_state \<Rightarrow> bool" where
  "synced st \<longleftrightarrow>
     (case st of (t, ws, hs) \<Rightarrow>
        (\<forall>p \<in> set (live t hs). map_of (ut_dir t) (file_of t p) = Some (up_hashed (upload_at t p)))
      \<and> (\<forall>(p, dg, busy) \<in> set hs. \<not> busy \<longrightarrow> p \<notin> fst ` set ws \<and> dg = digest_of (up_hashed (upload_at t p))))"

lemma synced_write:
  assumes "tracker_ok (t, ws, hs)" and "p < length (ut_heap t)" and "upload_write p c fault t = (t', ok)" and "fault = Some 0 \<or> fault = None"
    and "q \<in> set (live t hs)" and "\<And>p. p \<in> set (live t hs) \<Longrightarrow> map_of (ut_dir t) (file_of t p) = Some (up_hashed (upload_at t p))"
  shows "map_of (ut_dir t') (file_of t' q) = Some (up_hashed (upload_at t' q))"
    and "q \<noteq> p \<Longrightarrow> up_hashed (upload_at t' q) = up_hashed (upload_at t q)"
proof -
  have st: "staged t (set (live t hs))" by (rule tracker_ok_staged [OF assms(1)])
  have op: "up_open (upload_at t p) \<Longrightarrow> p \<in> set (live t hs)" using st assms(2) by (auto simp: staged_def)
  have inj: "up_open (upload_at t p) \<Longrightarrow> q \<noteq> p \<Longrightarrow> file_of t q \<noteq> file_of t p"
    using st op assms(5) by (auto simp: staged_def inj_on_def)
  show "q \<noteq> p \<Longrightarrow> up_hashed (upload_at t' q) = up_hashed (upload_at t q)"
    using assms(3) by (auto simp: upload_write_def Let_def split: if_splits option.splits)
  show "map_of (ut_dir t') (file_of t' q) = Some (up_hashed (upload_at t' q))"
    using assms(2,3,4) assms(6) [OF assms(5)] inj assms(6) [OF op]
    by (cases "q = p") (auto simp: upload_write_def Let_def file_bytes_def update_conv' split: if_splits)
qed

text \<open>What is discarded is no longer held, the rest is as it was.\<close>

lemma synced_discard:
  assumes "tracker_ok (t, ws, hs)" and "synced (t, ws, hs)" and "p \<in> set (live t hs)" and "set (live t' hs') = set (live t hs) - {p}"
    and "ut_heap t' = ut_heap t" and "ut_dir t' = ut_dir t" and "set hs' \<subseteq> set hs" and "p \<notin> fst ` set hs'"
  shows "synced (upload_discard p t', ws, hs')"
proof -
  have inj: "q \<in> set (live t hs) \<Longrightarrow> q \<noteq> p \<Longrightarrow> file_of t q \<noteq> file_of t p" for q
    using tracker_ok_staged [OF assms(1)] assms(3) by (auto simp: staged_def inj_on_def)
  let ?t = "upload_discard p t'"
  have same: "file_of ?t q = file_of t q" "up_hashed (upload_at ?t q) = up_hashed (upload_at t q)" for q
    using assms(5) by (simp_all add: upload_discard_def nth_update)
  have dir: "map_of (ut_dir ?t) f = (if f = file_of t p then None else map_of (ut_dir t) f)" for f
    using assms(5,6) by (simp add: upload_discard_def delete_conv')
  show ?thesis
    unfolding synced_def prod.case same dir
  proof (intro conjI ballI)
    fix q assume "q \<in> set (live ?t hs')"
    then have "q \<in> set (live t hs)" "q \<noteq> p" using assms(4) by simp_all
    then show "(if file_of t q = file_of t p then None else map_of (ut_dir t) (file_of t q)) = Some (up_hashed (upload_at t q))"
      using inj assms(2) by (simp add: synced_def)
  next
    fix h assume "h \<in> set hs'"
    then have "h \<in> set hs" using assms(7) by auto
    then show "case h of (p, dg, busy) \<Rightarrow> \<not> busy \<longrightarrow> p \<notin> fst ` set ws \<and> dg = digest_of (up_hashed (upload_at t p))"
      using assms(2) by (auto simp: synced_def)
  qed
qed

lemma synced_drop:
  assumes "tracker_ok (t, ws, hs)" and "synced (t, ws, hs)" and "upload_lookup uuid t = Inr p"
  shows "synced (upload_discard p (upload_forget uuid t), ws, hs)"
proof -
  have d: "distinct (live t hs)" "distinct (map fst (ut_uploads t))" using assms(1) by (simp_all add: tracker_ok_def)
  note lf = live_forget [OF assms(3) d]
  have "p \<in> set (live t hs)" using lf(2) by (metis list.set_intros(1))
  moreover have "set (live (upload_forget uuid t) hs) = set (live t hs) - {p}" using lf(1,2) by auto
  moreover have "p \<notin> fst ` set hs" using lf(1) by (auto simp: live_def)
  ultimately show ?thesis by (intro synced_discard [OF assms(1,2)]) (simp_all add: upload_forget_def)
qed

lemma synced_writers: "synced (t, ws, hs) \<Longrightarrow> set ws' \<subseteq> set ws \<Longrightarrow> synced (t, ws', hs)"
  unfolding synced_def prod.case by (blast dest: image_mono [THEN subsetD])

lemma upload_step_synced: "upload_step False st st' \<Longrightarrow> tracker_ok st \<Longrightarrow> synced st \<Longrightarrow> synced st'"
proof (induction rule: upload_step.induct)
  case (st_begin t rnd name now t' r ws hs)
  show ?case
  proof (cases r)
    case (Inl e)
    then have "t' = t" using st_begin(2) by (auto simp: upload_Begin_def Let_def split: sum.splits if_splits)
    then show ?thesis using st_begin by simp
  next
    case (Inr uuid)
    then obtain tail where nm: "name = Inr tail" using st_begin(2) by (auto simp: upload_Begin_def split: sum.splits)
    let ?f = "ociUploadPrefix @ tail" let ?n = "length (ut_heap t)"
    have u: "ut_uploads t' = ut_uploads t @ [(uuid, ?n)]" "?f \<notin> fst ` set (ut_dir t)" "ut_dir t' = AList.update ?f [] (ut_dir t)"
      "\<exists>u. ut_heap t' = ut_heap t @ [u] \<and> up_file u = ?f \<and> up_hashed u = []"
      using st_begin(1,2) Inr nm by (auto simp: upload_Begin_def Let_def update_fresh map_of_eq_None_iff split: if_splits)
    have st: "staged t (set (live t hs))" using st_begin(3) by (simp add: tracker_ok_def)
    have old: "upload_at t' p = upload_at t p" if "p \<in> set (live t hs)" for p
      using st that u(4) by (auto simp: staged_def nth_append)
    have "has_prefix ?f ociUploadPrefix" by (simp add: has_prefix_def)
    then have "?f \<notin> file_of t ` set (live t hs)" using st u(2) by (auto simp: staged_def)
    then have new: "file_of t p \<noteq> ?f" if "p \<in> set (live t hs)" for p using that by (metis image_eqI)
    have "set (live t' hs) = insert ?n (set (live t hs))" by (auto simp: live_def u(1))
    moreover have "map_of (ut_dir t') (file_of t' ?n) = Some (up_hashed (upload_at t' ?n))" using u(3,4) by (auto simp: update_conv')
    moreover have "p \<in> fst ` set hs \<Longrightarrow> p \<in> set (live t hs)" for p by (simp add: live_def)
    ultimately show ?thesis using st_begin(4) old new unfolding synced_def by (fastforce simp: u(3) update_conv' image_iff)
  qed
next
  case (st_enter uuid t p ws hs)
  then have "p \<notin> fst ` set hs" using live_forget(1) [OF st_enter(1), of hs] by (simp add: tracker_ok_def live_def)
  then show ?case using st_enter(3) by (force simp: synced_def)
next
  case (st_write p n ws c t t' hs)
  note p = tracker_ok_writer [OF st_write(3,1)]
  have m: "q \<in> set (live t hs) \<Longrightarrow> map_of (ut_dir t) (file_of t q) = Some (up_hashed (upload_at t q))" for q
    using st_write(4) by (simp add: synced_def)
  note w = synced_write [OF st_write(3) p st_write(2) _ _ m]
  have l: "live t' hs = live t hs" using staged_write(2) [OF tracker_ok_staged [OF st_write(3)] st_write(2) p] by (simp add: live_def)
  show ?case
    unfolding synced_def prod.case
  proof (intro conjI ballI)
    fix q assume "q \<in> set (live t' hs)"
    then show "map_of (ut_dir t') (file_of t' q) = Some (up_hashed (upload_at t' q))" using w(1) l by simp
  next
    fix h assume h: "h \<in> set hs"
    obtain q dg b where hq: "h = (q, dg, b)" by (cases h)
    have "q \<in> set (live t hs)" using h hq by (force simp: live_def)
    moreover have "\<not> b \<Longrightarrow> q \<notin> fst ` set ws \<and> dg = digest_of (up_hashed (upload_at t q))" using st_write(4) h hq by (auto simp: synced_def)
    moreover have "p \<in> fst ` set ws" using st_write(1) by force
    moreover from calculation have "\<not> b \<Longrightarrow> q \<noteq> p" by blast
    ultimately show "case h of (p', dg, busy) \<Rightarrow> \<not> busy \<longrightarrow>
        p' \<notin> fst ` set ((p, n + length c) # remove1 (p, n) ws) \<and> dg = digest_of (up_hashed (upload_at t' p'))"
      using w(2) [of q] hq by (cases b) (auto dest: remove1_mem)
  qed
next
  case (st_fail p n ws fault c t t' hs)
  note p = tracker_ok_writer [OF st_fail(4,1)]
  have m: "q \<in> set (live t hs) \<Longrightarrow> map_of (ut_dir t) (file_of t q) = Some (up_hashed (upload_at t q))" for q
    using st_fail(5) by (simp add: synced_def)
  have f: "fault = Some 0 \<or> fault = None" using st_fail(2) by simp
  note w = synced_write [OF st_fail(4) p st_fail(3) f _ m]
  have h: "up_hashed (upload_at t' q) = up_hashed (upload_at t q)" for q
    using st_fail(3) by (auto simp: upload_write_def Let_def split: if_splits option.splits)
  have l: "live t' hs = live t hs" using staged_write(2) [OF tracker_ok_staged [OF st_fail(4)] st_fail(3) p] by (simp add: live_def)
  have "\<forall>q \<in> set (live t' hs). map_of (ut_dir t') (file_of t' q) = Some (up_hashed (upload_at t' q))"
    unfolding l using w(1) by blast
  moreover have "\<forall>(q, dg, busy) \<in> set hs. \<not> busy \<longrightarrow> q \<notin> fst ` set ws \<and> dg = digest_of (up_hashed (upload_at t' q))"
    using st_fail(5) unfolding synced_def prod.case h by blast
  ultimately have "synced (t', ws, hs)" unfolding synced_def prod.case by blast
  then show ?case by (rule synced_writers) (rule set_remove1_subset)
next
  case (st_abort p n ws t hs)
  show ?case by (rule synced_writers [OF st_abort(3) set_remove1_subset])
next
  case (st_leave p n ws t hs now)
  have "file_of (upload_grow p n now t) q = file_of t q" "up_hashed (upload_at (upload_grow p n now t) q) = up_hashed (upload_at t q)" for q
    by (simp_all add: upload_grow_def nth_update)
  moreover have "live (upload_grow p n now t) hs = live t hs" "ut_dir (upload_grow p n now t) = ut_dir t"
    by (simp_all add: upload_grow_def live_def)
  ultimately have "synced (upload_grow p n now t, ws, hs)" using st_leave(3) by (simp add: synced_def)
  then show ?case by (rule synced_writers) (rule set_remove1_subset)
next
  case (st_refused uuid want t t' e ws hs)
  then show ?case using synced_drop [OF st_refused(2,3), of uuid]
    by (auto simp: upload_Finalize_def Let_def split: sum.splits if_splits)
next
  case (st_finalize uuid want t t' p n dg ws hs)
  then have l: "upload_lookup uuid t = Inr p" and t': "t' = upload_forget uuid t" and dg: "dg = digest_of (up_hashed (upload_at t p))"
    by (auto simp: upload_Finalize_def Let_def split: sum.splits if_splits)
  have "set (live t' ((p, x) # hs)) = set (live t hs)" for x
    using live_forget(2) [OF l, of hs] st_finalize(2) t' by (auto simp: tracker_ok_def live_def)
  moreover have "ut_heap t' = ut_heap t" "ut_dir t' = ut_dir t" by (simp_all add: t' upload_forget_def)
  ultimately show ?case using st_finalize(3) dg by (auto simp: synced_def)
next
  case (st_release p dg b hs t ws)
  obtain xs ys where xs: "hs = xs @ (p, dg, b) # ys" "remove1 (p, dg, b) hs = xs @ ys"
    using st_release(1) by (metis remove1_append remove1.simps(2) split_list_first)
  have "set (live t (xs @ ys)) = set (live t hs) - {p}" "p \<in> set (live t hs)" "p \<notin> fst ` set (xs @ ys)"
    using st_release(2) xs(1) by (auto simp: tracker_ok_def live_def)
  then show ?case unfolding xs(2)
    by (intro synced_discard [OF st_release(2,3)]) (use xs(1) in auto)
next
  case (st_cancel t ws hs uuid)
  then show ?case using synced_drop [OF st_cancel, of uuid] by (auto simp: upload_Cancel_def split: sum.split)
next
  case (st_sweep t ws hs timeout now)
  then have "distinct (map fst (ut_uploads t))" by (simp add: tracker_ok_def)
  then have "tracker_ok (fst (sweepIdle timeout now t), ws, hs) \<and> synced (fst (sweepIdle timeout now t), ws, hs)"
    by (intro sweep_preserves [where I = "\<lambda>t. tracker_ok (t, ws, hs) \<and> synced (t, ws, hs)"])
      (use st_sweep in \<open>auto intro: tracker_ok_drop synced_drop\<close>)
  then show ?case by simp
qed


section \<open>From the boot on\<close>

lemma sweep_files_clean:
  assumes "sweep_files (\<lambda>_. False) (\<lambda>_. None) names dir = (dir', n, e)" and "fst ` set dir \<subseteq> set names \<union> - {f. is_staging f}"
    and "distinct (map fst dir)"
  shows "(\<forall>f \<in> fst ` set dir'. \<not> is_staging f) \<and> distinct (map fst dir')"
  using assms
proof (induction names arbitrary: dir n e)
  case (Cons f fs)
  show ?case
  proof (cases "is_staging f")
    case True
    then obtain m e' where "sweep_files (\<lambda>_. False) (\<lambda>_. None) fs (AList.delete f dir) = (dir', m, e')"
      using Cons.prems(1) by (auto split: prod.splits)
    from Cons.IH [OF this] show ?thesis
      using Cons.prems(2,3) by (auto simp: dom_map_of_conv_image_fst [symmetric] delete_conv' distinct_delete)
  next
    case False
    then show ?thesis using Cons.IH [of dir n e] Cons.prems by auto
  qed
qed auto

lemma boot_ok:
  assumes "SweepOrphans tmpDir DirListed (\<lambda>_. False) (\<lambda>_. None) dir = (dir', n, e)" and "tmpDir \<noteq> []" and "distinct (map fst dir)"
  shows "tracker_ok (NewUploadTracker dir', [], [])" and "synced (NewUploadTracker dir', [], [])"
proof -
  have "(\<forall>f \<in> fst ` set dir'. \<not> is_staging f) \<and> distinct (map fst dir')"
    using assms by (intro sweep_files_clean [of "sort (map fst dir)" dir dir' n e]) (auto simp: SweepOrphans_def)
  then show "tracker_ok (NewUploadTracker dir', [], [])" "synced (NewUploadTracker dir', [], [])"
    by (auto simp: tracker_ok_def staged_def live_def NewUploadTracker_def is_staging_def synced_def)
qed

lemma reachable_ok:
  assumes "(upload_step faulty)\<^sup>*\<^sup>* st st'" and "tracker_ok st"
  shows "tracker_ok st'"
  using assms by (induction rule: rtranclp_induct) (auto intro: upload_step_ok)

lemma reachable_synced:
  assumes "(upload_step False)\<^sup>*\<^sup>* st st'" and "tracker_ok st" and "synced st"
  shows "synced st'"
  using assms by (induction rule: rtranclp_induct) (auto intro: upload_step_synced reachable_ok)

text \<open>An append of the handler is a sequence of these steps.\<close>

lemma copy_steps:
  assumes "upload_copy p cs rok fault t = (t', n, ok)" and "fault = None \<or> faulty"
  shows "(upload_step faulty)\<^sup>*\<^sup>* (t, (p, m) # ws, hs) (t', if ok then (p, m + n) # ws else ws, hs)"
  using assms
proof (induction cs arbitrary: t fault m n)
  case Nil
  then show ?case using st_abort [of p m "(p, m) # ws" faulty t hs] by (auto intro: r_into_rtranclp)
next
  case (Cons c cs)
  let ?f = "case fault of Some (0, k) \<Rightarrow> Some k | _ \<Rightarrow> None"
  obtain t1 b where w: "upload_write p c ?f t = (t1, b)" by (metis prod.exhaust)
  show ?case
  proof (cases b)
    case False
    then have "t' = t1" "\<not> ok" using Cons.prems(1) w by auto
    moreover have "upload_step faulty (t, (p, m) # ws, hs) (t1, remove1 (p, m) ((p, m) # ws), hs)"
    proof (cases "?f = None")
      case True
      then have "upload_write p c (Some 0) t = (t1, False)" using w False by (auto simp: upload_write_def Let_def split: if_splits)
      then show ?thesis by (intro st_fail [where fault = "Some 0"]) simp_all
    next
      case f: False
      then have "faulty" using Cons.prems(2) by (cases fault) auto
      then show ?thesis using w False by (intro st_fail [where fault = ?f]) simp_all
    qed
    ultimately show ?thesis by (auto intro: r_into_rtranclp)
  next
    case True
    then have "?f = None" using w by (auto simp: upload_write_def Let_def split: if_splits option.splits)
    with w True have "upload_step faulty (t, (p, m) # ws, hs) (t1, (p, m + length c) # remove1 (p, m) ((p, m) # ws), hs)"
      by (intro st_write) simp_all
    then have 1: "upload_step faulty (t, (p, m) # ws, hs) (t1, (p, m + length c) # ws, hs)" by simp
    obtain n' where n': "upload_copy p cs rok (map_option (apfst (\<lambda>i. i - 1)) fault) t1 = (t', n', ok)" "n = length c + n'"
      using Cons.prems(1) w True by (auto split: prod.splits)
    have "map_option (apfst (\<lambda>i. i - 1)) fault = None \<or> faulty" using Cons.prems(2) by auto
    from Cons.IH [OF n'(1) this, of "m + length c"] 1 n'(2) show ?thesis
      by (auto simp: add.assoc intro: converse_rtranclp_into_rtranclp)
  qed
qed

lemma Append_steps:
  assumes "upload_Append io_err uuid r fault now t = (t', res)" and "fault = None \<or> faulty"
  shows "(upload_step faulty)\<^sup>*\<^sup>* (t, ws, hs) (t', ws, hs)"
proof (cases "upload_lookup uuid t")
  case (Inl e)
  then show ?thesis using assms(1) by (simp add: upload_Append_def)
next
  case (Inr p)
  obtain t1 n ok where c: "upload_copy p (rd_chunks r) (rd_end r = EOF) fault t = (t1, n, ok)" by (metis prod.exhaust)
  have "upload_step faulty (t, ws, hs) (t, (p, 0) # ws, hs)" by (rule st_enter [OF Inr])
  also have "(upload_step faulty)\<^sup>*\<^sup>* \<dots> (t1, if ok then (p, n) # ws else ws, hs)"
    using copy_steps [OF c assms(2), where m = 0 and ws = ws and hs = hs] by (cases ok) simp_all
  finally have s: "(upload_step faulty)\<^sup>*\<^sup>* (t, ws, hs) (t1, if ok then (p, n) # ws else ws, hs)" by simp
  show ?thesis
  proof (cases ok)
    case True
    have "upload_step faulty (t1, (p, n) # ws, hs) (upload_grow p n now t1, remove1 (p, n) ((p, n) # ws), hs)"
      by (rule st_leave) simp
    then show ?thesis using s True assms(1) Inr c by (auto simp: upload_Append_def intro: rtranclp.rtrancl_into_rtrancl)
  next
    case False
    then show ?thesis using s assms(1) Inr c by (simp add: upload_Append_def)
  qed
qed

section \<open>Properties\<close>

text \<open>
  What a finalized upload hands to the blob store has the digest the client asked for: as long as no
write to the staging file fails part-way and no append was under way when the session was finalized, the
bytes in the staged file hash to the digest \<open>Finalize\<close> returned, until the file is removed.
\<close>

theorem finalized_bytes:
  assumes "SweepOrphans tmpDir DirListed (\<lambda>_. False) (\<lambda>_. None) dir = (dir', n, e)" and "tmpDir \<noteq> []" and "distinct (map fst dir)"
    and "(upload_step False)\<^sup>*\<^sup>* (NewUploadTracker dir', [], []) (t, ws, hs)" and "(p, dg, False) \<in> set hs"
  shows "\<exists>b. map_of (ut_dir t) (file_of t p) = Some b \<and> digest_of b = dg"
proof -
  have "synced (t, ws, hs)" by (rule reachable_synced [OF assms(4) boot_ok [OF assms(1-3)]])
  moreover have "p \<in> set (live t hs)" using assms(5) by (force simp: live_def)
  ultimately show ?thesis using assms(5) by (auto simp: synced_def)
qed

definition sample_tracker :: upload_tracker where
  "sample_tracker =
     \<lparr>ut_uploads = [(newUUID ''0123456789abcdef'', 0)],
      ut_heap = [\<lparr>up_uuid = newUUID ''0123456789abcdef'', up_file = ociUploadPrefix @ ''1'', up_open = True, up_size = 0,
                  up_lastActive = 5, up_hashed = []\<rparr>],
      ut_dir = [(ociUploadPrefix @ ''1'', [])]\<rparr>"

lemma sample_begin: "upload_step faulty (NewUploadTracker [], [], []) (sample_tracker, [], [])"
  by (rule st_begin [where rnd = "''0123456789abcdef''" and name = "Inr ''1''" and now = 5])
    (simp_all add: upload_Begin_def NewUploadTracker_def sample_tracker_def Let_def)

lemma sample_begin_steps: "(upload_step faulty)\<^sup>*\<^sup>* (NewUploadTracker [], [], []) (sample_tracker, [], [])"
  by (rule r_into_rtranclp) (rule sample_begin)

lemma sample_lookup: "upload_lookup (newUUID ''0123456789abcdef'') sample_tracker = Inr 0"
  by (simp add: upload_lookup_def sample_tracker_def)

text \<open>The sample session after the bytes \<open>b\<close>.\<close>

definition sample_with :: "string \<Rightarrow> string \<Rightarrow> (string \<times> nat) list \<Rightarrow> upload_tracker" where
  "sample_with b h ups =
     sample_tracker\<lparr>ut_uploads := ups, ut_dir := [(ociUploadPrefix @ ''1'', b)],
       ut_heap := [(upload_at sample_tracker 0)\<lparr>up_hashed := h\<rparr>]\<rparr>"

lemma sample_tracker_with: "sample_tracker = sample_with [] [] (ut_uploads sample_tracker)"
  by (simp add: sample_with_def sample_tracker_def)

lemma sample_write:
  "(0, n) \<in> set ws \<Longrightarrow> upload_step faulty (sample_with b h ups, ws, hs) (sample_with (b @ c) (h @ c) ups, (0, n + length c) # remove1 (0, n) ws, hs)"
  by (rule st_write [of 0 n ws c]) (simp_all add: upload_write_def sample_with_def sample_tracker_def Let_def file_bytes_def)

lemma sample_finalize:
  "upload_step faulty (sample_with b h (ut_uploads sample_tracker), ws, hs) (sample_with b h [], ws, (0, digest_of h, 0 \<in> fst ` set ws) # hs)"
  by (rule st_finalize [where uuid = "newUUID ''0123456789abcdef''" and want = "[]" and n = 0])
    (simp add: upload_Finalize_def upload_lookup_def sample_with_def sample_tracker_def Let_def upload_forget_def)

lemma sample_enter:
  "upload_step faulty (sample_with b h (ut_uploads sample_tracker), ws, hs) (sample_with b h (ut_uploads sample_tracker), (0, 0) # ws, hs)"
  by (rule st_enter [where uuid = "newUUID ''0123456789abcdef''"]) (simp add: upload_lookup_def sample_with_def sample_tracker_def)

lemma sample_steps:
  "(upload_step False)\<^sup>*\<^sup>* (NewUploadTracker [], [], []) (sample_with ''ab'' ''ab'' [], [], [(0, digest_of ''ab'', False)])"
proof -
  note rtranclp.rtrancl_into_rtrancl [trans]
  let ?u = "ut_uploads sample_tracker"
  have "(upload_step False)\<^sup>*\<^sup>* (NewUploadTracker [], [], []) (sample_with [] [] ?u, [], [])"
    using sample_begin_steps sample_tracker_with by simp
  also have "upload_step False \<dots> (sample_with [] [] ?u, [(0, 0)], [])" by (rule sample_enter)
  also have "upload_step False \<dots> (sample_with ''ab'' ''ab'' ?u, [(0, 2)], [])"
    using sample_write [of 0 "[(0, 0)]" False "[]" "[]" ?u "[]" "''ab''"] by (simp add: numeral_2_eq_2)
  also have "upload_step False \<dots> (sample_with ''ab'' ''ab'' ?u, [], [])"
    using st_abort [of 0 2 "[(0, 2)]" False] by simp
  also have "upload_step False \<dots> (sample_with ''ab'' ''ab'' [], [], [(0, digest_of ''ab'', False)])"
    using sample_finalize [of False "''ab''" "''ab''" "[]" "[]"] by simp
  finally show ?thesis by simp
qed

theorem finalized_bytes_witness: "\<exists>b. map_of (ut_dir (sample_with ''ab'' ''ab'' [])) (ociUploadPrefix @ ''1'') = Some b \<and> digest_of b = digest_of ''ab''"
  using finalized_bytes [where tmpDir = "''tmp''" and dir = "[]" and n = 0 and e = None, OF _ _ _ sample_steps, of 0 "digest_of ''ab''"]
  by (simp add: SweepOrphans_def sample_with_def sample_tracker_def)

text \<open>
  Without the second condition the bytes need not have the digest. A request that appends keeps its
pointer to the session after another has finalized it, and its next write still reaches the file: an upload can be
finalized under the digest of \<open>a\<close> while its staged file comes to hold \<open>ab\<close>, and the
handler stores that file under the digest without hashing it again.
\<close>

theorem digest_race:
  "\<exists>t ws. (upload_step False)\<^sup>*\<^sup>* (NewUploadTracker [], [], []) (t, ws, [(0, digest_of ''a'', True)])
     \<and> map_of (ut_dir t) (file_of t 0) = Some ''ab''"
proof -
  note rtranclp.rtrancl_into_rtrancl [trans]
  let ?u = "ut_uploads sample_tracker"
  have "(upload_step False)\<^sup>*\<^sup>* (NewUploadTracker [], [], []) (sample_with [] [] ?u, [], [])"
    using sample_begin_steps sample_tracker_with by simp
  also have "upload_step False \<dots> (sample_with [] [] ?u, [(0, 0)], [])" by (rule sample_enter)
  also have "upload_step False \<dots> (sample_with ''a'' ''a'' ?u, [(0, 1)], [])"
    using sample_write [of 0 "[(0, 0)]" False "[]" "[]" ?u "[]" "''a''"] by simp
  also have "upload_step False \<dots> (sample_with ''a'' ''a'' [], [(0, 1)], [(0, digest_of ''a'', True)])"
    using sample_finalize [of False "''a''" "''a''" "[(0, 1)]" "[]"] by simp
  also have "upload_step False \<dots> (sample_with ''ab'' ''ab'' [], [(0, 2)], [(0, digest_of ''a'', True)])"
    using sample_write [of 1 "[(0, 1)]" False "''a''" "''a''" "[]" "[(0, digest_of ''a'', True)]" "''b''"] by (simp add: numeral_2_eq_2)
  finally have "(upload_step False)\<^sup>*\<^sup>* (NewUploadTracker [], [], []) (sample_with ''ab'' ''ab'' [], [(0, 2)], [(0, digest_of ''a'', True)])" by simp
  moreover have "map_of (ut_dir (sample_with ''ab'' ''ab'' [])) (file_of (sample_with ''ab'' ''ab'' []) 0) = Some ''ab''"
    by (simp add: sample_with_def sample_tracker_def)
  ultimately show ?thesis by blast
qed

text \<open>
  The same happens without a race when a write fails part-way. The bytes that reached the file stay there while the
hash has not seen them, the session stays open, and a later request finalizes it under the digest of the bytes the
hash has seen: here the file holds \<open>ab\<close> and the digest is that of \<open>a\<close>. This is why the invariants of the
registry ask for environments in which a write to the staging file fails at its start or not at all.
\<close>

theorem partial_write_digest:
  "\<exists>t. (upload_step True)\<^sup>*\<^sup>* (NewUploadTracker [], [], []) (t, [], [(0, digest_of ''a'', False)])
     \<and> map_of (ut_dir t) (file_of t 0) = Some ''ab''"
proof -
  note rtranclp.rtrancl_into_rtrancl [trans]
  let ?u = "ut_uploads sample_tracker"
  have w: "upload_write 0 ''bc'' (Some 1) (sample_with ''a'' ''a'' ?u) = (sample_with ''ab'' ''a'' ?u, False)"
    by (simp add: upload_write_def sample_with_def sample_tracker_def Let_def file_bytes_def)
  have "(upload_step True)\<^sup>*\<^sup>* (NewUploadTracker [], [], []) (sample_with [] [] ?u, [], [])"
    using sample_begin_steps sample_tracker_with by simp
  also have "upload_step True \<dots> (sample_with [] [] ?u, [(0, 0)], [])" by (rule sample_enter)
  also have "upload_step True \<dots> (sample_with ''a'' ''a'' ?u, [(0, 1)], [])"
    using sample_write [of 0 "[(0, 0)]" True "[]" "[]" ?u "[]" "''a''"] by simp
  also have "upload_step True \<dots> (sample_with ''ab'' ''a'' ?u, [], [])"
    using st_fail [of 0 1 "[(0, 1)]" "Some 1" True, OF _ _ w] by simp
  also have "upload_step True \<dots> (sample_with ''ab'' ''a'' [], [], [(0, digest_of ''a'', False)])"
    using sample_finalize [of True "''ab''" "''a''" "[]" "[]"] by simp
  finally have "(upload_step True)\<^sup>*\<^sup>* (NewUploadTracker [], [], []) (sample_with ''ab'' ''a'' [], [], [(0, digest_of ''a'', False)])" by simp
  moreover have "map_of (ut_dir (sample_with ''ab'' ''a'' [])) (file_of (sample_with ''ab'' ''a'' []) 0) = Some ''ab''"
    by (simp add: sample_with_def sample_tracker_def)
  ultimately show ?thesis by blast
qed

end
