(* ===== verification/Upload_Races.thy ===== *)
theory Upload_Races
  imports Upload_Laws "HOL-Library.Multiset"
begin

text \<open>
  The upload tracker step by step. The lock of the tracker covers only the map of sessions: \<open>Begin\<close>
  creates its file before it takes the lock, and \<open>Finalize\<close>, \<open>Cancel\<close> and the sweep close and remove
  files after they have released it, ignoring an \<open>os.Remove\<close> that is refused. Here each of these file
  operations is a step of its own, so that other requests come between any two of them; the operations of
  Container_Upload are sequences of these steps (\<open>Begin_steps\<close>, \<open>Cancel_steps\<close>, \<open>Finalize_steps\<close>,
  \<open>sweep_steps\<close>, \<open>discard_steps\<close>).
\<close>

section \<open>The parts of the operations\<close>

definition temp_created :: "string \<Rightarrow> upload_tracker \<Rightarrow> upload_tracker" where
  "temp_created f t = t\<lparr>ut_dir := AList.update f [] (ut_dir t)\<rparr>"

definition upload_register :: "string \<Rightarrow> string \<Rightarrow> int \<Rightarrow> upload_tracker \<Rightarrow> upload_tracker" where
  "upload_register uuid f now t =
     t\<lparr>ut_uploads := AList.update uuid (length (ut_heap t)) (ut_uploads t),
       ut_heap := ut_heap t @ [\<lparr>up_uuid = uuid, up_file = f, up_open = True, up_size = 0,
                                up_lastActive = now, up_hashed = []\<rparr>]\<rparr>"

definition file_closed :: "nat \<Rightarrow> upload_tracker \<Rightarrow> upload_tracker" where
  "file_closed p t = t\<lparr>ut_heap := (ut_heap t)[p := (upload_at t p)\<lparr>up_open := False\<rparr>]\<rparr>"

definition file_removed :: "nat \<Rightarrow> upload_tracker \<Rightarrow> upload_tracker" where
  "file_removed p t = t\<lparr>ut_dir := AList.delete (file_of t p) (ut_dir t)\<rparr>"

text \<open>What the sweep does under the lock, and the uploads it closes and removes afterwards.\<close>

definition take_stale :: "int \<Rightarrow> int \<Rightarrow> upload_tracker \<Rightarrow> upload_tracker \<times> nat list" where
  "take_stale timeout now t =
     (let stale = (\<lambda>(uuid, p). up_lastActive (upload_at t p) < now - timeout) in
      (t\<lparr>ut_uploads := filter (\<lambda>x. \<not> stale x) (ut_uploads t)\<rparr>, map snd (filter stale (ut_uploads t))))"

section \<open>Interleavings\<close>

text \<open>
  Beside the tracker a state has the requests in it: \<open>rs_fresh\<close> are the identifiers and files of the
  \<open>Begin\<close>s that have not registered them, \<open>rs_writers\<close> the appends with the bytes they have written,
  \<open>rs_taken\<close> the uploads taken out of the map (finalized, cancelled or swept) whose file is still to be
  removed, \<open>rs_refused\<close> the files whose removal the operating system refused.
\<close>

record race_state =
  rs_tracker :: upload_tracker
  rs_fresh :: "(string \<times> string) list"
  rs_writers :: "(nat \<times> nat) list"
  rs_taken :: "nat list"
  rs_refused :: "string list"

definition at_boot :: "(string \<times> string) list \<Rightarrow> race_state" where
  "at_boot dir = \<lparr>rs_tracker = NewUploadTracker dir, rs_fresh = [], rs_writers = [], rs_taken = [], rs_refused = []\<rparr>"

inductive race_step :: "race_state \<Rightarrow> race_state \<Rightarrow> bool" where
  rc_create: "f = ociUploadPrefix @ tail \<Longrightarrow> map_of (ut_dir (rs_tracker s)) f = None \<Longrightarrow>
     race_step s (s\<lparr>rs_tracker := temp_created f (rs_tracker s), rs_fresh := (newUUID rnd, f) # rs_fresh s\<rparr>)"
| rc_register: "(uuid, f) \<in> set (rs_fresh s) \<Longrightarrow> map_of (ut_uploads (rs_tracker s)) uuid = None \<Longrightarrow>
     race_step s (s\<lparr>rs_tracker := upload_register uuid f now (rs_tracker s), rs_fresh := remove1 (uuid, f) (rs_fresh s)\<rparr>)"
| rc_enter: "upload_lookup uuid (rs_tracker s) = Inr p \<Longrightarrow> race_step s (s\<lparr>rs_writers := (p, 0) # rs_writers s\<rparr>)"
| rc_write: "(p, n) \<in> set (rs_writers s) \<Longrightarrow> upload_write p c fault (rs_tracker s) = (t', ok) \<Longrightarrow>
     race_step s (s\<lparr>rs_tracker := t', rs_writers := (if ok then [(p, n + length c)] else []) @ remove1 (p, n) (rs_writers s)\<rparr>)"
| rc_abort: "race_step s (s\<lparr>rs_writers := remove1 (p, n) (rs_writers s)\<rparr>)"
| rc_leave: "(p, n) \<in> set (rs_writers s) \<Longrightarrow>
     race_step s (s\<lparr>rs_tracker := upload_grow p n now (rs_tracker s), rs_writers := remove1 (p, n) (rs_writers s)\<rparr>)"
| rc_take: "upload_lookup uuid (rs_tracker s) = Inr p \<Longrightarrow>
     race_step s (s\<lparr>rs_tracker := upload_forget uuid (rs_tracker s), rs_taken := p # rs_taken s\<rparr>)"
| rc_sweep: "take_stale timeout now (rs_tracker s) = (t', ps) \<Longrightarrow>
     race_step s (s\<lparr>rs_tracker := t', rs_taken := ps @ rs_taken s\<rparr>)"
| rc_close: "p \<in> set (rs_taken s) \<Longrightarrow> race_step s (s\<lparr>rs_tracker := file_closed p (rs_tracker s)\<rparr>)"
| rc_remove: "p \<in> set (rs_taken s) \<Longrightarrow> \<not> up_open (upload_at (rs_tracker s) p) \<Longrightarrow>
     race_step s (s\<lparr>rs_tracker := file_removed p (rs_tracker s), rs_taken := remove1 p (rs_taken s)\<rparr>)"
| rc_refused: "p \<in> set (rs_taken s) \<Longrightarrow> \<not> up_open (upload_at (rs_tracker s) p) \<Longrightarrow>
     race_step s (s\<lparr>rs_taken := remove1 p (rs_taken s), rs_refused := file_of (rs_tracker s) p # rs_refused s\<rparr>)"

text \<open>The uploads somebody holds, the files somebody answers for, and the files that are there.\<close>

definition held :: "race_state \<Rightarrow> nat list" where
  "held s = map snd (ut_uploads (rs_tracker s)) @ rs_taken s"

definition staging_names :: "race_state \<Rightarrow> string list" where
  "staging_names s = map (file_of (rs_tracker s)) (held s) @ map snd (rs_fresh s) @ rs_refused s"

definition staging_files :: "upload_tracker \<Rightarrow> string list" where
  "staging_files t = filter (\<lambda>f. has_prefix f ociUploadPrefix) (map fst (ut_dir t))"

definition race_ok :: "race_state \<Rightarrow> bool" where
  "race_ok s \<longleftrightarrow>
     (let t = rs_tracker s in
        mset (staging_files t) = mset (staging_names s)
      \<and> distinct (map fst (ut_dir t)) \<and> distinct (map fst (ut_uploads t))
      \<and> (\<forall>p \<in> set (held s). p < length (ut_heap t))
      \<and> (\<forall>p < length (ut_heap t). up_open (upload_at t p) \<longrightarrow> p \<in> set (held s))
      \<and> (\<forall>(p, n) \<in> set (rs_writers s). p < length (ut_heap t)))"

lemma race_okI:
  assumes "mset (staging_files (rs_tracker s)) = mset (staging_names s)"
    and "distinct (map fst (ut_dir (rs_tracker s)))" and "distinct (map fst (ut_uploads (rs_tracker s)))"
    and "\<And>p. p \<in> set (held s) \<Longrightarrow> p < length (ut_heap (rs_tracker s))"
    and "\<And>p. p < length (ut_heap (rs_tracker s)) \<Longrightarrow> up_open (upload_at (rs_tracker s) p) \<Longrightarrow> p \<in> set (held s)"
    and "\<And>p n. (p, n) \<in> set (rs_writers s) \<Longrightarrow> p < length (ut_heap (rs_tracker s))"
  shows "race_ok s"
  using assms unfolding race_ok_def Let_def by blast

lemma race_okD:
  assumes "race_ok s"
  shows "mset (staging_files (rs_tracker s)) = mset (staging_names s)"
    and "distinct (map fst (ut_dir (rs_tracker s)))" and "distinct (map fst (ut_uploads (rs_tracker s)))"
    and "\<And>p. p \<in> set (held s) \<Longrightarrow> p < length (ut_heap (rs_tracker s))"
    and "\<And>p. p < length (ut_heap (rs_tracker s)) \<Longrightarrow> up_open (upload_at (rs_tracker s) p) \<Longrightarrow> p \<in> set (held s)"
    and "\<And>p n. (p, n) \<in> set (rs_writers s) \<Longrightarrow> p < length (ut_heap (rs_tracker s))"
  using assms unfolding race_ok_def Let_def by blast+

text \<open>Every file that somebody answers for is there.\<close>

lemma held_file:
  assumes "race_ok s" and "p \<in> set (held s)"
  shows "file_of (rs_tracker s) p \<in> set (map fst (ut_dir (rs_tracker s)))"
    and "has_prefix (file_of (rs_tracker s) p) ociUploadPrefix"
proof -
  have "file_of (rs_tracker s) p \<in> set (staging_names s)" using assms(2) by (simp add: staging_names_def)
  then have "file_of (rs_tracker s) p \<in> set (staging_files (rs_tracker s))"
    using race_okD(1) [OF assms(1)] by (metis set_mset_mset)
  then show "file_of (rs_tracker s) p \<in> set (map fst (ut_dir (rs_tracker s)))"
    "has_prefix (file_of (rs_tracker s) p) ociUploadPrefix" by (simp_all add: staging_files_def)
qed

section \<open>The steps keep it\<close>

lemma mset_remove1_mem: "x \<in> set xs \<Longrightarrow> mset xs = add_mset x (mset (remove1 x xs))"
  by simp

lemma mset_delete:
  "distinct (map fst al) \<Longrightarrow> map_of al k = Some v \<Longrightarrow> mset al = add_mset (k, v) (mset (AList.delete k al))"
proof (induction al)
  case (Cons x xs)
  show ?case
  proof (cases "fst x = k")
    case True
    then have "k \<notin> fst ` set xs" using Cons.prems(1) by simp
    then have "AList.delete k xs = xs" by (simp add: delete_idem)
    then show ?thesis using True Cons.prems(2) by (cases x) simp
  next
    case False
    then show ?thesis using Cons by (cases x) simp
  qed
qed simp

lemma write_frame:
  assumes "upload_write p c fault t = (t', ok)" and "up_open (upload_at t p) \<Longrightarrow> file_of t p \<in> set (map fst (ut_dir t))"
  shows "ut_uploads t' = ut_uploads t" "length (ut_heap t') = length (ut_heap t)" "map fst (ut_dir t') = map fst (ut_dir t)"
    "file_of t' q = file_of t q" "up_open (upload_at t' q) = up_open (upload_at t q)"
proof -
  have d: "map fst (AList.update (file_of t p) b (ut_dir t)) = map fst (ut_dir t)" if "up_open (upload_at t p)" for b
    using assms(2) [OF that] by (simp only: update_keys if_True)
  show "ut_uploads t' = ut_uploads t" "length (ut_heap t') = length (ut_heap t)" "map fst (ut_dir t') = map fst (ut_dir t)"
    "file_of t' q = file_of t q" "up_open (upload_at t' q) = up_open (upload_at t q)"
    using assms(1) d by (auto simp: upload_write_def Let_def nth_update split: if_splits option.splits)
qed

lemma race_ok_frame:
  assumes "race_ok s" and "ut_uploads t' = ut_uploads (rs_tracker s)" and "length (ut_heap t') = length (ut_heap (rs_tracker s))"
    and "map fst (ut_dir t') = map fst (ut_dir (rs_tracker s))"
    and "\<And>q. file_of t' q = file_of (rs_tracker s) q"
    and "\<And>q. up_open (upload_at t' q) \<Longrightarrow> up_open (upload_at (rs_tracker s) q)"
    and "\<And>q n. (q, n) \<in> set ws' \<Longrightarrow> q < length (ut_heap (rs_tracker s))"
  shows "race_ok (s\<lparr>rs_tracker := t', rs_writers := ws'\<rparr>)"
proof -
  let ?s = "s\<lparr>rs_tracker := t', rs_writers := ws'\<rparr>"
  have h: "held ?s = held s" using assms(2) by (simp add: held_def)
  have n: "staging_names ?s = staging_names s" unfolding staging_names_def h by (simp add: assms(5))
  have f: "staging_files t' = staging_files (rs_tracker s)" by (simp add: staging_files_def assms(4))
  note d = race_okD [OF assms(1)]
  show ?thesis
    by (rule race_okI) (use d assms(6,7) in \<open>auto simp: n h f assms(2,3,4)\<close>)
qed

lemma race_ok_regroup:
  assumes "race_ok s" and "mset (staging_names s') = mset (staging_names s)" and "ut_dir (rs_tracker s') = ut_dir (rs_tracker s)"
    and "ut_heap (rs_tracker s') = ut_heap (rs_tracker s)" and "rs_writers s' = rs_writers s"
    and "distinct (map fst (ut_uploads (rs_tracker s')))" and "set (held s') \<subseteq> set (held s)"
    and "\<And>p. p \<in> set (held s) \<Longrightarrow> up_open (upload_at (rs_tracker s) p) \<Longrightarrow> p \<in> set (held s')"
  shows "race_ok s'"
proof -
  note d = race_okD [OF assms(1)]
  have "staging_files (rs_tracker s') = staging_files (rs_tracker s)" by (simp add: staging_files_def assms(3))
  then show ?thesis
    by (intro race_okI) (use d assms(7,8) in \<open>auto simp: assms(2-6)\<close>)
qed

lemma race_step_ok: "race_step s s' \<Longrightarrow> race_ok s \<Longrightarrow> race_ok s'"
proof (induction rule: race_step.induct)
  case (rc_create f tail s rnd)
  let ?t = "rs_tracker s" let ?s = "s\<lparr>rs_tracker := temp_created f ?t, rs_fresh := (newUUID rnd, f) # rs_fresh s\<rparr>"
  note d = race_okD [OF rc_create(3)]
  have new: "f \<notin> set (map fst (ut_dir ?t))" using rc_create(2) by (auto simp: map_of_eq_None_iff)
  have pre: "has_prefix f ociUploadPrefix" by (simp add: rc_create(1) has_prefix_def)
  have k: "map fst (ut_dir (temp_created f ?t)) = map fst (ut_dir ?t) @ [f]" using new by (simp add: temp_created_def update_keys)
  have h: "held ?s = held s" "ut_uploads (temp_created f ?t) = ut_uploads ?t" "ut_heap (temp_created f ?t) = ut_heap ?t"
    by (simp_all add: held_def temp_created_def)
  have "mset (staging_files (temp_created f ?t)) = mset (staging_names ?s)"
    using d(1) unfolding staging_files_def k staging_names_def h by (simp add: pre h)
  then show ?case
    by (intro race_okI) (use d new in \<open>auto simp: h k\<close>)
next
  case (rc_register uuid f s now)
  let ?t = "rs_tracker s" let ?t' = "upload_register uuid f now ?t"
  let ?s = "s\<lparr>rs_tracker := ?t', rs_fresh := remove1 (uuid, f) (rs_fresh s)\<rparr>" let ?n = "length (ut_heap ?t)"
  note d = race_okD [OF rc_register(3)]
  have u: "ut_uploads ?t' = ut_uploads ?t @ [(uuid, ?n)]" "ut_dir ?t' = ut_dir ?t" "length (ut_heap ?t') = Suc ?n"
    using rc_register(2) by (simp_all add: upload_register_def update_fresh map_of_eq_None_iff)
  have h: "mset (held ?s) = add_mset ?n (mset (held s))" by (simp add: held_def u)
  have at: "upload_at ?t' p = (if p = ?n then \<lparr>up_uuid = uuid, up_file = f, up_open = True, up_size = 0, up_lastActive = now, up_hashed = []\<rparr> else upload_at ?t p)"
    if "p \<le> ?n" for p using that by (simp add: upload_register_def nth_append)
  have "map (file_of ?t') (held s) = map (file_of ?t) (held s)" using d(4) at by fastforce
  then have "mset (map (file_of ?t') (held s)) = mset (map (file_of ?t) (held s))" by (rule arg_cong)
  moreover have "mset (map snd (rs_fresh s)) = add_mset f (mset (map snd (remove1 (uuid, f) (rs_fresh s))))"
    using arg_cong [OF mset_remove1_mem [OF rc_register(1)], of "image_mset snd"] by simp
  ultimately have "mset (staging_names ?s) = mset (staging_names s)"
    using h at [of ?n] by (simp add: staging_names_def del: mset_remove1)
  moreover have "set (held ?s) = insert ?n (set (held s))" using h by (metis set_mset_add_mset_insert set_mset_mset)
  moreover have "staging_files ?t' = staging_files ?t" by (simp add: staging_files_def u)
  moreover have "uuid \<notin> fst ` set (ut_uploads ?t)" using rc_register(2) by (simp add: map_of_eq_None_iff)
  ultimately show ?case
    by (intro race_okI) (use d u at in \<open>auto simp: less_Suc_eq less_imp_le dest: d(4)\<close>)
next
  case (rc_enter uuid s p)
  have "p \<in> set (held s)"
    using rc_enter(1) by (auto simp: upload_lookup_def held_def dest!: map_of_SomeD split: option.splits intro: rev_image_eqI)
  then show ?case
    using race_ok_frame [OF rc_enter(2) refl refl refl refl, of "(p, 0) # rs_writers s"] race_okD(4,6) [OF rc_enter(2)] by auto
next
  case (rc_write p n s c fault t' ok)
  note d = race_okD [OF rc_write(3)]
  have "file_of (rs_tracker s) p \<in> set (map fst (ut_dir (rs_tracker s)))" if "up_open (upload_at (rs_tracker s) p)"
    by (rule held_file(1) [OF rc_write(3) d(5) [OF d(6) [OF rc_write(1)] that]])
  note w = write_frame [OF rc_write(2) this]
  show ?case
    by (rule race_ok_frame [OF rc_write(3) w(1-4)]) (use d(6) rc_write(1) w(5) in \<open>auto dest: remove1_mem split: if_splits\<close>)
next
  case (rc_abort s p n)
  show ?case
    using race_ok_frame [OF rc_abort refl refl refl refl, of "remove1 (p, n) (rs_writers s)"] race_okD(6) [OF rc_abort]
    by (auto dest: remove1_mem)
next
  case (rc_leave p n s now)
  show ?case
    by (rule race_ok_frame [OF rc_leave(2)])
      (use race_okD(6) [OF rc_leave(2)] in \<open>auto simp: upload_grow_def nth_update dest: remove1_mem split: if_splits\<close>)
next
  case (rc_take uuid s p)
  let ?s = "s\<lparr>rs_tracker := upload_forget uuid (rs_tracker s), rs_taken := p # rs_taken s\<rparr>"
  note d = race_okD [OF rc_take(2)]
  have "map_of (ut_uploads (rs_tracker s)) uuid = Some p" using rc_take(1) by (simp add: upload_lookup_def split: option.splits)
  from arg_cong [OF mset_delete [OF d(3) this], of "image_mset snd"] have h: "mset (held ?s) = mset (held s)"
    by (simp add: held_def upload_forget_def)
  have "mset (staging_names ?s) = mset (staging_names s)"
    using arg_cong [OF h, of "image_mset (file_of (rs_tracker s))"] by (simp add: staging_names_def upload_forget_def)
  then show ?case
    using h by (intro race_ok_regroup [OF rc_take(2)]) (auto simp: upload_forget_def distinct_delete d(3) dest: mset_eq_setD)
next
  case (rc_sweep timeout now s t' ps)
  let ?s = "s\<lparr>rs_tracker := t', rs_taken := ps @ rs_taken s\<rparr>"
  let ?P = "\<lambda>(uuid, p). up_lastActive (upload_at (rs_tracker s) p) < now - timeout"
  note d = race_okD [OF rc_sweep(2)]
  have t: "t' = (rs_tracker s)\<lparr>ut_uploads := filter (\<lambda>x. \<not> ?P x) (ut_uploads (rs_tracker s))\<rparr>"
    "ps = map snd (filter ?P (ut_uploads (rs_tracker s)))"
    using rc_sweep(1) by (simp_all add: take_stale_def Let_def)
  have "mset (map snd (filter (\<lambda>x. \<not> ?P x) (ut_uploads (rs_tracker s)))) + mset ps = mset (map snd (ut_uploads (rs_tracker s)))"
    unfolding t(2) by (simp flip: image_mset_union)
  then have h: "mset (held ?s) = mset (held s)" by (simp add: held_def t(1) ac_simps)
  have "mset (staging_names ?s) = mset (staging_names s)"
    using arg_cong [OF h, of "image_mset (file_of (rs_tracker s))"] by (simp add: staging_names_def t(1))
  then show ?case
    using h by (intro race_ok_regroup [OF rc_sweep(2)]) (auto simp: t(1) distinct_map_filter d(3) dest: mset_eq_setD)
next
  case (rc_close p s)
  have "race_ok (s\<lparr>rs_tracker := file_closed p (rs_tracker s), rs_writers := rs_writers s\<rparr>)"
    by (rule race_ok_frame [OF rc_close(2)])
      (use race_okD(6) [OF rc_close(2)] in \<open>auto simp: file_closed_def nth_update split: if_splits\<close>)
  then show ?case by simp
next
  case (rc_remove p s)
  let ?t = "rs_tracker s" let ?s = "s\<lparr>rs_tracker := file_removed p ?t, rs_taken := remove1 p (rs_taken s)\<rparr>" let ?f = "file_of ?t p"
  note d = race_okD [OF rc_remove(3)]
  have p: "p \<in> set (held s)" using rc_remove(1) by (simp add: held_def)
  have k: "map fst (ut_dir (file_removed p ?t)) = remove1 ?f (map fst (ut_dir ?t))"
    using d(2) by (simp add: file_removed_def delete_keys distinct_remove1_removeAll)
  note t = mset_remove1_mem [OF rc_remove(1)]
  have u: "ut_uploads (file_removed p ?t) = ut_uploads ?t" "ut_heap (file_removed p ?t) = ut_heap ?t"
    by (simp_all add: file_removed_def)
  have n: "mset (staging_names s) = add_mset ?f (mset (staging_names ?s))"
    using arg_cong [OF t, of "image_mset (file_of ?t)"] by (simp add: staging_names_def held_def file_removed_def)
  have "mset (staging_files (file_removed p ?t)) = mset (staging_files ?t) - {#?f#}"
    unfolding staging_files_def k using held_file(2) [OF rc_remove(3) p] by (simp add: filter_remove1)
  then have "mset (staging_files (file_removed p ?t)) = mset (staging_names ?s)" using n d(1) by simp
  moreover have "q \<in> set (held ?s)" if "q \<in> set (held s)" "q \<noteq> p" for q
    using that by (auto simp: held_def file_removed_def)
  moreover have "set (held ?s) \<subseteq> set (held s)" by (auto simp: held_def file_removed_def dest: notin_set_remove1)
  ultimately show ?case
    by (intro race_okI) (use d rc_remove(2) in \<open>auto simp: k u simp del: set_remove1_eq\<close>)
next
  case (rc_refused p s)
  let ?t = "rs_tracker s" let ?s = "s\<lparr>rs_taken := remove1 p (rs_taken s), rs_refused := file_of ?t p # rs_refused s\<rparr>"
  note t = mset_remove1_mem [OF rc_refused(1)]
  have "mset (staging_names ?s) = mset (staging_names s)"
    using arg_cong [OF t, of "image_mset (file_of ?t)"] by (simp add: staging_names_def held_def)
  moreover have "q \<in> set (held ?s)" if "q \<in> set (held s)" "up_open (upload_at ?t q)" for q
  proof -
    have "q \<noteq> p" using that(2) rc_refused(2) by blast
    then show ?thesis using that(1) by (simp add: held_def)
  qed
  ultimately show ?case
    by (intro race_ok_regroup [OF rc_refused(3)])
      (use race_okD(3) [OF rc_refused(3)] in \<open>auto simp: held_def dest: notin_set_remove1\<close>)
qed

lemma race_reachable_ok: "race_step\<^sup>*\<^sup>* s s' \<Longrightarrow> race_ok s \<Longrightarrow> race_ok s'"
  by (induction rule: rtranclp_induct) (auto intro: race_step_ok)

lemma race_boot_ok:
  assumes "SweepOrphans tmpDir DirListed (\<lambda>_. False) (\<lambda>_. None) dir = (dir', n, e)" and "tmpDir \<noteq> []" and "distinct (map fst dir)"
  shows "race_ok (at_boot dir')"
proof -
  have "(\<forall>f \<in> fst ` set dir'. \<not> is_staging f) \<and> distinct (map fst dir')"
    using assms by (intro sweep_files_clean [of "sort (map fst dir)" dir dir' n e]) (auto simp: SweepOrphans_def)
  then show ?thesis
    by (auto simp: race_ok_def at_boot_def NewUploadTracker_def held_def staging_names_def staging_files_def is_staging_def
        filter_empty_conv)
qed

section \<open>The operations are sequences of these steps\<close>

text \<open>\<open>on s t\<close> is the state \<open>s\<close> with the tracker \<open>t\<close>: no other request has moved.\<close>

abbreviation on :: "race_state \<Rightarrow> upload_tracker \<Rightarrow> race_state" where
  "on s t \<equiv> s\<lparr>rs_tracker := t\<rparr>"

lemma Begin_steps:
  assumes "upload_Begin (Inr rnd) (Inr tail) now t = (t', Inr uuid)" and "map_of (ut_uploads t) uuid = None"
  shows "t' = upload_register uuid (ociUploadPrefix @ tail) now (temp_created (ociUploadPrefix @ tail) t)"
    and "race_step\<^sup>*\<^sup>* (on s t) (on s t')"
proof -
  let ?f = "ociUploadPrefix @ tail"
  have b: "map_of (ut_dir t) ?f = None" "uuid = newUUID rnd"
    "t' = upload_register uuid ?f now (temp_created ?f t)"
    using assms(1) by (auto simp: upload_Begin_def Let_def upload_register_def temp_created_def split: if_splits)
  show "t' = upload_register uuid ?f now (temp_created ?f t)" by (rule b(3))
  let ?s = "s\<lparr>rs_tracker := temp_created ?f t, rs_fresh := (uuid, ?f) # rs_fresh s\<rparr>"
  have 1: "race_step (on s t) ?s" using rc_create [of ?f tail "on s t" rnd] b by simp
  have "race_step ?s (?s\<lparr>rs_tracker := upload_register uuid ?f now (rs_tracker ?s), rs_fresh := remove1 (uuid, ?f) (rs_fresh ?s)\<rparr>)"
    by (rule rc_register) (use assms(2) in \<open>simp_all add: temp_created_def\<close>)
  then have 2: "race_step ?s (on s t')" by (simp add: b(3))
  show "race_step\<^sup>*\<^sup>* (on s t) (on s t')" by (rule converse_rtranclp_into_rtranclp [of race_step, OF 1], rule r_into_rtranclp, rule 2)
qed

lemma discard_parts: "upload_discard p t = file_removed p (file_closed p t)"
  by (simp add: upload_discard_def file_removed_def file_closed_def nth_update)

lemma discard_steps:
  assumes "p \<in> set (rs_taken s)" and "p < length (ut_heap (rs_tracker s))"
  shows "race_step\<^sup>*\<^sup>* s (s\<lparr>rs_tracker := upload_discard p (rs_tracker s), rs_taken := remove1 p (rs_taken s)\<rparr>)"
proof -
  let ?s = "s\<lparr>rs_tracker := file_closed p (rs_tracker s)\<rparr>"
  have 1: "race_step s ?s" by (rule rc_close [OF assms(1)])
  have "race_step ?s (?s\<lparr>rs_tracker := file_removed p (rs_tracker ?s), rs_taken := remove1 p (rs_taken ?s)\<rparr>)"
    by (rule rc_remove) (use assms in \<open>simp_all add: file_closed_def\<close>)
  then have 2: "race_step ?s (s\<lparr>rs_tracker := upload_discard p (rs_tracker s), rs_taken := remove1 p (rs_taken s)\<rparr>)"
    by (simp add: discard_parts)
  show ?thesis by (rule converse_rtranclp_into_rtranclp [of race_step, OF 1], rule r_into_rtranclp, rule 2)
qed

lemma drop_steps:
  assumes "upload_lookup uuid t = Inr p" and "p < length (ut_heap t)"
  shows "race_step\<^sup>*\<^sup>* (on s t) (on s (upload_discard p (upload_forget uuid t)))"
proof -
  let ?s = "s\<lparr>rs_tracker := upload_forget uuid t, rs_taken := p # rs_taken s\<rparr>"
  have 1: "race_step (on s t) ?s" using rc_take [of uuid "on s t" p] assms(1) by simp
  have "race_step\<^sup>*\<^sup>* ?s (?s\<lparr>rs_tracker := upload_discard p (rs_tracker ?s), rs_taken := remove1 p (rs_taken ?s)\<rparr>)"
    by (rule discard_steps) (use assms(2) in \<open>simp_all add: upload_forget_def\<close>)
  then have 2: "race_step\<^sup>*\<^sup>* ?s (on s (upload_discard p (upload_forget uuid t)))" by simp
  show ?thesis by (rule converse_rtranclp_into_rtranclp [OF 1 2])
qed

lemma Cancel_steps:
  assumes "race_ok (on s t)"
  shows "race_step\<^sup>*\<^sup>* (on s t) (on s (upload_Cancel uuid t))"
proof (cases "upload_lookup uuid t")
  case (Inr p)
  have "p \<in> set (held (on s t))"
    using Inr by (auto simp: upload_lookup_def held_def dest!: map_of_SomeD split: option.splits intro: rev_image_eqI)
  then show ?thesis using drop_steps [OF Inr] race_okD(4) [OF assms] Inr by (simp add: upload_Cancel_def)
qed (simp add: upload_Cancel_def)

lemma Finalize_steps:
  assumes "race_ok (on s t)" and "upload_Finalize uuid want t = (t', r)"
  shows "race_step\<^sup>*\<^sup>* (on s t)
    (case r of Inl e \<Rightarrow> on s t' | Inr (p, n, dg) \<Rightarrow> s\<lparr>rs_tracker := t', rs_taken := p # rs_taken s\<rparr>)"
proof (cases "upload_lookup uuid t")
  case (Inl e)
  then show ?thesis using assms(2) by (auto simp: upload_Finalize_def)
next
  case (Inr p)
  have "p \<in> set (held (on s t))"
    using Inr by (auto simp: upload_lookup_def held_def dest!: map_of_SomeD split: option.splits intro: rev_image_eqI)
  then have d: "race_step\<^sup>*\<^sup>* (on s t) (on s (upload_discard p (upload_forget uuid t)))"
    using drop_steps [OF Inr] race_okD(4) [OF assms(1)] by simp
  have "race_step (on s t) (s\<lparr>rs_tracker := upload_forget uuid t, rs_taken := p # rs_taken s\<rparr>)"
    using rc_take [of uuid "on s t" p] Inr by simp
  then show ?thesis
    using d assms(2) Inr by (auto simp: upload_Finalize_def Let_def split: if_splits)
qed

text \<open>The sweep takes all stale sessions out at once and discards them one after another.\<close>

lemma discards_forget:
  "fold (\<lambda>(uuid, p) t. upload_discard p (upload_forget uuid t)) xs t =
     fold upload_discard (map snd xs) (fold (\<lambda>(uuid, p). upload_forget uuid) xs t)"
proof (induction xs arbitrary: t)
  case (Cons x xs)
  have c: "upload_forget u (upload_discard p t) = upload_discard p (upload_forget u t)" for u p t
    by (simp add: upload_forget_def upload_discard_def)
  then have "fold (\<lambda>(uuid, p). upload_forget uuid) xs (upload_discard p t) =
      upload_discard p (fold (\<lambda>(uuid, p). upload_forget uuid) xs t)" for p t
    by (induction xs arbitrary: t) (auto simp: c)
  then show ?case using Cons by (cases x) simp
qed simp

lemma forget_stale:
  assumes "distinct (map fst (ut_uploads t))"
  shows "fold (\<lambda>(uuid, p). upload_forget uuid) (filter P (ut_uploads t)) t = t\<lparr>ut_uploads := filter (\<lambda>x. \<not> P x) (ut_uploads t)\<rparr>"
proof -
  have "fold (\<lambda>(uuid, p). upload_forget uuid) xs t = t\<lparr>ut_uploads := filter (\<lambda>x. fst x \<notin> fst ` set xs) (ut_uploads t)\<rparr>" for xs t
    by (induction xs arbitrary: t)
      (auto simp: upload_forget_def AList.delete_eq intro!: arg_cong [where f = "\<lambda>u. t\<lparr>ut_uploads := u\<rparr>" for t] filter_cong)
  moreover have "filter (\<lambda>x. fst x \<notin> fst ` set (filter P (ut_uploads t))) (ut_uploads t) = filter (\<lambda>x. \<not> P x) (ut_uploads t)"
    using assms by (intro filter_cong refl) (auto simp: distinct_map dest: inj_onD)
  ultimately show ?thesis by metis
qed

lemma sweep_parts:
  assumes "distinct (map fst (ut_uploads t))" and "take_stale timeout now t = (t1, ps)"
  shows "sweepIdle timeout now t = (fold upload_discard ps t1, length ps)"
  using assms(2) unfolding sweepIdle_def take_stale_def Let_def discards_forget forget_stale [OF assms(1)] by auto

lemma discards_steps:
  "rs_taken s = ps @ hs \<Longrightarrow> \<forall>p \<in> set ps. p < length (ut_heap (rs_tracker s)) \<Longrightarrow>
    race_step\<^sup>*\<^sup>* s (s\<lparr>rs_tracker := fold upload_discard ps (rs_tracker s), rs_taken := hs\<rparr>)"
proof (induction ps arbitrary: s)
  case (Cons p ps)
  let ?s = "s\<lparr>rs_tracker := upload_discard p (rs_tracker s), rs_taken := ps @ hs\<rparr>"
  have "race_step\<^sup>*\<^sup>* s ?s" using discard_steps [of p s] Cons.prems by simp
  also have "race_step\<^sup>*\<^sup>* ?s (?s\<lparr>rs_tracker := fold upload_discard ps (rs_tracker ?s), rs_taken := hs\<rparr>)"
    by (rule Cons.IH) (use Cons.prems in simp_all)
  finally show ?case by simp
next
  case Nil
  then have "s\<lparr>rs_tracker := fold upload_discard [] (rs_tracker s), rs_taken := hs\<rparr> = s" by (cases s) simp
  then show ?case by simp
qed

lemma sweep_steps:
  assumes "race_ok (on s t)"
  shows "race_step\<^sup>*\<^sup>* (on s t) (on s (fst (sweepIdle timeout now t)))"
proof -
  obtain t1 ps where ts: "take_stale timeout now t = (t1, ps)" by (metis prod.exhaust)
  have h: "ut_heap t1 = ut_heap t" "set ps \<subseteq> snd ` set (ut_uploads t)" using ts by (auto simp: take_stale_def Let_def)
  let ?s = "s\<lparr>rs_tracker := t1, rs_taken := ps @ rs_taken s\<rparr>"
  have 1: "race_step (on s t) ?s" using rc_sweep [of timeout now "on s t" t1 ps] ts by simp
  have "p < length (ut_heap t1)" if "p \<in> set ps" for p
    using race_okD(4) [OF assms, of p] h that by (auto simp: held_def)
  then have "race_step\<^sup>*\<^sup>* ?s (?s\<lparr>rs_tracker := fold upload_discard ps (rs_tracker ?s), rs_taken := rs_taken s\<rparr>)"
    by (intro discards_steps) simp_all
  then have 2: "race_step\<^sup>*\<^sup>* ?s (on s (fold upload_discard ps t1))" by simp
  show ?thesis using converse_rtranclp_into_rtranclp [OF 1 2] sweep_parts [OF race_okD(3) [OF assms, simplified] ts] by simp
qed

section \<open>Properties\<close>

text \<open>
C14: No staging file is lost and none is shared, whatever comes between any two file operations of the
tracker's requests. After a boot and any interleaving of their steps - sessions being opened, appends whose
writes fail anywhere, sessions finalized, cancelled or swept - the files in the staging directory whose name
begins with the upload prefix are, one each: those of the sessions in the map, of the uploads taken out of it
whose file is still to be removed, of the sessions not registered yet, and the files whose removal the
operating system refused. In particular, when no request is in flight and no removal was refused, they are
those of the open sessions. Two sessions are given different random identifiers.
\<close>

theorem no_staging_leak:
  assumes "SweepOrphans tmpDir DirListed (\<lambda>_. False) (\<lambda>_. None) dir = (dir', n, e)" and "tmpDir \<noteq> []" and "distinct (map fst dir)"
    and "race_step\<^sup>*\<^sup>* (at_boot dir') s"
  shows "{f \<in> fst ` set (ut_dir (rs_tracker s)). has_prefix f ociUploadPrefix} =
      file_of (rs_tracker s) ` (snd ` set (ut_uploads (rs_tracker s)) \<union> set (rs_taken s)) \<union> snd ` set (rs_fresh s) \<union> set (rs_refused s)
    \<and> card {f \<in> fst ` set (ut_dir (rs_tracker s)). has_prefix f ociUploadPrefix} =
      length (ut_uploads (rs_tracker s)) + length (rs_taken s) + length (rs_fresh s) + length (rs_refused s)
    \<and> (rs_fresh s = [] \<longrightarrow> rs_taken s = [] \<longrightarrow> rs_refused s = [] \<longrightarrow>
      {f \<in> fst ` set (ut_dir (rs_tracker s)). has_prefix f ociUploadPrefix} = file_of (rs_tracker s) ` snd ` set (ut_uploads (rs_tracker s)))"
proof -
  have ok: "race_ok s" by (rule race_reachable_ok [OF assms(4) race_boot_ok [OF assms(1-3)]])
  have f: "set (staging_files t) = {f \<in> fst ` set (ut_dir t). has_prefix f ociUploadPrefix}" for t
    by (auto simp: staging_files_def)
  have eq: "set (staging_files (rs_tracker s)) = set (staging_names s)"
    using race_okD(1) [OF ok] by (metis set_mset_mset)
  have "card (set (staging_files (rs_tracker s))) = length (staging_files (rs_tracker s))"
    using race_okD(2) [OF ok] unfolding staging_files_def by (intro distinct_card distinct_filter)
  also have "\<dots> = length (staging_names s)" using race_okD(1) [OF ok] by (rule mset_eq_length)
  finally show ?thesis using eq unfolding f by (auto simp: staging_names_def held_def)
qed

text \<open>A session that was cancelled and closed, its file not yet removed, beside one whose file has just been created.\<close>

definition sample_race :: race_state where
  "sample_race =
     \<lparr>rs_tracker = \<lparr>ut_uploads = [], ut_heap = [(upload_at sample_tracker 0)\<lparr>up_open := False\<rparr>],
        ut_dir = [(ociUploadPrefix @ ''1'', []), (ociUploadPrefix @ ''2'', [])]\<rparr>,
      rs_fresh = [(newUUID ''fedcba9876543210'', ociUploadPrefix @ ''2'')], rs_writers = [], rs_taken = [0], rs_refused = []\<rparr>"

lemma sample_race_steps: "race_step\<^sup>*\<^sup>* (at_boot []) sample_race"
proof -
  let ?f = "ociUploadPrefix @ ''1''" let ?g = "ociUploadPrefix @ ''2''"
  let ?u = "newUUID ''0123456789abcdef''" let ?v = "newUUID ''fedcba9876543210''"
  let ?h = "upload_at sample_tracker 0"
  let ?s = "\<lambda>ups hp dir fr tk. \<lparr>rs_tracker = \<lparr>ut_uploads = ups, ut_heap = hp, ut_dir = dir\<rparr>, rs_fresh = fr, rs_writers = [], rs_taken = tk, rs_refused = []\<rparr>"
  note parts = temp_created_def upload_register_def upload_forget_def file_closed_def
  have 0: "at_boot [] = ?s [] [] [] [] []" by (simp add: at_boot_def NewUploadTracker_def)
  have 1: "race_step (?s [] [] [] [] []) (?s [] [] [(?f, [])] [(?u, ?f)] [])"
    using rc_create [of ?f "''1''" "?s [] [] [] [] []" "''0123456789abcdef''"] by (simp add: parts)
  have 2: "race_step (?s [] [] [(?f, [])] [(?u, ?f)] []) (?s [(?u, 0)] [?h] [(?f, [])] [] [])"
    using rc_register [of ?u ?f "?s [] [] [(?f, [])] [(?u, ?f)] []" 5] by (simp add: parts sample_tracker_def)
  have 3: "race_step (?s [(?u, 0)] [?h] [(?f, [])] [] []) (?s [(?u, 0)] [?h] [(?f, []), (?g, [])] [(?v, ?g)] [])"
    using rc_create [of ?g "''2''" "?s [(?u, 0)] [?h] [(?f, [])] [] []" "''fedcba9876543210''"] by (simp add: parts)
  have 4: "race_step (?s [(?u, 0)] [?h] [(?f, []), (?g, [])] [(?v, ?g)] []) (?s [] [?h] [(?f, []), (?g, [])] [(?v, ?g)] [0])"
    using rc_take [of ?u "?s [(?u, 0)] [?h] [(?f, []), (?g, [])] [(?v, ?g)] []" 0] by (simp add: parts upload_lookup_def)
  have 5: "race_step (?s [] [?h] [(?f, []), (?g, [])] [(?v, ?g)] [0]) (?s [] [?h\<lparr>up_open := False\<rparr>] [(?f, []), (?g, [])] [(?v, ?g)] [0])"
    using rc_close [of 0 "?s [] [?h] [(?f, []), (?g, [])] [(?v, ?g)] [0]"] by (simp add: parts)
  have 6: "sample_race = ?s [] [?h\<lparr>up_open := False\<rparr>] [(?f, []), (?g, [])] [(?v, ?g)] [0]" by (simp add: sample_race_def)
  show ?thesis unfolding 0 6
    by (rule converse_rtranclp_into_rtranclp [of race_step], rule 1, rule converse_rtranclp_into_rtranclp [of race_step], rule 2,
      rule converse_rtranclp_into_rtranclp [of race_step], rule 3, rule converse_rtranclp_into_rtranclp [of race_step], rule 4,
      rule r_into_rtranclp, rule 5)
qed

theorem no_staging_leak_witness:
  "{f \<in> fst ` set (ut_dir (rs_tracker sample_race)). has_prefix f ociUploadPrefix} = {ociUploadPrefix @ ''1'', ociUploadPrefix @ ''2''}"
  using no_staging_leak [where tmpDir = "''tmp''" and dir = "[(''pkgmirror-upload-9'', ''x'')]" and dir' = "[]" and n = 1 and e = None,
      OF _ _ _ sample_race_steps, THEN conjunct1]
  by (simp add: SweepOrphans_def is_staging_def hashedBufferPrefix_def has_prefix_def sample_race_def sample_tracker_def insert_commute)

end
