(* ===== verification/Container_Handler.thy ===== *)
theory Container_Handler
  imports Container_Upload Generic_Handler
begin

text \<open>
  The OCI registry (\<open>internal/packages/container/handler.go\<close>): routing by patterns, the token exchange,
  tags, manifests, blobs and uploads. The handler works on the database, the upload tracker and the
  object store. \<open>oci_env\<close> adds to \<open>env\<close> what the surroundings supply here: random values, the digests
  that are only recorded, the outcome of writes to the staging directory, and the texts of errors of the
  standard library, which only appear in the bodies of error responses.
\<close>

record oci_env = env +
  oc_lr :: int
  oc_dg :: digests
  oc_nanos :: int
  oc_uuid :: "(string, string) result"
  oc_temp :: "(string, string) result"
  oc_fault :: "(nat \<times> nat) option"
  oc_io_error :: string
  oc_json_error :: "string \<Rightarrow> string"
  oc_number_error :: "string \<Rightarrow> string"
  oc_issued_at :: string

record oci_request =
  oq_TLS :: bool
  oq_Host :: string
  oq_Header :: headers
  oq_digest :: string
  oq_ContentLength :: int
  oq_Body :: reader

record 's oci_state =
  ox_db :: db
  ox_uploads :: upload_tracker
  ox_store :: 's

section \<open>Routing\<close>

datatype oci_route =
    VersionCheck | Token | MethodNotAllowed | NotRecognized string
  | ListTags string string
  | HeadManifest string string string | GetManifest string string string
  | PutManifest string string string | DeleteManifest string string string
  | HeadBlob string string string | GetBlob string string string
  | StartUpload string string
  | PatchUpload string string string | PutUpload string string string | CancelUpload string string string

text \<open>
  A pattern of the form \<open>^([^/]+)/(.+)/T$\<close>: the segments of the path end in \<open>T\<close>, the first is the tenant,
  what is between is the image. A dot matches no line feed.
\<close>

definition match_route :: "string list \<Rightarrow> string list \<Rightarrow> (string \<times> string) option" where
  "match_route tail segs =
     (let n = length segs - length tail; img = join_with CHR ''/'' (tl (take n segs)) in
      if length tail + 2 \<le> length segs \<and> drop n segs = tail \<and> hd segs \<noteq> [] \<and> img \<noteq> []
         \<and> CHR 0x0A \<notin> set img
      then Some (hd segs, img) else None)"

definition match_ref :: "string list \<Rightarrow> string list \<Rightarrow> (string \<times> string \<times> string) option" where
  "match_ref before segs =
     (if last segs = [] then None
      else map_option (\<lambda>(t, i). (t, i, last segs)) (match_route (before @ [last segs]) segs))"

definition tagsListRE :: "string list \<Rightarrow> (string \<times> string) option" where
  "tagsListRE = match_route [''tags'', ''list'']"

definition manifestRE :: "string list \<Rightarrow> (string \<times> string \<times> string) option" where
  "manifestRE = match_ref [''manifests'']"

definition blobRE :: "string list \<Rightarrow> (string \<times> string \<times> string) option" where
  "blobRE = match_ref [''blobs'']"

definition blobUploadsRootRE :: "string list \<Rightarrow> (string \<times> string) option" where
  "blobUploadsRootRE segs =
     (case match_route [''blobs'', ''uploads''] segs of
        Some m \<Rightarrow> Some m
      | None \<Rightarrow> match_route [''blobs'', ''uploads'', []] segs)"

definition uuid_char :: "char \<Rightarrow> bool" where
  "uuid_char c = (ascii_alnum c \<or> c \<in> set ''._=-'')"

definition blobUploadUUIDRE :: "string list \<Rightarrow> (string \<times> string \<times> string) option" where
  "blobUploadUUIDRE segs =
     (case match_ref [''blobs'', ''uploads''] segs of
        Some (t, i, u) \<Rightarrow> if list_all uuid_char u then Some (t, i, u) else None
      | None \<Rightarrow> None)"

definition try_route :: "'a option \<Rightarrow> ('a \<Rightarrow> oci_route) \<Rightarrow> oci_route \<Rightarrow> oci_route" where
  "try_route m f other = (case m of Some x \<Rightarrow> f x | None \<Rightarrow> other)"

definition oci_dispatch :: "string \<Rightarrow> string \<Rightarrow> oci_route" where
  "oci_dispatch verb param =
     (let action = trim_prefix param ''/''; segs = split_on CHR ''/'' action; none = NotRecognized action in
      if action = [] \<or> action = ''/'' then (if verb = ''GET'' then VersionCheck else MethodNotAllowed)
      else if action = ''token'' then (if verb = ''GET'' then Token else MethodNotAllowed)
      else if verb = ''GET'' then
        try_route (tagsListRE segs) (\<lambda>(t, i). ListTags t i)
        (try_route (manifestRE segs) (\<lambda>(t, i, r). GetManifest t i r)
        (try_route (blobRE segs) (\<lambda>(t, i, dg). GetBlob t i dg) none))
      else if verb = ''HEAD'' then
        try_route (manifestRE segs) (\<lambda>(t, i, r). HeadManifest t i r)
        (try_route (blobRE segs) (\<lambda>(t, i, dg). HeadBlob t i dg) none)
      else if verb = ''POST'' then try_route (blobUploadsRootRE segs) (\<lambda>(t, i). StartUpload t i) none
      else if verb = ''PUT'' then
        try_route (blobUploadUUIDRE segs) (\<lambda>(t, i, u). PutUpload t i u)
        (try_route (manifestRE segs) (\<lambda>(t, i, r). PutManifest t i r) none)
      else if verb = ''PATCH'' then try_route (blobUploadUUIDRE segs) (\<lambda>(t, i, u). PatchUpload t i u) none
      else if verb = ''DELETE'' then
        try_route (blobUploadUUIDRE segs) (\<lambda>(t, i, u). CancelUpload t i u)
        (try_route (manifestRE segs) (\<lambda>(t, i, r). DeleteManifest t i r)
        (try_route (blobRE segs) (\<lambda>_. MethodNotAllowed) none))
      else none)"

section \<open>Answers and guards\<close>

definition writeError :: "int \<Rightarrow> string \<Rightarrow> string \<Rightarrow> response" where
  "writeError status code msg =
     reply status (Json (JObject [(''errors'', JArray [JObject [(''code'', JString code), (''message'', JString msg)]])]))"

definition registryBase :: "oci_request \<Rightarrow> string" where
  "registryBase rq =
     (let scheme = (if oq_TLS rq \<or> equal_fold (oq_Header rq ''X-Forwarded-Proto'') ''https'' then ''https'' else ''http'');
          fwd = oq_Header rq ''X-Forwarded-Host''
      in scheme @ ''://'' @ (if fwd \<noteq> [] then fwd else oq_Host rq))"

definition oci_unauthorized :: "oci_request \<Rightarrow> response" where
  "oci_unauthorized rq =
     (writeError 401 ''UNAUTHORIZED'' ''authentication required'')\<lparr>rs_Headers :=
        [(''WWW-Authenticate'', ''Bearer realm='' @ go_quote (registryBase rq @ ''/v2/token'') @ '',service=\"pkgmirror\"''),
         (''Docker-Distribution-API-Version'', ''registry/2.0'')]\<rparr>"

definition oci_versionCheck :: "oci_env \<Rightarrow> oci_request \<Rightarrow> response" where
  "oci_versionCheck en rq =
     (if en_caller en = None then oci_unauthorized rq
      else \<lparr>rs_Status = 200, rs_Headers = [(''Docker-Distribution-API-Version'', ''registry/2.0'')], rs_Body = Json (JObject [])\<rparr>)"

definition extractPasswordFromAuth :: "headers \<Rightarrow> string" where
  "extractPasswordFromAuth hdr =
     (let h = hdr ''Authorization'' in
      if length h < 6 \<or> \<not> equal_fold (take 6 h) ''Basic '' then []
      else (case b64_decode (drop 6 h) of
          None \<Rightarrow> []
        | Some decoded \<Rightarrow> (case dropWhile (\<lambda>c. c \<noteq> CHR '':'') decoded of [] \<Rightarrow> [] | _ # rest \<Rightarrow> rest)))"

definition oci_token :: "oci_env \<Rightarrow> oci_request \<Rightarrow> response" where
  "oci_token en rq =
     (let p = extractPasswordFromAuth (oq_Header rq); password = (if p = [] then ''anonymous'' else p) in
      reply 200 (Json (JObject
        [(''access_token'', JString password), (''expires_in'', JNumber ''86400''),
         (''issued_at'', JString (oc_issued_at en)), (''token'', JString password)])))"

definition oci_internal :: "string \<Rightarrow> response" where
  "oci_internal msg = writeError 500 ''INTERNAL'' msg"

definition oci_tenantFromPath :: "oci_env \<Rightarrow> db \<Rightarrow> string \<Rightarrow> tenant step" where
  "oci_tenantFromPath en d name =
     (case tenants_GetByName d name of
        Inr t \<Rightarrow> Inr t
      | Inl e \<Rightarrow>
          (if e = ErrTenantNotExist then Inl (writeError 404 ''NAME_UNKNOWN'' (''tenant '' @ go_quote name @ '' not found''))
           else Inl (oci_internal (en_error_text en (ModelError e)))))"

definition oci_requireRead :: "oci_env \<Rightarrow> oci_request \<Rightarrow> tenant \<Rightarrow> unit step" where
  "oci_requireRead en rq tenant =
     (if ten_Visibility tenant = VisibilityPublic then Inr ()
      else if en_caller en = None then Inl (oci_unauthorized rq)
      else Inr ())"

definition oci_requireWrite :: "oci_env \<Rightarrow> oci_request \<Rightarrow> tenant \<Rightarrow> unit step" where
  "oci_requireWrite en rq tenant = (if en_caller en = None then Inl (oci_unauthorized rq) else Inr ())"

definition TypeContainer :: string where
  "TypeContainer = ''container''"

definition repoPackage :: "oci_env \<Rightarrow> tenant \<Rightarrow> string \<Rightarrow> db \<Rightarrow> db \<times> (go_error, package) result" where
  "repoPackage en tenant img d =
     GetOrCreatePackageWithLookup (oc_lr en) (en_now en) (ten_ID tenant) TypeContainer (to_lower img) (to_lower img)
       CreatedViaUploaded d"

definition repoPackageLookup :: "db \<Rightarrow> tenant \<Rightarrow> string \<Rightarrow> (go_error, package) result" where
  "repoPackageLookup d tenant img = GetPackageByLookup d (ten_ID tenant) TypeContainer (to_lower img)"

section \<open>Policy hooks\<close>

definition oci_subjectFor :: "int \<Rightarrow> tenant \<Rightarrow> package \<Rightarrow> pkg_version option \<Rightarrow> string \<Rightarrow> subject" where
  "oci_subjectFor now tenant pkg ver filename =
     (let s = \<lparr>subj_TenantID = ten_ID tenant, subj_Format = TypeContainer, subj_Package = pkg_LowerName pkg,
               subj_Version = [], subj_Filename = filename, subj_Attrs = Map.empty\<rparr> in
      case ver of
        None \<Rightarrow> s
      | Some v \<Rightarrow>
          s\<lparr>subj_Version := ver_Version v,
            subj_Attrs := [''created_unix'' \<mapsto> AttrInt64 (ver_CreatedUnix v),
                           ''ingest_age_seconds'' \<mapsto> AttrInt64 (wrap64 (now - ver_CreatedUnix v))]\<rparr>)"

definition oci_checkRead :: "oci_env \<Rightarrow> tenant \<Rightarrow> package \<Rightarrow> pkg_version option \<Rightarrow> string \<Rightarrow> unit step" where
  "oci_checkRead en tenant pkg ver filename =
     (let r = en_engine en (oci_subjectFor (en_now en) tenant pkg ver filename) ActionRead in
      if IsBlocked r then Inl (writeError 403 ''DENIED'' (policyReason r)) else Inr ())"

definition oci_checkIngest :: "oci_env \<Rightarrow> tenant \<Rightarrow> string \<Rightarrow> string \<Rightarrow> string \<Rightarrow> string \<Rightarrow> unit step" where
  "oci_checkIngest en tenant img version filename license =
     (let attrs = [''created_unix'' \<mapsto> AttrInt64 (en_now en), ''ingest_age_seconds'' \<mapsto> AttrInt64 0];
          subj = \<lparr>subj_TenantID = ten_ID tenant, subj_Format = TypeContainer, subj_Package = to_lower img,
                  subj_Version = version, subj_Filename = filename,
                  subj_Attrs = (if license \<noteq> [] then attrs(''license'' \<mapsto> AttrString license) else attrs)\<rparr>;
          r = en_engine en subj ActionIngest
      in if res_Decision r \<ge> Deny then Inl (writeError 403 ''DENIED'' (policyReason r)) else Inr ())"

definition oci_filterReadable :: "oci_env \<Rightarrow> tenant \<Rightarrow> package \<Rightarrow> pkg_version list \<Rightarrow> pkg_version list" where
  "oci_filterReadable en tenant pkg versions =
     filter (\<lambda>v. \<not> IsQuarantined v
       \<and> \<not> IsBlocked (en_engine en (oci_subjectFor (en_now en) tenant pkg (Some v) []) ActionRead)) versions"

section \<open>Properties of a repository\<close>

definition propBlob :: string where "propBlob = ''container.blob.''"
definition propManifest :: string where "propManifest = ''container.manifest.''"
definition propMediaType :: string where "propMediaType = ''container.mediatype.''"

definition propLookup :: "db \<Rightarrow> int \<Rightarrow> string \<Rightarrow> string option" where
  "propLookup d packageID name = GetProperty d PropertyRefPackage packageID name"

text \<open>The blob a digest stands for in a repository, if any; the left component is a text that is no number.\<close>

definition lookupBlobID :: "db \<Rightarrow> int \<Rightarrow> string \<Rightarrow> (string, int option) result" where
  "lookupBlobID d packageID digest =
     (case GetProperty d PropertyRefPackage packageID (propBlob @ digest) of
        None \<Rightarrow> Inr None
      | Some v \<Rightarrow> (case parse_int64 v of None \<Rightarrow> Inl v | Some i \<Rightarrow> Inr (Some i)))"

definition set_package_property :: "package \<Rightarrow> string \<Rightarrow> string \<Rightarrow> db \<Rightarrow> db" where
  "set_package_property pkg name val d = SetProperty PropertyRefPackage (pkg_ID pkg) name val d"

section \<open>Manifests\<close>

definition oci_listTags :: "oci_env \<Rightarrow> oci_request \<Rightarrow> string \<Rightarrow> string \<Rightarrow> db \<Rightarrow> response" where
  "oci_listTags en rq tname img d =
     (case bind_result (oci_tenantFromPath en d tname) (\<lambda>tenant.
           bind_result (oci_requireRead en rq tenant) (\<lambda>_.
           (case repoPackageLookup d tenant img of
              Inl e \<Rightarrow> Inl (writeError 404 ''NAME_UNKNOWN'' (''repository '' @ go_quote img @ '' unknown''))
            | Inr pkg \<Rightarrow> Inr (tenant, pkg)))) of
        Inl r \<Rightarrow> r
      | Inr (tenant, pkg) \<Rightarrow>
          reply 200 (Json (JObject
            [(''name'', JString img),
             (''tags'', JArray (map (\<lambda>v. JString (ver_Version v))
                (oci_filterReadable en tenant pkg (ListVersions d (pkg_ID pkg)))))])))"

text \<open>The first referenced digest that is not present, as the answer.\<close>

fun check_references :: "db \<Rightarrow> package \<Rightarrow> string list \<Rightarrow> unit step" where
  "check_references d pkg [] = Inr ()"
| "check_references d pkg (dg # dgs) =
     (if \<not> ValidateDigest dg then Inl (writeError 400 ''MANIFEST_INVALID'' (''invalid digest '' @ go_quote dg))
      else (case lookupBlobID d (pkg_ID pkg) dg of
          Inr (Some i) \<Rightarrow> check_references d pkg dgs
        | _ \<Rightarrow> Inl (writeError 400 ''MANIFEST_BLOB_UNKNOWN'' (''referenced blob '' @ dg @ '' not present''))))"

definition blob_of_bytes :: "digests \<Rightarrow> string \<Rightarrow> int \<Rightarrow> string \<Rightarrow> blob" where
  "blob_of_bytes dg b sz sha256Hex =
     \<lparr>blob_ID = 0, blob_Size = sz, blob_HashMD5 = hex_encode (dg_md5 dg b), blob_HashSHA1 = hex_encode (dg_sha1 dg b),
      blob_HashSHA256 = sha256Hex, blob_HashSHA512 = hex_encode (dg_sha512 dg b), blob_CreatedUnix = 0\<rparr>"

definition bytes_reader :: "string \<Rightarrow> reader" where
  "bytes_reader b = \<lparr>rd_chunks = [b], rd_end = EOF, rd_eager = False\<rparr>"

definition storeBytes :: "(string \<Rightarrow> reader \<Rightarrow> 's \<Rightarrow> 's \<times> (storage_error, nat) result) \<Rightarrow> oci_env \<Rightarrow> string \<Rightarrow> db \<Rightarrow> 's
    \<Rightarrow> db \<times> 's \<times> (service_error, blob) result" where
  "storeBytes save en b d s =
     (let sha256Hex = hex_encode (sha256 b) in
      case save sha256Hex (bytes_reader b) s of
        (s', Inl e) \<Rightarrow> (d, s', Inl (StoreError e))
      | (s', Inr _) \<Rightarrow>
          (case GetOrCreateBlob (oc_lr en) (en_now en) (blob_of_bytes (oc_dg en) b (int (length b)) sha256Hex) d of
             (d', Inl e) \<Rightarrow> (d', s', Inl (ModelError e))
           | (d', Inr bl) \<Rightarrow> (d', s', Inr bl)))"

record version_meta =
  vm_Digest :: string
  vm_MediaType :: string

definition versionMeta_json :: "version_meta \<Rightarrow> string" where
  "versionMeta_json m = json_print (JObject [(''digest'', JString (vm_Digest m)), (''mediaType'', JString (vm_MediaType m))])"

definition versionMeta_field :: "version_meta \<Rightarrow> string \<Rightarrow> json \<Rightarrow> version_meta \<times> string option" where
  "versionMeta_field m k v =
     (if equal_fold k ''digest'' then apfst (\<lambda>s. m\<lparr>vm_Digest := s\<rparr>) (decode_string ''string'' k (vm_Digest m) v)
      else if equal_fold k ''mediaType'' then apfst (\<lambda>s. m\<lparr>vm_MediaType := s\<rparr>) (decode_string ''string'' k (vm_MediaType m) v)
      else (m, None))"

text \<open>The error of \<open>json.Unmarshal\<close> is dropped: what was decoded before it stays.\<close>

definition versionMeta_of :: "string \<Rightarrow> version_meta" where
  "versionMeta_of s =
     (let zero = \<lparr>vm_Digest = [], vm_MediaType = []\<rparr> in
      case json_Unmarshal s of None \<Rightarrow> zero | Some v \<Rightarrow> fst (decode_struct versionMeta_field zero v))"

definition manifest_media_type :: "oci_request \<Rightarrow> manifest \<Rightarrow> string" where
  "manifest_media_type rq m =
     (if oq_Header rq ''Content-Type'' \<noteq> [] then oq_Header rq ''Content-Type''
      else if man_MediaType m \<noteq> [] then man_MediaType m
      else MediaTypeOCIManifest)"

definition manifest_info :: "tenant \<Rightarrow> string \<Rightarrow> string \<Rightarrow> string \<Rightarrow> string \<Rightarrow> creation_info" where
  "manifest_info tenant img reference digest mediaType =
     \<lparr>ci_TenantID = ten_ID tenant, ci_PackageType = TypeContainer, ci_PackageName = to_lower img,
      ci_PackageLookupName = to_lower img, ci_Version = reference, ci_VersionProperties = [],
      ci_VersionMetadataJSON = versionMeta_json \<lparr>vm_Digest = digest, vm_MediaType = mediaType\<rparr>,
      ci_Filename = digest, ci_IsLead = True, ci_CreatedVia = []\<rparr>"

definition record_manifest :: "package \<Rightarrow> string \<Rightarrow> blob \<Rightarrow> string \<Rightarrow> db \<Rightarrow> db" where
  "record_manifest pkg digest bl mediaType d =
     set_package_property pkg (propMediaType @ digest) mediaType
       (set_package_property pkg (propManifest @ digest) (show_int (blob_ID bl))
         (set_package_property pkg (propBlob @ digest) (show_int (blob_ID bl)) d))"

definition manifest_created :: "tenant \<Rightarrow> string \<Rightarrow> string \<Rightarrow> response" where
  "manifest_created tenant img digest =
     \<lparr>rs_Status = 201,
      rs_Headers = [(''Location'', ''/v2/'' @ ten_Name tenant @ ''/'' @ img @ ''/manifests/'' @ digest),
                    (''Docker-Content-Digest'', digest)],
      rs_Body = NoBody\<rparr>"

text \<open>What comes after the manifest was read, its references checked, and the policy asked.\<close>

definition commit_manifest :: "(string \<Rightarrow> reader \<Rightarrow> 's \<Rightarrow> 's \<times> (storage_error, nat) result) \<Rightarrow> oci_env \<Rightarrow> oci_request \<Rightarrow> tenant
    \<Rightarrow> string \<Rightarrow> string \<Rightarrow> string \<Rightarrow> manifest \<Rightarrow> package \<Rightarrow> db \<Rightarrow> 's \<Rightarrow> db \<times> 's \<times> response" where
  "commit_manifest save en rq tenant img reference body m pkg d s =
     (case storeBytes save en body d s of
        (d1, s1, Inl e) \<Rightarrow> (d1, s1, oci_internal (en_error_text en e))
      | (d1, s1, Inr bl) \<Rightarrow>
          (let digest = HexToDigest (blob_HashSHA256 bl); mediaType = manifest_media_type rq m;
               d2 = record_manifest pkg digest bl mediaType d1
           in if is_digest_ref reference then (d2, s1, manifest_created tenant img digest)
              else (case CreatePackageOrAddFileToExisting save (oc_dg en) (oc_lr en) (en_now en)
                         (manifest_info tenant img reference digest mediaType) \<lparr>hb_bytes = body\<rparr> d2 s1 of
                  (d3, s2, _, _, Inr _) \<Rightarrow> (d3, s2, manifest_created tenant img digest)
                | (d3, s2, _, _, Inl e) \<Rightarrow>
                    (d3, s2,
                     if e = ModelError ErrDuplicatePackageFile then manifest_created tenant img digest
                     else oci_internal (en_error_text en e)))))"

definition manifest_body :: "oci_env \<Rightarrow> oci_request \<Rightarrow> (string \<times> manifest) step" where
  "manifest_body en rq =
     (case ReadAll_limit (4 * 2 ^ 20) (oq_Body rq) of
        (body, err) \<Rightarrow>
          if err \<noteq> None then Inl (writeError 400 ''MANIFEST_INVALID'' (''read body: '' @ en_read_error en))
          else (case ParseManifest (oc_json_error en) body of
              Inl msg \<Rightarrow> Inl (writeError 400 ''MANIFEST_INVALID'' msg)
            | Inr m \<Rightarrow> Inr (body, m)))"

definition oci_putManifest :: "(string \<Rightarrow> reader \<Rightarrow> 's \<Rightarrow> 's \<times> (storage_error, nat) result) \<Rightarrow> oci_env \<Rightarrow> oci_request
    \<Rightarrow> string \<Rightarrow> string \<Rightarrow> string \<Rightarrow> db \<Rightarrow> 's \<Rightarrow> db \<times> 's \<times> response" where
  "oci_putManifest save en rq tname img reference d s =
     (case bind_result (oci_tenantFromPath en d tname) (\<lambda>tenant.
           bind_result (oci_requireWrite en rq tenant) (\<lambda>_.
           bind_result (manifest_body en rq) (\<lambda>(body, m). Inr (tenant, body, m)))) of
        Inl r \<Rightarrow> (d, s, r)
      | Inr (tenant, body, m) \<Rightarrow>
          (case repoPackage en tenant img d of
             (d1, Inl e) \<Rightarrow> (d1, s, oci_internal (en_error_text en (ModelError e)))
           | (d1, Inr pkg) \<Rightarrow>
               (case bind_result (check_references d1 pkg (ReferencedDigests m)) (\<lambda>_.
                     oci_checkIngest en tenant img reference ''manifest'' []) of
                  Inl r \<Rightarrow> (d1, s, r)
                | Inr _ \<Rightarrow> commit_manifest save en rq tenant img reference body m pkg d1 s)))"

text \<open>The digest, the media type and, for a tag, the version a reference stands for.\<close>

definition resolveManifestReference :: "db \<Rightarrow> package \<Rightarrow> string \<Rightarrow> (string \<times> string \<times> pkg_version option) option" where
  "resolveManifestReference d pkg reference =
     (if is_digest_ref reference then
        (case propLookup d (pkg_ID pkg) (propManifest @ reference) of
           None \<Rightarrow> None
         | Some _ \<Rightarrow>
             Some (reference,
                   case propLookup d (pkg_ID pkg) (propMediaType @ reference) of None \<Rightarrow> [] | Some mt \<Rightarrow> mt,
                   None))
      else
        (case GetVersion d (pkg_ID pkg) reference of
           Inl e \<Rightarrow> None
         | Inr v \<Rightarrow>
             (let meta = versionMeta_of (ver_MetadataJSON v) in
              if vm_Digest meta = [] then None
              else Some (vm_Digest meta, if vm_MediaType meta = [] then MediaTypeOCIManifest else vm_MediaType meta, Some v))))"

text \<open>The answer that serves a blob; the headers are set before the object is opened.\<close>

definition serve_bytes :: "('s \<Rightarrow> string \<Rightarrow> (storage_error, string) result) \<Rightarrow> oci_env \<Rightarrow> string \<Rightarrow> string \<Rightarrow> blob \<Rightarrow> bool \<Rightarrow> 's
    \<Rightarrow> response" where
  "serve_bytes get en digest mediaType bl withBody s =
     (let hs = [(''Docker-Content-Digest'', digest), (''Content-Type'', mediaType), (''Content-Length'', show_int (blob_Size bl))] in
      if \<not> withBody then \<lparr>rs_Status = 200, rs_Headers = hs, rs_Body = NoBody\<rparr>
      else (case get s (blob_HashSHA256 bl) of
          Inl e \<Rightarrow> (oci_internal (en_error_text en (StoreError e)))\<lparr>rs_Headers := hs\<rparr>
        | Inr c \<Rightarrow> \<lparr>rs_Status = 200, rs_Headers = hs, rs_Body = Content c\<rparr>))"

definition oci_serveManifest :: "('s \<Rightarrow> string \<Rightarrow> (storage_error, string) result) \<Rightarrow> oci_env \<Rightarrow> oci_request \<Rightarrow> bool
    \<Rightarrow> string \<Rightarrow> string \<Rightarrow> string \<Rightarrow> db \<Rightarrow> 's \<Rightarrow> response" where
  "oci_serveManifest get en rq withBody tname img reference d s =
     (case bind_result (oci_tenantFromPath en d tname) (\<lambda>tenant.
           bind_result (oci_requireRead en rq tenant) (\<lambda>_.
           (case repoPackageLookup d tenant img of
              Inl e \<Rightarrow> Inl (writeError 404 ''NAME_UNKNOWN'' (''repository '' @ go_quote img @ '' unknown''))
            | Inr pkg \<Rightarrow>
                (case resolveManifestReference d pkg reference of
                   None \<Rightarrow> Inl (writeError 404 ''MANIFEST_UNKNOWN'' (''manifest '' @ reference @ '' not found''))
                 | Some (digest, mediaType, ver) \<Rightarrow>
                     bind_result (if ver = None then Inr () else oci_checkRead en tenant pkg ver ''manifest'') (\<lambda>_.
                     (case lookupBlobID d (pkg_ID pkg) digest of
                        Inl v \<Rightarrow> Inl (oci_internal (oc_number_error en v))
                      | Inr i \<Rightarrow>
                          (case GetBlobByID d (case i of None \<Rightarrow> 0 | Some j \<Rightarrow> j) of
                             Inl e \<Rightarrow> Inl (writeError 404 ''MANIFEST_UNKNOWN'' ''manifest blob gone'')
                           | Inr bl \<Rightarrow> Inr (digest, mediaType, bl)))))))) of
        Inl r \<Rightarrow> r
      | Inr (digest, mediaType, bl) \<Rightarrow> serve_bytes get en digest mediaType bl withBody s)"

definition oci_deleteManifest :: "oci_env \<Rightarrow> oci_request \<Rightarrow> string \<Rightarrow> string \<Rightarrow> string \<Rightarrow> db \<Rightarrow> db \<times> response" where
  "oci_deleteManifest en rq tname img reference d =
     (case bind_result (oci_tenantFromPath en d tname) (\<lambda>tenant.
           bind_result (oci_requireWrite en rq tenant) (\<lambda>_.
           (case repoPackageLookup d tenant img of
              Inl e \<Rightarrow> Inl (writeError 404 ''NAME_UNKNOWN'' (''repository '' @ go_quote img @ '' unknown''))
            | Inr pkg \<Rightarrow> Inr pkg))) of
        Inl r \<Rightarrow> (d, r)
      | Inr pkg \<Rightarrow>
          (if is_digest_ref reference then
             (DeleteProperty PropertyRefPackage (pkg_ID pkg) (propMediaType @ reference)
                (DeleteProperty PropertyRefPackage (pkg_ID pkg) (propManifest @ reference) d), reply 202 NoBody)
           else (set_package_property pkg (''container.deletedtag.'' @ reference) ''1'' d, reply 202 NoBody)))"

section \<open>Blobs\<close>

definition oci_serveBlob :: "('s \<Rightarrow> string \<Rightarrow> (storage_error, string) result) \<Rightarrow> oci_env \<Rightarrow> oci_request \<Rightarrow> bool
    \<Rightarrow> string \<Rightarrow> string \<Rightarrow> string \<Rightarrow> db \<Rightarrow> 's \<Rightarrow> response" where
  "oci_serveBlob get en rq withBody tname img digest d s =
     (case bind_result (oci_tenantFromPath en d tname) (\<lambda>tenant.
           bind_result (oci_requireRead en rq tenant) (\<lambda>_.
           if \<not> ValidateDigest digest then Inl (writeError 400 ''DIGEST_INVALID'' (''invalid digest '' @ go_quote digest))
           else (case repoPackageLookup d tenant img of
              Inl e \<Rightarrow> Inl (writeError 404 ''BLOB_UNKNOWN'' (''repository '' @ go_quote img @ '' unknown''))
            | Inr pkg \<Rightarrow>
                (case lookupBlobID d (pkg_ID pkg) digest of
                   Inl v \<Rightarrow> Inl (oci_internal (oc_number_error en v))
                 | Inr None \<Rightarrow> Inl (writeError 404 ''BLOB_UNKNOWN'' (''blob '' @ digest @ '' not present''))
                 | Inr (Some i) \<Rightarrow>
                     (case GetBlobByID d i of
                        Inl e \<Rightarrow> Inl (writeError 404 ''BLOB_UNKNOWN'' ''blob gone'')
                      | Inr bl \<Rightarrow> bind_result (oci_checkRead en tenant pkg None digest) (\<lambda>_. Inr bl)))))) of
        Inl r \<Rightarrow> r
      | Inr bl \<Rightarrow> serve_bytes get en digest ''application/octet-stream'' bl withBody s)"

text \<open>The staged file, rewound, goes to the store under the hexadecimal part of the digest.\<close>

definition storeStagedFile :: "(string \<Rightarrow> reader \<Rightarrow> 's \<Rightarrow> 's \<times> (storage_error, nat) result) \<Rightarrow> oci_env \<Rightarrow> string \<Rightarrow> string \<Rightarrow> int
    \<Rightarrow> db \<Rightarrow> 's \<Rightarrow> db \<times> 's \<times> (service_error, blob) result" where
  "storeStagedFile save en b digest sz d s =
     (let sha256Hex = DigestSHA256 digest in
      case save sha256Hex (bytes_reader b) s of
        (s', Inl e) \<Rightarrow> (d, s', Inl (StoreError e))
      | (s', Inr _) \<Rightarrow>
          (case GetOrCreateBlob (oc_lr en) (en_now en) (blob_of_bytes (oc_dg en) b sz sha256Hex) d of
             (d', Inl e) \<Rightarrow> (d', s', Inl (ModelError e))
           | (d', Inr bl) \<Rightarrow> (d', s', Inr bl)))"

definition upload_error_reply :: "oci_env \<Rightarrow> upload_error \<Rightarrow> response" where
  "upload_error_reply en e =
     (case e of
        ErrNoSuchUpload \<Rightarrow> writeError 404 ''BLOB_UPLOAD_UNKNOWN'' ''container: no such upload''
      | ErrDigestMismatch got want \<Rightarrow>
          writeError 400 ''DIGEST_INVALID'' (''container: digest mismatch: got '' @ got @ '', want '' @ want)
      | TempFailed msg \<Rightarrow> oci_internal msg
      | AppendFailed msg \<Rightarrow> oci_internal msg
      | SeekFailed \<Rightarrow> oci_internal (oc_io_error en))"

definition blob_created :: "tenant \<Rightarrow> string \<Rightarrow> string \<Rightarrow> response" where
  "blob_created tenant img digest =
     \<lparr>rs_Status = 201,
      rs_Headers = [(''Location'', ''/v2/'' @ ten_Name tenant @ ''/'' @ img @ ''/blobs/'' @ digest),
                    (''Docker-Content-Digest'', digest)],
      rs_Body = NoBody\<rparr>"

text \<open>From the finalized session to the blob of the repository; the staged file goes on every path.\<close>

definition persist_upload :: "(string \<Rightarrow> reader \<Rightarrow> 's \<Rightarrow> 's \<times> (storage_error, nat) result) \<Rightarrow> oci_env \<Rightarrow> tenant \<Rightarrow> string
    \<Rightarrow> nat \<Rightarrow> int \<Rightarrow> string \<Rightarrow> 's oci_state \<Rightarrow> 's oci_state \<times> response" where
  "persist_upload save en tenant img p sz gotDigest x =
     (case storeStagedFile save en (file_bytes (ox_uploads x) p) gotDigest sz (ox_db x) (ox_store x) of
        (d1, s1, res) \<Rightarrow>
          (let x1 = \<lparr>ox_db = d1, ox_uploads = upload_discard p (ox_uploads x), ox_store = s1\<rparr> in
           case res of
             Inl e \<Rightarrow> (x1, oci_internal (en_error_text en e))
           | Inr bl \<Rightarrow>
               (case repoPackage en tenant img d1 of
                  (d2, Inl e) \<Rightarrow> (x1\<lparr>ox_db := d2\<rparr>, oci_internal (en_error_text en (ModelError e)))
                | (d2, Inr pkg) \<Rightarrow>
                    (x1\<lparr>ox_db := set_package_property pkg (propBlob @ gotDigest) (show_int (blob_ID bl)) d2\<rparr>,
                     blob_created tenant img gotDigest))))"

definition oci_finalizeUpload :: "(string \<Rightarrow> reader \<Rightarrow> 's \<Rightarrow> 's \<times> (storage_error, nat) result) \<Rightarrow> oci_env \<Rightarrow> oci_request
    \<Rightarrow> tenant \<Rightarrow> string \<Rightarrow> string \<Rightarrow> string \<Rightarrow> 's oci_state \<Rightarrow> 's oci_state \<times> response" where
  "oci_finalizeUpload save en rq tenant img uuid digest x =
     (case (if oq_ContentLength rq \<noteq> 0
            then upload_Append (oc_io_error en) uuid (oq_Body rq) (oc_fault en) (oc_nanos en) (ox_uploads x)
            else (ox_uploads x, Inr 0)) of
        (t1, Inl e) \<Rightarrow> (x\<lparr>ox_uploads := t1\<rparr>, upload_error_reply en e)
      | (t1, Inr _) \<Rightarrow>
          (case upload_Finalize uuid digest t1 of
             (t2, Inl e) \<Rightarrow> (x\<lparr>ox_uploads := t2\<rparr>, upload_error_reply en e)
           | (t2, Inr (p, sz, gotDigest)) \<Rightarrow> persist_upload save en tenant img p sz gotDigest (x\<lparr>ox_uploads := t2\<rparr>)))"

definition oci_write_access :: "oci_env \<Rightarrow> oci_request \<Rightarrow> string \<Rightarrow> db \<Rightarrow> tenant step" where
  "oci_write_access en rq tname d =
     bind_result (oci_tenantFromPath en d tname) (\<lambda>tenant. bind_result (oci_requireWrite en rq tenant) (\<lambda>_. Inr tenant))"

definition upload_location :: "tenant \<Rightarrow> string \<Rightarrow> string \<Rightarrow> string" where
  "upload_location tenant img uuid = ''/v2/'' @ ten_Name tenant @ ''/'' @ img @ ''/blobs/uploads/'' @ uuid"

definition upload_accepted :: "tenant \<Rightarrow> string \<Rightarrow> string \<Rightarrow> string \<Rightarrow> response" where
  "upload_accepted tenant img uuid rng =
     \<lparr>rs_Status = 202,
      rs_Headers = [(''Location'', upload_location tenant img uuid), (''Range'', rng), (''Docker-Upload-UUID'', uuid)],
      rs_Body = NoBody\<rparr>"

definition oci_startUpload :: "(string \<Rightarrow> reader \<Rightarrow> 's \<Rightarrow> 's \<times> (storage_error, nat) result) \<Rightarrow> oci_env \<Rightarrow> oci_request
    \<Rightarrow> string \<Rightarrow> string \<Rightarrow> 's oci_state \<Rightarrow> 's oci_state \<times> response" where
  "oci_startUpload save en rq tname img x =
     (case oci_write_access en rq tname (ox_db x) of
        Inl r \<Rightarrow> (x, r)
      | Inr tenant \<Rightarrow>
          (case upload_Begin (oc_uuid en) (oc_temp en) (oc_nanos en) (ox_uploads x) of
             (t1, Inl e) \<Rightarrow> (x\<lparr>ox_uploads := t1\<rparr>, upload_error_reply en e)
           | (t1, Inr uuid) \<Rightarrow>
               (if oq_digest rq \<noteq> [] \<and> oq_ContentLength rq \<noteq> 0
                then oci_finalizeUpload save en rq tenant img uuid (oq_digest rq) (x\<lparr>ox_uploads := t1\<rparr>)
                else (x\<lparr>ox_uploads := t1\<rparr>, upload_accepted tenant img uuid ''0-0''))))"

definition oci_patchUpload :: "oci_env \<Rightarrow> oci_request \<Rightarrow> string \<Rightarrow> string \<Rightarrow> string \<Rightarrow> 's oci_state
    \<Rightarrow> 's oci_state \<times> response" where
  "oci_patchUpload en rq tname img uuid x =
     (case oci_write_access en rq tname (ox_db x) of
        Inl r \<Rightarrow> (x, r)
      | Inr tenant \<Rightarrow>
          (case upload_Append (oc_io_error en) uuid (oq_Body rq) (oc_fault en) (oc_nanos en) (ox_uploads x) of
             (t1, Inl e) \<Rightarrow> (x\<lparr>ox_uploads := t1\<rparr>, upload_error_reply en e)
           | (t1, Inr n) \<Rightarrow>
               (x\<lparr>ox_uploads := t1\<rparr>,
                upload_accepted tenant img uuid (''0-'' @ (if n > 0 then show_int (n - 1) else ''0'')))))"

definition oci_putUpload :: "(string \<Rightarrow> reader \<Rightarrow> 's \<Rightarrow> 's \<times> (storage_error, nat) result) \<Rightarrow> oci_env \<Rightarrow> oci_request
    \<Rightarrow> string \<Rightarrow> string \<Rightarrow> string \<Rightarrow> 's oci_state \<Rightarrow> 's oci_state \<times> response" where
  "oci_putUpload save en rq tname img uuid x =
     (case oci_write_access en rq tname (ox_db x) of
        Inl r \<Rightarrow> (x, r)
      | Inr tenant \<Rightarrow>
          (if oq_digest rq = [] \<or> \<not> ValidateDigest (oq_digest rq)
           then (x, writeError 400 ''DIGEST_INVALID'' ''missing/invalid digest'')
           else oci_finalizeUpload save en rq tenant img uuid (oq_digest rq) x))"

definition oci_cancelUpload :: "oci_env \<Rightarrow> oci_request \<Rightarrow> string \<Rightarrow> string \<Rightarrow> 's oci_state \<Rightarrow> 's oci_state \<times> response" where
  "oci_cancelUpload en rq tname uuid x =
     (case oci_write_access en rq tname (ox_db x) of
        Inl r \<Rightarrow> (x, r)
      | Inr tenant \<Rightarrow> (x\<lparr>ox_uploads := upload_Cancel uuid (ox_uploads x)\<rparr>, reply 204 NoBody))"

section \<open>The handler\<close>

fun oci_handle :: "(string \<Rightarrow> reader \<Rightarrow> 's \<Rightarrow> 's \<times> (storage_error, nat) result) \<Rightarrow> ('s \<Rightarrow> string \<Rightarrow> (storage_error, string) result)
    \<Rightarrow> oci_env \<Rightarrow> oci_request \<Rightarrow> oci_route \<Rightarrow> 's oci_state \<Rightarrow> 's oci_state \<times> response" where
  "oci_handle save get en rq VersionCheck x = (x, oci_versionCheck en rq)"
| "oci_handle save get en rq Token x = (x, oci_token en rq)"
| "oci_handle save get en rq MethodNotAllowed x = (x, reply 405 NoBody)"
| "oci_handle save get en rq (NotRecognized action) x =
     (x, writeError 404 ''NAME_UNKNOWN'' (''route '' @ go_quote action @ '' not recognized''))"
| "oci_handle save get en rq (ListTags t i) x = (x, oci_listTags en rq t i (ox_db x))"
| "oci_handle save get en rq (HeadManifest t i r) x = (x, oci_serveManifest get en rq False t i r (ox_db x) (ox_store x))"
| "oci_handle save get en rq (GetManifest t i r) x = (x, oci_serveManifest get en rq True t i r (ox_db x) (ox_store x))"
| "oci_handle save get en rq (PutManifest t i r) x =
     (case oci_putManifest save en rq t i r (ox_db x) (ox_store x) of (d, s, resp) \<Rightarrow> (x\<lparr>ox_db := d, ox_store := s\<rparr>, resp))"
| "oci_handle save get en rq (DeleteManifest t i r) x =
     (case oci_deleteManifest en rq t i r (ox_db x) of (d, resp) \<Rightarrow> (x\<lparr>ox_db := d\<rparr>, resp))"
| "oci_handle save get en rq (HeadBlob t i dg) x = (x, oci_serveBlob get en rq False t i dg (ox_db x) (ox_store x))"
| "oci_handle save get en rq (GetBlob t i dg) x = (x, oci_serveBlob get en rq True t i dg (ox_db x) (ox_store x))"
| "oci_handle save get en rq (StartUpload t i) x = oci_startUpload save en rq t i x"
| "oci_handle save get en rq (PatchUpload t i u) x = oci_patchUpload en rq t i u x"
| "oci_handle save get en rq (PutUpload t i u) x = oci_putUpload save en rq t i u x"
| "oci_handle save get en rq (CancelUpload t i u) x = oci_cancelUpload en rq t u x"

end
