(* ===== verification/Container_Laws.thy ===== *)
theory Container_Laws
  imports Container_Handler Upload_Laws Generic_Laws
begin

text \<open>What the OCI registry promises, and where it breaks its promises.\<close>

section \<open>Access\<close>

text \<open>
C17: The registry does not look at who is calling, only whether anybody is. Two callers with the same
surroundings and any two identities - a member of the tenant and one without any membership, a read
token and a write token - get the same answer and the same effect on every route.
\<close>

theorem oci_caller_irrelevant:
  assumes "en_caller en = Some i"
  shows "oci_handle save get (en\<lparr>en_caller := Some j\<rparr>) rq route x = oci_handle save get en rq route x"
proof -
  let ?en = "en\<lparr>en_caller := Some j\<rparr>"
  have sel: "en_now ?en = en_now en" "en_engine ?en = en_engine en" "en_error_text ?en = en_error_text en"
    "en_read_error ?en = en_read_error en" "oc_lr ?en = oc_lr en" "oc_dg ?en = oc_dg en" "oc_nanos ?en = oc_nanos en"
    "oc_uuid ?en = oc_uuid en" "oc_temp ?en = oc_temp en" "oc_fault ?en = oc_fault en" "oc_io_error ?en = oc_io_error en"
    "oc_json_error ?en = oc_json_error en" "oc_number_error ?en = oc_number_error en" "oc_issued_at ?en = oc_issued_at en"
    "en_caller ?en = None \<longleftrightarrow> en_caller en = None"
    using assms by simp_all
  have g: "oci_tenantFromPath ?en = oci_tenantFromPath en" "oci_requireRead ?en = oci_requireRead en"
    "oci_requireWrite ?en = oci_requireWrite en" "oci_checkRead ?en = oci_checkRead en"
    "oci_checkIngest ?en = oci_checkIngest en" "oci_filterReadable ?en = oci_filterReadable en"
    "repoPackage ?en = repoPackage en" "storeBytes save ?en = storeBytes save en"
    "storeStagedFile save ?en = storeStagedFile save en" "serve_bytes get ?en = serve_bytes get en"
    "upload_error_reply ?en = upload_error_reply en" "manifest_body ?en = manifest_body en"
    unfolding fun_eq_iff oci_tenantFromPath_def oci_requireRead_def oci_requireWrite_def oci_checkRead_def oci_checkIngest_def
      oci_filterReadable_def repoPackage_def storeBytes_def storeStagedFile_def serve_bytes_def upload_error_reply_def manifest_body_def sel
    by blast+
  have c: "commit_manifest save ?en = commit_manifest save en" "persist_upload save ?en = persist_upload save en"
    "oci_write_access ?en = oci_write_access en"
    unfolding fun_eq_iff commit_manifest_def persist_upload_def oci_write_access_def g sel by blast+
  have f: "oci_finalizeUpload save ?en = oci_finalizeUpload save en"
    unfolding fun_eq_iff oci_finalizeUpload_def g c sel by blast
  show ?thesis
    by (cases route)
      (simp_all only: oci_handle.simps g c f sel oci_versionCheck_def oci_token_def oci_listTags_def oci_serveManifest_def
        oci_putManifest_def oci_deleteManifest_def oci_serveBlob_def oci_startUpload_def oci_patchUpload_def oci_putUpload_def
        oci_cancelUpload_def)
qed

section \<open>Routes\<close>

lemma join_split: "join_with sep (split_on sep s) = s"
proof (induction s)
  case (Cons c s)
  obtain p ps where p: "split_on sep s = p # ps" by (cases "split_on sep s") simp_all
  then show ?case using Cons.IH by (cases ps) auto
qed simp

lemma match_route_join:
  assumes "tn \<noteq> []" and "img \<noteq> []" and "CHR 0x0A \<notin> set img"
  shows "match_route tail (tn # split_on CHR ''/'' img @ tail) = Some (tn, img)"
proof -
  let ?i = "split_on CHR ''/'' img"
  have ne: "?i \<noteq> []" by (rule split_on_not_Nil)
  then have "2 \<le> length (tn # ?i)" by (cases ?i) simp_all
  then have len: "length tail + 2 \<le> length (tn # ?i @ tail)" by simp
  have n: "length (tn # ?i @ tail) - length tail = length (tn # ?i)" by simp
  show ?thesis
    unfolding match_route_def Let_def n using assms len by (simp add: join_split)
qed


lemma split_on_sep: "split_on sep (p @ sep # s) = split_on sep p @ split_on sep s"
proof (induction p)
  case (Cons c p)
  obtain q qs where q: "split_on sep p = q # qs" by (cases "split_on sep p") simp_all
  then show ?case using Cons.IH by simp
qed simp

lemma hex_encode_chars: "set (hex_encode b) \<subseteq> set ''0123456789abcdef''"
proof
  fix c assume "c \<in> set (hex_encode b)"
  then obtain x :: char where "c = hex_digit (of_char x div 16) \<or> c = hex_digit (of_char x mod 16)"
    by (auto simp: hex_encode_def)
  moreover have "of_char x div 16 < (16 :: nat)" "of_char x mod 16 < (16 :: nat)"
    using of_char_256 [of x] by (simp_all add: div_less_iff_less_mult)
  moreover have "hex_digit n \<in> set ''0123456789abcdef''" if "n < 16" for n
    using that unfolding hex_digit_def by (intro nth_mem) simp
  ultimately show "c \<in> set ''0123456789abcdef''" by metis
qed

lemma uuid_facts:
  assumes "rnd \<noteq> []"
  shows "newUUID rnd \<noteq> []" and "CHR ''/'' \<notin> set (newUUID rnd)" and "list_all uuid_char (newUUID rnd)"
proof -
  show "newUUID rnd \<noteq> []" using assms by (metis length_0_conv length_hex_encode mult_eq_0_iff newUUID_def zero_neq_numeral)
  show "CHR ''/'' \<notin> set (newUUID rnd)" using hex_encode_chars [of rnd] by (auto simp: newUUID_def)
  have "\<forall>c \<in> set ''0123456789abcdef''. uuid_char c" by (simp add: uuid_char_def ascii_alnum_def)
  then show "list_all uuid_char (newUUID rnd)" using hex_encode_chars [of rnd] by (auto simp: newUUID_def list_all_iff)
qed

lemma digest_facts: "digest_of b \<noteq> []" "CHR ''/'' \<notin> set (digest_of b)"
  using hex_encode_chars [of "sha256 b"] by (auto simp: digest_of_def HexToDigest_def)

text \<open>The segments of an address, and which patterns take it.\<close>

lemma split_address:
  assumes "CHR ''/'' \<notin> set tn" and "CHR ''/'' \<notin> set w" and "CHR ''/'' \<notin> set u"
  shows "split_on CHR ''/'' (tn @ CHR ''/'' # img @ CHR ''/'' # w @ CHR ''/'' # u) = tn # split_on CHR ''/'' img @ [w, u]"
  using assms by (simp add: split_on_sep split_on_no_sep)

lemma match_ref_address:
  assumes "tn \<noteq> []" and "img \<noteq> []" and "CHR 0x0A \<notin> set img" and "u \<noteq> []"
  shows "match_ref ws (tn # split_on CHR ''/'' img @ ws @ [u]) = Some (tn, img, u)"
  using match_route_join [OF assms(1-3), of "ws @ [u]"] assms(4) by (simp add: match_ref_def)

lemma match_ref_other:
  assumes "last ws \<noteq> w" and "ws \<noteq> []"
  shows "match_ref ws (segs @ [w, u]) = None"
proof -
  have "drop n (segs @ [w, u]) \<noteq> ws @ [u]" for n
  proof
    assume "drop n (segs @ [w, u]) = ws @ [u]"
    then have "(segs @ [w]) @ [u] = (take n (segs @ [w, u]) @ ws) @ [u]"
      by (metis append_assoc append_Cons append_Nil append_take_drop_id)
    then have "segs @ [w] = take n (segs @ [w, u]) @ ws" by simp
    then show False using assms by (metis last_appendR last_snoc)
  qed
  then show ?thesis by (simp add: match_ref_def match_route_def Let_def)
qed

text \<open>
  The addresses the registry gives out lead back to it. A \<open>Location\<close> header of an upload, a blob or a
manifest, sent back, is dispatched to the handler of that tenant, image and upload or digest - also when the name
of the image contains slashes, or words the patterns look for.
\<close>

theorem locations_route_back:
  assumes "ten_Name tenant \<noteq> []" and "CHR ''/'' \<notin> set (ten_Name tenant)" and "img \<noteq> []" and "CHR 0x0A \<notin> set img" and "rnd \<noteq> []"
  shows "oci_dispatch ''PATCH'' (drop 3 (upload_location tenant img (newUUID rnd))) = PatchUpload (ten_Name tenant) img (newUUID rnd)"
    and "oci_dispatch ''PUT'' (drop 3 (upload_location tenant img (newUUID rnd))) = PutUpload (ten_Name tenant) img (newUUID rnd)"
    and "oci_dispatch ''GET'' (''/'' @ ten_Name tenant @ ''/'' @ img @ ''/blobs/'' @ digest_of b) = GetBlob (ten_Name tenant) img (digest_of b)"
    and "oci_dispatch ''GET'' (''/'' @ ten_Name tenant @ ''/'' @ img @ ''/manifests/'' @ digest_of b) = GetManifest (ten_Name tenant) img (digest_of b)"
proof -
  let ?t = "ten_Name tenant" let ?u = "newUUID rnd" let ?dg = "digest_of b" let ?i = "split_on CHR ''/'' img"
  note u = uuid_facts [OF assms(5)] and dg = digest_facts [of b] and t = assms(1,2) and i = assms(3,4)
  have up: "split_on CHR ''/'' (?t @ CHR ''/'' # img @ CHR ''/'' # ''blobs'' @ CHR ''/'' # ''uploads'' @ CHR ''/'' # ?u) = ?t # ?i @ [''blobs'', ''uploads'', ?u]"
    using t u by (simp add: split_on_sep split_on_no_sep)
  have "blobUploadUUIDRE (?t # ?i @ [''blobs'', ''uploads'', ?u]) = Some (?t, img, ?u)"
    using match_ref_address [OF t(1) i u(1), of "[''blobs'', ''uploads'']"] u(3) by (simp add: blobUploadUUIDRE_def)
  then show "oci_dispatch ''PATCH'' (drop 3 (upload_location tenant img ?u)) = PatchUpload ?t img ?u"
    "oci_dispatch ''PUT'' (drop 3 (upload_location tenant img ?u)) = PutUpload ?t img ?u"
    using up t by (simp_all add: upload_location_def oci_dispatch_def trim_prefix_def has_prefix_def try_route_def Let_def append_eq_Cons_conv)
  have bl: "split_on CHR ''/'' (?t @ CHR ''/'' # img @ CHR ''/'' # w @ CHR ''/'' # ?dg) = ?t # ?i @ [w, ?dg]" if "CHR ''/'' \<notin> set w" for w
    using t dg that by (simp add: split_on_sep split_on_no_sep)
  have m: "manifestRE (?t # ?i @ [''manifests'', ?dg]) = Some (?t, img, ?dg)" "blobRE (?t # ?i @ [''blobs'', ?dg]) = Some (?t, img, ?dg)"
    using match_ref_address [OF t(1) i dg(1), of "[''manifests'']"] match_ref_address [OF t(1) i dg(1), of "[''blobs'']"]
    by (simp_all add: manifestRE_def blobRE_def)
  have n: "manifestRE (?t # ?i @ [''blobs'', ?dg]) = None" "tagsListRE (?t # ?i @ [w, ?dg]) = None" if "w \<noteq> ''tags''" for w
    using match_ref_other [of "[''manifests'']" "''blobs''" "?t # ?i" ?dg] that
    by (auto simp: manifestRE_def tagsListRE_def match_route_def Let_def)
  show "oci_dispatch ''GET'' (''/'' @ ?t @ ''/'' @ img @ ''/blobs/'' @ ?dg) = GetBlob ?t img ?dg"
    "oci_dispatch ''GET'' (''/'' @ ?t @ ''/'' @ img @ ''/manifests/'' @ ?dg) = GetManifest ?t img ?dg"
    using bl [of "''blobs''"] bl [of "''manifests''"] m n [of "''blobs''"] n [of "''manifests''"] t
    by (simp_all add: oci_dispatch_def trim_prefix_def has_prefix_def try_route_def Let_def append_eq_Cons_conv)
qed


section \<open>Answers\<close>

lemma rs_Status_writeError [simp]: "rs_Status (writeError st code msg) = st"
  by (simp add: writeError_def)

lemma rs_Status_oci_internal [simp]: "rs_Status (oci_internal msg) = 500"
  by (simp add: oci_internal_def)

lemma oci_tenantFromPath_Inr [simp]: "oci_tenantFromPath en d name = Inr t \<longleftrightarrow> tenants_GetByName d name = Inr t"
  by (auto simp: oci_tenantFromPath_def split: sum.splits)

lemma oci_guard_status:
  "oci_tenantFromPath en d name = Inl r \<Longrightarrow> rs_Status r \<in> {404, 500}"
  "oci_requireRead en rq t = Inl r \<Longrightarrow> rs_Status r = 401"
  "oci_requireWrite en rq t = Inl r \<Longrightarrow> rs_Status r = 401"
  "oci_checkRead en t pkg ver fn = Inl r \<Longrightarrow> rs_Status r = 403"
  "oci_checkIngest en t im v fn l = Inl r \<Longrightarrow> rs_Status r = 403"
  "oci_write_access en rq name d = Inl r \<Longrightarrow> rs_Status r \<in> {401, 404, 500}"
  by (auto simp: oci_tenantFromPath_def oci_requireRead_def oci_requireWrite_def oci_unauthorized_def oci_checkRead_def
      oci_checkIngest_def oci_write_access_def bind_result_Inl_iff Let_def split: sum.splits if_splits)

lemma manifest_body_status: "manifest_body en rq = Inl r \<Longrightarrow> rs_Status r = 400"
  by (auto simp: manifest_body_def split: prod.splits sum.splits if_splits)

lemma check_references_status: "check_references d pkg dgs = Inl r \<Longrightarrow> rs_Status r = 400"
  by (induction dgs) (auto split: if_splits sum.splits option.splits)

lemma oci_putManifest_cases:
  assumes "oci_putManifest save en rq tname img reference d s = (d', s', r)"
  obtains (refused) "d' = d" "s' = s" "rs_Status r \<noteq> 201"
  | (repo) tenant x where "repoPackage en tenant img d = (d', x)" "s' = s" "rs_Status r \<noteq> 201"
  | (commit) tenant body m pkg d1 where "tenants_GetByName d tname = Inr tenant" "en_caller en \<noteq> None"
      "ReadAll_limit (4 * 2 ^ 20) (oq_Body rq) = (body, None)" "ParseManifest (oc_json_error en) body = Inr m"
      "repoPackage en tenant img d = (d1, Inr pkg)" "check_references d1 pkg (ReferencedDigests m) = Inr ()"
      "commit_manifest save en rq tenant img reference body m pkg d1 s = (d', s', r)"
proof -
  let ?g = "bind_result (oci_tenantFromPath en d tname) (\<lambda>tenant.
           bind_result (oci_requireWrite en rq tenant) (\<lambda>_.
           bind_result (manifest_body en rq) (\<lambda>(body, m). Inr (tenant, body, m))))"
  have put: "oci_putManifest save en rq tname img reference d s =
      (case ?g of
        Inl r \<Rightarrow> (d, s, r)
      | Inr (tenant, body, m) \<Rightarrow>
          (case repoPackage en tenant img d of
             (d1, Inl e) \<Rightarrow> (d1, s, oci_internal (en_error_text en (ModelError e)))
           | (d1, Inr pkg) \<Rightarrow>
               (case bind_result (check_references d1 pkg (ReferencedDigests m)) (\<lambda>_.
                     oci_checkIngest en tenant img reference ''manifest'' []) of
                  Inl r \<Rightarrow> (d1, s, r)
                | Inr _ \<Rightarrow> commit_manifest save en rq tenant img reference body m pkg d1 s)))"
    by (simp only: oci_putManifest_def)
  show thesis
  proof (cases ?g)
    case (Inl e)
    then have "rs_Status e \<noteq> 201"
      by (auto simp: bind_result_Inl_iff dest!: oci_guard_status manifest_body_status)
    then show thesis using put Inl assms by (intro refused) auto
  next
    case (Inr x)
    then obtain tenant body m where x: "x = (tenant, body, m)" by (cases x)
    have g: "tenants_GetByName d tname = Inr tenant" "en_caller en \<noteq> None"
      "ReadAll_limit (4 * 2 ^ 20) (oq_Body rq) = (body, None)" "ParseManifest (oc_json_error en) body = Inr m"
      using Inr x by (auto simp: bind_result_Inr_iff oci_requireWrite_def manifest_body_def split: prod.splits sum.splits if_splits)
    obtain d1 y where rp: "repoPackage en tenant img d = (d1, y)" by (metis prod.exhaust)
    show thesis
    proof (cases y)
      case (Inl e)
      then have "d' = d1" "s' = s" "rs_Status r \<noteq> 201" using put Inr x rp assms by auto
      then show thesis using rp by (intro repo) auto
    next
      case pkg: (Inr pkg)
      show thesis
      proof (cases "bind_result (check_references d1 pkg (ReferencedDigests m)) (\<lambda>_.
                     oci_checkIngest en tenant img reference ''manifest'' [])")
        case (Inl e)
        then have "rs_Status e \<noteq> 201" by (auto simp: bind_result_Inl_iff dest: oci_guard_status check_references_status)
        moreover have "d' = d1" "s' = s" "r = e" using put Inr x rp pkg Inl assms by auto
        ultimately show thesis using rp by (intro repo) auto
      next
        case ok: (Inr u)
        then have "check_references d1 pkg (ReferencedDigests m) = Inr ()" by (auto simp: bind_result_Inr_iff)
        moreover have "commit_manifest save en rq tenant img reference body m pkg d1 s = (d', s', r)"
          using put Inr x rp pkg ok assms by simp
        ultimately show thesis using commit [OF g] rp pkg by simp
      qed
    qed
  qed
qed

section \<open>The tracker between requests\<close>

definition tracker_inv :: "upload_tracker \<Rightarrow> bool" where
  "tracker_inv t \<longleftrightarrow> tracker_ok (t, [], []) \<and> synced (t, [], [])"

lemma tracker_inv_step: "upload_step False (t, [], []) (t', [], []) \<Longrightarrow> tracker_inv t \<Longrightarrow> tracker_inv t'"
  by (auto simp: tracker_inv_def intro: upload_step_ok upload_step_synced)

lemma Begin_inv:
  assumes "tracker_inv t" and "upload_Begin rnd name now t = (t', r)" and "\<And>b. rnd = Inr b \<Longrightarrow> map_of (ut_uploads t) (newUUID b) = None"
  shows "tracker_inv t'"
proof (cases rnd)
  case (Inl e)
  then show ?thesis using assms by (simp add: upload_Begin_def)
next
  case (Inr b)
  then show ?thesis using st_begin [of t b name now t' r] assms tracker_inv_step by blast
qed

lemma Append_inv: "tracker_inv t \<Longrightarrow> upload_Append io_err uuid r None now t = (t', res) \<Longrightarrow> tracker_inv t'"
  unfolding tracker_inv_def
  by (blast intro: Append_steps reachable_ok reachable_synced)

lemma Cancel_inv: "tracker_inv t \<Longrightarrow> tracker_inv (upload_Cancel uuid t)"
  by (rule tracker_inv_step [OF st_cancel])

lemma Finalize_refused_inv: "tracker_inv t \<Longrightarrow> upload_Finalize uuid want t = (t', Inl e) \<Longrightarrow> tracker_inv t'"
  by (rule tracker_inv_step [OF st_refused])

text \<open>The bytes the hash of a session has seen.\<close>

definition session_bytes :: "upload_tracker \<Rightarrow> string \<Rightarrow> string option" where
  "session_bytes t uuid = (case upload_lookup uuid t of Inl e \<Rightarrow> None | Inr p \<Rightarrow> Some (up_hashed (upload_at t p)))"

lemma Finalize_inv:
  assumes "tracker_inv t" and "upload_Finalize uuid want t = (t', Inr (p, n, dg))"
  shows "tracker_inv (upload_discard p t')" and "\<exists>b. session_bytes t uuid = Some b \<and> file_bytes t' p = b \<and> dg = digest_of b"
    and "want \<noteq> [] \<Longrightarrow> want = dg"
proof -
  have s: "upload_step False (t, [], []) (t', [], [(p, dg, False)])"
    using st_finalize [OF assms(2), where ws = "[]" and hs = "[]"] by simp
  have ok: "tracker_ok (t', [], [(p, dg, False)])" "synced (t', [], [(p, dg, False)])"
    using assms(1) s by (auto simp: tracker_inv_def intro: upload_step_ok upload_step_synced)
  have "upload_step False (t', [], [(p, dg, False)]) (upload_discard p t', [], [])"
    using st_release [of p dg False "[(p, dg, False)]" False t' "[]"] by simp
  then show "tracker_inv (upload_discard p t')" using ok by (auto simp: tracker_inv_def intro: upload_step_ok upload_step_synced)
  have f: "map_of (ut_dir t') (file_of t' p) = Some (up_hashed (upload_at t' p))" "dg = digest_of (up_hashed (upload_at t' p))"
    using ok(2) by (simp_all add: synced_def live_def)
  have "upload_lookup uuid t = Inr p" "ut_heap t' = ut_heap t" "want \<noteq> [] \<Longrightarrow> want = digest_of (up_hashed (upload_at t p))"
    using assms(2) by (auto simp: upload_Finalize_def upload_forget_def Let_def split: sum.splits if_splits)
  with f show "\<exists>b. session_bytes t uuid = Some b \<and> file_bytes t' p = b \<and> dg = digest_of b" "want \<noteq> [] \<Longrightarrow> want = dg"
    by (simp_all add: session_bytes_def file_bytes_def)
qed

lemma upload_write_hashed:
  "upload_write p c fault t = (t', True) \<Longrightarrow> p < length (ut_heap t) \<Longrightarrow>
     up_hashed (upload_at t' p) = up_hashed (upload_at t p) @ c \<and> ut_uploads t' = ut_uploads t \<and> length (ut_heap t') = length (ut_heap t)"
  by (auto simp: upload_write_def Let_def split: if_splits option.splits)

lemma upload_copy_hashed:
  assumes "upload_copy p cs rok fault t = (t', n, True)" and "p < length (ut_heap t)"
  shows "up_hashed (upload_at t' p) = up_hashed (upload_at t p) @ concat cs \<and> ut_uploads t' = ut_uploads t
    \<and> length (ut_heap t') = length (ut_heap t) \<and> n = length (concat cs) \<and> rok"
  using assms
proof (induction cs arbitrary: t fault n)
  case (Cons c cs)
  let ?f = "case fault of Some (0, k) \<Rightarrow> Some k | _ \<Rightarrow> None"
  obtain t1 b where w: "upload_write p c ?f t = (t1, b)" by (metis prod.exhaust)
  then have b: "b" using Cons.prems(1) by (cases b) auto
  obtain n' where n': "upload_copy p cs rok (map_option (apfst (\<lambda>i. i - 1)) fault) t1 = (t', n', True)" "n = length c + n'"
    using Cons.prems(1) w b by (auto split: prod.splits)
  have "up_hashed (upload_at t1 p) = up_hashed (upload_at t p) @ c" "ut_uploads t1 = ut_uploads t" "length (ut_heap t1) = length (ut_heap t)"
    using upload_write_hashed [of p c ?f t t1] w b Cons.prems(2) by simp_all
  then show ?case using Cons.IH [OF n'(1)] n'(2) Cons.prems(2) by simp
qed simp

lemma Append_bytes:
  assumes "tracker_inv t" and "upload_Append io_err uuid r fault now t = (t', Inr n)" and "session_bytes t uuid = Some h"
  shows "session_bytes t' uuid = Some (h @ concat (rd_chunks r))" and "rd_end r = EOF"
proof -
  obtain p where p: "upload_lookup uuid t = Inr p" "h = up_hashed (upload_at t p)"
    using assms(3) by (auto simp: session_bytes_def split: sum.splits)
  then have "p \<in> set (live t [])"
    by (auto simp: upload_lookup_def live_def dest!: map_of_SomeD split: option.splits intro: rev_image_eqI)
  then have lt: "p < length (ut_heap t)" using assms(1) by (auto simp: tracker_inv_def tracker_ok_def staged_def)
  obtain t1 m where c: "upload_copy p (rd_chunks r) (rd_end r = EOF) fault t = (t1, m, True)" "t' = upload_grow p m now t1"
    using assms(2) p(1) by (auto simp: upload_Append_def split: prod.splits if_splits)
  note k = upload_copy_hashed [OF c(1) lt]
  then show "rd_end r = EOF" by simp
  have "upload_lookup uuid t' = Inr p" using p(1) k by (simp add: upload_lookup_def c(2) upload_grow_def)
  then show "session_bytes t' uuid = Some (h @ concat (rd_chunks r))"
    using k p(2) lt by (simp add: session_bytes_def c(2) upload_grow_def)
qed

lemma Begin_bytes:
  assumes "upload_Begin rnd name now t = (t', Inr uuid)"
  shows "session_bytes t' uuid = Some []"
  using assms by (auto simp: upload_Begin_def session_bytes_def upload_lookup_def Let_def update_conv' split: sum.splits if_splits)

section \<open>The store under the registry\<close>

context digest_storage
begin

lemma service_ok_frame: "service_ok d s \<Longrightarrow> catalog_ok d' \<Longrightarrow> db_blobs d' = db_blobs d \<Longrightarrow> service_ok d' s"
  by (simp add: service_ok_def)

lemma storeStagedFile_ok:
  assumes "service_ok d s" and "storeStagedFile save en b (digest_of b) sz d s = (d', s', r)"
  shows "service_ok d' s'"
    and "r = Inr bl \<Longrightarrow> bl \<in> set (rows (db_blobs d')) \<and> blob_HashSHA256 bl = hex_encode (sha256 b) \<and> get s' (hex_encode (sha256 b)) = Inr b"
proof -
  let ?p = "hex_encode (sha256 b)"
  have dg: "DigestSHA256 (digest_of b) = ?p" by (simp add: digest_of_def)
  have rd: "bytes_reader b = hb_reader \<lparr>hb_bytes = b\<rparr>" by (simp add: bytes_reader_def hb_reader_def)
  have d: "catalog_ok d" using assms(1) by (simp add: service_ok_def)
  obtain s1 x where sv: "save ?p (bytes_reader b) s = (s1, x)" by (cases "save ?p (bytes_reader b) s")
  have kept: "\<forall>q \<in> set (rows (db_blobs d)). stored s1 (blob_HashSHA256 q)"
    using assms(1) stored_save [of s _ "\<lparr>hb_bytes = b\<rparr>" s1 x] sv rd by (simp add: service_ok_def)
  have "service_ok d' s' \<and> (r = Inr bl \<longrightarrow>
      bl \<in> set (rows (db_blobs d')) \<and> blob_HashSHA256 bl = ?p \<and> get s' ?p = Inr b)"
  proof (cases x)
    case (Inl e)
    then have "d' = d" "s' = s1" "r = Inl (StoreError e)" using assms(2) sv by (simp_all add: storeStagedFile_def Let_def dg)
    then show ?thesis using d kept by (simp add: service_ok_def)
  next
    case (Inr n)
    let ?b = "blob_of_bytes (oc_dg en) b sz ?p"
    have got: "get s1 ?p = Inr b" using save_get [OF digest_valid] sv Inr by (simp add: bytes_reader_def)
    then have st: "stored s1 ?p" by (simp add: stored_def)
    obtain d2 y where gb: "GetOrCreateBlob (oc_lr en) (en_now en) ?b d = (d2, y)"
      by (cases "GetOrCreateBlob (oc_lr en) (en_now en) ?b d")
    have hb: "blob_HashSHA256 ?b = ?p" by (simp add: blob_of_bytes_def)
    obtain q where q: "y = Inr q" "q \<in> set (rows (db_blobs d2))" "blob_HashSHA256 q = ?p"
      using GetOrCreateBlob_cases(2) [OF d gb] hb by auto
    have "catalog_ok d2" using GetOrCreateBlob_ok [OF d, of "oc_lr en" "en_now en" ?b] gb by simp
    moreover have "\<forall>q \<in> set (rows (db_blobs d2)). stored s1 (blob_HashSHA256 q)"
      using GetOrCreateBlob_cases(1) [OF d gb] kept st hb by auto
    moreover have "d' = d2" "s' = s1" "r = Inr q" using assms(2) sv Inr gb q(1) by (simp_all add: storeStagedFile_def Let_def dg)
    ultimately show ?thesis using q got by (auto simp: service_ok_def)
  qed
  then show "service_ok d' s'"
    "r = Inr bl \<Longrightarrow> bl \<in> set (rows (db_blobs d')) \<and> blob_HashSHA256 bl = ?p \<and> get s' ?p = Inr b" by blast+
qed

lemma storeBytes_staged: "storeBytes save en b d s = storeStagedFile save en b (digest_of b) (int (length b)) d s"
  by (simp add: storeBytes_def storeStagedFile_def digest_of_def)

lemma set_package_property_ok: "service_ok d s \<Longrightarrow> service_ok (set_package_property pkg name val d) s"
  by (simp add: service_ok_def set_package_property_def SetProperty_ok)

lemma record_manifest_ok: "service_ok d s \<Longrightarrow> service_ok (record_manifest pkg dg bl mt d) s"
  by (simp add: record_manifest_def set_package_property_ok)

lemma repoPackage_ok:
  assumes "service_ok d s" and "repoPackage en tenant img d = (d', r)"
  shows "service_ok d' s"
proof -
  have "catalog_ok d'"
    using GetOrCreatePackageWithLookup_ok [of d] assms by (metis fst_conv repoPackage_def service_ok_def)
  moreover have "db_blobs d' = db_blobs d"
    using assms(2) by (auto simp: repoPackage_def GetOrCreatePackageWithLookup_def insert_package_def Let_def
        split: sum.splits option.splits if_splits)
  ultimately show ?thesis by (rule service_ok_frame [OF assms(1)])
qed

lemma commit_manifest_ok:
  assumes "service_ok d s" and "commit_manifest save en rq tenant img reference body m pkg d s = (d', s', r)"
  shows "service_ok d' s'"
proof -
  obtain d1 s1 y where st: "storeBytes save en body d s = (d1, s1, y)" by (metis prod.exhaust)
  have ok1: "service_ok d1 s1" using storeStagedFile_ok(1) [OF assms(1)] st by (simp add: storeBytes_staged)
  show ?thesis
  proof (cases y)
    case (Inl e)
    then show ?thesis using assms(2) st ok1 by (simp add: commit_manifest_def)
  next
    case (Inr bl)
    let ?dg = "HexToDigest (blob_HashSHA256 bl)" let ?mt = "manifest_media_type rq m"
    let ?d2 = "record_manifest pkg ?dg bl ?mt d1"
    have ok2: "service_ok ?d2 s1" by (rule record_manifest_ok [OF ok1])
    obtain d3 s2 p v z where cp: "CreatePackageOrAddFileToExisting save (oc_dg en) (oc_lr en) (en_now en)
        (manifest_info tenant img reference ?dg ?mt) \<lparr>hb_bytes = body\<rparr> ?d2 s1 = (d3, s2, p, v, z)" by (metis prod.exhaust)
    have "service_ok d3 s2" by (rule ingest_ok(1) [OF ok2 disjI2 [OF cp]])
    then show ?thesis
      using assms(2) st Inr ok2 cp by (auto simp: commit_manifest_def Let_def split: if_splits sum.splits)
  qed
qed

lemma putManifest_ok:
  assumes "service_ok d s" and "oci_putManifest save en rq tname img reference d s = (d', s', r)"
  shows "service_ok d' s'"
  using assms(2)
proof (cases rule: oci_putManifest_cases)
  case refused
  then show ?thesis using assms(1) by simp
next
  case (repo tenant x)
  then show ?thesis using repoPackage_ok [OF assms(1) repo(1)] by simp
next
  case (commit tenant body m pkg d1)
  show ?thesis by (rule commit_manifest_ok [OF repoPackage_ok [OF assms(1) commit(5)] commit(7)])
qed

text \<open>Between requests: the catalogue and the store agree, and so do the sessions and their files.\<close>

definition oci_ok :: "'s oci_state \<Rightarrow> bool" where
  "oci_ok x \<longleftrightarrow> service_ok (ox_db x) (ox_store x) \<and> tracker_inv (ox_uploads x)"

lemma persist_upload_ok:
  assumes "service_ok (ox_db x) (ox_store x)" and "tracker_inv (upload_discard p (ox_uploads x))"
    and "persist_upload save en tenant img p sz (digest_of (file_bytes (ox_uploads x) p)) x = (x', r)"
  shows "oci_ok x'"
proof -
  let ?b = "file_bytes (ox_uploads x) p"
  obtain d1 s1 res where st: "storeStagedFile save en ?b (digest_of ?b) sz (ox_db x) (ox_store x) = (d1, s1, res)"
    by (metis prod.exhaust)
  note ok1 = storeStagedFile_ok(1) [OF assms(1) st]
  obtain d2 y where rp: "repoPackage en tenant img d1 = (d2, y)" by (metis prod.exhaust)
  note ok2 = repoPackage_ok [OF ok1 rp]
  show ?thesis
    using assms(2,3) st rp ok1 ok2
    by (auto simp: persist_upload_def Let_def oci_ok_def set_package_property_ok split: sum.splits)
qed

lemma oci_finalizeUpload_ok:
  assumes "oci_ok x" and "oc_fault en = None" and "oci_finalizeUpload save en rq tenant img uuid dg x = (x', r)"
  shows "oci_ok x'"
proof -
  obtain t1 a where ap: "(if oq_ContentLength rq \<noteq> 0
            then upload_Append (oc_io_error en) uuid (oq_Body rq) (oc_fault en) (oc_nanos en) (ox_uploads x)
            else (ox_uploads x, Inr 0)) = (t1, a)" by (metis prod.exhaust)
  have t1: "tracker_inv t1" using assms(1,2) ap Append_inv by (auto simp: oci_ok_def split: if_splits)
  show ?thesis
  proof (cases a)
    case (Inl e)
    then show ?thesis using assms(1,3) ap t1 by (auto simp: oci_finalizeUpload_def oci_ok_def)
  next
    case (Inr n)
    obtain t2 f where fn: "upload_Finalize uuid dg t1 = (t2, f)" by (metis prod.exhaust)
    show ?thesis
    proof (cases f)
      case (Inl e)
      then show ?thesis
        using assms(1,3) ap Inr fn Finalize_refused_inv [OF t1] by (auto simp: oci_finalizeUpload_def oci_ok_def)
    next
      case f: (Inr w)
      obtain p sz g where w: "w = (p, sz, g)" by (cases w)
      note fi = Finalize_inv [OF t1 fn [unfolded f w]]
      have "g = digest_of (file_bytes t2 p)" using fi(2) by auto
      moreover have "persist_upload save en tenant img p sz g (x\<lparr>ox_uploads := t2\<rparr>) = (x', r)"
        using assms(3) ap Inr fn f w by (simp add: oci_finalizeUpload_def)
      ultimately show ?thesis
        using persist_upload_ok [of "x\<lparr>ox_uploads := t2\<rparr>" p en tenant img sz x' r] fi(1) assms(1) by (simp add: oci_ok_def)
    qed
  qed
qed

lemma oci_uploads_ok:
  assumes "oci_ok x" and "oc_fault en = None"
  shows "oci_patchUpload en rq tname img uuid x = (x', r) \<Longrightarrow> oci_ok x'"
    and "oci_putUpload save en rq tname img uuid x = (x', r) \<Longrightarrow> oci_ok x'"
    and "oci_cancelUpload en rq tname uuid x = (x', r) \<Longrightarrow> oci_ok x'"
    and "(\<And>b. oc_uuid en = Inr b \<Longrightarrow> map_of (ut_uploads (ox_uploads x)) (newUUID b) = None) \<Longrightarrow>
      oci_startUpload save en rq tname img x = (x', r) \<Longrightarrow> oci_ok x'"
proof -
  have t: "tracker_inv (ox_uploads x)" using assms(1) by (simp add: oci_ok_def)
  show "oci_patchUpload en rq tname img uuid x = (x', r) \<Longrightarrow> oci_ok x'"
    using assms Append_inv [OF t]
    by (auto simp: oci_patchUpload_def oci_ok_def split: sum.splits prod.splits)
  show "oci_putUpload save en rq tname img uuid x = (x', r) \<Longrightarrow> oci_ok x'"
    using assms oci_finalizeUpload_ok by (auto simp: oci_putUpload_def split: sum.splits if_splits)
  show "oci_cancelUpload en rq tname uuid x = (x', r) \<Longrightarrow> oci_ok x'"
    using assms Cancel_inv [OF t] by (auto simp: oci_cancelUpload_def oci_ok_def split: sum.splits)
  assume fresh: "\<And>b. oc_uuid en = Inr b \<Longrightarrow> map_of (ut_uploads (ox_uploads x)) (newUUID b) = None"
    and st: "oci_startUpload save en rq tname img x = (x', r)"
  obtain t1 b where bg: "upload_Begin (oc_uuid en) (oc_temp en) (oc_nanos en) (ox_uploads x) = (t1, b)" by (metis prod.exhaust)
  have "oci_ok (x\<lparr>ox_uploads := t1\<rparr>)" using assms(1) Begin_inv [OF t bg fresh] by (simp add: oci_ok_def)
  then show "oci_ok x'"
    using assms st bg oci_finalizeUpload_ok
    by (auto simp: oci_startUpload_def split: sum.splits if_splits)
qed

lemma oci_deleteManifest_ok:
  assumes "service_ok d s" and "oci_deleteManifest en rq tname img reference d = (d', r)"
  shows "service_ok d' s"
proof -
  have "service_ok (DeleteProperty rt i n e) s" if "service_ok e s" for rt i n e
    using that by (intro service_ok_frame [OF that]) (simp_all add: service_ok_def DeleteProperty_ok, simp add: DeleteProperty_def)
  then show ?thesis
    using assms set_package_property_ok by (auto simp: oci_deleteManifest_def split: sum.splits if_splits)
qed

lemma oci_handle_ok:
  assumes "oci_ok x" and "oc_fault en = None"
    and "\<And>b. oc_uuid en = Inr b \<Longrightarrow> map_of (ut_uploads (ox_uploads x)) (newUUID b) = None"
  shows "oci_ok (fst (oci_handle save get en rq route x))"
proof (cases route)
  case (PutManifest tn i r)
  obtain d s resp where p: "oci_putManifest save en rq tn i r (ox_db x) (ox_store x) = (d, s, resp)" by (metis prod.exhaust)
  have "service_ok d s" using putManifest_ok [OF _ p] assms(1) by (simp add: oci_ok_def)
  then show ?thesis using assms(1) p PutManifest by (simp add: oci_ok_def)
next
  case (DeleteManifest tn i r)
  obtain d resp where p: "oci_deleteManifest en rq tn i r (ox_db x) = (d, resp)" by (metis prod.exhaust)
  have "service_ok d (ox_store x)" using oci_deleteManifest_ok [OF _ p] assms(1) by (simp add: oci_ok_def)
  then show ?thesis using assms(1) p DeleteManifest by (simp add: oci_ok_def)
next
  case (StartUpload tn i)
  then show ?thesis using oci_uploads_ok(4) [OF assms] by (metis oci_handle.simps(12) prod.collapse)
next
  case (PatchUpload tn i u)
  then show ?thesis using oci_uploads_ok(1) [OF assms(1,2)] by (metis oci_handle.simps(13) prod.collapse)
next
  case (PutUpload tn i u)
  then show ?thesis using oci_uploads_ok(2) [OF assms(1,2)] by (metis oci_handle.simps(14) prod.collapse)
next
  case (CancelUpload tn i u)
  then show ?thesis using oci_uploads_ok(3) [OF assms(1,2)] by (metis oci_handle.simps(15) prod.collapse)
qed (simp_all add: assms(1))

end

section \<open>Requests one after another\<close>

definition oci_boot :: "int \<Rightarrow> disk oci_state" where
  "oci_boot tm = \<lparr>ox_db = fresh_db tm, ox_uploads = NewUploadTracker [], ox_store = []\<rparr>"

text \<open>A request, the idle sweeper, or a change of the catalogue by anybody else.\<close>

inductive oci_step :: "disk oci_state \<Rightarrow> disk oci_state \<Rightarrow> bool" where
  oci_request: "oc_fault en = None \<Longrightarrow> (\<And>b. oc_uuid en = Inr b \<Longrightarrow> map_of (ut_uploads (ox_uploads x)) (newUUID b) = None) \<Longrightarrow>
     oci_step x (fst (oci_handle (local_Save fault rnd) local_Open en rq route x))"
| oci_sweep: "oci_step x (x\<lparr>ox_uploads := fst (sweepIdle timeout now (ox_uploads x))\<rparr>)"
| oci_other: "service_step (ox_db x, ox_store x) (d, s) \<Longrightarrow> oci_step x (x\<lparr>ox_db := d, ox_store := s\<rparr>)"

lemma oci_boot_ok: "local.oci_ok (oci_boot tm)"
  by (simp add: local.oci_ok_def oci_boot_def local.service_ok_def tracker_inv_def tracker_ok_def staged_def live_def
      NewUploadTracker_def synced_def) (simp add: fresh_db_def)

lemma oci_step_ok:
  assumes "oci_step x x'" and "local.oci_ok x"
  shows "local.oci_ok x'"
  using assms
proof (induction rule: oci_step.induct)
  case (oci_request en x fault rnd rq route)
  show ?case by (rule local.oci_handle_ok [OF oci_request(3,1)]) (use oci_request(2) in blast)
next
  case (oci_sweep x timeout now)
  then have "tracker_inv (fst (sweepIdle timeout now (ox_uploads x)))"
    by (intro tracker_inv_step [OF st_sweep]) (simp add: local.oci_ok_def)
  then show ?case using oci_sweep by (simp add: local.oci_ok_def)
next
  case (oci_other x d s)
  then show ?case using service_step_ok [of "(ox_db x, ox_store x)" "(d, s)"] by (simp add: local.oci_ok_def)
qed

lemma oci_reachable_ok: "oci_step\<^sup>*\<^sup>* (oci_boot tm) x \<Longrightarrow> local.oci_ok x"
  by (induction rule: rtranclp_induct) (auto simp: oci_boot_ok intro: oci_step_ok)


section \<open>Samples\<close>

definition sample_oci_env :: oci_env where
  "sample_oci_env =
     \<lparr>en_now = 1, en_caller = Some sample_admin, en_engine = noop_Evaluate, en_error_text = (\<lambda>_. []), en_read_error = [],
      oc_lr = 0, oc_dg = sample_digests, oc_nanos = 5, oc_uuid = Inr ''0123456789abcdef'', oc_temp = Inr ''1'', oc_fault = None,
      oc_io_error = [], oc_json_error = (\<lambda>_. []), oc_number_error = (\<lambda>_. []), oc_issued_at = []\<rparr>"

definition sample_request :: "string \<Rightarrow> string \<Rightarrow> oci_request" where
  "sample_request dg body =
     \<lparr>oq_TLS = True, oq_Host = ''r.example'', oq_Header = (\<lambda>_. []), oq_digest = dg,
      oq_ContentLength = int (length body), oq_Body = bytes_reader body\<rparr>"

theorem oci_caller_irrelevant_witness:
  "oci_handle (local_Save None ''r'') local_Open (sample_oci_env\<lparr>en_caller := Some sample_reader\<rparr>) (sample_request [] []) (StartUpload ''default'' ''app'') (oci_boot 0)
   = oci_handle (local_Save None ''r'') local_Open sample_oci_env (sample_request [] []) (StartUpload ''default'' ''app'') (oci_boot 0)"
  by (rule oci_caller_irrelevant [where i = sample_admin]) (simp add: sample_oci_env_def)

theorem locations_route_back_witness:
  "oci_dispatch ''PATCH'' (drop 3 (upload_location (default_tenant_row 0) ''lib/blobs/uploads'' (newUUID ''k''))) =
     PatchUpload ''default'' ''lib/blobs/uploads'' (newUUID ''k'')"
  using locations_route_back(1) [of "default_tenant_row 0" "''lib/blobs/uploads''" "''k''"] by (simp add: default_tenant_row_def)


end
