(* ===== verification/Container_Push.thy ===== *)
theory Container_Push
  imports Container_Laws
begin

text \<open>
  Pushing and pulling: what a client that pushed a blob or a manifest gets back, what a second push under
  the same tag does, and what deleting a tag does.
\<close>

section \<open>Properties of a repository\<close>

lemma GetProperty_set [simp]:
  "GetProperty (set_package_property pkg n v d) PropertyRefPackage i n' =
     (if i = pkg_ID pkg \<and> n' = n then Some v else GetProperty d PropertyRefPackage i n')"
  by (simp add: set_package_property_def property_roundtrip [THEN conjunct1])

lemma set_package_property_tables [simp]:
  "db_packages (set_package_property pkg n v d) = db_packages d" "db_versions (set_package_property pkg n v d) = db_versions d"
  "db_blobs (set_package_property pkg n v d) = db_blobs d" "db_files (set_package_property pkg n v d) = db_files d"
  "db_tenants (set_package_property pkg n v d) = db_tenants d"
  by (simp_all add: set_package_property_def)

lemma prop_names [simp]:
  "propBlob \<noteq> propManifest" "propBlob \<noteq> propMediaType" "propManifest \<noteq> propMediaType"
  "propManifest \<noteq> propBlob" "propMediaType \<noteq> propBlob" "propMediaType \<noteq> propManifest"
  "propBlob \<noteq> ''container.deletedtag.''" "propManifest \<noteq> ''container.deletedtag.''" "propMediaType \<noteq> ''container.deletedtag.''"
  "propBlob @ a \<noteq> propManifest @ b" "propBlob @ a \<noteq> propMediaType @ b" "propManifest @ a \<noteq> propMediaType @ b"
  "propManifest @ a \<noteq> propBlob @ b" "propMediaType @ a \<noteq> propBlob @ b" "propMediaType @ a \<noteq> propManifest @ b"
  "propBlob @ a \<noteq> ''container.deletedtag.'' @ b" "propManifest @ a \<noteq> ''container.deletedtag.'' @ b"
  "propMediaType @ a \<noteq> ''container.deletedtag.'' @ b"
  by (simp_all add: propBlob_def propManifest_def propMediaType_def)

lemma repoPackageLookup_cong: "db_packages d' = db_packages d \<Longrightarrow> repoPackageLookup d' = repoPackageLookup d"
  using GetPackageByLookup_cong [of d' d] by (simp add: fun_eq_iff repoPackageLookup_def)

lemma GetProperty_cong: "db_properties d' = db_properties d \<Longrightarrow> GetProperty d' = GetProperty d"
  by (simp add: fun_eq_iff GetProperty_def)

lemma repoPackage_found:
  assumes "catalog_ok d" and "repoPackage en tenant img d = (d', Inr pkg)"
  shows "repoPackageLookup d' tenant img = Inr pkg"
  using created_package_found [OF assms(1)] assms(2) by (simp add: repoPackage_def repoPackageLookup_def)

lemma repoPackage_tables:
  assumes "repoPackage en tenant img d = (d', r)"
  shows "db_tenants d' = db_tenants d" "db_versions d' = db_versions d" "db_files d' = db_files d"
    "db_properties d' = db_properties d" "db_blobs d' = db_blobs d"
  using GetOrCreatePackageWithLookup_tables [of _ _ _ _ _ _ _ d d' r] assms by (simp_all add: repoPackage_def)

lemma repoPackage_existing:
  "repoPackageLookup d tenant img = Inr pkg \<Longrightarrow> repoPackage en tenant img d = (d, Inr pkg)"
  by (simp add: repoPackage_def repoPackageLookup_def GetOrCreatePackageWithLookup_def)

section \<open>Blobs\<close>

lemma GetOrCreateBlob_seq:
  "GetOrCreateBlob lr now b d = (d', r) \<Longrightarrow> seq (db_blobs d') \<le> seq (db_blobs d) + 1"
  by (auto simp: GetOrCreateBlob_def insert_unique_def Let_def split: sum.splits option.splits if_splits)

lemma GetOrCreateBlob_grows:
  "GetOrCreateBlob lr now b d = (d', r) \<Longrightarrow> set (rows (db_blobs d)) \<subseteq> set (rows (db_blobs d'))"
  by (auto simp: GetOrCreateBlob_def insert_unique_def Let_def split: sum.splits option.splits if_splits)

lemma storeStagedFile_tables:
  assumes "storeStagedFile save en b dg sz d s = (d', s', r)"
  shows "db_tenants d' = db_tenants d" "db_packages d' = db_packages d" "db_versions d' = db_versions d"
    "db_properties d' = db_properties d" "db_files d' = db_files d" "seq (db_blobs d') \<le> seq (db_blobs d) + 1"
  using assms GetOrCreateBlob_tables GetOrCreateBlob_seq
  by (auto simp: storeStagedFile_def Let_def split: prod.splits sum.splits)

lemma blob_id_range:
  assumes "catalog_ok d" and "bl \<in> set (rows (db_blobs d))" and "seq (db_blobs d) < 2 ^ 63"
  shows "parse_int64 (show_int (blob_ID bl)) = Some (blob_ID bl)" and "GetBlobByID d (blob_ID bl) = Inr bl"
proof -
  have "0 < blob_ID bl \<and> blob_ID bl \<le> seq (db_blobs d)" using catalog_okD(3) [OF assms(1)] assms(2) by (auto simp: table_ok_def)
  then show "parse_int64 (show_int (blob_ID bl)) = Some (blob_ID bl)"
    using assms(3) by (intro parse_int64_show_int) (simp add: int64_range_def)
  show "GetBlobByID d (blob_ID bl) = Inr bl"
    using table_ok_select_id [OF catalog_okD(3) [OF assms(1)], of bl] assms(2) by (simp add: GetBlobByID_def)
qed

text \<open>The blob a digest stands for in a repository.\<close>

definition repo_blob :: "db \<Rightarrow> package \<Rightarrow> string \<Rightarrow> blob \<Rightarrow> bool" where
  "repo_blob d pkg dg bl \<longleftrightarrow>
     lookupBlobID d (pkg_ID pkg) dg = Inr (Some (blob_ID bl)) \<and> GetBlobByID d (blob_ID bl) = Inr bl"

lemma repo_blobI:
  assumes "catalog_ok d" and "bl \<in> set (rows (db_blobs d))" and "seq (db_blobs d) < 2 ^ 63"
    and "GetProperty d PropertyRefPackage (pkg_ID pkg) (propBlob @ dg) = Some (show_int (blob_ID bl))"
  shows "repo_blob d pkg dg bl"
  using blob_id_range [OF assms(1-3)] assms(4) by (simp add: repo_blob_def lookupBlobID_def)

lemma serveBlob_found:
  assumes "tenants_GetByName d tname = Inr tenant" and "oci_requireRead en rq tenant = Inr ()" and "ValidateDigest dg"
    and "repoPackageLookup d tenant img = Inr pkg" and "repo_blob d pkg dg bl"
    and "\<not> IsBlocked (en_engine en (oci_subjectFor (en_now en) tenant pkg None dg) ActionRead)"
    and "get s (blob_HashSHA256 bl) = Inr c"
  shows "oci_serveBlob get en rq True tname img dg d s =
    \<lparr>rs_Status = 200, rs_Headers = [(''Docker-Content-Digest'', dg), (''Content-Type'', ''application/octet-stream''),
       (''Content-Length'', show_int (blob_Size bl))], rs_Body = Content c\<rparr>"
proof -
  have t: "oci_tenantFromPath en d tname = Inr tenant" using assms(1) by simp
  show ?thesis
    using assms(2-7) by (simp add: oci_serveBlob_def t repo_blob_def oci_checkRead_def Let_def serve_bytes_def)
qed

context digest_storage
begin

lemma persist_created:
  assumes "service_ok (ox_db x) (ox_store x)" and "persist_upload save en tenant img p sz (digest_of b) x = (x', r)"
    and "file_bytes (ox_uploads x) p = b" and "rs_Status r = 201" and "seq (db_blobs (ox_db x)) < 2 ^ 63 - 1"
  shows "db_tenants (ox_db x') = db_tenants (ox_db x)"
    and "\<exists>pkg bl. repoPackageLookup (ox_db x') tenant img = Inr pkg \<and> repo_blob (ox_db x') pkg (digest_of b) bl
      \<and> blob_HashSHA256 bl = hex_encode (sha256 b) \<and> get (ox_store x') (hex_encode (sha256 b)) = Inr b"
proof -
  obtain d1 s1 res where st: "storeStagedFile save en b (digest_of b) sz (ox_db x) (ox_store x) = (d1, s1, res)"
    by (metis prod.exhaust)
  note tab = storeStagedFile_tables [OF st] and sk = storeStagedFile_ok [OF assms(1) st]
  obtain bl where bl: "res = Inr bl" using assms(2-4) st by (cases res) (auto simp: persist_upload_def)
  obtain d2 y where rp: "repoPackage en tenant img d1 = (d2, y)" by (metis prod.exhaust)
  obtain pkg where pkg: "y = Inr pkg" using assms(2-4) st bl rp by (cases y) (auto simp: persist_upload_def)
  have x': "ox_db x' = set_package_property pkg (propBlob @ digest_of b) (show_int (blob_ID bl)) d2" "ox_store x' = s1"
    using assms(2,3) st bl rp pkg by (auto simp: persist_upload_def)
  note tab2 = repoPackage_tables [OF rp]
  show "db_tenants (ox_db x') = db_tenants (ox_db x)" using x' tab tab2 by simp
  have ok: "service_ok (ox_db x') s1"
    unfolding x' by (rule set_package_property_ok [OF repoPackage_ok [OF sk(1) rp]])
  have b: "bl \<in> set (rows (db_blobs d1))" "blob_HashSHA256 bl = hex_encode (sha256 b)" "get s1 (hex_encode (sha256 b)) = Inr b"
    using sk(2) [OF bl] by simp_all
  have "repo_blob (ox_db x') pkg (digest_of b) bl"
    using ok b(1) tab(6) tab2(5) assms(5) x'(1) by (intro repo_blobI) (simp_all add: service_ok_def)
  moreover have "repoPackageLookup d2 tenant img = Inr pkg"
    using repoPackage_found [OF _ rp [unfolded pkg]] sk(1) by (simp add: service_ok_def)
  then have "repoPackageLookup (ox_db x') tenant img = Inr pkg"
    using repoPackageLookup_cong [of "ox_db x'" d2] x'(1) by simp
  ultimately show "\<exists>pkg bl. repoPackageLookup (ox_db x') tenant img = Inr pkg \<and> repo_blob (ox_db x') pkg (digest_of b) bl
      \<and> blob_HashSHA256 bl = hex_encode (sha256 b) \<and> get (ox_store x') (hex_encode (sha256 b)) = Inr b"
    using b(2,3) x'(2) by blast
qed

end

text \<open>Patches sent one after the other, all of them accepted.\<close>

fun run_patches :: "string \<Rightarrow> string \<Rightarrow> string \<Rightarrow> (oci_env \<times> oci_request) list \<Rightarrow> 's oci_state \<Rightarrow> 's oci_state option" where
  "run_patches tname img uuid [] x = Some x"
| "run_patches tname img uuid ((en, rq) # ps) x =
     (case oci_patchUpload en rq tname img uuid x of
        (x', r) \<Rightarrow> if rs_Status r = 202 then run_patches tname img uuid ps x' else None)"

definition body_of :: "oci_request \<Rightarrow> string" where
  "body_of rq = (if oq_ContentLength rq \<noteq> 0 then concat (rd_chunks (oq_Body rq)) else [])"

lemma upload_error_status: "rs_Status (upload_error_reply en e) \<notin> {201, 202}"
  by (cases e) (simp_all add: upload_error_reply_def)

lemma patch_accepted:
  assumes "oci_patchUpload en rq tname img uuid x = (x', r)" and "rs_Status r = 202" and "tracker_inv (ox_uploads x)"
    and "session_bytes (ox_uploads x) uuid = Some h" and "oc_fault en = None"
  shows "ox_db x' = ox_db x" "ox_store x' = ox_store x" "tracker_inv (ox_uploads x')"
    "session_bytes (ox_uploads x') uuid = Some (h @ concat (rd_chunks (oq_Body rq)))"
proof -
  obtain tenant where t: "oci_write_access en rq tname (ox_db x) = Inr tenant"
    using assms(1,2) oci_guard_status(6) [of en rq tname "ox_db x"] by (fastforce simp: oci_patchUpload_def split: sum.splits)
  obtain t1 n where ap: "upload_Append (oc_io_error en) uuid (oq_Body rq) None (oc_nanos en) (ox_uploads x) = (t1, Inr n)"
    "x' = x\<lparr>ox_uploads := t1\<rparr>"
    using assms(1,2,5) t upload_error_status [of en] by (fastforce simp: oci_patchUpload_def split: sum.splits prod.splits)
  show "ox_db x' = ox_db x" "ox_store x' = ox_store x" "tracker_inv (ox_uploads x')"
    "session_bytes (ox_uploads x') uuid = Some (h @ concat (rd_chunks (oq_Body rq)))"
    using Append_inv [OF assms(3) ap(1)] Append_bytes(1) [OF assms(3) ap(1) assms(4)] ap(2) by simp_all
qed

lemma patches_accepted:
  assumes "run_patches tname img uuid ps x = Some x'" and "tracker_inv (ox_uploads x)"
    and "session_bytes (ox_uploads x) uuid = Some h" and "\<forall>(en, rq) \<in> set ps. oc_fault en = None"
  shows "ox_db x' = ox_db x \<and> ox_store x' = ox_store x \<and> tracker_inv (ox_uploads x')
    \<and> session_bytes (ox_uploads x') uuid = Some (h @ concat (map (\<lambda>(en, rq). concat (rd_chunks (oq_Body rq))) ps))"
  using assms
proof (induction ps arbitrary: x h)
  case (Cons q ps)
  obtain en rq where q: "q = (en, rq)" by (cases q)
  obtain x1 r where p: "oci_patchUpload en rq tname img uuid x = (x1, r)" "rs_Status r = 202" "run_patches tname img uuid ps x1 = Some x'"
    using Cons.prems(1) q by (auto split: prod.splits if_splits)
  have "oc_fault en = None" using Cons.prems(4) q by simp
  note a = patch_accepted [OF p(1,2) Cons.prems(2,3) this]
  show ?case using Cons.IH [OF p(3) a(3,4)] a(1,2) Cons.prems(4) q by simp
qed simp

lemma put_created:
  assumes "oci_putUpload save en rq tname img uuid x = (x', r)" and "rs_Status r = 201" and "tracker_inv (ox_uploads x)"
    and "session_bytes (ox_uploads x) uuid = Some h" and "oc_fault en = None"
  shows "\<exists>tenant x1 p sz. tenants_GetByName (ox_db x) tname = Inr tenant \<and> ox_db x1 = ox_db x \<and> ox_store x1 = ox_store x
    \<and> oq_digest rq = digest_of (h @ body_of rq) \<and> file_bytes (ox_uploads x1) p = h @ body_of rq
    \<and> persist_upload save en tenant img p sz (digest_of (h @ body_of rq)) x1 = (x', r)"
proof -
  let ?ap = "if oq_ContentLength rq \<noteq> 0
            then upload_Append (oc_io_error en) uuid (oq_Body rq) (oc_fault en) (oc_nanos en) (ox_uploads x)
            else (ox_uploads x, Inr 0)"
  obtain tenant where t: "oci_write_access en rq tname (ox_db x) = Inr tenant"
    using assms(1,2) oci_guard_status(6) [of en rq tname "ox_db x"] by (fastforce simp: oci_putUpload_def split: sum.splits)
  then have fz: "oci_finalizeUpload save en rq tenant img uuid (oq_digest rq) x = (x', r)" and dg: "oq_digest rq \<noteq> []"
    using assms(1,2) by (auto simp: oci_putUpload_def split: if_splits)
  obtain t1 n where ap: "?ap = (t1, Inr n)"
    using fz assms(2) upload_error_status [of en] by (fastforce simp: oci_finalizeUpload_def split: sum.splits prod.splits)
  have s: "tracker_inv t1" "session_bytes t1 uuid = Some (h @ body_of rq)"
    using ap assms(3-5) Append_inv [of "ox_uploads x"] Append_bytes(1) [of "ox_uploads x"]
    by (auto simp: body_of_def split: if_splits)
  obtain t2 p sz g where fn: "upload_Finalize uuid (oq_digest rq) t1 = (t2, Inr (p, sz, g))"
    using fz ap assms(2) upload_error_status [of en] by (fastforce simp: oci_finalizeUpload_def split: sum.splits prod.splits)
  note fi = Finalize_inv [OF s(1) fn]
  have g: "g = digest_of (h @ body_of rq)" "file_bytes t2 p = h @ body_of rq" "oq_digest rq = g"
    using fi(2) s(2) fi(3) [OF dg] by auto
  have "persist_upload save en tenant img p sz g (x\<lparr>ox_uploads := t2\<rparr>) = (x', r)"
    using fz ap fn by (simp add: oci_finalizeUpload_def)
  moreover have "tenants_GetByName (ox_db x) tname = Inr tenant"
    using t by (auto simp: oci_write_access_def bind_result_Inr_iff)
  ultimately show ?thesis
    using g by (intro exI [of _ tenant] exI [of _ "x\<lparr>ox_uploads := t2\<rparr>"] exI [of _ p] exI [of _ sz]) simp
qed

lemma start_accepted:
  assumes "oci_startUpload save en rq tname img x = (x', upload_accepted tenant img uuid rng)" and "tracker_inv (ox_uploads x)"
    and "\<And>b. oc_uuid en = Inr b \<Longrightarrow> map_of (ut_uploads (ox_uploads x)) (newUUID b) = None" and "oq_digest rq = []"
  shows "ox_db x' = ox_db x \<and> ox_store x' = ox_store x \<and> tracker_inv (ox_uploads x') \<and> session_bytes (ox_uploads x') uuid = Some []"
proof -
  let ?r = "upload_accepted tenant img uuid rng"
  have st: "rs_Status ?r = 202" by (simp add: upload_accepted_def)
  obtain tn where t: "oci_write_access en rq tname (ox_db x) = Inr tn"
    using assms(1) st oci_guard_status(6) [of en rq tname "ox_db x"] by (fastforce simp: oci_startUpload_def split: sum.splits)
  obtain t1 b where bg: "upload_Begin (oc_uuid en) (oc_temp en) (oc_nanos en) (ox_uploads x) = (t1, b)" by (metis prod.exhaust)
  obtain u where u: "b = Inr u" "x' = x\<lparr>ox_uploads := t1\<rparr>" "?r = upload_accepted tn img u ''0-0''"
    using assms(1,4) t bg st upload_error_status [of en] by (cases b) (auto simp: oci_startUpload_def, metis)
  then have "u = uuid" by (simp add: upload_accepted_def)
  then show ?thesis using Begin_inv [OF assms(2) bg assms(3)] Begin_bytes bg u(1,2) by simp
qed

text \<open>
C2: A blob pushed is the blob pulled. A client opens an upload, sends any number of patches, each
accepted, and closes it with a last piece and a digest, answered with 201: then the digest is that of all the
bytes in order, and everybody who may read the tenant and whom the policy lets pass
gets exactly these bytes, under that digest.
\<close>

theorem push_pull_blob:
  assumes "oci_step\<^sup>*\<^sup>* (oci_boot tm) x" and "seq (db_blobs (ox_db x)) < 2 ^ 63 - 1"
    and "oci_startUpload (local_Save fault rnd) en1 rq1 tname img x = (x1, upload_accepted tenant img uuid rng)" and "oq_digest rq1 = []"
    and "\<And>b. oc_uuid en1 = Inr b \<Longrightarrow> map_of (ut_uploads (ox_uploads x)) (newUUID b) = None"
    and "run_patches tname img uuid ps x1 = Some x2" and "\<forall>(en, rq) \<in> set ps. oc_fault en = None"
    and "oci_putUpload (local_Save fault rnd) en3 rq3 tname img uuid x2 = (x3, r3)" and "rs_Status r3 = 201" and "oc_fault en3 = None"
    and content: "content = concat (map (\<lambda>(en, rq). concat (rd_chunks (oq_Body rq))) ps) @ body_of rq3"
  shows "oq_digest rq3 = digest_of content
    \<and> (\<exists>t. tenants_GetByName (ox_db x3) tname = Inr t \<and>
      (\<forall>en rq. oci_requireRead en rq t = Inr () \<longrightarrow> (\<forall>subj. \<not> IsBlocked (en_engine en subj ActionRead)) \<longrightarrow>
        (\<exists>n. oci_serveBlob local_Open en rq True tname img (digest_of content) (ox_db x3) (ox_store x3) =
          \<lparr>rs_Status = 200, rs_Headers = [(''Docker-Content-Digest'', digest_of content), (''Content-Type'', ''application/octet-stream''),
             (''Content-Length'', n)], rs_Body = Content content\<rparr>)))"
proof (intro conjI)
  have ok: "local.service_ok (ox_db x) (ox_store x)" "tracker_inv (ox_uploads x)"
    using oci_reachable_ok [OF assms(1)] by (simp_all add: local.oci_ok_def)
  have x1: "ox_db x1 = ox_db x \<and> ox_store x1 = ox_store x \<and> tracker_inv (ox_uploads x1) \<and> session_bytes (ox_uploads x1) uuid = Some []"
    by (rule start_accepted [OF assms(3) ok(2) assms(5,4)])
  have x2: "ox_db x2 = ox_db x1 \<and> ox_store x2 = ox_store x1 \<and> tracker_inv (ox_uploads x2)
      \<and> session_bytes (ox_uploads x2) uuid = Some ([] @ concat (map (\<lambda>(en, rq). concat (rd_chunks (oq_Body rq))) ps))"
    using x1 by (intro patches_accepted [OF assms(6) _ _ assms(7)]) simp_all
  obtain t y p sz where y: "tenants_GetByName (ox_db x2) tname = Inr t" "ox_db y = ox_db x2" "ox_store y = ox_store x2"
    "oq_digest rq3 = digest_of content" "file_bytes (ox_uploads y) p = content"
    "persist_upload (local_Save fault rnd) en3 t img p sz (digest_of content) y = (x3, r3)"
    using put_created [OF assms(8,9) _ _ assms(10)] x2 content by fastforce
  show "oq_digest rq3 = digest_of content" by (rule y(4))
  have s: "local.service_ok (ox_db y) (ox_store y)" "seq (db_blobs (ox_db y)) < 2 ^ 63 - 1" using ok(1) x1 x2 y(2,3) assms(2) by simp_all
  note pc = local.persist_created [OF s(1) y(6,5) assms(9) s(2)]
  obtain pkg bl where bl: "repoPackageLookup (ox_db x3) t img = Inr pkg" "repo_blob (ox_db x3) pkg (digest_of content) bl"
    "blob_HashSHA256 bl = hex_encode (sha256 content)" "local_Open (ox_store x3) (hex_encode (sha256 content)) = Inr content"
    using pc(2) by blast
  have t: "tenants_GetByName (ox_db x3) tname = Inr t" using y(1,2) tenants_GetByName_cong [OF pc(1)] by simp
  show "\<exists>t. tenants_GetByName (ox_db x3) tname = Inr t \<and>
      (\<forall>en rq. oci_requireRead en rq t = Inr () \<longrightarrow> (\<forall>subj. \<not> IsBlocked (en_engine en subj ActionRead)) \<longrightarrow>
        (\<exists>n. oci_serveBlob local_Open en rq True tname img (digest_of content) (ox_db x3) (ox_store x3) =
          \<lparr>rs_Status = 200, rs_Headers = [(''Docker-Content-Digest'', digest_of content), (''Content-Type'', ''application/octet-stream''),
             (''Content-Length'', n)], rs_Body = Content content\<rparr>))"
    using serveBlob_found [OF t _ ValidateDigest_digest_of bl(1,2), where get = local_Open and s = "ox_store x3" and c = content]
      bl(3,4) t by auto
qed

end
