(* ===== verification/Container_Tags.thy ===== *)
theory Container_Tags
  imports Container_Push
begin

text \<open>
  Manifests: pushing and pulling them by tag, the blobs they refer to, pushing a tag again, and deleting one.
\<close>

section \<open>Storing the version of a tag\<close>

lemma versionMeta_roundtrip:
  assumes "utf8_ok dg" and "utf8_ok mt"
  shows "versionMeta_of (versionMeta_json \<lparr>vm_Digest = dg, vm_MediaType = mt\<rparr>) = \<lparr>vm_Digest = dg, vm_MediaType = mt\<rparr>"
proof -
  let ?v = "JObject [(''digest'', JString dg), (''mediaType'', JString mt)]"
  have "utf8_ok ''digest''" "utf8_ok ''mediaType''"
    by (simp_all add: utf8_len_def utf8_class_def)
  then have "json_ok 10000 ?v" using assms by simp
  then have "json_Unmarshal (json_print ?v) = Some ?v" by (rule json_Unmarshal_print)
  moreover have "\<not> equal_fold ''mediaType'' ''digest''" "equal_fold s s" for s :: string
    by (simp_all add: equal_fold_def to_lower_def lower_char_def)
  ultimately show ?thesis
    by (simp add: versionMeta_of_def versionMeta_json_def decode_struct_def versionMeta_field_def Let_def apfst_def map_prod_def first_error_def)
qed

lemma utf8_ok_ascii: "\<forall>c \<in> set s. of_char c < (0x80 :: nat) \<Longrightarrow> utf8_ok s"
proof (induction s)
  case (Cons c s)
  then have "utf8_len (c # s) = 1" using utf8_len_1 [of c s] by simp
  then show ?case using Cons by simp
qed simp

lemma utf8_ok_digest: "utf8_ok (digest_of b)"
proof (rule utf8_ok_ascii)
  have "set (digest_of b) \<subseteq> set ''sha256:'' \<union> set ''0123456789abcdef''"
    unfolding digest_of_def HexToDigest_def set_append using hex_encode_chars [of "sha256 b"] by blast
  moreover have "\<forall>c \<in> set ''sha256:'' \<union> set ''0123456789abcdef''. of_char c < (0x80 :: nat)" by simp
  ultimately show "\<forall>c \<in> set (digest_of b). of_char c < (0x80 :: nat)" by blast
qed

lemma CreateVersion_metadata:
  assumes "CreateVersion now pid version meta d = (d', Inr ver)" and "meta \<noteq> []"
  shows "ver_MetadataJSON ver = meta"
proof -
  obtain tb where "insert_unique ver_key (mk_version (pid, version, meta, now)) (db_versions d) = Some (ver, tb)"
    using assms by (auto simp: CreateVersion_def Let_def split: option.splits if_splits)
  from version_rows.insert_SomeD(1) [OF this] show ?thesis by (simp add: mk_version_def)
qed

context digest_storage
begin

text \<open>What adding a file without properties does, when its bytes are stored.\<close>

lemma store_file_effect:
  assumes "service_ok d s" and "store_file save dg lr now info b ver d s = (d', s', r)" and "ci_VersionProperties info = []"
    and "r = Inr f \<or> r = Inl (ModelError e)"
  shows "get s' (hex_encode (sha256 (hb_bytes b))) = Inr (hb_bytes b)" and "db_properties d' = db_properties d"
    and "set (rows (db_blobs d)) \<subseteq> set (rows (db_blobs d'))" and "seq (db_blobs d') \<le> seq (db_blobs d) + 1"
proof -
  let ?p = "hex_encode (sha256 (hb_bytes b))"
  let ?bl = "\<lparr>blob_ID = 0, blob_Size = hb_Size b, blob_HashMD5 = hex_encode (dg_md5 dg (hb_bytes b)),
     blob_HashSHA1 = hex_encode (dg_sha1 dg (hb_bytes b)), blob_HashSHA256 = ?p,
     blob_HashSHA512 = hex_encode (dg_sha512 dg (hb_bytes b)), blob_CreatedUnix = 0\<rparr>"
  obtain s1 x where sv: "save ?p (hb_reader b) s = (s1, x)" by (metis prod.exhaust)
  obtain n where n: "x = Inr n" "s' = s1"
    using assms(2-4) sv by (cases x) (auto simp: store_file_def Let_def Sums_def set_properties_def split: prod.splits sum.splits)
  show "get s' ?p = Inr (hb_bytes b)" using save_get [OF digest_valid] sv n by (simp add: hb_reader_def)
  obtain d2 y where gb: "GetOrCreateBlob lr now ?bl d = (d2, y)" by (metis prod.exhaust)
  note t = GetOrCreateBlob_tables(5) [OF gb] GetOrCreateBlob_grows [OF gb] GetOrCreateBlob_seq [OF gb]
  have "db_properties d' = db_properties d2 \<and> db_blobs d' = db_blobs d2"
    using assms(2,3) sv n gb CreateFile_tables(4) CreateFile_blobs
    by (auto simp: store_file_def Let_def Sums_def set_properties_def split: prod.splits sum.splits) (metis fst_conv)+
  then show "db_properties d' = db_properties d" "set (rows (db_blobs d)) \<subseteq> set (rows (db_blobs d'))"
    "seq (db_blobs d') \<le> seq (db_blobs d) + 1" using t by simp_all
qed

text \<open>
  Adding a file to a version of a package that exists: the version that is there stays, a missing one is
  created with the given metadata.
\<close>

lemma ingest_version:
  assumes "service_ok d s" and "CreatePackageOrAddFileToExisting save dg lr now info b d s = (d', s', p, v, r)"
    and "ci_VersionProperties info = []" and "r = Inr f \<or> r = Inl (ModelError ErrDuplicatePackageFile)"
    and "GetPackageByLookup d (ci_TenantID info) (ci_PackageType info) (ci_lookup info) = Inr pkg"
    and "ci_VersionMetadataJSON info \<noteq> []"
  shows "db_packages d' = db_packages d \<and> db_tenants d' = db_tenants d \<and> db_properties d' = db_properties d"
    and "get s' (hex_encode (sha256 (hb_bytes b))) = Inr (hb_bytes b)"
    and "set (rows (db_blobs d)) \<subseteq> set (rows (db_blobs d'))" and "seq (db_blobs d') \<le> seq (db_blobs d) + 1"
    and "\<exists>ver. GetVersion d' (pkg_ID pkg) (ci_Version info) = Inr ver \<and>
      (GetVersion d (pkg_ID pkg) (ci_Version info) = Inr ver
       \<or> GetVersion d (pkg_ID pkg) (ci_Version info) = Inl ErrVersionNotExist \<and> ver_MetadataJSON ver = ci_VersionMetadataJSON info)"
proof -
  have cat: "catalog_ok d" using assms(1) by (simp add: service_ok_def)
  have pk: "ci_getOrCreatePackage lr now info d = (d, Inr pkg)"
    using assms(5) by (simp add: ci_getOrCreatePackage_eq GetOrCreatePackageWithLookup_def)
  let ?gv = "GetVersion d (pkg_ID pkg) (ci_Version info)"
  obtain d2 ver where ver: "store_file save dg lr now info b ver d2 s = (d', s', r)" "service_ok d2 s"
    "db_packages d2 = db_packages d" "db_tenants d2 = db_tenants d" "db_properties d2 = db_properties d" "db_blobs d2 = db_blobs d"
    "GetVersion d2 (pkg_ID pkg) (ci_Version info) = Inr ver"
    "?gv = Inr ver \<or> ?gv = Inl ErrVersionNotExist \<and> ver_MetadataJSON ver = ci_VersionMetadataJSON info"
  proof (cases ?gv)
    case (Inr ver)
    then show thesis
      using that [of ver d] assms(1,2,4) pk by (auto simp: CreatePackageOrAddFileToExisting_def split: if_splits prod.splits)
  next
    case (Inl e)
    obtain d2 y where cv: "CreateVersion now (pkg_ID pkg) (ci_Version info) (ci_VersionMetadataJSON info) d = (d2, y)"
      by (metis prod.exhaust)
    note tabs = CreateVersion_tables [OF cv]
    show thesis
    proof (cases y)
      case (Inr ver)
      have e: "e = ErrVersionNotExist" using Inl by (auto simp: GetVersion_def split: option.splits)
      have ok2: "service_ok d2 s"
        using assms(1) CreateVersion_ok [OF cat] CreateVersion_blobs cv by (intro service_ok_frame [OF assms(1)]) (metis fst_conv)+
      have "ver_MetadataJSON ver = ci_VersionMetadataJSON info"
        using cv Inr CreateVersion_metadata [OF _ assms(6)] by simp
      moreover have "GetVersion d2 (pkg_ID pkg) (ci_Version info) = Inr ver" using CreateVersion_found [OF cat] cv Inr by simp
      moreover have "store_file save dg lr now info b ver d2 s = (d', s', r)"
        using assms(2,4) pk Inl e cv Inr by (auto simp: CreatePackageOrAddFileToExisting_def split: if_splits prod.splits)
      moreover have "db_blobs d2 = db_blobs d" using CreateVersion_blobs cv by (metis fst_conv)
      ultimately show thesis using that [of ver d2] ok2 tabs Inl e by simp
    next
      case err: (Inl e')
      then have False
        using assms(2,4) pk Inl cv tabs
        by (auto simp: CreatePackageOrAddFileToExisting_def CreateVersion_def GetVersion_def Let_def split: if_splits prod.splits sum.splits option.splits)
      then show thesis ..
    qed
  qed
  note tabs = store_file_tables [OF ver(1)]
  have r: "r = Inr f \<or> r = Inl (ModelError ErrDuplicatePackageFile)" by (rule assms(4))
  note eff = store_file_effect [OF ver(2,1) assms(3) r]
  show "db_packages d' = db_packages d \<and> db_tenants d' = db_tenants d \<and> db_properties d' = db_properties d"
    "get s' (hex_encode (sha256 (hb_bytes b))) = Inr (hb_bytes b)"
    "set (rows (db_blobs d)) \<subseteq> set (rows (db_blobs d'))" "seq (db_blobs d') \<le> seq (db_blobs d) + 1"
    using tabs eff ver(3-6) by simp_all
  have "GetVersion d' = GetVersion d2" by (rule GetVersion_cong) (simp add: tabs)
  then show "\<exists>ver. GetVersion d' (pkg_ID pkg) (ci_Version info) = Inr ver \<and> (?gv = Inr ver
       \<or> ?gv = Inl ErrVersionNotExist \<and> ver_MetadataJSON ver = ci_VersionMetadataJSON info)"
    using ver(7,8) by auto
qed

section \<open>Committing a manifest\<close>

definition manifest_stored :: "db \<Rightarrow> 's \<Rightarrow> package \<Rightarrow> string \<Rightarrow> string \<Rightarrow> bool" where
  "manifest_stored d s pkg body mt \<longleftrightarrow>
     propLookup d (pkg_ID pkg) (propManifest @ digest_of body) \<noteq> None
   \<and> propLookup d (pkg_ID pkg) (propMediaType @ digest_of body) = Some mt
   \<and> (\<exists>bl. repo_blob d pkg (digest_of body) bl \<and> get s (blob_HashSHA256 bl) = Inr body)"

lemma commit_created:
  assumes "service_ok d s" and "repoPackageLookup d tenant img = Inr pkg"
    and "commit_manifest save en rq tenant img reference body m pkg d s = (d', s', r)" and "rs_Status r = 201"
    and "seq (db_blobs d) < 2 ^ 63 - 2"
  shows "r = manifest_created tenant img (digest_of body)"
    and "db_tenants d' = db_tenants d \<and> repoPackageLookup d' tenant img = Inr pkg"
    and "manifest_stored d' s' pkg body (manifest_media_type rq m)"
    and "GetProperty d' PropertyRefPackage (pkg_ID pkg) (propBlob @ dg) =
      (if dg = digest_of body then GetProperty d' PropertyRefPackage (pkg_ID pkg) (propBlob @ digest_of body)
       else GetProperty d PropertyRefPackage (pkg_ID pkg) (propBlob @ dg))"
    and "\<not> is_digest_ref reference \<Longrightarrow> \<exists>ver. GetVersion d' (pkg_ID pkg) reference = Inr ver \<and>
      (GetVersion d (pkg_ID pkg) reference = Inr ver \<or>
       GetVersion d (pkg_ID pkg) reference = Inl ErrVersionNotExist \<and>
       ver_MetadataJSON ver = versionMeta_json \<lparr>vm_Digest = digest_of body, vm_MediaType = manifest_media_type rq m\<rparr>)"
    and "seq (db_blobs d') \<le> seq (db_blobs d) + 2"
proof -
  let ?dg = "digest_of body" let ?mt = "manifest_media_type rq m" let ?p = "hex_encode (sha256 body)"
  obtain d1 s1 y where st: "storeBytes save en body d s = (d1, s1, y)" by (metis prod.exhaust)
  note sf = st [unfolded storeBytes_staged]
  note tab = storeStagedFile_tables [OF sf] and sk = storeStagedFile_ok [OF assms(1) sf]
  obtain bl where bl: "y = Inr bl" using assms(3,4) st by (cases y) (auto simp: commit_manifest_def)
  have b: "bl \<in> set (rows (db_blobs d1))" "blob_HashSHA256 bl = ?p" "get s1 ?p = Inr body" using sk(2) [OF bl] by simp_all
  have dg: "HexToDigest (blob_HashSHA256 bl) = ?dg" using b(2) by (simp add: digest_of_def)
  let ?d2 = "record_manifest pkg ?dg bl ?mt d1"
  have t2: "db_packages ?d2 = db_packages d" "db_versions ?d2 = db_versions d" "db_tenants ?d2 = db_tenants d" "db_blobs ?d2 = db_blobs d1"
    using tab by (simp_all add: record_manifest_def)
  have g2: "GetProperty ?d2 PropertyRefPackage (pkg_ID pkg) (propManifest @ ?dg) = Some (show_int (blob_ID bl))"
    "GetProperty ?d2 PropertyRefPackage (pkg_ID pkg) (propMediaType @ ?dg) = Some ?mt"
    "GetProperty ?d2 PropertyRefPackage (pkg_ID pkg) (propBlob @ dg') =
       (if dg' = ?dg then Some (show_int (blob_ID bl)) else GetProperty d PropertyRefPackage (pkg_ID pkg) (propBlob @ dg'))" for dg'
    using GetProperty_cong [OF tab(4)] by (simp_all add: record_manifest_def)
  have ok2: "service_ok ?d2 s1" by (rule record_manifest_ok [OF sk(1)])
  have find2: "repoPackageLookup ?d2 tenant img = Inr pkg" using repoPackageLookup_cong [OF t2(1)] assms(2) by simp
  have out: "(is_digest_ref reference \<and> d' = ?d2 \<and> s' = s1 \<and> r = manifest_created tenant img ?dg) \<or>
     (\<not> is_digest_ref reference \<and> r = manifest_created tenant img ?dg \<and> (\<exists>p v z f.
        CreatePackageOrAddFileToExisting save (oc_dg en) (oc_lr en) (en_now en) (manifest_info tenant img reference ?dg ?mt)
          \<lparr>hb_bytes = body\<rparr> ?d2 s1 = (d', s', p, v, z) \<and> (z = Inr f \<or> z = Inl (ModelError ErrDuplicatePackageFile))))"
    using assms(3,4) st bl dg
    by (auto simp: commit_manifest_def Let_def manifest_created_def split: if_splits prod.splits sum.splits)
  then show "r = manifest_created tenant img ?dg" by auto
  have final: "service_ok d' s' \<and> db_packages d' = db_packages d \<and> db_tenants d' = db_tenants d \<and> db_properties d' = db_properties ?d2
      \<and> set (rows (db_blobs d1)) \<subseteq> set (rows (db_blobs d')) \<and> seq (db_blobs d') \<le> seq (db_blobs d) + 2 \<and> get s' ?p = Inr body
      \<and> (\<not> is_digest_ref reference \<longrightarrow> (\<exists>ver. GetVersion d' (pkg_ID pkg) reference = Inr ver \<and>
          (GetVersion d (pkg_ID pkg) reference = Inr ver \<or> GetVersion d (pkg_ID pkg) reference = Inl ErrVersionNotExist
           \<and> ver_MetadataJSON ver = versionMeta_json \<lparr>vm_Digest = ?dg, vm_MediaType = ?mt\<rparr>)))"
  proof (cases "is_digest_ref reference")
    case True
    then have "d' = ?d2" "s' = s1" using out by simp_all
    then show ?thesis using ok2 t2 b(3) tab(6) True by simp
  next
    case False
    then obtain p v z f where cp: "CreatePackageOrAddFileToExisting save (oc_dg en) (oc_lr en) (en_now en) (manifest_info tenant img reference ?dg ?mt)
          \<lparr>hb_bytes = body\<rparr> ?d2 s1 = (d', s', p, v, z)" "z = Inr f \<or> z = Inl (ModelError ErrDuplicatePackageFile)"
      using out by auto
    let ?i = "manifest_info tenant img reference ?dg ?mt"
    have pre: "ci_VersionProperties ?i = []" "ci_VersionMetadataJSON ?i \<noteq> []"
      "GetPackageByLookup ?d2 (ci_TenantID ?i) (ci_PackageType ?i) (ci_lookup ?i) = Inr pkg"
      using find2 by (auto simp: manifest_info_def versionMeta_json_def ci_lookup_def repoPackageLookup_def to_lower_def)
    note iv = ingest_version [OF ok2 cp(1) pre(1) cp(2) pre(3,2)]
    have "GetVersion ?d2 = GetVersion d" by (rule GetVersion_cong [OF t2(2)])
    then show ?thesis
      using iv t2 tab(6) ingest_ok(1) [OF ok2 disjI2 [OF cp(1)]] by (simp add: manifest_info_def)
  qed
  show "db_tenants d' = db_tenants d \<and> repoPackageLookup d' tenant img = Inr pkg"
    using final repoPackageLookup_cong [of d' d] assms(2) by simp
  have gp: "GetProperty d' = GetProperty ?d2" by (rule GetProperty_cong) (simp add: final)
  have "repo_blob d' pkg ?dg bl"
    using final b(1) assms(5) gp g2(3) [of ?dg] by (intro repo_blobI) (auto simp: service_ok_def)
  then show "manifest_stored d' s' pkg body ?mt"
    using final b(2) gp g2(1,2) unfolding manifest_stored_def propLookup_def by auto
  show "GetProperty d' PropertyRefPackage (pkg_ID pkg) (propBlob @ dg) =
      (if dg = ?dg then GetProperty d' PropertyRefPackage (pkg_ID pkg) (propBlob @ ?dg)
       else GetProperty d PropertyRefPackage (pkg_ID pkg) (propBlob @ dg))"
    using gp g2(3) by simp
  show "seq (db_blobs d') \<le> seq (db_blobs d) + 2" using final by simp
  show "\<not> is_digest_ref reference \<Longrightarrow> \<exists>ver. GetVersion d' (pkg_ID pkg) reference = Inr ver \<and>
      (GetVersion d (pkg_ID pkg) reference = Inr ver \<or>
       GetVersion d (pkg_ID pkg) reference = Inl ErrVersionNotExist \<and>
       ver_MetadataJSON ver = versionMeta_json \<lparr>vm_Digest = ?dg, vm_MediaType = ?mt\<rparr>)"
    using final by blast
qed

end

text \<open>Serving a manifest that is stored.\<close>

lemma serveManifest_found:
  assumes "tenants_GetByName d tname = Inr tenant" and "oci_requireRead en rq tenant = Inr ()"
    and "repoPackageLookup d tenant img = Inr pkg" and "resolveManifestReference d pkg reference = Some (dg, mt, ver)"
    and "ver = None \<or> \<not> IsBlocked (en_engine en (oci_subjectFor (en_now en) tenant pkg ver ''manifest'') ActionRead)"
    and "repo_blob d pkg dg bl" and "get s (blob_HashSHA256 bl) = Inr c"
  shows "oci_serveManifest get en rq True tname img reference d s =
    \<lparr>rs_Status = 200, rs_Headers = [(''Docker-Content-Digest'', dg), (''Content-Type'', mt), (''Content-Length'', show_int (blob_Size bl))],
     rs_Body = Content c\<rparr>"
proof -
  have t: "oci_tenantFromPath en d tname = Inr tenant" using assms(1) by simp
  show ?thesis
    using assms(2-7) by (auto simp: oci_serveManifest_def t repo_blob_def oci_checkRead_def Let_def serve_bytes_def)
qed


section \<open>Properties\<close>

text \<open>A repository that did not exist has no tags.\<close>

lemma new_repo_untagged:
  assumes "catalog_ok d" and "repoPackage en tenant img d = (d1, Inr pkg)" and "repoPackageLookup d tenant img \<noteq> Inr pkg"
  shows "GetVersion d1 (pkg_ID pkg) reference = Inl ErrVersionNotExist"
proof -
  have ok1: "catalog_ok d1" using GetOrCreatePackageWithLookup_ok [OF assms(1)] assms(2) by (metis fst_conv repoPackage_def)
  have kept: "packages_kept d d1" using packages_kept_create assms(2) by (metis fst_conv repoPackage_def)
  have "repoPackageLookup d1 tenant img = Inr pkg" by (rule repoPackage_found [OF assms(1,2)])
  then have "pkg \<in> set (rows (db_packages d1))" "pkg_key pkg = (ten_ID tenant, TypeContainer, to_lower img)"
    using GetPackageByLookup_iff [OF catalog_okD(1) [OF ok1]] by (simp_all add: repoPackageLookup_def)
  moreover from this(2) have "pkg \<notin> set (rows (db_packages d))"
    using assms(3) GetPackageByLookup_iff [OF catalog_okD(1) [OF assms(1)]] by (simp add: repoPackageLookup_def)
  ultimately have new: "seq (db_packages d) < pkg_ID pkg" using kept by (auto simp: packages_kept_def)
  show ?thesis
  proof (cases "GetVersion d1 (pkg_ID pkg) reference")
    case (Inl e)
    then show ?thesis by (auto simp: GetVersion_def split: option.splits)
  next
    case (Inr v)
    then have "v \<in> set (rows (db_versions d))" "ver_PackageID v = pkg_ID pkg"
      using GetVersion_iff [OF catalog_okD(2) [OF ok1]] repoPackage_tables(2) [OF assms(2)] by (simp_all add: ver_key_def)
    then have "package_exists d (pkg_ID pkg)" using assms(1) by (metis catalog_ok_def)
    then have "pkg_ID pkg \<le> seq (db_packages d)"
      using catalog_okD(1) [OF assms(1)] by (auto simp: package_exists_def table_ok_def)
    with new show ?thesis by simp
  qed
qed

text \<open>A push that was answered with 201 has committed its manifest to the repository.\<close>

lemma put_commit:
  assumes "local.service_ok d s" and "oci_putManifest (local_Save fault rnd) en rq tname img reference d s = (d', s', r)" and "rs_Status r = 201"
  obtains tenant body m pkg d1 where "tenants_GetByName d tname = Inr tenant" "tenants_GetByName d1 tname = Inr tenant"
    "ReadAll_limit (4 * 2 ^ 20) (oq_Body rq) = (body, None)" "ParseManifest (oc_json_error en) body = Inr m"
    "local.service_ok d1 s" "repoPackageLookup d1 tenant img = Inr pkg" "check_references d1 pkg (ReferencedDigests m) = Inr ()"
    "commit_manifest (local_Save fault rnd) en rq tenant img reference body m pkg d1 s = (d', s', r)"
    "seq (db_blobs d1) = seq (db_blobs d)"
    "repoPackageLookup d tenant img = Inr pkg \<and> d1 = d \<or>
     (\<forall>p. repoPackageLookup d tenant img \<noteq> Inr p) \<and> GetVersion d1 (pkg_ID pkg) reference = Inl ErrVersionNotExist"
  using assms(2)
proof (cases rule: oci_putManifest_cases)
  case (commit tenant body m pkg d1)
  have cat: "catalog_ok d" using assms(1) by (simp add: local.service_ok_def)
  note tab = repoPackage_tables [OF commit(5)]
  show thesis
  proof (rule that [OF commit(1) _ commit(3,4) _ _ commit(6,7)])
    show "tenants_GetByName d1 tname = Inr tenant" using tenants_GetByName_cong [OF tab(1)] commit(1) by simp
    show "local.service_ok d1 s" by (rule local.repoPackage_ok [OF assms(1) commit(5)])
    show "repoPackageLookup d1 tenant img = Inr pkg" by (rule repoPackage_found [OF cat commit(5)])
    show "seq (db_blobs d1) = seq (db_blobs d)" by (simp add: tab)
    show "repoPackageLookup d tenant img = Inr pkg \<and> d1 = d \<or>
     (\<forall>p. repoPackageLookup d tenant img \<noteq> Inr p) \<and> GetVersion d1 (pkg_ID pkg) reference = Inl ErrVersionNotExist"
    proof (cases "repoPackageLookup d tenant img")
      case (Inr p)
      then show ?thesis using repoPackage_existing [OF Inr, of en] commit(5) by simp
    next
      case (Inl e)
      then show ?thesis using new_repo_untagged [OF cat commit(5)] by simp
    qed
  qed
qed (use assms(3) in simp_all)



text \<open>
C12: A manifest is only taken when everything it refers to is there: after a push answered with 201 every
digest in the manifest sent - configuration, layers, the manifests of an index - is a valid digest that stands for a
blob of this repository.
\<close>

theorem pushed_manifest_closed:
  assumes "oci_step\<^sup>*\<^sup>* (oci_boot tm) x" and "seq (db_blobs (ox_db x)) < 2 ^ 63 - 2"
    and "oci_putManifest (local_Save fault rnd) en rq tname img reference (ox_db x) (ox_store x) = (d', s', r)" and "rs_Status r = 201"
  shows "\<exists>t pkg body m. tenants_GetByName d' tname = Inr t \<and> repoPackageLookup d' t img = Inr pkg
    \<and> ReadAll_limit (4 * 2 ^ 20) (oq_Body rq) = (body, None) \<and> ParseManifest (oc_json_error en) body = Inr m
    \<and> (\<forall>dg \<in> set (ReferencedDigests m). ValidateDigest dg \<and> (\<exists>i. lookupBlobID d' (pkg_ID pkg) dg = Inr (Some i)))"
proof -
  have ok: "local.service_ok (ox_db x) (ox_store x)" using oci_reachable_ok [OF assms(1)] by (simp add: local.oci_ok_def)
  obtain t body m pkg d1 where c: "tenants_GetByName d1 tname = Inr t" "ReadAll_limit (4 * 2 ^ 20) (oq_Body rq) = (body, None)"
    "ParseManifest (oc_json_error en) body = Inr m"
    "local.service_ok d1 (ox_store x)" "repoPackageLookup d1 t img = Inr pkg" "check_references d1 pkg (ReferencedDigests m) = Inr ()"
    "commit_manifest (local_Save fault rnd) en rq t img reference body m pkg d1 (ox_store x) = (d', s', r)"
    "seq (db_blobs d1) = seq (db_blobs (ox_db x))"
    by (rule put_commit [OF ok assms(3,4)])
  have sq: "seq (db_blobs d1) < 2 ^ 63 - 2" using c(8) assms(2) by simp
  note cc = local.commit_created [OF c(4,5,7) assms(4) sq]
  have "ValidateDigest dg \<and> (\<exists>i. lookupBlobID d1 (pkg_ID pkg) dg = Inr (Some i))" if "dg \<in> set dgs" "check_references d1 pkg dgs = Inr ()" for dg dgs
    using that by (induction dgs) (auto split: if_splits sum.splits option.splits)
  moreover have "\<exists>i. lookupBlobID d' (pkg_ID pkg) dg = Inr (Some i)" if "lookupBlobID d1 (pkg_ID pkg) dg = Inr (Some i)" for dg i
    using that cc(3) cc(4) [of dg] by (cases "dg = digest_of body") (auto simp: local.manifest_stored_def repo_blob_def lookupBlobID_def)
  ultimately have "\<forall>dg \<in> set (ReferencedDigests m). ValidateDigest dg \<and> (\<exists>i. lookupBlobID d' (pkg_ID pkg) dg = Inr (Some i))"
    using c(6) by blast
  moreover have "tenants_GetByName d' tname = Inr t" using c(1) cc(2) tenants_GetByName_cong [of d' d1] by simp
  ultimately show ?thesis using c(2,3) cc(2) by blast
qed

text \<open>
  Pushing a tag again does not move it. The second push is answered with 201 and names the digest of the new
manifest, but the tag goes on standing for the digest and media type it stood for before.
\<close>

theorem retag_keeps_old:
  assumes "oci_step\<^sup>*\<^sup>* (oci_boot tm) x" and "seq (db_blobs (ox_db x)) < 2 ^ 63 - 2"
    and "oci_putManifest (local_Save fault rnd) en rq tname img reference (ox_db x) (ox_store x) = (d', s', r)" and "rs_Status r = 201"
    and "\<not> is_digest_ref reference" and "tenants_GetByName (ox_db x) tname = Inr t"
    and "repoPackageLookup (ox_db x) t img = Inr pkg" and "GetVersion (ox_db x) (pkg_ID pkg) reference = Inr ver"
  shows "r = manifest_created t img (digest_of (fst (ReadAll_limit (4 * 2 ^ 20) (oq_Body rq))))
    \<and> resolveManifestReference d' pkg reference = resolveManifestReference (ox_db x) pkg reference"
proof (intro conjI)
  have ok: "local.service_ok (ox_db x) (ox_store x)" using oci_reachable_ok [OF assms(1)] by (simp add: local.oci_ok_def)
  obtain t' body m pkg' d1 where c: "tenants_GetByName (ox_db x) tname = Inr t'" "ReadAll_limit (4 * 2 ^ 20) (oq_Body rq) = (body, None)"
    "local.service_ok d1 (ox_store x)" "repoPackageLookup d1 t' img = Inr pkg'"
    "commit_manifest (local_Save fault rnd) en rq t' img reference body m pkg' d1 (ox_store x) = (d', s', r)"
    "seq (db_blobs d1) = seq (db_blobs (ox_db x))"
    "repoPackageLookup (ox_db x) t' img = Inr pkg' \<and> d1 = ox_db x \<or>
     (\<forall>p. repoPackageLookup (ox_db x) t' img \<noteq> Inr p) \<and> GetVersion d1 (pkg_ID pkg') reference = Inl ErrVersionNotExist"
    by (rule put_commit [OF ok assms(3,4)])
  have same: "t' = t" "d1 = ox_db x" "pkg' = pkg" using c(1,7) assms(6,7) by auto
  have sq: "seq (db_blobs d1) < 2 ^ 63 - 2" using c(6) assms(2) by simp
  note cc = local.commit_created [OF c(3,4,5) assms(4) sq]
  show "r = manifest_created t img (digest_of (fst (ReadAll_limit (4 * 2 ^ 20) (oq_Body rq))))"
    using cc(1) c(2) same by simp
  have "GetVersion d' (pkg_ID pkg) reference = GetVersion (ox_db x) (pkg_ID pkg) reference"
    using cc(5) [OF assms(5)] same assms(8) by auto
  then show "resolveManifestReference d' pkg reference = resolveManifestReference (ox_db x) pkg reference"
    using assms(5) by (simp add: resolveManifestReference_def)
qed

text \<open>
  Deleting a tag deletes nothing: the request is answered with 202, and every later pull of any manifest or
blob of any repository is answered as before. All it leaves is a property nothing reads.
\<close>

theorem deleted_tag_served:
  assumes "oci_deleteManifest en rq tname img reference d = (d', reply 202 NoBody)" and "\<not> is_digest_ref reference"
  shows "oci_serveManifest get en' rq' wb tname' img' reference' d' s = oci_serveManifest get en' rq' wb tname' img' reference' d s
    \<and> oci_serveBlob get en' rq' wb tname' img' dg d' s = oci_serveBlob get en' rq' wb tname' img' dg d s"
proof (intro conjI)
  let ?g = "bind_result (oci_tenantFromPath en d tname) (\<lambda>tenant. bind_result (oci_requireWrite en rq tenant) (\<lambda>_.
      (case repoPackageLookup d tenant img of
         Inl e \<Rightarrow> Inl (writeError 404 ''NAME_UNKNOWN'' (''repository '' @ go_quote img @ '' unknown''))
       | Inr pkg \<Rightarrow> Inr pkg)))"
  have no: "rs_Status r \<noteq> 202" if "?g = Inl r" for r
    using that oci_guard_status(1) [of en d tname r] oci_guard_status(3) [of en rq _ r]
    by (auto simp: bind_result_Inl_iff split: sum.splits) (metis sum.exhaust)
  obtain pkg where d': "d' = set_package_property pkg (''container.deletedtag.'' @ reference) ''1'' d"
  proof (cases ?g)
    case (Inl r)
    then have "r = reply 202 NoBody" using assms(1) by (simp add: oci_deleteManifest_def)
    then show thesis using no [OF Inl] by simp
  next
    case (Inr pkg)
    then show thesis using assms by (intro that [of pkg]) (simp add: oci_deleteManifest_def)
  qed
  define key where "key = ''container.deletedtag.'' @ reference"
  have k: "propManifest @ a \<noteq> key" "propMediaType @ a \<noteq> key" "propBlob @ a \<noteq> key" for a
    by (simp_all only: key_def prop_names not_False_eq_True)
  note d' = d' [folded key_def]
  have t: "oci_tenantFromPath en' d' = oci_tenantFromPath en' d" "repoPackageLookup d' = repoPackageLookup d" "GetVersion d' = GetVersion d"
    "GetBlobByID d' = GetBlobByID d"
    using d' tenants_GetByName_cong [of d' d] repoPackageLookup_cong [of d' d] GetVersion_cong [of d' d]
    by (simp_all add: fun_eq_iff oci_tenantFromPath_def GetBlobByID_def)
  have p: "propLookup d' i (propManifest @ a) = propLookup d i (propManifest @ a)"
    "propLookup d' i (propMediaType @ a) = propLookup d i (propMediaType @ a)" "lookupBlobID d' = lookupBlobID d" for i a
    using d' k by (simp_all add: propLookup_def lookupBlobID_def fun_eq_iff)
  have r: "resolveManifestReference d' = resolveManifestReference d"
    by (intro ext) (simp only: resolveManifestReference_def p t)
  show "oci_serveManifest get en' rq' wb tname' img' reference' d' s = oci_serveManifest get en' rq' wb tname' img' reference' d s"
    by (simp only: oci_serveManifest_def t p r)
  show "oci_serveBlob get en' rq' wb tname' img' dg d' s = oci_serveBlob get en' rq' wb tname' img' dg d s"
    by (simp only: oci_serveBlob_def t p)
qed

end
