(* ===== verification/Container_Live.thy ===== *)
theory Container_Live
  imports Container_Tags
begin

text \<open>
  Which pushes go through, and the sample pushes that show the hypotheses of the properties of
  the registry can hold.
\<close>

section \<open>A valid push goes through\<close>

lemma storeBytes_succeeds:
  assumes "catalog_ok d"
  shows "\<exists>d' s' bl. storeBytes (local_Save None rnd) en body d s = (d', s', Inr bl)"
proof -
  obtain s1 where sv: "local_Save None rnd (hex_encode (sha256 body)) (bytes_reader body) s = (s1, Inr (length body))"
    unfolding bytes_reader_def using sample_save [of rnd body s] by blast
  let ?b = "blob_of_bytes (oc_dg en) body (int (length body)) (hex_encode (sha256 body))"
  obtain d1 r where gb: "GetOrCreateBlob (oc_lr en) (en_now en) ?b d = (d1, r)" by (metis prod.exhaust)
  obtain bl where "r = Inr bl" using GetOrCreateBlob_cases(2) [OF assms gb] by blast
  then show ?thesis using sv gb by (simp add: storeBytes_def Let_def)
qed

lemma repoPackage_succeeds:
  assumes "catalog_ok d" and "tenant_exists d (ten_ID tenant)"
  shows "\<exists>d' pkg. repoPackage en tenant img d = (d', Inr pkg)"
proof (cases "repoPackageLookup d tenant img")
  case (Inr pkg)
  then show ?thesis using repoPackage_existing by blast
next
  case (Inl e)
  let ?k = "(ten_ID tenant, TypeContainer, to_lower img)"
  have e: "e = ErrPackageNotExist" using Inl by (auto simp: repoPackageLookup_def GetPackageByLookup_def split: option.splits)
  have "insert_unique pkg_key (mk_package (ten_ID tenant, TypeContainer, to_lower img, to_lower img, en_now en, CreatedViaUploaded))
     (db_packages d) \<noteq> None"
  proof
    assume "insert_unique pkg_key (mk_package (ten_ID tenant, TypeContainer, to_lower img, to_lower img, en_now en, CreatedViaUploaded))
     (db_packages d) = None"
    then obtain p where "p \<in> set (rows (db_packages d))" "pkg_key p = ?k"
      unfolding package_rows.insert_None_iff by (auto simp: mk_package_def pkg_key_def)
    then have "GetPackageByLookup d (ten_ID tenant) TypeContainer (to_lower img) = Inr p"
      using GetPackageByLookup_iff [OF catalog_okD(1) [OF assms(1)]] by simp
    then show False using Inl by (simp add: repoPackageLookup_def)
  qed
  then show ?thesis
    using Inl e assms(2)
    by (auto simp: repoPackage_def repoPackageLookup_def GetOrCreatePackageWithLookup_def insert_package_def Let_def
        CreatedVia_Valid_def CreatedViaUploaded_def)
qed

lemma persist_succeeds:
  assumes "local.service_ok (ox_db x) (ox_store x)" and "tenant_exists (ox_db x) (ten_ID tenant)"
    and "file_bytes (ox_uploads x) p = b"
  shows "rs_Status (snd (persist_upload (local_Save None rnd) en tenant img p sz (digest_of b) x)) = 201"
proof -
  have cat: "catalog_ok (ox_db x)" using assms(1) by (simp add: local.service_ok_def)
  obtain s1 where sv: "local_Save None rnd (hex_encode (sha256 b)) (bytes_reader b) (ox_store x) = (s1, Inr (length b))"
    unfolding bytes_reader_def using sample_save [of rnd b "ox_store x"] by blast
  let ?b = "blob_of_bytes (oc_dg en) b sz (hex_encode (sha256 b))"
  obtain d1 r where gb: "GetOrCreateBlob (oc_lr en) (en_now en) ?b (ox_db x) = (d1, r)" by (metis prod.exhaust)
  obtain bl where bl: "r = Inr bl" using GetOrCreateBlob_cases(2) [OF cat gb] by blast
  have "catalog_ok d1" using GetOrCreateBlob_ok [OF cat] gb by (metis fst_conv)
  moreover have "tenant_exists d1 (ten_ID tenant)" using assms(2) GetOrCreateBlob_tables(3) [OF gb] by (simp add: tenant_exists_def)
  ultimately obtain d2 pkg where "repoPackage en tenant img d1 = (d2, Inr pkg)" using repoPackage_succeeds by blast
  then show ?thesis
    using sv gb bl assms(3) by (simp add: persist_upload_def storeStagedFile_def Let_def digest_of_def blob_created_def)
qed

lemma store_file_succeeds:
  assumes "catalog_ok d" and "ci_VersionProperties info = []" and "version_exists d (ver_ID ver)"
  shows "\<exists>d' s' r. store_file (local_Save None rnd) dg lr now info b ver d s = (d', s', r)
    \<and> ((\<exists>f. r = Inr f) \<or> r = Inl (ModelError ErrDuplicatePackageFile))"
proof -
  let ?bl = "\<lparr>blob_ID = 0, blob_Size = hb_Size b, blob_HashMD5 = hex_encode (dg_md5 dg (hb_bytes b)),
     blob_HashSHA1 = hex_encode (dg_sha1 dg (hb_bytes b)), blob_HashSHA256 = hex_encode (sha256 (hb_bytes b)),
     blob_HashSHA512 = hex_encode (dg_sha512 dg (hb_bytes b)), blob_CreatedUnix = 0\<rparr>"
  obtain s1 where sv: "local_Save None rnd (hex_encode (sha256 (hb_bytes b))) (hb_reader b) s = (s1, Inr (length (hb_bytes b)))"
    unfolding hb_reader_def using sample_save [of rnd "hb_bytes b" s] by blast
  obtain d2 y where gb: "GetOrCreateBlob lr now ?bl d = (d2, y)" by (metis prod.exhaust)
  obtain bl where bl: "y = Inr bl" "bl \<in> set (rows (db_blobs d2))" using GetOrCreateBlob_cases(2) [OF assms(1) gb] by blast
  let ?f = "\<lparr>file_ID = 0, file_VersionID = ver_ID ver, file_BlobID = blob_ID bl, file_Name = ci_Filename info,
     file_LowerName = [], file_IsLead = ci_IsLead info, file_CreatedUnix = 0\<rparr>"
  have ex: "version_exists d2 (ver_ID ver)" "blob_exists d2 (blob_ID bl)"
    using assms(3) GetOrCreateBlob_tables(2) [OF gb] bl(2) by (simp_all add: version_exists_def blob_exists_def)
  obtain d3 z where cf: "CreateFile now ?f d2 = (d3, z)" by (metis prod.exhaust)
  have "(\<exists>f. z = Inr f) \<or> z = Inl ErrDuplicatePackageFile"
    using cf ex by (auto simp: CreateFile_def split: option.splits if_splits)
  then show ?thesis
    using sv gb bl(1) cf assms(2) by (auto simp: store_file_def Let_def Sums_def set_properties_def)
qed

lemma add_file_succeeds:
  assumes "catalog_ok d" and "ci_TenantID info \<noteq> 0" and "ci_VersionProperties info = []"
    and "GetPackageByLookup d (ci_TenantID info) (ci_PackageType info) (ci_lookup info) = Inr pkg"
  shows "\<exists>d' s' p v r. CreatePackageOrAddFileToExisting (local_Save None rnd) dg lr now info b d s = (d', s', p, v, r)
    \<and> ((\<exists>f. r = Inr f) \<or> r = Inl (ModelError ErrDuplicatePackageFile))"
proof -
  have pk: "ci_getOrCreatePackage lr now info d = (d, Inr pkg)"
    using assms(4) by (simp add: ci_getOrCreatePackage_eq GetOrCreatePackageWithLookup_def)
  have pex: "package_exists d (pkg_ID pkg)"
    using assms(4) GetPackageByLookup_iff [OF catalog_okD(1) [OF assms(1)]] by (auto simp: package_exists_def)
  show ?thesis
  proof (cases "GetVersion d (pkg_ID pkg) (ci_Version info)")
    case (Inr ver)
    then have "version_exists d (ver_ID ver)"
      using GetVersion_iff [OF catalog_okD(2) [OF assms(1)]] by (auto simp: version_exists_def)
    from store_file_succeeds [OF assms(1,3) this, of rnd dg lr now b s] show ?thesis
      using Inr pk assms(2) by (fastforce simp: CreatePackageOrAddFileToExisting_def)
  next
    case (Inl e)
    have e: "e = ErrVersionNotExist" using Inl by (auto simp: GetVersion_def split: option.splits)
    let ?m = "ci_VersionMetadataJSON info"
    obtain d2 y where cv: "CreateVersion now (pkg_ID pkg) (ci_Version info) ?m d = (d2, y)" by (metis prod.exhaust)
    have ok2: "catalog_ok d2" using CreateVersion_ok [OF assms(1)] cv by (metis fst_conv)
    have "y \<noteq> Inl ErrDuplicatePackageVersion"
    proof
      assume dup: "y = Inl ErrDuplicatePackageVersion"
      let ?n = "if ?m = [] then ''{}'' else ?m"
      have "insert_unique ver_key (mk_version (pkg_ID pkg, ci_Version info, ?n, now)) (db_versions d) = None"
        using cv dup by (auto simp: CreateVersion_def Let_def split: option.splits if_splits)
      then obtain v where "v \<in> set (rows (db_versions d))" "ver_key v = (pkg_ID pkg, to_lower (ci_Version info))"
        unfolding version_rows.insert_None_iff by (auto simp: mk_version_def ver_key_def)
      then show False using Inl GetVersion_iff [OF catalog_okD(2) [OF assms(1)], of "pkg_ID pkg" "ci_Version info" v] by simp
    qed
    then obtain ver where ver: "y = Inr ver"
      using cv pex by (auto simp: CreateVersion_def Let_def split: option.splits if_splits)
    have "version_exists d2 (ver_ID ver)"
      using CreateVersion_found [OF assms(1)] cv ver GetVersion_iff [OF catalog_okD(2) [OF ok2]] by (force simp: version_exists_def)
    from store_file_succeeds [OF ok2 assms(3) this, of rnd dg lr now b s] show ?thesis
      using Inl e cv ver pk assms(2) by (fastforce simp: CreatePackageOrAddFileToExisting_def)
  qed
qed

lemma commit_succeeds:
  assumes "local.service_ok d s" and "ten_ID tenant \<noteq> 0" and "repoPackageLookup d tenant img = Inr pkg"
  shows "\<exists>d' s'. commit_manifest (local_Save None rnd) en rq tenant img reference body m pkg d s
    = (d', s', manifest_created tenant img (digest_of body))"
proof -
  have cat: "catalog_ok d" using assms(1) by (simp add: local.service_ok_def)
  obtain d1 s1 bl where st: "storeBytes (local_Save None rnd) en body d s = (d1, s1, Inr bl)"
    using storeBytes_succeeds [OF cat] by blast
  note sf = st [unfolded local.storeBytes_staged]
  have dg: "HexToDigest (blob_HashSHA256 bl) = digest_of body"
    using local.storeStagedFile_ok(2) [OF assms(1) sf] by (simp add: digest_of_def)
  let ?mt = "manifest_media_type rq m"
  let ?d2 = "record_manifest pkg (digest_of body) bl ?mt d1" let ?i = "manifest_info tenant img reference (digest_of body) ?mt"
  have cat2: "catalog_ok ?d2"
    using local.record_manifest_ok [OF local.storeStagedFile_ok(1) [OF assms(1) sf]] by (simp add: local.service_ok_def)
  have "db_packages ?d2 = db_packages d" using storeStagedFile_tables(2) [OF sf] by (simp add: record_manifest_def)
  then have "repoPackageLookup ?d2 tenant img = Inr pkg" using repoPackageLookup_cong assms(3) by metis
  then have find2: "GetPackageByLookup ?d2 (ci_TenantID ?i) (ci_PackageType ?i) (ci_lookup ?i) = Inr pkg"
    by (auto simp: manifest_info_def ci_lookup_def repoPackageLookup_def to_lower_def)
  have i: "ci_TenantID ?i \<noteq> 0" "ci_VersionProperties ?i = []" using assms(2) by (simp_all add: manifest_info_def)
  obtain d' s' p v r where "CreatePackageOrAddFileToExisting (local_Save None rnd) (oc_dg en) (oc_lr en) (en_now en) ?i
      \<lparr>hb_bytes = body\<rparr> ?d2 s1 = (d', s', p, v, r)" "(\<exists>f. r = Inr f) \<or> r = Inl (ModelError ErrDuplicatePackageFile)"
    using add_file_succeeds [OF cat2 i find2, of rnd "oc_dg en" "oc_lr en" "en_now en" "\<lparr>hb_bytes = body\<rparr>" s1] by blast
  then show ?thesis using st dg by (auto simp: commit_manifest_def Let_def)
qed

lemma check_references_present:
  "(\<And>dg. dg \<in> set dgs \<Longrightarrow> ValidateDigest dg \<and> (\<exists>i. lookupBlobID d (pkg_ID pkg) dg = Inr (Some i)))
    \<Longrightarrow> check_references d pkg dgs = Inr ()"
proof (induction dgs)
  case (Cons dg dgs)
  obtain i where "ValidateDigest dg" "lookupBlobID d (pkg_ID pkg) dg = Inr (Some i)" using Cons.prems [of dg] by auto
  then show ?case using Cons by simp
qed simp

lemma manifest_push_succeeds:
  assumes "local.service_ok d s" and "en_caller en \<noteq> None"
    and "tenants_GetByName d tname = Inr t" and "ten_ID t \<noteq> 0"
    and "ReadAll_limit (4 * 2 ^ 20) (oq_Body rq) = (body, None)" and "ParseManifest (oc_json_error en) body = Inr m"
    and refs: "\<And>dg. dg \<in> set (ReferencedDigests m) \<Longrightarrow> ValidateDigest dg \<and>
      (\<exists>pkg i. repoPackageLookup d t img = Inr pkg \<and> lookupBlobID d (pkg_ID pkg) dg = Inr (Some i))"
    and "oci_checkIngest en t img reference ''manifest'' [] = Inr ()"
  shows "\<exists>d' s'. oci_putManifest (local_Save None rnd) en rq tname img reference d s
    = (d', s', manifest_created t img (digest_of body))"
proof -
  have cat: "catalog_ok d" using assms(1) by (simp add: local.service_ok_def)
  have "tenant_exists d (ten_ID t)"
    using assms(3) by (auto simp: tenants_GetByName_def tenant_exists_def select_one_def find_Some_iff split: option.splits)
  then obtain d1 pkg where rp: "repoPackage en t img d = (d1, Inr pkg)" using repoPackage_succeeds [OF cat] by blast
  note ok1 = local.repoPackage_ok [OF assms(1) rp] and find1 = repoPackage_found [OF cat rp]
  have cr: "check_references d1 pkg (ReferencedDigests m) = Inr ()"
  proof (rule check_references_present)
    fix dg assume "dg \<in> set (ReferencedDigests m)"
    from refs [OF this] obtain p i where p: "ValidateDigest dg" "repoPackageLookup d t img = Inr p"
      "lookupBlobID d (pkg_ID p) dg = Inr (Some i)" by blast
    then have "d1 = d" "p = pkg" using repoPackage_existing [OF p(2), of en] rp by simp_all
    then show "ValidateDigest dg \<and> (\<exists>i. lookupBlobID d1 (pkg_ID pkg) dg = Inr (Some i))" using p by auto
  qed
  have tn: "oci_tenantFromPath en d tname = Inr t" using assms(3) by simp
  have "oci_requireWrite en rq t = Inr ()" using assms(2) by (simp add: oci_requireWrite_def)
  moreover have "manifest_body en rq = Inr (body, m)" using assms(5,6) by (simp add: manifest_body_def)
  ultimately show ?thesis
    using commit_succeeds [OF ok1 assms(4) find1, of rnd en rq reference body m] rp cr assms(8)
    by (simp add: oci_putManifest_def tn)
qed



section \<open>Samples\<close>

definition sample_manifest :: "string \<Rightarrow> string" where
  "sample_manifest mt = json_print (JObject [(''mediaType'', JString mt), (''schemaVersion'', JNumber ''2'')])"

lemma sample_manifest_parse:
  assumes "utf8_ok mt"
  shows "ParseManifest jerr (sample_manifest mt) = Inr (zero_manifest\<lparr>man_SchemaVersion := 2, man_MediaType := mt\<rparr>)"
proof -
  let ?v = "JObject [(''mediaType'', JString mt), (''schemaVersion'', JNumber ''2'')]"
  have "read_number ''2'' = Some (''2'', [])" by code_simp
  then have "json_ok 10000 ?v" using assms by (simp add: utf8_len_def utf8_class_def)
  then have "json_Decode (json_print ?v) = Some ?v" by (rule json_Decode_print)
  moreover have "\<not> equal_fold ''schemaVersion'' ''mediaType''" "\<not> equal_fold ''mediaType'' ''schemaVersion''"
    "parse_int64 ''2'' = Some 2" by code_simp+
  moreover have "equal_fold z z" for z by (simp add: equal_fold_def)
  ultimately show ?thesis
    unfolding sample_manifest_def ParseManifest_def
    by (simp del: json_print.simps add: decode_struct_def manifest_field_def zero_manifest_def apfst_def map_prod_def first_error_def)
qed


lemma sample_push:
  assumes "local.service_ok d s" and "tenants_GetByName d ''default'' = Inr (default_tenant_row 0)" and "utf8_ok mt"
    and "ReadAll_limit (4 * 2 ^ 20) (bytes_reader (sample_manifest mt)) = (sample_manifest mt, None)"
  shows "\<exists>d' s'. oci_putManifest (local_Save None ''r'') sample_oci_env (sample_request [] (sample_manifest mt))
      ''default'' ''app'' ''v1'' d s = (d', s', manifest_created (default_tenant_row 0) ''app'' (digest_of (sample_manifest mt)))"
proof (rule manifest_push_succeeds [OF assms(1) _ assms(2) _ _ sample_manifest_parse [OF assms(3)]])
  show "en_caller sample_oci_env \<noteq> None" by (simp add: sample_oci_env_def)
  show "ten_ID (default_tenant_row 0) \<noteq> 0" by (simp add: default_tenant_row_def)
  show "ReadAll_limit (4 * 2 ^ 20) (oq_Body (sample_request [] (sample_manifest mt))) = (sample_manifest mt, None)"
    using assms(4) by (simp add: sample_request_def)
  show "oci_checkIngest sample_oci_env (default_tenant_row 0) ''app'' ''v1'' ''manifest'' [] = Inr ()"
    by (simp add: oci_checkIngest_def Let_def sample_oci_env_def noop_Evaluate_def)
qed (simp add: ReferencedDigests_def zero_manifest_def zero_descriptor_def)

lemma ReadAll_bytes:
  assumes "length b < 1000"
  shows "ReadAll_limit (4 * 2 ^ 20) (bytes_reader b) = (b, None)"
proof -
  have "length b \<le> nat (4 * 2 ^ 20)" using assms by simp
  then show ?thesis by (simp add: ReadAll_limit_def bytes_reader_def)
qed

lemma sample_manifests:
  "ReadAll_limit (4 * 2 ^ 20) (bytes_reader (sample_manifest [])) = (sample_manifest [], None)"
  "ReadAll_limit (4 * 2 ^ 20) (bytes_reader (sample_manifest ''x'')) = (sample_manifest ''x'', None)"
proof -
  have l: "length (sample_manifest []) < 100" "length (sample_manifest ''x'') < 100" by code_simp+
  show "ReadAll_limit (4 * 2 ^ 20) (bytes_reader (sample_manifest [])) = (sample_manifest [], None)"
    "ReadAll_limit (4 * 2 ^ 20) (bytes_reader (sample_manifest ''x'')) = (sample_manifest ''x'', None)"
    by (rule ReadAll_bytes, use l in simp)+
qed

lemma oci_fresh_ok: "local.service_ok (ox_db (oci_boot 0)) (ox_store (oci_boot 0))"
  using oci_boot_ok [of 0] by (simp add: local.oci_ok_def)

lemma oci_fresh_bound: "seq (db_blobs (ox_db (oci_boot 0))) < 2 ^ 63 - 2" "seq (db_blobs (ox_db (oci_boot 0))) < 2 ^ 63 - 1"
  by (simp_all add: oci_boot_def fresh_db_def)

lemma persist_blobs:
  assumes "persist_upload save en tenant img p sz dg x = (x', r)"
  shows "seq (db_blobs (ox_db x')) \<le> seq (db_blobs (ox_db x)) + 1"
proof -
  obtain d1 s1 y where st: "storeStagedFile save en (file_bytes (ox_uploads x) p) dg sz (ox_db x) (ox_store x) = (d1, s1, y)"
    by (metis prod.exhaust)
  obtain d2 z where rp: "repoPackage en tenant img d1 = (d2, z)" by (metis prod.exhaust)
  show ?thesis
    using assms st rp storeStagedFile_tables [OF st] repoPackage_tables [OF rp]
    by (auto simp: persist_upload_def Let_def split: sum.splits)
qed

lemma sample_first_push:
  obtains d' s' where "oci_putManifest (local_Save None ''r'') sample_oci_env (sample_request [] (sample_manifest []))
      ''default'' ''app'' ''v1'' (ox_db (oci_boot 0)) (ox_store (oci_boot 0)) =
      (d', s', manifest_created (default_tenant_row 0) ''app'' (digest_of (sample_manifest [])))"
  using sample_push [OF oci_fresh_ok _ _ sample_manifests(1)] sample_tenant by (auto simp: oci_boot_def)

lemma sample_readable:
  "oci_requireRead sample_oci_env rq t = Inr ()" "\<not> IsBlocked (en_engine sample_oci_env subj a)"
  by (simp_all add: oci_requireRead_def sample_oci_env_def noop_Evaluate_def IsBlocked_iff)

lemma sample_media: "manifest_media_type (sample_request dg b) m = (if man_MediaType m \<noteq> [] then man_MediaType m else MediaTypeOCIManifest)"
  by (simp add: manifest_media_type_def sample_request_def)

lemma sample_can_write: "CanWrite sample_admin i"
  by (simp add: access_defs sample_admin_def HasScope_def)

text \<open>A blob, pushed by one request to a fresh registry, and a manifest with that blob as its configuration and its layer.\<close>

lemma sample_blob_pushed:
  obtains x pkg n where "oci_step\<^sup>*\<^sup>* (oci_boot 0) x" "tenants_GetByName (ox_db x) ''default'' = Inr (default_tenant_row 0)"
    "repoPackageLookup (ox_db x) (default_tenant_row 0) ''app'' = Inr pkg"
    "lookupBlobID (ox_db x) (pkg_ID pkg) (digest_of ''wheel'') = Inr (Some n)" "seq (db_blobs (ox_db x)) < 2 ^ 63 - 2"
proof -
  let ?t = "default_tenant_row 0" let ?u = "newUUID ''0123456789abcdef''" let ?f = "ociUploadPrefix @ ''1''"
  let ?tr = "\<lparr>ut_uploads = [(?u, 0)], ut_heap = [\<lparr>up_uuid = ?u, up_file = ?f, up_open = True, up_size = 5,
     up_lastActive = 5, up_hashed = ''wheel''\<rparr>], ut_dir = [(?f, ''wheel'')]\<rparr>"
  let ?x = "oci_boot 0" let ?save = "local_Save None ''r''" let ?rq = "sample_request (digest_of ''wheel'') ''wheel''"
  let ?y = "?x\<lparr>ox_uploads := upload_forget ?u ?tr\<rparr>"
  have tn: "oci_tenantFromPath sample_oci_env (fresh_db 0) ''default'' = Inr ?t" using sample_tenant by simp
  have "oci_requireWrite sample_oci_env ?rq ?t = Inr ()" by (simp add: oci_requireWrite_def sample_oci_env_def)
  then have acc: "oci_write_access sample_oci_env ?rq ''default'' (ox_db ?x) = Inr ?t" by (simp add: oci_write_access_def oci_boot_def tn)
  have dg: "digest_of ''wheel'' \<noteq> []" by (rule digest_facts(1))
  have run: "oci_startUpload ?save sample_oci_env ?rq ''default'' ''app'' ?x =
      persist_upload ?save sample_oci_env ?t ''app'' 0 5 (digest_of ''wheel'') ?y"
    using acc dg by (simp add: oci_startUpload_def upload_Begin_def Let_def oci_finalizeUpload_def upload_Append_def upload_lookup_def
        upload_write_def upload_grow_def file_bytes_def sample_oci_env_def sample_request_def bytes_reader_def upload_Finalize_def
        oci_boot_def NewUploadTracker_def)
  obtain x r where put: "persist_upload ?save sample_oci_env ?t ''app'' 0 5 (digest_of ''wheel'') ?y = (x, r)" by (metis prod.exhaust)
  have b: "file_bytes (ox_uploads ?y) 0 = ''wheel''" by (simp add: file_bytes_def upload_forget_def)
  have ok: "local.service_ok (ox_db ?y) (ox_store ?y)" using oci_fresh_ok by simp
  have "tenant_exists (ox_db ?y) (ten_ID ?t)" by (simp add: tenant_exists_def oci_boot_def fresh_db_def)
  from persist_succeeds [OF ok this b, of "''r''" sample_oci_env "''app''" 5] put have st: "rs_Status r = 201" by simp
  have "seq (db_blobs (ox_db ?y)) < 2 ^ 63 - 1" using oci_fresh_bound(2) by simp
  note pc = local.persist_created [OF ok put b st this]
  have "oci_step ?x (fst (oci_handle ?save local_Open sample_oci_env ?rq (StartUpload ''default'' ''app'') ?x))"
    by (rule oci_request) (simp_all add: sample_oci_env_def oci_boot_def NewUploadTracker_def)
  then have reach: "oci_step\<^sup>*\<^sup>* ?x x" using run put by (simp add: r_into_rtranclp)
  moreover have "tenants_GetByName (ox_db x) ''default'' = Inr ?t"
    using tenants_GetByName_cong [OF pc(1)] sample_tenant by (simp add: oci_boot_def)
  moreover obtain pkg bl where "repoPackageLookup (ox_db x) ?t ''app'' = Inr pkg" "repo_blob (ox_db x) pkg (digest_of ''wheel'') bl"
    using pc(2) by blast
  moreover have "seq (db_blobs (ox_db x)) < 2 ^ 63 - 2"
    using persist_blobs [OF put] by (simp add: oci_boot_def fresh_db_def)
  ultimately show thesis using that by (auto simp: repo_blob_def)
qed

definition wheel_manifest :: string where
  "wheel_manifest = json_print (JObject [(''config'', JObject [(''digest'', JString (digest_of ''wheel''))]),
     (''layers'', JArray [JObject [(''digest'', JString (digest_of ''wheel''))]]), (''schemaVersion'', JNumber ''2'')])"

definition wheel_parsed :: manifest where
  "wheel_parsed = zero_manifest\<lparr>man_SchemaVersion := 2, man_Config := zero_descriptor\<lparr>desc_Digest := digest_of ''wheel''\<rparr>,
     man_Layers := [zero_descriptor\<lparr>desc_Digest := digest_of ''wheel''\<rparr>]\<rparr>"

lemma wheel_manifest_parse: "ParseManifest jerr wheel_manifest = Inr wheel_parsed"
proof -
  let ?v = "JObject [(''config'', JObject [(''digest'', JString (digest_of ''wheel''))]),
     (''layers'', JArray [JObject [(''digest'', JString (digest_of ''wheel''))]]), (''schemaVersion'', JNumber ''2'')]"
  have "read_number ''2'' = Some (''2'', [])" by code_simp
  then have "json_ok 10000 ?v" by (simp add: utf8_len_def utf8_class_def utf8_ok_digest)
  then have d: "json_Decode (json_print ?v) = Some ?v" by (rule json_Decode_print)
  have "\<not> equal_fold ''config'' ''mediaType''" "\<not> equal_fold ''config'' ''schemaVersion''" by code_simp+
  moreover have "\<not> equal_fold ''layers'' ''mediaType''" "\<not> equal_fold ''layers'' ''schemaVersion''" by code_simp+
  moreover have "\<not> equal_fold ''layers'' ''config''" "\<not> equal_fold ''digest'' ''mediaType''" "parse_int64 ''2'' = Some 2" by code_simp+
  moreover have "equal_fold z z" for z by (simp add: equal_fold_def)
  ultimately show ?thesis
    unfolding wheel_manifest_def ParseManifest_def d
    by (simp add: decode_struct_def manifest_field_def descriptor_field_def decode_descriptor_list_def zero_manifest_def apfst_def map_prod_def
        first_error_def wheel_parsed_def Let_def)
qed

lemma quote_body_plain: "\<forall>c \<in> set s. c \<in> set ''sha256:0123456789abcdef'' \<Longrightarrow> quote_body s = s"
proof (induction s)
  case (Cons c s)
  have "\<forall>c \<in> set ''sha256:0123456789abcdef''. of_char c < (0x80 :: nat) \<and> quote_ascii c = [c]" by (simp add: quote_ascii_def)
  moreover have "c \<in> set ''sha256:0123456789abcdef''" by (rule bspec [OF Cons.prems]) (rule list.set_intros(1))
  ultimately have "of_char c < (0x80 :: nat)" "quote_ascii c = [c]" by blast+
  moreover have "quote_body s = s" by (rule Cons.IH) (meson Cons.prems list.set_intros(2))
  ultimately show ?case using utf8_len_1 [of c s] by simp
qed simp

lemma quote_body_digest: "quote_body (digest_of b) = digest_of b"
proof (rule quote_body_plain)
  have "set (digest_of b) \<subseteq> set ''sha256:'' \<union> set ''0123456789abcdef''"
    unfolding digest_of_def HexToDigest_def set_append using hex_encode_chars [of "sha256 b"] by blast
  moreover have "set ''sha256:'' \<union> set ''0123456789abcdef'' = set ''sha256:0123456789abcdef''" by (simp only: set_append [symmetric] append.simps)
  ultimately show "\<forall>c \<in> set (digest_of b). c \<in> set ''sha256:0123456789abcdef''" by blast
qed

lemma wheel_manifest_read: "ReadAll_limit (4 * 2 ^ 20) (bytes_reader wheel_manifest) = (wheel_manifest, None)"
proof (rule ReadAll_bytes)
  have k: "quote_body ''config'' = ''config''" "quote_body ''digest'' = ''digest''" "quote_body ''layers'' = ''layers''"
    "quote_body ''schemaVersion'' = ''schemaVersion''" by (simp_all add: utf8_len_def utf8_class_def quote_ascii_def)
  have "length (digest_of b) = 71" for b by (simp add: digest_of_def HexToDigest_def length_sha256)
  then show "length wheel_manifest < 1000" by (simp add: wheel_manifest_def json_string_def quote_body_digest k del: quote_body.simps)
qed

lemma wheel_references: "set (ReferencedDigests wheel_parsed) = {digest_of ''wheel''}"
  using digest_facts(1) [of "''wheel''"] by (auto simp: ReferencedDigests_def wheel_parsed_def zero_manifest_def zero_descriptor_def)

lemma sample_ingest: "oci_checkIngest sample_oci_env t img rf ''manifest'' [] = Inr ()"
  by (simp add: oci_checkIngest_def Let_def sample_oci_env_def noop_Evaluate_def)

lemma wheel_manifest_pushed:
  assumes "oci_step\<^sup>*\<^sup>* (oci_boot 0) x" "tenants_GetByName (ox_db x) ''default'' = Inr (default_tenant_row 0)"
    "repoPackageLookup (ox_db x) (default_tenant_row 0) ''app'' = Inr pkg"
    "lookupBlobID (ox_db x) (pkg_ID pkg) (digest_of ''wheel'') = Inr (Some n)"
  shows "\<exists>d' s'. oci_putManifest (local_Save None ''r'') sample_oci_env (sample_request [] wheel_manifest) ''default'' ''app'' ''v1''
      (ox_db x) (ox_store x) = (d', s', manifest_created (default_tenant_row 0) ''app'' (digest_of wheel_manifest))"
proof (rule manifest_push_succeeds [OF _ _ assms(2) _ _ wheel_manifest_parse _ sample_ingest])
  show "local.service_ok (ox_db x) (ox_store x)" using oci_reachable_ok [OF assms(1)] by (simp add: local.oci_ok_def)
  show "en_caller sample_oci_env \<noteq> None" by (simp add: sample_oci_env_def)
  show "ten_ID (default_tenant_row 0) \<noteq> 0" by (simp add: default_tenant_row_def)
  show "ReadAll_limit (4 * 2 ^ 20) (oq_Body (sample_request [] wheel_manifest)) = (wheel_manifest, None)"
    using wheel_manifest_read by (simp add: sample_request_def)
  fix dg assume "dg \<in> set (ReferencedDigests wheel_parsed)"
  then show "ValidateDigest dg \<and> (\<exists>pkg i. repoPackageLookup (ox_db x) (default_tenant_row 0) ''app'' = Inr pkg \<and>
      lookupBlobID (ox_db x) (pkg_ID pkg) dg = Inr (Some i))"
    using assms(3,4) ValidateDigest_digest_of by (auto simp: wheel_references)
qed

theorem pushed_manifest_closed_witness:
  "\<exists>(d' :: db) t pkg i. tenants_GetByName d' ''default'' = Inr t \<and> repoPackageLookup d' t ''app'' = Inr pkg
     \<and> ValidateDigest (digest_of ''wheel'') \<and> lookupBlobID d' (pkg_ID pkg) (digest_of ''wheel'') = Inr (Some i)"
proof -
  obtain x pkg n where x: "oci_step\<^sup>*\<^sup>* (oci_boot 0) x" "tenants_GetByName (ox_db x) ''default'' = Inr (default_tenant_row 0)"
    "repoPackageLookup (ox_db x) (default_tenant_row 0) ''app'' = Inr pkg"
    "lookupBlobID (ox_db x) (pkg_ID pkg) (digest_of ''wheel'') = Inr (Some n)" "seq (db_blobs (ox_db x)) < 2 ^ 63 - 2"
    by (rule sample_blob_pushed)
  obtain d' s' where put: "oci_putManifest (local_Save None ''r'') sample_oci_env (sample_request [] wheel_manifest) ''default'' ''app'' ''v1''
      (ox_db x) (ox_store x) = (d', s', manifest_created (default_tenant_row 0) ''app'' (digest_of wheel_manifest))"
    using wheel_manifest_pushed [OF x(1-4)] by blast
  have "rs_Status (manifest_created (default_tenant_row 0) ''app'' (digest_of wheel_manifest)) = 201" by (simp add: manifest_created_def)
  from pushed_manifest_closed [OF x(1,5) put this]
  obtain t pkg' body m where t: "tenants_GetByName d' ''default'' = Inr t" "repoPackageLookup d' t ''app'' = Inr pkg'"
    "ReadAll_limit (4 * 2 ^ 20) (oq_Body (sample_request [] wheel_manifest)) = (body, None)" "ParseManifest (oc_json_error sample_oci_env) body = Inr m"
    and r: "\<forall>dg \<in> set (ReferencedDigests m). ValidateDigest dg \<and> (\<exists>i. lookupBlobID d' (pkg_ID pkg') dg = Inr (Some i))" by blast
  have "body = wheel_manifest" using t(3) wheel_manifest_read by (simp add: sample_request_def)
  then have "m = wheel_parsed" using t(4) wheel_manifest_parse by simp
  then show ?thesis using t(1,2) r wheel_references by blast
qed

lemma boot_no_repo: "repoPackageLookup (ox_db (oci_boot 0)) t img \<noteq> Inr p"
  by (simp add: oci_boot_def fresh_db_def repoPackageLookup_def GetPackageByLookup_def select_one_def)



theorem retag_keeps_old_witness:
  "\<exists>(d :: db) s d' s' pkg. oci_putManifest (local_Save None ''r'') sample_oci_env (sample_request [] (sample_manifest ''x''))
       ''default'' ''app'' ''v1'' d s = (d', s', manifest_created (default_tenant_row 0) ''app'' (digest_of (sample_manifest ''x'')))
     \<and> resolveManifestReference d' pkg ''v1'' = resolveManifestReference d pkg ''v1''"
proof (rule sample_first_push)
  fix d s assume put: "oci_putManifest (local_Save None ''r'') sample_oci_env (sample_request [] (sample_manifest []))
      ''default'' ''app'' ''v1'' (ox_db (oci_boot 0)) (ox_store (oci_boot 0)) =
      (d, s, manifest_created (default_tenant_row 0) ''app'' (digest_of (sample_manifest [])))"
  let ?x = "(oci_boot 0)\<lparr>ox_db := d, ox_store := s\<rparr>"
  have h: "fst (oci_handle (local_Save None ''r'') local_Open sample_oci_env (sample_request [] (sample_manifest []))
      (PutManifest ''default'' ''app'' ''v1'') (oci_boot 0)) = ?x"
    unfolding oci_handle.simps(8) put by simp
  have "oci_step (oci_boot 0) ?x"
    by (rule oci_request [of sample_oci_env "oci_boot 0" None "''r''" "sample_request [] (sample_manifest [])"
          "PutManifest ''default'' ''app'' ''v1''", unfolded h])
      (simp_all add: sample_oci_env_def oci_boot_def NewUploadTracker_def)
  then have reach: "oci_step\<^sup>*\<^sup>* (oci_boot 0) ?x" by (rule r_into_rtranclp)
  have ok: "local.service_ok d s" using oci_reachable_ok [OF reach] by (simp add: local.oci_ok_def)
  obtain t body m pkg d1 where c: "tenants_GetByName (ox_db (oci_boot 0)) ''default'' = Inr t" "tenants_GetByName d1 ''default'' = Inr t"
    "local.service_ok d1 (ox_store (oci_boot 0))" "repoPackageLookup d1 t ''app'' = Inr pkg"
    "commit_manifest (local_Save None ''r'') sample_oci_env (sample_request [] (sample_manifest [])) t ''app'' ''v1'' body m pkg d1
       (ox_store (oci_boot 0)) = (d, s, manifest_created (default_tenant_row 0) ''app'' (digest_of (sample_manifest [])))"
    "seq (db_blobs d1) = seq (db_blobs (ox_db (oci_boot 0)))"
    by (rule put_commit [OF oci_fresh_ok put]) (simp add: manifest_created_def)
  have tag: "\<not> is_digest_ref ''v1''" by code_simp
  have sq: "seq (db_blobs d1) < 2 ^ 63 - 2" using c(6) oci_fresh_bound(1) by simp
  have st: "rs_Status (manifest_created t img dg) = 201" for t img dg by (simp add: manifest_created_def)
  note cc = local.commit_created [OF c(3,4,5) st sq]
  have t: "t = default_tenant_row 0" using c(1) sample_tenant by (simp add: oci_boot_def)
  have tn: "tenants_GetByName d ''default'' = Inr (default_tenant_row 0)"
    using c(2) cc(2) tenants_GetByName_cong [of d d1] t by simp
  have find: "repoPackageLookup d (default_tenant_row 0) ''app'' = Inr pkg" using cc(2) t by simp
  obtain ver where ver: "GetVersion d (pkg_ID pkg) ''v1'' = Inr ver" using cc(5) [OF tag] by blast
  have "seq (db_blobs d1) = 0" using c(6) by (simp add: oci_boot_def fresh_db_def)
  then have bl: "seq (db_blobs d) < 2 ^ 63 - 2" using cc(6) by simp
  have "utf8_ok ''x''" by (simp add: utf8_len_def utf8_class_def)
  from sample_push [OF ok tn this sample_manifests(2)]
  obtain d' s' where put2: "oci_putManifest (local_Save None ''r'') sample_oci_env (sample_request [] (sample_manifest ''x''))
      ''default'' ''app'' ''v1'' d s = (d', s', manifest_created (default_tenant_row 0) ''app'' (digest_of (sample_manifest ''x'')))" by blast
  from retag_keeps_old [OF reach _ _ _ tag, of "None" "''r''" sample_oci_env _ "''default''" "''app''" d' s', THEN conjunct2] put2 tn find ver bl st
  have "resolveManifestReference d' pkg ''v1'' = resolveManifestReference d pkg ''v1''" by simp
  then show ?thesis using put2 by blast
qed


theorem deleted_tag_served_witness:
  "\<exists>(d :: db) s d'. oci_deleteManifest sample_oci_env (sample_request [] []) ''default'' ''app'' ''v1'' d = (d', reply 202 NoBody)
     \<and> oci_serveManifest local_Open sample_oci_env (sample_request [] []) True ''default'' ''app'' ''v1'' d' s
       = oci_serveManifest local_Open sample_oci_env (sample_request [] []) True ''default'' ''app'' ''v1'' d s"
proof -
  obtain d pkg where rp: "repoPackage sample_oci_env (default_tenant_row 0) ''app'' (ox_db (oci_boot 0)) = (d, Inr pkg)"
  proof -
    have "tenant_exists (ox_db (oci_boot 0)) (ten_ID (default_tenant_row 0))"
      by (simp add: tenant_exists_def oci_boot_def fresh_db_def)
    from repoPackage_succeeds [OF _ this, of sample_oci_env "''app''"] oci_fresh_ok show thesis using that by (auto simp: local.service_ok_def)
  qed
  have find: "repoPackageLookup d (default_tenant_row 0) ''app'' = Inr pkg"
    using repoPackage_found [OF _ rp] oci_fresh_ok by (simp add: local.service_ok_def)
  have tn: "oci_tenantFromPath sample_oci_env d ''default'' = Inr (default_tenant_row 0)"
    using tenants_GetByName_cong [OF repoPackage_tables(1) [OF rp]] sample_tenant by (simp add: oci_boot_def)
  have tag: "\<not> is_digest_ref ''v1''" by code_simp
  let ?d = "set_package_property pkg (''container.deletedtag.'' @ ''v1'') ''1'' d"
  have w: "oci_requireWrite sample_oci_env (sample_request [] []) (default_tenant_row 0) = Inr ()"
    by (simp add: oci_requireWrite_def sample_oci_env_def)
  have del: "oci_deleteManifest sample_oci_env (sample_request [] []) ''default'' ''app'' ''v1'' d = (?d, reply 202 NoBody)"
    by (simp add: oci_deleteManifest_def tn w find tag)
  show ?thesis by (intro exI conjI, rule del, rule deleted_tag_served [OF del tag, THEN conjunct1])
qed


theorem push_pull_blob_witness:
  "\<exists>(d :: db) s hs. oci_serveBlob local_Open sample_oci_env (sample_request [] []) True ''default'' ''app'' (digest_of ''wheel'') d s
     = \<lparr>rs_Status = 200, rs_Headers = hs, rs_Body = Content ''wheel''\<rparr>"
proof -
  let ?t = "default_tenant_row 0" let ?u = "newUUID ''0123456789abcdef''" let ?f = "ociUploadPrefix @ ''1''"
  let ?tr = "\<lambda>b n. \<lparr>ut_uploads = [(?u, 0)], ut_heap = [\<lparr>up_uuid = ?u, up_file = ?f, up_open = True, up_size = n,
     up_lastActive = 5, up_hashed = b\<rparr>], ut_dir = [(?f, b)]\<rparr>"
  let ?x = "oci_boot 0" let ?save = "local_Save None ''r''"
  let ?x1 = "?x\<lparr>ox_uploads := ?tr [] 0\<rparr>" let ?x2 = "?x\<lparr>ox_uploads := ?tr ''wh'' 2\<rparr>"
  let ?rq1 = "sample_request [] []" let ?rq2 = "sample_request [] ''wh''" let ?rq3 = "sample_request (digest_of ''wheel'') ''eel''"
  have acc: "oci_write_access sample_oci_env rq ''default'' (ox_db ?x) = Inr ?t" for rq
  proof -
    have tn: "oci_tenantFromPath sample_oci_env (fresh_db 0) ''default'' = Inr ?t" using sample_tenant by simp
    have "oci_requireWrite sample_oci_env rq ?t = Inr ()" by (simp add: oci_requireWrite_def sample_oci_env_def)
    then show ?thesis by (simp add: oci_write_access_def oci_boot_def tn)
  qed
  have start: "oci_startUpload ?save sample_oci_env ?rq1 ''default'' ''app'' ?x = (?x1, upload_accepted ?t ''app'' ?u ''0-0'')"
    using acc by (simp add: oci_startUpload_def upload_Begin_def Let_def sample_oci_env_def sample_request_def oci_boot_def NewUploadTracker_def)
  have patch: "oci_patchUpload sample_oci_env ?rq2 ''default'' ''app'' ?u ?x1 = (?x2, upload_accepted ?t ''app'' ?u (''0-'' @ show_int 1))"
    using acc by (simp add: oci_patchUpload_def upload_Append_def upload_lookup_def upload_write_def upload_grow_def Let_def
        file_bytes_def sample_oci_env_def sample_request_def bytes_reader_def)
  then have ps: "run_patches ''default'' ''app'' ?u [(sample_oci_env, ?rq2)] ?x1 = Some ?x2" by (simp add: upload_accepted_def)
  have ex: "tenant_exists (ox_db ?x) (ten_ID ?t)" by (simp add: tenant_exists_def oci_boot_def fresh_db_def)
  let ?y = "?x\<lparr>ox_uploads := upload_forget ?u (?tr ''wheel'' 5)\<rparr>"
  have "file_bytes (ox_uploads ?y) 0 = ''wheel''" by (simp add: file_bytes_def upload_forget_def)
  then have "rs_Status (snd (persist_upload ?save sample_oci_env ?t ''app'' 0 5 (digest_of ''wheel'') ?y)) = 201"
    using oci_fresh_ok ex by (intro persist_succeeds) simp_all
  moreover have dg: "digest_of ''wheel'' \<noteq> []" "ValidateDigest (digest_of ''wheel'')"
    using ValidateDigest_digest_of digest_facts(1) by blast+
  ultimately have "rs_Status (snd (oci_putUpload ?save sample_oci_env ?rq3 ''default'' ''app'' ?u ?x2)) = 201"
    using acc by (simp add: oci_putUpload_def oci_finalizeUpload_def upload_Append_def upload_lookup_def upload_write_def
        upload_grow_def Let_def file_bytes_def sample_oci_env_def sample_request_def bytes_reader_def upload_Finalize_def)
  then obtain x3 r3 where put: "oci_putUpload ?save sample_oci_env ?rq3 ''default'' ''app'' ?u ?x2 = (x3, r3)" "rs_Status r3 = 201"
    by (metis prod.exhaust snd_conv)
  have f: "oq_digest ?rq1 = []" "oc_fault sample_oci_env = None" "\<forall>(en, rq) \<in> set [(sample_oci_env, ?rq2)]. oc_fault en = None"
    by (simp_all add: sample_request_def sample_oci_env_def)
  have c: "''wheel'' = concat (map (\<lambda>(en, rq). concat (rd_chunks (oq_Body rq))) [(sample_oci_env, ?rq2)]) @ body_of ?rq3"
    by (simp add: sample_request_def body_of_def bytes_reader_def)
  have new: "map_of (ut_uploads (ox_uploads ?x)) (newUUID b) = None" for b by (simp add: oci_boot_def NewUploadTracker_def)
  obtain t where "\<forall>en rq. oci_requireRead en rq t = Inr () \<longrightarrow> (\<forall>subj. \<not> IsBlocked (en_engine en subj ActionRead)) \<longrightarrow>
        (\<exists>hs. oci_serveBlob local_Open en rq True ''default'' ''app'' (digest_of ''wheel'') (ox_db x3) (ox_store x3) =
          \<lparr>rs_Status = 200, rs_Headers = hs, rs_Body = Content ''wheel''\<rparr>)"
    using push_pull_blob [OF rtranclp.rtrancl_refl oci_fresh_bound(2) start f(1) new ps f(3) put f(2) c, THEN conjunct2] by blast
  then show ?thesis using sample_readable by blast
qed



end
