(* ===== verification/Console_Net.thy ===== *)
theory Console_Net
  imports Upstream_Guard Auth
begin

text \<open>
  Who is calling (\<open>internal/console/middleware/ratelimit.go\<close>, \<open>proxyauth.go\<close>): the address of a client
  behind reverse proxies, the list of trusted proxies, and the limiter of sign-in attempts. With
  them the functions of Go's \<open>net\<close> and \<open>net/netip\<close> they call: \<open>SplitHostPort\<close>, \<open>ParseIP\<close> and
  \<open>ParseCIDR\<close>.

  The headers of a request are their lines: \<open>rq_Header r k\<close> lists the values of the lines named \<open>k\<close>
  (in whatever case) in order, and \<open>http.Header.Get\<close> takes the first.
\<close>

unbundle bit_operations_syntax

record console_request =
  rq_RemoteAddr :: string
  rq_Header :: "string \<Rightarrow> string list"
  rq_URI :: string

definition header_Get :: "console_request \<Rightarrow> string \<Rightarrow> string" where
  "header_Get r k = (case rq_Header r k of [] \<Rightarrow> [] | v # _ \<Rightarrow> v)"

section \<open>Addresses with a port\<close>

fun index_byte :: "char \<Rightarrow> string \<Rightarrow> nat option" where
  "index_byte c [] = None"
| "index_byte c (x # xs) = (if x = c then Some 0 else map_option Suc (index_byte c xs))"

fun last_index_byte :: "char \<Rightarrow> string \<Rightarrow> nat option" where
  "last_index_byte c [] = None"
| "last_index_byte c (x # xs) =
     (case last_index_byte c xs of Some i \<Rightarrow> Some (Suc i) | None \<Rightarrow> if x = c then Some 0 else None)"

definition SplitHostPort :: "string \<Rightarrow> (string \<times> string) option" where
  "SplitHostPort hostport =
     (let finish = (\<lambda>host i j k.
            if CHR ''['' \<in> set (drop j hostport) \<or> CHR '']'' \<in> set (drop k hostport) then None
            else Some (host, drop (i + 1) hostport)) in
      case last_index_byte CHR '':'' hostport of
        None \<Rightarrow> None
      | Some i \<Rightarrow>
          (if hd hostport = CHR ''['' then
             (case index_byte CHR '']'' hostport of
                None \<Rightarrow> None
              | Some e \<Rightarrow> if e + 1 \<noteq> i then None else finish (take (e - 1) (drop 1 hostport)) i 1 (e + 1))
           else if CHR '':'' \<in> set (take i hostport) then None
           else finish (take i hostport) i 0 0))"

section \<open>Textual addresses\<close>

definition parse_octet :: "string \<Rightarrow> nat option" where
  "parse_octet p =
     (if p = [] \<or> (length p > 1 \<and> hd p = CHR ''0'') then None
      else case parse_digits p 0 of None \<Rightarrow> None | Some v \<Rightarrow> if v > 255 then None else Some v)"

definition parse_IPv4 :: "string \<Rightarrow> ip option" where
  "parse_IPv4 s =
     (case map parse_octet (split_on CHR ''.'' s) of
        [Some a, Some b, Some c, Some d] \<Rightarrow> Some [a, b, c, d]
      | _ \<Rightarrow> None)"

definition hex_digit_value :: "char \<Rightarrow> nat option" where
  "hex_digit_value c =
     (let n = (of_char c :: nat) in
      if 48 \<le> n \<and> n \<le> 57 then Some (n - 48)
      else if 97 \<le> n \<and> n \<le> 102 then Some (n - 87)
      else if 65 \<le> n \<and> n \<le> 70 then Some (n - 55)
      else None)"

definition is_hex :: "char \<Rightarrow> bool" where
  "is_hex c = (hex_digit_value c \<noteq> None)"

definition hex_group :: "string \<Rightarrow> nat" where
  "hex_group h = foldl (\<lambda>acc c. 16 * acc + (case hex_digit_value c of Some v \<Rightarrow> v | None \<Rightarrow> 0)) 0 h"

text \<open>The loop over the groups: the bytes read so far, where the \<open>::\<close> was, and the rest of the text.\<close>

function v6_groups :: "nat list \<Rightarrow> nat option \<Rightarrow> string \<Rightarrow> (nat list \<times> nat option) option" where
  "v6_groups acc ell s =
     (if length acc \<ge> 16 then (if s = [] then Some (acc, ell) else None)
      else (let h = takeWhile is_hex s; off = length h; rest = drop off s;
                acc' = acc @ [hex_group h div 256, hex_group h mod 256] in
        if off = 0 \<or> off > 4 then None
        else case rest of
            [] \<Rightarrow> Some (acc', ell)
          | c # s' \<Rightarrow>
              (if c = CHR ''.'' then
                 (if (ell = None \<and> length acc \<noteq> 12) \<or> length acc + 4 > 16 then None
                  else map_option (\<lambda>q. (acc @ q, ell)) (parse_IPv4 s))
               else if c \<noteq> CHR '':'' then None
               else (case s' of
                   [] \<Rightarrow> None
                 | c' # s'' \<Rightarrow>
                     (if c' = CHR '':'' then
                        (if ell \<noteq> None then None
                         else if s'' = [] then Some (acc', Some (length acc'))
                         else v6_groups acc' (Some (length acc')) s'')
                      else v6_groups acc' ell s')))))"
  by pat_completeness auto

termination
proof (relation "measure (\<lambda>(acc, ell, s). length s)"; (simp; fail)?)
  fix acc :: "nat list" and ell :: "nat option" and s h :: string and off rest acc' c s' c' s''
  assume "rest = drop off s" "rest = c # s'" "s' = c' # s''"
  then have "drop off s = c # c' # s''" by simp
  then have "length (drop off s) = length (c # c' # s'')" by (rule arg_cong)
  then have "length s'' + 2 \<le> length s" unfolding length_drop by simp
  then show "((acc', Some (length acc'), s''), acc, ell, s) \<in> measure (\<lambda>(acc, ell, s). length s)"
    and "((acc', ell, s'), acc, ell, s) \<in> measure (\<lambda>(acc, ell, s). length s)"
    using \<open>s' = c' # s''\<close> by simp_all
qed

declare v6_groups.simps [simp del]

definition parse_IPv6 :: "string \<Rightarrow> ip option" where
  "parse_IPv6 s =
     (let lead = has_prefix s ''::''; s' = (if lead then drop 2 s else s) in
      if lead \<and> s' = [] then Some (zeros 16)
      else case v6_groups [] (if lead then Some 0 else None) s' of
          None \<Rightarrow> None
        | Some (bs, ell) \<Rightarrow>
            (if length bs < 16
             then (case ell of None \<Rightarrow> None | Some e \<Rightarrow> Some (take e bs @ zeros (16 - length bs) @ drop e bs))
             else (case ell of None \<Rightarrow> Some bs | Some e \<Rightarrow> None)))"

text \<open>\<open>netip.ParseAddr\<close> without zones, which \<open>ParseIP\<close> and \<open>ParseCIDR\<close> refuse.\<close>

definition ParseAddr :: "string \<Rightarrow> ip option" where
  "ParseAddr s =
     (if CHR ''%'' \<in> set s then None
      else case dropWhile (\<lambda>c. c \<noteq> CHR ''.'' \<and> c \<noteq> CHR '':'') s of
          [] \<Rightarrow> None
        | c # _ \<Rightarrow> if c = CHR ''.'' then parse_IPv4 s else parse_IPv6 s)"

definition ParseIP :: "string \<Rightarrow> ip option" where
  "ParseIP s = map_option (\<lambda>a. if length a = 4 then v4_mapped a else a) (ParseAddr s)"

text \<open>
  The network and its prefix length. \<open>IPNet.Contains\<close> reads a network of mapped IPv4 addresses as
  the IPv4 network behind it.
\<close>

definition ParseCIDR :: "string \<Rightarrow> (ip \<times> nat) option" where
  "ParseCIDR s =
     (let addr = takeWhile (\<lambda>c. c \<noteq> CHR ''/'') s in
      case dropWhile (\<lambda>c. c \<noteq> CHR ''/'') s of
        [] \<Rightarrow> None
      | _ # m \<Rightarrow>
          (case ParseAddr addr of
             None \<Rightarrow> None
           | Some a \<Rightarrow>
               (case (if m = [] then None else parse_digits m 0) of
                  None \<Rightarrow> None
                | Some n \<Rightarrow>
                    (if n > 8 * length a then None
                     else if length a = 16 \<and> To4 a \<noteq> None \<and> n \<ge> 96 then Some (drop 12 a, n - 96)
                     else Some (a, n)))))"

section \<open>The client's address\<close>

definition ipInList :: "string \<Rightarrow> string list \<Rightarrow> bool" where
  "ipInList ip lst =
     (if ip = [] then False
      else case ParseIP ip of
          None \<Rightarrow> False
        | Some parsed \<Rightarrow>
            list_ex (\<lambda>entry0.
              let entry = trim_space entry0 in
              if entry = [] then False
              else if CHR ''/'' \<in> set entry
              then (case ParseCIDR entry of None \<Rightarrow> False | Some n \<Rightarrow> net_Contains n parsed)
              else entry = ip) lst)"

definition peer_host :: "console_request \<Rightarrow> string" where
  "peer_host r = (case SplitHostPort (rq_RemoteAddr r) of None \<Rightarrow> rq_RemoteAddr r | Some (h, _) \<Rightarrow> h)"

text \<open>The walk from the right to the first entry that is not itself trusted.\<close>

definition xff_client :: "string list \<Rightarrow> string \<Rightarrow> string option" where
  "xff_client tp xff =
     List.find (\<lambda>p. p \<noteq> [] \<and> \<not> ipInList p tp) (rev (map trim_space (split_on CHR '','' xff)))"

definition ClientIPFor :: "console_request \<Rightarrow> string list \<Rightarrow> string" where
  "ClientIPFor r tp =
     (let host = peer_host r; xff = header_Get r ''X-Forwarded-For'' in
      if \<not> ipInList host tp then host
      else if xff = [] then host
      else case xff_client tp xff of Some p \<Rightarrow> p | None \<Rightarrow> host)"

definition isTrustedPeer :: "string list \<Rightarrow> console_request \<Rightarrow> bool" where
  "isTrustedPeer tp r =
     (if tp = [] then False
      else (let host0 = rq_RemoteAddr r;
                host1 = (case last_index_byte CHR '':'' host0 of
                           Some i \<Rightarrow> if i > 0 then take i host0 else host0
                         | None \<Rightarrow> host0);
                host2 = (if host1 \<noteq> [] \<and> last host1 = CHR '']'' then butlast host1 else host1)
            in ipInList (trim_prefix host2 ''['') tp))"

section \<open>The limiter of sign-in attempts\<close>

text \<open>Times are nanoseconds of the monotonic clock.\<close>

record ip_bucket =
  ib_count :: int
  ib_firstHit :: int

record login_limiter =
  ll_max :: int
  ll_window :: int
  ll_buckets :: "string \<Rightarrow> ip_bucket option"

definition go_second :: int where "go_second = 1000000000"

definition NewLoginRateLimiter :: "int \<Rightarrow> int \<Rightarrow> login_limiter" where
  "NewLoginRateLimiter mx window =
     \<lparr>ll_max = (if mx \<le> 0 then 10 else mx), ll_window = (if window \<le> 0 then 60 * go_second else window),
      ll_buckets = Map.empty\<rparr>"

definition login_Allow :: "int \<Rightarrow> string \<Rightarrow> login_limiter \<Rightarrow> login_limiter \<times> bool" where
  "login_Allow now ip l =
     (if ip = [] then (l, True)
      else case ll_buckets l ip of
          None \<Rightarrow> (l\<lparr>ll_buckets := (ll_buckets l)(ip \<mapsto> \<lparr>ib_count = 1, ib_firstHit = now\<rparr>)\<rparr>, True)
        | Some b \<Rightarrow>
            (if now - ib_firstHit b > ll_window l
             then (l\<lparr>ll_buckets := (ll_buckets l)(ip \<mapsto> \<lparr>ib_count = 1, ib_firstHit = now\<rparr>)\<rparr>, True)
             else (let b' = b\<lparr>ib_count := ib_count b + 1\<rparr> in
                   (l\<lparr>ll_buckets := (ll_buckets l)(ip \<mapsto> b')\<rparr>, ib_count b' \<le> ll_max l))))"

definition Forget :: "string \<Rightarrow> login_limiter \<Rightarrow> login_limiter" where
  "Forget ip l = (if ip = [] then l else l\<lparr>ll_buckets := (ll_buckets l)(ip := None)\<rparr>)"

end
