(* ===== verification/Console_Net_Laws.thy ===== *)
theory Console_Net_Laws
  imports Console_Net
begin

text \<open>
  What the address functions and the limiter amount to: parsed addresses are sixteen bytes, a CIDR
  prefix matches the addresses with the same leading bits, which part of \<open>X-Forwarded-For\<close> decides,
  and how many attempts the limiter lets through.
\<close>

unbundle bit_operations_syntax

section \<open>Parsed addresses\<close>

lemma parse_octet_byte: "parse_octet p = Some v \<Longrightarrow> v < 256"
  by (auto simp: parse_octet_def split: if_splits option.splits)

lemma parse_IPv4_bytes: "parse_IPv4 s = Some a \<Longrightarrow> length a = 4 \<and> is_bytes a"
proof -
  assume "parse_IPv4 s = Some a"
  then obtain x y z w where a: "a = [x, y, z, w]"
    and "map parse_octet (split_on CHR ''.'' s) = [Some x, Some y, Some z, Some w]"
    by (auto simp: parse_IPv4_def split: list.splits option.splits)
  then have "\<forall>v \<in> set [x, y, z, w]. \<exists>p. parse_octet p = Some v"
    by (auto simp: map_eq_Cons_conv)
  then show ?thesis
    using a parse_octet_byte by (auto simp: is_bytes_def)
qed

lemma hex_digit_value_bound: "hex_digit_value c = Some v \<Longrightarrow> v < 16"
  by (auto simp: hex_digit_value_def Let_def split: if_splits)

lemma hex_group_bound: "hex_group h < 16 ^ length h"
proof (induction h rule: rev_induct)
  case (snoc c h)
  have "(case hex_digit_value c of Some v \<Rightarrow> v | None \<Rightarrow> 0) < 16"
    by (auto split: option.splits dest: hex_digit_value_bound)
  then show ?case
    using snoc by (simp add: hex_group_def)
qed (simp add: hex_group_def)

lemma hex_group_bytes: "length h \<le> 4 \<Longrightarrow> is_bytes [hex_group h div 256, hex_group h mod 256]"
proof -
  assume "length h \<le> 4"
  then have "(16::nat) ^ length h \<le> 16 ^ 4" by (intro power_increasing) auto
  then have "hex_group h < 65536" using hex_group_bound [of h] by simp
  then show ?thesis by (auto simp: is_bytes_def)
qed

lemma is_bytes_append [simp]: "is_bytes (xs @ ys) \<longleftrightarrow> is_bytes xs \<and> is_bytes ys"
  by (auto simp: is_bytes_def)

definition v6_ok :: "nat list \<Rightarrow> nat option \<Rightarrow> bool" where
  "v6_ok bs ell \<longleftrightarrow> length bs \<le> 16 \<and> even (length bs) \<and> is_bytes bs \<and> (\<forall>e. ell = Some e \<longrightarrow> e \<le> length bs)"

lemma v6_ok_snoc:
  "v6_ok acc ell \<Longrightarrow> \<not> 16 \<le> length acc \<Longrightarrow> is_bytes [x, y] \<Longrightarrow> v6_ok (acc @ [x, y]) ell"
  "v6_ok acc ell \<Longrightarrow> \<not> 16 \<le> length acc \<Longrightarrow> is_bytes [x, y] \<Longrightarrow> v6_ok (acc @ [x, y]) (Some (length acc + 2))"
  by (auto simp: v6_ok_def elim!: evenE; presburger)+

lemma v6_groups_ok:
  "v6_ok acc ell \<Longrightarrow> v6_groups acc ell s = Some (bs, ell') \<Longrightarrow> v6_ok bs ell'"
proof (induction acc ell s rule: v6_groups.induct)
  case (1 acc ell s)
  let ?h = "takeWhile is_hex s"
  let ?acc = "acc @ [hex_group ?h div 256, hex_group ?h mod 256]"
  show ?case
  proof (cases "16 \<le> length acc")
    case True
    then show ?thesis
      using 1(3,4) by (subst (asm) v6_groups.simps) (auto split: if_splits)
  next
    case False
    have h: "0 < length ?h \<and> length ?h \<le> 4"
      using 1(4) False by (subst (asm) v6_groups.simps) (auto simp: Let_def split: if_splits)
    then have b: "is_bytes [hex_group ?h div 256, hex_group ?h mod 256]"
      by (intro hex_group_bytes) simp
    note ok = v6_ok_snoc [OF 1(3) False b]
    show ?thesis
    proof (cases "drop (length ?h) s")
      case Nil
      then show ?thesis
        using 1(4) False h ok by (subst (asm) v6_groups.simps) (auto simp: Let_def)
    next
      case (Cons c s')
      note unfolded = 1(4) [unfolded v6_groups.simps [of acc ell s] Let_def, simplified False h Cons, simplified]
      show ?thesis
      proof (cases "c = CHR ''.''")
        case True
        then show ?thesis
          using unfolded 1(3) h by (auto simp: v6_ok_def split: if_splits dest: parse_IPv4_bytes)
      next
        case ndot: False
        then have colon: "c = CHR '':''" using unfolded h by (auto split: if_splits)
        then obtain c' s'' where s': "s' = c' # s''"
          using unfolded h by (auto split: list.splits)
        have nh: "\<not> (length ?h = 0 \<or> 4 < length ?h)" using h by simp
        show ?thesis
        proof (cases "c' = CHR '':''")
          case True
          then have ell: "\<not> ell \<noteq> None" using unfolded h colon s' by (auto split: if_splits)
          show ?thesis
          proof (cases "s'' = []")
            case True
            then show ?thesis using unfolded h colon s' \<open>c' = CHR '':''\<close> ell ok(2) by simp
          next
            case ne: False
            then have "v6_groups ?acc (Some (length ?acc)) s'' = Some (bs, ell')"
              using unfolded h colon s' \<open>c' = CHR '':''\<close> ell by simp
            then show ?thesis
              using ok(2) 1(1) [OF False refl refl refl refl nh Cons ndot _ s' True ell ne] colon by simp
          qed
        next
          case nc: False
          then have "v6_groups ?acc ell s' = Some (bs, ell')"
            using unfolded h colon s' by simp
          then show ?thesis
            using ok(1) 1(2) [OF False refl refl refl refl nh Cons ndot _ s' nc] colon by simp
        qed
      qed
    qed
  qed
qed

lemma is_bytes_zeros [simp]: "is_bytes (zeros n)"
  by (simp add: is_bytes_def zeros_def)

lemma is_bytes_take_drop: "is_bytes bs \<Longrightarrow> is_bytes (take n bs) \<and> is_bytes (drop n bs)"
  by (auto simp: is_bytes_def dest: in_set_takeD in_set_dropD)

lemma length_zeros [simp]: "length (zeros n) = n"
  by (simp add: zeros_def)

lemma parse_IPv6_bytes: "parse_IPv6 s = Some a \<Longrightarrow> length a = 16 \<and> is_bytes a"
proof -
  define lead where "lead = has_prefix s ''::''"
  define s' where "s' = (if lead then drop 2 s else s)"
  define e where "e = (if lead then Some 0 else None :: nat option)"
  assume "parse_IPv6 s = Some a"
  then have a: "(if lead \<and> s' = [] then Some (zeros 16)
     else case v6_groups [] e s' of None \<Rightarrow> None
        | Some (bs, ell) \<Rightarrow>
            (if length bs < 16
             then (case ell of None \<Rightarrow> None | Some e \<Rightarrow> Some (take e bs @ zeros (16 - length bs) @ drop e bs))
             else (case ell of None \<Rightarrow> Some bs | Some e \<Rightarrow> None))) = Some a"
    by (simp only: parse_IPv6_def Let_def lead_def s'_def e_def)
  have e: "v6_ok [] e" by (simp add: v6_ok_def is_bytes_def e_def)
  have ok: "v6_ok bs ell" if "v6_groups [] e s' = Some (bs, ell)" for bs ell
    using e that by (rule v6_groups_ok)
  show ?thesis
    using a ok is_bytes_take_drop by (fastforce simp: v6_ok_def split: option.splits if_splits)
qed

lemma ParseAddr_bytes: "ParseAddr s = Some a \<Longrightarrow> length a \<in> {4, 16} \<and> is_bytes a"
  by (auto simp: ParseAddr_def split: if_splits list.splits dest: parse_IPv4_bytes parse_IPv6_bytes)

lemma v4_mapped_bytes: "length a = 4 \<Longrightarrow> is_bytes a \<Longrightarrow> length (v4_mapped a) = 16 \<and> is_bytes (v4_mapped a)"
  by (simp add: v4_mapped_def) (simp add: is_bytes_def)

lemma ParseIP_bytes: "ParseIP s = Some a \<Longrightarrow> length a = 16 \<and> is_bytes a"
  by (cases "ParseAddr s") (use ParseAddr_bytes [of s] v4_mapped_bytes in \<open>fastforce simp: ParseIP_def split: if_splits\<close>)+

lemma ParseCIDR_bytes: "ParseCIDR s = Some (a, n) \<Longrightarrow> length a \<in> {4, 16} \<and> is_bytes a \<and> n \<le> 8 * length a"
  by (auto simp: ParseCIDR_def Let_def is_bytes_take_drop split: if_splits list.splits option.splits dest!: ParseAddr_bytes)

section \<open>Prefixes\<close>

text \<open>The number an address stands for, most significant byte first.\<close>

fun addr_value :: "ip \<Rightarrow> nat" where
  "addr_value [] = 0"
| "addr_value (b # bs) = b * 256 ^ length bs + addr_value bs"

lemma addr_value_bound: "is_bytes a \<Longrightarrow> addr_value a < 256 ^ length a"
proof (induction a)
  case (Cons b bs)
  then have "b \<le> 255" "addr_value bs < 256 ^ length bs" by (auto simp: is_bytes_def)
  then have "b * 256 ^ length bs + addr_value bs < 255 * 256 ^ length bs + 256 ^ length bs"
    by (intro add_le_less_mono mult_le_mono1)
  then show ?case by simp
qed simp

fun masked_equal :: "nat list \<Rightarrow> ip \<Rightarrow> ip \<Rightarrow> bool" where
  "masked_equal (m # ms) (x # xs) (y # ys) = (x AND m = y AND m \<and> masked_equal ms xs ys)"
| "masked_equal _ _ _ = True"

lemma length_cidr_mask [simp]: "length (cidr_mask n p) = n"
  by (induction n p rule: cidr_mask.induct) simp_all

lemma masked_equal_nth:
  "length xs = length ms \<Longrightarrow> length ys = length ms \<Longrightarrow>
   masked_equal ms xs ys \<longleftrightarrow> (\<forall>i < length ms. xs ! i AND ms ! i = ys ! i AND ms ! i)"
proof (induction ms xs ys rule: masked_equal.induct)
  case (1 m ms x xs y ys)
  then show ?case by (auto simp: less_Suc_eq_0_disj)
qed auto

lemma masked_equal_zero: "masked_equal (cidr_mask n 0) xs ys"
proof (induction n arbitrary: xs ys)
  case (Suc n us vs)
  then show ?case by (cases us; cases vs) simp_all
qed simp

lemma div_split_equal:
  fixes b c u v q :: nat
  assumes "u < 2 ^ k * q" and "v < 2 ^ k * q"
  shows "(b * (2 ^ k * q) + u) div 2 ^ k = (c * (2 ^ k * q) + v) div 2 ^ k \<longleftrightarrow> b = c \<and> u div 2 ^ k = v div 2 ^ k"
proof -
  have s: "(b * (2 ^ k * q) + u) div 2 ^ k = b * q + u div 2 ^ k" for b u
    by (metis (no_types, lifting) div_mult_self4 mult.assoc mult.left_commute power_not_zero zero_neq_numeral)
  have "u div 2 ^ k < q" "v div 2 ^ k < q"
    using assms by (simp_all add: less_mult_imp_div_less mult.commute)
  then have "b * q + u div 2 ^ k = c * q + v div 2 ^ k \<longleftrightarrow> b = c \<and> u div 2 ^ k = v div 2 ^ k"
    by (metis (no_types, lifting) add_left_imp_eq div_less div_mult_self3 add.right_neutral less_nat_zero_code)
  then show ?thesis by (simp only: s)
qed

lemma masked_equal_cidr:
  assumes "is_bytes xs" and "is_bytes ys" and "length xs = length ys" and "p \<le> 8 * length xs"
  shows "masked_equal (cidr_mask (length xs) p) xs ys
     \<longleftrightarrow> addr_value xs div 2 ^ (8 * length xs - p) = addr_value ys div 2 ^ (8 * length xs - p)"
  using assms
proof (induction xs arbitrary: ys p)
  case (Cons x xs)
  then obtain y zs where ys: "ys = y # zs" and len: "length zs = length xs"
    by (cases ys) auto
  then have b: "x < 256" "y < 256" "is_bytes xs" "is_bytes zs"
    using Cons.prems by (auto simp: is_bytes_def)
  let ?n = "length xs"
  have v: "addr_value xs < 256 ^ ?n" "addr_value zs < 256 ^ ?n"
    using addr_value_bound [OF b(3)] addr_value_bound [OF b(4)] len by simp_all
  have pow: "(256::nat) ^ ?n = 2 ^ (8 * ?n)"
    by (simp add: power_mult)
  show ?case
  proof (cases "8 \<le> p")
    case True
    then have k: "8 * length (x # xs) - p = 8 * ?n - (p - 8)" and "p - 8 \<le> 8 * ?n"
      using Cons.prems(4) by simp_all
    then have split: "(256::nat) ^ ?n = 2 ^ (8 * ?n - (p - 8)) * 2 ^ (p - 8)"
      by (simp add: pow flip: power_add)
    have "x AND 255 = x" "y AND 255 = y"
      using and_prefix_mask [of x 0] and_prefix_mask [of y 0] b by simp_all
    then show ?thesis
      using True Cons.IH [of zs "p - 8"] b len \<open>p - 8 \<le> 8 * ?n\<close> v
      unfolding ys k by (simp add: split div_split_equal)
  next
    case False
    then have k: "8 * length (x # xs) - p = 8 * ?n + (8 - p)" by simp
    have d: "(b * 256 ^ ?n + u) div 2 ^ (8 * ?n + (8 - p)) = b div 2 ^ (8 - p)" if "u < 256 ^ ?n" for b u :: nat
      using that by (simp add: power_add div_mult2_eq flip: pow)
    have m: "x AND (256 - 2 ^ (8 - p)) = 2 ^ (8 - p) * (x div 2 ^ (8 - p))"
      "y AND (256 - 2 ^ (8 - p)) = 2 ^ (8 - p) * (y div 2 ^ (8 - p))"
      using b by (simp_all add: and_prefix_mask)
    have "addr_value (x # xs) div 2 ^ (8 * length (x # xs) - p) = x div 2 ^ (8 - p)"
      "addr_value (y # zs) div 2 ^ (8 * length (x # xs) - p) = y div 2 ^ (8 - p)"
      unfolding k addr_value.simps len by (rule d, rule v)+
    then show ?thesis
      using False unfolding ys by (simp add: m masked_equal_zero)
  qed
qed simp

lemma net_Contains_value:
  assumes "is_bytes nn" and "p \<le> 8 * length nn" and "is_bytes x" and "x' = (case To4 x of Some b \<Rightarrow> b | None \<Rightarrow> x)"
  shows "net_Contains (nn, p) x \<longleftrightarrow> length x' = length nn
     \<and> addr_value nn div 2 ^ (8 * length nn - p) = addr_value x' div 2 ^ (8 * length nn - p)"
proof (cases "length x' = length nn")
  case True
  have "is_bytes x'"
    using assms(3) is_bytes_take_drop [OF assms(3)] unfolding assms(4)
    by (auto simp: To4_def split: if_splits)
  then show ?thesis
    using masked_equal_cidr [of nn x' p] masked_equal_nth [of nn "cidr_mask (length nn) p" x'] assms True
    by (auto simp: net_Contains_def Let_def list_all_iff)
next
  case False
  then show ?thesis using assms(4) by (auto simp: net_Contains_def Let_def)
qed

section \<open>The trusted proxies\<close>

lemma split_on_append:
  "split_on sep (xs @ sep # ys) = split_on sep xs @ split_on sep ys"
  by (induction xs) (auto split: list.splits)

text \<open>What an untrusted client wrote in front of an entry that is not a trusted proxy has no effect.\<close>

lemma xff_client_append:
  assumes "list_ex (\<lambda>p. p \<noteq> [] \<and> \<not> ipInList p tp) (map trim_space (split_on CHR '','' chain))"
  shows "xff_client tp (written @ CHR '','' # chain) = xff_client tp chain"
proof -
  have "List.find (\<lambda>p. p \<noteq> [] \<and> \<not> ipInList p tp) (rev (map trim_space (split_on CHR '','' chain))) \<noteq> None"
    using assms by (auto simp: find_None_conv list_ex_iff)
  then show ?thesis
    unfolding xff_client_def split_on_append map_append rev_append find_append by (auto split: option.splits)
qed

lemma peer_host_Header [simp]: "peer_host (r\<lparr>rq_Header := h\<rparr>) = peer_host r"
  by (simp add: peer_host_def split: option.splits)

lemma last_index_byte_append: "c \<notin> set ys \<Longrightarrow> last_index_byte c (xs @ c # ys) = Some (length xs)"
proof (induction xs)
  case Nil
  then have "last_index_byte c ys = None" by (induction ys) auto
  then show ?case by simp
qed simp

lemma index_byte_append: "c \<notin> set xs \<Longrightarrow> index_byte c (xs @ c # ys) = Some (length xs)"
  by (induction xs) auto

text \<open>The two ways in which \<open>net/http\<close> writes the peer of a connection.\<close>

definition peer_form :: "string \<Rightarrow> string \<Rightarrow> string \<Rightarrow> bool" where
  "peer_form host port addr \<longleftrightarrow>
     (CHR '':'' \<notin> set port \<and> CHR ''['' \<notin> set port \<and> CHR '']'' \<notin> set port
        \<and> host \<noteq> [] \<and> CHR ''['' \<notin> set host \<and> CHR '']'' \<notin> set host
        \<and> (CHR '':'' \<notin> set host \<and> addr = host @ CHR '':'' # port
            \<or> addr = CHR ''['' # host @ CHR '']'' # CHR '':'' # port))"

lemma peer_host_form: "peer_form host port (rq_RemoteAddr r) \<Longrightarrow> peer_host r = host"
proof -
  assume "peer_form host port (rq_RemoteAddr r)"
  then have p: "CHR '':'' \<notin> set port" "CHR ''['' \<notin> set port" "CHR '']'' \<notin> set port"
    and h: "host \<noteq> []" "CHR ''['' \<notin> set host" "CHR '']'' \<notin> set host"
    and "CHR '':'' \<notin> set host \<and> rq_RemoteAddr r = host @ CHR '':'' # port
         \<or> rq_RemoteAddr r = (CHR ''['' # host @ [CHR '']'']) @ CHR '':'' # port"
    by (auto simp: peer_form_def)
  then show ?thesis
  proof (elim disjE conjE)
    assume c: "CHR '':'' \<notin> set host" and a: "rq_RemoteAddr r = host @ CHR '':'' # port"
    then show ?thesis
      unfolding peer_host_def SplitHostPort_def a last_index_byte_append [OF p(1)]
      using p h by (cases host) auto
  next
    assume a: "rq_RemoteAddr r = (CHR ''['' # host @ [CHR '']'']) @ CHR '':'' # port"
    have "index_byte CHR '']'' (rq_RemoteAddr r) = Some (Suc (length host))"
      using index_byte_append [of "CHR '']''" "CHR ''['' # host" "CHR '':'' # port"] h unfolding a by simp
    then show ?thesis
      unfolding peer_host_def SplitHostPort_def a last_index_byte_append [OF p(1)]
      using p h by simp
  qed
qed

lemma isTrustedPeer_form: "peer_form host port (rq_RemoteAddr r) \<Longrightarrow> isTrustedPeer tp r = ipInList host tp"
proof -
  assume "peer_form host port (rq_RemoteAddr r)"
  then have p: "CHR '':'' \<notin> set port"
    and h: "host \<noteq> []" "CHR ''['' \<notin> set host" "CHR '']'' \<notin> set host"
    and "rq_RemoteAddr r = host @ CHR '':'' # port
         \<or> rq_RemoteAddr r = (CHR ''['' # host @ [CHR '']'']) @ CHR '':'' # port"
    by (auto simp: peer_form_def)
  moreover have "last host \<noteq> CHR '']''" "hd host \<noteq> CHR ''[''"
    using h by (metis last_in_set, metis hd_in_set)
  moreover from this(2) have trim: "trim_prefix host ''['' = host"
    by (cases host) (simp_all add: trim_prefix_def has_prefix_def)
  moreover have nil: "ipInList x [] = False" for x
    by (simp add: ipInList_def split: option.splits)
  ultimately show ?thesis
  proof (elim disjE)
    assume a: "rq_RemoteAddr r = host @ CHR '':'' # port"
    show ?thesis
      unfolding isTrustedPeer_def Let_def a last_index_byte_append [OF p]
      using h \<open>last host \<noteq> CHR '']''\<close> nil by (cases "tp = []") (simp_all add: trim)
  next
    assume a: "rq_RemoteAddr r = (CHR ''['' # host @ [CHR '']'']) @ CHR '':'' # port"
    show ?thesis
      unfolding isTrustedPeer_def Let_def a last_index_byte_append [OF p]
      using h nil by (cases "tp = []") (simp_all add: butlast_append trim_prefix_def has_prefix_def)
  qed
qed

section \<open>The limiter\<close>

text \<open>Attempts are pairs of a time and an address; the outcomes add what the limiter answers.\<close>

fun attempts :: "login_limiter \<Rightarrow> (int \<times> string) list \<Rightarrow> (int \<times> string \<times> bool) list" where
  "attempts l [] = []"
| "attempts l ((t, ip) # es) = (case login_Allow t ip l of (l', ok) \<Rightarrow> (t, ip, ok) # attempts l' es)"

definition let_through :: "string \<Rightarrow> int \<Rightarrow> int \<Rightarrow> (int \<times> string \<times> bool) list \<Rightarrow> int" where
  "let_through ip lo hi os = int (length (filter (\<lambda>(t, i, ok). ok \<and> i = ip \<and> lo \<le> t \<and> t \<le> hi) os))"

lemma let_through_Cons:
  "let_through ip lo hi ((t, i, ok) # os) =
     (if ok \<and> i = ip \<and> lo \<le> t \<and> t \<le> hi then 1 else 0) + let_through ip lo hi os"
  by (simp add: let_through_def)

lemma let_through_late: "\<forall>e \<in> set es. hi < fst e \<Longrightarrow> let_through ip lo hi (attempts l es) = 0"
  by (induction l es rule: attempts.induct) (auto simp: let_through_Cons let_through_def split: prod.splits)

definition quota :: "int \<Rightarrow> int \<Rightarrow> ip_bucket option \<Rightarrow> int" where
  "quota mx lo b =
     (case b of None \<Rightarrow> mx
      | Some b \<Rightarrow> (if ib_count b \<ge> mx then 0 else mx - ib_count b) + (if lo \<le> ib_firstHit b then 0 else mx))"

lemmas Allow_simps = login_Allow_def quota_def Let_def

lemma Allow_keeps: "login_Allow t ip l = (l', ok) \<Longrightarrow> ll_max l' = ll_max l \<and> ll_window l' = ll_window l"
  by (auto simp: login_Allow_def Let_def split: if_splits option.splits)

lemma Allow_other: "login_Allow t i l = (l', ok) \<Longrightarrow> i \<noteq> ip \<Longrightarrow> ll_buckets l' ip = ll_buckets l ip"
  by (auto simp: login_Allow_def Let_def split: if_splits option.splits)

lemma quota_bound:
  assumes "ip \<noteq> []" and "0 < ll_max l"
    and "sorted_wrt (\<lambda>e e'. fst e \<le> fst e') es" and "\<forall>e \<in> set es. lo \<le> fst e"
  shows "let_through ip lo (lo + ll_window l) (attempts l es) \<le> quota (ll_max l) lo (ll_buckets l ip)"
  using assms
proof (induction l es rule: attempts.induct)
  case (2 l t i es)
  obtain l' ok where a: "login_Allow t i l = (l', ok)" by fastforce
  note keeps = Allow_keeps [OF a]
  have IH: "let_through ip lo (lo + ll_window l) (attempts l' es) \<le> quota (ll_max l) lo (ll_buckets l' ip)"
    using 2 a keeps by auto
  have t: "lo \<le> t" "\<forall>e \<in> set es. t \<le> fst e" using 2(4,5) by auto
  have late: "let_through ip lo (lo + ll_window l) (attempts l' es) = 0" if "lo + ll_window l < t"
    using that t(2) by (intro let_through_late) fastforce
  show ?case
  proof (cases "i = ip")
    case False
    then show ?thesis using IH a Allow_other [OF a False] by (simp add: let_through_Cons)
  next
    case True
    show ?thesis
    proof (cases "ll_buckets l ip")
      case None
      then show ?thesis
        using a IH 2(2,3) True t by (auto simp: let_through_Cons Allow_simps split: if_splits)
    next
      case (Some b)
      then show ?thesis
        using a IH late 2(2,3) True t by (auto simp: let_through_Cons Allow_simps split: if_splits)
    qed
  qed
qed (auto simp: let_through_def quota_def split: option.splits)

definition login_limiter_ok :: "login_limiter \<Rightarrow> bool" where
  "login_limiter_ok l \<longleftrightarrow> 0 < ll_max l \<and> (\<forall>ip b. ll_buckets l ip = Some b \<longrightarrow> 1 \<le> ib_count b)"

lemma login_limiter_ok_new [simp]: "login_limiter_ok (NewLoginRateLimiter mx window)"
  by (simp add: login_limiter_ok_def NewLoginRateLimiter_def)

lemma login_limiter_ok_Allow: "login_limiter_ok l \<Longrightarrow> login_Allow t ip l = (l', ok) \<Longrightarrow> login_limiter_ok l'"
  by (fastforce simp: login_limiter_ok_def login_Allow_def Let_def split: if_splits option.splits)

lemma window_bound:
  assumes "login_limiter_ok l" and "ip \<noteq> []" and "sorted_wrt (\<lambda>e e'. fst e \<le> fst e') es"
  shows "let_through ip lo (lo + ll_window l) (attempts l es) \<le> 2 * ll_max l - 1"
  using assms
proof (induction l es rule: attempts.induct)
  case (2 l t i es)
  obtain l' ok where a: "login_Allow t i l = (l', ok)" by fastforce
  show ?case
  proof (cases "t < lo")
    case True
    then show ?thesis
      using 2 a Allow_keeps [OF a] login_limiter_ok_Allow [OF 2(2) a] by (auto simp: let_through_Cons)
  next
    case False
    then have "\<forall>e \<in> set ((t, i) # es). lo \<le> fst e" using 2(4) by auto
    then have "let_through ip lo (lo + ll_window l) (attempts l ((t, i) # es)) \<le> quota (ll_max l) lo (ll_buckets l ip)"
      using 2 by (intro quota_bound) (auto simp: login_limiter_ok_def)
    also have "\<dots> \<le> 2 * ll_max l - 1"
      using 2(2) by (fastforce simp: quota_def login_limiter_ok_def split: option.splits)
    finally show ?thesis .
  qed
qed (simp add: let_through_def login_limiter_ok_def)

text \<open>
  The attempts of an address up to a time. From a bucket that is not yet expired, what is left of it
  gets through until the window ends; an attempt that finds no bucket, or an expired one, opens a full one.
\<close>

definition attempts_of :: "string \<Rightarrow> int \<Rightarrow> (int \<times> string) list \<Rightarrow> int" where
  "attempts_of ip hi es = int (length (filter (\<lambda>(t, i). i = ip \<and> t \<le> hi) es))"

lemma attempts_of_Cons: "attempts_of ip hi ((t, i) # es) = (if i = ip \<and> t \<le> hi then 1 else 0) + attempts_of ip hi es"
  by (simp add: attempts_of_def)

lemma attempts_of_nonneg: "0 \<le> attempts_of ip hi es"
  by (simp add: attempts_of_def)

lemma attempts_of_late: "\<forall>e \<in> set es. hi < fst e \<Longrightarrow> attempts_of ip hi es = 0"
  by (fastforce simp: attempts_of_def filter_empty_conv)

lemma bucket_exact:
  assumes "ip \<noteq> []" and "ll_buckets l ip = Some b" and "lo = ib_firstHit b" and "1 \<le> ib_count b"
    and "sorted_wrt (\<lambda>e e'. fst e \<le> fst e') es" and "\<forall>e \<in> set es. lo \<le> fst e"
  shows "let_through ip lo (lo + ll_window l) (attempts l es) = min (max 0 (ll_max l - ib_count b)) (attempts_of ip (lo + ll_window l) es)"
  using assms
proof (induction l es arbitrary: b rule: attempts.induct)
  case (2 l t i es)
  obtain l' ok where a: "login_Allow t i l = (l', ok)" by fastforce
  note keeps = Allow_keeps [OF a]
  have rest: "sorted_wrt (\<lambda>e e'. fst e \<le> fst e') es" "\<forall>e \<in> set es. lo \<le> fst e" "lo \<le> t" "\<forall>e \<in> set es. t \<le> fst e"
    using 2(6,7) by auto
  have IH: "let_through ip lo (lo + ll_window l) (attempts l' es) = min (max 0 (ll_max l - ib_count b')) (attempts_of ip (lo + ll_window l) es)"
    if "ll_buckets l' ip = Some b'" "lo = ib_firstHit b'" "1 \<le> ib_count b'" for b'
    using 2(1) [OF a [symmetric] 2(2) that rest(1,2)] keeps by simp
  show ?case
  proof (cases "i = ip")
    case False
    then show ?thesis using IH [of b] a 2(3-5) Allow_other [OF a False] by (simp add: let_through_Cons attempts_of_Cons)
  next
    case True
    show ?thesis
    proof (cases "t - lo > ll_window l")
      case True
      then have "let_through ip lo (lo + ll_window l) (attempts l' es) = 0" "attempts_of ip (lo + ll_window l) es = 0"
        using rest(4) by (fastforce intro!: let_through_late attempts_of_late)+
      then show ?thesis using True a by (simp add: let_through_Cons attempts_of_Cons)
    next
      case False
      then have l': "ll_buckets l' ip = Some (b\<lparr>ib_count := ib_count b + 1\<rparr>)" and ok: "ok = (ib_count b + 1 \<le> ll_max l)"
        using a 2(2-4) \<open>i = ip\<close> by (auto simp: login_Allow_def Let_def)
      show ?thesis
        using IH [OF l'] ok 2(4,5) False \<open>i = ip\<close> rest(3) a attempts_of_nonneg [of ip "lo + ll_window l" es]
        by (auto simp: let_through_Cons attempts_of_Cons)
    qed
  qed
qed (simp add: let_through_def attempts_of_def)

definition window_opens :: "login_limiter \<Rightarrow> string \<Rightarrow> int \<Rightarrow> bool" where
  "window_opens l ip t = (case ll_buckets l ip of None \<Rightarrow> True | Some b \<Rightarrow> ib_firstHit b + ll_window l < t)"

lemma window_exact:
  assumes "login_limiter_ok l" and "ip \<noteq> []" and "0 \<le> ll_window l" and "window_opens l ip t"
    and "sorted_wrt (\<lambda>e e'. fst e \<le> fst e') ((t, ip) # es)"
  shows "let_through ip t (t + ll_window l) (attempts l ((t, ip) # es))
    = min (ll_max l) (attempts_of ip (t + ll_window l) ((t, ip) # es))"
proof -
  obtain l' where a: "login_Allow t ip l = (l', True)" and b: "ll_buckets l' ip = Some \<lparr>ib_count = 1, ib_firstHit = t\<rparr>"
    using assms(2,4) by (fastforce simp: login_Allow_def window_opens_def split: option.splits)
  have "let_through ip t (t + ll_window l') (attempts l' es) = min (max 0 (ll_max l' - 1)) (attempts_of ip (t + ll_window l') es)"
    using bucket_exact [OF assms(2) b] assms(5) by simp
  then show ?thesis
    using a Allow_keeps [OF a] assms(1,3) attempts_of_nonneg [of ip "t + ll_window l" es]
    by (auto simp: let_through_Cons attempts_of_Cons login_limiter_ok_def)
qed

section \<open>Properties\<close>

definition forged_request :: console_request where
  "forged_request = \<lparr>rq_RemoteAddr = ''10.0.0.2:4711'',
     rq_Header = (\<lambda>k. if k = ''X-Forwarded-For'' then [''127.0.0.1, 203.0.113.9, 10.0.0.7''] else []), rq_URI = []\<rparr>"

text \<open>
  What is parsed is an address: \<open>ParseIP\<close> returns sixteen bytes; \<open>ParseCIDR\<close> four or sixteen bytes and a
  prefix no longer than they are. A parsed network contains an address exactly when both are of the
  same family - a mapped IPv4 address counts as IPv4 - and agree in the bits of the prefix, read
  as numbers.
\<close>

theorem parsed_address_type:
  "(\<forall>a. ParseIP s = Some a \<longrightarrow> length a = 16 \<and> is_bytes a)
   \<and> (\<forall>nn p. ParseCIDR s = Some (nn, p) \<longrightarrow>
        (length nn = 4 \<or> length nn = 16) \<and> is_bytes nn \<and> p \<le> 8 * length nn
        \<and> (\<forall>ip x x'. ParseIP ip = Some x \<and> x' = (case To4 x of Some b \<Rightarrow> b | None \<Rightarrow> x) \<longrightarrow>
             (net_Contains (nn, p) x \<longleftrightarrow> length x' = length nn
                \<and> addr_value nn div 2 ^ (8 * length nn - p) = addr_value x' div 2 ^ (8 * length nn - p))))"
  using ParseIP_bytes ParseCIDR_bytes [of s] by (auto simp: net_Contains_value)

theorem parsed_address_type_witness:
  "net_Contains ([10, 8, 0, 0], 13) (v4_mapped [10, 15, 255, 1]) \<and> \<not> net_Contains ([10, 8, 0, 0], 13) (v4_mapped [10, 16, 0, 1])"
proof -
  have c: "ParseCIDR ''10.8.0.0/13'' = Some ([10, 8, 0, 0], 13)"
    and i: "ParseIP ''10.15.255.1'' = Some (v4_mapped [10, 15, 255, 1])"
    and j: "ParseIP ''10.16.0.1'' = Some (v4_mapped [10, 16, 0, 1])"
    by code_simp+
  note p = parsed_address_type [of "''10.8.0.0/13''", THEN conjunct2, rule_format, OF c, THEN conjunct2, THEN conjunct2, THEN conjunct2, rule_format]
  show ?thesis
    using p [OF conjI, OF i refl] p [OF conjI, OF j refl] by simp
qed

text \<open>
  Both readings of the peer agree: on the addresses \<open>net/http\<close> gives - a host and a port, or a bracketed host and a
  port - the authenticator for proxy headers trusts exactly the peers whose \<open>X-Forwarded-For\<close> the address
  resolver believes.
\<close>

theorem trusted_peer_agrees:
  assumes "peer_form host port (rq_RemoteAddr r)"
  shows "isTrustedPeer tp r = ipInList (peer_host r) tp"
  by (simp only: isTrustedPeer_form [OF assms] peer_host_form [OF assms])

definition bracketed_peer :: console_request where
  "bracketed_peer = forged_request\<lparr>rq_RemoteAddr := ''[2001:db8::1]:443''\<rparr>"

theorem trusted_peer_agrees_witness: "isTrustedPeer [''2001:db8::1''] bracketed_peer"
proof -
  have form: "peer_form ''2001:db8::1'' ''443'' (rq_RemoteAddr bracketed_peer)" by code_simp
  have "ipInList (peer_host bracketed_peer) [''2001:db8::1'']" by code_simp
  then show ?thesis
    by (rule trusted_peer_agrees [OF form, THEN iffD2])
qed

text \<open>An entry of the line that is not a trusted proxy.\<close>

definition untrusted_entry :: "string list \<Rightarrow> string \<Rightarrow> bool" where
  "untrusted_entry tp chain = list_ex (\<lambda>p. p \<noteq> [] \<and> \<not> ipInList p tp) (map trim_space (split_on CHR '','' chain))"

lemma xff_not_Nil: "untrusted_entry tp chain \<Longrightarrow> chain \<noteq> []"
  by (auto simp: untrusted_entry_def trim_space_def trim_left_def)

text \<open>The last entry of a line that is not a trusted proxy, read from the left.\<close>

fun last_untrusted_of :: "string list \<Rightarrow> string list \<Rightarrow> string option" where
  "last_untrusted_of tp [] = None"
| "last_untrusted_of tp (p # ps) =
     (case last_untrusted_of tp ps of
        Some q \<Rightarrow> Some q
      | None \<Rightarrow> if p \<noteq> [] \<and> \<not> ipInList p tp then Some p else None)"

definition last_untrusted :: "string list \<Rightarrow> string \<Rightarrow> string option" where
  "last_untrusted tp line = last_untrusted_of tp (map trim_space (split_on CHR '','' line))"

lemma find_rev_last: "List.find (\<lambda>p. p \<noteq> [] \<and> \<not> ipInList p tp) (rev ps) = last_untrusted_of tp ps"
  by (induction ps) (auto simp: find_append split: option.splits)

lemma xff_client_last: "xff_client tp line = last_untrusted tp line"
  by (simp add: xff_client_def last_untrusted_def find_rev_last)

lemma last_untrusted_append: "untrusted_entry tp line \<Longrightarrow> last_untrusted tp (written @ CHR '','' # line) = last_untrusted tp line"
  by (simp add: xff_client_append untrusted_entry_def flip: xff_client_last)

lemma untrusted_last: "untrusted_entry tp line \<Longrightarrow> last_untrusted tp line \<noteq> None"
  by (auto simp: untrusted_entry_def last_untrusted_def find_None_conv list_ex_iff simp flip: find_rev_last)

text \<open>
  Only the first line of \<open>X-Forwarded-For\<close> is read. When a trusted proxy adds a line of its own instead
  of appending to the client's, the client's line alone decides: it can claim any address that is not a
  trusted proxy, which the limiter of sign-in attempts and the audit log then take.
\<close>

theorem first_line_decides:
  assumes "ipInList (peer_host r) tp" and "rq_Header r ''X-Forwarded-For'' = claimed # added"
    and "claimed \<noteq> []" and "CHR '','' \<notin> set claimed" and "no_outer_space claimed" and "\<not> ipInList claimed tp"
  shows "ClientIPFor r tp = claimed"
  using assms by (simp add: ClientIPFor_def header_Get_def xff_client_def split_on_no_sep trim_space_clean)

definition two_lines :: console_request where
  "two_lines = \<lparr>rq_RemoteAddr = ''10.0.0.2:4711'',
     rq_Header = (\<lambda>k. if k = ''X-Forwarded-For'' then [''192.0.2.55'', ''203.0.113.9''] else []), rq_URI = []\<rparr>"

theorem first_line_decides_witness: "ClientIPFor two_lines [''10.0.0.0/8''] = ''192.0.2.55''"
proof (rule first_line_decides)
  show "ipInList (peer_host two_lines) [''10.0.0.0/8'']" "\<not> ipInList ''192.0.2.55'' [''10.0.0.0/8'']"
    by code_simp+
  show "no_outer_space ''192.0.2.55''" by code_simp
  show "rq_Header two_lines ''X-Forwarded-For'' = ''192.0.2.55'' # [''203.0.113.9'']"
    by (simp add: two_lines_def)
qed simp_all

text \<open>
C34: The address a request is attributed to. The header of a peer that is not a trusted proxy is
  ignored. Behind a trusted proxy, when the proxies append to one line of \<open>X-Forwarded-For\<close>, whatever the
  client wrote in front of their entries does not change the address, provided that one of the appended entries is not
  itself a trusted proxy; the address is then the last appended entry that is not one. Only the first line
  is read, though: when the proxy adds a line of its own instead, the client's line decides, and the client
  can claim any address outside the list.
\<close>

theorem client_written_prefix_ignored:
  "(\<not> ipInList (peer_host r) tp \<longrightarrow> ClientIPFor r tp = peer_host r)
   \<and> (untrusted_entry tp chain \<and> rq_Header r ''X-Forwarded-For'' = [written @ CHR '','' # chain] \<longrightarrow>
        ClientIPFor r tp = ClientIPFor (r\<lparr>rq_Header := (rq_Header r)(''X-Forwarded-For'' := [chain])\<rparr>) tp
        \<and> (ipInList (peer_host r) tp \<longrightarrow> Some (ClientIPFor r tp) = last_untrusted tp chain))
   \<and> (ipInList (peer_host r) tp \<and> rq_Header r ''X-Forwarded-For'' = claimed # added \<and> claimed \<noteq> []
        \<and> CHR '','' \<notin> set claimed \<and> no_outer_space claimed \<and> \<not> ipInList claimed tp \<longrightarrow>
        ClientIPFor r tp = claimed)"
  using xff_not_Nil [of tp chain] first_line_decides [of r tp claimed added] untrusted_last [of tp chain]
  by (auto simp: ClientIPFor_def Let_def header_Get_def xff_client_last last_untrusted_append split: option.splits)

theorem client_written_prefix_ignored_witness:
  "ClientIPFor forged_request [''10.0.0.0/8''] = ''203.0.113.9'' \<and> ClientIPFor two_lines [''10.0.0.0/8''] = ''192.0.2.55''"
proof
  let ?tp = "[''10.0.0.0/8'']"
  have "last_untrusted ?tp '' 203.0.113.9, 10.0.0.7'' = Some ''203.0.113.9''" by code_simp
  moreover have "untrusted_entry ?tp '' 203.0.113.9, 10.0.0.7''" "ipInList (peer_host forged_request) ?tp" by code_simp+
  moreover have "rq_Header forged_request ''X-Forwarded-For'' = [''127.0.0.1'' @ CHR '','' # '' 203.0.113.9, 10.0.0.7'']"
    by (simp add: forged_request_def)
  ultimately show "ClientIPFor forged_request ?tp = ''203.0.113.9''"
    using client_written_prefix_ignored [of forged_request ?tp "'' 203.0.113.9, 10.0.0.7''" "''127.0.0.1''"] by (metis option.inject)
  have "ipInList (peer_host two_lines) ?tp" "\<not> ipInList ''192.0.2.55'' ?tp" "no_outer_space ''192.0.2.55''"
    by code_simp+
  moreover have "rq_Header two_lines ''X-Forwarded-For'' = ''192.0.2.55'' # [''203.0.113.9'']" by (simp add: two_lines_def)
  moreover have "''192.0.2.55'' \<noteq> [] \<and> CHR '','' \<notin> set ''192.0.2.55''" by simp
  ultimately show "ClientIPFor two_lines ?tp = ''192.0.2.55''"
    using client_written_prefix_ignored [of two_lines ?tp "[]" "[]" "''192.0.2.55''" "[''203.0.113.9'']"] by blast
qed

text \<open>
C35: The limiter, while no bucket is forgotten and on a clock that does not go back. The first attempt of an
  address, or one that finds its bucket expired, opens a window: of the attempts of the address from
  then to the end of the window - whatever other addresses attempt in between - \<open>max\<close> are let through, or all when they are fewer.
  Over any interval of the length of the window, wherever it starts, at most \<open>2 * max - 1\<close> are, and this many can be.
\<close>

theorem limiter_window:
  assumes "login_limiter_ok l" and "0 \<le> ll_window l" and "ip \<noteq> []" and "sorted_wrt (\<lambda>e e'. fst e \<le> fst e') es"
  shows "(window_opens l ip t \<and> es = (t, ip) # later \<longrightarrow>
           let_through ip t (t + ll_window l) (attempts l es) = min (ll_max l) (attempts_of ip (t + ll_window l) es))
     \<and> let_through ip lo (lo + ll_window l) (attempts l es) \<le> 2 * ll_max l - 1
     \<and> let_through ''a'' 60 120 (attempts (NewLoginRateLimiter 2 60) [(0, ''a''), (60, ''a''), (61, ''a''), (62, ''a''), (63, ''a'')]) = 3"
proof (intro conjI impI)
  assume "window_opens l ip t \<and> es = (t, ip) # later"
  then show "let_through ip t (t + ll_window l) (attempts l es) = min (ll_max l) (attempts_of ip (t + ll_window l) es)"
    using assms window_exact [of l ip t later] by blast
next
  show "let_through ip lo (lo + ll_window l) (attempts l es) \<le> 2 * ll_max l - 1"
    using assms(1,3,4) by (rule window_bound)
  show "let_through ''a'' 60 120 (attempts (NewLoginRateLimiter 2 60) [(0, ''a''), (60, ''a''), (61, ''a''), (62, ''a''), (63, ''a'')]) = 3"
    by code_simp
qed

theorem limiter_window_witness:
  "let_through ''a'' 3 63 (attempts (NewLoginRateLimiter 2 60) [(3, ''a''), (6, ''b''), (9, ''a''), (12, ''a''), (64, ''a'')]) = 2"
proof -
  let ?l = "NewLoginRateLimiter 2 60"
  have m: "ll_max ?l = 2" "ll_window ?l = 60" "ll_buckets ?l = Map.empty" by (simp_all add: NewLoginRateLimiter_def)
  have n: "attempts_of ''a'' 63 [(3, ''a''), (6, ''b''), (9, ''a''), (12, ''a''), (64, ''a'')] = 3"
    by code_simp
  show ?thesis
    using limiter_window [of ?l "''a''" "[(3, ''a''), (6, ''b''), (9, ''a''), (12, ''a''), (64, ''a'')]" 3
        "[(6, ''b''), (9, ''a''), (12, ''a''), (64, ''a'')]", THEN conjunct1]
    by (simp add: m n window_opens_def del: attempts.simps)
qed

end
