(* ===== verification/Console_Session.thy ===== *)
theory Console_Session
  imports Console_Net Http
begin

text \<open>
  The browser session of the console (\<open>session.go\<close>, \<open>auth.go\<close>, \<open>flash.go\<close>, \<open>oneshot.go\<close> and
  \<open>proxyauth.go\<close> of \<open>internal/console/middleware\<close>). A session lives in an encrypted cookie. During a request
  its values are in memory (\<open>se_data\<close>); \<open>Save\<close> writes them to the response, and \<open>se_cookie\<close> is what
  the browser will send with its next request. \<open>Save\<close> does nothing unless a value was touched since the last one
  (\<open>se_written\<close>). \<open>fits\<close> stands for the cookie codec, a third-party package: which values it encodes
  - a cookie holds about four kilobytes. The flash messages are the values \<open>gorilla/sessions\<close> keeps
  under its own key.
\<close>

section \<open>Sessions\<close>

datatype sess_value = SInt int | SText string | SToken string string

record flash_message =
  fm_Severity :: string
  fm_Text :: string

record sess_data =
  sd_vals :: "string \<Rightarrow> sess_value option"
  sd_flashes :: "flash_message list"

record session =
  se_data :: sess_data
  se_written :: bool
  se_cookie :: sess_data

definition empty_data :: sess_data where
  "empty_data = \<lparr>sd_vals = Map.empty, sd_flashes = []\<rparr>"

text \<open>The session of a new request with this cookie.\<close>

definition open_session :: "sess_data \<Rightarrow> session" where
  "open_session ck = \<lparr>se_data = ck, se_written = False, se_cookie = ck\<rparr>"

definition sess_Get :: "string \<Rightarrow> session \<Rightarrow> sess_value option" where
  "sess_Get k s = sd_vals (se_data s) k"

definition sess_Set :: "string \<Rightarrow> sess_value \<Rightarrow> session \<Rightarrow> session" where
  "sess_Set k v s = s\<lparr>se_data := (se_data s)\<lparr>sd_vals := (sd_vals (se_data s))(k \<mapsto> v)\<rparr>, se_written := True\<rparr>"

definition sess_Delete :: "string \<Rightarrow> session \<Rightarrow> session" where
  "sess_Delete k s = s\<lparr>se_data := (se_data s)\<lparr>sd_vals := (sd_vals (se_data s))(k := None)\<rparr>, se_written := True\<rparr>"

definition sess_Clear :: "session \<Rightarrow> session" where
  "sess_Clear s = (if se_data s = empty_data then s else s\<lparr>se_data := empty_data, se_written := True\<rparr>)"

definition sess_Save :: "(sess_data \<Rightarrow> bool) \<Rightarrow> session \<Rightarrow> session \<times> bool" where
  "sess_Save fits s =
     (if \<not> se_written s then (s, True)
      else if fits (se_data s) then (s\<lparr>se_cookie := se_data s, se_written := False\<rparr>, True)
      else (s, False))"

lemmas sess_defs = sess_Get_def sess_Set_def sess_Delete_def sess_Clear_def sess_Save_def open_session_def empty_data_def

section \<open>Flash messages\<close>

definition FlashInfo :: string where "FlashInfo = ''info''"
definition FlashSuccess :: string where "FlashSuccess = ''success''"

definition AddFlash :: "(sess_data \<Rightarrow> bool) \<Rightarrow> string \<Rightarrow> string \<Rightarrow> session \<Rightarrow> session" where
  "AddFlash fits sev txt s =
     fst (sess_Save fits (s\<lparr>se_data := (se_data s)\<lparr>sd_flashes := sd_flashes (se_data s)
            @ [\<lparr>fm_Severity = sev, fm_Text = txt\<rparr>]\<rparr>, se_written := True\<rparr>))"

definition ReadFlashes :: "(sess_data \<Rightarrow> bool) \<Rightarrow> session \<Rightarrow> session \<times> flash_message list" where
  "ReadFlashes fits s =
     (let raw = sd_flashes (se_data s);
          s1 = s\<lparr>se_data := (se_data s)\<lparr>sd_flashes := []\<rparr>, se_written := True\<rparr>
      in if raw = [] then (s1, []) else (fst (sess_Save fits s1), raw))"

section \<open>The token shown once\<close>

definition sessionKeyOneShotToken :: string where "sessionKeyOneShotToken = ''one_shot_token''"
definition sessionKeyOneShotTokenName :: string where "sessionKeyOneShotTokenName = ''one_shot_token_name''"

definition SetOneShotToken :: "(sess_data \<Rightarrow> bool) \<Rightarrow> string \<Rightarrow> string \<Rightarrow> session \<Rightarrow> session \<times> bool" where
  "SetOneShotToken fits plaintext name s = sess_Save fits (sess_Set sessionKeyOneShotToken (SToken plaintext name) s)"

definition PopOneShotToken :: "(sess_data \<Rightarrow> bool) \<Rightarrow> session \<Rightarrow> session \<times> string" where
  "PopOneShotToken fits s =
     (case sess_Get sessionKeyOneShotToken s of
        None \<Rightarrow> (s, [])
      | Some raw \<Rightarrow>
          (let s1 = fst (sess_Save fits (sess_Delete sessionKeyOneShotToken s)) in
           (case raw of
              SToken plain name \<Rightarrow>
                (fst (sess_Save fits (sess_Set sessionKeyOneShotTokenName (SText name) s1)), plain)
            | _ \<Rightarrow> (s1, []))))"

text \<open>\<open>Get\<close>, a type assertion whose failure gives the empty string, \<open>Delete\<close> and \<open>Save\<close>.\<close>

definition pop_text :: "(sess_data \<Rightarrow> bool) \<Rightarrow> string \<Rightarrow> session \<Rightarrow> session \<times> string" where
  "pop_text fits k s =
     (case sess_Get k s of
        None \<Rightarrow> (s, [])
      | Some raw \<Rightarrow>
          (fst (sess_Save fits (sess_Delete k s)), (case raw of SText t \<Rightarrow> t | _ \<Rightarrow> [])))"

definition PopOneShotTokenName :: "(sess_data \<Rightarrow> bool) \<Rightarrow> session \<Rightarrow> session \<times> string" where
  "PopOneShotTokenName fits s = pop_text fits sessionKeyOneShotTokenName s"

section \<open>Signing in and out\<close>

definition sessionKeyUserID :: string where "sessionKeyUserID = ''user_id''"
definition sessionKeyReturnTo :: string where "sessionKeyReturnTo = ''return_to''"

definition LoginSession :: "(sess_data \<Rightarrow> bool) \<Rightarrow> int \<Rightarrow> session \<Rightarrow> session \<times> bool" where
  "LoginSession fits userID s = sess_Save fits (sess_Set sessionKeyUserID (SInt userID) s)"

definition LogoutSession :: "(sess_data \<Rightarrow> bool) \<Rightarrow> session \<Rightarrow> session \<times> bool" where
  "LogoutSession fits s = sess_Save fits (sess_Clear s)"

definition StashReturnTo :: "(sess_data \<Rightarrow> bool) \<Rightarrow> string \<Rightarrow> session \<Rightarrow> session \<times> bool" where
  "StashReturnTo fits url s =
     (if url = [] \<or> url = ''/console/login'' then (s, True)
      else sess_Save fits (sess_Set sessionKeyReturnTo (SText url) s))"

definition PopReturnTo :: "(sess_data \<Rightarrow> bool) \<Rightarrow> session \<Rightarrow> session \<times> string" where
  "PopReturnTo fits s = pop_text fits sessionKeyReturnTo s"

definition SessionAuthenticate :: "(sess_data \<Rightarrow> bool) \<Rightarrow> db \<Rightarrow> session
    \<Rightarrow> session \<times> (go_error, identity option) result" where
  "SessionAuthenticate fits d s =
     (case sess_Get sessionKeyUserID s of
        None \<Rightarrow> (s, Inr None)
      | Some (SInt uid) \<Rightarrow>
          (case users_GetByID d uid of
             Inl e \<Rightarrow>
               (if e = ErrUserNotExist then (fst (sess_Save fits (sess_Clear s)), Inr None)
                else (s, Inl e))
           | Inr u \<Rightarrow>
               (s, Inr (Some \<lparr>id_User = Some u, id_Token = None, id_Memberships = Memberships d (usr_ID u),
                              id_Kind = CredentialSession\<rparr>)))
      | Some _ \<Rightarrow> (fst (sess_Save fits (sess_Clear s)), Inr None))"

section \<open>Signing in by a proxy's headers\<close>

record proxy_auth =
  pa_UserHeader :: string
  pa_EmailHeader :: string
  pa_GroupsHeader :: string
  pa_TrustedProxies :: "string list"
  pa_BootstrapAdmin :: string

definition headerName :: "string \<Rightarrow> string \<Rightarrow> string" where
  "headerName configured fallback = (if configured \<noteq> [] then configured else fallback)"

definition matchesBootstrap :: "proxy_auth \<Rightarrow> user \<Rightarrow> bool" where
  "matchesBootstrap a u =
     (if pa_BootstrapAdmin a = [] then False
      else (let want = to_lower (trim_space (pa_BootstrapAdmin a)) in
            to_lower (usr_Name u) = want
            \<or> (case usr_Email u of None \<Rightarrow> False | Some e \<Rightarrow> to_lower e = want)))"

definition Promote :: "int \<Rightarrow> db \<Rightarrow> db" where
  "Promote userID d =
     d\<lparr>db_users := update_where (\<lambda>u. usr_ID u = userID) (\<lambda>u. u\<lparr>usr_IsAdmin := True\<rparr>) (db_users d)\<rparr>"

definition ProxyAuthenticate :: "int \<Rightarrow> proxy_auth \<Rightarrow> console_request \<Rightarrow> db
    \<Rightarrow> db \<times> (go_error, identity option) result" where
  "ProxyAuthenticate now a r d =
     (if \<not> isTrustedPeer (pa_TrustedProxies a) r then (d, Inr None)
      else (let rawUser = trim_space (header_Get r (headerName (pa_UserHeader a) ''X-Forwarded-User'')) in
        if rawUser = [] then (d, Inr None)
        else (let rawEmail = trim_space (header_Get r (headerName (pa_EmailHeader a) ''X-Forwarded-Email'')) in
          (case users_GetOrCreate now rawUser rawEmail d of
             (d1, Inl e) \<Rightarrow> (d1, Inl e)
           | (d1, Inr u) \<Rightarrow>
               (let (d2, u') =
                  (if pa_BootstrapAdmin a \<noteq> [] \<and> \<not> usr_IsAdmin u \<and> matchesBootstrap a u
                   then (Promote (usr_ID u) d1, u\<lparr>usr_IsAdmin := True\<rparr>) else (d1, u))
                in (d2, Inr (Some \<lparr>id_User = Some u', id_Token = None,
                              id_Memberships = Memberships d2 (usr_ID u'), id_Kind = CredentialProxy\<rparr>)))))))"

section \<open>Route gates\<close>

definition see_other :: "string \<Rightarrow> response" where
  "see_other url = \<lparr>rs_Status = 303, rs_Headers = [(''Location'', url)], rs_Body = NoBody\<rparr>"

definition signed_in :: "identity option \<Rightarrow> bool" where
  "signed_in idn = (case idn of None \<Rightarrow> False | Some i \<Rightarrow> id_User i \<noteq> None)"

definition RequireAuth :: "(sess_data \<Rightarrow> bool) \<Rightarrow> string \<Rightarrow> console_request \<Rightarrow> identity option \<Rightarrow> session
    \<Rightarrow> session \<times> unit step" where
  "RequireAuth fits authMode r idn s =
     (if signed_in idn then (s, Inr ())
      else if authMode = ''proxy-header'' then
        (s, Inl (reply 401 (Text ''unauthorized: upstream proxy did not set the user header (check PKGMIRROR_CONSOLE_AUTH_USER_HEADER + your reverse proxy config)'')))
      else (fst (StashReturnTo fits (rq_URI r) s), Inl (see_other ''/console/login'')))"

definition RequireSystemAdmin :: "identity option \<Rightarrow> unit step" where
  "RequireSystemAdmin idn =
     (case idn of
        None \<Rightarrow> Inl (reply 403 (Text ''system admin only''))
      | Some i \<Rightarrow> if \<not> IsSystemAdmin i then Inl (reply 403 (Text ''system admin only'')) else Inr ())"

text \<open>The step goes on with the tenant it stores as the active one.\<close>

definition RequireTenantMember :: "db \<Rightarrow> string \<Rightarrow> identity option \<Rightarrow> tenant step" where
  "RequireTenantMember d name idn =
     (if name = [] then Inl (reply 404 (Text ''tenant not specified''))
      else case tenants_GetByName d name of
          Inl e \<Rightarrow> Inl (reply 404 (Text ''tenant not found''))
        | Inr t \<Rightarrow>
            (case idn of
               None \<Rightarrow> Inl (reply 403 (Text ''no access to this tenant''))
             | Some i \<Rightarrow>
                 (if \<not> CanRead i (ten_ID t) then Inl (reply 403 (Text ''no access to this tenant'')) else Inr t)))"

section \<open>What a request cannot do to a session\<close>

lemma sess_Get_simps [simp]:
  "sess_Get k (sess_Set k v s) = Some v"
  "k \<noteq> k' \<Longrightarrow> sess_Get k (sess_Set k' v s) = sess_Get k s"
  "sess_Get k (sess_Delete k s) = None"
  "k \<noteq> k' \<Longrightarrow> sess_Get k (sess_Delete k' s) = sess_Get k s"
  "sess_Get k (fst (sess_Save fits s)) = sess_Get k s"
  "sess_Get k (AddFlash fits sev txt s) = sess_Get k s"
  "sess_Get k (fst (ReadFlashes fits s)) = sess_Get k s"
  by (auto simp: sess_defs AddFlash_def ReadFlashes_def Let_def)

lemma sess_keys [simp]:
  "sessionKeyUserID \<noteq> sessionKeyReturnTo" "sessionKeyReturnTo \<noteq> sessionKeyUserID"
  "sessionKeyOneShotToken \<noteq> sessionKeyOneShotTokenName" "sessionKeyOneShotTokenName \<noteq> sessionKeyOneShotToken"
  "sessionKeyUserID \<noteq> sessionKeyOneShotToken" "sessionKeyUserID \<noteq> sessionKeyOneShotTokenName"
  by (simp_all add: sessionKeyUserID_def sessionKeyReturnTo_def sessionKeyOneShotToken_def sessionKeyOneShotTokenName_def)

end
