(* ===== verification/Console_Login.thy ===== *)
theory Console_Login
  imports Console_Session Audit_Log
begin

text \<open>
  Signing in to the console (\<open>internal/console/login.go\<close>) with what every page shares from
  \<open>console.go\<close>: \<open>baseData\<close>, the render functions and the chain of a request. The state is the
  database, the limiter of sign-in attempts, the audit logger (when there is one) and the browser session. A
  rendered page is its status, the data of its chrome and the data of its body; the templates are assets.
  \<open>None\<close>: the handler panics, which it does when it logs to a closed logger.

  \<open>ce_verify\<close> and \<open>ce_hash\<close> are the Argon2 functions \<open>VerifyHash\<close> and \<open>HashPassword\<close>; \<open>ce_mono\<close> is the
  monotonic clock in nanoseconds. Failures to save the session are decided by \<open>ce_fits\<close>.
\<close>

record console_env =
  ce_now :: int
  ce_mono :: int
  ce_fits :: "sess_data \<Rightarrow> bool"
  ce_verify :: "string \<Rightarrow> string \<Rightarrow> (go_error, unit) result"
  ce_hash :: "string \<Rightarrow> (go_error, string) result"
  ce_random :: "string option"

record console_config =
  cf_AuthMode :: string
  cf_TrustedProxies :: "string list"

record console =
  cs_db :: db
  cs_limit :: login_limiter
  cs_audit :: "buffered_logger option"
  cs_session :: session

record base_data =
  bd_Identity :: "identity option"
  bd_Flash :: "flash_message list"
  bd_Memberships :: "tenant list"

datatype page_body =
    LoginForm string "(string \<times> string) list"
  | SetPasswordForm string "(string \<times> string) list"
  | TokensList "token list" string string
  | ErrorBody string string
  | NotFoundBody string
  | ForbiddenBody string

datatype console_reply =
    Redirect string
  | TooManyRequests
  | Page int base_data page_body

section \<open>What every page shares\<close>

text \<open>The random bytes of a request id; \<open>rand.Read\<close> failing leaves eight zero bytes.\<close>

definition RequestID :: "string option \<Rightarrow> console_request \<Rightarrow> string" where
  "RequestID rnd r =
     (let i = header_Get r ''X-Request-ID'' in
      if i \<noteq> [] then i
      else (case rnd of None \<Rightarrow> ''rid-err-0000000000000000'' | Some b \<Rightarrow> hex_encode b))"

definition baseData :: "console_env \<Rightarrow> identity option \<Rightarrow> console \<Rightarrow> console \<times> base_data" where
  "baseData ce idn c =
     (case ReadFlashes (ce_fits ce) (cs_session c) of
        (s, flashes) \<Rightarrow>
          (c\<lparr>cs_session := s\<rparr>,
           \<lparr>bd_Identity = idn, bd_Flash = flashes,
            bd_Memberships = (case idn of
                None \<Rightarrow> []
              | Some i \<Rightarrow> if id_User i = None then []
                          else filter (\<lambda>t. CanRead i (ten_ID t)) (tenants_List (cs_db c)))\<rparr>))"

definition render :: "console_env \<Rightarrow> identity option \<Rightarrow> int \<Rightarrow> page_body \<Rightarrow> console \<Rightarrow> console \<times> console_reply" where
  "render ce idn status body c = (case baseData ce idn c of (c', base) \<Rightarrow> (c', Page status base body))"

definition RenderError :: "console_env \<Rightarrow> console_request \<Rightarrow> identity option \<Rightarrow> string \<Rightarrow> console
    \<Rightarrow> console \<times> console_reply" where
  "RenderError ce r idn verb c = render ce idn 500 (ErrorBody verb (RequestID (ce_random ce) r)) c"

definition RenderForbidden :: "console_env \<Rightarrow> identity option \<Rightarrow> string \<Rightarrow> console \<Rightarrow> console \<times> console_reply" where
  "RenderForbidden ce idn msg c = render ce idn 403 (ForbiddenBody msg) c"

definition RenderNotFound :: "console_env \<Rightarrow> identity option \<Rightarrow> string \<Rightarrow> console \<Rightarrow> console \<times> console_reply" where
  "RenderNotFound ce idn msg c = render ce idn 404 (NotFoundBody msg) c"

definition console_flash :: "console_env \<Rightarrow> string \<Rightarrow> string \<Rightarrow> console \<Rightarrow> console" where
  "console_flash ce sev txt c = c\<lparr>cs_session := AddFlash (ce_fits ce) sev txt (cs_session c)\<rparr>"

definition login_event :: "console_env \<Rightarrow> console_config \<Rightarrow> console_request \<Rightarrow> user option \<Rightarrow> string \<Rightarrow> string \<Rightarrow> event" where
  "login_event ce cf r u act reason =
     \<lparr>ev_CreatedUnix = 0, ev_UserID = (case u of None \<Rightarrow> 0 | Some x \<Rightarrow> usr_ID x), ev_TokenID = 0,
      ev_RequestID = RequestID (ce_random ce) r, ev_RemoteAddr = ClientIPFor r (cf_TrustedProxies cf),
      ev_UserAgent = header_Get r ''User-Agent'', ev_ActorKind = ''session'', ev_TenantID = 0, ev_Action = act,
      ev_Format = [], ev_Package = [], ev_Version = [], ev_Filename = [], ev_Decision = [], ev_RuleID = 0,
      ev_Reason = reason, ev_Extra = []\<rparr>"

definition auditLogin :: "console_env \<Rightarrow> console_config \<Rightarrow> console_request \<Rightarrow> user option \<Rightarrow> string \<Rightarrow> string
    \<Rightarrow> console \<Rightarrow> console option" where
  "auditLogin ce cf r u act reason c =
     (case cs_audit c of
        None \<Rightarrow> Some c
      | Some l \<Rightarrow> map_option (\<lambda>l'. c\<lparr>cs_audit := Some l'\<rparr>) (logger_Log (ce_now ce) (login_event ce cf r u act reason) l))"

text \<open>\<open>c.loginLimit.Forget(ClientIPFor(...))\<close>.\<close>

definition forget_client :: "console_config \<Rightarrow> console_request \<Rightarrow> console \<Rightarrow> console" where
  "forget_client cf r c = c\<lparr>cs_limit := Forget (ClientIPFor r (cf_TrustedProxies cf)) (cs_limit c)\<rparr>"

section \<open>The handlers\<close>

definition loginPage :: "console_env \<Rightarrow> console_config \<Rightarrow> identity option \<Rightarrow> console \<Rightarrow> console \<times> console_reply" where
  "loginPage ce cf idn c =
     (if cf_AuthMode cf = ''proxy-header'' then
        RenderForbidden ce idn ''Login form is not available in proxy-header mode. Configure your upstream auth proxy and reload.'' c
      else if signed_in idn then (c, Redirect ''/console/'')
      else render ce idn 200 (LoginForm [] []) c)"

definition login_failed :: "console_env \<Rightarrow> identity option \<Rightarrow> string \<Rightarrow> console \<Rightarrow> console \<times> console_reply" where
  "login_failed ce idn username c =
     render ce idn 200 (LoginForm username [(''form'', ''Sign-in failed. Check your username and password.'')]) c"

definition login_succeeded :: "console_env \<Rightarrow> console_config \<Rightarrow> console_request \<Rightarrow> identity option \<Rightarrow> user \<Rightarrow> console
    \<Rightarrow> (console \<times> console_reply) option" where
  "login_succeeded ce cf r idn u c =
     (case LoginSession (ce_fits ce) (usr_ID u) (cs_session c) of
        (s, False) \<Rightarrow> Some (RenderError ce r idn ''save session'' (c\<lparr>cs_session := s\<rparr>))
      | (s, True) \<Rightarrow>
          (case auditLogin ce cf r (Some u) ''console.login'' [] (forget_client cf r (c\<lparr>cs_session := s\<rparr>)) of
             None \<Rightarrow> None
           | Some c1 \<Rightarrow>
               (let c2 = console_flash ce FlashSuccess ''Signed in.'' c1 in
                (case PopReturnTo (ce_fits ce) (cs_session c2) of
                   (s', target) \<Rightarrow>
                     Some (c2\<lparr>cs_session := s'\<rparr>,
                       Redirect (if target = [] \<or> \<not> has_prefix target ''/console'' then ''/console/'' else target))))))"

definition loginSubmit :: "console_env \<Rightarrow> console_config \<Rightarrow> console_request \<Rightarrow> (string \<Rightarrow> string) \<Rightarrow> identity option
    \<Rightarrow> console \<Rightarrow> (console \<times> console_reply) option" where
  "loginSubmit ce cf r form idn c =
     (if cf_AuthMode cf = ''proxy-header'' then
        Some (RenderForbidden ce idn ''Login is not available in proxy-header mode.'' c)
      else (let username = trim_space (form ''username''); password = form ''password'' in
        if username = [] \<or> password = [] then Some (login_failed ce idn username c)
        else case VerifyPassword (ce_verify ce) (cs_db c) username password of
            Inr u \<Rightarrow> login_succeeded ce cf r idn u c
          | Inl e \<Rightarrow>
              (if e = ErrNoPassword then
                 map_option (\<lambda>c1. (c1, Redirect (''/console/set-password?username='' @ username)))
                   (auditLogin ce cf r None ''console.login.no_password'' ''user has no password set'' c)
               else if e = ErrPasswordMismatch \<or> e = ErrUserNotExist then
                 map_option (login_failed ce idn username)
                   (auditLogin ce cf r None ''console.login.deny'' ''bad credentials'' c)
               else Some (RenderError ce r idn ''sign in'' c))))"

definition logout :: "console_env \<Rightarrow> console_config \<Rightarrow> console_request \<Rightarrow> identity option \<Rightarrow> console
    \<Rightarrow> (console \<times> console_reply) option" where
  "logout ce cf r idn c =
     (let u = (case idn of None \<Rightarrow> None | Some i \<Rightarrow> id_User i);
          c1 = c\<lparr>cs_session := fst (LogoutSession (ce_fits ce) (cs_session c))\<rparr>
      in map_option (\<lambda>c2. (console_flash ce FlashInfo ''Signed out.'' c2,
             Redirect (if cf_AuthMode cf = ''proxy-header'' then ''/console/_ping'' else ''/console/login'')))
           (auditLogin ce cf r u ''console.logout'' [] c1))"

definition setPasswordPage :: "console_env \<Rightarrow> console_config \<Rightarrow> string \<Rightarrow> identity option \<Rightarrow> console
    \<Rightarrow> console \<times> console_reply" where
  "setPasswordPage ce cf username idn c =
     (if cf_AuthMode cf = ''proxy-header'' then
        RenderForbidden ce idn ''Set-password is not available in proxy-header mode.'' c
      else render ce idn 200 (SetPasswordForm (trim_space username) []) c)"

definition set_failed :: "console_env \<Rightarrow> identity option \<Rightarrow> string \<Rightarrow> string \<Rightarrow> string \<Rightarrow> console
    \<Rightarrow> console \<times> console_reply" where
  "set_failed ce idn username field msg c = render ce idn 200 (SetPasswordForm username [(field, msg)]) c"

definition set_generic :: string where
  "set_generic = ''Couldn't set password. Check your username, personal access token, and that both password fields match.''"

definition set_password_for :: "console_env \<Rightarrow> console_config \<Rightarrow> console_request \<Rightarrow> identity option \<Rightarrow> user \<Rightarrow> string
    \<Rightarrow> console \<Rightarrow> (console \<times> console_reply) option" where
  "set_password_for ce cf r idn u newPw c =
     (case ce_hash ce newPw of
        Inl e \<Rightarrow> Some (RenderError ce r idn ''hash password'' c)
      | Inr hashed \<Rightarrow>
          (case SetPasswordHash (ce_now ce) (usr_ID u) hashed (cs_db c) of
             (d', Inl e) \<Rightarrow> Some (RenderError ce r idn ''save password'' (c\<lparr>cs_db := d'\<rparr>))
           | (d', Inr _) \<Rightarrow>
               (case LoginSession (ce_fits ce) (usr_ID u) (cs_session c) of
                  (s, False) \<Rightarrow> Some (RenderError ce r idn ''save session'' (c\<lparr>cs_db := d', cs_session := s\<rparr>))
                | (s, True) \<Rightarrow>
                    map_option (\<lambda>c1. (console_flash ce FlashSuccess ''Password set. You're signed in.'' c1, Redirect ''/console/''))
                      (auditLogin ce cf r (Some u) ''console.password.set'' []
                         (forget_client cf r (c\<lparr>cs_db := d', cs_session := s\<rparr>))))))"

definition setPasswordSubmit :: "console_env \<Rightarrow> console_config \<Rightarrow> console_request \<Rightarrow> (string \<Rightarrow> string) \<Rightarrow> identity option
    \<Rightarrow> console \<Rightarrow> (console \<times> console_reply) option" where
  "setPasswordSubmit ce cf r form idn c =
     (if cf_AuthMode cf = ''proxy-header'' then
        Some (RenderForbidden ce idn ''Set-password is not available in proxy-header mode.'' c)
      else (let username = trim_space (form ''username''); plaintextToken = trim_space (form ''token'');
                newPw = form ''new_password''; confirm = form ''confirm_password'';
                deny = (\<lambda>u reason. map_option (set_failed ce idn username ''form'' set_generic)
                          (auditLogin ce cf r u ''console.password.set.deny'' reason c))
            in
        if username = [] \<or> plaintextToken = [] \<or> newPw = [] \<or> confirm = [] then
          Some (set_failed ce idn username ''form'' set_generic c)
        else if newPw \<noteq> confirm then
          Some (set_failed ce idn username ''confirm_password'' ''Passwords don't match.'' c)
        else if length newPw < 12 then
          Some (set_failed ce idn username ''new_password'' ''Use at least 12 characters.'' c)
        else case users_GetByName (cs_db c) username of
            Inl e \<Rightarrow>
              (if e = ErrUserNotExist then deny None ''no such user''
               else Some (RenderError ce r idn ''look up user'' c))
          | Inr u \<Rightarrow>
              (case tokens_Lookup (ce_now ce) (cs_db c) plaintextToken of
                 Inl e \<Rightarrow>
                   (if e = ErrTokenNotExist \<or> e = ErrTokenExpired then deny (Some u) ''bad token''
                    else Some (RenderError ce r idn ''verify token'' c))
               | Inr tok \<Rightarrow>
                   (if tok_UserID tok \<noteq> usr_ID u then deny (Some u) ''token belongs to different user''
                    else set_password_for ce cf r idn u newPw c))))"

section \<open>A request\<close>

text \<open>The identity of a request: the middleware of \<open>auth\<close> over the configured authenticator.\<close>

datatype authenticator = SessionAuth | ProxyAuth proxy_auth

definition console_identity :: "console_env \<Rightarrow> authenticator \<Rightarrow> console_request \<Rightarrow> console \<Rightarrow> console \<times> identity option" where
  "console_identity ce au r c =
     (case au of
        SessionAuth \<Rightarrow>
          (case SessionAuthenticate (ce_fits ce) (cs_db c) (cs_session c) of
             (s, res) \<Rightarrow> (c\<lparr>cs_session := s\<rparr>, (case res of Inl e \<Rightarrow> None | Inr i \<Rightarrow> i)))
      | ProxyAuth a \<Rightarrow>
          (case ProxyAuthenticate (ce_now ce) a r (cs_db c) of
             (d, res) \<Rightarrow> (c\<lparr>cs_db := d\<rparr>, (case res of Inl e \<Rightarrow> None | Inr i \<Rightarrow> i))))"

text \<open>A route behind the limiter: \<open>LoginRateLimitMiddleware\<close> and then the handler.\<close>

definition rate_limited :: "console_env \<Rightarrow> console_config \<Rightarrow> console_request
    \<Rightarrow> (console \<Rightarrow> (console \<times> console_reply) option) \<Rightarrow> console \<Rightarrow> (console \<times> console_reply) option" where
  "rate_limited ce cf r handler c =
     (case login_Allow (ce_mono ce) (ClientIPFor r (cf_TrustedProxies cf)) (cs_limit c) of
        (l, ok) \<Rightarrow>
          (let c' = c\<lparr>cs_limit := l\<rparr> in
           if \<not> ok then Some (c', TooManyRequests) else handler c'))"

text \<open>\<open>POST /console/login\<close> and \<open>POST /console/set-password\<close> from a browser holding the cookie \<open>ck\<close>.\<close>

definition post_login :: "console_env \<Rightarrow> console_config \<Rightarrow> authenticator \<Rightarrow> console_request \<Rightarrow> (string \<Rightarrow> string)
    \<Rightarrow> sess_data \<Rightarrow> console \<Rightarrow> (console \<times> console_reply) option" where
  "post_login ce cf au r form ck c =
     (case console_identity ce au r (c\<lparr>cs_session := open_session ck\<rparr>) of
        (c1, idn) \<Rightarrow> rate_limited ce cf r (loginSubmit ce cf r form idn) c1)"

definition post_set_password :: "console_env \<Rightarrow> console_config \<Rightarrow> authenticator \<Rightarrow> console_request \<Rightarrow> (string \<Rightarrow> string)
    \<Rightarrow> sess_data \<Rightarrow> console \<Rightarrow> (console \<times> console_reply) option" where
  "post_set_password ce cf au r form ck c =
     (case console_identity ce au r (c\<lparr>cs_session := open_session ck\<rparr>) of
        (c1, idn) \<Rightarrow> rate_limited ce cf r (setPasswordSubmit ce cf r form idn) c1)"

end
