(* ===== verification/Console_Laws.thy ===== *)
theory Console_Laws
  imports Console_Login Auth_Laws
begin

text \<open>
  What signing in to the console guarantees, and where it gives more than it was given: whose identity a session can
  carry, that a sign-in takes the browser back to where it was, what an access token of any scope is
  worth at the set-password form, how the limiter of attempts is emptied, and what proxies' headers may do.
\<close>

section \<open>Sessions through a request\<close>

text \<open>The user a session carries, in memory and in the cookie, is among \<open>V\<close>.\<close>

definition user_within :: "sess_value option set \<Rightarrow> session \<Rightarrow> bool" where
  "user_within V s \<longleftrightarrow> sess_Get sessionKeyUserID s \<in> V \<and> sd_vals (se_cookie s) sessionKeyUserID \<in> V"

lemma user_within_Save: "user_within V s \<Longrightarrow> user_within V (fst (sess_Save fits s))"
  by (auto simp: user_within_def sess_defs)

lemma user_within_touch:
  "user_within V s \<Longrightarrow> k \<noteq> sessionKeyUserID \<Longrightarrow> user_within V (sess_Set k v s)"
  "user_within V s \<Longrightarrow> k \<noteq> sessionKeyUserID \<Longrightarrow> user_within V (sess_Delete k s)"
  "user_within V s \<Longrightarrow> Some x \<in> V \<Longrightarrow> user_within V (sess_Set sessionKeyUserID x s)"
  "user_within V s \<Longrightarrow> None \<in> V \<Longrightarrow> user_within V (sess_Clear s)"
  by (auto simp: user_within_def sess_defs)

lemma user_within_AddFlash: "user_within V s \<Longrightarrow> user_within V (AddFlash fits sev txt s)"
  by (auto simp: user_within_def sess_defs AddFlash_def)

lemma user_within_ReadFlashes: "user_within V s \<Longrightarrow> user_within V (fst (ReadFlashes fits s))"
  by (auto simp: user_within_def sess_defs ReadFlashes_def Let_def)

lemma user_within_PopReturnTo: "user_within V s \<Longrightarrow> user_within V (fst (PopReturnTo fits s))"
  by (auto simp: PopReturnTo_def pop_text_def split: option.splits intro!: user_within_Save user_within_touch)

lemma user_within_login: "user_within V s \<Longrightarrow> Some (SInt i) \<in> V \<Longrightarrow> user_within V (fst (LoginSession fits i s))"
  by (auto simp: LoginSession_def intro!: user_within_Save user_within_touch)

lemma user_within_logout: "user_within V s \<Longrightarrow> None \<in> V \<Longrightarrow> user_within V (fst (LogoutSession fits s))"
  by (auto simp: LogoutSession_def intro!: user_within_Save user_within_touch)

lemma LoginSession_ok:
  assumes "LoginSession fits i s = (s', True)"
  shows "user_within {Some (SInt i)} s'"
  using assms by (auto simp: LoginSession_def user_within_def sess_defs split: if_splits)

lemma LoginSession_fits: "\<forall>x. fits x \<Longrightarrow> \<exists>s'. LoginSession fits i s = (s', True)"
  by (simp add: LoginSession_def sess_defs)

lemma auditLogin_keeps:
  "auditLogin ce cf r u act reason c = Some c' \<Longrightarrow>
     cs_session c' = cs_session c \<and> cs_db c' = cs_db c \<and> cs_limit c' = cs_limit c"
  by (auto simp: auditLogin_def split: option.splits)

text \<open>The logger, if there is one, is open: logging never panics.\<close>

definition audit_open :: "console \<Rightarrow> bool" where
  "audit_open c = (case cs_audit c of None \<Rightarrow> True | Some l \<Rightarrow> \<not> bl_closed l)"

lemma auditLogin_open:
  "audit_open c \<Longrightarrow> \<exists>c'. auditLogin ce cf r u act reason c = Some c' \<and> audit_open c'"
  by (auto simp: audit_open_def auditLogin_def logger_Log_def Let_def split: option.splits)

lemma render_keeps:
  assumes "render ce idn status body c = (c', rep)"
  shows "cs_db c' = cs_db c" "cs_limit c' = cs_limit c" "audit_open c' = audit_open c"
    "user_within V (cs_session c) \<Longrightarrow> user_within V (cs_session c')" "\<exists>base. rep = Page status base body"
  using assms user_within_ReadFlashes [of V "cs_session c" "ce_fits ce"]
  by (auto simp: render_def baseData_def audit_open_def split: prod.splits)

lemmas page_defs = login_failed_def set_failed_def RenderError_def RenderForbidden_def

lemma forget_client_keeps [simp]:
  "cs_session (forget_client cf r c) = cs_session c" "cs_db (forget_client cf r c) = cs_db c"
  "cs_audit (forget_client cf r c) = cs_audit c" "audit_open (forget_client cf r c) = audit_open c"
  by (simp_all add: forget_client_def audit_open_def)

lemma console_flash_keeps [simp]:
  "cs_db (console_flash ce sev txt c) = cs_db c" "cs_limit (console_flash ce sev txt c) = cs_limit c"
  "audit_open (console_flash ce sev txt c) = audit_open c"
  "user_within V (cs_session c) \<Longrightarrow> user_within V (cs_session (console_flash ce sev txt c))"
  by (simp_all add: console_flash_def audit_open_def user_within_AddFlash)

section \<open>Whose session it is\<close>

lemma login_succeeded_within:
  assumes "login_succeeded ce cf r idn u c = Some (c', rep)" and "user_within V (cs_session c)"
    and "Some (SInt (usr_ID u)) \<in> V"
  shows "user_within V (cs_session c') \<and> cs_db c' = cs_db c"
proof -
  obtain s ok where l: "LoginSession (ce_fits ce) (usr_ID u) (cs_session c) = (s, ok)" by fastforce
  with user_within_login [OF assms(2,3), of "ce_fits ce"] have s: "user_within V s" by simp
  show ?thesis
  proof (cases ok)
    case False
    then show ?thesis
      using assms(1) l s by (auto simp: login_succeeded_def page_defs dest: render_keeps)
  next
    case True
    then obtain c1 where a: "auditLogin ce cf r (Some u) ''console.login'' [] (forget_client cf r (c\<lparr>cs_session := s\<rparr>)) = Some c1"
      using assms(1) l by (auto simp: login_succeeded_def split: option.splits)
    define c2 where "c2 = console_flash ce FlashSuccess ''Signed in.'' c1"
    have "c' = c2\<lparr>cs_session := fst (PopReturnTo (ce_fits ce) (cs_session c2))\<rparr>"
      using assms(1) l True a by (auto simp: login_succeeded_def Let_def c2_def split: prod.splits)
    moreover have "user_within V (cs_session c2)" "cs_db c2 = cs_db c"
      using auditLogin_keeps [OF a] s by (simp_all add: c2_def)
    ultimately show ?thesis by (simp add: user_within_PopReturnTo)
  qed
qed

lemma page_within:
  "render ce idn status body c = (c', rep) \<Longrightarrow> user_within V (cs_session c) \<Longrightarrow> user_within V (cs_session c')"
  by (rule render_keeps)

lemma loginSubmit_within:
  assumes "loginSubmit ce cf r form idn c = Some (c', rep)" and "user_within V (cs_session c)"
    and "\<forall>u. VerifyPassword (ce_verify ce) (cs_db c) (trim_space (form ''username'')) (form ''password'') = Inr u
      \<longrightarrow> Some (SInt (usr_ID u)) \<in> V"
  shows "user_within V (cs_session c') \<and> cs_db c' = cs_db c"
  using assms login_succeeded_within [where V = V]
  by (auto simp: loginSubmit_def Let_def page_defs split: if_splits sum.splits
      dest!: auditLogin_keeps dest: page_within render_keeps(1))

lemma set_password_for_within:
  assumes "set_password_for ce cf r idn u newPw c = Some (c', rep)" and "user_within V (cs_session c)"
    and "Some (SInt (usr_ID u)) \<in> V"
  shows "user_within V (cs_session c')"
proof (cases "ce_hash ce newPw")
  case (Inl e)
  then show ?thesis using assms by (auto simp: set_password_for_def page_defs dest: page_within)
next
  case (Inr hashed)
  obtain d' res where sp: "SetPasswordHash (ce_now ce) (usr_ID u) hashed (cs_db c) = (d', res)" by fastforce
  obtain s ok where l: "LoginSession (ce_fits ce) (usr_ID u) (cs_session c) = (s, ok)" by fastforce
  with user_within_login [OF assms(2,3), of "ce_fits ce"] have s: "user_within V s" by simp
  show ?thesis
  proof (cases res)
    case (Inl e)
    then show ?thesis
      using assms Inr sp by (auto simp: set_password_for_def page_defs dest: page_within)
  next
    case (Inr x)
    then show ?thesis
      using assms(1) \<open>ce_hash ce newPw = Inr hashed\<close> sp l s
      by (cases ok) (auto simp: set_password_for_def page_defs dest!: auditLogin_keeps dest: page_within)
  qed
qed

lemma setPasswordSubmit_within:
  assumes "setPasswordSubmit ce cf r form idn c = Some (c', rep)" and "user_within V (cs_session c)"
    and "\<forall>u tok. users_GetByName (cs_db c) (trim_space (form ''username'')) = Inr u
      \<and> tokens_Lookup (ce_now ce) (cs_db c) (trim_space (form ''token'')) = Inr tok \<and> tok_UserID tok = usr_ID u
      \<longrightarrow> Some (SInt (usr_ID u)) \<in> V"
  shows "user_within V (cs_session c')"
  using assms set_password_for_within [where V = V]
  by (auto simp: setPasswordSubmit_def Let_def page_defs split: if_splits sum.splits
      dest!: auditLogin_keeps dest: page_within)

lemma rate_limited_cases:
  assumes "rate_limited ce cf r h c = Some (c', rep)"
  obtains l where "rep = TooManyRequests" "c' = c\<lparr>cs_limit := l\<rparr>"
  | l where "h (c\<lparr>cs_limit := l\<rparr>) = Some (c', rep)"
  using assms by (auto simp: rate_limited_def Let_def split: prod.splits if_splits)

lemma SessionAuthenticate_within:
  "user_within V s \<Longrightarrow> None \<in> V \<Longrightarrow> user_within V (fst (SessionAuthenticate fits d s))"
  by (auto simp: SessionAuthenticate_def split: option.splits sess_value.splits sum.splits
      intro!: user_within_Save user_within_touch)

lemma console_identity_session:
  assumes "console_identity ce SessionAuth r c = (c', idn)"
  shows "cs_db c' = cs_db c" "cs_limit c' = cs_limit c" "cs_audit c' = cs_audit c"
    "user_within V (cs_session c) \<Longrightarrow> None \<in> V \<Longrightarrow> user_within V (cs_session c')"
  using assms SessionAuthenticate_within [of V "cs_session c" "ce_fits ce" "cs_db c"]
  by (auto simp: console_identity_def split: prod.splits)

lemma open_within: "sd_vals ck sessionKeyUserID \<in> V \<Longrightarrow> user_within V (open_session ck)"
  by (simp add: user_within_def sess_defs)

lemma post_login_within:
  assumes p: "post_login ce cf SessionAuth r form ck c = Some (c', rep)"
    and V: "None \<in> V" "sd_vals ck sessionKeyUserID \<in> V"
      "\<forall>u. VerifyPassword (ce_verify ce) (cs_db c) (trim_space (form ''username'')) (form ''password'') = Inr u
        \<longrightarrow> Some (SInt (usr_ID u)) \<in> V"
  shows "user_within V (cs_session c') \<and> cs_db c' = cs_db c"
proof -
  obtain c1 idn where i: "console_identity ce SessionAuth r (c\<lparr>cs_session := open_session ck\<rparr>) = (c1, idn)" by fastforce
  have c1: "user_within V (cs_session c1)" "cs_db c1 = cs_db c"
    using console_identity_session [OF i] V open_within by simp_all
  have "rate_limited ce cf r (loginSubmit ce cf r form idn) c1 = Some (c', rep)"
    using p i by (simp add: post_login_def)
  then show ?thesis
    by (rule rate_limited_cases) (use c1 V(3) loginSubmit_within [where V = V] in fastforce)+
qed

lemma post_set_password_within:
  assumes p: "post_set_password ce cf SessionAuth r form ck c = Some (c', rep)"
    and V: "None \<in> V" "sd_vals ck sessionKeyUserID \<in> V"
      "\<forall>u tok. users_GetByName (cs_db c) (trim_space (form ''username'')) = Inr u
      \<and> tokens_Lookup (ce_now ce) (cs_db c) (trim_space (form ''token'')) = Inr tok \<and> tok_UserID tok = usr_ID u
      \<longrightarrow> Some (SInt (usr_ID u)) \<in> V"
  shows "user_within V (cs_session c')"
proof -
  obtain c1 idn where i: "console_identity ce SessionAuth r (c\<lparr>cs_session := open_session ck\<rparr>) = (c1, idn)" by fastforce
  have c1: "user_within V (cs_session c1)" "cs_db c1 = cs_db c"
    using console_identity_session [OF i] V open_within by simp_all
  have "rate_limited ce cf r (setPasswordSubmit ce cf r form idn) c1 = Some (c', rep)"
    using p i by (simp add: post_set_password_def)
  then show ?thesis
    by (rule rate_limited_cases) (use c1 V(3) setPasswordSubmit_within [where V = V] in fastforce)+
qed

text \<open>
C29: Whose session it is. After a sign-in request or a set-password request the browser's cookie carries a user other
  than the one it carried before only if the request proved to be that user: by a password that
  \<open>VerifyPassword\<close> accepted for the name, or by a live access token that belongs to the named user.
\<close>

theorem session_identity_earned:
  "(\<forall>c' rep v. post_login ce cf SessionAuth r form ck c = Some (c', rep)
       \<and> sd_vals (se_cookie (cs_session c')) sessionKeyUserID = Some (SInt v)
       \<and> sd_vals ck sessionKeyUserID \<noteq> Some (SInt v) \<longrightarrow>
     (\<exists>u. VerifyPassword (ce_verify ce) (cs_db c) (trim_space (form ''username'')) (form ''password'') = Inr u
        \<and> usr_ID u = v))
   \<and> (\<forall>c' rep v. post_set_password ce cf SessionAuth r form ck c = Some (c', rep)
       \<and> sd_vals (se_cookie (cs_session c')) sessionKeyUserID = Some (SInt v)
       \<and> sd_vals ck sessionKeyUserID \<noteq> Some (SInt v) \<longrightarrow>
     (\<exists>u tok. users_GetByName (cs_db c) (trim_space (form ''username'')) = Inr u \<and> usr_ID u = v
        \<and> tokens_Lookup (ce_now ce) (cs_db c) (trim_space (form ''token'')) = Inr tok \<and> tok_UserID tok = v))"
proof (intro conjI allI impI; elim conjE)
  fix c' rep v
  let ?V = "{None, sd_vals ck sessionKeyUserID} \<union> {Some (SInt (usr_ID u)) | u.
    VerifyPassword (ce_verify ce) (cs_db c) (trim_space (form ''username'')) (form ''password'') = Inr u}"
  assume "post_login ce cf SessionAuth r form ck c = Some (c', rep)"
    and v: "sd_vals (se_cookie (cs_session c')) sessionKeyUserID = Some (SInt v)" "sd_vals ck sessionKeyUserID \<noteq> Some (SInt v)"
  then have "user_within ?V (cs_session c')"
    by (intro post_login_within [THEN conjunct1]) auto
  then show "\<exists>u. VerifyPassword (ce_verify ce) (cs_db c) (trim_space (form ''username'')) (form ''password'') = Inr u
        \<and> usr_ID u = v"
    using v by (auto simp: user_within_def)
next
  fix c' rep v
  let ?V = "{None, sd_vals ck sessionKeyUserID} \<union> {Some (SInt (usr_ID u)) | u.
    users_GetByName (cs_db c) (trim_space (form ''username'')) = Inr u
      \<and> (\<exists>tok. tokens_Lookup (ce_now ce) (cs_db c) (trim_space (form ''token'')) = Inr tok \<and> tok_UserID tok = usr_ID u)}"
  assume "post_set_password ce cf SessionAuth r form ck c = Some (c', rep)"
    and v: "sd_vals (se_cookie (cs_session c')) sessionKeyUserID = Some (SInt v)" "sd_vals ck sessionKeyUserID \<noteq> Some (SInt v)"
  then have "user_within ?V (cs_session c')"
    by (intro post_set_password_within) auto
  then show "\<exists>u tok. users_GetByName (cs_db c) (trim_space (form ''username'')) = Inr u \<and> usr_ID u = v
        \<and> tokens_Lookup (ce_now ce) (cs_db c) (trim_space (form ''token'')) = Inr tok \<and> tok_UserID tok = v"
    using v by (auto simp: user_within_def)
qed

section \<open>There and back again\<close>

text \<open>When every cookie fits, the cookie always holds what the session holds.\<close>

definition sess_synced :: "session \<Rightarrow> bool" where
  "sess_synced s \<longleftrightarrow> se_cookie s = se_data s"

lemma sess_synced_open [simp]: "sess_synced (open_session ck)"
  by (simp add: sess_synced_def open_session_def)

lemma sess_synced_steps:
  assumes "\<forall>x. fits x" and "sess_synced s"
  shows "sess_synced (fst (sess_Save fits (sess_Set k v s)))" "sess_synced (fst (sess_Save fits (sess_Delete k s)))"
    "sess_synced (fst (sess_Save fits (sess_Clear s)))" "sess_synced (AddFlash fits sev txt s)" "sess_synced (fst (ReadFlashes fits s))"
    "sess_synced (fst (pop_text fits k s))" "sess_synced (fst (LoginSession fits i s))" "sess_synced (fst (StashReturnTo fits url s))"
  using assms
  by (auto simp: sess_synced_def sess_defs AddFlash_def ReadFlashes_def pop_text_def LoginSession_def StashReturnTo_def
      Let_def split: option.splits)

lemma sess_synced_cookie: "sess_synced s \<Longrightarrow> sd_vals (se_cookie s) k = sess_Get k s"
  by (simp add: sess_synced_def sess_Get_def)

lemma users_by_name_id:
  assumes "accounts_ok d" and "users_GetByName d name = Inr u"
  shows "users_GetByID d (usr_ID u) = Inr u" and "u \<in> set (rows (db_users d))"
proof -
  show u: "u \<in> set (rows (db_users d))"
    using assms(2) by (auto simp: users_GetByName_def dest: select_oneD split: option.splits)
  show "users_GetByID d (usr_ID u) = Inr u"
    using table_ok_select_id [OF accounts_okD(2) [OF assms(1)] u] by (simp add: users_GetByID_def)
qed

lemma VerifyPassword_user:
  "VerifyPassword verify d name pw = Inr u \<Longrightarrow> users_GetByName d name = Inr u"
  by (auto simp: VerifyPassword_def split: sum.splits option.splits if_splits)

lemma SessionAuthenticate_user:
  assumes "sess_Get sessionKeyUserID s = Some (SInt i)" and "users_GetByID d i = Inr u"
  shows "SessionAuthenticate fits d s =
    (s, Inr (Some \<lparr>id_User = Some u, id_Token = None, id_Memberships = Memberships d (usr_ID u), id_Kind = CredentialSession\<rparr>))"
  using assms by (simp add: SessionAuthenticate_def)

lemma login_succeeded_result:
  assumes fits: "\<forall>x. ce_fits ce x" and sy: "sess_synced (cs_session c)" and op: "audit_open c"
    and rt: "sess_Get sessionKeyReturnTo (cs_session c) = Some (SText uri)" and pre: "has_prefix uri ''/console''"
  shows "\<exists>c'. login_succeeded ce cf r idn u c = Some (c', Redirect uri) \<and> cs_db c' = cs_db c
     \<and> sd_vals (se_cookie (cs_session c')) sessionKeyUserID = Some (SInt (usr_ID u))"
proof -
  obtain s where l: "LoginSession (ce_fits ce) (usr_ID u) (cs_session c) = (s, True)"
    using LoginSession_fits [OF fits] by blast
  then have s: "sess_synced s" "sess_Get sessionKeyReturnTo s = Some (SText uri)" "sess_Get sessionKeyUserID s = Some (SInt (usr_ID u))"
    using sess_synced_steps(7) [OF fits sy, of "usr_ID u"] rt
      sess_Get_simps(5) [of _ "ce_fits ce" "sess_Set sessionKeyUserID (SInt (usr_ID u)) (cs_session c)"]
    by (auto simp: LoginSession_def)
  obtain c1 where a: "auditLogin ce cf r (Some u) ''console.login'' [] (forget_client cf r (c\<lparr>cs_session := s\<rparr>)) = Some c1"
    using auditLogin_open [of "forget_client cf r (c\<lparr>cs_session := s\<rparr>)"] op by (fastforce simp: audit_open_def)
  define c2 where "c2 = console_flash ce FlashSuccess ''Signed in.'' c1"
  have c2: "sess_synced (cs_session c2)" "sess_Get sessionKeyReturnTo (cs_session c2) = Some (SText uri)"
    "sess_Get sessionKeyUserID (cs_session c2) = Some (SInt (usr_ID u))" "cs_db c2 = cs_db c"
    using auditLogin_keeps [OF a] s sess_synced_steps(4) [OF fits s(1)] by (simp_all add: c2_def console_flash_def)
  define s3 where "s3 = fst (PopReturnTo (ce_fits ce) (cs_session c2))"
  have pop: "PopReturnTo (ce_fits ce) (cs_session c2) = (s3, uri)"
    using c2(2) by (simp add: s3_def PopReturnTo_def pop_text_def)
  have "sess_synced s3" "sess_Get sessionKeyUserID s3 = Some (SInt (usr_ID u))"
    using sess_synced_steps(2) [OF fits c2(1)] c2 by (simp_all add: s3_def PopReturnTo_def pop_text_def)
  moreover have "uri \<noteq> []" using pre by (auto simp: has_prefix_def)
  then have "login_succeeded ce cf r idn u c = Some (c2\<lparr>cs_session := s3\<rparr>, Redirect uri)"
    using l a pop pre by (simp add: login_succeeded_def Let_def flip: c2_def)
  ultimately show ?thesis
    using c2(4) by (intro exI [where x = "c2\<lparr>cs_session := s3\<rparr>"]) (simp add: sess_synced_cookie)
qed

lemma post_login_result:
  assumes "\<forall>x. ce_fits ce x" and "audit_open c" and "cf_AuthMode cf = ''password''" and "has_prefix uri ''/console''"
    and ck: "sd_vals ck sessionKeyReturnTo = Some (SText uri)" "sd_vals ck sessionKeyUserID = None"
    and "trim_space (form ''username'') \<noteq> []" and "form ''password'' \<noteq> []"
    and "VerifyPassword (ce_verify ce) (cs_db c) (trim_space (form ''username'')) (form ''password'') = Inr u"
    and "snd (login_Allow (ce_mono ce) (ClientIPFor r (cf_TrustedProxies cf)) (cs_limit c))"
  shows "\<exists>c'. post_login ce cf SessionAuth r form ck c = Some (c', Redirect uri) \<and> cs_db c' = cs_db c
    \<and> sd_vals (se_cookie (cs_session c')) sessionKeyUserID = Some (SInt (usr_ID u))"
proof -
  define c1 where "c1 = c\<lparr>cs_session := open_session ck,
    cs_limit := fst (login_Allow (ce_mono ce) (ClientIPFor r (cf_TrustedProxies cf)) (cs_limit c))\<rparr>"
  have "sess_synced (cs_session c1)" "audit_open c1" "sess_Get sessionKeyReturnTo (cs_session c1) = Some (SText uri)"
    using assms(2) ck by (simp_all add: c1_def audit_open_def sess_defs sess_synced_def)
  from login_succeeded_result [OF assms(1) this assms(4), of cf r None u] obtain c' where
    c': "login_succeeded ce cf r None u c1 = Some (c', Redirect uri)" "cs_db c' = cs_db c"
      "sd_vals (se_cookie (cs_session c')) sessionKeyUserID = Some (SInt (usr_ID u))"
    by (auto simp: c1_def)
  have "console_identity ce SessionAuth r (c\<lparr>cs_session := open_session ck\<rparr>) = (c\<lparr>cs_session := open_session ck\<rparr>, None)"
    using ck by (simp add: console_identity_def SessionAuthenticate_def sess_defs)
  then have "post_login ce cf SessionAuth r form ck c = Some (c', Redirect uri)"
    using assms(3,7-10) c'(1) by (auto simp: post_login_def rate_limited_def loginSubmit_def Let_def c1_def split: prod.splits)
  with c'(2,3) show ?thesis by blast
qed

text \<open>
  Being sent to the login page and back. A browser that is not signed in asks for a page of the console, is redirected to
  the login page and signs in with a good password: it is sent back to the page it asked for, and its
  next request is authenticated as that user with the memberships stored at that moment.
\<close>

theorem login_returns:
  assumes "\<forall>x. ce_fits ce x" and "audit_open c" and "accounts_ok (cs_db c)"
    and "cf_AuthMode cf = ''password''" and "sd_vals ck0 sessionKeyUserID = None"
    and "has_prefix (rq_URI r0) ''/console''" and "rq_URI r0 \<noteq> ''/console/login''"
    and "RequireAuth (ce_fits ce) (cf_AuthMode cf) r0 None (open_session ck0) = (s0, gate)"
    and "trim_space (form ''username'') \<noteq> []" and "form ''password'' \<noteq> []"
    and "VerifyPassword (ce_verify ce) (cs_db c) (trim_space (form ''username'')) (form ''password'') = Inr u"
    and "snd (login_Allow (ce_mono ce) (ClientIPFor r (cf_TrustedProxies cf)) (cs_limit c))"
  shows "gate = Inl (see_other ''/console/login'')
   \<and> (\<exists>c' s idn. post_login ce cf SessionAuth r form (se_cookie s0) c = Some (c', Redirect (rq_URI r0))
        \<and> SessionAuthenticate (ce_fits ce) (cs_db c') (open_session (se_cookie (cs_session c'))) = (s, Inr (Some idn))
        \<and> id_User idn = Some u \<and> id_Memberships idn = Memberships (cs_db c) (usr_ID u) \<and> id_Kind idn = CredentialSession)"
proof
  have s0: "s0 = fst (StashReturnTo (ce_fits ce) (rq_URI r0) (open_session ck0))" "gate = Inl (see_other ''/console/login'')"
    using assms(4,8) by (auto simp: RequireAuth_def signed_in_def)
  then show "gate = Inl (see_other ''/console/login'')" by simp
  have ne: "rq_URI r0 \<noteq> []" using assms(6) by (auto simp: has_prefix_def)
  have "sess_synced s0" using sess_synced_steps(8) [OF assms(1) sess_synced_open] s0 by simp
  moreover have "sess_Get sessionKeyReturnTo s0 = Some (SText (rq_URI r0))" "sess_Get sessionKeyUserID s0 = None"
    using assms(5,7) ne by (simp_all add: s0(1) StashReturnTo_def) (simp add: sess_defs)
  ultimately have ck: "sd_vals (se_cookie s0) sessionKeyReturnTo = Some (SText (rq_URI r0))"
    "sd_vals (se_cookie s0) sessionKeyUserID = None"
    by (simp_all add: sess_synced_cookie)
  obtain c' where c': "post_login ce cf SessionAuth r form (se_cookie s0) c = Some (c', Redirect (rq_URI r0))"
      "cs_db c' = cs_db c" "sd_vals (se_cookie (cs_session c')) sessionKeyUserID = Some (SInt (usr_ID u))"
    using post_login_result [OF assms(1,2,4,6) ck assms(9-12)] by blast
  have "users_GetByID (cs_db c') (usr_ID u) = Inr u"
    using users_by_name_id(1) [OF assms(3) VerifyPassword_user [OF assms(11)]] c'(2) by simp
  then show "\<exists>c' s idn. post_login ce cf SessionAuth r form (se_cookie s0) c = Some (c', Redirect (rq_URI r0))
        \<and> SessionAuthenticate (ce_fits ce) (cs_db c') (open_session (se_cookie (cs_session c'))) = (s, Inr (Some idn))
        \<and> id_User idn = Some u \<and> id_Memberships idn = Memberships (cs_db c) (usr_ID u) \<and> id_Kind idn = CredentialSession"
    using SessionAuthenticate_user [of "open_session (se_cookie (cs_session c'))" "usr_ID u" "cs_db c'" u] c'
    by (fastforce simp: sess_Get_def open_session_def)
qed

text \<open>A console with a few accounts, for the witnesses: an administrator with a password and an access token
  that only reads, and a user \<open>bob\<close> who has no password yet.\<close>

definition bob_row :: user where
  "bob_row = mk_user (\<lparr>uo_Name = ''bob'', uo_Kind = KindHuman, uo_Email = [], uo_IsAdmin = False,
      uo_ExternalProvider = [], uo_ExternalSubject = []\<rparr>, 2) 2"

definition read_token_row :: token_row where
  "read_token_row = mk_token_row (\<lparr>to_UserID = 1, to_Name = ''ci'', to_Scopes = [ScopeRead], to_TenantScope = 1,
      to_ExpiresUnix = 0\<rparr>, ''pkm_ci'', 3) 1"

definition desk_db :: db where
  "desk_db = (fresh_db 0)\<lparr>db_users := \<lparr>rows = [sample_admin_row\<lparr>usr_password_hash := Some ''h'', usr_password_set_unix := Some 4\<rparr>,
      bob_row], seq = 2\<rparr>, db_tokens := \<lparr>rows = [read_token_row], seq = 1\<rparr>\<rparr>"

definition desk_env :: console_env where
  "desk_env = \<lparr>ce_now = 10, ce_mono = 0, ce_fits = (\<lambda>_. True),
     ce_verify = (\<lambda>h p. if p = ''correct horse'' then Inr () else Inl ErrPasswordMismatch),
     ce_hash = (\<lambda>p. Inr (CHR ''#'' # p)), ce_random = None\<rparr>"

definition desk :: console where
  "desk = \<lparr>cs_db = desk_db, cs_limit = NewLoginRateLimiter 10 (60 * go_second), cs_audit = None,
     cs_session = open_session empty_data\<rparr>"

definition desk_config :: console_config where
  "desk_config = \<lparr>cf_AuthMode = ''password'', cf_TrustedProxies = []\<rparr>"

definition desk_request :: "string \<Rightarrow> console_request" where
  "desk_request uri = \<lparr>rq_RemoteAddr = ''192.0.2.1:999'', rq_Header = (\<lambda>_. []), rq_URI = uri\<rparr>"

lemmas desk_defs = desk_db_def fresh_db_def default_tenant_row_def sample_admin_row_def bob_row_def mk_user_def
  read_token_row_def mk_token_row_def

lemma desk_lower: "to_lower ''admin'' = ''admin''" "to_lower ''bob'' = ''bob''"
  by code_simp+

lemma desk_db_ok: "accounts_ok desk_db"
  by (simp add: desk_lower accounts_ok_def table_ok_def desk_defs tenant_exists_def user_exists_def)

lemma desk_admin: "users_GetByName desk_db ''admin'' = Inr (hd (rows (db_users desk_db)))"
  by (simp add: users_GetByName_def select_one_def desk_defs)

lemma desk_verify:
  "VerifyPassword (ce_verify desk_env) desk_db ''admin'' ''correct horse'' = Inr (hd (rows (db_users desk_db)))"
  by (simp add: VerifyPassword_def desk_admin) (simp add: select_one_def desk_defs desk_env_def)

lemma desk_simps [simp]:
  "ce_fits desk_env = (\<lambda>_. True)" "ce_now desk_env = 10" "cs_db desk = desk_db" "audit_open desk"
  "cf_AuthMode desk_config = ''password''" "rq_URI (desk_request uri) = uri" "sess_synced (cs_session desk)"
  "ce_hash desk_env p = Inr (CHR ''#'' # p)" "usr_ID (hd (rows (db_users desk_db))) = 1"
  "usr_IsAdmin (hd (rows (db_users desk_db)))" "tok_UserID (scan_token parseScopes read_token_row) = 1"
  by (simp_all add: desk_env_def desk_def audit_open_def desk_config_def desk_request_def scan_token_def desk_defs)

definition login_form :: "string \<Rightarrow> string \<Rightarrow> string \<Rightarrow> string" where
  "login_form name pw = (\<lambda>k. if k = ''username'' then name else if k = ''password'' then pw else [])"

lemma desk_limit: "snd (login_Allow m ip (cs_limit desk))"
  by (simp add: desk_def NewLoginRateLimiter_def login_Allow_def)

theorem login_returns_witness:
  "\<exists>ck c'. post_login desk_env desk_config SessionAuth (desk_request ''/console/login'') (login_form '' admin '' ''correct horse'')
      ck desk = Some (c', Redirect ''/console/audit'')"
proof -
  obtain s0 gate where g: "RequireAuth (ce_fits desk_env) (cf_AuthMode desk_config) (desk_request ''/console/audit'') None
      (open_session empty_data) = (s0, gate)" by fastforce
  have t: "trim_space (login_form '' admin '' ''correct horse'' ''username'') = ''admin''"
    by (simp add: login_form_def) code_simp
  show ?thesis
    using login_returns [of desk_env desk desk_config empty_data "desk_request ''/console/audit''" s0 gate
        "login_form '' admin '' ''correct horse''" "hd (rows (db_users desk_db))" "desk_request ''/console/login''"]
      g t desk_verify desk_db_ok desk_limit
    by (auto simp: empty_data_def has_prefix_def login_form_def)
qed

text \<open>The witness of \<open>session_identity_earned\<close>: the cookie of a good sign-in carries the user whose password was checked.\<close>

definition return_cookie :: sess_data where
  "return_cookie = \<lparr>sd_vals = [sessionKeyReturnTo \<mapsto> SText ''/console/audit''], sd_flashes = []\<rparr>"

theorem session_identity_earned_witness:
  "\<exists>c' u. post_login desk_env desk_config SessionAuth (desk_request ''/console/login'') (login_form ''admin'' ''correct horse'')
      return_cookie desk = Some (c', Redirect ''/console/audit'')
    \<and> sd_vals (se_cookie (cs_session c')) sessionKeyUserID = Some (SInt 1)
    \<and> VerifyPassword (ce_verify desk_env) desk_db ''admin'' ''correct horse'' = Inr u \<and> usr_ID u = 1"
proof -
  let ?form = "login_form ''admin'' ''correct horse''"
  have t: "trim_space (?form ''username'') = ''admin''" "?form ''password'' = ''correct horse''"
    by (simp_all add: login_form_def) code_simp
  have ck: "sd_vals return_cookie sessionKeyReturnTo = Some (SText ''/console/audit'')"
    "sd_vals return_cookie sessionKeyUserID = None"
    by (simp_all add: return_cookie_def sessionKeyReturnTo_def sessionKeyUserID_def)
  obtain c' where c': "post_login desk_env desk_config SessionAuth (desk_request ''/console/login'') ?form return_cookie desk
      = Some (c', Redirect ''/console/audit'')" "sd_vals (se_cookie (cs_session c')) sessionKeyUserID = Some (SInt 1)"
    using post_login_result [of desk_env desk desk_config "''/console/audit''" return_cookie ?form
        "hd (rows (db_users desk_db))" "desk_request ''/console/login''"] t ck desk_verify desk_limit
    by (auto simp: has_prefix_def)
  from session_identity_earned [of desk_env desk_config "desk_request ''/console/login''" ?form return_cookie desk]
  obtain u where "VerifyPassword (ce_verify desk_env) desk_db ''admin'' ''correct horse'' = Inr u" "usr_ID u = 1"
    using c' ck(2) t by fastforce
  with c' show ?thesis by blast
qed

section \<open>What a token is worth at the set-password form\<close>

lemma set_password_for_result:
  assumes fits: "\<forall>x. ce_fits ce x" and sy: "sess_synced (cs_session c)" and op: "audit_open c" and ok: "accounts_ok (cs_db c)"
    and u: "u \<in> set (rows (db_users (cs_db c)))" and h: "ce_hash ce newPw = Inr hashed" "hashed \<noteq> []"
  shows "\<exists>c'. set_password_for ce cf r idn u newPw c = Some (c', Redirect ''/console/'')
     \<and> cs_db c' = fst (SetPasswordHash (ce_now ce) (usr_ID u) hashed (cs_db c))
     \<and> sd_vals (se_cookie (cs_session c')) sessionKeyUserID = Some (SInt (usr_ID u))"
proof -
  define d' where "d' = fst (SetPasswordHash (ce_now ce) (usr_ID u) hashed (cs_db c))"
  have sp: "SetPasswordHash (ce_now ce) (usr_ID u) hashed (cs_db c) = (d', Inr ())"
    using u h(2) by (auto simp: SetPasswordHash_def update_user_def d'_def)
  obtain s where l: "LoginSession (ce_fits ce) (usr_ID u) (cs_session c) = (s, True)"
    using LoginSession_fits [OF fits] by blast
  then have s: "sess_synced s" "sess_Get sessionKeyUserID s = Some (SInt (usr_ID u))"
    using sess_synced_steps(7) [OF fits sy, of "usr_ID u"] LoginSession_ok [OF l] by (auto simp: user_within_def)
  obtain c1 where a: "auditLogin ce cf r (Some u) ''console.password.set'' []
      (forget_client cf r (c\<lparr>cs_db := d', cs_session := s\<rparr>)) = Some c1"
    using auditLogin_open [of "forget_client cf r (c\<lparr>cs_db := d', cs_session := s\<rparr>)"] op by (fastforce simp: audit_open_def)
  define c2 where "c2 = console_flash ce FlashSuccess ''Password set. You're signed in.'' c1"
  have "set_password_for ce cf r idn u newPw c = Some (c2, Redirect ''/console/'')"
    using h(1) sp l a by (simp add: set_password_for_def c2_def)
  moreover have "cs_db c2 = d'" "sd_vals (se_cookie (cs_session c2)) sessionKeyUserID = Some (SInt (usr_ID u))"
    using auditLogin_keeps [OF a] s sess_synced_steps(4) [OF fits s(1)]
    by (simp_all add: c2_def console_flash_def sess_synced_cookie)
  ultimately show ?thesis by (auto simp: d'_def)
qed

lemma SetPasswordHash_user:
  assumes "accounts_ok d" and "u \<in> set (rows (db_users d))" and "h \<noteq> []"
  shows "users_GetByID (fst (SetPasswordHash now (usr_ID u) h d)) (usr_ID u)
    = Inr (u\<lparr>usr_password_hash := Some h, usr_password_set_unix := Some now\<rparr>)"
proof -
  let ?d = "fst (SetPasswordHash now (usr_ID u) h d)"
  let ?u = "u\<lparr>usr_password_hash := Some h, usr_password_set_unix := Some now\<rparr>"
  have "?u \<in> set (rows (db_users ?d))"
    using assms by (force simp: SetPasswordHash_def update_user_def)
  from table_ok_select_id [OF accounts_okD(2) [OF SetPasswordHash_accounts_ok [OF assms(1)]] this]
  show ?thesis by (simp add: users_GetByID_def)
qed

text \<open>
C30: The set-password form takes a token for more than it is. Whoever holds any live access token of a user -
  whatever its scopes, also when it is bound to one tenant, and whether or not the user has a password
  already - sets a new password and is signed in with the whole authority of the user: of an administrator,
  if the user is one, and as a writer wherever the user is a writer.
\<close>

theorem any_token_sets_password:
  assumes "\<forall>x. ce_fits ce x" and "audit_open c" and "accounts_ok (cs_db c)" and "sess_synced (cs_session c)"
    and "cf_AuthMode cf = ''password''"
    and "trim_space (form ''username'') \<noteq> []" and "trim_space (form ''token'') \<noteq> []"
    and "form ''new_password'' = newPw" and "form ''confirm_password'' = newPw" and "12 \<le> length newPw"
    and "users_GetByName (cs_db c) (trim_space (form ''username'')) = Inr u"
    and "tokens_Lookup (ce_now ce) (cs_db c) (trim_space (form ''token'')) = Inr tok" and "tok_UserID tok = usr_ID u"
    and "ce_hash ce newPw = Inr hashed" and "hashed \<noteq> []"
  shows "\<exists>c' s u' idn. setPasswordSubmit ce cf r form caller c = Some (c', Redirect ''/console/'')
     \<and> SessionAuthenticate (ce_fits ce) (cs_db c') (open_session (se_cookie (cs_session c'))) = (s, Inr (Some idn))
     \<and> id_User idn = Some u' \<and> usr_ID u' = usr_ID u \<and> usr_password_hash u' = Some hashed
     \<and> (IsSystemAdmin idn \<longleftrightarrow> usr_IsAdmin u)
     \<and> (\<forall>t. CanWrite idn t \<longleftrightarrow> usr_IsAdmin u \<or> (\<exists>role. Memberships (cs_db c) (usr_ID u) t = Some role \<and> RoleWriter \<le> role))"
proof -
  have u: "u \<in> set (rows (db_users (cs_db c)))" using users_by_name_id(2) [OF assms(3,11)] .
  have ne: "newPw \<noteq> []" using assms(10) by auto
  have "setPasswordSubmit ce cf r form caller c = set_password_for ce cf r caller u newPw c"
    using assms ne by (simp add: setPasswordSubmit_def Let_def)
  moreover obtain c' where c': "set_password_for ce cf r caller u newPw c = Some (c', Redirect ''/console/'')"
    "cs_db c' = fst (SetPasswordHash (ce_now ce) (usr_ID u) hashed (cs_db c))"
    "sd_vals (se_cookie (cs_session c')) sessionKeyUserID = Some (SInt (usr_ID u))"
    using set_password_for_result [OF assms(1,4,2,3) u assms(14,15)] by blast
  ultimately have sub: "setPasswordSubmit ce cf r form caller c = Some (c', Redirect ''/console/'')" by simp
  let ?u = "u\<lparr>usr_password_hash := Some hashed, usr_password_set_unix := Some (ce_now ce)\<rparr>"
  let ?idn = "\<lparr>id_User = Some ?u, id_Token = None, id_Memberships = Memberships (cs_db c') (usr_ID ?u), id_Kind = CredentialSession\<rparr>"
  have "sess_Get sessionKeyUserID (open_session (se_cookie (cs_session c'))) = Some (SInt (usr_ID u))"
    using c'(3) by (simp add: sess_Get_def open_session_def)
  then have auth: "SessionAuthenticate (ce_fits ce) (cs_db c') (open_session (se_cookie (cs_session c')))
      = (open_session (se_cookie (cs_session c')), Inr (Some ?idn))"
    by (rule SessionAuthenticate_user) (simp add: c'(2) SetPasswordHash_user [OF assms(3) u assms(15)])
  have mem: "Memberships (cs_db c') (usr_ID u) = Memberships (cs_db c) (usr_ID u)"
    by (simp add: c'(2) Memberships_def SetPasswordHash_def update_user_def fun_eq_iff)
  show ?thesis
    using sub auth mem
    by (intro exI [where x = c'] exI [where x = "open_session (se_cookie (cs_session c'))"] exI [where x = ?u] exI [where x = ?idn])
       (auto simp: access_defs split: option.splits)
qed

definition token_form :: "string \<Rightarrow> string \<Rightarrow> string \<Rightarrow> string \<Rightarrow> string" where
  "token_form name tok pw = (\<lambda>k. if k = ''username'' then name else if k = ''token'' then tok
     else if k = ''new_password'' \<or> k = ''confirm_password'' then pw else [])"

text \<open>The administrator's read-only token, bound to tenant 1, becomes an administrator's session.\<close>

lemma desk_token: "tokens_Lookup 10 desk_db ''pkm_ci'' = Inr (scan_token parseScopes read_token_row)"
  by (simp add: tokens_Lookup_def select_one_def desk_defs scan_token_def Let_def)

theorem any_token_sets_password_witness:
  "tok_Scopes (scan_token parseScopes read_token_row) = [ScopeRead] \<and>
   (\<exists>c' s idn. setPasswordSubmit desk_env desk_config (desk_request ''/console/set-password'')
        (token_form ''admin'' ''pkm_ci'' ''attackers choice'') None desk = Some (c', Redirect ''/console/'')
     \<and> SessionAuthenticate (\<lambda>_. True) (cs_db c') (open_session (se_cookie (cs_session c'))) = (s, Inr (Some idn))
     \<and> IsSystemAdmin idn)"
proof
  show "tok_Scopes (scan_token parseScopes read_token_row) = [ScopeRead]"
    by (simp add: read_token_row_def mk_token_row_def scan_token_def scopesCSV_def ScopeRead_def) code_simp
  have t: "trim_space ''admin'' = ''admin''" "trim_space ''pkm_ci'' = ''pkm_ci''" by code_simp+
  show "\<exists>c' s idn. setPasswordSubmit desk_env desk_config (desk_request ''/console/set-password'')
        (token_form ''admin'' ''pkm_ci'' ''attackers choice'') None desk = Some (c', Redirect ''/console/'')
     \<and> SessionAuthenticate (\<lambda>_. True) (cs_db c') (open_session (se_cookie (cs_session c'))) = (s, Inr (Some idn))
     \<and> IsSystemAdmin idn"
    using any_token_sets_password [of desk_env desk desk_config "token_form ''admin'' ''pkm_ci'' ''attackers choice''"
        "''attackers choice''" "hd (rows (db_users desk_db))" "scan_token parseScopes read_token_row"
        "''#attackers choice''" "desk_request ''/console/set-password''" None]
      desk_db_ok t desk_admin desk_token
    by (auto simp: token_form_def)
qed

end
