(* ===== verification/Console_SignIn.thy ===== *)
theory Console_SignIn
  imports Console_Laws
begin

text \<open>
  Further properties of the console's sign-in: how the limiter of attempts is emptied, what the login form tells about an
  account, the token that is shown once, and what the headers of a proxy may do.
\<close>

section \<open>Emptying the limiter\<close>

type_synonym login_attempt = "console_env \<times> (string \<Rightarrow> string)"

text \<open>Sign-in requests one after another, each without a cookie; the replies in order.\<close>

fun login_run :: "console_config \<Rightarrow> console_request \<Rightarrow> login_attempt list \<Rightarrow> console
    \<Rightarrow> (console \<times> console_reply list) option" where
  "login_run cf r [] c = Some (c, [])"
| "login_run cf r ((ce, form) # as) c =
     (case post_login ce cf SessionAuth r form empty_data c of
        None \<Rightarrow> None
      | Some (c', rep) \<Rightarrow> map_option (\<lambda>(c'', reps). (c'', rep # reps)) (login_run cf r as c'))"

definition own_sign_in :: "db \<Rightarrow> login_attempt \<Rightarrow> bool" where
  "own_sign_in d a \<longleftrightarrow> (\<forall>x. ce_fits (fst a) x)
     \<and> trim_space (snd a ''username'') \<noteq> [] \<and> snd a ''password'' \<noteq> []
     \<and> (\<exists>u. VerifyPassword (ce_verify (fst a)) d (trim_space (snd a ''username'')) (snd a ''password'') = Inr u)"

text \<open>The bucket of an address holds at most \<open>k\<close> attempts.\<close>

definition bucket_below :: "string \<Rightarrow> int \<Rightarrow> login_limiter \<Rightarrow> bool" where
  "bucket_below ip k l \<longleftrightarrow> (case ll_buckets l ip of None \<Rightarrow> True | Some b \<Rightarrow> ib_count b \<le> k)"

lemma bucket_Allow:
  assumes "bucket_below ip k l" and "0 \<le> k" and "k < ll_max l" and "ip \<noteq> []"
  shows "\<exists>l'. login_Allow t ip l = (l', True) \<and> bucket_below ip (k + 1) l' \<and> ll_max l' = ll_max l"
  using assms by (auto simp: bucket_below_def login_Allow_def Let_def split: option.splits)

lemma bucket_Forget: "bucket_below ip k l \<Longrightarrow> 0 \<le> k \<Longrightarrow> bucket_below ip k (Forget i l) \<and> ll_max (Forget i l) = ll_max l"
  by (auto simp: bucket_below_def Forget_def split: option.splits)

lemma Forget_own: "ip \<noteq> [] \<Longrightarrow> bucket_below ip 0 (Forget ip l)"
  by (simp add: bucket_below_def Forget_def)

text \<open>A sign-in handler leaves the limiter alone, or forgets the client's address.\<close>

definition kept_or_forgot :: "string \<Rightarrow> console \<Rightarrow> console \<Rightarrow> bool" where
  "kept_or_forgot ip c c' \<longleftrightarrow> audit_open c' \<and> cs_db c' = cs_db c
     \<and> (cs_limit c' = cs_limit c \<or> cs_limit c' = Forget ip (cs_limit c))"

lemma render_Some:
  assumes "audit_open c" and "cs_limit c = l" and "cs_db c = d"
  shows "\<exists>c' base. render ce idn status body c = (c', Page status base body) \<and> audit_open c' \<and> cs_limit c' = l \<and> cs_db c' = d"
  using assms render_keeps [of ce idn status body c "fst (render ce idn status body c)" "snd (render ce idn status body c)"]
  by (cases "render ce idn status body c") fastforce

lemma login_succeeded_total:
  assumes "audit_open c"
  shows "\<exists>c' rep. login_succeeded ce cf r idn u c = Some (c', rep) \<and> rep \<noteq> TooManyRequests
     \<and> kept_or_forgot (ClientIPFor r (cf_TrustedProxies cf)) c c'
     \<and> ((\<forall>x. ce_fits ce x) \<longrightarrow> cs_limit c' = Forget (ClientIPFor r (cf_TrustedProxies cf)) (cs_limit c))"
proof -
  obtain s ok where l: "LoginSession (ce_fits ce) (usr_ID u) (cs_session c) = (s, ok)" by fastforce
  show ?thesis
  proof (cases ok)
    case True
    have "audit_open (forget_client cf r (c\<lparr>cs_session := s\<rparr>))" using assms by (simp add: audit_open_def)
    then obtain c1 where a: "auditLogin ce cf r (Some u) ''console.login'' [] (forget_client cf r (c\<lparr>cs_session := s\<rparr>)) = Some c1"
      and "audit_open c1" using auditLogin_open by blast
    then show ?thesis
      using l True auditLogin_keeps [OF a]
      by (auto simp: login_succeeded_def Let_def kept_or_forgot_def audit_open_def console_flash_def forget_client_def
          split: prod.splits)
  next
    case False
    obtain c' base where "RenderError ce r idn ''save session'' (c\<lparr>cs_session := s\<rparr>) = (c', base)"
      "audit_open c'" "cs_limit c' = cs_limit c" "cs_db c' = cs_db c" "base \<noteq> TooManyRequests"
      using render_Some [of "c\<lparr>cs_session := s\<rparr>" "cs_limit c" "cs_db c" ce idn 500 "ErrorBody ''save session'' (RequestID (ce_random ce) r)"] assms
      unfolding RenderError_def audit_open_def by fastforce
    moreover have "\<exists>x. \<not> ce_fits ce x"
      using l False by (auto simp: LoginSession_def sess_defs split: if_splits)
    ultimately show ?thesis
      using l False by (auto simp: login_succeeded_def kept_or_forgot_def)
  qed
qed

lemma page_total:
  assumes "audit_open c"
  shows "\<exists>c' rep. render ce idn status body c = (c', rep) \<and> rep \<noteq> TooManyRequests \<and> kept_or_forgot ip c c'"
  using render_Some [OF assms refl refl, of ce idn status body] by (auto simp: kept_or_forgot_def)

lemma audit_page_total:
  assumes "audit_open c"
  shows "\<exists>c' rep. map_option (render ce idn status body) (auditLogin ce cf r u act reason c) = Some (c', rep)
      \<and> rep \<noteq> TooManyRequests \<and> kept_or_forgot ip c c'"
proof -
  obtain c1 where a: "auditLogin ce cf r u act reason c = Some c1" "audit_open c1"
    using auditLogin_open [OF assms] by blast
  then show ?thesis
    using page_total [OF a(2), of ce idn status body ip] auditLogin_keeps [OF a(1)]
    by (auto simp: kept_or_forgot_def)
qed

lemma loginSubmit_total:
  assumes "audit_open c" and "ip = ClientIPFor r (cf_TrustedProxies cf)"
  shows "\<exists>c' rep. loginSubmit ce cf r form idn c = Some (c', rep) \<and> rep \<noteq> TooManyRequests \<and> kept_or_forgot ip c c'"
proof -
  let ?name = "trim_space (form ''username'')"
  have red: "\<exists>c' rep. map_option (\<lambda>c1. (c1, Redirect x)) (auditLogin ce cf r None act reason c) = Some (c', rep)
      \<and> rep \<noteq> TooManyRequests \<and> kept_or_forgot ip c c'" for x act reason
    using auditLogin_open [OF assms(1), of ce cf r None act reason] auditLogin_keeps [of ce cf r None act reason c]
    by (auto simp: kept_or_forgot_def)
  show ?thesis
    using login_succeeded_total [OF assms(1), of ce cf r idn] page_total [OF assms(1), of ce idn _ _ ip]
      audit_page_total [OF assms(1), of ce idn _ _ cf r _ _ _ ip] red
    unfolding loginSubmit_def Let_def page_defs assms(2) [symmetric]
    by (auto simp: page_defs [abs_def] split: sum.splits) blast
qed

definition sign_in_state :: "string \<Rightarrow> int \<Rightarrow> int \<Rightarrow> db \<Rightarrow> console \<Rightarrow> bool" where
  "sign_in_state ip mx k d c \<longleftrightarrow> audit_open c \<and> cs_db c = d \<and> ll_max (cs_limit c) = mx \<and> bucket_below ip k (cs_limit c)"

lemma anonymous_identity:
  "console_identity ce SessionAuth r (c\<lparr>cs_session := open_session empty_data\<rparr>)
     = (c\<lparr>cs_session := open_session empty_data\<rparr>, None)"
  by (simp add: console_identity_def SessionAuthenticate_def sess_defs)

lemma post_login_attempt:
  assumes ip: "ip = ClientIPFor r (cf_TrustedProxies cf)" "ip \<noteq> []" and st: "sign_in_state ip mx k d c" and k: "0 \<le> k" "k < mx"
  shows "\<exists>c' rep. post_login ce cf SessionAuth r form empty_data c = Some (c', rep) \<and> rep \<noteq> TooManyRequests
     \<and> sign_in_state ip mx (k + 1) d c'"
proof -
  obtain l where l: "login_Allow (ce_mono ce) ip (cs_limit c) = (l, True)" "bucket_below ip (k + 1) l" "ll_max l = mx"
    using bucket_Allow [of ip k "cs_limit c" "ce_mono ce"] st k ip(2) by (auto simp: sign_in_state_def)
  let ?c = "c\<lparr>cs_session := open_session empty_data, cs_limit := l\<rparr>"
  have "audit_open ?c" using st by (simp add: sign_in_state_def audit_open_def)
  from loginSubmit_total [OF this ip(1), of ce form None] obtain c' rep where
    c': "loginSubmit ce cf r form None ?c = Some (c', rep)" "rep \<noteq> TooManyRequests" "kept_or_forgot ip ?c c'"
    by blast
  have "post_login ce cf SessionAuth r form empty_data c = Some (c', rep)"
    using c'(1) l(1) by (simp add: post_login_def anonymous_identity rate_limited_def Let_def flip: ip(1))
  moreover have "sign_in_state ip mx (k + 1) d c'"
    using c'(3) st l bucket_Forget [OF l(2), of ip] k(1) by (auto simp: sign_in_state_def kept_or_forgot_def)
  ultimately show ?thesis using c'(2) by blast
qed

lemma post_login_own:
  assumes ip: "ip = ClientIPFor r (cf_TrustedProxies cf)" "ip \<noteq> []" and st: "sign_in_state ip mx k d c" and k: "0 \<le> k" "k < mx"
    and own: "own_sign_in d (ce, form)" and mode: "cf_AuthMode cf \<noteq> ''proxy-header''"
  shows "\<exists>c' rep. post_login ce cf SessionAuth r form empty_data c = Some (c', rep) \<and> rep \<noteq> TooManyRequests
     \<and> sign_in_state ip mx 0 d c'"
proof -
  obtain l where l: "login_Allow (ce_mono ce) ip (cs_limit c) = (l, True)" "bucket_below ip (k + 1) l" "ll_max l = mx"
    using bucket_Allow [of ip k "cs_limit c" "ce_mono ce"] st k ip(2) by (auto simp: sign_in_state_def)
  let ?c = "c\<lparr>cs_session := open_session empty_data, cs_limit := l\<rparr>"
  obtain u where u: "VerifyPassword (ce_verify ce) d (trim_space (form ''username'')) (form ''password'') = Inr u"
    and form: "trim_space (form ''username'') \<noteq> []" "form ''password'' \<noteq> []" and fits: "\<forall>x. ce_fits ce x"
    using own by (auto simp: own_sign_in_def)
  have "audit_open ?c" using st by (simp add: sign_in_state_def audit_open_def)
  from login_succeeded_total [OF this, of ce cf r None u] obtain c' rep where
    c': "login_succeeded ce cf r None u ?c = Some (c', rep)" "rep \<noteq> TooManyRequests" "kept_or_forgot ip ?c c'"
      "cs_limit c' = Forget ip l"
    using fits by (auto simp flip: ip(1))
  have "cs_db c = d" using st by (simp add: sign_in_state_def)
  then have "post_login ce cf SessionAuth r form empty_data c = Some (c', rep)"
    using c'(1) l(1) u form mode
    by (simp add: post_login_def anonymous_identity rate_limited_def loginSubmit_def Let_def flip: ip(1))
  moreover have "sign_in_state ip mx 0 d c'"
    using c'(3,4) st l(3) Forget_own [OF ip(2)] bucket_Forget [OF l(2), of ip] k(1)
    by (auto simp: sign_in_state_def kept_or_forgot_def)
  ultimately show ?thesis using c'(2) by blast
qed

lemma login_run_append:
  "login_run cf r (as @ bs) c =
     (case login_run cf r as c of
        None \<Rightarrow> None
      | Some (c', reps) \<Rightarrow> map_option (\<lambda>(c'', reps'). (c'', reps @ reps')) (login_run cf r bs c'))"
  by (induction as arbitrary: c) (auto split: option.splits prod.splits simp: map_option_case)

lemma login_run_guesses:
  assumes ip: "ip = ClientIPFor r (cf_TrustedProxies cf)" "ip \<noteq> []"
  shows "sign_in_state ip mx k d c \<Longrightarrow> 0 \<le> k \<Longrightarrow> k + int (length as) \<le> mx \<Longrightarrow>
    \<exists>c' reps. login_run cf r as c = Some (c', reps) \<and> TooManyRequests \<notin> set reps
      \<and> sign_in_state ip mx (k + int (length as)) d c'"
proof (induction as arbitrary: c k)
  case (Cons a as)
  obtain ce form where a: "a = (ce, form)" by fastforce
  obtain c1 rep where c1: "post_login ce cf SessionAuth r form empty_data c = Some (c1, rep)" "rep \<noteq> TooManyRequests"
    "sign_in_state ip mx (k + 1) d c1"
    using post_login_attempt [OF ip Cons.prems(1,2), of ce form] Cons.prems(3) by auto
  show ?case
    using Cons.IH [OF c1(3)] Cons.prems(2,3) c1(1,2) a by (auto simp: algebra_simps)
qed simp

definition attack_round :: "db \<Rightarrow> int \<Rightarrow> login_attempt list \<Rightarrow> bool" where
  "attack_round d mx as \<longleftrightarrow> (\<exists>guesses own. as = guesses @ [own] \<and> int (length guesses) < mx \<and> own_sign_in d own)"

lemma login_run_round:
  assumes ip: "ip = ClientIPFor r (cf_TrustedProxies cf)" "ip \<noteq> []" and mode: "cf_AuthMode cf \<noteq> ''proxy-header''"
    and st: "sign_in_state ip mx 0 d c" and rd: "attack_round d mx as"
  shows "\<exists>c' reps. login_run cf r as c = Some (c', reps) \<and> TooManyRequests \<notin> set reps \<and> sign_in_state ip mx 0 d c'"
proof -
  obtain gs ce form where as: "as = gs @ [(ce, form)]" "int (length gs) < mx" "own_sign_in d (ce, form)"
    using rd by (auto simp: attack_round_def)
  obtain c1 reps where c1: "login_run cf r gs c = Some (c1, reps)" "TooManyRequests \<notin> set reps"
    "sign_in_state ip mx (int (length gs)) d c1"
    using login_run_guesses [OF ip st, of gs] as(2) by auto
  obtain c2 rep where "post_login ce cf SessionAuth r form empty_data c1 = Some (c2, rep)" "rep \<noteq> TooManyRequests"
    "sign_in_state ip mx 0 d c2"
    using post_login_own [OF ip c1(3) _ as(2,3) mode] by auto
  then show ?thesis
    using c1 by (simp add: as(1) login_run_append)
qed

text \<open>
  The limiter does not bound guesses. Whoever has an account of their own can try passwords of other accounts
  without end: in any number of rounds of fewer than \<open>max\<close> guesses at any names, each ended by one sign-in of
  their own, at whatever times, no request is answered \<open>429\<close> - each guess reaches the password check.
\<close>

theorem own_sign_in_empties_limiter:
  assumes "ip = ClientIPFor r (cf_TrustedProxies cf)" and "ip \<noteq> []" and "cf_AuthMode cf \<noteq> ''proxy-header''"
    and "sign_in_state ip mx 0 d c" and "\<forall>as \<in> set rounds. attack_round d mx as"
  shows "\<exists>c' reps. login_run cf r (concat rounds) c = Some (c', reps) \<and> TooManyRequests \<notin> set reps
     \<and> sign_in_state ip mx 0 d c'"
  using assms(4,5)
proof (induction rounds arbitrary: c)
  case (Cons as rounds)
  then obtain c1 reps where c1: "login_run cf r as c = Some (c1, reps)" "TooManyRequests \<notin> set reps" "sign_in_state ip mx 0 d c1"
    using login_run_round [OF assms(1-3)] by (metis list.set_intros(1))
  then show ?case
    using Cons.IH [OF c1(3)] Cons.prems(2) by (auto simp: login_run_append)
qed simp

definition wrong_guess :: login_attempt where
  "wrong_guess = (desk_env, login_form ''bob'' ''wrong'')"

definition own_login :: login_attempt where
  "own_login = (desk_env, login_form ''admin'' ''correct horse'')"

theorem own_sign_in_empties_limiter_witness:
  "\<exists>c' reps. login_run desk_config (desk_request ''/console/login'')
     (concat (replicate 100 (replicate 9 wrong_guess @ [own_login]))) desk = Some (c', reps) \<and> TooManyRequests \<notin> set reps"
proof -
  have "trim_space ''admin'' = ''admin''" by code_simp
  then have own: "own_sign_in desk_db own_login"
    using desk_verify by (auto simp: own_sign_in_def own_login_def login_form_def)
  have r: "attack_round desk_db 10 as" if "as \<in> set (replicate 100 (replicate 9 wrong_guess @ [own_login]))" for as
  proof -
    from that have "as = replicate 9 wrong_guess @ [own_login]" by (simp only: in_set_replicate)
    then show ?thesis using own unfolding attack_round_def by (intro exI conjI) (assumption | simp)+
  qed
  have ip: "''192.0.2.1'' = ClientIPFor (desk_request ''/console/login'') (cf_TrustedProxies desk_config)"
    unfolding desk_request_def desk_config_def by code_simp
  have st: "sign_in_state ''192.0.2.1'' 10 0 desk_db desk"
    by (simp add: sign_in_state_def) (simp add: desk_def bucket_below_def NewLoginRateLimiter_def)
  show ?thesis
    using own_sign_in_empties_limiter [OF ip _ _ st, of "replicate 100 (replicate 9 wrong_guess @ [own_login])"] r by auto
qed

section \<open>What the login form tells\<close>

text \<open>
  The login form tells whether an account without a password exists. For such a user any password redirects to the
  set-password page, with no password check; for a name nobody has, and for a wrong password, the reply is the login
  form with the one generic message. This holds for users that were never given a password, service
  accounts among them.
\<close>

theorem login_reveals_passwordless:
  assumes "audit_open c" and "accounts_ok (cs_db c)" and "cf_AuthMode cf = ''password''"
    and "form ''username'' = name" and "no_outer_space name" and "name \<noteq> []" and "form ''password'' \<noteq> []"
  shows "(\<forall>u. users_GetByName (cs_db c) name = Inr u \<and> usr_password_hash u = None \<longrightarrow>
        (\<exists>c'. loginSubmit ce cf r form idn c = Some (c', Redirect (''/console/set-password?username='' @ name))))
   \<and> (users_GetByName (cs_db c) name = Inl ErrUserNotExist
        \<or> VerifyPassword (ce_verify ce) (cs_db c) name (form ''password'') = Inl ErrPasswordMismatch \<longrightarrow>
        (\<exists>c' base. loginSubmit ce cf r form idn c = Some (c',
           Page 200 base (LoginForm name [(''form'', ''Sign-in failed. Check your username and password.'')]))))"
proof (intro conjI allI impI)
  fix u
  assume u: "users_GetByName (cs_db c) name = Inr u \<and> usr_password_hash u = None"
  then have "select_one (\<lambda>x. usr_ID x = usr_ID u) (db_users (cs_db c)) = Some u"
    using table_ok_select_id [OF accounts_okD(2) [OF assms(2)] users_by_name_id(2) [OF assms(2)]] by blast
  with u have "VerifyPassword (ce_verify ce) (cs_db c) name (form ''password'') = Inl ErrNoPassword"
    by (simp add: VerifyPassword_def)
  moreover obtain c1 where a: "auditLogin ce cf r None ''console.login.no_password'' ''user has no password set'' c = Some c1"
    using auditLogin_open [OF assms(1)] by blast
  ultimately show "\<exists>c'. loginSubmit ce cf r form idn c = Some (c', Redirect (''/console/set-password?username='' @ name))"
    using assms a by (auto simp: loginSubmit_def Let_def trim_space_clean)
next
  assume "users_GetByName (cs_db c) name = Inl ErrUserNotExist
        \<or> VerifyPassword (ce_verify ce) (cs_db c) name (form ''password'') = Inl ErrPasswordMismatch"
  then have v: "VerifyPassword (ce_verify ce) (cs_db c) name (form ''password'') \<in> {Inl ErrUserNotExist, Inl ErrPasswordMismatch}"
    by (auto simp: VerifyPassword_def)
  obtain c1 where a: "auditLogin ce cf r None ''console.login.deny'' ''bad credentials'' c = Some c1"
    using auditLogin_open [OF assms(1)] by blast
  obtain c' rep where rd: "login_failed ce idn name c1 = (c', rep)" by fastforce
  then have "\<exists>base. rep = Page 200 base (LoginForm name [(''form'', ''Sign-in failed. Check your username and password.'')])"
    unfolding page_defs by (rule render_keeps(5))
  then show "\<exists>c' base. loginSubmit ce cf r form idn c = Some (c',
           Page 200 base (LoginForm name [(''form'', ''Sign-in failed. Check your username and password.'')]))"
    using assms v a rd by (auto simp: loginSubmit_def Let_def trim_space_clean)
qed

theorem login_reveals_passwordless_witness:
  "(\<exists>c'. loginSubmit desk_env desk_config (desk_request []) (login_form ''bob'' ''x'') None desk
       = Some (c', Redirect (''/console/set-password?username='' @ ''bob'')))
   \<and> (\<exists>c' base. loginSubmit desk_env desk_config (desk_request []) (login_form ''eve'' ''x'') None desk
       = Some (c', Page 200 base (LoginForm ''eve'' [(''form'', ''Sign-in failed. Check your username and password.'')])))"
proof
  have clean: "no_outer_space ''bob''" "no_outer_space ''eve''" by code_simp+
  have l: "to_lower ''eve'' = ''eve''" by code_simp
  have u: "users_GetByName desk_db ''bob'' = Inr bob_row" "usr_password_hash bob_row = None"
    by (simp_all add: users_GetByName_def select_one_def desk_defs desk_lower)
  have e: "users_GetByName desk_db ''eve'' = Inl ErrUserNotExist"
    by (simp add: users_GetByName_def select_one_def desk_defs desk_lower l)
  show "\<exists>c'. loginSubmit desk_env desk_config (desk_request []) (login_form ''bob'' ''x'') None desk
       = Some (c', Redirect (''/console/set-password?username='' @ ''bob''))"
    using login_reveals_passwordless [of desk desk_config "login_form ''bob'' ''x''" "''bob''" desk_env "desk_request []" None] u clean desk_db_ok
    by (simp add: login_form_def)
  show "\<exists>c' base. loginSubmit desk_env desk_config (desk_request []) (login_form ''eve'' ''x'') None desk
       = Some (c', Page 200 base (LoginForm ''eve'' [(''form'', ''Sign-in failed. Check your username and password.'')]))"
    using login_reveals_passwordless [of desk desk_config "login_form ''eve'' ''x''" "''eve''" desk_env "desk_request []" None] e clean desk_db_ok
    by (simp add: login_form_def)
qed

section \<open>The token shown once\<close>

lemma sess_Save_fits: "\<forall>x. fits x \<Longrightarrow> sess_Save fits s = (if se_written s then s\<lparr>se_cookie := se_data s, se_written := False\<rparr> else s, True)"
  by (auto simp: sess_Save_def)

lemma one_shot_shown:
  assumes "\<forall>x. fits x" and "SetOneShotToken fits plaintext name s0 = (s1, saved)"
    and "PopOneShotToken fits (open_session (se_cookie s1)) = (s2, shown)"
    and "PopOneShotTokenName fits s2 = (s3, shown_name)"
    and "PopOneShotToken fits (open_session (se_cookie s3)) = (s4, later)"
  shows "saved \<and> shown = plaintext \<and> shown_name = name \<and> later = []
    \<and> sd_vals (se_cookie s3) sessionKeyOneShotToken = None \<and> sd_vals (se_cookie s3) sessionKeyOneShotTokenName = None"
proof -
  have s1: "sd_vals (se_cookie s1) sessionKeyOneShotToken = Some (SToken plaintext name)" "saved"
    using assms(1,2) by (auto simp: SetOneShotToken_def sess_defs)
  then have s2: "shown = plaintext" "sess_Get sessionKeyOneShotToken s2 = None" "sess_Get sessionKeyOneShotTokenName s2 = Some (SText name)"
    "sess_synced s2"
    using assms(1,3)
    by (auto simp: PopOneShotToken_def sess_Get_def [of _ "open_session _"] open_session_def [of "se_cookie s1"] Let_def)
       (auto simp: sess_defs sess_synced_def)
  then have s3: "shown_name = name" "sess_Get sessionKeyOneShotToken s3 = None" "sess_Get sessionKeyOneShotTokenName s3 = None"
    using assms(4) by (auto simp: PopOneShotTokenName_def pop_text_def)
  have "sess_synced s3"
    using sess_synced_steps(6) [OF assms(1) s2(4), of sessionKeyOneShotTokenName] assms(4) by (simp add: PopOneShotTokenName_def)
  then show ?thesis
    using s1(2) s2(1) s3 assms(5) by (auto simp: sess_synced_cookie PopOneShotToken_def) (auto simp: sess_defs sess_synced_def split: option.splits)
qed

text \<open>
  The token shown once. What \<open>SetOneShotToken\<close> stashes is what the next page shows, with its name;
  the page after that shows nothing, and neither the plaintext nor the name is left in the cookie.
\<close>

theorem one_shot_token:
  assumes "\<forall>x. fits x" and "SetOneShotToken fits plaintext name s0 = (s1, saved)"
    and "PopOneShotToken fits (open_session (se_cookie s1)) = (s2, shown)"
    and "PopOneShotTokenName fits s2 = (s3, shown_name)"
    and "PopOneShotToken fits (open_session (se_cookie s3)) = (s4, later)"
  shows "saved \<and> shown = plaintext \<and> shown_name = name \<and> later = []
    \<and> sd_vals (se_cookie s3) sessionKeyOneShotToken = None \<and> sd_vals (se_cookie s3) sessionKeyOneShotTokenName = None"
  using assms by (rule one_shot_shown)

theorem one_shot_token_witness:
  "snd (PopOneShotToken (\<lambda>_. True) (open_session (se_cookie (fst (SetOneShotToken (\<lambda>_. True) ''pkm_x'' ''ci'' (open_session empty_data)))))) = ''pkm_x''"
proof -
  obtain s1 sv where 1: "SetOneShotToken (\<lambda>_. True) ''pkm_x'' ''ci'' (open_session empty_data) = (s1, sv)" by fastforce
  obtain s2 a where 2: "PopOneShotToken (\<lambda>_. True) (open_session (se_cookie s1)) = (s2, a)" by fastforce
  obtain s3 b where 3: "PopOneShotTokenName (\<lambda>_. True) s2 = (s3, b)" by fastforce
  obtain s4 e where 4: "PopOneShotToken (\<lambda>_. True) (open_session (se_cookie s3)) = (s4, e)" by fastforce
  show ?thesis
    using one_shot_token [OF _ 1 2 3 4] 1 2 by simp
qed

section \<open>Signing in by a proxy's headers\<close>

lemma GetOrCreate_user:
  assumes "accounts_ok d" and "users_GetOrCreate now name email d = (d', Inr u)"
  shows "accounts_ok d'" and "u \<in> set (rows (db_users d'))" and "usr_LowerName u = to_lower name"
    and "\<forall>v \<in> set (rows (db_users d')). v \<in> set (rows (db_users d)) \<or> \<not> usr_IsAdmin v"
proof -
  show "accounts_ok d'"
    using users_GetOrCreate_accounts_ok [OF assms(1), of now name email] assms(2) by simp
  have byname: "users_GetByName d name = Inr u \<Longrightarrow> u \<in> set (rows (db_users d)) \<and> usr_LowerName u = to_lower name" for d
    by (auto simp: users_GetByName_def dest: select_oneD split: option.splits)
  let ?opts = "\<lparr>uo_Name = name, uo_Kind = KindHuman, uo_Email = email, uo_IsAdmin = False, uo_ExternalProvider = [],
    uo_ExternalSubject = []\<rparr>"
  obtain d1 res where cr: "users_Create now ?opts d = (d1, res)" by fastforce
  consider (found) "d' = d" "users_GetByName d name = Inr u"
    | (created) "users_Create now ?opts d = (d', Inr u)"
    | (raced) "users_Create now ?opts d = (d', Inl ErrUserDuplicate)" "users_GetByName d' name = Inr u"
    using assms(2) cr by (cases "users_GetByName d name"; cases res) (auto simp: users_GetOrCreate_def split: if_splits)
  then have "u \<in> set (rows (db_users d')) \<and> usr_LowerName u = to_lower name
    \<and> (\<forall>v \<in> set (rows (db_users d')). v \<in> set (rows (db_users d)) \<or> \<not> usr_IsAdmin v)"
  proof cases
    case found
    then show ?thesis using byname by blast
  next
    case created
    then obtain w where w: "d' = d\<lparr>db_users := (db_users d)\<lparr>rows := rows (db_users d) @ [w], seq := seq (db_users d) + 1\<rparr>\<rparr>"
        "w = mk_user (?opts, now) (seq (db_users d) + 1)" "users_GetByID d' (usr_ID w) = Inr u"
      by (auto simp: users_Create_def insert_unique_def Let_def split: if_splits)
    have "w \<in> set (rows (db_users d'))" by (simp add: w(1))
    from table_ok_select_id [OF accounts_okD(2) [OF \<open>accounts_ok d'\<close>] this] w(3)
    have "u = w" by (simp add: users_GetByID_def)
    then show ?thesis using w by (auto simp: mk_user_def)
  next
    case raced
    then have "d' = d"
      by (auto simp: users_Create_def insert_unique_def Let_def users_GetByID_def split: if_splits option.splits)
    then show ?thesis using raced(2) byname by blast
  qed
  then show "u \<in> set (rows (db_users d'))" "usr_LowerName u = to_lower name"
    "\<forall>v \<in> set (rows (db_users d')). v \<in> set (rows (db_users d)) \<or> \<not> usr_IsAdmin v" by blast+
qed

text \<open>
C31: What a proxy's headers may do. The headers of a peer that is not a trusted proxy are ignored and change nothing. A
  trusted proxy signs in the user it names, in any case of letters, and nobody becomes an administrator by that but the
  configured one: each administrator afterwards was one before, or is the user who signed in and matches the
  configured name or address.
\<close>

theorem proxy_headers:
  assumes "accounts_ok d"
  shows "(\<not> isTrustedPeer (pa_TrustedProxies a) r \<longrightarrow> ProxyAuthenticate now a r d = (d, Inr None))
   \<and> (\<forall>d' idn. ProxyAuthenticate now a r d = (d', Inr (Some idn)) \<longrightarrow>
        isTrustedPeer (pa_TrustedProxies a) r
      \<and> (\<exists>u. id_User idn = Some u \<and> u \<in> set (rows (db_users d'))
            \<and> usr_LowerName u = to_lower (trim_space (header_Get r (headerName (pa_UserHeader a) ''X-Forwarded-User'')))
            \<and> (\<forall>v \<in> set (rows (db_users d')). usr_IsAdmin v \<longrightarrow>
                 v \<in> set (rows (db_users d)) \<or> v = u \<and> matchesBootstrap a u)))"
proof (intro conjI impI allI)
  show "ProxyAuthenticate now a r d = (d, Inr None)" if "\<not> isTrustedPeer (pa_TrustedProxies a) r"
    using that by (simp add: ProxyAuthenticate_def)
  fix d' idn
  assume p: "ProxyAuthenticate now a r d = (d', Inr (Some idn))"
  then show "isTrustedPeer (pa_TrustedProxies a) r" by (auto simp: ProxyAuthenticate_def split: if_splits)
  let ?name = "trim_space (header_Get r (headerName (pa_UserHeader a) ''X-Forwarded-User''))"
  define email where "email = trim_space (header_Get r (headerName (pa_EmailHeader a) ''X-Forwarded-Email''))"
  have ne: "?name \<noteq> []" and tr: "isTrustedPeer (pa_TrustedProxies a) r"
    using p by (auto simp: ProxyAuthenticate_def Let_def split: if_splits)
  obtain d1 res where g0: "users_GetOrCreate now ?name email d = (d1, res)" by fastforce
  then obtain u where res: "res = Inr u"
    using p ne tr by (cases res) (auto simp: ProxyAuthenticate_def Let_def simp flip: email_def)
  note g = g0 [unfolded res]
  have d': "d' = (if pa_BootstrapAdmin a \<noteq> [] \<and> \<not> usr_IsAdmin u \<and> matchesBootstrap a u then Promote (usr_ID u) d1 else d1)"
    and idn: "id_User idn = Some (if pa_BootstrapAdmin a \<noteq> [] \<and> \<not> usr_IsAdmin u \<and> matchesBootstrap a u
        then u\<lparr>usr_IsAdmin := True\<rparr> else u)"
    using p ne tr g by (auto simp: ProxyAuthenticate_def Let_def simp flip: email_def split: if_splits)
  note u = GetOrCreate_user [OF assms g]
  have uniq: "v = u" if "v \<in> set (rows (db_users d1))" "usr_ID v = usr_ID u" for v
    using table_ok_rid_unique [OF accounts_okD(2) [OF u(1)] that(1) u(2) that(2)] .
  show "\<exists>u. id_User idn = Some u \<and> u \<in> set (rows (db_users d'))
            \<and> usr_LowerName u = to_lower ?name
            \<and> (\<forall>v \<in> set (rows (db_users d')). usr_IsAdmin v \<longrightarrow>
                 v \<in> set (rows (db_users d)) \<or> v = u \<and> matchesBootstrap a u)"
  proof (cases "pa_BootstrapAdmin a \<noteq> [] \<and> \<not> usr_IsAdmin u \<and> matchesBootstrap a u")
    case True
    then have "rows (db_users d') = map (\<lambda>v. if usr_ID v = usr_ID u then v\<lparr>usr_IsAdmin := True\<rparr> else v) (rows (db_users d1))"
      by (simp add: d' Promote_def)
    then have "v \<in> set (rows (db_users d')) \<longleftrightarrow> v = u\<lparr>usr_IsAdmin := True\<rparr> \<or> v \<in> set (rows (db_users d1)) \<and> usr_ID v \<noteq> usr_ID u" for v
      using uniq u(2) by auto
    moreover have "matchesBootstrap a (u\<lparr>usr_IsAdmin := True\<rparr>)" using True by (simp add: matchesBootstrap_def)
    moreover have "id_User idn = Some (u\<lparr>usr_IsAdmin := True\<rparr>)" using idn True by simp
    ultimately show ?thesis
      using u(3,4) by (intro exI [where x = "u\<lparr>usr_IsAdmin := True\<rparr>"]) auto
  next
    case False
    then show ?thesis using idn d' u by auto
  qed
qed

text \<open>The account of the first boot is named \<open>admin\<close>: a proxy that lets somebody sign in under this name signs in
  the administrator.\<close>

definition gate_proxy :: proxy_auth where
  "gate_proxy = \<lparr>pa_UserHeader = [], pa_EmailHeader = [], pa_GroupsHeader = [], pa_TrustedProxies = [''10.0.0.2''],
     pa_BootstrapAdmin = []\<rparr>"

definition gate_request :: console_request where
  "gate_request = \<lparr>rq_RemoteAddr = ''10.0.0.2:80'',
     rq_Header = (\<lambda>k. if k = ''X-Forwarded-User'' then ['' Admin''] else []), rq_URI = []\<rparr>"

theorem proxy_headers_witness:
  "\<exists>d' idn u. ProxyAuthenticate 7 gate_proxy gate_request desk_db = (d', Inr (Some idn)) \<and> id_User idn = Some u
     \<and> usr_LowerName u = ''admin'' \<and> IsSystemAdmin idn"
proof -
  have t: "isTrustedPeer (pa_TrustedProxies gate_proxy) gate_request" by code_simp
  have n: "trim_space (header_Get gate_request (headerName (pa_UserHeader gate_proxy) ''X-Forwarded-User'')) = ''Admin''"
    by code_simp
  have l: "to_lower ''Admin'' = ''admin''" by code_simp
  have "users_GetByName desk_db ''Admin'' = Inr (hd (rows (db_users desk_db)))"
    using desk_admin by (simp add: users_GetByName_def l desk_lower)
  then have "users_GetOrCreate 7 ''Admin'' e desk_db = (desk_db, Inr (hd (rows (db_users desk_db))))" for e
    by (simp add: users_GetOrCreate_def)
  then obtain d' idn where p: "ProxyAuthenticate 7 gate_proxy gate_request desk_db = (d', Inr (Some idn))" "IsSystemAdmin idn"
    using t n by (simp add: ProxyAuthenticate_def Let_def IsSystemAdmin_def gate_proxy_def)
  then show ?thesis
    using proxy_headers [OF desk_db_ok, of gate_proxy gate_request 7, THEN conjunct2, rule_format, OF p(1)] n l by auto
qed

end
