(* ===== verification/Console_Tokens.thy ===== *)
theory Console_Tokens
  imports Console_Laws
begin

text \<open>
  The profile and the tokens of the signed-in user (\<open>internal/console/tokens.go\<close>): changing the password, listing,
  minting and revoking access tokens. \<open>rb\<close> are the random bytes of the new token, \<open>now_ns\<close> the wall clock in
  nanoseconds. The page of the profile is in \<open>Console_Pages\<close>.
\<close>

section \<open>The handlers\<close>

definition FlashDanger :: string where "FlashDanger = ''danger''"

definition identity_user :: "identity option \<Rightarrow> (identity \<times> user) option" where
  "identity_user idn = (case idn of None \<Rightarrow> None | Some i \<Rightarrow> map_option (Pair i) (id_User i))"

definition flash_redirect :: "console_env \<Rightarrow> string \<Rightarrow> string \<Rightarrow> string \<Rightarrow> console \<Rightarrow> (console \<times> console_reply) option" where
  "flash_redirect ce sev txt url c = Some (console_flash ce sev txt c, Redirect url)"

definition profileChangePassword :: "console_env \<Rightarrow> console_config \<Rightarrow> console_request \<Rightarrow> (string \<Rightarrow> string) \<Rightarrow> identity option
    \<Rightarrow> console \<Rightarrow> (console \<times> console_reply) option" where
  "profileChangePassword ce cf r form idn c =
     (if cf_AuthMode cf \<noteq> ''password'' then
        Some (RenderForbidden ce idn ''Password changes aren't available in proxy-header mode.'' c)
      else case identity_user idn of
          None \<Rightarrow> Some (RenderError ce r idn ''change password'' c)
        | Some (i, u) \<Rightarrow>
            (let current = form ''current_password''; newPw = form ''new_password''; confirm = form ''confirm_password'';
                 failFlash = (\<lambda>txt. flash_redirect ce FlashDanger txt ''/console/profile'' c) in
             if current = [] \<or> newPw = [] \<or> confirm = [] then failFlash ''All three password fields are required.''
             else if newPw \<noteq> confirm then failFlash ''New password and confirmation don't match.''
             else if length newPw < 12 then failFlash ''New password must be at least 12 characters.''
             else case VerifyPassword (ce_verify ce) (cs_db c) (usr_Name u) current of
                 Inl e \<Rightarrow> failFlash ''Current password is incorrect.''
               | Inr _ \<Rightarrow>
                   (case ce_hash ce newPw of
                      Inl e \<Rightarrow> Some (RenderError ce r idn ''hash password'' c)
                    | Inr hashed \<Rightarrow>
                        (case SetPasswordHash (ce_now ce) (usr_ID u) hashed (cs_db c) of
                           (d', Inl e) \<Rightarrow> Some (RenderError ce r idn ''save password'' (c\<lparr>cs_db := d'\<rparr>))
                         | (d', Inr _) \<Rightarrow>
                             map_option (\<lambda>c1. (console_flash ce FlashSuccess ''Password changed.'' c1, Redirect ''/console/profile''))
                               (auditLogin ce cf r (Some u) ''console.password.set'' [] (c\<lparr>cs_db := d'\<rparr>))))))"

definition tokensList :: "console_env \<Rightarrow> console_request \<Rightarrow> identity option \<Rightarrow> console \<Rightarrow> console \<times> console_reply" where
  "tokensList ce r idn c =
     (case identity_user idn of
        None \<Rightarrow> RenderError ce r idn ''list tokens'' c
      | Some (i, u) \<Rightarrow>
          (let toks = ListByUser (cs_db c) (usr_ID u);
               (s1, raw) = PopOneShotToken (ce_fits ce) (cs_session c);
               (s2, name) = (if raw \<noteq> [] then PopOneShotTokenName (ce_fits ce) s1 else (s1, []))
           in render ce idn 200 (TokensList toks raw name) (c\<lparr>cs_session := s2\<rparr>)))"

definition known_scope :: "string \<Rightarrow> bool" where
  "known_scope s = (s = ScopeRead \<or> s = ScopeWrite \<or> s = ScopeAdmin)"

definition mint_scopes :: "user \<Rightarrow> string list \<Rightarrow> string list" where
  "mint_scopes u scopes = (if \<not> usr_IsAdmin u then filter (\<lambda>s. s \<noteq> ScopeAdmin) scopes else scopes)"

text \<open>The tenant the token is bound to, zero for none; \<open>None\<close>: refused.\<close>

definition mint_tenant :: "identity \<Rightarrow> string \<Rightarrow> int option" where
  "mint_tenant i str =
     (if str = [] then Some 0
      else case parse_int64 str of
          None \<Rightarrow> Some 0
        | Some tid \<Rightarrow> (if tid > 0 then (if \<not> CanRead i tid then None else Some tid) else Some 0))"

text \<open>\<open>time.Now().Add(time.Duration(d) * 24 * time.Hour).Unix()\<close>, with the product of 64 bits.\<close>

definition mint_expiry :: "int \<Rightarrow> string \<Rightarrow> int" where
  "mint_expiry now_ns str =
     (if str = [] then 0
      else case parse_int64 str of
          None \<Rightarrow> 0
        | Some d \<Rightarrow> (if d > 0 then (now_ns + wrap64 (wrap64 (d * 24) * (3600 * go_second))) div go_second else 0))"

definition token_note :: "int \<Rightarrow> string \<Rightarrow> string" where
  "token_note i name = ''token #'' @ show_int i @ '' ('' @ name @ '')''"

definition tokenMint :: "console_env \<Rightarrow> console_config \<Rightarrow> console_request \<Rightarrow> (string \<Rightarrow> string) \<Rightarrow> string list \<Rightarrow> string \<Rightarrow> int
    \<Rightarrow> identity option \<Rightarrow> console \<Rightarrow> (console \<times> console_reply) option" where
  "tokenMint ce cf r form scopeRaw rb now_ns idn c =
     (case identity_user idn of
        None \<Rightarrow> Some (RenderError ce r idn ''mint token'' c)
      | Some (i, u) \<Rightarrow>
          (let name = trim_space (form ''name''); scopes = filter known_scope scopeRaw;
               failFlash = (\<lambda>txt. flash_redirect ce FlashDanger txt ''/console/tokens'' c) in
           if name = [] then failFlash ''Token name is required.''
           else if length name > 80 then failFlash ''Token name max 80 chars.''
           else if scopes = [] then failFlash ''Pick at least one scope.''
           else case mint_tenant i (trim_space (form ''tenant_scope'')) of
               None \<Rightarrow> failFlash ''You can't scope a token to a tenant you don't have access to.''
             | Some tenant \<Rightarrow>
                 (case Issue rb (ce_now ce) \<lparr>to_UserID = usr_ID u, to_Name = name, to_Scopes = mint_scopes u scopes,
                      to_TenantScope = tenant, to_ExpiresUnix = mint_expiry now_ns (trim_space (form ''expires_in_days''))\<rparr> (cs_db c) of
                    (d', Inl e) \<Rightarrow> Some (RenderError ce r idn ''mint token'' (c\<lparr>cs_db := d'\<rparr>))
                  | (d', Inr (plain, tok)) \<Rightarrow>
                      map_option (\<lambda>c1. (c1, Redirect ''/console/tokens''))
                        (auditLogin ce cf r (Some u) ''tokens.mint'' (token_note (tok_ID tok) name)
                           (c\<lparr>cs_db := d', cs_session := fst (SetOneShotToken (ce_fits ce) plain name (cs_session c))\<rparr>)))))"

definition tokenRevoke :: "console_env \<Rightarrow> console_config \<Rightarrow> console_request \<Rightarrow> string \<Rightarrow> identity option
    \<Rightarrow> console \<Rightarrow> (console \<times> console_reply) option" where
  "tokenRevoke ce cf r param idn c =
     (case identity_user idn of
        None \<Rightarrow> Some (RenderError ce r idn ''revoke token'' c)
      | Some (i, u) \<Rightarrow>
          (case parse_int64 param of
             None \<Rightarrow> Some (RenderNotFound ce idn ''token not specified'' c)
           | Some tid \<Rightarrow>
               (if tid \<le> 0 then Some (RenderNotFound ce idn ''token not specified'' c)
                else case tokens_GetByID (cs_db c) tid of
                    Inl e \<Rightarrow> (if e = ErrTokenNotExist then Some (RenderNotFound ce idn ''token not found'' c)
                              else Some (RenderError ce r idn ''look up token'' c))
                  | Inr tok \<Rightarrow>
                      (if tok_UserID tok \<noteq> usr_ID u \<and> \<not> IsSystemAdmin i
                       then Some (RenderForbidden ce idn ''You can only revoke your own tokens.'' c)
                       else case Revoke tid (cs_db c) of
                           (d', Inl e) \<Rightarrow> Some (RenderError ce r idn ''revoke token'' (c\<lparr>cs_db := d'\<rparr>))
                         | (d', Inr _) \<Rightarrow>
                             map_option (\<lambda>c1. (console_flash ce FlashSuccess (''Token '' @ go_quote (tok_Name tok) @ '' revoked.'') c1,
                                 Redirect ''/console/tokens''))
                               (auditLogin ce cf r (Some u) ''tokens.revoke'' (token_note tid (tok_Name tok)) (c\<lparr>cs_db := d'\<rparr>))))))"

end
