(* ===== verification/Console_Token_Laws.thy ===== *)
theory Console_Token_Laws
  imports Console_Tokens Console_SignIn
begin

text \<open>
  The tokens a signed-in user manages: what a minted token can do, who can revoke one, when a minted token expires,
  and what changing the password takes.
\<close>

section \<open>Minting\<close>

lemma known_scope_clean: "known_scope s \<Longrightarrow> s \<noteq> [] \<and> CHR '','' \<notin> set s \<and> no_outer_space s"
  by (auto simp: known_scope_def ScopeRead_def ScopeWrite_def ScopeAdmin_def no_outer_space_def is_space_def)

lemma issue_known:
  assumes "accounts_ok d" and "Issue rb now opts d = (d', Inr (pt, t))" and "\<forall>s \<in> set (to_Scopes opts). known_scope s"
    and "presents hdr pt" and "to_ExpiresUnix opts = 0 \<or> now' \<le> to_ExpiresUnix opts"
  obtains u where "Authenticate now' hdr d' =
      Inr (Some \<lparr>id_User = Some u, id_Token = Some t, id_Memberships = Memberships d' (usr_ID u), id_Kind = CredentialToken\<rparr>)"
    "usr_ID u = to_UserID opts" "u \<in> set (rows (db_users d))" "db_members d' = db_members d"
    "tok_Scopes t = to_Scopes opts" "tok_TenantScope t = (if to_TenantScope opts > 0 then Some (to_TenantScope opts) else None)"
proof -
  have "s \<noteq> [] \<and> CHR '','' \<notin> set s \<and> no_outer_space s" if "s \<in> set (to_Scopes opts)" for s
    using that assms(3) known_scope_clean by blast
  from issue_authenticates [OF assms(1,2) this assms(4,5)] that show thesis by blast
qed

text \<open>The options a mint request amounts to.\<close>

definition mint_options :: "(string \<Rightarrow> string) \<Rightarrow> string list \<Rightarrow> int \<Rightarrow> user \<Rightarrow> int \<Rightarrow> token_options" where
  "mint_options form scopeRaw now_ns u tenant =
     \<lparr>to_UserID = usr_ID u, to_Name = trim_space (form ''name''), to_Scopes = mint_scopes u (filter known_scope scopeRaw),
      to_TenantScope = tenant, to_ExpiresUnix = mint_expiry now_ns (trim_space (form ''expires_in_days''))\<rparr>"

lemma page_db: "render ce idn status body c = (c', rep) \<Longrightarrow> cs_db c' = cs_db c"
  by (rule render_keeps(1))

lemma Issue_Inl: "Issue rb now opts d = (d', Inl e) \<Longrightarrow> d' = d"
  by (auto simp: Issue_def persist_def split: if_splits sum.splits option.splits prod.splits)

lemma tokenMint_cases:
  assumes "tokenMint ce cf r form scopeRaw rb now_ns idn c = Some (c', rep)" and "identity_user idn = Some (i, u)"
  obtains (none) "cs_db c' = cs_db c"
  | (minted) tenant d' plain tok where
      "mint_tenant i (trim_space (form ''tenant_scope'')) = Some tenant"
      "Issue rb (ce_now ce) (mint_options form scopeRaw now_ns u tenant) (cs_db c) = (d', Inr (plain, tok))"
      "cs_db c' = d'" "rep = Redirect ''/console/tokens''"
      "cs_session c' = fst (SetOneShotToken (ce_fits ce) plain (trim_space (form ''name'')) (cs_session c))"
proof -
  let ?name = "trim_space (form ''name'')"
  have refused: "cs_db c' = cs_db c" if "flash_redirect ce FlashDanger msg url c = Some (c', rep)" for msg url
    using that by (auto simp: flash_redirect_def)
  show ?thesis
  proof (cases "?name = [] \<or> length ?name > 80 \<or> filter known_scope scopeRaw = []
      \<or> mint_tenant i (trim_space (form ''tenant_scope'')) = None")
    case True
    then show ?thesis
      using assms refused by (intro none) (auto simp: tokenMint_def Let_def split: if_splits)
  next
    case False
    then obtain tenant where t: "mint_tenant i (trim_space (form ''tenant_scope'')) = Some tenant" by auto
    obtain d' res where iss: "Issue rb (ce_now ce) (mint_options form scopeRaw now_ns u tenant) (cs_db c) = (d', res)" by fastforce
    show ?thesis
    proof (cases res)
      case (Inl e)
      then show ?thesis
        using assms False t iss Issue_Inl [OF iss [unfolded Inl]]
        by (intro none) (auto simp: tokenMint_def Let_def mint_options_def page_defs dest: page_db)
    next
      case (Inr pt)
      obtain plain tok where pt: "pt = (plain, tok)" by fastforce
      let ?c = "c\<lparr>cs_db := d', cs_session := fst (SetOneShotToken (ce_fits ce) plain ?name (cs_session c))\<rparr>"
      have "map_option (\<lambda>c1. (c1, Redirect ''/console/tokens''))
          (auditLogin ce cf r (Some u) ''tokens.mint'' (token_note (tok_ID tok) ?name) ?c) = Some (c', rep)"
        using assms(1,2) False t iss Inr pt by (simp add: tokenMint_def Let_def mint_options_def)
      then obtain c1 where a: "auditLogin ce cf r (Some u) ''tokens.mint'' (token_note (tok_ID tok) ?name) ?c = Some c1"
        and "c1 = c'" "rep = Redirect ''/console/tokens''"
        by (auto simp: map_option_case split: option.splits)
      then show ?thesis
        using auditLogin_keeps [OF a] by (intro minted [OF t, of d' plain tok]) (simp_all add: iss Inr pt)
    qed
  qed
qed

text \<open>An access token of a user and a browser session of the same user, on the same memberships.\<close>

definition token_of :: "identity \<Rightarrow> identity \<Rightarrow> bool" where
  "token_of tid i \<longleftrightarrow> id_Kind tid = CredentialToken \<and> id_User tid = id_User i \<and> id_Memberships tid = id_Memberships i
     \<and> id_Kind i \<noteq> CredentialToken"

lemma token_of_bounded:
  assumes "token_of tid i"
  shows "IsSystemAdmin tid \<longrightarrow> IsSystemAdmin i" and "CanRead tid t \<longrightarrow> CanRead i t" and "CanWrite tid t \<longrightarrow> CanWrite i t"
  using assms by (auto simp: token_of_def access_defs split: option.splits credential_kind.splits if_splits)


definition mint_desk :: console where
  "mint_desk = desk\<lparr>cs_db := sample_db\<rparr>"

definition mint_identity :: identity where
  "mint_identity = \<lparr>id_User = Some sample_admin_row, id_Token = None, id_Memberships = Memberships sample_db 1,
     id_Kind = CredentialSession\<rparr>"

definition mint_form :: "string \<Rightarrow> string" where
  "mint_form = (\<lambda>k. if k = ''name'' then ''laptop'' else [])"

lemma mint_simps: "trim_space ''laptop'' = ''laptop''" "trim_space [] = []" "known_scope ScopeRead" "\<not> known_scope ''root''"
  by code_simp+

lemma mint_sample:
  "\<exists>c' rep. tokenMint desk_env desk_config (desk_request []) mint_form [ScopeRead, ''root''] (replicate 20 CHR ''k'') 0
      (Some mint_identity) mint_desk = Some (c', rep) \<and> cs_db c' \<noteq> sample_db"
proof -
  obtain body where g: "generate (replicate 20 CHR ''k'') = Inr (token_prefix @ body)" "length body = 32"
    using generate_length [of "replicate 20 CHR ''k''"] by auto
  have u: "identity_user (Some mint_identity) = Some (mint_identity, sample_admin_row)" "usr_ID sample_admin_row = 1"
    by (simp_all add: identity_user_def mint_identity_def sample_admin_row_def mk_user_def)
  have d: "db_tokens sample_db = empty_table" "user_exists sample_db 1"
    by (simp_all add: sample_db_eq fresh_db_def user_exists_def u)
  have t: "mint_tenant mint_identity [] = Some 0" "mint_expiry 0 [] = 0" by (simp_all add: mint_tenant_def mint_expiry_def)
  define opts where "opts = \<lparr>to_UserID = 1, to_Name = ''laptop'', to_Scopes = mint_scopes sample_admin_row [ScopeRead],
      to_TenantScope = 0, to_ExpiresUnix = 0\<rparr>"
  obtain tok where iss: "Issue (replicate 20 CHR ''k'') 10 opts sample_db =
      (sample_db\<lparr>db_tokens := \<lparr>rows = [mk_token_row (opts, token_prefix @ body, 10) 1], seq = 1\<rparr>\<rparr>,
       Inr (token_prefix @ body, tok))"
    using g(1) d by (simp add: Issue_def persist_def insert_unique_def Let_def opts_def mint_scopes_def sample_admin_row_def mk_user_def)
  obtain c1 where a: "auditLogin desk_env desk_config (desk_request []) (Some sample_admin_row) ''tokens.mint'' (token_note (tok_ID tok) ''laptop'')
      (mint_desk\<lparr>cs_db := sample_db\<lparr>db_tokens := \<lparr>rows = [mk_token_row (opts, token_prefix @ body, 10) 1], seq = 1\<rparr>\<rparr>,
        cs_session := fst (SetOneShotToken (\<lambda>_. True) (token_prefix @ body) ''laptop'' (cs_session mint_desk))\<rparr>) = Some c1"
    by (simp add: auditLogin_def mint_desk_def desk_def)
  have "tokenMint desk_env desk_config (desk_request []) mint_form [ScopeRead, ''root''] (replicate 20 CHR ''k'') 0
      (Some mint_identity) mint_desk = Some (c1, Redirect ''/console/tokens'')"
    using iss a u t by (simp add: tokenMint_def mint_form_def mint_simps mint_desk_def flip: opts_def)
  moreover have "db_tokens (cs_db c1) \<noteq> db_tokens sample_db"
    using auditLogin_keeps [OF a] d(1) by (simp add: empty_table_def)
  then have "cs_db c1 \<noteq> sample_db" by auto
  ultimately show ?thesis by blast
qed


section \<open>Expiry\<close>

text \<open>
  When a minted token expires. For a lifetime of up to 106751 days it expires that many days from now. The product
  with the nanoseconds of a day is computed in 64 bits: asked for 106752 days the token has expired before it was
  minted, and asked for 213504 days it lives for some twenty-five minutes. A lifetime that is not a number is ignored and
  the token never expires.
\<close>

theorem mint_expiry_wraps:
  assumes "parse_int64 str = Some d" and "0 < d" and "d \<le> 106751"
  shows "mint_expiry now_ns str = now_ns div go_second + d * 86400
    \<and> mint_expiry now_ns ''106752'' < now_ns div go_second
    \<and> mint_expiry now_ns ''213504'' \<le> now_ns div go_second + 1527
    \<and> mint_expiry now_ns ''30d'' = 0"
proof (intro conjI)
  have "str \<noteq> []" using assms(1) by (auto simp: parse_int64_def)
  moreover have "wrap64 (d * 24) = d * 24" "wrap64 (d * 24 * (3600 * go_second)) = d * 86400 * go_second"
    using assms(2,3) by (simp_all add: int64_range_def go_second_def)
  ultimately show "mint_expiry now_ns str = now_ns div go_second + d * 86400"
    using assms(1,2) by (simp add: mint_expiry_def go_second_def)
  have p: "parse_int64 ''106752'' = Some 106752" "parse_int64 ''213504'' = Some 213504" "parse_int64 ''30d'' = None"
    by (simp_all add: parse_int64_def digit_value_def int64_range_def)
  show "mint_expiry now_ns ''106752'' < now_ns div go_second"
    by (simp add: mint_expiry_def p go_second_def wrap64_mod)
  show "mint_expiry now_ns ''213504'' \<le> now_ns div go_second + 1527"
    by (simp add: mint_expiry_def p go_second_def wrap64_mod)
  show "mint_expiry now_ns ''30d'' = 0"
    by (simp add: mint_expiry_def p)
qed

theorem mint_expiry_wraps_witness: "mint_expiry (1700000000 * go_second) ''365'' = 1731536000"
proof -
  have "parse_int64 ''365'' = Some 365" by code_simp
  then show ?thesis using mint_expiry_wraps [of "''365''" 365 "1700000000 * go_second"] by (simp add: go_second_def)
qed

section \<open>Revoking\<close>

text \<open>
  Who can revoke a token. A revocation removes at most the token it names, and that only for its owner or a system
  administrator: to anybody else's request every token of another user survives.
\<close>

theorem revoke_own_tokens:
  assumes "tokenRevoke ce cf r param idn c = Some (c', rep)" and "identity_user idn = Some (i, u)"
    and "accounts_ok (cs_db c)"
  shows "(\<forall>t \<in> set (rows (db_tokens (cs_db c))).
        t \<in> set (rows (db_tokens (cs_db c'))) \<or> parse_int64 param = Some (tkr_ID t) \<and> (tkr_UserID t = usr_ID u \<or> IsSystemAdmin i))
     \<and> set (rows (db_tokens (cs_db c'))) \<subseteq> set (rows (db_tokens (cs_db c)))"
proof -
  consider (same) "cs_db c' = cs_db c"
    | (revoked) tid tok where "parse_int64 param = Some tid" "tokens_GetByID (cs_db c) tid = Inr tok"
        "tok_UserID tok = usr_ID u \<or> IsSystemAdmin i" "cs_db c' = fst (Revoke tid (cs_db c))"
    using assms(1,2)
    by (auto simp: tokenRevoke_def page_defs RenderNotFound_def split: option.splits sum.splits if_splits prod.splits
        dest: page_db auditLogin_keeps)
  then show ?thesis
  proof cases
    case same
    then show ?thesis by auto
  next
    case revoked
    then obtain row where row: "row \<in> set (rows (db_tokens (cs_db c)))" "tkr_ID row = tid" "tok_UserID tok = tkr_UserID row"
      by (auto simp: tokens_GetByID_def scan_token_def dest: select_oneD split: option.splits)
    have "tkr_UserID t = usr_ID u \<or> IsSystemAdmin i" if "t \<in> set (rows (db_tokens (cs_db c)))" "tkr_ID t = tid" for t
      using table_ok_rid_unique [OF accounts_okD(3) [OF assms(3)] that(1) row(1)] that(2) row(2,3) revoked(3) by simp
    moreover have "rows (db_tokens (cs_db c')) = filter (\<lambda>t. tkr_ID t \<noteq> tid) (rows (db_tokens (cs_db c)))"
      by (simp add: revoked(4) Revoke_def)
    ultimately show ?thesis
      using revoked(1) by auto
  qed
qed

theorem revoke_own_tokens_witness:
  "\<exists>c' rep. tokenRevoke desk_env desk_config (desk_request []) ''1'' (Some \<lparr>id_User = Some bob_row, id_Token = None,
      id_Memberships = Map.empty, id_Kind = CredentialSession\<rparr>) desk = Some (c', rep)
    \<and> set (rows (db_tokens (cs_db c'))) \<subseteq> {read_token_row}"
proof -
  let ?bob = "\<lparr>id_User = Some bob_row, id_Token = None, id_Memberships = Map.empty, id_Kind = CredentialSession\<rparr>"
  have u: "identity_user (Some ?bob) = Some (?bob, bob_row)" by (simp add: identity_user_def)
  have "parse_int64 ''1'' = Some 1" by code_simp
  moreover have "\<not> IsSystemAdmin ?bob" by (simp add: IsSystemAdmin_def bob_row_def mk_user_def)
  moreover have "tokens_GetByID desk_db 1 = Inr (scan_token split_scopes read_token_row)" "usr_ID bob_row = 2"
      "tok_UserID (scan_token split_scopes read_token_row) = 1"
    by (simp_all add: tokens_GetByID_def select_one_def desk_defs scan_token_def)
  ultimately have "tokenRevoke desk_env desk_config (desk_request []) ''1'' (Some ?bob) desk
      = Some (RenderForbidden desk_env (Some ?bob) ''You can only revoke your own tokens.'' desk)"
    by (simp add: tokenRevoke_def u)
  then obtain c' rep where r: "tokenRevoke desk_env desk_config (desk_request []) ''1'' (Some ?bob) desk = Some (c', rep)"
    by (metis surj_pair)
  have "set (rows (db_tokens desk_db)) = {read_token_row}" by (simp add: desk_db_def)
  then show ?thesis
    using revoke_own_tokens [OF r u] desk_db_ok r by auto
qed

end
