(* ===== verification/Console_Pages.thy ===== *)
theory Console_Pages
  imports Console_Tokens Upstream_Config Models_Store Go_Json
begin

text \<open>
  The pages of the console behind the sign-in: tenants and their members (\<open>tenants.go\<close>), packages and the quarantine
  (\<open>packages.go\<close>), rules (\<open>rules.go\<close>), upstreams (\<open>upstreams.go\<close>), the audit log (\<open>audit.go\<close>), the dashboard
  (\<open>dashboard.go\<close>) and the profile (\<open>tokens.go\<close>) of \<open>internal/console\<close>. A page is the data handed to its template.

  \<open>pe_url\<close> is \<open>url.Parse\<close>, as the scheme and the host it finds; \<open>pe_decode\<close> decodes the extras of audit rows;
  \<open>pe_config_text\<close> is the text the store keeps for a rule's configuration; \<open>pe_order\<close> and \<open>pe_tenant_order\<close> are the orders in which Go runs
  through the keys of a map.
\<close>

record pages_env =
  pe_console :: console_env
  pe_url :: "string \<Rightarrow> (string \<times> string) option"
  pe_decode :: "string \<Rightarrow> (string \<times> json) list option"
  pe_config_text :: "config_json \<Rightarrow> string"
  pe_order :: "string list \<Rightarrow> string list"
  pe_tenant_order :: "int list \<Rightarrow> int list"

section \<open>The data of the pages\<close>

record tenant_row =
  tr_ID :: int
  tr_Name :: string
  tr_VisibilityStr :: string
  tr_IsPublic :: bool
  tr_PackageCount :: nat

record member_row =
  mr_UserID :: int
  mr_UserName :: string
  mr_UserEmail :: string
  mr_IsAdmin :: bool
  mr_RoleName :: string
  mr_RoleValue :: int

record package_row =
  pr_PackageID :: int
  pr_Type :: string
  pr_Name :: string
  pr_Versions :: nat
  pr_Provenance :: string

record global_package_row =
  gr_TenantName :: string
  gr_Type :: string
  gr_Name :: string
  gr_Versions :: nat
  gr_Provenance :: string

record version_row =
  vr_VersionID :: int
  vr_Version :: string
  vr_CreatedUnix :: int
  vr_Quarantined :: bool
  vr_Reason :: string
  vr_License :: string

record rule_edit_data =
  re_ID :: int
  re_Name :: string
  re_Kind :: string
  re_Action :: string
  re_Priority :: int
  re_Enabled :: bool
  re_Format :: string
  re_TenantID :: int
  re_Package :: string
  re_VersionPat :: string
  re_ConfigJSON :: string
  re_ExpiresAt :: int
  re_Errors :: "(string \<times> string) list"
  re_Tenants :: "(int \<times> string) list"

record upstream_row_data =
  uw_Format :: string
  uw_Mode :: string
  uw_UpstreamURL :: string
  uw_MetadataTTLSec :: int
  uw_DefaultURL :: string
  uw_DefaultHosts :: "string list"
  uw_HasOverride :: bool
  uw_AdapterShipped :: bool
  uw_UpdatedUnix :: int

record audit_filter =
  af_TenantID :: int
  af_Action :: string
  af_Decision :: string
  af_UserID :: int
  af_Limit :: int

record tenant_form =
  tf_Name :: string
  tf_Visibility :: string
  tf_Errors :: "(string \<times> string) list"

record tenant_detail =
  td_Tenant :: tenant
  td_Members :: "member_row list"
  td_PackageCount :: nat
  td_PackagesUploaded :: nat
  td_PackagesPullThrough :: nat
  td_CanManage :: bool

record package_detail =
  pd_Tenant :: tenant
  pd_Package :: package
  pd_Versions :: "version_row list"
  pd_CanManage :: bool
  pd_ProvenanceLabel :: string
  pd_ProvenanceFlipTarget :: string

record dashboard_data =
  dd_TotalTenants :: nat
  dd_TotalPackages :: nat
  dd_TotalVersions :: nat
  dd_YourTenants :: nat
  dd_RecentIngests :: "event list"
  dd_Decisions24h :: "(string \<times> nat) list"

record profile_data =
  pf_User :: user
  pf_AuthKind :: string
  pf_PasswordSet :: bool
  pf_Memberships :: "(int \<times> string \<times> string) list"

datatype page_content =
    TenantsPage "tenant_row list"
  | TenantPage tenant_detail
  | TenantNewPage tenant_form
  | PackagesGlobalPage "global_package_row list" string
  | PackagesPage tenant "package_row list" bool string
  | PackagePage package_detail
  | QuarantinePage "quarantined_view list"
  | RulesPage "rule list"
  | RuleEditPage rule_edit_data
  | UpstreamsPage string "upstream_row_data list" "(string \<times> string) list" string
  | AuditPage audit_filter "event list" bool
  | DashboardPage dashboard_data
  | ProfilePage profile_data

text \<open>A reply of the handlers of \<open>login.go\<close> and \<open>tokens.go\<close>, a page, or a file.\<close>

datatype pages_reply =
    Plain console_reply
  | Shown base_data page_content
  | Download "(string \<times> string) list" string
  | Gate response

type_synonym pages_result = "(console \<times> pages_reply) option"

definition plain :: "console \<times> console_reply \<Rightarrow> pages_result" where
  "plain x = Some (fst x, Plain (snd x))"

definition show_page :: "pages_env \<Rightarrow> identity option \<Rightarrow> page_content \<Rightarrow> console \<Rightarrow> pages_result" where
  "show_page pe idn pc c = (case baseData (pe_console pe) idn c of (c', base) \<Rightarrow> Some (c', Shown base pc))"

definition page_error :: "pages_env \<Rightarrow> console_request \<Rightarrow> identity option \<Rightarrow> string \<Rightarrow> console \<Rightarrow> pages_result" where
  "page_error pe r idn verb c = plain (RenderError (pe_console pe) r idn verb c)"

definition not_found :: "pages_env \<Rightarrow> identity option \<Rightarrow> string \<Rightarrow> console \<Rightarrow> pages_result" where
  "not_found pe idn msg c = plain (RenderNotFound (pe_console pe) idn msg c)"

definition forbidden :: "pages_env \<Rightarrow> identity option \<Rightarrow> string \<Rightarrow> console \<Rightarrow> pages_result" where
  "forbidden pe idn msg c = plain (RenderForbidden (pe_console pe) idn msg c)"

definition go_to :: "string \<Rightarrow> console \<Rightarrow> pages_result" where
  "go_to url c = plain (c, Redirect url)"

definition flash_to :: "pages_env \<Rightarrow> string \<Rightarrow> string \<Rightarrow> string \<Rightarrow> console \<Rightarrow> pages_result" where
  "flash_to pe sev txt url c = go_to url (console_flash (pe_console pe) sev txt c)"

section \<open>Audit\<close>

text \<open>The event \<open>auditTenant\<close>, \<open>auditPackage\<close>, \<open>auditQuarantine\<close> and \<open>auditRule\<close> build; what they do not set stays zero.\<close>

definition console_event :: "pages_env \<Rightarrow> console_config \<Rightarrow> console_request \<Rightarrow> identity option \<Rightarrow> string \<Rightarrow> (string \<times> json) list
    \<Rightarrow> event" where
  "console_event pe cf r idn act extra =
     (login_event (pe_console pe) cf r (case idn of None \<Rightarrow> None | Some i \<Rightarrow> id_User i) act [])\<lparr>ev_Extra := extra\<rparr>"

definition console_log :: "pages_env \<Rightarrow> event \<Rightarrow> console \<Rightarrow> console option" where
  "console_log pe e c =
     (case cs_audit c of
        None \<Rightarrow> Some c
      | Some l \<Rightarrow> map_option (\<lambda>l'. c\<lparr>cs_audit := Some l'\<rparr>) (logger_Log (ce_now (pe_console pe)) e l))"

definition logged :: "pages_env \<Rightarrow> event \<Rightarrow> string \<Rightarrow> string \<Rightarrow> console \<Rightarrow> pages_result" where
  "logged pe e txt url c =
     (case console_log pe e c of None \<Rightarrow> None | Some c1 \<Rightarrow> flash_to pe FlashSuccess txt url c1)"

definition jnum :: "int \<Rightarrow> json" where "jnum i = JNumber (show_int i)"

section \<open>Tenants\<close>

definition resolveTenantFromPath :: "pages_env \<Rightarrow> console_request \<Rightarrow> identity option \<Rightarrow> string \<Rightarrow> console
    \<Rightarrow> (pages_result, tenant) result" where
  "resolveTenantFromPath pe r idn name c =
     (if name = [] then Inl (not_found pe idn ''tenant not specified'' c)
      else case tenants_GetByName (cs_db c) name of
          Inr t \<Rightarrow> Inr t
        | Inl e \<Rightarrow>
            (if e = ErrTenantNotExist then Inl (not_found pe idn (''tenant '' @ go_quote name @ '' not found'') c)
             else Inl (page_error pe r idn ''look up tenant'' c)))"

definition with_tenant :: "pages_env \<Rightarrow> console_request \<Rightarrow> identity option \<Rightarrow> string \<Rightarrow> (tenant \<Rightarrow> pages_result) \<Rightarrow> console
    \<Rightarrow> pages_result" where
  "with_tenant pe r idn name k c = (case resolveTenantFromPath pe r idn name c of Inl res \<Rightarrow> res | Inr t \<Rightarrow> k t)"

definition tenant_url :: "tenant \<Rightarrow> string" where
  "tenant_url t = ''/console/tenants/'' @ ten_Name t"

definition reads_tenant :: "identity option \<Rightarrow> int \<Rightarrow> bool" where
  "reads_tenant idn i = (case idn of None \<Rightarrow> False | Some x \<Rightarrow> CanRead x i)"

definition is_system_admin :: "identity option \<Rightarrow> bool" where
  "is_system_admin idn = (case idn of None \<Rightarrow> False | Some x \<Rightarrow> IsSystemAdmin x)"

definition visibilityString :: "int \<Rightarrow> string" where
  "visibilityString v = (if v = VisibilityPublic then ''public'' else ''private'')"

definition roleString :: "int \<Rightarrow> string" where
  "roleString r =
     (if r = RoleReader then ''reader'' else if r = RoleWriter then ''writer'' else if r = RoleTenantAdmin then ''admin''
      else ''role-'' @ show_int r)"

definition parseRole :: "string \<Rightarrow> int option" where
  "parseRole s =
     (if s = ''reader'' then Some RoleReader else if s = ''writer'' then Some RoleWriter
      else if s = ''admin'' then Some RoleTenantAdmin else None)"

text \<open>\<open>tenantNamePattern\<close>: letters, digits, hyphens and underscores, two to forty of them.\<close>

definition tenant_name_char :: "char \<Rightarrow> bool" where
  "tenant_name_char c =
     (let n = (of_char c :: nat) in
      (97 \<le> n \<and> n \<le> 122) \<or> (65 \<le> n \<and> n \<le> 90) \<or> (48 \<le> n \<and> n \<le> 57) \<or> c = CHR ''_'' \<or> c = CHR ''-'')"

definition tenantNamePattern :: "string \<Rightarrow> bool" where
  "tenantNamePattern s = (2 \<le> length s \<and> length s \<le> 40 \<and> list_all tenant_name_char s)"

definition tenantsList :: "pages_env \<Rightarrow> identity option \<Rightarrow> console \<Rightarrow> pages_result" where
  "tenantsList pe idn c =
     (let rws = map (\<lambda>t. \<lparr>tr_ID = ten_ID t, tr_Name = ten_Name t, tr_VisibilityStr = visibilityString (ten_Visibility t),
                tr_IsPublic = (ten_Visibility t = VisibilityPublic), tr_PackageCount = CountPackages (cs_db c) (ten_ID t)\<rparr>)
              (filter (\<lambda>t. reads_tenant idn (ten_ID t)) (tenants_List (cs_db c)))
      in show_page pe idn (TenantsPage rws) c)"

definition tenantDetail :: "pages_env \<Rightarrow> console_request \<Rightarrow> identity option \<Rightarrow> string \<Rightarrow> console \<Rightarrow> pages_result" where
  "tenantDetail pe r idn name c =
     with_tenant pe r idn name (\<lambda>t.
       if \<not> reads_tenant idn (ten_ID t)
       then forbidden pe idn (''You don't have access to tenant '' @ go_quote (ten_Name t) @ ''.'') c
       else (let d = cs_db c; pkgs = ListPackages d (ten_ID t) [] in
         show_page pe idn (TenantPage
           \<lparr>td_Tenant = t,
            td_Members = map (\<lambda>m. \<lparr>mr_UserID = mv_UserID m, mr_UserName = mv_UserName m,
                mr_UserEmail = (case mv_UserEmail m of None \<Rightarrow> [] | Some e \<Rightarrow> e), mr_IsAdmin = mv_IsAdmin m,
                mr_RoleName = roleString (mv_Role m), mr_RoleValue = mv_Role m\<rparr>) (ListMembers d (ten_ID t)),
            td_PackageCount = CountPackages d (ten_ID t),
            td_PackagesUploaded = length (filter (\<lambda>p. pkg_CreatedVia p = CreatedViaUploaded) pkgs),
            td_PackagesPullThrough = length (filter (\<lambda>p. pkg_CreatedVia p = CreatedViaPullThrough) pkgs),
            td_CanManage = is_system_admin idn\<rparr>) c)) c"

definition tenantNew :: "pages_env \<Rightarrow> identity option \<Rightarrow> console \<Rightarrow> pages_result" where
  "tenantNew pe idn c = show_page pe idn (TenantNewPage \<lparr>tf_Name = [], tf_Visibility = ''private'', tf_Errors = []\<rparr>) c"

definition tenant_form_errors :: "string \<Rightarrow> string \<Rightarrow> (string \<times> string) list" where
  "tenant_form_errors name vis =
     (if name = [] then [(''name'', ''Required.'')]
      else if \<not> tenantNamePattern name then [(''name'', ''Letters, digits, - and _ only. 2-40 characters.'')]
      else [])
     @ (if vis \<noteq> ''public'' \<and> vis \<noteq> ''private'' then [(''visibility'', ''Must be public or private.'')] else [])"

definition tenantCreate :: "pages_env \<Rightarrow> console_config \<Rightarrow> console_request \<Rightarrow> (string \<Rightarrow> string) \<Rightarrow> identity option
    \<Rightarrow> console \<Rightarrow> pages_result" where
  "tenantCreate pe cf r form idn c =
     (let name = trim_space (form ''name''); visibility = form ''visibility''; errs = tenant_form_errors name visibility;
          again = (\<lambda>es. show_page pe idn (TenantNewPage \<lparr>tf_Name = name, tf_Visibility = visibility, tf_Errors = es\<rparr>));
          vis = (if visibility = ''public'' then VisibilityPublic else VisibilityPrivate)
      in if errs \<noteq> [] then again errs c
         else case tenants_Create (ce_now (pe_console pe)) name vis (cs_db c) of
             (d', Inl e) \<Rightarrow>
               (if e = ErrTenantDuplicate
                then again [(''name'', ''A tenant with that name already exists.'')] (c\<lparr>cs_db := d'\<rparr>)
                else page_error pe r idn ''create tenant'' (c\<lparr>cs_db := d'\<rparr>))
           | (d', Inr t) \<Rightarrow>
               logged pe ((console_event pe cf r idn ''tenants.create''
                   [(''visibility'', JString (visibilityString vis))])\<lparr>ev_TenantID := ten_ID t\<rparr>)
                 (''Tenant '' @ go_quote (ten_Name t) @ '' created.'') (tenant_url t) (c\<lparr>cs_db := d'\<rparr>))"

definition tenantSetVisibility :: "pages_env \<Rightarrow> console_config \<Rightarrow> console_request \<Rightarrow> (string \<Rightarrow> string) \<Rightarrow> identity option
    \<Rightarrow> string \<Rightarrow> console \<Rightarrow> pages_result" where
  "tenantSetVisibility pe cf r form idn name c =
     with_tenant pe r idn name (\<lambda>t.
       let want = form ''visibility'' in
       if want \<noteq> ''public'' \<and> want \<noteq> ''private'' then flash_to pe FlashDanger ''Invalid visibility.'' (tenant_url t) c
       else (let vis = (if want = ''public'' then VisibilityPublic else VisibilityPrivate) in
         if vis = ten_Visibility t then go_to (tenant_url t) c
         else logged pe ((console_event pe cf r idn ''tenants.update''
                  [(''visibility_from'', JString (visibilityString (ten_Visibility t))),
                   (''visibility_to'', JString (visibilityString vis))])\<lparr>ev_TenantID := ten_ID t\<rparr>)
                ''Visibility updated.'' (tenant_url t) (c\<lparr>cs_db := SetVisibility (ten_ID t) vis (cs_db c)\<rparr>))) c"

definition tenantMemberAdd :: "pages_env \<Rightarrow> console_config \<Rightarrow> console_request \<Rightarrow> (string \<Rightarrow> string) \<Rightarrow> identity option
    \<Rightarrow> string \<Rightarrow> console \<Rightarrow> pages_result" where
  "tenantMemberAdd pe cf r form idn name c =
     with_tenant pe r idn name (\<lambda>t.
       let username = trim_space (form ''username'') in
       case parseRole (form ''role'') of
         None \<Rightarrow> flash_to pe FlashDanger ''Username and role are required.'' (tenant_url t) c
       | Some role \<Rightarrow>
           (if username = [] then flash_to pe FlashDanger ''Username and role are required.'' (tenant_url t) c
            else case users_GetByName (cs_db c) username of
                Inl e \<Rightarrow>
                  (if e = ErrUserNotExist
                   then flash_to pe FlashDanger (''No user named '' @ go_quote username @ ''.'') (tenant_url t) c
                   else page_error pe r idn ''look up user'' c)
              | Inr u \<Rightarrow>
                  (case AddMember (ten_ID t) (usr_ID u) role (cs_db c) of
                     (d', Inl e) \<Rightarrow> page_error pe r idn ''add tenant member'' (c\<lparr>cs_db := d'\<rparr>)
                   | (d', Inr _) \<Rightarrow>
                       logged pe ((console_event pe cf r idn ''tenants.member.add''
                           [(''target_user_id'', jnum (usr_ID u)), (''target_user'', JString (usr_Name u)),
                            (''role'', JString (roleString role))])\<lparr>ev_TenantID := ten_ID t\<rparr>)
                         (''Added '' @ usr_Name u @ '' as '' @ roleString role @ ''.'') (tenant_url t) (c\<lparr>cs_db := d'\<rparr>)))) c"

definition tenantMemberRemove :: "pages_env \<Rightarrow> console_config \<Rightarrow> console_request \<Rightarrow> identity option \<Rightarrow> string \<Rightarrow> string
    \<Rightarrow> console \<Rightarrow> pages_result" where
  "tenantMemberRemove pe cf r idn name uidStr c =
     with_tenant pe r idn name (\<lambda>t.
       case (case parse_int64 uidStr of None \<Rightarrow> None | Some uid \<Rightarrow> if uid \<le> 0 then None else Some uid) of
         None \<Rightarrow> not_found pe idn ''user not found'' c
       | Some uid \<Rightarrow>
           (case users_GetByID (cs_db c) uid of
              Inl e \<Rightarrow> (if e = ErrUserNotExist then not_found pe idn ''user not found'' c
                        else page_error pe r idn ''look up user'' c)
            | Inr target \<Rightarrow>
                logged pe ((console_event pe cf r idn ''tenants.member.remove''
                    [(''target_user_id'', jnum uid), (''target_user'', JString (usr_Name target))])\<lparr>ev_TenantID := ten_ID t\<rparr>)
                  (''Removed '' @ usr_Name target @ ''.'') (tenant_url t)
                  (c\<lparr>cs_db := RemoveMember (ten_ID t) uid (cs_db c)\<rparr>))) c"

section \<open>Packages\<close>

definition provenanceLabel :: "string \<Rightarrow> string" where
  "provenanceLabel v =
     (if v = CreatedViaUploaded then ''uploaded''
      else if v = CreatedViaPullThrough then ''mirrored from upstream'' else v)"

definition provenanceFlipTarget :: "string \<Rightarrow> string" where
  "provenanceFlipTarget v =
     (if v = CreatedViaUploaded then CreatedViaPullThrough
      else if v = CreatedViaPullThrough then CreatedViaUploaded else [])"

definition provenance_matches :: "string \<Rightarrow> package \<Rightarrow> bool" where
  "provenance_matches provFilter p = (provFilter = [] \<or> pkg_CreatedVia p = provFilter)"

definition packagesGlobal :: "pages_env \<Rightarrow> identity option \<Rightarrow> (string \<Rightarrow> string) \<Rightarrow> console \<Rightarrow> pages_result" where
  "packagesGlobal pe idn q c =
     (let d = cs_db c; provFilter = q ''provenance'';
          rws = concat (map (\<lambda>t. map (\<lambda>p.
                  \<lparr>gr_TenantName = ten_Name t, gr_Type = pkg_Type p, gr_Name = pkg_Name p,
                   gr_Versions = length (ListVersions d (pkg_ID p)), gr_Provenance = provenanceLabel (pkg_CreatedVia p)\<rparr>)
                (filter (provenance_matches provFilter) (ListPackages d (ten_ID t) [])))
              (filter (\<lambda>t. reads_tenant idn (ten_ID t)) (tenants_List d)))
      in show_page pe idn (PackagesGlobalPage rws provFilter) c)"

definition packagesByTenant :: "pages_env \<Rightarrow> console_request \<Rightarrow> identity option \<Rightarrow> string \<Rightarrow> (string \<Rightarrow> string) \<Rightarrow> console
    \<Rightarrow> pages_result" where
  "packagesByTenant pe r idn name q c =
     with_tenant pe r idn name (\<lambda>t.
       if \<not> reads_tenant idn (ten_ID t)
       then forbidden pe idn (''You don't have access to tenant '' @ go_quote (ten_Name t) @ ''.'') c
       else (let d = cs_db c; provFilter = q ''provenance'';
                 rws = map (\<lambda>p. \<lparr>pr_PackageID = pkg_ID p, pr_Type = pkg_Type p, pr_Name = pkg_Name p,
                       pr_Versions = length (ListVersions d (pkg_ID p)), pr_Provenance = provenanceLabel (pkg_CreatedVia p)\<rparr>)
                     (filter (provenance_matches provFilter) (ListPackages d (ten_ID t) []))
             in show_page pe idn (PackagesPage t rws (is_system_admin idn) provFilter) c)) c"

definition version_row_of :: "pkg_version \<Rightarrow> version_row" where
  "version_row_of v =
     \<lparr>vr_VersionID = ver_ID v, vr_Version = ver_Version v, vr_CreatedUnix = ver_CreatedUnix v,
      vr_Quarantined = IsQuarantined v,
      vr_Reason = (case ver_QuarantineReason v of None \<Rightarrow> [] | Some s \<Rightarrow> s),
      vr_License = (case ver_License v of None \<Rightarrow> [] | Some s \<Rightarrow> s)\<rparr>"

definition packageDetail :: "pages_env \<Rightarrow> console_request \<Rightarrow> identity option \<Rightarrow> string \<Rightarrow> string \<Rightarrow> string \<Rightarrow> console
    \<Rightarrow> pages_result" where
  "packageDetail pe r idn name pkgType pkgname c =
     with_tenant pe r idn name (\<lambda>t.
       if \<not> reads_tenant idn (ten_ID t)
       then forbidden pe idn (''You don't have access to tenant '' @ go_quote (ten_Name t) @ ''.'') c
       else (let d = cs_db c; pkgName = trim_prefix pkgname ''/'' in
         if pkgType = [] \<or> pkgName = [] then not_found pe idn ''package not specified'' c
         else case GetPackage d (ten_ID t) pkgType pkgName of
             Inl e \<Rightarrow>
               (if e = ErrPackageNotExist
                then not_found pe idn (''package '' @ pkgType @ ''/'' @ pkgName @ '' not found in tenant '' @ ten_Name t) c
                else page_error pe r idn ''look up package'' c)
           | Inr pkg \<Rightarrow>
               show_page pe idn (PackagePage
                 \<lparr>pd_Tenant = t, pd_Package = pkg, pd_Versions = map version_row_of (ListVersions d (pkg_ID pkg)),
                  pd_CanManage = is_system_admin idn, pd_ProvenanceLabel = provenanceLabel (pkg_CreatedVia pkg),
                  pd_ProvenanceFlipTarget = provenanceFlipTarget (pkg_CreatedVia pkg)\<rparr>) c)) c"

definition quarantineList :: "pages_env \<Rightarrow> identity option \<Rightarrow> console \<Rightarrow> pages_result" where
  "quarantineList pe idn c = show_page pe idn (QuarantinePage (ListQuarantined (cs_db c) 0)) c"

text \<open>A positive identifier of the path.\<close>

definition path_id :: "string \<Rightarrow> int option" where
  "path_id param = (case parse_int64 param of None \<Rightarrow> None | Some i \<Rightarrow> if i \<le> 0 then None else Some i)"

datatype quarantine_kind = PromoteKind | RejectKind

definition quarantineAction :: "pages_env \<Rightarrow> console_config \<Rightarrow> console_request \<Rightarrow> (string \<Rightarrow> string) \<Rightarrow> identity option
    \<Rightarrow> string \<Rightarrow> quarantine_kind \<Rightarrow> console \<Rightarrow> pages_result" where
  "quarantineAction pe cf r form idn param kind c =
     (case path_id param of
        None \<Rightarrow> not_found pe idn ''version not specified'' c
      | Some i \<Rightarrow>
          (let reason0 = trim_space (form ''reason'');
               finish = (\<lambda>act reason txt d'. logged pe ((console_event pe cf r idn act
                     [(''version_id'', jnum i)])\<lparr>ev_Reason := reason\<rparr>)
                   (''Version #'' @ show_int i @ txt) ''/console/quarantine'' (c\<lparr>cs_db := d'\<rparr>));
               failed = (\<lambda>verb e d'. if e = ErrVersionNotExist then not_found pe idn ''version not found'' (c\<lparr>cs_db := d'\<rparr>)
                                     else page_error pe r idn verb (c\<lparr>cs_db := d'\<rparr>)) in
           case kind of
             PromoteKind \<Rightarrow>
               (case PromoteVersion i (cs_db c) of
                  (d', Inl e) \<Rightarrow> failed ''promote version'' e d'
                | (d', Inr _) \<Rightarrow> finish ''quarantine.promote'' reason0 '' promoted.'' d')
           | RejectKind \<Rightarrow>
               (let reason = (if reason0 = [] then ''rejected by admin'' else reason0) in
                case QuarantineVersion i 0 (''REJECTED: '' @ reason) (cs_db c) of
                  (d', Inl e) \<Rightarrow> failed ''reject version'' e d'
                | (d', Inr _) \<Rightarrow> finish ''quarantine.reject'' reason '' marked rejected.'' d')))"

definition plural :: "nat \<Rightarrow> string" where
  "plural n = (if n = 1 then [] else ''s'')"

text \<open>The lookups of the package and its tenant that the three destructive routes share.\<close>

definition with_package :: "pages_env \<Rightarrow> console_request \<Rightarrow> identity option \<Rightarrow> int \<Rightarrow> (package \<Rightarrow> tenant \<Rightarrow> pages_result) \<Rightarrow> console
    \<Rightarrow> pages_result" where
  "with_package pe r idn i k c =
     (case GetPackageByID (cs_db c) i of
        Inl e \<Rightarrow>
          (if e = ErrPackageNotExist then not_found pe idn (''package #'' @ show_int i @ '' not found'') c
           else page_error pe r idn ''look up package'' c)
      | Inr pkg \<Rightarrow>
          (case tenants_GetByID (cs_db c) (pkg_TenantID pkg) of
             Inl e \<Rightarrow> page_error pe r idn ''look up tenant'' c
           | Inr t \<Rightarrow> k pkg t))"

definition package_extra :: "package \<Rightarrow> (string \<times> json) list" where
  "package_extra pkg =
     [(''package_id'', jnum (pkg_ID pkg)), (''package_type'', JString (pkg_Type pkg)), (''package_name'', JString (pkg_Name pkg))]"

definition packageDelete :: "pages_env \<Rightarrow> console_config \<Rightarrow> console_request \<Rightarrow> identity option \<Rightarrow> string \<Rightarrow> console
    \<Rightarrow> pages_result" where
  "packageDelete pe cf r idn param c =
     (case path_id param of
        None \<Rightarrow> not_found pe idn ''package not specified'' c
      | Some i \<Rightarrow>
          with_package pe r idn i (\<lambda>pkg t.
            let n = length (ListVersions (cs_db c) (pkg_ID pkg)) in
            logged pe ((console_event pe cf r idn ''tenants.package.delete''
                (package_extra pkg @ [(''version_count'', jnum (int n))]))\<lparr>ev_TenantID := ten_ID t\<rparr>)
              (''Deleted package '' @ pkg_Type pkg @ ''/'' @ pkg_Name pkg @ '' ('' @ show_int (int n) @ '' version'' @ plural n @ '').'')
              (tenant_url t @ ''/packages'') (c\<lparr>cs_db := DeletePackage (pkg_ID pkg) (cs_db c)\<rparr>)) c)"

definition package_url :: "tenant \<Rightarrow> package \<Rightarrow> string" where
  "package_url t pkg = tenant_url t @ ''/packages/'' @ pkg_Type pkg @ ''/'' @ pkg_Name pkg"

definition packageSetProvenance :: "pages_env \<Rightarrow> console_config \<Rightarrow> console_request \<Rightarrow> (string \<Rightarrow> string) \<Rightarrow> identity option
    \<Rightarrow> string \<Rightarrow> console \<Rightarrow> pages_result" where
  "packageSetProvenance pe cf r form idn param c =
     (case path_id param of
        None \<Rightarrow> not_found pe idn ''package not specified'' c
      | Some i \<Rightarrow>
          (let via = form ''created_via'' in
           if \<not> CreatedVia_Valid via then page_error pe r idn ''set package provenance'' c
           else with_package pe r idn i (\<lambda>pkg t.
             case SetPackageCreatedVia (pkg_ID pkg) via (cs_db c) of
               (d', Inl e) \<Rightarrow> page_error pe r idn ''update provenance'' (c\<lparr>cs_db := d'\<rparr>)
             | (d', Inr _) \<Rightarrow>
                 logged pe ((console_event pe cf r idn ''tenants.package.set_provenance''
                     (package_extra pkg @ [(''old'', JString (pkg_CreatedVia pkg)), (''new'', JString via),
                        (''source'', JString ''console'')]))\<lparr>ev_TenantID := ten_ID t\<rparr>)
                   (''Provenance for '' @ pkg_Type pkg @ ''/'' @ pkg_Name pkg @ '' set to '' @ go_quote (provenanceLabel via) @ ''.'')
                   (package_url t pkg) (c\<lparr>cs_db := d'\<rparr>)) c))"

definition versionDelete :: "pages_env \<Rightarrow> console_config \<Rightarrow> console_request \<Rightarrow> identity option \<Rightarrow> string \<Rightarrow> string \<Rightarrow> console
    \<Rightarrow> pages_result" where
  "versionDelete pe cf r idn pkgParam verParam c =
     (case path_id pkgParam of
        None \<Rightarrow> not_found pe idn ''package not specified'' c
      | Some i \<Rightarrow>
          (case path_id verParam of
             None \<Rightarrow> not_found pe idn ''version not specified'' c
           | Some vid \<Rightarrow>
               with_package pe r idn i (\<lambda>pkg t.
                 case List.find (\<lambda>v. ver_ID v = vid) (ListVersions (cs_db c) (pkg_ID pkg)) of
                   None \<Rightarrow> not_found pe idn (''version #'' @ show_int vid @ '' does not belong to package ''
                       @ pkg_Type pkg @ ''/'' @ pkg_Name pkg) c
                 | Some v \<Rightarrow>
                     logged pe ((console_event pe cf r idn ''tenants.package.version.delete''
                         (package_extra pkg @ [(''version_id'', jnum vid), (''version'', JString (ver_Version v))]))
                         \<lparr>ev_TenantID := ten_ID t\<rparr>)
                       (''Deleted version '' @ ver_Version v @ '' of '' @ pkg_Type pkg @ ''/'' @ pkg_Name pkg @ ''.'')
                       (package_url t pkg) (c\<lparr>cs_db := DeleteVersion vid (cs_db c)\<rparr>)) c))"

section \<open>Rules\<close>

definition rulesList :: "pages_env \<Rightarrow> identity option \<Rightarrow> console \<Rightarrow> pages_result" where
  "rulesList pe idn c = show_page pe idn (RulesPage (ListAll (cs_db c))) c"

definition listTenantHints :: "db \<Rightarrow> (int \<times> string) list" where
  "listTenantHints d = map (\<lambda>t. (ten_ID t, ten_Name t)) (tenants_List d)"

definition ruleNew :: "pages_env \<Rightarrow> identity option \<Rightarrow> console \<Rightarrow> pages_result" where
  "ruleNew pe idn c =
     show_page pe idn (RuleEditPage
       \<lparr>re_ID = 0, re_Name = [], re_Kind = ''cooldown'', re_Action = ''warn'', re_Priority = 100, re_Enabled = True,
        re_Format = [], re_TenantID = 0, re_Package = [], re_VersionPat = [], re_ConfigJSON = ''{\"min_age_days\": 14}'',
        re_ExpiresAt = 0, re_Errors = [], re_Tenants = listTenantHints (cs_db c)\<rparr>) c"

definition ruleEditFromPolicy :: "pages_env \<Rightarrow> rule \<Rightarrow> rule_edit_data" where
  "ruleEditFromPolicy pe r =
     \<lparr>re_ID = rule_ID r, re_Name = rule_Name r, re_Kind = rule_Kind r, re_Action = rule_Action r,
      re_Priority = rule_Priority r, re_Enabled = rule_Enabled r, re_Format = rule_Format r, re_TenantID = rule_TenantID r,
      re_Package = rule_Package r, re_VersionPat = rule_VersionPattern r,
      re_ConfigJSON = (if rule_Config r = EmptyConfig then ''{}'' else pe_config_text pe (rule_Config r)),
      re_ExpiresAt = rule_ExpiresUnix r, re_Errors = [], re_Tenants = []\<rparr>"

definition ruleEdit :: "pages_env \<Rightarrow> console_request \<Rightarrow> identity option \<Rightarrow> string \<Rightarrow> console \<Rightarrow> pages_result" where
  "ruleEdit pe r idn param c =
     (case path_id param of
        None \<Rightarrow> not_found pe idn ''rule not specified'' c
      | Some i \<Rightarrow>
          (case rules_GetByID (cs_db c) i of
             Inl e \<Rightarrow> (if e = ErrRuleNotExist then not_found pe idn ''rule not found'' c
                       else page_error pe r idn ''look up rule'' c)
           | Inr ru \<Rightarrow>
               show_page pe idn (RuleEditPage ((ruleEditFromPolicy pe ru)\<lparr>re_Tenants := listTenantHints (cs_db c)\<rparr>)) c))"

definition form_int :: "(string \<Rightarrow> string) \<Rightarrow> string \<Rightarrow> int option" where
  "form_int form k = (let v = trim_space (form k) in if v = [] then None else parse_int64 v)"

definition parseRuleForm :: "(string \<Rightarrow> string) \<Rightarrow> rule_edit_data" where
  "parseRuleForm form =
     (let cfg = trim_space (form ''config_json'');
          prio = (case form_int form ''priority'' of None \<Rightarrow> 0 | Some n \<Rightarrow> n)
      in \<lparr>re_ID = (case form_int form ''id'' of None \<Rightarrow> 0 | Some n \<Rightarrow> n),
          re_Name = trim_space (form ''name''), re_Kind = trim_space (form ''kind''), re_Action = trim_space (form ''action''),
          re_Priority = (if prio = 0 then 100 else prio), re_Enabled = equal_fold (form ''enabled'') ''on'',
          re_Format = trim_space (form ''format''),
          re_TenantID = (case form_int form ''tenant_id'' of None \<Rightarrow> 0 | Some n \<Rightarrow> if n > 0 then n else 0),
          re_Package = trim_space (form ''package''), re_VersionPat = trim_space (form ''version_pattern''),
          re_ConfigJSON = (if cfg = [] then ''{}'' else cfg),
          re_ExpiresAt = (case form_int form ''expires_unix'' of None \<Rightarrow> 0 | Some n \<Rightarrow> n),
          re_Errors = [], re_Tenants = []\<rparr>)"

definition rule_form_errors :: "rule_edit_data \<Rightarrow> (string \<times> string) list" where
  "rule_form_errors f =
     (if re_Name f = [] then [(''name'', ''Required.'')]
      else if length (re_Name f) > 80 then [(''name'', ''Max 80 characters.'')] else [])
     @ (if re_Kind f \<notin> {''cooldown'', ''license'', ''blocklist''} then [(''kind'', ''Unknown kind.'')] else [])
     @ (if re_Action f \<notin> {''warn'', ''quarantine'', ''deny''}
        then [(''action'', ''Must be warn, quarantine, or deny.'')] else [])
     @ (if re_Priority f < 1 \<or> re_Priority f > 10000 then [(''priority'', ''1-10000.'')] else [])
     @ (if json_Unmarshal (re_ConfigJSON f) = None
        then [(''config_json'', ''Must be valid JSON (or empty object {}).'')] else [])"

definition rule_of_form :: "identity option \<Rightarrow> rule_edit_data \<Rightarrow> rule" where
  "rule_of_form idn f =
     \<lparr>rule_ID = re_ID f, rule_Name = re_Name f, rule_Kind = re_Kind f, rule_TenantID = re_TenantID f,
      rule_Format = re_Format f, rule_Package = to_lower (trim_space (re_Package f)),
      rule_VersionPattern = trim_space (re_VersionPat f), rule_Action = re_Action f,
      rule_Config = (case json_Unmarshal (re_ConfigJSON f) of None \<Rightarrow> MalformedJSON (re_ConfigJSON f) | Some v \<Rightarrow> ConfigJSON v),
      rule_Priority = re_Priority f, rule_Enabled = re_Enabled f, rule_CreatedUnix = 0,
      rule_CreatedByUserID = (case identity_user idn of None \<Rightarrow> 0 | Some (i, u) \<Rightarrow> usr_ID u),
      rule_ExpiresUnix = re_ExpiresAt f\<rparr>"

text \<open>\<open>auditRule\<close>: the name of the rule joins the extras when there is one.\<close>

definition rule_event :: "pages_env \<Rightarrow> console_config \<Rightarrow> console_request \<Rightarrow> identity option \<Rightarrow> string \<Rightarrow> int \<Rightarrow> string
    \<Rightarrow> (string \<times> json) list \<Rightarrow> event" where
  "rule_event pe cf r idn act ruleID name extra =
     (console_event pe cf r idn act (extra @ (if name = [] then [] else [(''rule_name'', JString name)])))\<lparr>ev_RuleID := ruleID\<rparr>"

definition ruleUpsert :: "pages_env \<Rightarrow> console_config \<Rightarrow> console_request \<Rightarrow> (string \<Rightarrow> string) \<Rightarrow> identity option \<Rightarrow> console
    \<Rightarrow> pages_result" where
  "ruleUpsert pe cf r form idn c =
     (let f = parseRuleForm form; errs = rule_form_errors f in
      if errs \<noteq> []
      then show_page pe idn (RuleEditPage (f\<lparr>re_Errors := errs, re_Tenants := listTenantHints (cs_db c)\<rparr>)) c
      else case Upsert (ce_now (pe_console pe)) (rule_of_form idn f) (cs_db c) of
          (d', Inl e) \<Rightarrow> page_error pe r idn ''save rule'' (c\<lparr>cs_db := d'\<rparr>)
        | (d', Inr rid) \<Rightarrow>
            logged pe (rule_event pe cf r idn ''rules.update'' rid (re_Name f)
                [(''action'', JString (re_Action f)), (''kind'', JString (re_Kind f)), (''enabled'', JBool (re_Enabled f)),
                 (''priority'', jnum (re_Priority f))])
              (''Rule '' @ go_quote (re_Name f) @ '' saved.'') ''/console/rules'' (c\<lparr>cs_db := d'\<rparr>))"

definition ruleSetEnabled :: "pages_env \<Rightarrow> console_config \<Rightarrow> console_request \<Rightarrow> (string \<Rightarrow> string) \<Rightarrow> identity option \<Rightarrow> string
    \<Rightarrow> console \<Rightarrow> pages_result" where
  "ruleSetEnabled pe cf r form idn param c =
     (case path_id param of
        None \<Rightarrow> not_found pe idn ''rule not specified'' c
      | Some i \<Rightarrow>
          (let enabled = equal_fold (form ''enabled'') ''true'' in
           logged pe (rule_event pe cf r idn (if enabled then ''rules.enable'' else ''rules.disable'') i [] [])
             (''Rule #'' @ show_int i @ '' '' @ (if enabled then ''enabled'' else ''disabled'') @ ''.'') ''/console/rules''
             (c\<lparr>cs_db := SetEnabled i enabled (cs_db c)\<rparr>)))"

definition ruleDelete :: "pages_env \<Rightarrow> console_config \<Rightarrow> console_request \<Rightarrow> identity option \<Rightarrow> string \<Rightarrow> console
    \<Rightarrow> pages_result" where
  "ruleDelete pe cf r idn param c =
     (case path_id param of
        None \<Rightarrow> not_found pe idn ''rule not specified'' c
      | Some i \<Rightarrow>
          (let name = (case rules_GetByID (cs_db c) i of Inl e \<Rightarrow> [] | Inr ru \<Rightarrow> rule_Name ru) in
           logged pe (rule_event pe cf r idn ''rules.delete'' i name [])
             (''Rule '' @ go_quote name @ '' deleted.'') ''/console/rules''
             (c\<lparr>cs_db := rules_Delete i (cs_db c)\<rparr>)))"

section \<open>Upstreams\<close>

definition upstream_row_of :: "(string \<Rightarrow> persisted_config option) \<Rightarrow> string \<times> default_upstream \<Rightarrow> upstream_row_data" where
  "upstream_row_of persisted x =
     (case x of (format, def) \<Rightarrow>
        (let row = \<lparr>uw_Format = format,
               uw_Mode = (if \<not> du_PullThroughSupported def then ModeOff else ModeCacheAndServe),
               uw_UpstreamURL = [], uw_MetadataTTLSec = 0, uw_DefaultURL = du_URL def, uw_DefaultHosts = du_Hosts def,
               uw_HasOverride = False, uw_AdapterShipped = du_PullThroughSupported def, uw_UpdatedUnix = 0\<rparr>
         in case persisted format of
              None \<Rightarrow> row
            | Some p \<Rightarrow>
                row\<lparr>uw_HasOverride := True, uw_Mode := pc_Mode p,
                    uw_UpstreamURL := (case pc_UpstreamURL p of None \<Rightarrow> [] | Some s \<Rightarrow> s),
                    uw_MetadataTTLSec := pc_MetadataTTLSec p, uw_UpdatedUnix := pc_UpdatedUnix p\<rparr>))"

definition buildUpstreamRows :: "(string \<Rightarrow> persisted_config option) \<Rightarrow> upstream_row_data list" where
  "buildUpstreamRows persisted = sort_key uw_Format (map (upstream_row_of persisted) defaultUpstreams)"

definition tenantUpstreams :: "pages_env \<Rightarrow> console_request \<Rightarrow> identity option \<Rightarrow> string \<Rightarrow> console \<Rightarrow> pages_result" where
  "tenantUpstreams pe r idn name c =
     with_tenant pe r idn name (\<lambda>t.
       show_page pe idn (UpstreamsPage (ten_Name t) (buildUpstreamRows (ListByTenant (cs_db c) (ten_ID t))) [] []) c) c"

definition reRenderUpstreams :: "pages_env \<Rightarrow> identity option \<Rightarrow> tenant \<Rightarrow> string \<Rightarrow> string \<Rightarrow> console \<Rightarrow> pages_result" where
  "reRenderUpstreams pe idn t format msg c =
     show_page pe idn (UpstreamsPage (ten_Name t) (buildUpstreamRows (ListByTenant (cs_db c) (ten_ID t)))
       [(format, msg)] format) c"

text \<open>The message for a URL that is refused.\<close>

definition upstream_url_error :: "pages_env \<Rightarrow> string \<Rightarrow> string option" where
  "upstream_url_error pe urlStr =
     (if urlStr = [] then None
      else case pe_url pe urlStr of
          None \<Rightarrow> Some ''Upstream URL must be a fully-qualified https:// URL.''
        | Some (scheme, host) \<Rightarrow>
            (if scheme = [] \<or> host = [] then Some ''Upstream URL must be a fully-qualified https:// URL.''
             else if scheme \<noteq> ''https'' \<and> scheme \<noteq> ''http'' then Some ''Upstream URL must use http:// or https://.''
             else None))"

definition upstream_ttl :: "string \<Rightarrow> int option" where
  "upstream_ttl ttlStr =
     (if ttlStr = [] then Some 0
      else case parse_int64 ttlStr of None \<Rightarrow> None | Some n \<Rightarrow> if n < 0 \<or> n > 86400 then None else Some n)"

definition tenantUpstreamUpsert :: "pages_env \<Rightarrow> console_config \<Rightarrow> console_request \<Rightarrow> (string \<Rightarrow> string) \<Rightarrow> identity option \<Rightarrow> string
    \<Rightarrow> string \<Rightarrow> console \<Rightarrow> pages_result" where
  "tenantUpstreamUpsert pe cf r form idn name fmtParam c =
     with_tenant pe r idn name (\<lambda>t.
       let format = to_lower (trim_space fmtParam); mode = trim_space (form ''mode'');
           urlStr = trim_space (form ''upstream_url''); ttlStr = trim_space (form ''metadata_ttl_sec'');
           again = (\<lambda>msg. reRenderUpstreams pe idn t format msg c) in
       if format = [] then not_found pe idn ''format required'' c
       else if LookupDefault format = None then not_found pe idn (''format '' @ go_quote format @ '' has no upstream'') c
       else if \<not> Mode_Valid mode then again ''Mode must be off, cache_and_serve, or cache_only.''
       else case upstream_url_error pe urlStr of
           Some msg \<Rightarrow> again msg
         | None \<Rightarrow>
             (case upstream_ttl ttlStr of
                None \<Rightarrow> again ''Metadata TTL must be 0-86400 seconds.''
              | Some ttl \<Rightarrow>
                  (case upstream_Set (ce_now (pe_console pe)) (ten_ID t) format mode urlStr ttl (cs_db c) of
                     (d', Inl e) \<Rightarrow> page_error pe r idn ''save upstream config'' (c\<lparr>cs_db := d'\<rparr>)
                   | (d', Inr _) \<Rightarrow>
                       logged pe ((console_event pe cf r idn ''tenants.upstream.update''
                           [(''format'', JString format), (''mode'', JString mode), (''upstream_url'', JString urlStr),
                            (''metadata_ttl_sec'', jnum ttl)])\<lparr>ev_TenantID := ten_ID t\<rparr>)
                         (''Updated '' @ format @ '' upstream for tenant '' @ go_quote (ten_Name t) @ ''.'')
                         (tenant_url t @ ''/upstreams'') (c\<lparr>cs_db := d'\<rparr>)))) c"

definition tenantUpstreamReset :: "pages_env \<Rightarrow> console_config \<Rightarrow> console_request \<Rightarrow> identity option \<Rightarrow> string \<Rightarrow> string
    \<Rightarrow> console \<Rightarrow> pages_result" where
  "tenantUpstreamReset pe cf r idn name fmtParam c =
     with_tenant pe r idn name (\<lambda>t.
       let format = to_lower (trim_space fmtParam) in
       if LookupDefault format = None then not_found pe idn (''format '' @ go_quote format @ '' has no upstream'') c
       else logged pe ((console_event pe cf r idn ''tenants.upstream.reset'' [(''format'', JString format)])\<lparr>ev_TenantID := ten_ID t\<rparr>)
              (''Reset '' @ format @ '' upstream for tenant '' @ go_quote (ten_Name t) @ '' to compiled-in default.'')
              (tenant_url t @ ''/upstreams'') (c\<lparr>cs_db := upstream_Delete (ten_ID t) format (cs_db c)\<rparr>)) c"

section \<open>The audit log\<close>

definition parseAuditFilter :: "(string \<Rightarrow> string) \<Rightarrow> audit_filter" where
  "parseAuditFilter q =
     (let pos = (\<lambda>k dflt. case form_int q k of None \<Rightarrow> dflt | Some n \<Rightarrow> if n > 0 then n else dflt);
          limit = pos ''limit'' 100
      in \<lparr>af_TenantID = pos ''tenant_id'' 0, af_Action = trim_space (q ''action''), af_Decision = trim_space (q ''decision''),
          af_UserID = pos ''user_id'' 0, af_Limit = (if limit > 1000 then 1000 else limit)\<rparr>)"

definition filtered_events :: "pages_env \<Rightarrow> db \<Rightarrow> audit_filter \<Rightarrow> event list" where
  "filtered_events pe d f =
     ListEvents (pe_decode pe) d
       \<lparr>aq_TenantID = af_TenantID f, aq_Format = [], aq_Package = [], aq_Version = [], aq_UserID = af_UserID f,
        aq_Action = af_Action f, aq_Decision = af_Decision f, aq_Limit = af_Limit f, aq_Since = 0\<rparr>"

definition auditList :: "pages_env \<Rightarrow> identity option \<Rightarrow> (string \<Rightarrow> string) \<Rightarrow> console \<Rightarrow> pages_result" where
  "auditList pe idn q c =
     (let f = parseAuditFilter q; evs = filtered_events pe (cs_db c) f
      in show_page pe idn (AuditPage f evs (int (length evs) \<ge> af_Limit f)) c)"

definition csvField :: "string \<Rightarrow> string" where
  "csvField s =
     (if list_ex (\<lambda>c. c = CHR '','' \<or> c = CHR ''\"'' \<or> c = CHR 0x0A \<or> c = CHR 0x0D) s
      then CHR ''\"'' # concat (map (\<lambda>c. if c = CHR ''\"'' then [c, c] else [c]) s) @ [CHR ''\"''] else s)"

definition csvJoin :: "string list \<Rightarrow> string" where
  "csvJoin vs = join_with CHR '','' (map csvField vs)"

definition csv_fields :: "event \<Rightarrow> string list" where
  "csv_fields e =
     [show_int (ev_CreatedUnix e), ev_Action e, ev_ActorKind e, show_int (ev_UserID e), show_int (ev_TenantID e), ev_Format e,
      ev_Package e, ev_Version e, ev_Decision e, ev_Reason e, ev_RequestID e, ev_RemoteAddr e]"

definition csv_header :: string where
  "csv_header = ''created_unix,action,actor_kind,actor_user_id,tenant_id,format,package,version,decision,reason,request_id,remote_addr''
     @ [CHR 0x0A]"

definition auditExportCSV :: "pages_env \<Rightarrow> (string \<Rightarrow> string) \<Rightarrow> console \<Rightarrow> pages_result" where
  "auditExportCSV pe q c =
     (let evs = filtered_events pe (cs_db c) (parseAuditFilter q)
      in Some (c, Download [(''Content-Type'', ''text/csv; charset=utf-8''), (''Content-Disposition'', ''attachment; filename=\"audit.csv\"'')]
           (csv_header @ concat (map (\<lambda>e. csvJoin (csv_fields e) @ [CHR 0x0A]) evs))))"

section \<open>Dashboard and profile\<close>

definition widget_rank :: "string \<Rightarrow> nat option" where
  "widget_rank s =
     (if s = ''allow'' then Some 0 else if s = ''warn'' then Some 1 else if s = ''quarantine'' then Some 2
      else if s = ''deny'' then Some 3 else None)"

definition decision_less :: "string \<times> nat \<Rightarrow> string \<times> nat \<Rightarrow> bool" where
  "decision_less a b =
     (case (widget_rank (fst a), widget_rank (fst b)) of
        (Some pa, Some pb) \<Rightarrow> pa < pb
      | (Some pa, None) \<Rightarrow> True
      | (None, Some pb) \<Rightarrow> False
      | (None, None) \<Rightarrow> fst a < fst b)"

text \<open>The inner loop: the element sinks into the sorted prefix, which is kept in reverse.\<close>

fun sink :: "('a \<Rightarrow> 'a \<Rightarrow> bool) \<Rightarrow> 'a \<Rightarrow> 'a list \<Rightarrow> 'a list" where
  "sink lt x [] = [x]"
| "sink lt x (y # ys) = (if lt x y then y # sink lt x ys else x # y # ys)"

definition sortDecisions :: "(string \<times> nat) list \<Rightarrow> (string \<times> nat) list" where
  "sortDecisions xs = rev (foldl (\<lambda>acc x. sink decision_less x acc) [] xs)"

text \<open>The decisions of the last day, and the list of them with their counts in the order Go runs through the map.\<close>

definition rollup_keys :: "int \<Rightarrow> db \<Rightarrow> string list" where
  "rollup_keys now d =
     remdups (filter (\<lambda>k. DecisionRollup now d (now - 86400) 0 k \<noteq> None) (map (\<lambda>a. of_null_text (al_decision a)) (rows (db_audit d))))"

definition decision_count :: "int \<Rightarrow> db \<Rightarrow> string \<Rightarrow> string \<times> nat" where
  "decision_count now d k = (k, case DecisionRollup now d (now - 86400) 0 k of None \<Rightarrow> 0 | Some n \<Rightarrow> n)"

definition rollup_list :: "pages_env \<Rightarrow> db \<Rightarrow> (string \<times> nat) list" where
  "rollup_list pe d =
     (let now = ce_now (pe_console pe) in map (decision_count now d) (pe_order pe (rollup_keys now d)))"

definition dashboard :: "pages_env \<Rightarrow> identity option \<Rightarrow> console \<Rightarrow> pages_result" where
  "dashboard pe idn c =
     (let d = cs_db c in
      show_page pe idn (DashboardPage
        \<lparr>dd_TotalTenants = tenants_Count d, dd_TotalPackages = CountPackages d 0, dd_TotalVersions = CountVersions d 0,
         dd_YourTenants = (case idn of None \<Rightarrow> 0
                           | Some i \<Rightarrow> length (filter (\<lambda>t. id_Memberships i (ten_ID t) \<noteq> None) (rows (db_tenants d)))),
         dd_RecentIngests = ListEvents (pe_decode pe) d
           \<lparr>aq_TenantID = 0, aq_Format = [], aq_Package = [], aq_Version = [], aq_UserID = 0, aq_Action = ''ingest'',
            aq_Decision = [], aq_Limit = 10, aq_Since = 0\<rparr>,
         dd_Decisions24h = sortDecisions (rollup_list pe d)\<rparr>) c)"

definition credentialKindString :: "credential_kind \<Rightarrow> string" where
  "credentialKindString k =
     (case k of CredentialToken \<Rightarrow> ''token (PAT)'' | CredentialSession \<Rightarrow> ''session (password)''
      | CredentialProxy \<Rightarrow> ''proxy-header'')"

definition profilePage :: "pages_env \<Rightarrow> console_config \<Rightarrow> console_request \<Rightarrow> identity option \<Rightarrow> console \<Rightarrow> pages_result" where
  "profilePage pe cf r idn c =
     (case identity_user idn of
        None \<Rightarrow> page_error pe r idn ''load profile'' c
      | Some (i, u) \<Rightarrow>
          (let d = cs_db c;
               pwSet = (cf_AuthMode cf = ''password'' \<and>
                 (case users_GetByID d (usr_ID u) of
                    Inl e \<Rightarrow> False
                  | Inr x \<Rightarrow> (case usr_password_set_unix x of None \<Rightarrow> False | Some n \<Rightarrow> n > 0)));
               tids = pe_tenant_order pe (filter (\<lambda>i'. id_Memberships i i' \<noteq> None) (map ten_ID (rows (db_tenants d))))
           in show_page pe idn (ProfilePage
                \<lparr>pf_User = u, pf_AuthKind = credentialKindString (id_Kind i), pf_PasswordSet = pwSet,
                 pf_Memberships = concat (map (\<lambda>i'. case tenants_GetByID d i' of
                     Inl e \<Rightarrow> []
                   | Inr t \<Rightarrow> [(i', ten_Name t, roleString (case id_Memberships i i' of None \<Rightarrow> 0 | Some ro \<Rightarrow> ro))]) tids)\<rparr>) c))"

section \<open>Routes\<close>

text \<open>The routes of \<open>Register\<close> behind \<open>RequireAuth\<close>, and those behind \<open>RequireSystemAdmin\<close> as well.\<close>

datatype authed_call =
    DashboardCall | TenantsListCall | TenantDetailCall string | PackagesByTenantCall string "string \<Rightarrow> string"
  | PackageDetailCall string string string | PackagesGlobalCall "string \<Rightarrow> string"
  | ProfileCall | ProfilePasswordCall "string \<Rightarrow> string" | TokensCall
  | TokenMintCall "string \<Rightarrow> string" "string list" string int | TokenRevokeCall string

datatype admin_page_call =
    TenantNewCall | TenantCreateCall "string \<Rightarrow> string" | TenantVisibilityCall string "string \<Rightarrow> string"
  | MemberAddCall string "string \<Rightarrow> string" | MemberRemoveCall string string
  | PackageDeleteCall string | PackageProvenanceCall string "string \<Rightarrow> string" | VersionDeleteCall string string
  | UpstreamsCall string | UpstreamUpsertCall string string "string \<Rightarrow> string" | UpstreamResetCall string string
  | QuarantineCall | QuarantinePromoteCall string "string \<Rightarrow> string" | QuarantineRejectCall string "string \<Rightarrow> string"
  | AuditCall "string \<Rightarrow> string" | AuditCSVCall "string \<Rightarrow> string"
  | RulesCall | RuleNewCall | RuleEditCall string | RuleUpsertCall "string \<Rightarrow> string"
  | RuleEnabledCall string "string \<Rightarrow> string" | RuleDeleteCall string

datatype pages_call = Authed authed_call | AdminOnly admin_page_call

definition plain_opt :: "(console \<times> console_reply) option \<Rightarrow> pages_result" where
  "plain_opt x = map_option (map_prod id Plain) x"

fun authed_dispatch :: "pages_env \<Rightarrow> console_config \<Rightarrow> console_request \<Rightarrow> identity option \<Rightarrow> authed_call \<Rightarrow> console
    \<Rightarrow> pages_result" where
  "authed_dispatch pe cf r idn DashboardCall c = dashboard pe idn c"
| "authed_dispatch pe cf r idn TenantsListCall c = tenantsList pe idn c"
| "authed_dispatch pe cf r idn (TenantDetailCall name) c = tenantDetail pe r idn name c"
| "authed_dispatch pe cf r idn (PackagesByTenantCall name q) c = packagesByTenant pe r idn name q c"
| "authed_dispatch pe cf r idn (PackageDetailCall name ty pkg) c = packageDetail pe r idn name ty pkg c"
| "authed_dispatch pe cf r idn (PackagesGlobalCall q) c = packagesGlobal pe idn q c"
| "authed_dispatch pe cf r idn ProfileCall c = profilePage pe cf r idn c"
| "authed_dispatch pe cf r idn (ProfilePasswordCall form) c = plain_opt (profileChangePassword (pe_console pe) cf r form idn c)"
| "authed_dispatch pe cf r idn TokensCall c = plain (tokensList (pe_console pe) r idn c)"
| "authed_dispatch pe cf r idn (TokenMintCall form scopes rb now_ns) c =
     plain_opt (tokenMint (pe_console pe) cf r form scopes rb now_ns idn c)"
| "authed_dispatch pe cf r idn (TokenRevokeCall param) c = plain_opt (tokenRevoke (pe_console pe) cf r param idn c)"

fun admin_page_dispatch :: "pages_env \<Rightarrow> console_config \<Rightarrow> console_request \<Rightarrow> identity option \<Rightarrow> admin_page_call \<Rightarrow> console
    \<Rightarrow> pages_result" where
  "admin_page_dispatch pe cf r idn TenantNewCall c = tenantNew pe idn c"
| "admin_page_dispatch pe cf r idn (TenantCreateCall form) c = tenantCreate pe cf r form idn c"
| "admin_page_dispatch pe cf r idn (TenantVisibilityCall name form) c = tenantSetVisibility pe cf r form idn name c"
| "admin_page_dispatch pe cf r idn (MemberAddCall name form) c = tenantMemberAdd pe cf r form idn name c"
| "admin_page_dispatch pe cf r idn (MemberRemoveCall name uid) c = tenantMemberRemove pe cf r idn name uid c"
| "admin_page_dispatch pe cf r idn (PackageDeleteCall i) c = packageDelete pe cf r idn i c"
| "admin_page_dispatch pe cf r idn (PackageProvenanceCall i form) c = packageSetProvenance pe cf r form idn i c"
| "admin_page_dispatch pe cf r idn (VersionDeleteCall i v) c = versionDelete pe cf r idn i v c"
| "admin_page_dispatch pe cf r idn (UpstreamsCall name) c = tenantUpstreams pe r idn name c"
| "admin_page_dispatch pe cf r idn (UpstreamUpsertCall name fm form) c = tenantUpstreamUpsert pe cf r form idn name fm c"
| "admin_page_dispatch pe cf r idn (UpstreamResetCall name fm) c = tenantUpstreamReset pe cf r idn name fm c"
| "admin_page_dispatch pe cf r idn QuarantineCall c = quarantineList pe idn c"
| "admin_page_dispatch pe cf r idn (QuarantinePromoteCall i form) c = quarantineAction pe cf r form idn i PromoteKind c"
| "admin_page_dispatch pe cf r idn (QuarantineRejectCall i form) c = quarantineAction pe cf r form idn i RejectKind c"
| "admin_page_dispatch pe cf r idn (AuditCall q) c = auditList pe idn q c"
| "admin_page_dispatch pe cf r idn (AuditCSVCall q) c = auditExportCSV pe q c"
| "admin_page_dispatch pe cf r idn RulesCall c = rulesList pe idn c"
| "admin_page_dispatch pe cf r idn RuleNewCall c = ruleNew pe idn c"
| "admin_page_dispatch pe cf r idn (RuleEditCall i) c = ruleEdit pe r idn i c"
| "admin_page_dispatch pe cf r idn (RuleUpsertCall form) c = ruleUpsert pe cf r form idn c"
| "admin_page_dispatch pe cf r idn (RuleEnabledCall i form) c = ruleSetEnabled pe cf r form idn i c"
| "admin_page_dispatch pe cf r idn (RuleDeleteCall i) c = ruleDelete pe cf r idn i c"

definition pages_dispatch :: "pages_env \<Rightarrow> console_config \<Rightarrow> console_request \<Rightarrow> identity option \<Rightarrow> pages_call \<Rightarrow> console
    \<Rightarrow> pages_result" where
  "pages_dispatch pe cf r idn call c =
     (case call of
        Authed ac \<Rightarrow> authed_dispatch pe cf r idn ac c
      | AdminOnly ac \<Rightarrow>
          (case RequireSystemAdmin idn of
             Inl rp \<Rightarrow> Some (c, Gate rp)
           | Inr _ \<Rightarrow> admin_page_dispatch pe cf r idn ac c))"

text \<open>A request from a browser that holds the cookie \<open>ck\<close>: who it is, the gates, the handler.\<close>

definition console_serve :: "pages_env \<Rightarrow> console_config \<Rightarrow> authenticator \<Rightarrow> console_request \<Rightarrow> sess_data \<Rightarrow> pages_call
    \<Rightarrow> console \<Rightarrow> pages_result" where
  "console_serve pe cf au r ck call c =
     (case console_identity (pe_console pe) au r (c\<lparr>cs_session := open_session ck\<rparr>) of
        (c1, idn) \<Rightarrow>
          (case RequireAuth (ce_fits (pe_console pe)) (cf_AuthMode cf) r idn (cs_session c1) of
             (s, Inl rp) \<Rightarrow> Some (c1\<lparr>cs_session := s\<rparr>, Gate rp)
           | (s, Inr _) \<Rightarrow> pages_dispatch pe cf r idn call (c1\<lparr>cs_session := s\<rparr>)))"

end
