(* ===== verification/Console_Report.thy ===== *)
theory Console_Report
  imports Console_Pages
begin

text \<open>
  What the reports of the console show: a reader of CSV files gets every exported audit event back, and the dashboard's order of
  decisions does not depend on the order in which Go runs through the map of counts.
\<close>

section \<open>Reading CSV\<close>

text \<open>
  The grammar of RFC 4180, with one freedom: a record ends with a carriage return and a line feed, as the
  RFC has it, or with a line feed alone, as the export of the console writes it. A field is either quoted or
  bare, and a bare one has no comma, quote or line break in it; nothing but a separator follows a closing quote.

  The text of a field after its opening quote, up to the closing one; a doubled quote stands for one.
\<close>

fun csv_quoted :: "string \<Rightarrow> (string \<times> string) option" where
  "csv_quoted [] = None"
| "csv_quoted (c # cs) =
     (if c \<noteq> CHR ''\"'' then map_option (apfst ((#) c)) (csv_quoted cs)
      else case cs of
          [] \<Rightarrow> Some ([], [])
        | c' # cs' \<Rightarrow> if c' = CHR ''\"'' then map_option (apfst ((#) c)) (csv_quoted cs') else Some ([], cs))"

definition csv_bare_end :: "char \<Rightarrow> bool" where
  "csv_bare_end c = (c = CHR '','' \<or> c = CHR ''\"'' \<or> c = CHR 0x0A \<or> c = CHR 0x0D)"

definition csv_one :: "string \<Rightarrow> (string \<times> string) option" where
  "csv_one s =
     (case s of
        [] \<Rightarrow> Some ([], [])
      | c # cs \<Rightarrow> if c = CHR ''\"'' then csv_quoted cs
                  else Some (takeWhile (\<lambda>x. \<not> csv_bare_end x) s, dropWhile (\<lambda>x. \<not> csv_bare_end x) s))"

lemma csv_quoted_shorter: "csv_quoted s = Some (f, r) \<Longrightarrow> length r < length s"
proof (induction s arbitrary: f r rule: csv_quoted.induct)
  case 1
  then show ?case by simp
next
  case (2 c cs)
  show ?case
  proof (cases "c = CHR ''\"''")
    case False
    with "2.prems" obtain f' where "csv_quoted cs = Some (f', r)" by auto
    from "2.IH"(1) [OF False this] show ?thesis by simp
  next
    case True
    then show ?thesis using "2.prems" "2.IH"(2) by (auto split: list.splits if_splits) fastforce+
  qed
qed

lemma csv_one_shorter: "csv_one s = Some (f, r) \<Longrightarrow> length r \<le> length s"
  using csv_quoted_shorter [of "tl s" f r] length_dropWhile_le [of "\<lambda>x. \<not> csv_bare_end x" s]
  by (auto simp: csv_one_def split: list.splits if_splits)

text \<open>A record: fields up to the end of the line.\<close>

function csv_record :: "string \<Rightarrow> (string list \<times> string) option" where
  "csv_record s =
     (case csv_one s of
        None \<Rightarrow> None
      | Some (f, []) \<Rightarrow> Some ([f], [])
      | Some (f, c # r) \<Rightarrow>
          (if c = CHR '','' then map_option (apfst ((#) f)) (csv_record r)
           else if c = CHR 0x0A then Some ([f], r)
           else if c = CHR 0x0D then (case r of c' # r' \<Rightarrow> if c' = CHR 0x0A then Some ([f], r') else None | [] \<Rightarrow> None)
           else None))"
  by pat_completeness auto

termination csv_record
  by (relation "measure length") (auto dest!: csv_one_shorter)

declare csv_record.simps [simp del]

lemma csv_record_shorter: "csv_record s = Some (fs, r) \<Longrightarrow> s \<noteq> [] \<Longrightarrow> length r < length s"
proof (induction s arbitrary: fs r rule: csv_record.induct)
  case (1 s)
  obtain f t where one: "csv_one s = Some (f, t)" using "1.prems"(1) by (cases "csv_one s") (auto simp: csv_record.simps [of s])
  note le = csv_one_shorter [OF one]
  show ?case
  proof (cases t)
    case Nil
    then show ?thesis using "1.prems" one by (simp add: csv_record.simps [of s])
  next
    case (Cons c u)
    show ?thesis
    proof (cases "c = CHR '','' \<and> u \<noteq> []")
      case True
      then obtain fs' where "csv_record u = Some (fs', r)"
        using "1.prems"(1) one Cons by (auto simp: csv_record.simps [of s])
      from "1.IH" [OF one refl Cons _ this] True le Cons show ?thesis by simp
    next
      case False
      then show ?thesis
        using "1.prems"(1) one Cons le by (auto simp: csv_record.simps [of s] csv_record.simps [of "[]"] csv_one_def split: if_splits list.splits)
    qed
  qed
qed

function csv_file :: "string \<Rightarrow> string list list option" where
  "csv_file s =
     (if s = [] then Some []
      else case csv_record s of None \<Rightarrow> None | Some (fs, r) \<Rightarrow> map_option ((#) fs) (csv_file r))"
  by pat_completeness auto

termination csv_file
  by (relation "measure length") (auto dest: csv_record_shorter)

declare csv_file.simps [simp del]

section \<open>The export is read back\<close>

definition csv_ends :: "string \<Rightarrow> bool" where
  "csv_ends r = (case r of [] \<Rightarrow> True | c # _ \<Rightarrow> csv_bare_end c \<and> c \<noteq> CHR ''\"'')"

lemma csv_quoted_double:
  "csv_ends r \<Longrightarrow> csv_quoted (concat (map (\<lambda>c. if c = CHR ''\"'' then [c, c] else [c]) s) @ CHR ''\"'' # r) = Some (s, r)"
proof (induction s)
  case Nil
  then show ?case by (auto simp: csv_ends_def csv_bare_end_def split: list.splits)
next
  case (Cons c s)
  then show ?case by (cases "c = CHR ''\"''") simp_all
qed

lemma csvField_cases:
  "csvField s = (if list_ex csv_bare_end s
     then CHR ''\"'' # concat (map (\<lambda>c. if c = CHR ''\"'' then [c, c] else [c]) s) @ [CHR ''\"''] else s)"
  unfolding csvField_def csv_bare_end_def [abs_def] by simp

lemma csv_one_field:
  assumes "csv_ends r"
  shows "csv_one (csvField s @ r) = Some (s, r)"
proof (cases "list_ex csv_bare_end s")
  case True
  then show ?thesis using csv_quoted_double [OF assms, of s] by (simp add: csv_one_def csvField_cases)
next
  case False
  then have "\<forall>x \<in> set s. \<not> csv_bare_end x" by (auto simp: list_ex_iff)
  then have "takeWhile (\<lambda>x. \<not> csv_bare_end x) (s @ r) = s" "dropWhile (\<lambda>x. \<not> csv_bare_end x) (s @ r) = r"
    using assms by (auto simp: csv_ends_def takeWhile_append dropWhile_append split: list.splits)
  moreover have "s \<noteq> [] \<Longrightarrow> hd s \<noteq> CHR ''\"''" using False by (cases s) (auto simp: csv_bare_end_def)
  moreover have "r \<noteq> [] \<Longrightarrow> hd r \<noteq> CHR ''\"''" using assms by (cases r) (auto simp: csv_ends_def)
  moreover have "csvField s = s" using False by (simp add: csvField_cases)
  ultimately show ?thesis
    by (cases "s @ r") (auto simp: csv_one_def hd_append split: if_splits)
qed

text \<open>A record with either ending.\<close>

definition csv_eol :: "string \<Rightarrow> bool" where
  "csv_eol nl = (nl = [CHR 0x0A] \<or> nl = [CHR 0x0D, CHR 0x0A])"

lemma csv_record_join:
  "csv_eol nl \<Longrightarrow> vs \<noteq> [] \<Longrightarrow> csv_record (csvJoin vs @ nl @ r) = Some (vs, r)"
proof (induction vs)
  case Nil
  then show ?case by simp
next
  case (Cons v vs)
  show ?case
  proof (cases vs)
    case Nil
    have "csv_one (csvField v @ nl @ r) = Some (v, nl @ r)"
      using Cons.prems(1) by (intro csv_one_field) (auto simp: csv_eol_def csv_ends_def csv_bare_end_def)
    then show ?thesis using Cons.prems(1) by (subst csv_record.simps) (auto simp: Nil csvJoin_def csv_eol_def)
  next
    case (Cons w ws)
    have join: "csvJoin (v # vs) = csvField v @ CHR '','' # csvJoin vs" by (simp add: csvJoin_def Cons)
    have "csv_one (csvField v @ CHR '','' # csvJoin vs @ nl @ r) = Some (v, CHR '','' # csvJoin vs @ nl @ r)"
      by (rule csv_one_field) (simp add: csv_ends_def csv_bare_end_def)
    then have "csv_one (csvJoin (v # vs) @ nl @ r) = Some (v, CHR '','' # csvJoin vs @ nl @ r)" by (simp add: join)
    then show ?thesis using Cons.IH \<open>csv_eol nl\<close> Cons by (subst csv_record.simps) simp
  qed
qed

lemma csv_file_rows:
  "csv_eol nl \<Longrightarrow> \<forall>vs \<in> set rws. vs \<noteq> [] \<Longrightarrow> csv_file (concat (map (\<lambda>vs. csvJoin vs @ nl) rws)) = Some rws"
proof (induction rws)
  case Nil
  then show ?case by (simp add: csv_file.simps)
next
  case (Cons vs rws)
  let ?rest = "concat (map (\<lambda>vs. csvJoin vs @ nl) rws)"
  have "csv_record (csvJoin vs @ nl @ ?rest) = Some (vs, ?rest)" using Cons.prems by (intro csv_record_join) simp_all
  moreover have "nl \<noteq> []" using Cons.prems(1) by (auto simp: csv_eol_def)
  ultimately show ?case using Cons by (subst csv_file.simps) simp
qed

lemma csv_eol_lf [simp]: "csv_eol [CHR 0x0A]"
  by (simp add: csv_eol_def)

text \<open>A quote inside a bare field, text after a closing quote and a missing closing quote are no CSV.\<close>

lemma csv_record_rejects:
  "csv_record (CHR ''a'' # CHR ''\"'' # s) = None" "csv_record (CHR ''\"'' # CHR ''\"'' # CHR ''a'' # s) = None"
  "csv_record [CHR ''\"''] = None"
  by (simp_all add: csv_record.simps [of "_ # _"] csv_one_def csv_bare_end_def)

lemma csv_header_row:
  "csv_header = csvJoin [''created_unix'', ''action'', ''actor_kind'', ''actor_user_id'', ''tenant_id'', ''format'', ''package'',
     ''version'', ''decision'', ''reason'', ''request_id'', ''remote_addr''] @ [CHR 0x0A]"
  by (simp add: csv_header_def csvJoin_def csvField_def)

text \<open>The rows of the audit table that the export selects: newest first, up to the limit of the filter.\<close>

definition exported_rows :: "audit_filter \<Rightarrow> db \<Rightarrow> audit_row list" where
  "exported_rows f d =
     take (nat (af_Limit f)) (sort_key (\<lambda>a. - al_created_unix a)
       (select_all (\<lambda>a. (af_TenantID f = 0 \<or> al_tenant_id a = Some (af_TenantID f))
          \<and> (af_UserID f = 0 \<or> al_actor_user_id a = Some (af_UserID f))
          \<and> (af_Action f = [] \<or> al_action a = af_Action f)
          \<and> (af_Decision f = [] \<or> al_decision a = Some (af_Decision f))) (db_audit d)))"

lemma limit_of_form:
  "af_Limit (parseAuditFilter q) = (case form_int q ''limit'' of None \<Rightarrow> 100 | Some n \<Rightarrow> if n > 0 then min n 1000 else 100)"
  by (auto simp: parseAuditFilter_def Let_def min_def split: option.splits)

lemma filtered_rows:
  "filtered_events pe d (parseAuditFilter q) = map (scan_event (pe_decode pe)) (exported_rows (parseAuditFilter q) d)"
proof -
  let ?f = "parseAuditFilter q"
  have "0 < af_Limit ?f" "af_Limit ?f \<le> 1000" by (auto simp: limit_of_form split: option.splits)
  moreover have "audit_where \<lparr>aq_TenantID = af_TenantID ?f, aq_Format = [], aq_Package = [], aq_Version = [], aq_UserID = af_UserID ?f,
       aq_Action = af_Action ?f, aq_Decision = af_Decision ?f, aq_Limit = af_Limit ?f, aq_Since = 0\<rparr>
     = (\<lambda>a. (af_TenantID ?f = 0 \<or> al_tenant_id a = Some (af_TenantID ?f))
          \<and> (af_UserID ?f = 0 \<or> al_actor_user_id a = Some (af_UserID ?f))
          \<and> (af_Action ?f = [] \<or> al_action a = af_Action ?f)
          \<and> (af_Decision ?f = [] \<or> al_decision a = Some (af_Decision ?f)))"
    by (auto simp: fun_eq_iff audit_where_def text_matches_def)
  ultimately show ?thesis by (simp add: filtered_events_def ListEvents_def exported_rows_def Let_def)
qed

text \<open>
C38: The exported audit log can be read back: a reader of CSV files takes the file apart into the row of column names
  and one row for each selected row of the audit table - the newest that pass the filter, 100 of them or as many as the form asks
  for, at most 1000 -, and under each name stands that column of the table, whatever commas, quotes and line
  breaks it contains. NULL is exported as an empty text or 0. The column \<open>actor_kind\<close> is always empty: the
  query behind the export does not select it. Records end with a bare line feed, which the reader takes beside the
  carriage return and line feed of RFC 4180.
\<close>

theorem audit_csv_roundtrip:
  "\<exists>hs text. auditExportCSV pe q c = Some (c, Download hs text)
     \<and> csv_file text = Some
         ([''created_unix'', ''action'', ''actor_kind'', ''actor_user_id'', ''tenant_id'', ''format'', ''package'',
           ''version'', ''decision'', ''reason'', ''request_id'', ''remote_addr'']
          # map (\<lambda>a. [show_int (al_created_unix a), al_action a, [], show_int (of_null_int (al_actor_user_id a)),
              show_int (of_null_int (al_tenant_id a)), of_null_text (al_format a), of_null_text (al_package a),
              of_null_text (al_version a), of_null_text (al_decision a), of_null_text (al_reason a),
              of_null_text (al_request_id a), of_null_text (al_remote_addr a)])
            (exported_rows (parseAuditFilter q) (cs_db c)))
     \<and> af_Limit (parseAuditFilter q) = (case form_int q ''limit'' of None \<Rightarrow> 100 | Some n \<Rightarrow> if n > 0 then min n 1000 else 100)"
proof -
  let ?cols = "[''created_unix'', ''action'', ''actor_kind'', ''actor_user_id'', ''tenant_id'', ''format'', ''package'',
    ''version'', ''decision'', ''reason'', ''request_id'', ''remote_addr'']"
  let ?rws = "?cols # map csv_fields (filtered_events pe (cs_db c) (parseAuditFilter q))"
  have "csv_file (concat (map (\<lambda>vs. csvJoin vs @ [CHR 0x0A]) ?rws)) = Some ?rws"
    by (rule csv_file_rows) (auto simp: csv_fields_def)
  then show ?thesis
    by (simp add: auditExportCSV_def Let_def csv_header_row comp_def filtered_rows csv_fields_def scan_event_def limit_of_form)
qed

section \<open>The order of the decisions\<close>

text \<open>Known decisions by rank, then the others by name.\<close>

definition decision_key :: "string \<times> nat \<Rightarrow> nat \<times> string" where
  "decision_key a = (case widget_rank (fst a) of Some n \<Rightarrow> (n, []) | None \<Rightarrow> (4, fst a))"

lemma decision_less_key: "decision_less a b \<longleftrightarrow> decision_key a < decision_key b"
  by (auto simp: decision_less_def decision_key_def widget_rank_def split: option.splits)

lemma set_sink [simp]: "set (sink lt x ys) = insert x (set ys)"
  by (induction ys) auto

lemma mset_sink [simp]: "mset (sink lt x ys) = add_mset x (mset ys)"
  by (induction ys) auto

lemma sorted_sink:
  "sorted_wrt (\<lambda>a b. f b \<le> f a) ys \<Longrightarrow> sorted_wrt (\<lambda>a b. f b \<le> f a) (sink (\<lambda>a b. (f a :: 'k :: linorder) < f b) x ys)"
  by (induction ys) (auto simp: not_less)

lemma filter_sink:
  "sorted_wrt (\<lambda>a b. f b \<le> f a) ys \<Longrightarrow>
     filter (\<lambda>z. k = f z) (sink (\<lambda>a b. (f a :: 'k :: linorder) < f b) x ys) = filter (\<lambda>z. k = f z) (x # ys)"
  by (induction ys) auto

lemma sink_fold:
  fixes f :: "'a \<Rightarrow> 'k :: linorder"
  defines "lt \<equiv> \<lambda>a b. f a < f b"
  assumes "sorted_wrt (\<lambda>a b. f b \<le> f a) ys"
  shows "let zs = foldl (\<lambda>acc x. sink lt x acc) ys xs in
    mset zs = mset ys + mset xs \<and> sorted_wrt (\<lambda>a b. f b \<le> f a) zs
    \<and> (\<forall>k. filter (\<lambda>z. k = f z) (rev zs) = filter (\<lambda>z. k = f z) (rev ys @ xs))"
  using assms(2)
proof (induction xs arbitrary: ys)
  case Nil
  then show ?case by simp
next
  case (Cons x xs)
  note s = sorted_sink [OF Cons.prems, of x]
  have "filter (\<lambda>z. k = f z) (rev (sink lt x ys)) = filter (\<lambda>z. k = f z) (rev (x # ys))" for k
    using filter_sink [OF Cons.prems, of k x] by (simp only: lt_def rev_filter [symmetric])
  with Cons.IH [OF s [folded lt_def]] show ?case by (simp add: Let_def lt_def)
qed

lemma sortDecisions_sort_key: "sortDecisions xs = sort_key decision_key xs"
proof -
  let ?zs = "foldl (\<lambda>acc x. sink (\<lambda>a b. decision_key a < decision_key b) x acc) [] xs"
  have less: "decision_less = (\<lambda>a b. decision_key a < decision_key b)" by (simp add: fun_eq_iff decision_less_key)
  have z: "mset ?zs = mset xs" "sorted_wrt (\<lambda>a b. decision_key b \<le> decision_key a) ?zs"
    "\<And>k. filter (\<lambda>z. k = decision_key z) (rev ?zs) = filter (\<lambda>z. k = decision_key z) xs"
    using sink_fold [of decision_key "[]" xs] by (simp_all add: Let_def del: split_paired_All)
  have "sort_key decision_key xs = rev ?zs"
    by (rule properties_for_sort_key) (simp_all add: z sorted_map sorted_wrt_rev)
  then show ?thesis by (simp add: sortDecisions_def less)
qed

lemma decision_key_inj: "inj_on fst A \<Longrightarrow> inj_on decision_key A"
  by (auto simp: inj_on_def decision_key_def widget_rank_def split: if_splits)

text \<open>
  The dashboard lists the decisions of the last day in one order - allow, warn, quarantine, deny, then the others by
  name -, whatever the order in which Go runs through the map of counts: sorting by \<open>sortDecisions\<close> is sorting by that key.
\<close>

theorem dashboard_order:
  assumes "\<forall>ks. mset (pe_order pe ks) = mset ks"
  shows "\<exists>c' base dd. dashboard pe idn c = Some (c', Shown base (DashboardPage dd))
    \<and> dd_Decisions24h dd = sort_key decision_key
        (map (decision_count (ce_now (pe_console pe)) (cs_db c)) (rollup_keys (ce_now (pe_console pe)) (cs_db c)))"
proof -
  let ?now = "ce_now (pe_console pe)" and ?d = "cs_db c"
  let ?ks = "rollup_keys ?now ?d"
  have "map fst (map (decision_count ?now ?d) ?ks) = ?ks" by (simp add: comp_def decision_count_def)
  then have "distinct (map fst (map (decision_count ?now ?d) ?ks))" by (simp only: rollup_keys_def distinct_remdups)
  then have i: "inj_on decision_key (set (map (decision_count ?now ?d) ?ks))"
    unfolding distinct_map by (intro decision_key_inj) blast
  have m: "mset (map (decision_count ?now ?d) ?ks) = mset (rollup_list pe ?d)"
    using assms by (simp add: rollup_list_def Let_def)
  have "sort_key decision_key (map (decision_count ?now ?d) ?ks) = sort_key decision_key (rollup_list pe ?d)"
    using m i by (intro sort_key_inj_key_eq) simp_all
  then show ?thesis by (simp add: dashboard_def show_page_def Let_def sortDecisions_sort_key split: prod.splits)
qed

definition report_env :: pages_env where
  "report_env = \<lparr>pe_console = \<lparr>ce_now = 90000, ce_mono = 0, ce_fits = (\<lambda>_. True), ce_verify = (\<lambda>_ _. Inl ErrPasswordMismatch),
       ce_hash = (\<lambda>_. Inl ErrPasswordMismatch), ce_random = None\<rparr>,
     pe_url = (\<lambda>u. Some (''https'', u)), pe_decode = (\<lambda>_. None), pe_config_text = (\<lambda>_. ''{}''), pe_order = rev, pe_tenant_order = rev\<rparr>"

definition decided :: "int \<Rightarrow> string \<Rightarrow> audit_row" where
  "decided i dec = mk_audit_row (\<lambda>_. None)
     \<lparr>ev_CreatedUnix = 80000, ev_UserID = 0, ev_TokenID = 0, ev_RequestID = [], ev_RemoteAddr = [], ev_UserAgent = [],
      ev_ActorKind = [], ev_TenantID = 0, ev_Action = ''ingest'', ev_Format = [], ev_Package = [], ev_Version = [],
      ev_Filename = [], ev_Decision = dec, ev_RuleID = 0, ev_Reason = [], ev_Extra = []\<rparr> i"

definition report_console :: console where
  "report_console = \<lparr>cs_db = (fresh_db 0)\<lparr>db_audit := \<lparr>rows = [decided 1 ''deny'', decided 2 ''allow'', decided 3 ''deny''], seq = 3\<rparr>\<rparr>,
     cs_limit = NewLoginRateLimiter 10 0, cs_audit = None, cs_session = open_session empty_data\<rparr>"

lemma decided_fields: "al_decision (decided i dec) = null_text dec" "al_created_unix (decided i dec) = 80000"
  by (simp_all add: decided_def mk_audit_row_def)

theorem dashboard_order_witness:
  "\<exists>c' base dd. dashboard report_env None report_console = Some (c', Shown base (DashboardPage dd))
    \<and> dd_Decisions24h dd = [(''allow'', 1), (''deny'', 2)]"
proof -
  let ?d = "cs_db report_console"
  have rws: "rows (db_audit ?d) = [decided 1 ''deny'', decided 2 ''allow'', decided 3 ''deny'']" "ce_now (pe_console report_env) = 90000"
    by (simp_all add: report_console_def report_env_def)
  have n: "DecisionRollup 90000 ?d 3600 0 ''deny'' = Some 2" "DecisionRollup 90000 ?d 3600 0 ''allow'' = Some 1"
    by (simp_all add: DecisionRollup_def select_all_def rws decided_fields null_text_def Let_def)
  then have k: "rollup_keys 90000 ?d = [''allow'', ''deny'']"
    by (simp add: rollup_keys_def rws decided_fields null_text_def of_null_text_def)
  have s: "decision_key (''allow'', Suc 0) \<le> decision_key (''deny'', 2)" by (simp add: decision_key_def widget_rank_def)
  have "\<forall>ks. mset (pe_order report_env ks) = mset ks" by (simp add: report_env_def)
  from dashboard_order [OF this, of None report_console] show ?thesis
    by (simp add: rws k decision_count_def n s)
qed

end
