(* ===== verification/Console_Pages_Laws.thy ===== *)
theory Console_Pages_Laws
  imports Console_Report Console_Token_Laws Rule_Laws
begin

text \<open>
  What the pages behind the sign-in promise: what a user who is not a system administrator can see and change, that
  adding and removing a member of a tenant are inverse, that a saved upstream is the one requests are resolved
  with, and what renaming a rule does.
\<close>

section \<open>Replies\<close>

lemma render_db [simp]: "cs_db (fst (render ce idn st b c)) = cs_db c"
  by (auto simp: render_def baseData_def split: prod.splits)

lemma show_page_Some:
  assumes "show_page pe idn pc c = Some (c', rep)"
  shows "cs_db c' = cs_db c" "\<exists>base. rep = Shown base pc"
  using assms by (auto simp: show_page_def baseData_def split: prod.splits)

text \<open>A reply that is no page over the store, on a store nobody changed.\<close>

definition quiet :: "console \<Rightarrow> console \<Rightarrow> pages_reply \<Rightarrow> bool" where
  "quiet c c' rep \<longleftrightarrow> cs_db c' = cs_db c \<and> (\<exists>rp. rep = Plain rp)"

lemma error_page_Some:
  "page_error pe r idn verb c = Some (c', rep) \<Longrightarrow> quiet c c' rep"
  "not_found pe idn msg c = Some (c', rep) \<Longrightarrow> quiet c c' rep"
  "forbidden pe idn msg c = Some (c', rep) \<Longrightarrow> quiet c c' rep"
  by (auto simp: quiet_def page_error_def not_found_def forbidden_def plain_def RenderError_def RenderNotFound_def
      RenderForbidden_def)

lemma with_tenant_Some:
  assumes "with_tenant pe r idn name k c = Some (c', rep)"
  obtains (quiet) "quiet c c' rep"
  | (found) t where "tenants_GetByName (cs_db c) name = Inr t" "t \<in> set (rows (db_tenants (cs_db c)))" "k t = Some (c', rep)"
proof (cases "resolveTenantFromPath pe r idn name c")
  case (Inl res)
  then have "quiet c c' rep"
    using assms by (auto simp: with_tenant_def resolveTenantFromPath_def split: if_splits sum.splits intro: error_page_Some)
  then show thesis by (rule quiet)
next
  case (Inr t)
  then have t: "tenants_GetByName (cs_db c) name = Inr t"
    by (auto simp: resolveTenantFromPath_def split: if_splits sum.splits)
  then have "t \<in> set (rows (db_tenants (cs_db c)))"
    by (auto simp: tenants_GetByName_def dest: select_oneD split: option.splits)
  with t Inr assms show thesis by (intro found) (auto simp: with_tenant_def)
qed

section \<open>Who sees and changes what\<close>

text \<open>
  What a caller may find on a page: tenants the caller reads and packages of these tenants, on the profile the
  caller's own account. The dashboard is the exception: it counts the tenants, packages, versions and decisions of the whole
  registry and lists the last ingests, whoever asks. The other pages are not for such a caller at all.
\<close>

fun page_readable :: "identity option \<Rightarrow> db \<Rightarrow> page_content \<Rightarrow> bool" where
  "page_readable idn d (TenantsPage rws) \<longleftrightarrow>
     (\<forall>x \<in> set rws. \<exists>t \<in> set (rows (db_tenants d)). reads_tenant idn (ten_ID t) \<and> tr_ID x = ten_ID t \<and> tr_Name x = ten_Name t)"
| "page_readable idn d (TenantPage td) \<longleftrightarrow> td_Tenant td \<in> set (rows (db_tenants d)) \<and> reads_tenant idn (ten_ID (td_Tenant td))"
| "page_readable idn d (PackagesGlobalPage rws flt) \<longleftrightarrow>
     (\<forall>x \<in> set rws. \<exists>t \<in> set (rows (db_tenants d)). \<exists>p \<in> set (rows (db_packages d)). reads_tenant idn (ten_ID t) \<and> pkg_TenantID p = ten_ID t
        \<and> gr_TenantName x = ten_Name t \<and> gr_Type x = pkg_Type p \<and> gr_Name x = pkg_Name p)"
| "page_readable idn d (PackagesPage t rws manage flt) \<longleftrightarrow>
     t \<in> set (rows (db_tenants d)) \<and> reads_tenant idn (ten_ID t)
   \<and> (\<forall>x \<in> set rws. \<exists>p \<in> set (rows (db_packages d)). pkg_TenantID p = ten_ID t \<and> pr_PackageID x = pkg_ID p \<and> pr_Name x = pkg_Name p)"
| "page_readable idn d (PackagePage pd) \<longleftrightarrow>
     pd_Tenant pd \<in> set (rows (db_tenants d)) \<and> reads_tenant idn (ten_ID (pd_Tenant pd))
   \<and> pd_Package pd \<in> set (rows (db_packages d)) \<and> pkg_TenantID (pd_Package pd) = ten_ID (pd_Tenant pd)"
| "page_readable idn d (ProfilePage pf) \<longleftrightarrow> map_option snd (identity_user idn) = Some (pf_User pf)"
| "page_readable idn d (DashboardPage dd) \<longleftrightarrow> True"
| "page_readable idn d _ \<longleftrightarrow> False"

definition shows_readable :: "identity option \<Rightarrow> db \<Rightarrow> pages_reply \<Rightarrow> bool" where
  "shows_readable idn d rep \<longleftrightarrow>
     (case rep of Shown base pc \<Rightarrow> page_readable idn d pc | Download hs b \<Rightarrow> False | _ \<Rightarrow> True)"

text \<open>All that differs are rows of the user \<open>uid\<close>: the account and its tokens.\<close>

definition own_change :: "int \<Rightarrow> db \<Rightarrow> db \<Rightarrow> bool" where
  "own_change uid d d' \<longleftrightarrow>
     d' = d\<lparr>db_users := db_users d', db_tokens := db_tokens d'\<rparr>
   \<and> filter (\<lambda>x. usr_ID x \<noteq> uid) (rows (db_users d')) = filter (\<lambda>x. usr_ID x \<noteq> uid) (rows (db_users d))
   \<and> filter (\<lambda>t. tkr_UserID t \<noteq> uid) (rows (db_tokens d')) = filter (\<lambda>t. tkr_UserID t \<noteq> uid) (rows (db_tokens d))"

lemma own_change_refl [simp]: "own_change uid d d"
  by (simp add: own_change_def)

lemma filter_update_own:
  "(\<And>x. usr_ID (f x) = usr_ID x) \<Longrightarrow>
   filter (\<lambda>x. usr_ID x \<noteq> uid) (map (\<lambda>x. if usr_ID x = uid then f x else x) xs) = filter (\<lambda>x. usr_ID x \<noteq> uid) xs"
  by (induction xs) auto

lemma SetPasswordHash_own: "own_change uid d (fst (SetPasswordHash now uid h d))"
  by (auto simp: SetPasswordHash_def update_user_def own_change_def filter_update_own)

lemma Issue_own:
  assumes "to_UserID opts = uid"
  shows "own_change uid d (fst (Issue rb now opts d))"
proof -
  have "tkr_UserID (mk_token_row (opts, pt, now) i) = uid" for pt i
    using assms by (simp add: mk_token_row_def)
  then show ?thesis
    by (auto simp: Issue_def persist_def own_change_def insert_unique_def Let_def split: sum.splits option.splits if_splits)
qed

lemma Revoke_own:
  assumes "accounts_ok d" and "tokens_GetByID d tid = Inr tok" and "tok_UserID tok = uid"
  shows "own_change uid d (fst (Revoke tid d))"
proof -
  obtain row where row: "row \<in> set (rows (db_tokens d))" "tkr_ID row = tid" "tkr_UserID row = uid"
    using assms(2,3) by (auto simp: tokens_GetByID_def scan_token_def dest: select_oneD split: option.splits)
  have "tkr_UserID t = uid" if "t \<in> set (rows (db_tokens d))" "tkr_ID t = tid" for t
    using table_ok_rid_unique [OF accounts_okD(3) [OF assms(1)] that(1) row(1)] that(2) row(2,3) by simp
  then have "filter (\<lambda>t. tkr_UserID t \<noteq> uid) (filter (\<lambda>t. tkr_ID t \<noteq> tid) (rows (db_tokens d)))
      = filter (\<lambda>t. tkr_UserID t \<noteq> uid) (rows (db_tokens d))"
    unfolding filter_filter by (intro filter_cong) auto
  then show ?thesis by (simp add: own_change_def Revoke_def)
qed

lemma profileChangePassword_own:
  assumes "profileChangePassword ce cf r form idn c = Some (c', rep)" and "identity_user idn = Some (i, u)"
  shows "own_change (usr_ID u) (cs_db c) (cs_db c')"
proof -
  have "cs_db c' = cs_db c \<or> (\<exists>h x. SetPasswordHash (ce_now ce) (usr_ID u) h (cs_db c) = (cs_db c', x))"
    using assms
    by (auto simp: profileChangePassword_def Let_def flash_redirect_def RenderForbidden_def RenderError_def
        split: if_splits sum.splits prod.splits option.splits dest!: page_db auditLogin_keeps)
  then show ?thesis using SetPasswordHash_own [of "usr_ID u" "cs_db c"] by (metis fst_conv own_change_refl)
qed

lemma tokenMint_own:
  assumes "tokenMint ce cf r form scopes rb now_ns idn c = Some (c', rep)" and "identity_user idn = Some (i, u)"
  shows "own_change (usr_ID u) (cs_db c) (cs_db c')"
proof (rule tokenMint_cases [OF assms])
  fix tenant d' plain tok
  assume "Issue rb (ce_now ce) (mint_options form scopes now_ns u tenant) (cs_db c) = (d', Inr (plain, tok))" "cs_db c' = d'"
  with Issue_own [of "mint_options form scopes now_ns u tenant" "usr_ID u" "cs_db c" rb "ce_now ce"]
  show ?thesis by (simp add: mint_options_def)
qed simp

lemma tokenRevoke_own:
  assumes "accounts_ok (cs_db c)" and "tokenRevoke ce cf r param idn c = Some (c', rep)"
    and "identity_user idn = Some (i, u)" and "\<not> IsSystemAdmin i"
  shows "own_change (usr_ID u) (cs_db c) (cs_db c')"
proof -
  consider (same) "cs_db c' = cs_db c"
    | (revoked) tid tok where "tokens_GetByID (cs_db c) tid = Inr tok" "tok_UserID tok = usr_ID u"
        "cs_db c' = fst (Revoke tid (cs_db c))"
    using assms(2-4)
    by (auto simp: tokenRevoke_def page_defs RenderNotFound_def split: option.splits sum.splits if_splits prod.splits
        dest: page_db auditLogin_keeps)
  then show ?thesis
  proof cases
    case revoked
    then show ?thesis using Revoke_own [OF assms(1) revoked(1,2)] by simp
  qed simp
qed

text \<open>What a route behind the sign-in does for a user: nothing but a change of their own rows, and a page of tenants they read.\<close>

definition harmless :: "identity option \<Rightarrow> int \<Rightarrow> db \<Rightarrow> console \<Rightarrow> pages_reply \<Rightarrow> bool" where
  "harmless idn uid d c' rep \<longleftrightarrow> own_change uid d (cs_db c') \<and> shows_readable idn d rep"

lemma quiet_harmless: "quiet c c' rep \<Longrightarrow> harmless idn uid (cs_db c) c' rep"
  by (auto simp: quiet_def harmless_def shows_readable_def)

lemma shown_harmless:
  assumes "show_page pe idn pc c = Some (c', rep)"
    and "page_readable idn (cs_db c) pc"
  shows "harmless idn uid (cs_db c) c' rep"
  using show_page_Some [OF assms(1)] assms(2) by (auto simp: harmless_def shows_readable_def)

lemma plain_opt_harmless:
  assumes "plain_opt x = Some (c', rep)" and "\<And>rp. x = Some (c', rp) \<Longrightarrow> own_change uid d (cs_db c')"
  shows "harmless idn uid d c' rep"
  using assms by (auto simp: plain_opt_def harmless_def shows_readable_def)

text \<open>A page of one tenant, after the check that the caller reads it.\<close>

lemma tenant_page_harmless:
  assumes "with_tenant pe r idn name (\<lambda>t. if \<not> reads_tenant idn (ten_ID t) then forbidden pe idn (msg t) c else k t) c
      = Some (c', rep)"
    and "\<And>t. t \<in> set (rows (db_tenants (cs_db c))) \<Longrightarrow> reads_tenant idn (ten_ID t) \<Longrightarrow> k t = Some (c', rep) \<Longrightarrow>
      harmless idn uid (cs_db c) c' rep"
  shows "harmless idn uid (cs_db c) c' rep"
  using assms(1)
proof (cases rule: with_tenant_Some)
  case quiet
  then show ?thesis by (rule quiet_harmless)
next
  case (found t)
  then show ?thesis
    using assms(2) by (auto split: if_splits intro: quiet_harmless error_page_Some)
qed

lemma listed_packages_read:
  assumes "p \<in> set (ListPackages d i [])" and "0 < i"
  shows "p \<in> set (rows (db_packages d))" "pkg_TenantID p = i"
  using assms by (auto simp: ListPackages_def select_all_def)

lemma tenant_positive: "accounts_ok d \<Longrightarrow> t \<in> set (rows (db_tenants d)) \<Longrightarrow> 0 < ten_ID t"
  by (auto simp: accounts_ok_def table_ok_def)

lemma authed_harmless:
  assumes "accounts_ok (cs_db c)" and "identity_user idn = Some (i, u)" and "\<not> is_system_admin idn"
    and "authed_dispatch pe cf r idn call c = Some (c', rep)"
  shows "harmless idn (usr_ID u) (cs_db c) c' rep"
proof -
  have adm: "\<not> IsSystemAdmin i"
    using assms(2,3) by (auto simp: identity_user_def is_system_admin_def split: option.splits)
  show ?thesis
  proof (cases call)
    case DashboardCall
    then show ?thesis using assms(4) by (auto simp: dashboard_def Let_def intro: shown_harmless)
  next
    case TenantsListCall
    then show ?thesis
      using assms(4) by (auto simp: tenantsList_def Let_def tenants_List_def intro!: shown_harmless)
  next
    case (TenantDetailCall name)
    with assms(4) have "tenantDetail pe r idn name c = Some (c', rep)" by simp
    then show ?thesis
      unfolding tenantDetail_def Let_def by (rule tenant_page_harmless) (auto elim!: shown_harmless)
  next
    case (PackagesByTenantCall name q)
    with assms(4) have "packagesByTenant pe r idn name q c = Some (c', rep)" by simp
    then show ?thesis
      unfolding packagesByTenant_def Let_def
    proof (rule tenant_page_harmless)
      fix t assume t: "t \<in> set (rows (db_tenants (cs_db c)))" "reads_tenant idn (ten_ID t)"
      note pk = listed_packages_read [OF _ tenant_positive [OF assms(1) t(1)]]
      assume "show_page pe idn (PackagesPage t (map (\<lambda>p. \<lparr>pr_PackageID = pkg_ID p, pr_Type = pkg_Type p, pr_Name = pkg_Name p,
           pr_Versions = length (ListVersions (cs_db c) (pkg_ID p)), pr_Provenance = provenanceLabel (pkg_CreatedVia p)\<rparr>)
         (filter (provenance_matches (q ''provenance'')) (ListPackages (cs_db c) (ten_ID t) []))) (is_system_admin idn) (q ''provenance'')) c = Some (c', rep)"
      from shown_harmless [OF this] show "harmless idn (usr_ID u) (cs_db c) c' rep"
        using t pk by fastforce
    qed
  next
    case (PackageDetailCall name ty pkg)
    with assms(4) have "packageDetail pe r idn name ty pkg c = Some (c', rep)" by simp
    then show ?thesis
      unfolding packageDetail_def Let_def
      by (rule tenant_page_harmless) (auto split: if_splits sum.splits elim!: shown_harmless intro: quiet_harmless error_page_Some
        simp: GetPackage_def GetPackageByLookup_def split: option.splits dest!: select_oneD)
  next
    case (PackagesGlobalCall q)
    then show ?thesis
      using assms(4)
      by (auto simp: packagesGlobal_def Let_def tenants_List_def intro!: shown_harmless)
        (metis listed_packages_read tenant_positive [OF assms(1)])
  next
    case ProfileCall
    then show ?thesis
      using assms(2,4) by (auto simp: profilePage_def Let_def intro!: shown_harmless)
  next
    case (ProfilePasswordCall form)
    then show ?thesis
      using assms(2,4) by (auto intro: plain_opt_harmless profileChangePassword_own)
  next
    case TokensCall
    then show ?thesis
      using assms(2,4) by (auto simp: plain_def tokensList_def Let_def quiet_def split: prod.splits intro!: quiet_harmless)
  next
    case (TokenMintCall form scopes rb now_ns)
    then show ?thesis
      using assms(2,4) by (auto intro: plain_opt_harmless tokenMint_own)
  next
    case (TokenRevokeCall param)
    then show ?thesis
      using assms(1,2,4) adm by (auto intro: plain_opt_harmless tokenRevoke_own)
  qed
qed


section \<open>Members\<close>

lemma Memberships_iff:
  assumes "distinct (map mem_key (db_members d))"
  shows "Memberships d uid t = Some role \<longleftrightarrow>
    (\<exists>m \<in> set (db_members d). mem_TenantID m = t \<and> mem_UserID m = uid \<and> mem_Role m = role)"
proof -
  let ?ms = "filter (\<lambda>m. mem_UserID m = uid) (db_members d)"
  have "distinct (map mem_key ?ms)"
    using assms by (rule distinct_map_filter)
  then have "distinct (map fst (map (\<lambda>m. (mem_TenantID m, mem_Role m)) ?ms))"
    by (induction "?ms" arbitrary: ) (auto simp: distinct_map inj_on_def mem_key_def)
  then show ?thesis
    by (auto simp: Memberships_def map_of_eq_Some_iff)
qed

lemma Memberships_eqI:
  assumes "\<And>t role. Memberships d uid t = Some role \<longleftrightarrow> f t = Some role"
  shows "Memberships d uid = f"
  using assms by (intro ext option_eqI)

lemma AddMember_total:
  "tenant_exists d t \<Longrightarrow> user_exists d u \<Longrightarrow> \<exists>d'. AddMember t u role d = (d', Inr ())"
  by (simp add: AddMember_def)

lemma AddMember_members:
  assumes "AddMember t u role d = (d', Inr x)"
  shows "m \<in> set (db_members d') \<longleftrightarrow>
    (if mem_TenantID m = t \<and> mem_UserID m = u then mem_Role m = role else m \<in> set (db_members d))"
proof -
  let ?m = "\<lparr>mem_TenantID = t, mem_UserID = u, mem_Role = role\<rparr>"
  have is_m: "m' = ?m \<longleftrightarrow> mem_TenantID m' = t \<and> mem_UserID m' = u \<and> mem_Role m' = role" for m' :: tenant_member
    by (cases m') auto
  have "m \<in> set (db_members d') \<longleftrightarrow> m = ?m \<or> m \<in> set (db_members d) \<and> \<not> (mem_TenantID m = t \<and> mem_UserID m = u)"
  proof (cases "\<exists>m \<in> set (db_members d). mem_TenantID m = t \<and> mem_UserID m = u")
    case True
    have "m'\<lparr>mem_Role := role\<rparr> = ?m" if "mem_TenantID m' = t" "mem_UserID m' = u" for m'
      using that by (simp add: is_m)
    moreover have "db_members d' = map (\<lambda>m. if mem_TenantID m = t \<and> mem_UserID m = u then m\<lparr>mem_Role := role\<rparr> else m) (db_members d)"
      using assms True by (auto simp: AddMember_def split: if_splits)
    ultimately show ?thesis using True by (auto simp: image_iff)
  next
    case False
    then have "db_members d' = db_members d @ [?m]"
      using assms by (auto simp: AddMember_def split: if_splits)
    with False show ?thesis by auto
  qed
  then show ?thesis by (auto simp: is_m)
qed

lemma Memberships_add:
  assumes "accounts_ok d" and "AddMember t u role d = (d', Inr x)"
  shows "Memberships d' uid = (if uid = u then (Memberships d uid)(t \<mapsto> role) else Memberships d uid)"
proof (rule Memberships_eqI)
  fix t' role'
  have ok: "accounts_ok d'" using AddMember_accounts_ok [OF assms(1), of t u role] assms(2) by simp
  show "Memberships d' uid t' = Some role' \<longleftrightarrow>
      (if uid = u then (Memberships d uid)(t \<mapsto> role) else Memberships d uid) t' = Some role'"
  proof (cases "uid = u \<and> t' = t")
    case True
    then show ?thesis
      unfolding Memberships_iff [OF accounts_okD(4) [OF ok]] Bex_def AddMember_members [OF assms(2)]
      by (auto intro: exI [where x = "\<lparr>mem_TenantID = t, mem_UserID = u, mem_Role = role\<rparr>"])
  next
    case False
    then show ?thesis
      unfolding Memberships_iff [OF accounts_okD(4) [OF ok]] Bex_def AddMember_members [OF assms(2)]
      by (auto simp: Memberships_iff [OF accounts_okD(4) [OF assms(1)]])
  qed
qed

lemma Memberships_remove:
  assumes "accounts_ok d"
  shows "Memberships (RemoveMember t u d) uid = (if uid = u then (Memberships d uid)(t := None) else Memberships d uid)"
proof (rule Memberships_eqI)
  fix t' role'
  note it = Memberships_iff [OF accounts_okD(4) [OF RemoveMember_accounts_ok [OF assms]]]
  show "Memberships (RemoveMember t u d) uid t' = Some role' \<longleftrightarrow>
      (if uid = u then (Memberships d uid)(t := None) else Memberships d uid) t' = Some role'"
    unfolding it by (auto simp: Memberships_iff [OF accounts_okD(4) [OF assms]] RemoveMember_def)
qed

lemma logged_open:
  assumes "audit_open c"
  shows "\<exists>c'. logged pe e msg url c = Some (c', Plain (Redirect url)) \<and> cs_db c' = cs_db c \<and> audit_open c'"
  using assms
  by (auto simp: logged_def console_log_def audit_open_def logger_Log_def Let_def flash_to_def go_to_def plain_def
      console_flash_def split: option.splits)

lemma with_tenant_found:
  "tenants_GetByName (cs_db c) name = Inr t \<Longrightarrow> name \<noteq> [] \<Longrightarrow> with_tenant pe r idn name k c = k t"
  by (simp add: with_tenant_def resolveTenantFromPath_def)

lemma tenant_found:
  assumes "tenants_GetByName d name = Inr t"
  shows "tenant_exists d (ten_ID t)"
  using assms by (auto simp: tenants_GetByName_def tenant_exists_def dest: select_oneD split: option.splits)

text \<open>A browser session of the user \<open>u\<close>, as the next request finds it.\<close>

definition session_of :: "user \<Rightarrow> db \<Rightarrow> identity" where
  "session_of u d = \<lparr>id_User = Some u, id_Token = None, id_Memberships = Memberships d (usr_ID u), id_Kind = CredentialSession\<rparr>"

text \<open>
C18: Members of a tenant. Adding an existing user to an existing tenant as reader, writer or admin gives exactly that membership
  and changes no other; from the next request on the user reads the tenant, and writes to it unless added as
  reader. Removing the user again, by the identifier in the page's link, takes the membership away and nothing
  else; unless the user is a system administrator the tenant is closed to them. Both requests end in the tenant's page.
\<close>

theorem member_add_remove:
  assumes "accounts_ok (cs_db c)" and "audit_open c"
    and "tenants_GetByName (cs_db c) name = Inr t" and "name \<noteq> []"
    and "users_GetByName (cs_db c) (trim_space (form ''username'')) = Inr u" and "trim_space (form ''username'') \<noteq> []"
    and "parseRole (form ''role'') = Some role" and "int64_range (usr_ID u)"
  shows "\<exists>c1 c2. tenantMemberAdd pe cf r form idn name c = Some (c1, Plain (Redirect (tenant_url t)))
     \<and> tenantMemberRemove pe cf r idn name (show_int (usr_ID u)) c1 = Some (c2, Plain (Redirect (tenant_url t)))
     \<and> (\<forall>i. Memberships (cs_db c1) i = (if i = usr_ID u then (Memberships (cs_db c) i)(ten_ID t \<mapsto> role) else Memberships (cs_db c) i))
     \<and> (\<forall>i. Memberships (cs_db c2) i = (if i = usr_ID u then (Memberships (cs_db c) i)(ten_ID t := None) else Memberships (cs_db c) i))
     \<and> CanRead (session_of u (cs_db c1)) (ten_ID t)
     \<and> (CanWrite (session_of u (cs_db c1)) (ten_ID t) \<longleftrightarrow> usr_IsAdmin u \<or> role \<noteq> RoleReader)
     \<and> (CanRead (session_of u (cs_db c2)) (ten_ID t) \<longleftrightarrow> usr_IsAdmin u)"
proof -
  note u = users_by_name_id [OF assms(1,5)]
  have ex: "tenant_exists (cs_db c) (ten_ID t)" "user_exists (cs_db c) (usr_ID u)"
    using tenant_found [OF assms(3)] u(2) by (auto simp: user_exists_def)
  obtain d1 where add: "AddMember (ten_ID t) (usr_ID u) role (cs_db c) = (d1, Inr ())"
    using AddMember_total [OF ex] by blast
  have same: "db_tenants d1 = db_tenants (cs_db c)" "db_users d1 = db_users (cs_db c)"
    using add by (auto simp: AddMember_def split: if_splits)
  obtain c1 where c1: "tenantMemberAdd pe cf r form idn name c = Some (c1, Plain (Redirect (tenant_url t)))"
      "cs_db c1 = d1" "audit_open c1"
    using logged_open [of "c\<lparr>cs_db := d1\<rparr>"] assms add
    by (auto simp: tenantMemberAdd_def with_tenant_found audit_open_def Let_def) blast
  have pos: "0 < usr_ID u" using accounts_okD(2) [OF assms(1)] u(2) by (auto simp: table_ok_def)
  have n: "tenants_GetByName (cs_db c1) name = Inr t" "users_GetByID (cs_db c1) (usr_ID u) = Inr u"
    using assms(3) u(1) same c1(2) by (simp_all add: tenants_GetByName_def users_GetByID_def)
  obtain c2 where c2: "tenantMemberRemove pe cf r idn name (show_int (usr_ID u)) c1 = Some (c2, Plain (Redirect (tenant_url t)))"
      "cs_db c2 = RemoveMember (ten_ID t) (usr_ID u) d1"
    using logged_open [of "c1\<lparr>cs_db := RemoveMember (ten_ID t) (usr_ID u) (cs_db c1)\<rparr>"] c1 n pos assms(4)
      parse_int64_show_int [OF assms(8)]
    by (auto simp: tenantMemberRemove_def with_tenant_found audit_open_def) blast
  have ok1: "accounts_ok d1" using AddMember_accounts_ok [OF assms(1), of "ten_ID t" "usr_ID u" role] add by simp
  have m1: "\<forall>i. Memberships (cs_db c1) i = (if i = usr_ID u then (Memberships (cs_db c) i)(ten_ID t \<mapsto> role) else Memberships (cs_db c) i)"
    using Memberships_add [OF assms(1) add] c1(2) by simp
  moreover have m2: "\<forall>i. Memberships (cs_db c2) i = (if i = usr_ID u then (Memberships (cs_db c) i)(ten_ID t := None) else Memberships (cs_db c) i)"
    using m1 Memberships_remove [OF ok1] c1(2) c2(2) by auto
  moreover have "role \<in> {RoleReader, RoleWriter, RoleTenantAdmin}"
    using assms(7) by (auto simp: parseRole_def split: if_splits)
  ultimately show ?thesis
    using c1(1) c2(1)
    by (intro exI [where x = c1] exI [where x = c2])
      (auto simp: session_of_def access_defs RoleReader_def RoleWriter_def RoleTenantAdmin_def)
qed

section \<open>Upstreams\<close>

lemma find_map_upd:
  assumes "\<And>r. key (g r) = key r"
  shows "List.find (\<lambda>r. key r = k) (map (\<lambda>r. if key r = k' then g r else r) rs) =
    (if k = k' then map_option g (List.find (\<lambda>r. key r = k) rs) else List.find (\<lambda>r. key r = k) rs)"
  using assms by (induction rs) auto

lemma find_filter_out:
  "List.find (\<lambda>r. key r = k) (filter (\<lambda>r. key r \<noteq> k') rs) = (if k = k' then None else List.find (\<lambda>r. key r = k) rs)"
  by (induction rs) auto

definition upstream_key :: "upstream_row \<Rightarrow> int \<times> string" where
  "upstream_key r = (tu_tenant_id r, tu_format r)"

lemma Lookup_by_key:
  "LookupTenantUpstream d t f = map_option scan_persisted (List.find (\<lambda>r. upstream_key r = (t, f)) (db_upstreams d))"
  by (simp add: LookupTenantUpstream_def upstream_key_def)

lemma find_upsert:
  assumes "\<And>r. key (g r) = key r" and "key new = k'"
  shows "List.find (\<lambda>r. key r = k) (if \<exists>r \<in> set rs. key r = k' then map (\<lambda>r. if key r = k' then g r else r) rs else rs @ [new]) =
    (if k = k' then Some (case List.find (\<lambda>r. key r = k) rs of None \<Rightarrow> new | Some r \<Rightarrow> g r) else List.find (\<lambda>r. key r = k) rs)"
proof (cases "\<exists>r \<in> set rs. key r = k'")
  case True
  then have "List.find (\<lambda>r. key r = k') rs \<noteq> None" by (auto simp: find_None_iff)
  with True show ?thesis using find_map_upd [of key g, OF assms(1)] by auto
next
  case False
  then have "List.find (\<lambda>r. key r = k') rs = None" by (auto simp: find_None_iff)
  with False assms(2) show ?thesis by (auto simp: find_append split: option.split)
qed

lemma upstream_Set_lookup:
  assumes "upstream_Set now t f mode url ttl d = (d', Inr x)"
  shows "\<exists>p. LookupTenantUpstream d' t f = Some p \<and> pc_Mode p = mode
      \<and> pc_UpstreamURL p = (if url \<noteq> [] then Some url else None) \<and> pc_MetadataTTLSec p = ttl"
    and "(t', f') \<noteq> (t, f) \<Longrightarrow> LookupTenantUpstream d' t' f' = LookupTenantUpstream d t' f'"
proof -
  let ?url = "if url \<noteq> [] then Some url else None"
  let ?g = "\<lambda>r. r\<lparr>tu_mode := mode, tu_upstream_url := ?url, tu_metadata_ttl_sec := ttl, tu_updated_unix := now\<rparr>"
  let ?new = "\<lparr>tu_tenant_id = t, tu_format = f, tu_mode = mode, tu_upstream_url = ?url, tu_metadata_ttl_sec = ttl,
      tu_auth_kind = None, tu_auth_credential = None, tu_updated_unix = now\<rparr>"
  have P: "(\<lambda>r. tu_tenant_id r = t \<and> tu_format r = f) = (\<lambda>r. upstream_key r = (t, f))"
    by (auto simp: upstream_key_def)
  have d': "db_upstreams d' = (if \<exists>r \<in> set (db_upstreams d). upstream_key r = (t, f)
      then map (\<lambda>r. if upstream_key r = (t, f) then ?g r else r) (db_upstreams d) else db_upstreams d @ [?new])"
    using assms unfolding upstream_Set_def Let_def P by (simp split: if_splits) (auto simp: upstream_key_def)
  have look: "LookupTenantUpstream d' t' f' = map_option scan_persisted
      (if (t', f') = (t, f) then Some (case List.find (\<lambda>r. upstream_key r = (t', f')) (db_upstreams d) of None \<Rightarrow> ?new | Some r \<Rightarrow> ?g r)
       else List.find (\<lambda>r. upstream_key r = (t', f')) (db_upstreams d))" for t' f'
    unfolding Lookup_by_key d' by (subst find_upsert) (simp_all add: upstream_key_def)
  show "\<exists>p. LookupTenantUpstream d' t f = Some p \<and> pc_Mode p = mode \<and> pc_UpstreamURL p = ?url \<and> pc_MetadataTTLSec p = ttl"
    unfolding look by (simp add: scan_persisted_def split: option.split)
  assume "(t', f') \<noteq> (t, f)"
  then show "LookupTenantUpstream d' t' f' = LookupTenantUpstream d t' f'"
    unfolding look by (simp only: if_False Lookup_by_key)
qed

lemma upstream_Set_total: "tenant_exists d t \<Longrightarrow> \<exists>d'. upstream_Set now t f mode url ttl d = (d', Inr ())"
  by (simp add: upstream_Set_def Let_def)

lemma upstream_Delete_lookup:
  "LookupTenantUpstream (upstream_Delete t f d) t' f' = (if (t', f') = (t, f) then None else LookupTenantUpstream d t' f')"
proof -
  have "(\<lambda>r. \<not> (tu_tenant_id r = t \<and> tu_format r = f)) = (\<lambda>r. upstream_key r \<noteq> (t, f))"
    by (auto simp: upstream_key_def)
  then show ?thesis
    using find_filter_out [of upstream_key "(t', f')" "(t, f)" "db_upstreams d"]
    by (simp add: Lookup_by_key upstream_Delete_def)
qed

lemma upstream_ttl_range: "upstream_ttl str = Some ttl \<Longrightarrow> 0 \<le> ttl \<and> ttl \<le> 86400"
  by (auto simp: upstream_ttl_def split: if_splits option.splits)

text \<open>
C39: A saved upstream is the one requests are resolved with. If the form is accepted, requests of that tenant in that
  format run in the mode of the form - also when no adapter for the format is shipped - against its URL if it
  names one that parses, with its lifetime unless that is zero; every other tenant and format is resolved as before.
  Resetting the format brings back what is compiled in, and leaves the others alone.
\<close>

theorem upstream_form_resolved:
  assumes "audit_open c" and "tenants_GetByName (cs_db c) name = Inr t" and "name \<noteq> []"
    and "f = to_lower (trim_space fmt)" and "LookupDefault f \<noteq> None" and "Mode_Valid (trim_space (form ''mode''))"
    and "upstream_url_error pe (trim_space (form ''upstream_url'')) = None"
    and "upstream_ttl (trim_space (form ''metadata_ttl_sec'')) = Some ttl"
  shows "\<exists>c1 c2. tenantUpstreamUpsert pe cf r form idn name fmt c = Some (c1, Plain (Redirect (tenant_url t @ ''/upstreams'')))
     \<and> tenantUpstreamReset pe cf r idn name fmt c1 = Some (c2, Plain (Redirect (tenant_url t @ ''/upstreams'')))
     \<and> (\<forall>parse dmode dttl. let cfg = resolveConfig parse (LookupTenantUpstream (cs_db c1)) dmode dttl (ten_ID t) f in
           tc_Mode cfg = trim_space (form ''mode'')
         \<and> tc_MetadataTTL cfg = (if ttl = 0 then dttl else ttl * second)
         \<and> (\<forall>u. trim_space (form ''upstream_url'') \<noteq> [] \<and> parse (trim_space (form ''upstream_url'')) = Some u \<longrightarrow>
              tc_UpstreamBaseURL cfg = Some u))
     \<and> (\<forall>t' f'. (t', f') \<noteq> (ten_ID t, f) \<longrightarrow>
          LookupTenantUpstream (cs_db c1) t' f' = LookupTenantUpstream (cs_db c) t' f'
        \<and> LookupTenantUpstream (cs_db c2) t' f' = LookupTenantUpstream (cs_db c) t' f')
     \<and> LookupTenantUpstream (cs_db c2) (ten_ID t) f = None"
proof -
  let ?mode = "trim_space (form ''mode'')" and ?url = "trim_space (form ''upstream_url'')"
  have "f \<noteq> []" using assms(5) by (auto simp: LookupDefault_def defaultUpstreams_def to_lower_def)
  obtain d1 where set: "upstream_Set (ce_now (pe_console pe)) (ten_ID t) f ?mode ?url ttl (cs_db c) = (d1, Inr ())"
    using upstream_Set_total [OF tenant_found [OF assms(2)]] by blast
  have same: "db_tenants d1 = db_tenants (cs_db c)"
    using set by (auto simp: upstream_Set_def Let_def split: if_splits)
  obtain c1 where c1: "tenantUpstreamUpsert pe cf r form idn name fmt c = Some (c1, Plain (Redirect (tenant_url t @ ''/upstreams'')))"
      "cs_db c1 = d1" "audit_open c1"
    using logged_open [of "c\<lparr>cs_db := d1\<rparr>"] assms(1-3,5-8) set \<open>f \<noteq> []\<close>
    by (auto simp: tenantUpstreamUpsert_def with_tenant_found audit_open_def Let_def simp flip: assms(4)) blast
  have "tenants_GetByName (cs_db c1) name = Inr t"
    using assms(2) same c1(2) by (simp add: tenants_GetByName_def)
  then obtain c2 where c2: "tenantUpstreamReset pe cf r idn name fmt c1 = Some (c2, Plain (Redirect (tenant_url t @ ''/upstreams'')))"
      "cs_db c2 = upstream_Delete (ten_ID t) f d1"
    using logged_open [of "c1\<lparr>cs_db := upstream_Delete (ten_ID t) f (cs_db c1)\<rparr>"] c1 assms(3,5)
    by (auto simp: tenantUpstreamReset_def with_tenant_found audit_open_def Let_def simp flip: assms(4)) blast
  obtain p where p: "LookupTenantUpstream d1 (ten_ID t) f = Some p" "pc_Mode p = ?mode"
      "pc_UpstreamURL p = (if ?url \<noteq> [] then Some ?url else None)" "pc_MetadataTTLSec p = ttl"
    using upstream_Set_lookup(1) [OF set] by blast
  have "wrap64 (ttl * second) = ttl * second"
    using upstream_ttl_range [OF assms(8)] by (intro wrap64_id) (auto simp: int64_range_def second_def)
  then have "let cfg = resolveConfig parse (LookupTenantUpstream (cs_db c1)) dmode dttl (ten_ID t) f in
       tc_Mode cfg = ?mode \<and> tc_MetadataTTL cfg = (if ttl = 0 then dttl else ttl * second)
       \<and> (\<forall>u. ?url \<noteq> [] \<and> parse ?url = Some u \<longrightarrow> tc_UpstreamBaseURL cfg = Some u)" for parse dmode dttl
    using assms(5,6) p c1(2) upstream_ttl_range [OF assms(8)]
    by (cases "LookupDefault f"; cases "parse ?url") (auto simp: resolveConfig_def Let_def split: option.split)
  moreover have "\<forall>t' f'. (t', f') \<noteq> (ten_ID t, f) \<longrightarrow>
          LookupTenantUpstream (cs_db c1) t' f' = LookupTenantUpstream (cs_db c) t' f'
        \<and> LookupTenantUpstream (cs_db c2) t' f' = LookupTenantUpstream (cs_db c) t' f'"
    using upstream_Set_lookup(2) [OF set] c1(2) c2(2) by (auto simp: upstream_Delete_lookup)
  ultimately show ?thesis
    using c1(1) c2 by (intro exI [where x = c1] exI [where x = c2]) (simp add: upstream_Delete_lookup)
qed

section \<open>Renaming a rule\<close>

lemma Upsert_new:
  assumes "rules_ok d" and "acceptable d r" and "opt_exists (user_exists d) (nullInt (rule_CreatedByUserID r))"
    and "rules_GetByName d (rule_Name r) = Inl e"
  shows "\<exists>d'. Upsert now r d = (d', Inr (seq (db_rules d) + 1))
    \<and> (\<exists>new. rules_GetByName d' (rule_Name r) = Inr new \<and> rule_ID new = seq (db_rules d) + 1 \<and> rule_Action new = rule_Action r
        \<and> rule_Enabled new = rule_Enabled r)
    \<and> (\<forall>name. name \<noteq> rule_Name r \<longrightarrow> rules_GetByName d' name = rules_GetByName d name)"
proof -
  let ?r = "upsert_defaults now r"
  have none: "select_one (\<lambda>q. rr_name q = rule_Name r) (db_rules d) = None"
    using assms(4) by (simp add: rules_GetByName_def split: option.splits)
  obtain d' where up: "Upsert now r d = (d', Inr (seq (db_rules d) + 1))"
    using assms(2-4) by (simp add: Upsert_def acceptable_def Let_def insert_row_def)
  have t: "table_ok rr_id rr_name (db_rules d)" using assms(1) by (simp add: rules_ok_def)
  note look = upserted_lookup(1) [OF t, of ?r] upserted_lookup(2) [OF t, of _ ?r] and d' = Upsert_success(1) [OF assms(1) up]
  have "rules_GetByName d' (rule_Name r) = Inr (scanRule (mk_rule_row ?r (seq (db_rules d) + 1)))"
    using look(1) none d' by (simp add: rules_GetByName_def)
  moreover have "\<forall>name. name \<noteq> rule_Name r \<longrightarrow> rules_GetByName d' name = rules_GetByName d name"
    using look(2) d' by (simp add: rules_GetByName_def)
  ultimately show ?thesis using up by (auto simp: scan_new saved_rule_def)
qed

lemma stored_rule_id:
  assumes "rules_ok d" and "rules_GetByName d name = Inr q"
  shows "rule_ID q \<le> seq (db_rules d)"
  using assms
  by (auto simp: rules_GetByName_def rules_ok_def table_ok_def scanRule_def dest!: select_oneD split: option.splits)

text \<open>
C40: Renaming a rule on its edit page does not rename it. If the form of an existing rule is saved under a new name, the
  answer is that the rule was saved, but the old rule is still there as it was - enabled if it was - next to a new one
  with an identifier of its own, although the form carries the identifier of the old one.
\<close>

theorem rule_rename_keeps_old:
  assumes "rules_ok (cs_db c)" and "audit_open c" and "f = parseRuleForm form" and "rule_form_errors f = []"
    and "rules_GetByName (cs_db c) (rule_Name old) = Inr old" and "re_ID f = rule_ID old" and "re_Name f \<noteq> rule_Name old"
    and "rules_GetByName (cs_db c) (re_Name f) = Inl e"
    and "re_TenantID f = 0 \<or> tenant_exists (cs_db c) (re_TenantID f)"
    and "identity_user idn = Some (i, u)" and "user_exists (cs_db c) (usr_ID u)"
  shows "\<exists>c' new. ruleUpsert pe cf r form idn c = Some (c', Plain (Redirect ''/console/rules''))
     \<and> rules_GetByName (cs_db c') (rule_Name old) = Inr old
     \<and> rules_GetByName (cs_db c') (re_Name f) = Inr new \<and> rule_ID new \<noteq> rule_ID old
     \<and> rule_Action new = re_Action f \<and> rule_Enabled new = re_Enabled f"
proof -
  let ?r = "rule_of_form idn f"
  have r: "rule_Name ?r = re_Name f" "rule_Action ?r = re_Action f" "rule_Enabled ?r = re_Enabled f" "rule_Kind ?r = re_Kind f"
      "rule_TenantID ?r = re_TenantID f" "rule_CreatedByUserID ?r = usr_ID u"
    using assms(10) by (simp_all add: rule_of_form_def)
  have acc: "acceptable (cs_db c) ?r" "opt_exists (user_exists (cs_db c)) (nullInt (rule_CreatedByUserID ?r))"
    using assms(4,9,11) by (auto simp: acceptable_def r opt_exists_def nullInt_def rule_form_errors_def split: if_splits)
  obtain d' new where up: "Upsert (ce_now (pe_console pe)) ?r (cs_db c) = (d', Inr (seq (db_rules (cs_db c)) + 1))"
      "rules_GetByName d' (re_Name f) = Inr new" "rule_ID new = seq (db_rules (cs_db c)) + 1"
      "rule_Action new = re_Action f" "rule_Enabled new = re_Enabled f"
      "\<forall>name. name \<noteq> re_Name f \<longrightarrow> rules_GetByName d' name = rules_GetByName (cs_db c) name"
    using Upsert_new [OF assms(1) acc] assms(8) unfolding r by blast
  obtain c' where "ruleUpsert pe cf r form idn c = Some (c', Plain (Redirect ''/console/rules''))" "cs_db c' = d'"
    using logged_open [of "c\<lparr>cs_db := d'\<rparr>"] assms(2,4) up(1)
    by (auto simp: ruleUpsert_def Let_def audit_open_def simp flip: assms(3)) blast
  moreover have "rule_ID new \<noteq> rule_ID old" using stored_rule_id [OF assms(1,5)] up(3) by simp
  ultimately show ?thesis using up assms(5,7) by (intro exI [where x = c'] exI [where x = new]) auto
qed

section \<open>Witnesses\<close>

text \<open>The cookie of \<open>bob\<close>, who is no administrator, and forms.\<close>

definition bob_cookie :: sess_data where
  "bob_cookie = empty_data\<lparr>sd_vals := [sessionKeyUserID \<mapsto> SInt 2]\<rparr>"

definition page_form :: "(string \<times> string) list \<Rightarrow> string \<Rightarrow> string" where
  "page_form kvs k = (case map_of kvs k of None \<Rightarrow> [] | Some v \<Rightarrow> v)"

lemma bob_found: "users_GetByID desk_db 2 = Inr bob_row" "users_GetByName desk_db ''bob'' = Inr bob_row" "usr_ID bob_row = 2"
  by (simp_all add: users_GetByID_def users_GetByName_def select_one_def desk_defs desk_lower)

lemma default_found: "tenants_GetByName desk_db ''default'' = Inr (default_tenant_row 0)" "ten_ID (default_tenant_row 0) = 1"
  "ten_Name (default_tenant_row 0) = ''default''"
proof -
  have "to_lower ''default'' = ''default''" by code_simp
  then show "tenants_GetByName desk_db ''default'' = Inr (default_tenant_row 0)"
    by (simp add: tenants_GetByName_def select_one_def desk_defs)
qed (simp_all add: default_tenant_row_def)


theorem member_add_remove_witness:
  "\<exists>c1. tenantMemberAdd report_env desk_config (desk_request []) (page_form [(''username'', ''bob''), (''role'', ''writer'')]) None ''default'' desk
       = Some (c1, Plain (Redirect ''/console/tenants/default''))
     \<and> Memberships (cs_db c1) 2 1 = Some RoleWriter"
proof -
  let ?form = "page_form [(''username'', ''bob''), (''role'', ''writer'')]"
  have f: "trim_space (?form ''username'') = ''bob''" "parseRole (?form ''role'') = Some RoleWriter"
    by (simp_all add: page_form_def parseRole_def trim_space_def trim_left_def is_space_def)
  have "int64_range (usr_ID bob_row)" by (simp add: bob_found int64_range_def)
  from member_add_remove [of desk "''default''" "default_tenant_row 0" ?form bob_row RoleWriter report_env desk_config "desk_request []" None] f this
  show ?thesis
    by (auto simp: desk_db_ok bob_found default_found tenant_url_def)
qed

theorem upstream_form_resolved_witness:
  "\<exists>c1. tenantUpstreamUpsert report_env desk_config (desk_request []) (page_form [(''mode'', ''cache_only''), (''metadata_ttl_sec'', ''60'')])
        None ''default'' ''maven'' desk = Some (c1, Plain (Redirect ''/console/tenants/default/upstreams''))
     \<and> tc_Mode (resolveConfig (\<lambda>_. None) (LookupTenantUpstream (cs_db c1)) ModeOff 5 1 ''maven'') = ''cache_only''
     \<and> tc_MetadataTTL (resolveConfig (\<lambda>_. None) (LookupTenantUpstream (cs_db c1)) ModeOff 5 1 ''maven'') = 60 * second"
proof -
  let ?form = "page_form [(''mode'', ''cache_only''), (''metadata_ttl_sec'', ''60'')]"
  have f: "trim_space (?form ''mode'') = ''cache_only''" "trim_space (?form ''upstream_url'') = []"
      "trim_space (?form ''metadata_ttl_sec'') = ''60''" "to_lower (trim_space ''maven'') = ''maven''"
    by code_simp+
  have t: "upstream_ttl ''60'' = Some 60" "Mode_Valid ''cache_only''" "LookupDefault ''maven'' \<noteq> None"
    by (code_simp)+
  from upstream_form_resolved [of desk "''default''" "default_tenant_row 0" "''maven''" "''maven''" ?form report_env 60 desk_config "desk_request []" None]
  show ?thesis
    by (auto simp: f t default_found tenant_url_def upstream_url_error_def Let_def)
qed

definition rules_desk :: console where
  "rules_desk = desk\<lparr>cs_db := fst (Upsert 7 sample_rule_input desk_db)\<rparr>"

theorem rule_rename_keeps_old_witness:
  "\<exists>c' old new. ruleUpsert report_env desk_config (desk_request [])
        (page_form [(''id'', ''1''), (''name'', ''slow''), (''kind'', ''cooldown''), (''action'', ''warn'')]) (Some mint_identity) rules_desk
        = Some (c', Plain (Redirect ''/console/rules''))
     \<and> rules_GetByName (cs_db c') ''cool'' = Inr old \<and> rule_Action old = ''deny'' \<and> rule_Enabled old
     \<and> rules_GetByName (cs_db c') ''slow'' = Inr new \<and> rule_Action new = ''warn'' \<and> rule_ID new \<noteq> 1"
proof -
  let ?form = "page_form [(''id'', ''1''), (''name'', ''slow''), (''kind'', ''cooldown''), (''action'', ''warn'')]"
  have none: "rules_GetByName desk_db n = Inl ErrRuleNotExist" "seq (db_rules desk_db) = 0" for n
    by (simp_all add: rules_GetByName_def desk_db_def fresh_db_def select_one_def)
  have ok: "rules_ok desk_db" by (simp add: rules_ok_def desk_db_def fresh_db_def)
  have s: "acceptable desk_db sample_rule_input" "opt_exists (user_exists desk_db) (nullInt (rule_CreatedByUserID sample_rule_input))"
      "rule_Name sample_rule_input = ''cool''" "rule_Action sample_rule_input = ''deny''" "rule_Enabled sample_rule_input"
    by (simp_all add: acceptable_def opt_exists_def nullInt_def sample_rule_input_def)
  obtain d' old where up: "Upsert 7 sample_rule_input desk_db = (d', Inr 1)" "rules_GetByName d' ''cool'' = Inr old"
      "rule_ID old = 1" "rule_Action old = ''deny''" "rule_Enabled old"
      "\<forall>name. name \<noteq> ''cool'' \<longrightarrow> rules_GetByName d' name = rules_GetByName desk_db name"
    using Upsert_new [OF ok s(1,2) none(1), of 7] s(3-5) none(2) by auto
  have name: "rule_Name old = ''cool''"
    using up(2) by (auto simp: rules_GetByName_def scanRule_def dest: select_oneD split: option.splits)
  have same: "db_users d' = db_users desk_db"
    using Upsert_success(1) [OF ok up(1)] by simp
  have f: "re_ID (parseRuleForm ?form) = 1" "re_Name (parseRuleForm ?form) = ''slow''" "re_TenantID (parseRuleForm ?form) = 0"
      "re_Action (parseRuleForm ?form) = ''warn''" "rule_form_errors (parseRuleForm ?form) = []"
    by code_simp+
  have ok': "rules_ok d'" using Upsert_ok [OF ok, of 7 sample_rule_input] up(1) by simp
  have u: "identity_user (Some mint_identity) = Some (mint_identity, sample_admin_row)" "user_exists d' (usr_ID sample_admin_row)"
    by (simp_all add: identity_user_def mint_identity_def user_exists_def same desk_defs)
  have d: "cs_db rules_desk = d'" "audit_open rules_desk"
    using up(1) by (simp_all add: rules_desk_def audit_open_def desk_def)
  from rule_rename_keeps_old [of rules_desk "parseRuleForm ?form" ?form old ErrRuleNotExist "Some mint_identity" mint_identity sample_admin_row
      report_env desk_config "desk_request []"]
  show ?thesis
    using ok' d f up name none u by auto
qed

end
