(* ===== verification/Admin_Api.thy ===== *)
theory Admin_Api
  imports Http Audit_Log Container_Manifest Models_Store
begin

text \<open>
  The administrative API (\<open>internal/admin/admin.go\<close>): every route with its gate. The state is the database and the
  audit logger, when there is one; \<open>None\<close> is a panic - of the logger, or of a slice expression. A JSON body goes
  through \<open>json_Decode\<close> and the field decoders of the request structs. \<open>ad_num\<close> is what becomes of a number literal that
  is decoded into an \<open>any\<close> and printed again: its \<open>float64\<close>, \<open>None\<close> if it is too large.
  \<open>ad_extra\<close> decodes the extras of audit rows. The texts of errors are parameters; they only appear in bodies.
\<close>

record admin_env =
  ad_now :: int
  ad_actor :: "actor option"
  ad_num :: "string \<Rightarrow> string option"
  ad_extra :: "string \<Rightarrow> (string \<times> json) list option"
  ad_error_text :: "go_error \<Rightarrow> string"
  ad_json_error :: "string \<Rightarrow> string"
  ad_parse_error :: "string \<Rightarrow> string"

record admin_state =
  as_db :: db
  as_log :: "buffered_logger option"

type_synonym admin_result = "(admin_state \<times> response) option"

section \<open>Values\<close>

text \<open>A value decoded into an \<open>any\<close>, as \<open>json.Marshal\<close> prints it: maps have their keys sorted, the last of
  several equal keys counts.\<close>

fun last_wins :: "(string \<times> 'a) list \<Rightarrow> (string \<times> 'a) list" where
  "last_wins [] = []"
| "last_wins ((k, v) # ms) = (if k \<in> fst ` set ms then last_wins ms else (k, v) # last_wins ms)"

fun any_json :: "(string \<Rightarrow> string option) \<Rightarrow> json \<Rightarrow> json option"
  and any_elems :: "(string \<Rightarrow> string option) \<Rightarrow> json list \<Rightarrow> json list option"
  and any_members :: "(string \<Rightarrow> string option) \<Rightarrow> (string \<times> json) list \<Rightarrow> (string \<times> json) list option" where
  "any_json num JNull = Some JNull"
| "any_json num (JBool b) = Some (JBool b)"
| "any_json num (JNumber l) = map_option JNumber (num l)"
| "any_json num (JString s) = Some (JString s)"
| "any_json num (JArray vs) = map_option JArray (any_elems num vs)"
| "any_json num (JObject ms) = map_option (\<lambda>ms'. JObject (sort_key fst (last_wins ms'))) (any_members num ms)"
| "any_elems num [] = Some []"
| "any_elems num (v # vs) =
     (case any_json num v of None \<Rightarrow> None | Some v' \<Rightarrow> map_option ((#) v') (any_elems num vs))"
| "any_members num [] = Some []"
| "any_members num ((k, v) # ms) =
     (case any_json num v of None \<Rightarrow> None | Some v' \<Rightarrow> map_option ((#) (k, v')) (any_members num ms))"

definition jint :: "int \<Rightarrow> json" where "jint i = JNumber (show_int i)"

text \<open>\<open>n, _ = strconv.ParseInt(v, 10, 64)\<close>: zero for a text that is no number, the nearest bound for one
  that is out of range.\<close>

definition lenient_int :: "string \<Rightarrow> int" where
  "lenient_int s =
     (let neg = (s \<noteq> [] \<and> hd s = CHR ''-'');
          ds = (if s \<noteq> [] \<and> (hd s = CHR ''-'' \<or> hd s = CHR ''+'') then tl s else s)
      in if ds = [] then 0
         else (case parse_digits ds 0 of
             None \<Rightarrow> 0
           | Some n \<Rightarrow> if neg then max (- (2 ^ 63)) (- int n) else min (2 ^ 63 - 1) (int n)))"

definition query_int :: "(string \<Rightarrow> string) \<Rightarrow> string \<Rightarrow> int" where
  "query_int q k = (if q k = [] then 0 else lenient_int (q k))"

section \<open>The gate and the audit trail\<close>

definition requireSystemAdmin :: "identity option \<Rightarrow> unit step" where
  "requireSystemAdmin idn =
     (if (case idn of None \<Rightarrow> True | Some i \<Rightarrow> \<not> IsSystemAdmin i)
      then Inl \<lparr>rs_Status = 403, rs_Headers = [(''WWW-Authenticate'', ''Basic realm=\"pkgmirror admin\"'')],
                rs_Body = Text ''admin scope required''\<rparr>
      else Inr ())"

definition admin_event :: "string \<Rightarrow> event" where
  "admin_event act =
     \<lparr>ev_CreatedUnix = 0, ev_UserID = 0, ev_TokenID = 0, ev_RequestID = [], ev_RemoteAddr = [], ev_UserAgent = [],
      ev_ActorKind = [], ev_TenantID = 0, ev_Action = act, ev_Format = [], ev_Package = [], ev_Version = [],
      ev_Filename = [], ev_Decision = [], ev_RuleID = 0, ev_Reason = [], ev_Extra = []\<rparr>"

definition emit :: "admin_env \<Rightarrow> event \<Rightarrow> admin_state \<Rightarrow> admin_state option" where
  "emit ae e s =
     (case as_log s of
        None \<Rightarrow> Some s
      | Some l \<Rightarrow>
          (let a = ActorFromContext (ad_actor ae);
               e' = e\<lparr>ev_UserID := act_UserID a, ev_TokenID := act_TokenID a, ev_RequestID := act_RequestID a,
                      ev_RemoteAddr := act_RemoteAddr a, ev_UserAgent := act_UserAgent a\<rparr>
           in map_option (\<lambda>l'. s\<lparr>as_log := Some l'\<rparr>) (logger_Log (ad_now ae) e' l)))"

definition emit_reply :: "admin_env \<Rightarrow> event \<Rightarrow> response \<Rightarrow> admin_state \<Rightarrow> admin_result" where
  "emit_reply ae e rp s = map_option (\<lambda>s'. (s', rp)) (emit ae e s)"

definition bad_id :: "admin_env \<Rightarrow> string \<Rightarrow> string \<Rightarrow> response" where
  "bad_id ae what param = reply 400 (Text (what @ '': '' @ ad_parse_error ae param))"

definition bad_json :: "admin_env \<Rightarrow> string \<Rightarrow> response" where
  "bad_json ae bdy = reply 400 (Text (''bad json: '' @ ad_json_error ae bdy))"

definition server_error :: "admin_env \<Rightarrow> go_error \<Rightarrow> response" where
  "server_error ae e = reply 500 (Text (ad_error_text ae e))"

section \<open>Rules\<close>

definition omit_int :: "string \<Rightarrow> int \<Rightarrow> (string \<times> json) list" where
  "omit_int k i = (if i = 0 then [] else [(k, jint i)])"

definition omit_text :: "string \<Rightarrow> string \<Rightarrow> (string \<times> json) list" where
  "omit_text k s = (if s = [] then [] else [(k, JString s)])"

text \<open>The decoded configuration; a \<open>nil\<close> is omitted.\<close>

definition dto_config :: "admin_env \<Rightarrow> config_json \<Rightarrow> (string \<times> json) list" where
  "dto_config ae cfg =
     (case cfg of
        ConfigJSON v \<Rightarrow>
          (case any_json (ad_num ae) v of
             None \<Rightarrow> [] | Some v' \<Rightarrow> if v' = JNull then [] else [(''config'', v')])
      | _ \<Rightarrow> [])"

definition ruleToDTO :: "admin_env \<Rightarrow> rule \<Rightarrow> json" where
  "ruleToDTO ae r =
     JObject ([(''id'', jint (rule_ID r)), (''name'', JString (rule_Name r)), (''kind'', JString (rule_Kind r))]
       @ omit_int ''tenant_id'' (rule_TenantID r) @ omit_text ''format'' (rule_Format r)
       @ omit_text ''package'' (rule_Package r) @ omit_text ''version_pattern'' (rule_VersionPattern r)
       @ [(''action'', JString (rule_Action r))] @ dto_config ae (rule_Config r)
       @ omit_int ''priority'' (rule_Priority r) @ [(''enabled'', JBool (rule_Enabled r))]
       @ [(''created_unix'', jint (rule_CreatedUnix r))] @ omit_int ''expires_unix'' (rule_ExpiresUnix r))"

definition listRules :: "admin_env \<Rightarrow> admin_state \<Rightarrow> admin_result" where
  "listRules ae s =
     Some (s, reply 200 (Json (JObject [(''rules'', JArray (map (ruleToDTO ae) (ListEnabled (as_db s))))])))"

record upsert_req =
  ur_Name :: string
  ur_Kind :: string
  ur_TenantID :: int
  ur_Format :: string
  ur_Package :: string
  ur_VersionPattern :: string
  ur_Action :: string
  ur_Config :: "json option"
  ur_Priority :: int
  ur_Enabled :: "bool option"
  ur_ExpiresUnix :: int

definition zero_upsert_req :: upsert_req where
  "zero_upsert_req =
     \<lparr>ur_Name = [], ur_Kind = [], ur_TenantID = 0, ur_Format = [], ur_Package = [], ur_VersionPattern = [],
      ur_Action = [], ur_Config = None, ur_Priority = 0, ur_Enabled = None, ur_ExpiresUnix = 0\<rparr>"

fun decode_bool :: "bool \<Rightarrow> json \<Rightarrow> bool \<times> string option" where
  "decode_bool cur JNull = (cur, None)"
| "decode_bool cur (JBool b) = (b, None)"
| "decode_bool cur v = (cur, Some (json_kind v))"

text \<open>A field of type \<open>*bool\<close>: \<open>null\<close> sets it to \<open>nil\<close>.\<close>

fun decode_bool_ptr :: "bool option \<Rightarrow> json \<Rightarrow> bool option \<times> string option" where
  "decode_bool_ptr cur JNull = (None, None)"
| "decode_bool_ptr cur (JBool b) = (Some b, None)"
| "decode_bool_ptr cur v = (Some (case cur of None \<Rightarrow> False | Some b \<Rightarrow> b), Some (json_kind v))"

text \<open>A field of type \<open>any\<close>.\<close>

definition decode_any :: "(string \<Rightarrow> string option) \<Rightarrow> json option \<Rightarrow> json \<Rightarrow> json option \<times> string option" where
  "decode_any num cur v =
     (case any_json num v of
        None \<Rightarrow> (cur, Some ''number'')
      | Some v' \<Rightarrow> (if v' = JNull then None else Some v', None))"

definition upsert_field :: "(string \<Rightarrow> string option) \<Rightarrow> upsert_req \<Rightarrow> string \<Rightarrow> json \<Rightarrow> upsert_req \<times> string option" where
  "upsert_field num q k v =
     (if equal_fold k ''name'' then apfst (\<lambda>x. q\<lparr>ur_Name := x\<rparr>) (decode_string ''string'' k (ur_Name q) v)
      else if equal_fold k ''kind'' then apfst (\<lambda>x. q\<lparr>ur_Kind := x\<rparr>) (decode_string ''string'' k (ur_Kind q) v)
      else if equal_fold k ''tenant_id'' then apfst (\<lambda>x. q\<lparr>ur_TenantID := x\<rparr>) (decode_int k (ur_TenantID q) v)
      else if equal_fold k ''format'' then apfst (\<lambda>x. q\<lparr>ur_Format := x\<rparr>) (decode_string ''string'' k (ur_Format q) v)
      else if equal_fold k ''package'' then apfst (\<lambda>x. q\<lparr>ur_Package := x\<rparr>) (decode_string ''string'' k (ur_Package q) v)
      else if equal_fold k ''version_pattern'' then
        apfst (\<lambda>x. q\<lparr>ur_VersionPattern := x\<rparr>) (decode_string ''string'' k (ur_VersionPattern q) v)
      else if equal_fold k ''action'' then apfst (\<lambda>x. q\<lparr>ur_Action := x\<rparr>) (decode_string ''string'' k (ur_Action q) v)
      else if equal_fold k ''config'' then apfst (\<lambda>x. q\<lparr>ur_Config := x\<rparr>) (decode_any num (ur_Config q) v)
      else if equal_fold k ''priority'' then apfst (\<lambda>x. q\<lparr>ur_Priority := x\<rparr>) (decode_int k (ur_Priority q) v)
      else if equal_fold k ''enabled'' then apfst (\<lambda>x. q\<lparr>ur_Enabled := x\<rparr>) (decode_bool_ptr (ur_Enabled q) v)
      else if equal_fold k ''expires_unix'' then apfst (\<lambda>x. q\<lparr>ur_ExpiresUnix := x\<rparr>) (decode_int k (ur_ExpiresUnix q) v)
      else (q, None))"

text \<open>\<open>ShouldBindJSON\<close>: \<open>None\<close> for a syntax error or a member of the wrong type.\<close>

definition bind_json :: "('c \<Rightarrow> string \<Rightarrow> json \<Rightarrow> 'c \<times> string option) \<Rightarrow> 'c \<Rightarrow> string \<Rightarrow> 'c option" where
  "bind_json fld zero bdy =
     (case json_Decode bdy of
        None \<Rightarrow> None
      | Some v \<Rightarrow> (case decode_struct fld zero v of (c, None) \<Rightarrow> Some c | (c, Some e) \<Rightarrow> None))"

definition rule_of_req :: "upsert_req \<Rightarrow> rule" where
  "rule_of_req q =
     \<lparr>rule_ID = 0, rule_Name = ur_Name q, rule_Kind = ur_Kind q, rule_TenantID = ur_TenantID q, rule_Format = ur_Format q,
      rule_Package = ur_Package q, rule_VersionPattern = ur_VersionPattern q, rule_Action = ur_Action q,
      rule_Config = (case ur_Config q of None \<Rightarrow> ConfigJSON (JObject []) | Some v \<Rightarrow> ConfigJSON v),
      rule_Priority = ur_Priority q, rule_Enabled = (case ur_Enabled q of None \<Rightarrow> True | Some b \<Rightarrow> b),
      rule_CreatedUnix = 0, rule_CreatedByUserID = 0, rule_ExpiresUnix = ur_ExpiresUnix q\<rparr>"

definition upsertRule :: "admin_env \<Rightarrow> string \<Rightarrow> admin_state \<Rightarrow> admin_result" where
  "upsertRule ae bdy s =
     (case bind_json (upsert_field (ad_num ae)) zero_upsert_req bdy of
        None \<Rightarrow> Some (s, bad_json ae bdy)
      | Some q \<Rightarrow>
          (if ur_Name q = [] \<or> ur_Kind q = [] \<or> ur_Action q = []
           then Some (s, reply 400 (Text ''name, kind, action are required''))
           else case Upsert (ad_now ae) (rule_of_req q) (as_db s) of
               (d', Inl e) \<Rightarrow> Some (s\<lparr>as_db := d'\<rparr>, server_error ae e)
             | (d', Inr i) \<Rightarrow>
                 emit_reply ae
                   ((admin_event ''rule_upsert'')\<lparr>ev_Reason := ur_Name q, ev_RuleID := i,
                      ev_Extra := [(''kind'', JString (ur_Kind q)), (''action'', JString (ur_Action q))]\<rparr>)
                   (reply 200 (Json (JObject [(''id'', jint i)]))) (s\<lparr>as_db := d'\<rparr>)))"

definition enabled_field :: "bool \<Rightarrow> string \<Rightarrow> json \<Rightarrow> bool \<times> string option" where
  "enabled_field b k v = (if equal_fold k ''enabled'' then decode_bool b v else (b, None))"

definition setRuleEnabled :: "admin_env \<Rightarrow> string \<Rightarrow> string \<Rightarrow> admin_state \<Rightarrow> admin_result" where
  "setRuleEnabled ae param bdy s =
     (case parse_int64 param of
        None \<Rightarrow> Some (s, bad_id ae ''id'' param)
      | Some i \<Rightarrow>
          (case bind_json enabled_field False bdy of
             None \<Rightarrow> Some (s, bad_json ae bdy)
           | Some b \<Rightarrow>
               emit_reply ae
                 ((admin_event ''rule_set_enabled'')\<lparr>ev_RuleID := i, ev_Extra := [(''enabled'', JBool b)]\<rparr>)
                 (reply 204 NoBody) (s\<lparr>as_db := SetEnabled i b (as_db s)\<rparr>)))"

text \<open>The event first, the delete after it; the logger's drainer runs by itself.\<close>

definition deleteRule :: "admin_env \<Rightarrow> string \<Rightarrow> admin_state \<Rightarrow> admin_result" where
  "deleteRule ae param s =
     (case parse_int64 param of
        None \<Rightarrow> Some (s, bad_id ae ''id'' param)
      | Some i \<Rightarrow>
          map_option (\<lambda>s'. (s'\<lparr>as_db := rules_Delete i (as_db s')\<rparr>, reply 204 NoBody))
            (emit ae ((admin_event ''rule_delete'')\<lparr>ev_RuleID := i\<rparr>) s))"

section \<open>Audit log\<close>

definition event_json :: "admin_env \<Rightarrow> event \<Rightarrow> json" where
  "event_json ae e =
     JObject [(''CreatedUnix'', jint (ev_CreatedUnix e)), (''UserID'', jint (ev_UserID e)), (''TokenID'', jint (ev_TokenID e)),
       (''RequestID'', JString (ev_RequestID e)), (''RemoteAddr'', JString (ev_RemoteAddr e)),
       (''UserAgent'', JString (ev_UserAgent e)), (''ActorKind'', JString (ev_ActorKind e)),
       (''TenantID'', jint (ev_TenantID e)), (''Action'', JString (ev_Action e)), (''Format'', JString (ev_Format e)),
       (''Package'', JString (ev_Package e)), (''Version'', JString (ev_Version e)), (''Filename'', JString (ev_Filename e)),
       (''Decision'', JString (ev_Decision e)), (''RuleID'', jint (ev_RuleID e)), (''Reason'', JString (ev_Reason e)),
       (''Extra'', if ev_Extra e = [] then JNull
                   else (case any_json (ad_num ae) (JObject (ev_Extra e)) of None \<Rightarrow> JNull | Some v \<Rightarrow> v))]"

text \<open>A \<open>nil\<close> slice is printed as \<open>null\<close>.\<close>

definition json_slice :: "('a \<Rightarrow> json) \<Rightarrow> 'a list \<Rightarrow> json" where
  "json_slice f xs = (if xs = [] then JNull else JArray (map f xs))"

definition listAudit :: "admin_env \<Rightarrow> (string \<Rightarrow> string) \<Rightarrow> admin_state \<Rightarrow> admin_result" where
  "listAudit ae q s =
     (let query = \<lparr>aq_TenantID = query_int q ''tenant_id'', aq_Format = q ''format'', aq_Package = q ''package'',
            aq_Version = q ''version'', aq_UserID = query_int q ''user_id'', aq_Action = q ''action'',
            aq_Decision = q ''decision'', aq_Limit = query_int q ''limit'', aq_Since = query_int q ''since''\<rparr>
      in Some (s, reply 200 (Json (JObject [(''events'',
           json_slice (event_json ae) (ListEvents (ad_extra ae) (as_db s) query))]))))"

section \<open>Packages\<close>

definition package_json :: "db \<Rightarrow> package \<Rightarrow> json" where
  "package_json d p =
     JObject [(''id'', jint (pkg_ID p)), (''tenant_id'', jint (pkg_TenantID p)), (''type'', JString (pkg_Type p)),
       (''name'', JString (pkg_Name p)), (''lower_name'', JString (pkg_LowerName p)),
       (''created_unix'', jint (pkg_CreatedUnix p)), (''created_via'', JString (pkg_CreatedVia p)),
       (''versions'', jint (int (length (ListVersions d (pkg_ID p)))))]"

text \<open>\<open>filtered[min(offset, len(filtered)):end]\<close> and the offset of the next page; \<open>None\<close>: the slice bounds are out
  of range, which panics. The sum of offset and limit is one of 64 bits.\<close>

definition package_page :: "'a list \<Rightarrow> int \<Rightarrow> int \<Rightarrow> ('a list \<times> int option) option" where
  "package_page filtered offset limit =
     (let n = int (length filtered); end0 = wrap64 (offset + limit); end1 = (if end0 > n then n else end0); lo = min offset n in
      if end1 < lo then None
      else Some (drop (nat lo) (take (nat end1) filtered), (if end1 < n then Some end1 else None)))"

definition page_limit :: "string \<Rightarrow> int" where
  "page_limit v = (if v = [] then 100 else case parse_int64 v of None \<Rightarrow> 100 | Some n \<Rightarrow> if n > 0 \<and> n \<le> 1000 then n else 100)"

definition page_offset :: "string \<Rightarrow> int" where
  "page_offset v = (if v = [] then 0 else case parse_int64 v of None \<Rightarrow> 0 | Some n \<Rightarrow> if n \<ge> 0 then n else 0)"

definition listed_packages :: "(string \<Rightarrow> string) \<Rightarrow> db \<Rightarrow> package list" where
  "listed_packages q d =
     filter (\<lambda>p. q ''provenance'' = [] \<or> pkg_CreatedVia p = q ''provenance'')
       (ListPackages d (query_int q ''tenant_id'') (q ''format''))"

definition listPackages :: "(string \<Rightarrow> string) \<Rightarrow> admin_state \<Rightarrow> admin_result" where
  "listPackages q s =
     (let filtered = listed_packages q (as_db s) in
      case package_page filtered (page_offset (q ''offset'')) (page_limit (q ''limit'')) of
        None \<Rightarrow> None
      | Some (page, next_offset) \<Rightarrow>
          Some (s, reply 200 (Json (JObject
            [(''packages'', JArray (map (package_json (as_db s)) page)),
             (''total'', jint (int (length filtered))),
             (''next_offset'', (case next_offset of None \<Rightarrow> JNull | Some n \<Rightarrow> jint n))]))))"

definition via_field :: "string \<Rightarrow> string \<Rightarrow> json \<Rightarrow> string \<times> string option" where
  "via_field cur k v = (if equal_fold k ''created_via'' then decode_string ''string'' k cur v else (cur, None))"

definition setPackageProvenance :: "admin_env \<Rightarrow> string \<Rightarrow> string \<Rightarrow> admin_state \<Rightarrow> admin_result" where
  "setPackageProvenance ae param bdy s =
     (case parse_int64 param of
        None \<Rightarrow> Some (s, bad_id ae ''id'' param)
      | Some i \<Rightarrow>
          (case bind_json via_field [] bdy of
             None \<Rightarrow> Some (s, bad_json ae bdy)
           | Some via \<Rightarrow>
               (if \<not> CreatedVia_Valid via then
                  Some (s, reply 400 (Text (''created_via '' @ go_quote via
                    @ '' is not a recognized value (want 'uploaded' or 'pull_through')'')))
                else case GetPackageByID (as_db s) i of
                    Inl e \<Rightarrow> Some (s, if e = ErrPackageNotExist then reply 404 (Text ''no such package'') else server_error ae e)
                  | Inr p \<Rightarrow>
                      (case SetPackageCreatedVia (pkg_ID p) via (as_db s) of
                         (d', Inl e) \<Rightarrow> Some (s\<lparr>as_db := d'\<rparr>, server_error ae e)
                       | (d', Inr _) \<Rightarrow>
                           emit_reply ae
                             ((admin_event ''tenants.package.set_provenance'')\<lparr>ev_TenantID := pkg_TenantID p,
                                ev_Format := pkg_Type p, ev_Package := pkg_Name p, ev_Reason := ''admin API flip'',
                                ev_Extra := [(''package_id'', jint (pkg_ID p)), (''old'', JString (pkg_CreatedVia p)),
                                  (''new'', JString via), (''source'', JString ''admin_api'')]\<rparr>)
                             (reply 200 (Json (JObject [(''id'', jint (pkg_ID p)), (''created_via'', JString via)])))
                             (s\<lparr>as_db := d'\<rparr>)))))"

section \<open>Quarantine\<close>

definition quarantined_json :: "quarantined_view \<Rightarrow> json" where
  "quarantined_json v =
     JObject [(''VersionID'', jint (qv_VersionID v)), (''PackageID'', jint (qv_PackageID v)), (''TenantID'', jint (qv_TenantID v)),
       (''Type'', JString (qv_Type v)), (''PackageName'', JString (qv_PackageName v)), (''Version'', JString (qv_Version v)),
       (''CreatedUnix'', jint (qv_CreatedUnix v)), (''Reason'', JString (qv_Reason v)), (''RuleID'', jint (qv_RuleID v))]"

definition listQuarantine :: "(string \<Rightarrow> string) \<Rightarrow> admin_state \<Rightarrow> admin_result" where
  "listQuarantine q s =
     Some (s, reply 200 (Json (JObject [(''quarantined'',
       json_slice quarantined_json (ListQuarantined (as_db s) (query_int q ''tenant_id'')))])))"

definition promoteQuarantine :: "admin_env \<Rightarrow> string \<Rightarrow> (string \<Rightarrow> string) \<Rightarrow> admin_state \<Rightarrow> admin_result" where
  "promoteQuarantine ae param q s =
     (case parse_int64 param of
        None \<Rightarrow> Some (s, bad_id ae ''version_id'' param)
      | Some i \<Rightarrow>
          (case PromoteVersion i (as_db s) of
             (d', Inl e) \<Rightarrow>
               Some (s\<lparr>as_db := d'\<rparr>, if e = ErrVersionNotExist then reply 404 (Text ''no such version'') else server_error ae e)
           | (d', Inr _) \<Rightarrow>
               emit_reply ae
                 ((admin_event ''promote_quarantined'')\<lparr>ev_Reason := q ''reason'', ev_Extra := [(''version_id'', jint i)]\<rparr>)
                 (reply 204 NoBody) (s\<lparr>as_db := d'\<rparr>)))"

definition rejectQuarantine :: "admin_env \<Rightarrow> string \<Rightarrow> (string \<Rightarrow> string) \<Rightarrow> admin_state \<Rightarrow> admin_result" where
  "rejectQuarantine ae param q s =
     (case parse_int64 param of
        None \<Rightarrow> Some (s, bad_id ae ''version_id'' param)
      | Some i \<Rightarrow>
          (let reason = (if q ''reason'' = [] then ''rejected by admin'' else q ''reason'') in
           case QuarantineVersion i 0 (''REJECTED: '' @ reason) (as_db s) of
             (d', Inl e) \<Rightarrow>
               Some (s\<lparr>as_db := d'\<rparr>, if e = ErrVersionNotExist then reply 404 (Text ''no such version'') else server_error ae e)
           | (d', Inr _) \<Rightarrow>
               emit_reply ae
                 ((admin_event ''reject_quarantined'')\<lparr>ev_Reason := reason, ev_Extra := [(''version_id'', jint i)]\<rparr>)
                 (reply 204 NoBody) (s\<lparr>as_db := d'\<rparr>)))"

section \<open>The routes\<close>

datatype admin_call =
    ListRules | UpsertRule string | SetRuleEnabled string string | DeleteRule string
  | ListAudit "string \<Rightarrow> string" | ListPackagesCall "string \<Rightarrow> string" | SetProvenance string string
  | ListQuarantine "string \<Rightarrow> string" | PromoteQuarantine string "string \<Rightarrow> string"
  | RejectQuarantine string "string \<Rightarrow> string"

fun admin_dispatch :: "admin_env \<Rightarrow> admin_call \<Rightarrow> admin_state \<Rightarrow> admin_result" where
  "admin_dispatch ae ListRules s = listRules ae s"
| "admin_dispatch ae (UpsertRule bdy) s = upsertRule ae bdy s"
| "admin_dispatch ae (SetRuleEnabled i bdy) s = setRuleEnabled ae i bdy s"
| "admin_dispatch ae (DeleteRule i) s = deleteRule ae i s"
| "admin_dispatch ae (ListAudit q) s = listAudit ae q s"
| "admin_dispatch ae (ListPackagesCall q) s = listPackages q s"
| "admin_dispatch ae (SetProvenance i bdy) s = setPackageProvenance ae i bdy s"
| "admin_dispatch ae (ListQuarantine q) s = listQuarantine q s"
| "admin_dispatch ae (PromoteQuarantine i q) s = promoteQuarantine ae i q s"
| "admin_dispatch ae (RejectQuarantine i q) s = rejectQuarantine ae i q s"

definition admin_serve :: "admin_env \<Rightarrow> identity option \<Rightarrow> admin_call \<Rightarrow> admin_state \<Rightarrow> admin_result" where
  "admin_serve ae idn call s =
     (case requireSystemAdmin idn of Inl rp \<Rightarrow> Some (s, rp) | Inr _ \<Rightarrow> admin_dispatch ae call s)"

end
