(* ===== verification/Admin_Laws.thy ===== *)
theory Admin_Laws
  imports Admin_Api Rule_Laws Audit_Laws
begin

text \<open>
  What the administrative API promises: a client that follows \<open>next_offset\<close> sees every package once, what a page
  whose end does not fit into 64 bits does, the rule a request saves, and what becomes of the event of a deletion.
\<close>

section \<open>Following the pages\<close>

lemma page_limit_bounds: "0 < page_limit v \<and> page_limit v \<le> 1000"
  by (simp add: page_limit_def split: option.splits)

lemma page_offset_nonneg: "0 \<le> page_offset v"
  by (simp add: page_offset_def split: option.splits)

lemma page_offset_bound: "page_offset v < 2 ^ 63"
  by (auto simp: page_offset_def parse_int64_def Let_def int64_range_def split: option.splits if_splits)

lemma wrap64_over:
  assumes "2 ^ 63 \<le> x" and "x < 2 ^ 64"
  shows "wrap64 x = x - 2 ^ 64"
proof -
  have "x + 2 ^ 63 = (x - 2 ^ 63) + 2 ^ 64" by simp
  then have "(x + 2 ^ 63) mod 2 ^ 64 = (x - 2 ^ 63) mod 2 ^ 64" by (simp only: mod_add_self2)
  also have "\<dots> = x - 2 ^ 63" using assms by (intro mod_pos_pos_trivial) auto
  finally show ?thesis by (simp add: wrap64_mod)
qed

text \<open>The client: it asks for the page at \<open>o\<close> and goes on at the offset the answer names, at most \<open>fuel\<close> times.\<close>

definition page_of_reply :: "response \<Rightarrow> (json list \<times> string option) option" where
  "page_of_reply rp =
     (case rs_Body rp of
        Json (JObject [(_, JArray ps), (_, _), (_, JNull)]) \<Rightarrow> Some (ps, None)
      | Json (JObject [(_, JArray ps), (_, _), (_, JNumber l)]) \<Rightarrow> Some (ps, Some l)
      | _ \<Rightarrow> None)"

fun packages_walk :: "nat \<Rightarrow> (string \<Rightarrow> string) \<Rightarrow> string \<Rightarrow> admin_state \<Rightarrow> json list option" where
  "packages_walk 0 q start s = None"
| "packages_walk (Suc fuel) q start s =
     (case listPackages (q(''offset'' := start)) s of
        None \<Rightarrow> None
      | Some (s', rp) \<Rightarrow>
          (case page_of_reply rp of
             None \<Rightarrow> None
           | Some (ps, None) \<Rightarrow> Some ps
           | Some (ps, Some l) \<Rightarrow> map_option ((@) ps) (packages_walk fuel q l s')))"

lemma listed_packages_offset [simp]: "listed_packages (q(''offset'' := start)) d = listed_packages q d"
  by (simp add: listed_packages_def query_int_def)

lemma page_offset_show: "int64_range i \<Longrightarrow> 0 \<le> i \<Longrightarrow> page_offset (show_int i) = i"
proof -
  assume i: "int64_range i" "0 \<le> i"
  then have "show_int i \<noteq> []" using show_nat_head [of "nat i"] by (simp add: show_int_def)
  with i show "page_offset (show_int i) = i" by (simp add: page_offset_def parse_int64_show_int)
qed

lemma int_below: "n < 2 ^ 62 \<Longrightarrow> int n < 2 ^ 62"
  by simp

lemma package_page_at:
  assumes "k \<le> length xs" and "length xs < 2 ^ 62" and "0 < l" and "l \<le> 1000"
  shows "package_page xs (int k) l =
    (if k + nat l < length xs then Some (take (nat l) (drop k xs), Some (int (k + nat l))) else Some (drop k xs, None))"
proof -
  have "int (length xs) < 2 ^ 62" by (rule int_below [OF assms(2)])
  then have w: "wrap64 (int k + l) = int (k + nat l)" using assms by (subst wrap64_id) (auto simp: int64_range_def)
  have t: "drop k (take (k + nat l) xs) = take (nat l) (drop k xs)" by (simp add: take_drop add.commute)
  have k: "min (int k) (int (length xs)) = int k" using assms(1) by simp
  show ?thesis using assms(1,3) by (auto simp add: package_page_def Let_def w t k simp del: of_nat_add)
qed

lemma walk_from:
  assumes n: "length (listed_packages q (as_db s)) < 2 ^ 62"
  shows "k \<le> length (listed_packages q (as_db s)) \<Longrightarrow> length (listed_packages q (as_db s)) - k < fuel \<Longrightarrow>
    packages_walk fuel q (show_int (int k)) s = Some (map (package_json (as_db s)) (drop k (listed_packages q (as_db s))))"
proof (induction fuel arbitrary: k)
  case 0
  then show ?case by simp
next
  case (Suc fuel)
  let ?xs = "listed_packages q (as_db s)"
  let ?l = "page_limit (q ''limit'')"
  have l: "0 < ?l" "?l \<le> 1000" using page_limit_bounds by auto
  have "int k < 2 ^ 62" using n Suc.prems(1) by (intro int_below) linarith
  then have o: "page_offset (show_int (int k)) = int k" by (intro page_offset_show) (auto simp: int64_range_def)
  note page = package_page_at [OF Suc.prems(1) n l]
  show ?case
  proof (cases "k + nat ?l < length ?xs")
    case True
    then have "packages_walk fuel q (show_int (int (k + nat ?l))) s =
        Some (map (package_json (as_db s)) (drop (k + nat ?l) ?xs))"
      using Suc.prems l by (intro Suc.IH) auto
    moreover have "take (nat ?l) (drop k ?xs) @ drop (k + nat ?l) ?xs = drop k ?xs"
      by (simp only: add.commute [of k] drop_drop [symmetric] append_take_drop_id)
    ultimately show ?thesis
      using True by (simp add: listPackages_def Let_def o page page_of_reply_def jint_def flip: map_append)
  next
    case False
    then show ?thesis by (simp add: listPackages_def Let_def o page page_of_reply_def)
  qed
qed

text \<open>
C36: The package listing: a client that starts at offset 0 and asks again with the \<open>next_offset\<close> of each answer until it is
  \<open>null\<close> receives, whatever limit it gave, exactly the packages that pass the filters, each once, in the order of the store.
\<close>

theorem packages_walk_complete:
  assumes "length (listed_packages q (as_db s)) < 2 ^ 62"
  shows "packages_walk (Suc (length (listed_packages q (as_db s)))) q ''0'' s =
    Some (map (package_json (as_db s)) (listed_packages q (as_db s)))"
proof -
  have "show_int (int 0) = ''0''" by code_simp
  with walk_from [OF assms, of 0 "Suc (length (listed_packages q (as_db s)))"] show ?thesis by simp
qed

definition shop_row :: "int \<Rightarrow> int \<Rightarrow> string \<Rightarrow> package" where
  "shop_row i t n = \<lparr>pkg_ID = i, pkg_TenantID = t, pkg_Type = ''npm'', pkg_Name = n, pkg_LowerName = n,
     pkg_CreatedUnix = 5, pkg_CreatedVia = ''uploaded''\<rparr>"

definition shop :: admin_state where
  "shop = \<lparr>as_db = (fresh_db 0)\<lparr>db_packages := \<lparr>rows = [shop_row 1 2 ''b'', shop_row 2 1 ''a'', shop_row 3 4 ''c''], seq = 3\<rparr>\<rparr>,
     as_log = None\<rparr>"

definition shop_query :: "string \<Rightarrow> string" where
  "shop_query = (\<lambda>k. if k = ''limit'' then ''2'' else [])"

theorem packages_walk_complete_witness:
  "packages_walk 4 shop_query ''0'' shop =
     Some (map (package_json (as_db shop)) [shop_row 2 1 ''a'', shop_row 1 2 ''b'', shop_row 3 4 ''c''])"
proof -
  have l: "listed_packages shop_query (as_db shop) = [shop_row 2 1 ''a'', shop_row 1 2 ''b'', shop_row 3 4 ''c'']"
    by (simp add: listed_packages_def shop_query_def query_int_def ListPackages_def shop_def shop_row_def sort_key_def)
  then have n: "Suc (length (listed_packages shop_query (as_db shop))) = 4" "length (listed_packages shop_query (as_db shop)) < 2 ^ 62"
    by simp_all
  show ?thesis using packages_walk_complete [OF n(2), unfolded n(1)] by (simp only: l)
qed

text \<open>
  The end of a page is computed with 64-bit arithmetic before it is bounded: the listing panics exactly when the offset and
  the limit the request names add up to \<open>2 ^ 63\<close> or more. Every other request gets an answer with status 200 that leaves the
  state as it was, however large the offset is.
\<close>

theorem list_packages_offset_overflow:
  assumes "length (listed_packages q (as_db s)) < 2 ^ 62"
  shows "(listPackages q s = None \<longleftrightarrow> 2 ^ 63 \<le> page_offset (q ''offset'') + page_limit (q ''limit''))
    \<and> (\<forall>s' rp. listPackages q s = Some (s', rp) \<longrightarrow> s' = s \<and> rs_Status rp = 200)"
proof -
  let ?xs = "listed_packages q (as_db s)" and ?o = "page_offset (q ''offset'')" and ?l = "page_limit (q ''limit'')"
  have b: "0 \<le> ?o" "?o < 2 ^ 63" "0 < ?l" "?l \<le> 1000"
    using page_offset_nonneg page_offset_bound page_limit_bounds by blast+
  have n: "int (length ?xs) < 2 ^ 62" by (rule int_below [OF assms])
  have "package_page ?xs ?o ?l = None \<longleftrightarrow> 2 ^ 63 \<le> ?o + ?l"
  proof (cases "2 ^ 63 \<le> ?o + ?l")
    case True
    then have "wrap64 (?o + ?l) = ?o + ?l - 2 ^ 64" using b by (intro wrap64_over) auto
    with True b n show ?thesis by (auto simp: package_page_def Let_def)
  next
    case False
    then have "wrap64 (?o + ?l) = ?o + ?l" using b by (intro wrap64_id) (auto simp: int64_range_def)
    with False b show ?thesis by (auto simp: package_page_def Let_def)
  qed
  then show ?thesis by (auto simp: listPackages_def Let_def split: option.splits)
qed

definition far_query :: "string \<Rightarrow> string" where
  "far_query = (\<lambda>k. if k = ''offset'' then ''9223372036854775807'' else [])"

theorem list_packages_offset_overflow_witness: "listPackages far_query shop = None"
proof -
  have "listed_packages far_query (as_db shop) = [shop_row 2 1 ''a'', shop_row 1 2 ''b'', shop_row 3 4 ''c'']"
    by (simp add: listed_packages_def far_query_def query_int_def ListPackages_def shop_def shop_row_def sort_key_def)
  moreover have "page_offset (far_query ''offset'') = 9223372036854775807"
    by (simp add: page_offset_def far_query_def parse_int64_def digit_value_def int64_range_def)
  moreover have "page_limit (far_query ''limit'') = 100" by (simp add: page_limit_def far_query_def)
  ultimately show ?thesis using list_packages_offset_overflow [of far_query shop] by simp
qed


section \<open>The rule a request saves\<close>

text \<open>
  A rule posted with a package that is not in lower case is saved and answered with 200, but it matches no subject: subjects
  carry the lower-case name of their package and \<open>Matches\<close> compares exactly. The rule file and the console lower the name
  before they save it, the administrative API does not.
\<close>

theorem mixed_case_rule_never_matches:
  assumes "rules_ok (as_db s)" and "bind_json (upsert_field (ad_num ae)) zero_upsert_req bdy = Some q"
    and "upsertRule ae bdy s = Some (s', rp)" and "rs_Status rp = 200"
    and "to_lower (trim_space (ur_Package q)) \<noteq> trim_space (ur_Package q)"
  shows "\<exists>r. rules_GetByName (as_db s') (ur_Name q) = Inr r
    \<and> rule_Package r = trim_space (ur_Package q) \<and> rule_Enabled r = (ur_Enabled q \<noteq> Some False)
    \<and> (\<forall>now subj. to_lower (subj_Package subj) = subj_Package subj \<longrightarrow> \<not> Matches now r subj)"
proof -
  let ?r = "rule_of_req q"
  from assms(2-4) obtain d' i where up: "Upsert (ad_now ae) ?r (as_db s) = (d', Inr i)" and d': "as_db s' = d'"
    by (auto simp: upsertRule_def emit_reply_def emit_def server_error_def Let_def
        split: if_splits prod.splits sum.splits option.splits)
  note S = Upsert_success [OF assms(1) up]
  have t: "table_ok rr_id rr_name (db_rules (as_db s))" using assms(1) by (simp add: rules_ok_def)
  have look: "rules_GetByName d' (rule_Name ?r) = Inr (saved_rule ?r (case rules_GetByName (as_db s) (rule_Name ?r) of
       Inr old \<Rightarrow> old | Inl _ \<Rightarrow> ?r\<lparr>rule_ID := seq (db_rules (as_db s)) + 1, rule_CreatedUnix := ad_now ae\<rparr>))"
    using upserted_lookup(1) [OF t, of "upsert_defaults (ad_now ae) ?r"] S(1)
    by (auto simp: rules_GetByName_def scan_update scan_new rule_of_req_def dest: select_oneD split: option.splits)
  have "\<not> Matches now (saved_rule ?r old) subj" if "to_lower (subj_Package subj) = subj_Package subj" for now old subj
  proof
    assume m: "Matches now (saved_rule ?r old) subj"
    have pkg: "rule_Package (saved_rule ?r old) = trim_space (ur_Package q)" by (simp add: saved_rule_def rule_of_req_def)
    have "trim_space (ur_Package q) \<noteq> []" using assms(5) by auto
    with Matches_package [OF m] pkg assms(5) that show False by simp
  qed
  with look d' show ?thesis by (auto simp: rule_of_req_def saved_rule_def split: option.splits)
qed

definition desk_ae :: admin_env where
  "desk_ae = \<lparr>ad_now = 7, ad_actor = None, ad_num = Some, ad_extra = \<lambda>_. None, ad_error_text = \<lambda>_. ''error'',
     ad_json_error = \<lambda>_. ''error'', ad_parse_error = \<lambda>_. ''error''\<rparr>"

definition block_body :: string where
  "block_body = ''{\"name\":\"b\",\"kind\":\"block\",\"action\":\"deny\",\"package\":\"Left-Pad\"}''"

definition block_req :: upsert_req where
  "block_req = zero_upsert_req\<lparr>ur_Name := ''b'', ur_Kind := ''block'', ur_Action := ''deny'', ur_Package := ''Left-Pad''\<rparr>"

theorem mixed_case_rule_never_matches_witness:
  "\<exists>s' rp r. upsertRule desk_ae block_body shop = Some (s', rp) \<and> rules_GetByName (as_db s') ''b'' = Inr r
     \<and> rule_Package r = ''Left-Pad'' \<and> \<not> Matches 9 r (sample_subject\<lparr>subj_Package := ''left-pad''\<rparr>)"
proof -
  have q: "bind_json (upsert_field (ad_num desk_ae)) zero_upsert_req block_body = Some block_req" by code_simp
  have trim: "trim_space (ur_Package block_req) = ''Left-Pad''" "ur_Name block_req = ''b''"
    "to_lower ''Left-Pad'' \<noteq> ''Left-Pad''" "to_lower ''left-pad'' = ''left-pad''" by code_simp+
  have d: "db_rules (as_db shop) = \<lparr>rows = [], seq = 0\<rparr>" by (simp add: shop_def fresh_db_def)
  have "db_rules (as_db shop) = db_rules (fresh_db 0)" by (simp add: shop_def)
  then have ok: "rules_ok (as_db shop)" using rules_ok_fresh [of 0, unfolded rules_ok_def] by (simp only: rules_ok_def)
  have f: "ur_Name block_req \<noteq> []" "ur_Kind block_req \<noteq> []" "ur_Action block_req \<noteq> []" "ur_TenantID block_req = 0"
    by (simp_all add: block_req_def zero_upsert_req_def)
  have "select_one (\<lambda>row. rr_name row = ur_Name block_req) (db_rules (as_db shop)) = None" by (simp add: d select_one_def)
  then obtain d' i where ins: "Upsert (ad_now desk_ae) (rule_of_req block_req) (as_db shop) = (d', Inr i)"
    using f by (simp add: Upsert_def Let_def rules_GetByName_def opt_exists_def nullInt_def insert_row_def rule_of_req_def)
  obtain s' rp where up: "upsertRule desk_ae block_body shop = Some (s', rp)" "rs_Status rp = 200"
    by (simp add: upsertRule_def q f ins emit_reply_def emit_def, simp add: shop_def)
  from mixed_case_rule_never_matches [OF ok q up] trim up(1) show ?thesis by auto
qed

section \<open>The event of a deletion\<close>

definition queued_event :: "admin_env \<Rightarrow> event \<Rightarrow> event" where
  "queued_event ae e =
     (let a = ActorFromContext (ad_actor ae)
      in e\<lparr>ev_CreatedUnix := (if ev_CreatedUnix e = 0 then ad_now ae else ev_CreatedUnix e), ev_UserID := act_UserID a,
           ev_TokenID := act_TokenID a, ev_RequestID := act_RequestID a, ev_RemoteAddr := act_RemoteAddr a,
           ev_UserAgent := act_UserAgent a\<rparr>)"

lemma emit_queues:
  assumes "as_log s = Some l" and "\<not> bl_closed l" and "length (bl_in l) < bl_cap l"
  shows "emit ae e s = Some (s\<lparr>as_log := Some (l\<lparr>bl_in := bl_in l @ [queued_event ae e]\<rparr>)\<rparr>)"
  using assms by (simp add: emit_def logger_Log_def Let_def queued_event_def)

lemma queued_event_simps [simp]:
  "ev_Action (queued_event ae e) = ev_Action e" "ev_RuleID (queued_event ae e) = ev_RuleID e"
  "ev_TenantID (queued_event ae e) = ev_TenantID e" "ev_UserID (queued_event ae e) = act_UserID (ActorFromContext (ad_actor ae))"
  "ev_TokenID (queued_event ae e) = act_TokenID (ActorFromContext (ad_actor ae))"
  by (simp_all add: queued_event_def Let_def)

lemma missing_rule_event_lost:
  assumes "\<not> rule_exists d (ev_RuleID e)" and "ev_RuleID e \<noteq> 0"
  shows "drain_one encode (l\<lparr>bl_in := [e]\<rparr>) d = Some (l\<lparr>bl_in := []\<rparr>, d, e, False)"
  using assms by (simp add: drain_one_def sink_Write_def opt_exists_def nullInt_def)

text \<open>
C37: Deleting a rule puts the event of the deletion into the logger's queue before it deletes the row. Whether the event is
  recorded is a race: a drainer that is first writes the row, and the delete leaves it with a \<open>NULL\<close> rule; a drainer that
  comes after the delete fails on the foreign key, and the event is lost without counting as dropped. The answer is 204 both times.
\<close>

theorem rule_delete_event_race:
  assumes "parse_int64 param = Some i" and "i \<noteq> 0" and "rule_exists (as_db s) i"
    and "as_log s = Some l" and "\<not> bl_closed l" and "bl_in l = []" and "0 < bl_cap l"
    and "act_UserID (ActorFromContext (ad_actor ae)) = 0 \<or> user_exists (as_db s) (act_UserID (ActorFromContext (ad_actor ae)))"
    and "act_TokenID (ActorFromContext (ad_actor ae)) = 0 \<or> token_exists (as_db s) (act_TokenID (ActorFromContext (ad_actor ae)))"
  shows "\<exists>l' e d2. deleteRule ae param s = Some (\<lparr>as_db = rules_Delete i (as_db s), as_log = Some l'\<rparr>, reply 204 NoBody)
    \<and> ev_Action e = ''rule_delete'' \<and> Drops l' = Drops l
    \<and> drain_one encode l' (rules_Delete i (as_db s)) = Some (l, rules_Delete i (as_db s), e, False)
    \<and> drain_one encode l' (as_db s) = Some (l, d2, e, True)
    \<and> (\<exists>row \<in> set (rows (db_audit (rules_Delete i d2))). al_action row = ''rule_delete'' \<and> al_rule_id row = None)"
proof -
  let ?e = "(admin_event ''rule_delete'')\<lparr>ev_RuleID := i\<rparr>"
  let ?d = "as_db s"
  obtain e where em: "emit ae ?e s = Some (s\<lparr>as_log := Some (l\<lparr>bl_in := [e]\<rparr>)\<rparr>)"
    and e: "ev_Action e = ''rule_delete''" "ev_RuleID e = i" "ev_TenantID e = 0"
      "ev_UserID e = act_UserID (ActorFromContext (ad_actor ae))" "ev_TokenID e = act_TokenID (ActorFromContext (ad_actor ae))"
    using emit_queues [OF assms(4,5), of ae ?e] assms(6,7) by (auto simp: admin_event_def)
  have del: "deleteRule ae param s = Some (\<lparr>as_db = rules_Delete i ?d, as_log = Some (l\<lparr>bl_in := [e]\<rparr>)\<rparr>, reply 204 NoBody)"
    using em assms(1) by (simp add: deleteRule_def)
  have gone: "\<not> rule_exists (rules_Delete i ?d) (ev_RuleID e)"
    using e(2) by (auto simp: rules_Delete_def rule_exists_def)
  have l: "l\<lparr>bl_in := []\<rparr> = l" using assms(6) by (cases l) simp
  let ?d2 = "?d\<lparr>db_audit := snd (insert_row (mk_audit_row encode e) (db_audit ?d))\<rparr>"
  have early: "drain_one encode (l\<lparr>bl_in := [e]\<rparr>) ?d = Some (l, ?d2, e, True)"
    using e assms(3,8,9) by (auto simp: drain_one_def sink_Write_def opt_exists_def nullInt_def l)
  have "rule_exists ?d2 i" using assms(3) by (simp add: rule_exists_def)
  then have "\<exists>row \<in> set (rows (db_audit (rules_Delete i ?d2))). al_action row = ''rule_delete'' \<and> al_rule_id row = None"
    using e assms(2) by (auto simp: rules_Delete_def insert_row_def Let_def mk_audit_row_def nullInt_def image_iff)
  with del early missing_rule_event_lost [OF gone] e assms(2) l show ?thesis by (auto simp: Drops_def)
qed

definition ruled :: admin_state where
  "ruled = \<lparr>as_db = sample_rule_db, as_log = Some (new_logger 8)\<rparr>"

theorem rule_delete_event_race_witness:
  "\<exists>l'. deleteRule desk_ae ''1'' ruled = Some (\<lparr>as_db = rules_Delete 1 (as_db ruled), as_log = Some l'\<rparr>, reply 204 NoBody)
     \<and> (\<exists>e. drain_one (\<lambda>_. None) l' (rules_Delete 1 (as_db ruled)) = Some (new_logger 8, rules_Delete 1 (as_db ruled), e, False))"
proof -
  have p: "parse_int64 ''1'' = Some 1" by (simp add: parse_int64_def digit_value_def int64_range_def)
  have x: "rule_exists (as_db ruled) 1" by (simp add: rule_exists_def ruled_def sample_rule_db_def mk_rule_row_def)
  have l: "as_log ruled = Some (new_logger 8)" by (simp add: ruled_def)
  have a: "act_UserID (ActorFromContext (ad_actor desk_ae)) = 0" "act_TokenID (ActorFromContext (ad_actor desk_ae)) = 0"
    by (simp_all add: desk_ae_def ActorFromContext_def zero_actor_def)
  from rule_delete_event_race [OF p _ x l, of desk_ae "\<lambda>_. None"] a show ?thesis by (auto simp: new_logger_def)
qed

text \<open>Enabling a rule that does not exist is answered with 204, and its event is lost as well.\<close>

lemma set_missing_rule:
  assumes "parse_int64 param = Some i" and "\<not> rule_exists (as_db s) i" and "i \<noteq> 0" and "bind_json enabled_field False bdy = Some b"
    and "as_log s = Some l" and "\<not> bl_closed l" and "bl_in l = []" and "0 < bl_cap l"
  shows "\<exists>l' e. setRuleEnabled ae param bdy s = Some (s\<lparr>as_log := Some l'\<rparr>, reply 204 NoBody)
    \<and> drain_one encode l' (as_db s) = Some (l, as_db s, e, False)"
proof -
  have same: "SetEnabled i b (as_db s) = as_db s"
    using assms(2) by (auto simp: SetEnabled_def update_where_def rule_exists_def intro!: db.equality sql_table.equality map_idI)
  let ?e = "(admin_event ''rule_set_enabled'')\<lparr>ev_RuleID := i, ev_Extra := [(''enabled'', JBool b)]\<rparr>"
  obtain e where "emit ae ?e s = Some (s\<lparr>as_log := Some (l\<lparr>bl_in := [e]\<rparr>)\<rparr>)" "ev_RuleID e = i"
    using emit_queues [OF assms(5,6), of ae ?e] assms(7,8) by (auto simp: admin_event_def)
  moreover have "l\<lparr>bl_in := []\<rparr> = l" using assms(7) by (cases l) simp
  ultimately show ?thesis
    using missing_rule_event_lost [of "as_db s" e encode l] assms(1-4)
    by (auto simp: setRuleEnabled_def same emit_reply_def)
qed

end
