(* ===== verification/Spec2Isabelle.thy ===== *)
theory Spec2Isabelle
  imports Cooldown License Catalog_Steps Auth_Laws Lock_Pool Fetcher_Laws Rule_Laws Audit_Laws Service_Laws
    Ruby_Marshal Generic_Laws Upload_Races Container_Live Console_Net_Laws Console_SignIn Console_Token_Laws Console_Pages_Laws Admin_Laws
begin

text \<open>
  \<^bold>\<open>pkgmirror: a private package registry with pull-through caching and a supply-chain policy.\<close>

  A client uploads a package to, or downloads one from, one of ten format handlers. The request is
  authenticated (\<open>internal/auth\<close> on \<open>internal/tokens\<close>, \<open>internal/users\<close>, \<open>internal/tenants\<close>) and access to
  the tenant is checked. An upload is buffered and hashed, its bytes go to the object storage and its
  rows to the catalogue (\<open>internal/packages/service.go\<close>, \<open>internal/storage\<close>, \<open>internal/models\<close>). A
  download of something unknown may be fetched from the public registry
  (\<open>internal/upstream\<close>). Every upload and download is judged by the policy engine (\<open>internal/policy\<close>) on the
  rules of the rule store, and the decisions are logged (\<open>internal/audit\<close>).

  \<^bold>\<open>Theories.\<close> Theories named \<open>..._Laws\<close> and \<open>..._Steps\<close> prove properties; the others hold the models.

  \<^item> \<open>Prelude\<close>, \<open>Go_Strings\<close>, \<open>Go_Values\<close>, \<open>Encodings\<close>: results, lists, the string functions of Go, 64-bit
    wrap-around, decimal numbers, decoding JSON into struct fields, base64, base32, hex, SHA-256.
  \<^item> \<open>Path_Match\<close>: the globs of \<open>path.Match\<close>, against a specification by splittings.
  \<^item> \<open>Policy\<close>, \<open>Policy_Engine\<close>: \<open>policy.go\<close>, \<open>rule.go\<close>, \<open>actor.go\<close>, \<open>noop.go\<close>, \<open>engine.go\<close> of
    \<open>internal/policy\<close> - subjects, rules, matching, sorting, the snapshot, evaluation with evaluators that
    may panic. \<open>Cooldown\<close> and \<open>License\<close> are the two evaluators.
  \<^item> \<open>Rule_Store\<close>, \<open>Rule_Laws\<close>: \<open>rule_store.go\<close>, \<open>yaml.go\<close> and \<open>PullFromStore\<close> - saving and reading a
    rule, synchronising with the rule file, what a change of the rules does to the engine.
  \<^item> \<open>Tables\<close>, \<open>Database\<close>: SQL tables as records with their sequences, the rows of the schema of
    \<open>internal/db/db.go\<close>, the catalogue invariant. The locale \<open>keyed_rows\<close> is the interface between a
    table and the operations that insert into it.
  \<^item> \<open>Models_Store\<close>, \<open>Catalog\<close>, \<open>Catalog_Steps\<close>: \<open>internal/models/models.go\<close>, every operation; the
    invariant of every reachable catalogue, which operations change a package row, and the operations one by one.
  \<^item> \<open>Accounts\<close>, \<open>Accounts_Laws\<close>, \<open>Auth\<close>, \<open>Auth_Laws\<close>: tenants, users, tokens, header parsing,
    authentication, the access predicates, the route guards and the first-boot setup
    (\<open>internal/bootstrap\<close>).
  \<^item> \<open>Object_Storage\<close>, \<open>Storage_Laws\<close>: \<open>internal/storage/storage.go\<close>. A save returns every state the disk
    goes through; it is proved atomic and to implement assignment in a map. The locale
    \<open>object_storage\<close> is the interface \<open>ObjectStorage\<close>; \<open>LocalStorage\<close> is its interpretation.
  \<^item> \<open>Package_Service\<close>, \<open>Service_Laws\<close>: \<open>service.go\<close> over any store of the interface
    \<open>digest_storage\<close>, which extends \<open>object_storage\<close>, and over the local storage.
  \<^item> \<open>Lock_Pool\<close>: \<open>internal/syncutil/exclusive_pool.go\<close> as a step relation of goroutines.
  \<^item> \<open>Metadata_Cache\<close>, \<open>Rate_Limiter\<close>, \<open>Upstream_Config\<close>, \<open>Upstream_Guard\<close>, \<open>Capped_Reader\<close>, \<open>Fetcher\<close>,
    \<open>Fetcher_Laws\<close>: \<open>internal/upstream\<close> and \<open>internal/upstreamstore\<close> - the metadata cache, the token bucket,
    the configuration and its resolution, the host allowlist, the private-address guard, the byte
    cap on streams, and \<open>Fetch\<close> with its HTTP client.
  \<^item> \<open>Audit_Log\<close>, \<open>Audit_Laws\<close>: \<open>internal/audit\<close> and \<open>internal/server/policy_middleware.go\<close> - the buffered
    logger as a step relation, the writer, the pruner, the queries, the logging engine.
  \<^item> \<open>Http\<close>: responses, headers and the guards the handlers share. \<open>Generic_Handler\<close>,
    \<open>Generic_Laws\<close>: \<open>internal/packages/generic/handler.go\<close>, its four routes; what a push and a pull
    amount to together, who may do what, and that quarantine is not asked.
  \<^item> \<open>Ruby_Marshal\<close>: \<open>internal/packages/rubygems/marshal.go\<close>, proved against a reader of the format.
  \<^item> \<open>Go_Json\<close>: the texts of \<open>encoding/json\<close>, printed and parsed, with the round trip.
  \<^item> \<open>Container_Manifest\<close>, \<open>Container_Upload\<close>, \<open>Container_Handler\<close>: \<open>manifest.go\<close>, \<open>upload.go\<close> and
    \<open>handler.go\<close> of \<open>internal/packages/container\<close>. \<open>Upload_Laws\<close>: what is finalized has its digest,
    whatever appends run beside it, and what a write that fails part-way does to it. \<open>Upload_Races\<close>: the
    tracker in steps of single file operations, as the code does them outside the lock, a refused \<open>os.Remove\<close>
    included - who answers for each file of the staging directory in every interleaving.
    \<open>Container_Laws\<close>: requests one after another, while no staging write fails part-way, keep the catalogue, the
    store and the staging directory in agreement; who is let in. \<open>Container_Push\<close>, \<open>Container_Tags\<close>, \<open>Container_Live\<close>: what is pushed
    is what is pulled, what a manifest may refer to, pushing and deleting tags, which pushes go through.
  \<^item> \<open>Console_Net\<close>, \<open>Console_Session\<close>, \<open>Console_Login\<close>: \<open>internal/console/middleware\<close> and \<open>login.go\<close> - the
    address of a client behind proxies, the limiter, the session with its cookie, both authenticators and the route
    guards, signing in and out, setting a password. \<open>Console_Net_Laws\<close>: which part of \<open>X-Forwarded-For\<close> a client
    can forge, how many attempts pass. \<open>Console_Laws\<close>: a session belongs to the user who proved who they are.
    \<open>Console_SignIn\<close>: what the login form reveals, the one-shot token, the headers of a proxy.
  \<^item> \<open>Console_Tokens\<close>, \<open>Console_Token_Laws\<close>: \<open>tokens.go\<close> - the tokens of a user, what a minted token can do.
  \<^item> \<open>Console_Pages\<close>: \<open>tenants.go\<close>, \<open>packages.go\<close>, \<open>rules.go\<close>, \<open>upstreams.go\<close>, \<open>audit.go\<close>, \<open>dashboard.go\<close> and the
    routes of \<open>console.go\<close>. \<open>Console_Report\<close>: a reader of CSV files takes the exported audit log apart into the columns of
    the table, the order of the dashboard. \<open>Console_Pages_Laws\<close>: what a user who is not an administrator sees and
    changes - on every page but the dashboard, which names packages of all tenants -, members, upstreams, renaming a rule.
  \<^item> \<open>Admin_Api\<close>, \<open>Admin_Laws\<close>: \<open>internal/admin/admin.go\<close>, every route with its gate; the listing of packages page by
    page, events lost around the deletion of a rule.

  \<^bold>\<open>Conventions.\<close> The state an operation changes is an argument and a result. A Go error is the left
  side of a sum; a panic and a call that never returns are \<open>None\<close>. The current time, random bytes,
  what the network and the file system answer, and what an SQL driver reports after an insert that
  did nothing are arguments. A Go \<open>int64\<close> is an \<open>int\<close>, with \<open>wrap64\<close> where the code can overflow.

  \<^bold>\<open>Loops.\<close> The eviction loop of the metadata cache is a \<open>partial_function\<close>, proved to return on every
  well-formed cache. The redirect loop of the HTTP client ends after five requests, which is its
  termination measure; reading a capped stream to its end terminates because every read takes bytes
  or a chunk from it. Two definitions use fuel: the reader of the Ruby format (the nesting depth of the value)
  and the JSON parser (twice the length of the text, proved enough for every text: \<open>parse_fuel\<close>). The client that
  walks the package listing has fuel too, one request more than there are packages. The reader of exported
  logs ends because every field takes a character from the text.

  \<^bold>\<open>Not modelled.\<close> Disk and driver failures of the database, and the migrations themselves; the Argon2
  hash of passwords; MD5, SHA-1 and SHA-512, YAML, \<open>net/url\<close>, \<open>time.Parse\<close>, DNS and TLS,
  which are parameters; the sharing of one result between concurrent fetches (\<open>singleflight\<close>);
  rounding in the rate limiter's floats; the timer that starts the idle sweep of uploads. The other format
  handlers with their index and metadata parsers (\<open>internal/packages/*\<close>), the public UI and the wiring in \<open>cmd\<close>
  are not modelled; they call what is modelled here. Of the console the templates, the static files, the cookie store
  with its encryption and the CSRF, recovery, access-log and security-header wrappers are left out, which only call
  gorilla and gin.
\<close>

end
